(* ===== verification/Prelude.thy ===== *)
theory Prelude
  imports Main "HOL-Library.Word" "HOL-Library.Log_Nat"
begin

text \<open>
  Shared vocabulary of the development.

  \<^item> \<open>result\<close>: what a Rust call can do. \<open>Ok\<close> and \<open>Err\<close> are the two constructors of
    \<^verbatim>\<open>std::result::Result\<close>; \<open>Panic\<close> is an unwinding panic (a slice out of range, an
    \<^verbatim>\<open>unwrap\<close> on \<^verbatim>\<open>None\<close>); \<open>Diverge\<close> is a call that has not returned within the fuel
    given to a recursive definition.
  \<^item> bytes and big-endian conversions: \<^verbatim>\<open>to_be_bytes\<close> and \<^verbatim>\<open>from_be_bytes\<close> of the
    standard library and \<^verbatim>\<open>to_big_endian\<close> / \<^verbatim>\<open>from_big_endian\<close> of \<^verbatim>\<open>U256\<close>.
  \<^item> \<open>usize\<close> arithmetic as the release build computes it (wrapping), the \<^verbatim>\<open>checked_*\<close>
    operations on natural numbers below a bound, and slicing with its panic.
\<close>

section \<open>Automation collections\<close>

named_theorems bytes_simps \<open>equations of byte lists and big-endian conversions\<close>
named_theorems result_simps \<open>equations of the result type\<close>

section \<open>Machine types\<close>

type_synonym u8 = "8 word"
type_synonym u16 = "16 word"
type_synonym u32 = "32 word"
type_synonym u64 = "64 word"
type_synonym u128 = "128 word"
type_synonym u256 = "256 word"
type_synonym bytes = "8 word list"

section \<open>Results\<close>

datatype ('a, 'e) result = Ok 'a | Err 'e | Panic | Diverge

fun rbind :: "('a, 'e) result \<Rightarrow> ('a \<Rightarrow> ('b, 'e) result) \<Rightarrow> ('b, 'e) result" where
  "rbind (Ok a) f = f a"
| "rbind (Err e) f = Err e"
| "rbind Panic f = Panic"
| "rbind Diverge f = Diverge"

fun rmap_err :: "('e \<Rightarrow> 'f) \<Rightarrow> ('a, 'e) result \<Rightarrow> ('a, 'f) result" where
  "rmap_err g (Ok a) = Ok a"
| "rmap_err g (Err e) = Err (g e)"
| "rmap_err g Panic = Panic"
| "rmap_err g Diverge = Diverge"

fun ok_or :: "'a option \<Rightarrow> 'e \<Rightarrow> ('a, 'e) result" where
  "ok_or (Some a) e = Ok a"
| "ok_or None e = Err e"

fun is_Ok :: "('a, 'e) result \<Rightarrow> bool" where
  "is_Ok (Ok a) = True"
| "is_Ok _ = False"

lemma rbind_eq_Ok [result_simps]:
  "rbind m f = Ok b \<longleftrightarrow> (\<exists>a. m = Ok a \<and> f a = Ok b)"
  by (cases m) auto

lemma rbind_eq_Err [result_simps]:
  "rbind m f = Err e \<longleftrightarrow> m = Err e \<or> (\<exists>a. m = Ok a \<and> f a = Err e)"
  by (cases m) auto

lemma rbind_eq_Panic [result_simps]:
  "rbind m f = Panic \<longleftrightarrow> m = Panic \<or> (\<exists>a. m = Ok a \<and> f a = Panic)"
  by (cases m) auto

lemma rbind_eq_Diverge [result_simps]:
  "rbind m f = Diverge \<longleftrightarrow> m = Diverge \<or> (\<exists>a. m = Ok a \<and> f a = Diverge)"
  by (cases m) auto

lemma rbind_assoc: "rbind (rbind m f) g = rbind m (\<lambda>a. rbind (f a) g)"
  by (cases m) auto

lemma rbind_Ok_right [simp]: "rbind m Ok = m"
  by (cases m) auto

lemma rbind_cong [fundef_cong]:
  "m = m' \<Longrightarrow> (\<And>a. m' = Ok a \<Longrightarrow> f a = f' a) \<Longrightarrow> rbind m f = rbind m' f'"
  by (cases m') auto

lemma ok_or_eq_Ok [result_simps]: "ok_or x e = Ok a \<longleftrightarrow> x = Some a"
  by (cases x) auto

lemma ok_or_eq_Err [result_simps]: "ok_or x e = Err e' \<longleftrightarrow> x = None \<and> e' = e"
  by (cases x) auto

lemma ok_or_no_Panic [result_simps]: "ok_or x e \<noteq> Panic" "ok_or x e \<noteq> Diverge"
  by (cases x; simp)+

lemma rmap_err_eq_Ok [result_simps]: "rmap_err g m = Ok a \<longleftrightarrow> m = Ok a"
  by (cases m) auto

lemma rmap_err_eq_Panic [result_simps]:
  "rmap_err g m = Panic \<longleftrightarrow> m = Panic" "rmap_err g m = Diverge \<longleftrightarrow> m = Diverge"
  by (cases m; simp)+

section \<open>Integers below a bound\<close>

definition usize_bound :: nat where
  "usize_bound = 2 ^ 64"

definition usize_add :: "nat \<Rightarrow> nat \<Rightarrow> nat" where
  "usize_add a b = (a + b) mod usize_bound"

definition checked_add :: "nat \<Rightarrow> nat \<Rightarrow> nat \<Rightarrow> nat option" where
  "checked_add bound a b = (if a + b < bound then Some (a + b) else None)"

definition checked_sub :: "nat \<Rightarrow> nat \<Rightarrow> nat option" where
  "checked_sub a b = (if b \<le> a then Some (a - b) else None)"

definition checked_mul :: "nat \<Rightarrow> nat \<Rightarrow> nat \<Rightarrow> nat option" where
  "checked_mul bound a b = (if a * b < bound then Some (a * b) else None)"

definition checked_div :: "nat \<Rightarrow> nat \<Rightarrow> nat option" where
  "checked_div a b = (if b = 0 then None else Some (a div b))"

lemma checked_add_eq_Some [result_simps]:
  "checked_add bound a b = Some c \<longleftrightarrow> c = a + b \<and> a + b < bound"
  by (auto simp: checked_add_def)

lemma checked_sub_eq_Some [result_simps]: "checked_sub a b = Some c \<longleftrightarrow> b \<le> a \<and> c = a - b"
  by (auto simp: checked_sub_def)

lemma checked_mul_eq_Some [result_simps]:
  "checked_mul bound a b = Some c \<longleftrightarrow> c = a * b \<and> a * b < bound"
  by (auto simp: checked_mul_def)

lemma checked_div_eq_Some [result_simps]:
  "checked_div a b = Some c \<longleftrightarrow> b \<noteq> 0 \<and> c = a div b"
  by (auto simp: checked_div_def)

lemma usize_add_small: "a + b < usize_bound \<Longrightarrow> usize_add a b = a + b"
  by (simp add: usize_add_def)

section \<open>Slices\<close>

definition slice :: "'a list \<Rightarrow> nat \<Rightarrow> nat \<Rightarrow> ('a list, 'e) result" where
  "slice xs a b = (if a \<le> b \<and> b \<le> length xs then Ok (take (b - a) (drop a xs)) else Panic)"

definition slice_from :: "'a list \<Rightarrow> nat \<Rightarrow> ('a list, 'e) result" where
  "slice_from xs a = slice xs a (length xs)"

lemma slice_append:
  "a = length us \<Longrightarrow> b = a + length vs \<Longrightarrow> slice (us @ vs @ ws) a b = Ok vs"
  by (simp add: slice_def)

lemma slice_from_append: "a = length us \<Longrightarrow> slice_from (us @ vs) a = Ok vs"
  by (simp add: slice_from_def slice_def)

lemma slice_eq_Ok [result_simps]:
  "slice xs a b = Ok ys \<longleftrightarrow> a \<le> b \<and> b \<le> length xs \<and> ys = take (b - a) (drop a xs)"
  by (auto simp: slice_def)

lemma slice_no_Err [result_simps]: "slice xs a b \<noteq> Err e" "slice xs a b \<noteq> Diverge"
  by (auto simp: slice_def)

section \<open>Big-endian bytes\<close>

primrec be_bytes :: "nat \<Rightarrow> nat \<Rightarrow> bytes" where
  "be_bytes 0 n = []"
| "be_bytes (Suc k) n = be_bytes k (n div 256) @ [of_nat n]"

definition of_be_bytes :: "bytes \<Rightarrow> nat" where
  "of_be_bytes bs = foldl (\<lambda>a b. a * 256 + unat b) 0 bs"

definition to_be_bytes :: "'a::len word \<Rightarrow> bytes" where
  "to_be_bytes w = be_bytes (LENGTH('a) div 8) (unat w)"

definition from_be_bytes :: "bytes \<Rightarrow> 'a::len word" where
  "from_be_bytes bs = of_nat (of_be_bytes bs)"

lemma length_be_bytes [simp, bytes_simps]: "length (be_bytes k n) = k"
  by (induction k arbitrary: n) auto

lemma length_to_be_bytes [simp, bytes_simps]:
  "length (to_be_bytes (w :: 'a::len word)) = LENGTH('a) div 8"
  by (simp add: to_be_bytes_def)

lemma of_be_bytes_Nil [simp, bytes_simps]: "of_be_bytes [] = 0"
  by (simp add: of_be_bytes_def)

lemma of_be_bytes_snoc [simp, bytes_simps]:
  "of_be_bytes (bs @ [b]) = of_be_bytes bs * 256 + unat b"
  by (simp add: of_be_bytes_def)

lemma of_be_bytes_append:
  "of_be_bytes (xs @ ys) = of_be_bytes xs * 256 ^ length ys + of_be_bytes ys"
  by (induction ys rule: rev_induct) (simp_all flip: append_assoc add: algebra_simps)

lemma of_be_bytes_Cons:
  "of_be_bytes (b # bs) = unat b * 256 ^ length bs + of_be_bytes bs"
  using of_be_bytes_append [of "[b]" bs] of_be_bytes_snoc [of "[]" b] by simp

lemma unat_u8_lt: "unat (b :: u8) < 256"
proof -
  have "unat b < 2 ^ LENGTH(8)" by (rule unsigned_less)
  then show ?thesis by simp
qed

lemma of_be_bytes_lt: "of_be_bytes bs < 256 ^ length bs"
proof (induction bs rule: rev_induct)
  case Nil
  show ?case by simp
next
  case (snoc b bs)
  then have "of_be_bytes bs + 1 \<le> 256 ^ length bs" by simp
  then have "(of_be_bytes bs + 1) * 256 \<le> 256 ^ length bs * 256"
    by (rule mult_le_mono1)
  with unat_u8_lt [of b] show ?case by simp
qed

lemma unat_of_nat_u8: "unat (of_nat n :: u8) = n mod 256"
  by (simp add: unat_of_nat)

lemma of_be_bytes_be_bytes: "of_be_bytes (be_bytes k n) = n mod 256 ^ k"
proof (induction k arbitrary: n)
  case 0
  show ?case by simp
next
  case (Suc k)
  have "of_be_bytes (be_bytes (Suc k) n) = (n div 256) mod 256 ^ k * 256 + n mod 256"
    by (simp add: Suc unat_of_nat_u8)
  also have "\<dots> = n mod (256 * 256 ^ k)"
    by (simp add: mod_mult2_eq)
  finally show ?case by simp
qed

lemma be_bytes_of_be_bytes: "be_bytes (length bs) (of_be_bytes bs) = bs"
proof (induction bs rule: rev_induct)
  case Nil
  show ?case by simp
next
  case (snoc b bs)
  have d: "(of_be_bytes bs * 256 + unat b) div 256 = of_be_bytes bs"
    using unat_u8_lt [of b] by simp
  have "unat (of_nat (of_be_bytes bs * 256 + unat b) :: u8) = unat b"
    using unat_u8_lt [of b] by (simp only: unat_of_nat_u8 mod_mult_self3 mod_less)
  then have m: "(of_nat (of_be_bytes bs * 256 + unat b) :: u8) = b"
    by (rule unsigned_word_eqI)
  show ?case using snoc d m by simp
qed

lemma of_be_bytes_replicate0: "of_be_bytes (replicate k 0) = 0"
proof (induction k)
  case 0
  show ?case by simp
next
  case (Suc k)
  then show ?case by (simp add: of_be_bytes_Cons)
qed

lemma of_be_bytes_pad: "of_be_bytes (replicate k 0 @ bs) = of_be_bytes bs"
  by (simp add: of_be_bytes_append of_be_bytes_replicate0)

lemma of_be_bytes_dropWhile: "of_be_bytes (dropWhile (\<lambda>x. x = 0) bs) = of_be_bytes bs"
  by (induction bs) (auto simp: of_be_bytes_Cons)

lemma to_be_bytes_inverse:
  assumes "8 dvd LENGTH('a)"
  shows "from_be_bytes (to_be_bytes (w :: 'a::len word)) = w"
proof -
  obtain k where k: "LENGTH('a) = 8 * k" using assms by (auto elim: dvdE)
  have "unat w < 2 ^ LENGTH('a)" by (rule unsigned_less)
  then have "unat w < 2 ^ (8 * k)" by (simp add: k)
  then have "unat w < 256 ^ k" by (simp add: power_mult)
  then show ?thesis
    by (simp add: from_be_bytes_def to_be_bytes_def of_be_bytes_be_bytes k)
qed

section \<open>Computations over a mutable state\<close>

text \<open>
  A method that borrows its state mutably returns a result and the state it leaves behind,
  also when it fails: changes made before an early return stay.
\<close>

type_synonym ('a, 'e, 's) sm = "'s \<Rightarrow> ('a, 'e) result \<times> 's"

definition sreturn :: "'a \<Rightarrow> ('a, 'e, 's) sm" where
  "sreturn x s = (Ok x, s)"

definition serr :: "'e \<Rightarrow> ('a, 'e, 's) sm" where
  "serr e s = (Err e, s)"

definition slift :: "('a, 'e) result \<Rightarrow> ('a, 'e, 's) sm" where
  "slift r s = (r, s)"

definition sget :: "('s, 'e, 's) sm" where
  "sget s = (Ok s, s)"

definition sgets :: "('s \<Rightarrow> 'a) \<Rightarrow> ('a, 'e, 's) sm" where
  "sgets f s = (Ok (f s), s)"

definition smodify :: "('s \<Rightarrow> 's) \<Rightarrow> (unit, 'e, 's) sm" where
  "smodify f s = (Ok (), f s)"

definition sbind :: "('a, 'e, 's) sm \<Rightarrow> ('a \<Rightarrow> ('b, 'e, 's) sm) \<Rightarrow> ('b, 'e, 's) sm" where
  "sbind m f s =
     (case m s of
        (Ok x, s') \<Rightarrow> f x s'
      | (Err e, s') \<Rightarrow> (Err e, s')
      | (Panic, s') \<Rightarrow> (Panic, s')
      | (Diverge, s') \<Rightarrow> (Diverge, s'))"

named_theorems sm_simps "one step of a stateful computation"

lemma sm_steps [sm_simps]:
  "sreturn x s = (Ok x, s)" "serr e s = (Err e, s)" "slift r s = (r, s)" "sget s = (Ok s, s)"
  "sgets g s = (Ok (g s), s)" "smodify h s = (Ok (), h s)"
  by (simp_all add: sreturn_def serr_def slift_def sget_def sgets_def smodify_def)

lemma sbind_step [sm_simps]:
  "m s = (Ok x, s') \<Longrightarrow> sbind m f s = f x s'"
  "m s = (Err e, s') \<Longrightarrow> sbind m f s = (Err e, s')"
  "m s = (Panic, s') \<Longrightarrow> sbind m f s = (Panic, s')"
  "m s = (Diverge, s') \<Longrightarrow> sbind m f s = (Diverge, s')"
  by (simp_all add: sbind_def)

lemma sbind_eq_Ok:
  "sbind m f s = (Ok y, t) \<longleftrightarrow> (\<exists>x s'. m s = (Ok x, s') \<and> f x s' = (Ok y, t))"
  by (auto simp: sbind_def split: prod.split result.split)

lemma sbind_return [simp]: "sbind (sreturn x) f = f x"
  by (rule ext) (simp add: sbind_def sreturn_def)

lemma sbind_assoc: "sbind (sbind m f) g = sbind m (\<lambda>x. sbind (f x) g)"
  by (rule ext) (auto simp: sbind_def split: prod.split result.split)

end
