(* ===== verification/Rlp_Encode.thy ===== *)
theory Rlp_Encode
  imports Prelude
begin

text \<open>
  Recursive Length Prefix encoding, \<^verbatim>\<open>crates/common/rlp/encode.rs\<close> and the constants of
  \<^verbatim>\<open>constants.rs\<close>. Every \<^verbatim>\<open>RLPEncode::encode\<close> implementation appends to a buffer and reads
  nothing from it, so an encoder is a function from the value to the bytes it appends. A
  \<^verbatim>\<open>usize\<close> length is a natural number; its eight big-endian bytes are \<open>be_bytes 8\<close>.
\<close>

section \<open>Constants\<close>

definition RLP_NULL :: u8 where
  "RLP_NULL = 0x80"

definition RLP_EMPTY_LIST :: u8 where
  "RLP_EMPTY_LIST = 0xC0"

lemma unat_RLP [simp]: "unat RLP_NULL = 0x80" "unat RLP_EMPTY_LIST = 0xC0"
  by (simp_all add: RLP_NULL_def RLP_EMPTY_LIST_def)

section \<open>Booleans and integers\<close>

definition encode_bool :: "bool \<Rightarrow> bytes" where
  "encode_bool b = (if b then [0x01] else [RLP_NULL])"

text \<open>
  The six integer instances of the source share one body: zero is the empty string, a value
  up to \<open>0x7f\<close> is its own encoding, any other value is a string of its big-endian bytes
  without the leading zeros.
\<close>

definition encode_uint :: "'a::len word \<Rightarrow> bytes" where
  "encode_uint n =
     (if n = 0 then [RLP_NULL]
      else if unat n \<le> 0x7f then [of_nat (unat n)]
      else let bytes = dropWhile (\<lambda>x. x = 0) (to_be_bytes n)
           in (RLP_NULL + of_nat (length bytes)) # bytes)"

definition encode_u8 :: "u8 \<Rightarrow> bytes" where
  "encode_u8 n = encode_uint n"

definition encode_u16 :: "u16 \<Rightarrow> bytes" where
  "encode_u16 n = encode_uint n"

definition encode_u32 :: "u32 \<Rightarrow> bytes" where
  "encode_u32 n = encode_uint n"

definition encode_u64 :: "u64 \<Rightarrow> bytes" where
  "encode_u64 n = encode_uint n"

definition encode_usize :: "u64 \<Rightarrow> bytes" where
  "encode_usize n = encode_uint n"

definition encode_u128 :: "u128 \<Rightarrow> bytes" where
  "encode_u128 n = encode_uint n"

definition encode_unit :: "unit \<Rightarrow> bytes" where
  "encode_unit u = [RLP_NULL]"

section \<open>Byte strings\<close>

definition length_prefix :: "u8 \<Rightarrow> u8 \<Rightarrow> nat \<Rightarrow> bytes" where
  "length_prefix short long len =
     (if len < 56 then [short + of_nat len]
      else let bytes = dropWhile (\<lambda>x. x = 0) (be_bytes 8 len)
           in (long + of_nat (length bytes)) # bytes)"

definition encode_bytes :: "bytes \<Rightarrow> bytes" where
  "encode_bytes bs =
     (if length bs = 1 \<and> unat (hd bs) < unat RLP_NULL then [hd bs]
      else length_prefix RLP_NULL 0xb7 (length bs) @ bs)"

definition leading_zeros :: "'a::len word \<Rightarrow> nat" where
  "leading_zeros w = LENGTH('a) - floorlog 2 (unat w)"

definition encode_u256 :: "u256 \<Rightarrow> bytes" where
  "encode_u256 n = encode_bytes (drop (leading_zeros n div 8) (to_be_bytes n))"

text \<open>
  Fixed-size arrays, \<^verbatim>\<open>H32\<close> .. \<^verbatim>\<open>H512\<close>, addresses, signatures and blooms are encoded as the byte
  string they hold; so are strings (their UTF-8 bytes) and IP addresses (their octets).
\<close>

definition encode_array :: "bytes \<Rightarrow> bytes" where
  "encode_array bs = encode_bytes bs"

definition encode_h256 :: "bytes \<Rightarrow> bytes" where
  "encode_h256 h = encode_bytes h"

definition encode_address :: "bytes \<Rightarrow> bytes" where
  "encode_address a = encode_bytes a"

definition encode_bloom :: "bytes \<Rightarrow> bytes" where
  "encode_bloom b = encode_bytes b"

datatype ip_addr = V4 bytes | V6 bytes

fun encode_ip_addr :: "ip_addr \<Rightarrow> bytes" where
  "encode_ip_addr (V4 ip) = encode_bytes ip"
| "encode_ip_addr (V6 ip) = encode_bytes ip"

section \<open>Lists and tuples\<close>

definition encode_length :: "nat \<Rightarrow> bytes" where
  "encode_length total_len = length_prefix 0xc0 0xf7 total_len"

definition encode_vec :: "('a \<Rightarrow> bytes) \<Rightarrow> 'a list \<Rightarrow> bytes" where
  "encode_vec enc xs =
     (if xs = [] then [0xc0]
      else encode_length (sum_list (map (length \<circ> enc) xs)) @ concat (map enc xs))"

definition encode_tuple2 :: "('a \<Rightarrow> bytes) \<Rightarrow> ('b \<Rightarrow> bytes) \<Rightarrow> 'a \<times> 'b \<Rightarrow> bytes" where
  "encode_tuple2 ea eb = (\<lambda>(a, b).
     encode_length (length (ea a) + length (eb b)) @ ea a @ eb b)"

definition encode_tuple3 ::
  "('a \<Rightarrow> bytes) \<Rightarrow> ('b \<Rightarrow> bytes) \<Rightarrow> ('c \<Rightarrow> bytes) \<Rightarrow> 'a \<times> 'b \<times> 'c \<Rightarrow> bytes" where
  "encode_tuple3 ea eb ec = (\<lambda>(a, b, c).
     encode_length (length (ea a) + length (eb b) + length (ec c)) @ ea a @ eb b @ ec c)"

definition encode_tuple4 ::
  "('a \<Rightarrow> bytes) \<Rightarrow> ('b \<Rightarrow> bytes) \<Rightarrow> ('c \<Rightarrow> bytes) \<Rightarrow> ('d \<Rightarrow> bytes)
     \<Rightarrow> 'a \<times> 'b \<times> 'c \<times> 'd \<Rightarrow> bytes" where
  "encode_tuple4 ea eb ec ed = (\<lambda>(a, b, c, d).
     encode_length (length (ea a) + length (eb b) + length (ec c) + length (ed d))
       @ ea a @ eb b @ ec c @ ed d)"

definition encode_tuple5 ::
  "('a \<Rightarrow> bytes) \<Rightarrow> ('b \<Rightarrow> bytes) \<Rightarrow> ('c \<Rightarrow> bytes) \<Rightarrow> ('d \<Rightarrow> bytes) \<Rightarrow> ('e \<Rightarrow> bytes)
     \<Rightarrow> 'a \<times> 'b \<times> 'c \<times> 'd \<times> 'e \<Rightarrow> bytes" where
  "encode_tuple5 ea eb ec ed ee = (\<lambda>(a, b, c, d, e).
     encode_length (length (ea a) + length (eb b) + length (ec c) + length (ed d) + length (ee e))
       @ ea a @ eb b @ ec c @ ed d @ ee e)"

section \<open>The shape of an encoding\<close>

text \<open>
  The significant big-endian bytes of a number: what the \<^verbatim>\<open>position(|&x| x != 0)\<close> slice of the
  source keeps.
\<close>

lemma dropWhile_zero_hd: "dropWhile (\<lambda>x. x = 0) bs = b # cs \<Longrightarrow> b \<noteq> (0 :: u8)"
  by (metis (mono_tags, lifting) dropWhile_eq_Cons_conv)

lemma of_be_bytes_eq_0: "of_be_bytes bs = 0 \<longleftrightarrow> (\<forall>b \<in> set bs. b = 0)"
  by (induction bs) (auto simp: of_be_bytes_Cons unsigned_eq_0_iff)

lemma sig_bytes_nonempty:
  "0 < n \<Longrightarrow> n < 256 ^ k \<Longrightarrow> dropWhile (\<lambda>x. x = 0) (be_bytes k n) \<noteq> []"
  using of_be_bytes_be_bytes [of k n] of_be_bytes_eq_0 [of "be_bytes k n"] by auto

lemma sig_bytes_length: "length (dropWhile (\<lambda>x. x = 0) (be_bytes k n)) \<le> k"
  by (metis length_be_bytes length_dropWhile_le)

lemma sig_bytes_value:
  "n < 256 ^ k \<Longrightarrow> of_be_bytes (dropWhile (\<lambda>x. x = 0) (be_bytes k n)) = n"
  by (simp add: of_be_bytes_dropWhile of_be_bytes_be_bytes)

lemma length_prefix_nonempty [simp]: "length_prefix s l n \<noteq> []"
  by (simp add: length_prefix_def Let_def)

lemma encode_bytes_nonempty [simp]: "encode_bytes bs \<noteq> []"
  by (simp add: encode_bytes_def)

lemma encode_uint_nonempty [simp]: "encode_uint n \<noteq> []"
  by (simp add: encode_uint_def Let_def)

lemma encode_length_nonempty [simp]: "encode_length n \<noteq> []"
  by (simp add: encode_length_def)

lemma encode_vec_nonempty [simp]: "encode_vec enc xs \<noteq> []"
  by (simp add: encode_vec_def)

lemma encode_vec_alt:
  "encode_vec enc xs = encode_length (length (concat (map enc xs))) @ concat (map enc xs)"
  by (simp add: encode_vec_def length_concat comp_def encode_length_def length_prefix_def)

end
