(* ===== verification/Rlp_Decode.thy ===== *)
theory Rlp_Decode
  imports Rlp_Encode
begin

text \<open>
  Recursive Length Prefix decoding, \<^verbatim>\<open>crates/common/rlp/decode.rs\<close> and \<^verbatim>\<open>error.rs\<close>. A decoder
  takes the input slice and returns the value with the rest of the input. Lengths are read
  into a \<^verbatim>\<open>usize\<close> and added without a check in the source, so the additions are \<open>usize_add\<close>,
  which wraps as the release build does, and the slices that follow can panic.
\<close>

section \<open>Errors\<close>

datatype rlp_error =
    InvalidLength
  | MalformedData
  | MalformedBoolean
  | UnexpectedList
  | UnexpectedString
  | InvalidCompression
  | Custom string

type_synonym 'a decoder_fun = "bytes \<Rightarrow> ('a \<times> bytes, rlp_error) result"

section \<open>Items\<close>

definition static_left_pad :: "nat \<Rightarrow> bytes \<Rightarrow> (bytes, rlp_error) result" where
  "static_left_pad n data =
     (if data = [] then Ok (replicate n 0)
      else if hd data = 0 then Err MalformedData
      else if n < length data then Err InvalidLength
      else Ok (replicate (n - length data) 0 @ data))"

definition split_item :: "bool \<Rightarrow> bytes \<Rightarrow> nat \<Rightarrow> nat \<Rightarrow> (bool \<times> bytes \<times> bytes, rlp_error) result"
where
  "split_item is_list data start stop =
     rbind (slice data start stop) (\<lambda>payload.
     rbind (slice_from data stop) (\<lambda>rest.
     Ok (is_list, payload, rest)))"

definition read_length :: "bytes \<Rightarrow> nat \<Rightarrow> (nat, rlp_error) result" where
  "read_length data n =
     rbind (slice data 1 (usize_add n 1)) (\<lambda>length_bytes.
     rbind (static_left_pad 8 length_bytes) (\<lambda>padded. Ok (of_be_bytes padded)))"

definition short_item :: "bool \<Rightarrow> bytes \<Rightarrow> nat \<Rightarrow> (bool \<times> bytes \<times> bytes, rlp_error) result" where
  "short_item is_list data len =
     (if length data < usize_add len 1 then Err InvalidLength
      else split_item is_list data 1 (usize_add len 1))"

definition long_item :: "bool \<Rightarrow> bytes \<Rightarrow> nat \<Rightarrow> (bool \<times> bytes \<times> bytes, rlp_error) result" where
  "long_item is_list data length_of_length =
     (if length data < usize_add length_of_length 1 then Err InvalidLength
      else rbind (read_length data length_of_length) (\<lambda>len.
        let stop = usize_add (usize_add length_of_length len) 1
        in if length data < stop then Err InvalidLength
           else split_item is_list data (usize_add length_of_length 1) stop))"

definition decode_rlp_item :: "bytes \<Rightarrow> (bool \<times> bytes \<times> bytes, rlp_error) result" where
  "decode_rlp_item data =
     (case data of
        [] \<Rightarrow> Err InvalidLength
      | first_byte # _ \<Rightarrow>
          (let b = unat first_byte
           in if b \<le> 0x7F then split_item False data 0 1
              else if b \<le> 0xB7 then short_item False data (b - 0x80)
              else if b \<le> 0xBF then long_item False data (b - 0xB7)
              else if b \<le> 0xF7 then short_item True data (b - 0xC0)
              else long_item True data (b - 0xF7)))"

definition prefix_item :: "bytes \<Rightarrow> nat \<Rightarrow> (bytes \<times> bytes, rlp_error) result" where
  "prefix_item data stop =
     (if length data < stop then Err InvalidLength
      else rbind (slice data 0 stop) (\<lambda>item.
           rbind (slice_from data stop) (\<lambda>rest. Ok (item, rest))))"

definition prefix_long_item :: "bytes \<Rightarrow> nat \<Rightarrow> (bytes \<times> bytes, rlp_error) result" where
  "prefix_long_item data length_of_length =
     (if length data < usize_add length_of_length 1 then Err InvalidLength
      else rbind (read_length data length_of_length) (\<lambda>len.
        prefix_item data (usize_add (usize_add length_of_length len) 1)))"

definition get_item_with_prefix :: "bytes \<Rightarrow> (bytes \<times> bytes, rlp_error) result" where
  "get_item_with_prefix data =
     (case data of
        [] \<Rightarrow> Err InvalidLength
      | first_byte # _ \<Rightarrow>
          (let b = unat first_byte
           in if b \<le> 0x7F then prefix_item data 1
              else if b \<le> 0xB7 then prefix_item data (usize_add (b - 0x80) 1)
              else if b \<le> 0xBF then prefix_long_item data (b - 0xB7)
              else if b \<le> 0xF7 then prefix_item data (usize_add (b - 0xC0) 1)
              else prefix_long_item data (b - 0xF7)))"

definition decode_bytes :: "bytes decoder_fun" where
  "decode_bytes data =
     rbind (decode_rlp_item data) (\<lambda>(is_list, payload, rest).
       if is_list then Err UnexpectedList else Ok (payload, rest))"

definition is_encoded_as_bytes :: "bytes \<Rightarrow> (bool, rlp_error) result" where
  "is_encoded_as_bytes rlp =
     (case rlp of [] \<Rightarrow> Err MalformedData
      | b # _ \<Rightarrow> Ok (0xb8 \<le> unat b \<and> unat b \<le> 0xbf))"

definition get_rlp_bytes_item_payload :: "bytes \<Rightarrow> (bytes, rlp_error) result" where
  "get_rlp_bytes_item_payload rlp =
     (case rlp of [] \<Rightarrow> Err InvalidLength
      | b # _ \<Rightarrow>
          (let offset = unat (b - 0xb8 + 1)
           in if usize_add offset 1 \<le> length rlp then Ok (drop (usize_add offset 1) rlp)
              else Err InvalidLength))"

section \<open>Decoders of values\<close>

definition decode :: "'a decoder_fun \<Rightarrow> bytes \<Rightarrow> ('a, rlp_error) result" where
  "decode dec rlp =
     rbind (dec rlp) (\<lambda>(decoded, remaining).
       if remaining \<noteq> [] then Err InvalidLength else Ok decoded)"

definition decode_bool :: "bool decoder_fun" where
  "decode_bool buf =
     (case buf of [] \<Rightarrow> Err InvalidLength
      | b # rest \<Rightarrow>
          if b = RLP_NULL then Ok (False, rest)
          else if b = 0x01 then Ok (True, rest)
          else Err MalformedBoolean)"

definition decode_u8 :: "u8 decoder_fun" where
  "decode_u8 rlp =
     (case rlp of [] \<Rightarrow> Err InvalidLength
      | b # rest \<Rightarrow>
          if unat b \<le> 0x7f then Ok (b, rest)
          else if b = RLP_NULL then Ok (0, rest)
          else if 2 \<le> length rlp \<and> b = RLP_NULL + 1 then Ok (rlp ! 1, drop 2 rlp)
          else Err MalformedData)"

text \<open>
  The instances of \<^verbatim>\<open>u16\<close>, \<^verbatim>\<open>u32\<close>, \<^verbatim>\<open>u64\<close>, \<^verbatim>\<open>usize\<close>, \<^verbatim>\<open>u128\<close> and \<^verbatim>\<open>U256\<close> differ in the array
  size only: a byte string padded on the left and read big-endian.
\<close>

definition decode_uint :: "'a::len word decoder_fun" where
  "decode_uint rlp =
     rbind (decode_bytes rlp) (\<lambda>(bytes, rest).
     rbind (static_left_pad (LENGTH('a) div 8) bytes) (\<lambda>padded_bytes.
     Ok (from_be_bytes padded_bytes, rest)))"

definition decode_u16 :: "u16 decoder_fun" where
  "decode_u16 rlp = decode_uint rlp"

definition decode_u32 :: "u32 decoder_fun" where
  "decode_u32 rlp = decode_uint rlp"

definition decode_u64 :: "u64 decoder_fun" where
  "decode_u64 rlp = decode_uint rlp"

definition decode_usize :: "u64 decoder_fun" where
  "decode_usize rlp = decode_uint rlp"

definition decode_u128 :: "u128 decoder_fun" where
  "decode_u128 rlp = decode_uint rlp"

definition decode_u256 :: "u256 decoder_fun" where
  "decode_u256 rlp = decode_uint rlp"

definition decode_array :: "nat \<Rightarrow> bytes decoder_fun" where
  "decode_array n rlp =
     rbind (decode_bytes rlp) (\<lambda>(decoded_bytes, rest).
       if length decoded_bytes = n then Ok (decoded_bytes, rest) else Err InvalidLength)"

definition decode_h256 :: "bytes decoder_fun" where
  "decode_h256 rlp = decode_array 32 rlp"

definition decode_address :: "bytes decoder_fun" where
  "decode_address rlp = decode_array 20 rlp"

definition decode_bloom :: "bytes decoder_fun" where
  "decode_bloom rlp = decode_array 256 rlp"

definition decode_ip_addr :: "ip_addr decoder_fun" where
  "decode_ip_addr rlp =
     rbind (decode_bytes rlp) (\<lambda>(ip_bytes, rest).
       if length ip_bytes = 4 then Ok (V4 ip_bytes, rest)
       else if length ip_bytes = 16 then Ok (V6 ip_bytes, rest)
       else Err InvalidLength)"

section \<open>Lists and tuples\<close>

text \<open>
  The loop of \<^verbatim>\<open>Vec<T>::decode_unfinished\<close>. It stops when the payload is used up; an item decoder
  that consumed nothing would keep it running, which the fuel turns into \<open>Diverge\<close>. The fuel
  given is the length of the payload, one unit per byte an item has to consume at least.
\<close>

primrec decode_list_loop :: "nat \<Rightarrow> 'a decoder_fun \<Rightarrow> bytes \<Rightarrow> ('a list, rlp_error) result" where
  "decode_list_loop 0 dec current = (if current = [] then Ok [] else Diverge)"
| "decode_list_loop (Suc fuel) dec current =
     (if current = [] then Ok []
      else rbind (dec current) (\<lambda>(item, rest).
           rbind (decode_list_loop fuel dec rest) (\<lambda>items. Ok (item # items))))"

definition decode_vec :: "'a decoder_fun \<Rightarrow> 'a list decoder_fun" where
  "decode_vec dec rlp =
     (if rlp = [] then Err InvalidLength
      else if hd rlp = RLP_EMPTY_LIST then Ok ([], tl rlp)
      else rbind (decode_rlp_item rlp) (\<lambda>(is_list, payload, input_rest).
        if \<not> is_list then Err MalformedData
        else rbind (decode_list_loop (length payload) dec payload) (\<lambda>items.
             Ok (items, input_rest))))"

definition decode_tuple2 :: "'a decoder_fun \<Rightarrow> 'b decoder_fun \<Rightarrow> ('a \<times> 'b) decoder_fun" where
  "decode_tuple2 da db rlp =
     (if rlp = [] then Err InvalidLength
      else rbind (decode_rlp_item rlp) (\<lambda>(is_list, payload, input_rest).
        if \<not> is_list then Err MalformedData
        else rbind (da payload) (\<lambda>(first, first_rest).
             rbind (db first_rest) (\<lambda>(second, second_rest).
               if second_rest \<noteq> [] then Err MalformedData
               else Ok ((first, second), input_rest)))))"

definition decode_tuple3 ::
  "'a decoder_fun \<Rightarrow> 'b decoder_fun \<Rightarrow> 'c decoder_fun \<Rightarrow> ('a \<times> 'b \<times> 'c) decoder_fun" where
  "decode_tuple3 da db dc rlp =
     (if rlp = [] then Err InvalidLength
      else rbind (decode_rlp_item rlp) (\<lambda>(is_list, payload, input_rest).
        if \<not> is_list then Err MalformedData
        else rbind (da payload) (\<lambda>(first, first_rest).
             rbind (db first_rest) (\<lambda>(second, second_rest).
             rbind (dc second_rest) (\<lambda>(third, third_rest).
               if third_rest \<noteq> [] then Err MalformedData
               else Ok ((first, second, third), input_rest))))))"

definition decode_tuple4 ::
  "'a decoder_fun \<Rightarrow> 'b decoder_fun \<Rightarrow> 'c decoder_fun \<Rightarrow> 'd decoder_fun
     \<Rightarrow> ('a \<times> 'b \<times> 'c \<times> 'd) decoder_fun" where
  "decode_tuple4 da db dc dd rlp =
     (if rlp = [] then Err InvalidLength
      else rbind (decode_rlp_item rlp) (\<lambda>(is_list, payload, input_rest).
        if \<not> is_list then Err MalformedData
        else rbind (da payload) (\<lambda>(first, first_rest).
             rbind (db first_rest) (\<lambda>(second, second_rest).
             rbind (dc second_rest) (\<lambda>(third, third_rest).
             rbind (dd third_rest) (\<lambda>(fourth, fourth_rest).
               if fourth_rest \<noteq> [] then Err MalformedData
               else Ok ((first, second, third, fourth), input_rest)))))))"

section \<open>Decoding a well-formed prefix\<close>

text \<open>
  A Rust slice holds at most \<^verbatim>\<open>isize::MAX\<close> bytes, so a payload that exists in memory is
  shorter than \<open>2 ^ 63\<close>; below that bound no length computation of the decoder wraps.
\<close>

definition slice_bound :: nat where
  "slice_bound = 2 ^ 63"

lemma static_left_pad_sig:
  assumes "k \<le> 8" "bs = dropWhile (\<lambda>x. x = 0) cs" "length cs = k"
  shows "\<exists>p. static_left_pad 8 bs = Ok p \<and> of_be_bytes p = of_be_bytes bs"
proof (cases bs)
  case Nil
  then show ?thesis by (simp add: static_left_pad_def of_be_bytes_replicate0)
next
  case (Cons b bs')
  then have "b \<noteq> 0" using assms(2) by (metis dropWhile_zero_hd)
  moreover have "length bs \<le> 8" using assms by (metis le_trans length_dropWhile_le)
  ultimately show ?thesis using Cons
    by (simp add: static_left_pad_def of_be_bytes_pad)
qed

lemma unat_add_of_nat_u8:
  "unat (b :: u8) + n < 256 \<Longrightarrow> unat (b + of_nat n) = unat b + n"
  by (simp add: unat_word_ariths unat_of_nat_u8)

lemma read_length_sig:
  assumes "n < 2 ^ 64" "56 \<le> n" "sig = dropWhile (\<lambda>x. x = 0) (be_bytes 8 n)"
  shows "read_length (b # sig @ rest) (length sig) = Ok n"
proof -
  have le: "length sig \<le> 8" using assms(3) sig_bytes_length by blast
  then have a: "usize_add (length sig) (Suc 0) = Suc (length sig)"
    by (simp add: usize_add_def usize_bound_def)
  obtain p where p: "static_left_pad 8 sig = Ok p" "of_be_bytes p = of_be_bytes sig"
    using static_left_pad_sig [of 8 sig "be_bytes 8 n"] assms(3) by auto
  have "of_be_bytes sig = n" using assms by (simp add: sig_bytes_value)
  with p show ?thesis by (simp add: read_length_def a slice_def)
qed

lemma slice_bound_usize:
  "n < slice_bound \<Longrightarrow> k \<le> 8 \<Longrightarrow> usize_add (usize_add k n) (Suc 0) = Suc (k + n)"
  by (simp add: usize_add_def usize_bound_def slice_bound_def)

lemma decode_rlp_item_long_prefix:
  assumes n: "length bs < slice_bound" "56 \<le> length bs"
    and sig: "sig = dropWhile (\<lambda>x. x = 0) (be_bytes 8 (length bs))"
    and b: "unat b = unat l + length sig"
    and l: "(l :: u8) = 0xb7 \<and> is_list = False \<or> l = 0xf7 \<and> is_list = True"
  shows "decode_rlp_item (b # sig @ bs @ rest) = Ok (is_list, bs, rest)"
    and "get_item_with_prefix (b # sig @ bs @ rest) = Ok (b # sig @ bs, rest)"
proof -
  have n64: "length bs < 2 ^ 64" using n(1) by (simp add: slice_bound_def)
  have sl: "length sig \<le> 8" using sig sig_bytes_length by blast
  have "sig \<noteq> []"
    unfolding sig by (rule sig_bytes_nonempty) (use n n64 in auto)
  then have sp: "1 \<le> length sig" by (simp add: Suc_le_eq)
  have r: "read_length (b # sig @ bs @ rest) (length sig) = Ok (length bs)"
    using read_length_sig [OF n64 n(2) sig] by simp
  have u1: "usize_add (length sig) (Suc 0) = Suc (length sig)"
    using sl by (simp add: usize_add_def usize_bound_def)
  have u2: "usize_add (usize_add (length sig) (length bs)) (Suc 0) = Suc (length sig + length bs)"
    using n(1) sl by (rule slice_bound_usize)
  have li: "long_item lst (b # sig @ bs @ rest) (length sig) = Ok (lst, bs, rest)" for lst
    by (simp add: long_item_def r u1 u2 split_item_def slice_def slice_from_def)
  have pi: "prefix_long_item (b # sig @ bs @ rest) (length sig) = Ok (b # sig @ bs, rest)"
    by (simp add: prefix_long_item_def r u1 u2 prefix_item_def slice_def slice_from_def)
  show "decode_rlp_item (b # sig @ bs @ rest) = Ok (is_list, bs, rest)"
    using l b sl sp li by (auto simp: decode_rlp_item_def Let_def)
  show "get_item_with_prefix (b # sig @ bs @ rest) = Ok (b # sig @ bs, rest)"
    using l b sl sp pi by (auto simp: get_item_with_prefix_def Let_def)
qed

lemma decode_rlp_item_short_prefix:
  assumes n: "length bs < 56"
    and b: "unat b = unat s + length bs"
    and s: "(s :: u8) = 0x80 \<and> is_list = False \<or> s = 0xc0 \<and> is_list = True"
  shows "decode_rlp_item (b # bs @ rest) = Ok (is_list, bs, rest)"
    and "get_item_with_prefix (b # bs @ rest) = Ok (b # bs, rest)"
proof -
  have u: "usize_add (length bs) (Suc 0) = Suc (length bs)"
    using n by (simp add: usize_add_def usize_bound_def)
  have si: "short_item lst (b # bs @ rest) (length bs) = Ok (lst, bs, rest)" for lst
    by (simp add: short_item_def u split_item_def slice_def slice_from_def)
  have pi: "prefix_item (b # bs @ rest) (Suc (length bs)) = Ok (b # bs, rest)"
    by (simp add: prefix_item_def slice_def slice_from_def)
  show "decode_rlp_item (b # bs @ rest) = Ok (is_list, bs, rest)"
    using s b n si by (auto simp: decode_rlp_item_def Let_def)
  show "get_item_with_prefix (b # bs @ rest) = Ok (b # bs, rest)"
    using s b n pi u by (auto simp: get_item_with_prefix_def Let_def)
qed

lemma length_prefix_item:
  assumes n: "length bs < slice_bound"
    and l: "s = 0x80 \<and> l = 0xb7 \<and> is_list = False \<or> s = 0xc0 \<and> l = 0xf7 \<and> is_list = True"
  shows "decode_rlp_item (length_prefix s l (length bs) @ bs @ rest) = Ok (is_list, bs, rest)"
    and "get_item_with_prefix (length_prefix s l (length bs) @ bs @ rest) =
           Ok (length_prefix s l (length bs) @ bs, rest)"
proof -
  let ?sig = "dropWhile (\<lambda>x. x = 0) (be_bytes 8 (length bs))"
  have sl: "length ?sig \<le> 8" using sig_bytes_length by blast
  have ul: "unat (l + of_nat (length ?sig)) = unat l + length ?sig"
    by (rule unat_add_of_nat_u8) (use l sl in auto)
  have us: "length bs < 56 \<Longrightarrow> unat (s + of_nat (length bs)) = unat s + length bs"
    by (rule unat_add_of_nat_u8) (use l in auto)
  show "decode_rlp_item (length_prefix s l (length bs) @ bs @ rest) = Ok (is_list, bs, rest)"
    using decode_rlp_item_long_prefix(1) [OF n _ refl ul] decode_rlp_item_short_prefix(1) [OF _ us]
      l by (auto simp: length_prefix_def Let_def)
  show "get_item_with_prefix (length_prefix s l (length bs) @ bs @ rest) =
      Ok (length_prefix s l (length bs) @ bs, rest)"
    using decode_rlp_item_long_prefix(2) [OF n _ refl ul] decode_rlp_item_short_prefix(2) [OF _ us]
      l by (auto simp: length_prefix_def Let_def)
qed

lemma decode_rlp_item_encode_bytes:
  assumes "length bs < slice_bound"
  shows "decode_rlp_item (encode_bytes bs @ rest) = Ok (False, bs, rest)"
    and "get_item_with_prefix (encode_bytes bs @ rest) = Ok (encode_bytes bs, rest)"
proof -
  have "decode_rlp_item (encode_bytes bs @ rest) = Ok (False, bs, rest) \<and>
    get_item_with_prefix (encode_bytes bs @ rest) = Ok (encode_bytes bs, rest)"
  proof (cases "length bs = 1 \<and> unat (hd bs) < 0x80")
    case True
    then obtain x where "bs = [x]" "unat x < 0x80" by (cases bs) auto
    then show ?thesis
      by (simp add: encode_bytes_def decode_rlp_item_def get_item_with_prefix_def Let_def
          split_item_def prefix_item_def slice_def slice_from_def)
  next
    case False
    then have "encode_bytes bs = length_prefix 0x80 0xb7 (length bs) @ bs"
      by (auto simp: encode_bytes_def RLP_NULL_def)
    then show ?thesis
      using length_prefix_item [where s = "0x80" and l = "0xb7" and is_list = False, OF assms]
      by simp
  qed
  then show "decode_rlp_item (encode_bytes bs @ rest) = Ok (False, bs, rest)"
    and "get_item_with_prefix (encode_bytes bs @ rest) = Ok (encode_bytes bs, rest)" by auto
qed

lemma decode_rlp_item_encode_length:
  assumes "length bs < slice_bound"
  shows "decode_rlp_item (encode_length (length bs) @ bs @ rest) = Ok (True, bs, rest)"
    and "get_item_with_prefix (encode_length (length bs) @ bs @ rest) =
           Ok (encode_length (length bs) @ bs, rest)"
  using length_prefix_item [where s = "0xc0" and l = "0xf7" and is_list = True, OF assms]
  by (simp_all add: encode_length_def)

lemma decode_bytes_encode_bytes:
  "length bs < slice_bound \<Longrightarrow> decode_bytes (encode_bytes bs @ rest) = Ok (bs, rest)"
  by (simp add: decode_bytes_def decode_rlp_item_encode_bytes)

end
