(* ===== verification/Rlp_Codec.thy ===== *)
theory Rlp_Codec
  imports Rlp_Decode
begin

text \<open>
  The contract between an RLP encoder and its decoder, as two interfaces: a decoder that
  consumes input (\<open>rlp_decoder\<close>) and one that in addition reads back what an encoder wrote
  (\<open>rlp_codec\<close>). Whole-input decoding, prefix-freeness, lists and tuples are proved once in the
  interfaces; every scalar instance of the source is an interpretation.
\<close>

section \<open>What the item decoder does on any input\<close>

lemma split_item_eq_Ok:
  "split_item l data a b = Ok (l', p, r) \<longleftrightarrow>
     l' = l \<and> a \<le> b \<and> b \<le> length data \<and> p = drop a (take b data) \<and> r = drop b data"
  by (auto simp: split_item_def slice_def slice_from_def drop_take)

lemma split_item_eq_Panic:
  "split_item l data a b = Panic \<longleftrightarrow> \<not> (a \<le> b \<and> b \<le> length data)"
  by (auto simp: split_item_def slice_def slice_from_def)

lemma split_item_parts:
  assumes "split_item l data a b = Ok (l', p, r)" "0 < b"
  shows "\<exists>pre. data = pre @ p @ r \<and> length pre = a \<and> length r < length data"
proof -
  have h: "a \<le> b" "b \<le> length data" "p = drop a (take b data)" "r = drop b data"
    using assms(1) by (auto simp: split_item_eq_Ok)
  have "data = take a data @ drop a (take b data) @ drop b data"
    using h(1) by (metis append.assoc append_take_drop_id min.absorb1 take_take)
  with h assms(2) show ?thesis by (intro exI [of _ "take a data"]) auto
qed

lemma static_left_pad_cases:
  "static_left_pad n bs \<noteq> Panic" "static_left_pad n bs \<noteq> Diverge"
  by (auto simp: static_left_pad_def)

lemma read_length_no_Diverge: "read_length data n \<noteq> Diverge"
  by (auto simp: read_length_def rbind_eq_Diverge slice_def static_left_pad_cases)

lemma decode_rlp_item_no_Diverge: "decode_rlp_item data \<noteq> Diverge"
  by (auto simp: decode_rlp_item_def short_item_def long_item_def split_item_def slice_def
      slice_from_def Let_def rbind_eq_Diverge read_length_no_Diverge split: list.splits)

lemma short_item_parts:
  assumes "short_item l data n = Ok (l', p, r)" "n < 56"
  shows "\<exists>pre. data = pre @ p @ r \<and> length pre \<le> 9 \<and> length r < length data"
  using assms split_item_parts [of l data 1 "usize_add n 1"]
  by (fastforce simp: short_item_def usize_add_def usize_bound_def split: if_splits)

lemma long_item_parts:
  assumes "long_item l data k = Ok (l', p, r)" "k \<le> 8"
  shows "\<exists>pre. data = pre @ p @ r \<and> length pre \<le> 9 \<and> length r < length data"
proof -
  have u: "usize_add k 1 = Suc k" using assms(2) by (simp add: usize_add_def usize_bound_def)
  from assms(1) obtain stop where s: "split_item l data (Suc k) stop = Ok (l', p, r)"
    unfolding long_item_def u by (auto simp: rbind_eq_Ok Let_def split: if_splits)
  then have "0 < stop" by (auto simp: split_item_eq_Ok)
  with split_item_parts [OF s] assms(2) show ?thesis by fastforce
qed

text \<open>A decoded item is cut out of the input: a non-empty prefix is consumed and no byte moves.\<close>

lemma decode_rlp_item_parts:
  assumes "decode_rlp_item data = Ok (l, p, r)"
  shows "\<exists>pre. data = pre @ p @ r \<and> length pre \<le> 9 \<and> length r < length data"
proof -
  obtain b bs where d: "data = b # bs" using assms by (cases data) (auto simp: decode_rlp_item_def)
  have lt: "unat b < 256" by (rule unat_u8_lt)
  consider "split_item False data 0 1 = Ok (l, p, r)"
    | n i where "short_item i data n = Ok (l, p, r)" "n < 56"
    | k i where "long_item i data k = Ok (l, p, r)" "k \<le> 8"
  proof (cases "unat b \<le> 0x7F")
    case True
    then show ?thesis using assms that(1) d by (simp add: decode_rlp_item_def Let_def)
  next
    case False
    then show ?thesis
      using assms that(2) [of _ "unat b - 0x80"] that(2) [of _ "unat b - 0xC0"]
        that(3) [of _ "unat b - 0xB7"] that(3) [of _ "unat b - 0xF7"] d lt
      by (fastforce simp: decode_rlp_item_def Let_def split: if_splits)
  qed
  then show ?thesis
  proof cases
    case 1
    from split_item_parts [OF this] show ?thesis by fastforce
  qed (use short_item_parts long_item_parts in blast)+
qed

lemma decode_bytes_parts:
  "decode_bytes data = Ok (p, r) \<Longrightarrow>
     \<exists>pre. data = pre @ p @ r \<and> length pre \<le> 9 \<and> length r < length data"
  by (auto simp: decode_bytes_def rbind_eq_Ok split: if_splits dest: decode_rlp_item_parts)

lemma decode_bytes_no_Diverge: "decode_bytes data \<noteq> Diverge"
  by (auto simp: decode_bytes_def rbind_eq_Diverge decode_rlp_item_no_Diverge)

section \<open>When the item decoder panics\<close>

text \<open>
  The declared payload length of the long forms is added to the length of the prefix without an
  overflow check. \<open>declared_length\<close> reads it off the input; the decoder panics exactly when the
  sum does not fit a \<^verbatim>\<open>usize\<close>.
\<close>

definition declared_length :: "bytes \<Rightarrow> (nat \<times> nat) option" where
  "declared_length data =
     (case data of [] \<Rightarrow> None
      | b # bs \<Rightarrow>
          (let k = (if unat b \<ge> 0xF8 then unat b - 0xF7
                    else if 0xB8 \<le> unat b \<and> unat b \<le> 0xBF then unat b - 0xB7 else 0)
           in if k = 0 \<or> length bs < k \<or> hd bs = 0 then None
              else Some (k, of_be_bytes (take k bs))))"

lemma read_length_cases:
  assumes "1 \<le> k" "k \<le> 8" "k \<le> length bs"
  shows "read_length (b # bs) k =
    (if hd bs = 0 then Err MalformedData else Ok (of_be_bytes (take k bs)))"
proof -
  have u: "usize_add k (Suc 0) = Suc k" using assms by (simp add: usize_add_def usize_bound_def)
  have "take k bs \<noteq> []" "hd (take k bs) = hd bs" using assms by (auto simp: hd_take)
  then show ?thesis using assms
    by (simp add: read_length_def u slice_def static_left_pad_def of_be_bytes_pad)
qed

lemma long_item_panic_iff:
  assumes "1 \<le> k" "k \<le> 8"
  shows "long_item l (b # bs) k = Panic \<longleftrightarrow>
    k \<le> length bs \<and> hd bs \<noteq> 0 \<and> 2 ^ 64 \<le> k + of_be_bytes (take k bs) + 1"
proof (cases "k \<le> length bs")
  case False
  then show ?thesis using assms by (simp add: long_item_def usize_add_def usize_bound_def)
next
  case True
  define n where "n = of_be_bytes (take k bs)"
  have "n < 256 ^ k" using of_be_bytes_lt [of "take k bs"] True by (simp add: n_def min.absorb2)
  also have "\<dots> \<le> 256 ^ 8" using assms by (intro power_increasing) auto
  finally have n: "n < 2 ^ 64" by simp
  have u: "usize_add k (Suc 0) = Suc k" using assms by (simp add: usize_add_def usize_bound_def)
  define stop where "stop = usize_add (usize_add k n) (Suc 0)"
  have stop: "stop = (k + n + 1) mod 2 ^ 64"
    by (simp add: stop_def usize_add_def usize_bound_def mod_simps)
  have li: "long_item l (b # bs) k =
    (if hd bs = 0 then Err MalformedData
     else if Suc (length bs) < stop then Err InvalidLength
     else split_item l (b # bs) (Suc k) stop)"
    using assms True
    by (simp add: long_item_def u read_length_cases Let_def stop_def n_def)
  show ?thesis
  proof (cases "k + n + 1 < 2 ^ 64")
    case lt: True
    then have "stop = k + n + 1" using stop by simp
    then show ?thesis using lt by (auto simp: li split_item_eq_Panic n_def)
  next
    case ge: False
    then have "stop = k + n + 1 - 2 ^ 64"
      using n assms stop by (simp add: mod_if)
    then have "stop < Suc k" using n by simp
    then show ?thesis using ge True by (auto simp: li split_item_eq_Panic n_def)
  qed
qed

lemma short_item_no_Panic: "n < 56 \<Longrightarrow> short_item l data n \<noteq> Panic"
  by (auto simp: short_item_def split_item_eq_Panic usize_add_def usize_bound_def split: if_splits)

lemma decode_rlp_item_panic:
  "decode_rlp_item data = Panic \<longleftrightarrow>
     (\<exists>k n. declared_length data = Some (k, n) \<and> 2 ^ 64 \<le> k + n + 1)"
proof (cases data)
  case Nil
  then show ?thesis by (simp add: decode_rlp_item_def declared_length_def)
next
  case (Cons b bs)
  have lt: "unat b < 256" by (rule unat_u8_lt)
  consider "unat b \<le> 0xB7" | "0xB7 < unat b" "unat b \<le> 0xBF"
    | "0xBF < unat b" "unat b \<le> 0xF7" | "0xF7 < unat b" by linarith
  then show ?thesis
  proof cases
    case 1
    then show ?thesis using Cons short_item_no_Panic
      by (auto simp: decode_rlp_item_def declared_length_def Let_def split_item_eq_Panic)
  next
    case 2
    then show ?thesis
      using Cons long_item_panic_iff [of "unat b - 0xB7" False b bs] lt
      by (auto simp: decode_rlp_item_def declared_length_def Let_def)
  next
    case 3
    then show ?thesis using Cons short_item_no_Panic
      by (auto simp: decode_rlp_item_def declared_length_def Let_def)
  next
    case 4
    then show ?thesis
      using Cons long_item_panic_iff [of "unat b - 0xF7" True b bs] lt
      by (auto simp: decode_rlp_item_def declared_length_def Let_def)
  qed
qed

section \<open>Decoders that make progress\<close>

lemma encode_length_hd:
  assumes "bs \<noteq> []"
  shows "hd (encode_length (length bs) @ cs) \<noteq> RLP_EMPTY_LIST"
proof (cases "length bs < 56")
  case True
  then have "unat (0xc0 + of_nat (length bs) :: u8) = 0xc0 + length bs"
    using unat_add_of_nat_u8 [of "0xc0" "length bs"] by simp
  then have "unat (0xc0 + of_nat (length bs) :: u8) \<noteq> unat RLP_EMPTY_LIST"
    using assms by simp
  then have "0xc0 + of_nat (length bs) \<noteq> RLP_EMPTY_LIST" by metis
  with True show ?thesis
    by (simp add: encode_length_def length_prefix_def)
next
  case False
  let ?sig = "dropWhile (\<lambda>x. x = 0) (be_bytes 8 (length bs))"
  have "length ?sig \<le> 8" by (rule sig_bytes_length)
  then have "unat (0xf7 + of_nat (length ?sig) :: u8) = 0xf7 + length ?sig"
    using unat_add_of_nat_u8 [of "0xf7" "length ?sig"] by simp
  then have "unat (0xf7 + of_nat (length ?sig) :: u8) \<noteq> unat RLP_EMPTY_LIST"
    by simp
  then have "0xf7 + of_nat (length ?sig) \<noteq> RLP_EMPTY_LIST" by metis
  with False show ?thesis
    by (auto simp: encode_length_def length_prefix_def Let_def)
qed

locale rlp_decoder =
  fixes dec :: "'a decoder_fun"
  assumes dec_progress: "dec bs = Ok (x, rest) \<Longrightarrow> \<exists>pre. pre \<noteq> [] \<and> bs = pre @ rest"
    and dec_no_Diverge: "dec bs \<noteq> Diverge"
begin

lemma dec_shorter: "dec bs = Ok (x, rest) \<Longrightarrow> length rest < length bs"
  using dec_progress by fastforce

lemma dec_Nil: "dec [] \<noteq> Ok (x, rest)"
  using dec_shorter by fastforce

lemma decode_list_loop_no_Diverge:
  "length bs \<le> fuel \<Longrightarrow> decode_list_loop fuel dec bs \<noteq> Diverge"
proof (induction fuel arbitrary: bs)
  case 0
  then show ?case by simp
next
  case (Suc fuel)
  show ?case
  proof
    assume "decode_list_loop (Suc fuel) dec bs = Diverge"
    then obtain x rest where d: "dec bs = Ok (x, rest)" "decode_list_loop fuel dec rest = Diverge"
      using dec_no_Diverge by (auto simp: rbind_eq_Diverge split: if_splits)
    then show False using Suc.IH [of rest] Suc.prems dec_shorter [OF d(1)] by simp
  qed
qed

lemma decode_vec_parts:
  assumes "decode_vec dec bs = Ok (xs, rest)"
  shows "\<exists>pre. pre \<noteq> [] \<and> bs = pre @ rest"
proof (cases "hd bs = RLP_EMPTY_LIST")
  case True
  then show ?thesis using assms
    by (cases bs) (auto simp: decode_vec_def)
next
  case False
  then obtain p where "decode_rlp_item bs = Ok (True, p, rest)"
    using assms by (auto simp: decode_vec_def rbind_eq_Ok split: if_splits)
  then obtain pre where "bs = pre @ p @ rest" "length rest < length bs"
    using decode_rlp_item_parts by blast
  then show ?thesis by (intro exI [of _ "pre @ p"]) auto
qed

lemma decode_vec_no_Diverge: "decode_vec dec bs \<noteq> Diverge"
  by (auto simp: decode_vec_def rbind_eq_Diverge decode_rlp_item_no_Diverge
      decode_list_loop_no_Diverge)

lemma vec_decoder: "rlp_decoder (decode_vec dec)"
  by unfold_locales (auto simp: decode_vec_no_Diverge dest: decode_vec_parts)

lemma decode_no_Diverge: "decode dec bs \<noteq> Diverge"
  by (auto simp: decode_def rbind_eq_Diverge dec_no_Diverge)

end

section \<open>Decoders that read back an encoder\<close>

locale rlp_codec = rlp_decoder dec
  for dec :: "'a decoder_fun" +
  fixes enc :: "'a \<Rightarrow> bytes"
    and valid :: "'a \<Rightarrow> bool"
  assumes round_trip: "valid x \<Longrightarrow> dec (enc x @ rest) = Ok (x, rest)"
begin

lemma round_trip_whole: "valid x \<Longrightarrow> dec (enc x) = Ok (x, [])"
  using round_trip [of x "[]"] by simp

lemma decode_enc: "valid x \<Longrightarrow> decode dec (enc x) = Ok x"
  by (simp add: decode_def round_trip_whole)

lemma enc_nonempty: "valid x \<Longrightarrow> enc x \<noteq> []"
  using round_trip_whole dec_Nil by metis

lemma enc_prefix_free:
  "valid x \<Longrightarrow> valid y \<Longrightarrow> enc x @ r = enc y @ s \<Longrightarrow> x = y \<and> r = s"
  by (metis round_trip result.inject(1) Pair_inject)

lemma decode_list_loop_enc:
  "\<lbrakk> \<forall>x \<in> set xs. valid x; length xs \<le> fuel \<rbrakk> \<Longrightarrow>
     decode_list_loop fuel dec (concat (map enc xs)) = Ok xs"
proof (induction xs arbitrary: fuel)
  case Nil
  then show ?case by (cases fuel) auto
next
  case (Cons x xs)
  then obtain k where "fuel = Suc k" by (cases fuel) auto
  moreover have "dec (enc x @ concat (map enc xs)) = Ok (x, concat (map enc xs))" "enc x \<noteq> []"
    using Cons.prems(1) round_trip enc_nonempty by auto
  moreover have "decode_list_loop k dec (concat (map enc xs)) = Ok xs"
    using Cons \<open>fuel = Suc k\<close> by simp
  ultimately show ?case by simp
qed

lemma length_concat_enc:
  "\<forall>x \<in> set xs. valid x \<Longrightarrow> length xs \<le> length (concat (map enc xs))"
proof (induction xs)
  case (Cons x xs)
  then have "Suc 0 \<le> length (enc x)" using enc_nonempty by (simp add: Suc_le_eq)
  moreover have "length xs \<le> length (concat (map enc xs))" using Cons by simp
  ultimately show ?case by simp
qed simp

definition vec_valid :: "'a list \<Rightarrow> bool" where
  "vec_valid xs \<longleftrightarrow> (\<forall>x \<in> set xs. valid x) \<and> length (concat (map enc xs)) < slice_bound"

lemma decode_vec_enc:
  assumes "vec_valid xs"
  shows "decode_vec dec (encode_vec enc xs @ rest) = Ok (xs, rest)"
proof (cases xs)
  case Nil
  then show ?thesis by (simp add: decode_vec_def encode_vec_def RLP_EMPTY_LIST_def)
next
  case (Cons y ys)
  let ?p = "concat (map enc xs)"
  have e: "encode_vec enc xs = encode_length (length ?p) @ ?p"
    by (rule encode_vec_alt)
  have lt: "length ?p < slice_bound" using assms by (simp add: vec_valid_def)
  have "y \<in> set xs" "enc y \<noteq> []" using Cons assms enc_nonempty by (auto simp: vec_valid_def)
  then have "?p \<noteq> []" using Cons by simp
  then have hd: "hd (encode_length (length ?p) @ ?p @ rest) \<noteq> RLP_EMPTY_LIST"
    by (rule encode_length_hd)
  have loop: "decode_list_loop (length ?p) dec ?p = Ok xs"
    using assms length_concat_enc by (intro decode_list_loop_enc) (auto simp: vec_valid_def)
  show ?thesis
    unfolding decode_vec_def e append_assoc decode_rlp_item_encode_length(1) [OF lt]
    using hd by (simp add: loop)
qed

lemma vec_codec: "rlp_codec (decode_vec dec) (encode_vec enc) vec_valid"
  using vec_decoder by (simp add: rlp_codec_def rlp_codec_axioms_def decode_vec_enc)

end

end
