(* ===== verification/Rlp_Instances.thy ===== *)
theory Rlp_Instances
  imports Rlp_Codec
begin

text \<open>
  The instances of \<^verbatim>\<open>RLPEncode\<close> and \<^verbatim>\<open>RLPDecode\<close> satisfy the codec contract: booleans, the six
  machine integers and \<^verbatim>\<open>U256\<close>, byte strings, fixed-size arrays, IP addresses, tuples and
  vectors of codecs.
\<close>

section \<open>Integers are byte strings without leading zeros\<close>

abbreviation sig_bytes :: "nat \<Rightarrow> nat \<Rightarrow> bytes" where
  "sig_bytes k n \<equiv> dropWhile (\<lambda>x. x = 0) (be_bytes k n)"

lemma be_bytes_0: "be_bytes k 0 = replicate k 0"
  by (induction k) (simp_all add: replicate_append_same)

lemma sig_bytes_0: "sig_bytes k 0 = []"
  by (simp add: be_bytes_0)

lemma sig_bytes_small:
  assumes "0 < n" "n < 256" "0 < k"
  shows "sig_bytes k n = [of_nat n]"
proof -
  obtain j where "k = Suc j" using assms(3) by (cases k) auto
  then have "be_bytes k n = replicate j 0 @ [of_nat n]" using assms(2) by (simp add: be_bytes_0)
  moreover have "unat (of_nat n :: u8) = n" using assms(2) by (simp add: unat_of_nat_u8)
  then have "(of_nat n :: u8) \<noteq> 0" using assms(1) by (metis less_irrefl unsigned_0)
  ultimately show ?thesis by (simp add: dropWhile_append)
qed

lemma word_256_pow:
  assumes "8 dvd LENGTH('a::len)"
  shows "unat (n :: 'a word) < 256 ^ (LENGTH('a) div 8)"
proof -
  have "unat n < 2 ^ LENGTH('a)" by (rule unsigned_less)
  also have "(2 :: nat) ^ LENGTH('a) = (2 ^ 8) ^ (LENGTH('a) div 8)"
    using assms by (simp only: power_mult [symmetric] dvd_mult_div_cancel)
  finally show ?thesis by simp
qed

lemma encode_uint_bytes:
  fixes n :: "'a::len word"
  assumes "8 dvd LENGTH('a)" "LENGTH('a) \<le> 440"
  shows "encode_uint n = encode_bytes (sig_bytes (LENGTH('a) div 8) (unat n))"
proof -
  let ?k = "LENGTH('a) div 8" and ?s = "sig_bytes (LENGTH('a) div 8) (unat n)"
  obtain j where "LENGTH('a) = 8 * j" using assms(1) by (elim dvdE)
  moreover from this have "0 < 8 * j" using len_gt_0 [where 'a = 'a] by metis
  ultimately have k: "0 < ?k" "?k \<le> 55" using assms(2) by simp_all
  have len: "length ?s < 56" using sig_bytes_length [of ?k "unat n"] k(2) by simp
  consider "n = 0" | "n \<noteq> 0" "unat n \<le> 0x7f" | "0x7f < unat n" by fastforce
  then show ?thesis
  proof cases
    case 1
    then show ?thesis
      by (simp add: encode_uint_def encode_bytes_def sig_bytes_0 length_prefix_def)
  next
    case 2
    then have s: "?s = [of_nat (unat n)]"
      using k(1) by (intro sig_bytes_small) (auto simp: unat_gt_0)
    have "unat (of_nat (unat n) :: u8) = unat n"
      using 2 by (simp add: unat_of_nat_u8 del: of_nat_unat)
    then have "encode_bytes [of_nat (unat n)] = [of_nat (unat n)]"
      using 2 by (simp add: encode_bytes_def del: of_nat_unat)
    with 2 show ?thesis unfolding s by (simp add: encode_uint_def)
  next
    case 3
    have v: "of_be_bytes ?s = unat n" using assms(1) by (intro sig_bytes_value word_256_pow)
    have "\<not> (length ?s = 1 \<and> unat (hd ?s) < 0x80)"
    proof
      assume a: "length ?s = 1 \<and> unat (hd ?s) < 0x80"
      then have "?s = [hd ?s]" by (cases ?s) auto
      then have "of_be_bytes ?s = unat (hd ?s)"
        using of_be_bytes_Cons [of "hd ?s" "[]"] by simp
      with a v 3 show False by simp
    qed
    then have "encode_bytes ?s = (RLP_NULL + of_nat (length ?s)) # ?s"
      using len by (auto simp: encode_bytes_def length_prefix_def)
    with 3 show ?thesis by (auto simp: encode_uint_def to_be_bytes_def Let_def)
  qed
qed

lemma static_left_pad_sig_bytes:
  "\<exists>p. static_left_pad k (sig_bytes k n) = Ok p \<and> of_be_bytes p = of_be_bytes (sig_bytes k n)"
proof (cases "sig_bytes k n")
  case Nil
  show ?thesis unfolding Nil by (simp add: static_left_pad_def of_be_bytes_replicate0)
next
  case (Cons b bs)
  then have "b \<noteq> 0" by (rule dropWhile_zero_hd)
  with Cons sig_bytes_length [of k n] show ?thesis
    by (simp add: static_left_pad_def of_be_bytes_pad)
qed

lemma decode_uint_sig_bytes:
  fixes n :: "'a::len word"
  assumes "8 dvd LENGTH('a)" "LENGTH('a) \<le> 440"
  shows "decode_uint (encode_bytes (sig_bytes (LENGTH('a) div 8) (unat n)) @ rest) = Ok (n, rest)"
proof -
  let ?k = "LENGTH('a) div 8"
  have "?k \<le> 55" using assms(2) by simp
  then have "length (sig_bytes ?k (unat n)) < 56"
    using sig_bytes_length [of ?k "unat n"] by simp
  then have "length (sig_bytes ?k (unat n)) < slice_bound" by (simp add: slice_bound_def)
  moreover have "of_be_bytes (sig_bytes ?k (unat n)) = unat n"
    using assms(1) by (intro sig_bytes_value word_256_pow)
  moreover obtain p where "static_left_pad ?k (sig_bytes ?k (unat n)) = Ok p"
    "of_be_bytes p = of_be_bytes (sig_bytes ?k (unat n))"
    using static_left_pad_sig_bytes by blast
  ultimately show ?thesis
    by (simp add: decode_uint_def decode_bytes_encode_bytes from_be_bytes_def)
qed

lemma decode_uint_parts:
  "decode_uint bs = Ok (x, rest) \<Longrightarrow> \<exists>pre. pre \<noteq> [] \<and> bs = pre @ rest"
  by (fastforce simp: decode_uint_def rbind_eq_Ok dest!: decode_bytes_parts)

lemma decode_uint_no_Diverge: "decode_uint bs \<noteq> Diverge"
  by (auto simp: decode_uint_def rbind_eq_Diverge decode_bytes_no_Diverge static_left_pad_cases)

lemma uint_codec:
  assumes "8 dvd LENGTH('a::len)" "LENGTH('a) \<le> 440"
  shows "rlp_codec (decode_uint :: 'a word decoder_fun) encode_uint (\<lambda>_. True)"
  using assms
  by unfold_locales
    (auto simp: decode_uint_no_Diverge encode_uint_bytes decode_uint_sig_bytes
      dest: decode_uint_parts)

interpretation rlp_u16: rlp_codec decode_u16 encode_u16 "\<lambda>_. True"
  using uint_codec [where 'a = 16] by (simp add: decode_u16_def [abs_def] encode_u16_def [abs_def])

interpretation rlp_u32: rlp_codec decode_u32 encode_u32 "\<lambda>_. True"
  using uint_codec [where 'a = 32] by (simp add: decode_u32_def [abs_def] encode_u32_def [abs_def])

interpretation rlp_u64: rlp_codec decode_u64 encode_u64 "\<lambda>_. True"
  using uint_codec [where 'a = 64] by (simp add: decode_u64_def [abs_def] encode_u64_def [abs_def])

interpretation rlp_usize: rlp_codec decode_usize encode_usize "\<lambda>_. True"
  using uint_codec [where 'a = 64]
  by (simp add: decode_usize_def [abs_def] encode_usize_def [abs_def])

interpretation rlp_u128: rlp_codec decode_u128 encode_u128 "\<lambda>_. True"
  using uint_codec [where 'a = 128]
  by (simp add: decode_u128_def [abs_def] encode_u128_def [abs_def])

section \<open>\<^verbatim>\<open>U256\<close>, whose encoder counts leading zero bits\<close>

lemma dropWhile_eq_drop:
  "dropWhile P xs = drop (length xs - length (dropWhile P xs)) xs"
proof -
  have "length xs - length (dropWhile P xs) = length (takeWhile P xs)"
    by (metis add_diff_cancel_right' length_append takeWhile_dropWhile_id)
  then show ?thesis by (simp add: dropWhile_eq_drop)
qed

lemma floorlog_bytes:
  assumes "bs = b # cs" "b \<noteq> 0"
  shows "8 * length cs < floorlog 2 (of_be_bytes bs)" "floorlog 2 (of_be_bytes bs) \<le> 8 * length bs"
proof -
  have "unat b \<noteq> 0" using assms(2) by (simp add: unsigned_eq_0_iff)
  then have "256 ^ length cs \<le> of_be_bytes bs"
    using assms(1) by (cases "unat b") (auto simp: of_be_bytes_Cons)
  then have "(2 :: nat) ^ (8 * length cs) \<le> of_be_bytes bs" by (simp add: power_mult)
  then show "8 * length cs < floorlog 2 (of_be_bytes bs)"
    by (simp add: floorlog_ge_SucI flip: Suc_le_eq)
  have "of_be_bytes bs < 2 ^ (8 * length bs)"
    using of_be_bytes_lt [of bs] by (simp add: power_mult)
  then show "floorlog 2 (of_be_bytes bs) \<le> 8 * length bs"
    by (simp add: floorlog_leI)
qed

lemma leading_zeros_bytes:
  fixes n :: u256
  shows "leading_zeros n div 8 = 32 - length (sig_bytes 32 (unat n))"
proof (cases "sig_bytes 32 (unat n)")
  case Nil
  then have "unat n = 0"
    using sig_bytes_nonempty [of "unat n" 32] word_256_pow [of n] by fastforce
  then show ?thesis unfolding Nil by (simp add: leading_zeros_def floorlog_def)
next
  case (Cons b cs)
  have b: "b \<noteq> 0" using Cons by (rule dropWhile_zero_hd)
  have v: "of_be_bytes (sig_bytes 32 (unat n)) = unat n"
    using word_256_pow [of n] by (intro sig_bytes_value) simp
  have len: "length (b # cs) \<le> 32" using sig_bytes_length [of 32 "unat n"] Cons by simp
  have "8 * length cs < floorlog 2 (unat n)" "floorlog 2 (unat n) \<le> 8 * length (b # cs)"
    using floorlog_bytes [OF Cons b] v Cons by simp_all
  then show ?thesis using len Cons by (simp add: leading_zeros_def)
qed

lemma encode_u256_bytes: "encode_u256 n = encode_bytes (sig_bytes 32 (unat n))"
  using dropWhile_eq_drop [of "\<lambda>x. x = 0" "be_bytes 32 (unat n)"]
  by (simp add: encode_u256_def leading_zeros_bytes to_be_bytes_def)

interpretation rlp_u256: rlp_codec decode_u256 encode_u256 "\<lambda>_. True"
  by unfold_locales
    (use decode_uint_sig_bytes [where 'a = 256] in
      \<open>auto simp: decode_u256_def encode_u256_bytes decode_uint_no_Diverge dest: decode_uint_parts\<close>)

section \<open>Booleans and \<^verbatim>\<open>u8\<close>\<close>

interpretation rlp_bool: rlp_codec decode_bool encode_bool "\<lambda>_. True"
  by unfold_locales
    (auto simp: decode_bool_def encode_bool_def RLP_NULL_def split: list.splits if_splits)

lemma encode_u8_cases:
  "encode_u8 n = (if n = 0 then [RLP_NULL] else if unat n \<le> 0x7f then [n] else [RLP_NULL + 1, n])"
proof -
  have "sig_bytes 1 (unat n) = [n]" if "n \<noteq> 0"
    using sig_bytes_small [of "unat n" 1] that unat_u8_lt [of n] by (simp add: unat_gt_0)
  then show ?thesis by (auto simp: encode_u8_def encode_uint_def to_be_bytes_def Let_def)
qed

lemma RLP_NULL_Suc: "RLP_NULL \<noteq> RLP_NULL + 1" "unat (RLP_NULL + 1) = 0x81"
  by (simp_all add: RLP_NULL_def)

lemma decode_u8_encode_u8: "decode_u8 (encode_u8 n @ rest) = Ok (n, rest)"
  using RLP_NULL_Suc by (auto simp: decode_u8_def encode_u8_cases)

lemma decode_u8_parts: "decode_u8 bs = Ok (x, rest) \<Longrightarrow> \<exists>pre. pre \<noteq> [] \<and> bs = pre @ rest"
proof (cases bs)
  case (Cons b cs)
  assume d: "decode_u8 bs = Ok (x, rest)"
  then have "rest = drop 1 bs \<or> rest = drop 2 bs"
    using Cons by (auto simp: decode_u8_def split: if_splits)
  then show ?thesis
    using Cons append_take_drop_id [of 1 bs] append_take_drop_id [of 2 bs]
    by (metis list.distinct(1) One_nat_def take_Suc_Cons numeral_2_eq_2)
qed (simp add: decode_u8_def)

lemma decode_u8_no_Diverge: "decode_u8 bs \<noteq> Diverge"
  by (auto simp: decode_u8_def split: list.splits)

interpretation rlp_u8: rlp_codec decode_u8 encode_u8 "\<lambda>_. True"
  by unfold_locales (auto simp: decode_u8_encode_u8 decode_u8_no_Diverge dest: decode_u8_parts)

section \<open>Byte strings, arrays and IP addresses\<close>

lemma decode_bytes_prefix:
  "decode_bytes bs = Ok (x, rest) \<Longrightarrow> \<exists>pre. pre \<noteq> [] \<and> bs = pre @ rest"
  by (fastforce dest!: decode_bytes_parts)

interpretation rlp_bytes: rlp_codec decode_bytes encode_bytes "\<lambda>bs. length bs < slice_bound"
  by unfold_locales
    (auto simp: decode_bytes_encode_bytes decode_bytes_no_Diverge dest: decode_bytes_prefix)

lemma array_codec:
  assumes "n < slice_bound"
  shows "rlp_codec (decode_array n) encode_array (\<lambda>bs. length bs = n)"
  using assms
  by unfold_locales
    (auto simp: decode_array_def encode_array_def decode_bytes_encode_bytes rbind_eq_Ok
      rbind_eq_Diverge decode_bytes_no_Diverge split: if_splits dest: decode_bytes_prefix)

interpretation rlp_h256: rlp_codec decode_h256 encode_h256 "\<lambda>h. length h = 32"
  using array_codec [of 32]
  by (simp add: decode_h256_def [abs_def] encode_h256_def [abs_def] encode_array_def [abs_def]
      slice_bound_def)

interpretation rlp_address: rlp_codec decode_address encode_address "\<lambda>a. length a = 20"
  using array_codec [of 20]
  by (simp add: decode_address_def [abs_def] encode_address_def [abs_def] encode_array_def [abs_def]
      slice_bound_def)

interpretation rlp_bloom: rlp_codec decode_bloom encode_bloom "\<lambda>b. length b = 256"
  using array_codec [of 256]
  by (simp add: decode_bloom_def [abs_def] encode_bloom_def [abs_def] encode_array_def [abs_def]
      slice_bound_def)

fun valid_ip_addr :: "ip_addr \<Rightarrow> bool" where
  "valid_ip_addr (V4 ip) \<longleftrightarrow> length ip = 4"
| "valid_ip_addr (V6 ip) \<longleftrightarrow> length ip = 16"

lemma decode_ip_addr_round_trip:
  "valid_ip_addr ip \<Longrightarrow> decode_ip_addr (encode_ip_addr ip @ rest) = Ok (ip, rest)"
  by (cases ip) (auto simp: decode_ip_addr_def decode_bytes_encode_bytes slice_bound_def)

interpretation rlp_ip_addr: rlp_codec decode_ip_addr encode_ip_addr valid_ip_addr
  by unfold_locales
    (auto simp: decode_ip_addr_round_trip, auto simp: decode_ip_addr_def rbind_eq_Ok
      rbind_eq_Diverge decode_bytes_no_Diverge split: if_splits dest: decode_bytes_prefix)

section \<open>Tuples\<close>

text \<open>A tuple instance needs a codec for every component; the contract carries over.\<close>

locale rlp_codec2 = a: rlp_codec da ea va + b: rlp_codec db eb vb
  for da :: "'a decoder_fun" and ea va and db :: "'b decoder_fun" and eb vb
begin

definition pair_valid :: "'a \<times> 'b \<Rightarrow> bool" where
  "pair_valid p \<longleftrightarrow> va (fst p) \<and> vb (snd p) \<and> length (ea (fst p) @ eb (snd p)) < slice_bound"

lemma decode_tuple2_enc:
  assumes "pair_valid p"
  shows "decode_tuple2 da db (encode_tuple2 ea eb p @ rest) = Ok (p, rest)"
proof -
  obtain x y where p: "p = (x, y)" by (cases p)
  have v: "va x" "vb y" and lt: "length (ea x @ eb y) < slice_bound"
    using assms by (auto simp: pair_valid_def p)
  have "decode_rlp_item (encode_length (length (ea x) + length (eb y)) @ ea x @ eb y @ rest) =
      Ok (True, ea x @ eb y, rest)"
    using decode_rlp_item_encode_length(1) [OF lt, of rest] by simp
  then show ?thesis
    by (simp add: p decode_tuple2_def encode_tuple2_def a.round_trip b.round_trip_whole v)
qed

lemma decode_tuple2_progress:
  "decode_tuple2 da db bs = Ok (x, rest) \<Longrightarrow> \<exists>pre. pre \<noteq> [] \<and> bs = pre @ rest"
  by (fastforce simp: decode_tuple2_def rbind_eq_Ok split: if_splits dest!: decode_rlp_item_parts)

lemma decode_tuple2_no_Diverge: "decode_tuple2 da db bs \<noteq> Diverge"
  by (auto simp: decode_tuple2_def rbind_eq_Diverge decode_rlp_item_no_Diverge
      a.dec_no_Diverge b.dec_no_Diverge)

end

sublocale rlp_codec2 \<subseteq> pair: rlp_codec "decode_tuple2 da db" "encode_tuple2 ea eb" pair_valid
  by unfold_locales
    (auto simp: decode_tuple2_enc decode_tuple2_no_Diverge dest: decode_tuple2_progress)

interpretation rlp_address_vec_h256: rlp_codec2 decode_address encode_address "\<lambda>a. length a = 20"
    "decode_vec decode_h256" "encode_vec encode_h256" rlp_h256.vec_valid
  by (intro rlp_codec2.intro rlp_address.rlp_codec_axioms rlp_h256.vec_codec)

end
