(* ===== verification/Rlp_Struct.thy ===== *)
theory Rlp_Struct
  imports Rlp_Instances
begin

text \<open>
  The helpers that encode a struct as a list of its fields, \<^verbatim>\<open>crates/common/rlp/structs.rs\<close>: a
  \<^verbatim>\<open>Decoder\<close> that walks over the payload field by field and an \<^verbatim>\<open>Encoder\<close> that collects the
  fields and writes the list header at the end.
\<close>

section \<open>Decoder\<close>

record decoder =
  d_payload :: bytes
  d_remaining :: bytes

fun display_rlp_error :: "rlp_error \<Rightarrow> string" where
  "display_rlp_error InvalidLength = ''InvalidLength''"
| "display_rlp_error MalformedData = ''MalformedData''"
| "display_rlp_error MalformedBoolean = ''MalformedBoolean''"
| "display_rlp_error UnexpectedList = ''UnexpectedList''"
| "display_rlp_error UnexpectedString = ''UnexpectedString''"
| "display_rlp_error InvalidCompression = ''InvalidCompression''"
| "display_rlp_error (Custom msg) = msg"

text \<open>\<open>typ_name\<close> is the result of \<^verbatim>\<open>std::any::type_name\<close> for the field's type.\<close>

definition field_decode_error :: "string \<Rightarrow> string \<Rightarrow> rlp_error \<Rightarrow> rlp_error" where
  "field_decode_error typ_name field_name err =
     Custom (''Error decoding field '' @ [CHR 0x27] @ field_name @ [CHR 0x27] @ '' of type ''
       @ typ_name @ '': '' @ display_rlp_error err)"

definition decoder_new :: "bytes \<Rightarrow> (decoder, rlp_error) result" where
  "decoder_new buf =
     rbind (decode_rlp_item buf) (\<lambda>(is_list, p, r).
       if is_list then Ok \<lparr>d_payload = p, d_remaining = r\<rparr> else Err UnexpectedString)"

definition decode_field ::
  "string \<Rightarrow> string \<Rightarrow> 'a decoder_fun \<Rightarrow> decoder \<Rightarrow> ('a \<times> decoder, rlp_error) result" where
  "decode_field typ_name name dec self =
     rbind (rmap_err (field_decode_error typ_name name) (dec (d_payload self))) (\<lambda>(field, rest).
       Ok (field, self\<lparr>d_payload := rest\<rparr>))"

definition get_encoded_item :: "decoder \<Rightarrow> (bytes \<times> decoder, rlp_error) result" where
  "get_encoded_item self =
     rbind (get_item_with_prefix (d_payload self)) (\<lambda>(field, rest).
       Ok (field, self\<lparr>d_payload := rest\<rparr>))"

definition decode_optional_field ::
  "'a decoder_fun \<Rightarrow> decoder \<Rightarrow> ('a option \<times> decoder, rlp_error) result" where
  "decode_optional_field dec self =
     (case dec (d_payload self) of
        Ok (field, rest) \<Rightarrow> Ok (Some field, self\<lparr>d_payload := rest\<rparr>)
      | Err _ \<Rightarrow> Ok (None, self)
      | Panic \<Rightarrow> Panic
      | Diverge \<Rightarrow> Diverge)"

definition decoder_finish :: "decoder \<Rightarrow> (bytes, rlp_error) result" where
  "decoder_finish self = (if d_payload self = [] then Ok (d_remaining self) else Err MalformedData)"

definition is_done :: "decoder \<Rightarrow> bool" where
  "is_done self \<longleftrightarrow> d_payload self = []"

definition finish_unchecked :: "decoder \<Rightarrow> bytes" where
  "finish_unchecked self = d_remaining self"

section \<open>Encoder\<close>

record encoder =
  e_buf :: bytes
  temp_buf :: bytes

definition encoder_new :: "bytes \<Rightarrow> encoder" where
  "encoder_new b = \<lparr>e_buf = b, temp_buf = []\<rparr>"

definition encode_raw :: "bytes \<Rightarrow> encoder \<Rightarrow> encoder" where
  "encode_raw bs self = self\<lparr>temp_buf := temp_buf self @ bs\<rparr>"

definition encode_field :: "('a \<Rightarrow> bytes) \<Rightarrow> 'a \<Rightarrow> encoder \<Rightarrow> encoder" where
  "encode_field enc x self = self\<lparr>temp_buf := temp_buf self @ enc x\<rparr>"

definition encode_optional_field :: "('a \<Rightarrow> bytes) \<Rightarrow> 'a option \<Rightarrow> encoder \<Rightarrow> encoder" where
  "encode_optional_field enc opt_value self =
     (case opt_value of
        Some x \<Rightarrow> self\<lparr>temp_buf := temp_buf self @ enc x\<rparr>
      | None \<Rightarrow> self)"

definition encode_key_value_list :: "(bytes \<times> bytes) list \<Rightarrow> encoder \<Rightarrow> encoder" where
  "encode_key_value_list kvs self =
     foldl (\<lambda>e (k, v). e\<lparr>temp_buf := temp_buf e @ encode_bytes k @ v\<rparr>) self kvs"

definition encoder_bytes :: "bytes \<Rightarrow> encoder \<Rightarrow> encoder" where
  "encoder_bytes bs self = self\<lparr>temp_buf := temp_buf self @ encode_bytes bs\<rparr>"

definition encoder_finish :: "encoder \<Rightarrow> bytes" where
  "encoder_finish self = e_buf self @ encode_length (length (temp_buf self)) @ temp_buf self"

section \<open>Reading back a struct\<close>

named_theorems encoder_simps "what an encoder has collected"

lemma encoder_new_simps [simp, encoder_simps]:
  "temp_buf (encoder_new b) = []" "e_buf (encoder_new b) = b"
  by (simp_all add: encoder_new_def)

lemma temp_buf_steps [simp, encoder_simps]:
  "temp_buf (encode_raw bs e) = temp_buf e @ bs"
  "temp_buf (encode_field enc x e) = temp_buf e @ enc x"
  "temp_buf (encode_optional_field enc v e) =
     temp_buf e @ (case v of Some y \<Rightarrow> enc y | None \<Rightarrow> [])"
  "temp_buf (encoder_bytes bs e) = temp_buf e @ encode_bytes bs"
  by (auto simp: encode_raw_def encode_field_def encode_optional_field_def encoder_bytes_def
      split: option.split)

lemma buf_steps [simp, encoder_simps]:
  "e_buf (encode_raw bs e) = e_buf e"
  "e_buf (encode_field enc x e) = e_buf e"
  "e_buf (encode_optional_field enc v e) = e_buf e"
  "e_buf (encoder_bytes bs e) = e_buf e"
  by (auto simp: encode_raw_def encode_field_def encode_optional_field_def encoder_bytes_def
      split: option.split)

lemma temp_buf_key_value_list [simp, encoder_simps]:
  "temp_buf (encode_key_value_list kvs e) =
     temp_buf e @ concat (map (\<lambda>(k, v). encode_bytes k @ v) kvs)"
  unfolding encode_key_value_list_def
  by (induction kvs arbitrary: e) (auto simp: split_beta)

lemma decoder_new_finish:
  "length (temp_buf e) < slice_bound \<Longrightarrow> e_buf e = [] \<Longrightarrow>
     decoder_new (encoder_finish e @ rest) = Ok \<lparr>d_payload = temp_buf e, d_remaining = rest\<rparr>"
  by (simp add: decoder_new_def encoder_finish_def decode_rlp_item_encode_length)

lemma decoder_new_progress:
  assumes "decoder_new bs = Ok d"
  shows "\<exists>pre. pre \<noteq> [] \<and> bs = pre @ d_remaining d"
proof -
  obtain p where "decode_rlp_item bs = Ok (True, p, d_remaining d)"
    using assms by (auto simp: decoder_new_def rbind_eq_Ok split: if_splits)
  from decode_rlp_item_parts [OF this] show ?thesis by fastforce
qed

lemma decoder_new_no_Diverge: "decoder_new bs \<noteq> Diverge"
  by (auto simp: decoder_new_def rbind_eq_Diverge decode_rlp_item_no_Diverge)

lemma decode_field_remaining:
  "decode_field t n dec d = Ok (x, d') \<Longrightarrow> d_remaining d' = d_remaining d"
  by (auto simp: decode_field_def rbind_eq_Ok)

lemma get_encoded_item_encode_bytes:
  "length bs < slice_bound \<Longrightarrow>
     get_encoded_item \<lparr>d_payload = encode_bytes bs @ p, d_remaining = r\<rparr> =
       Ok (encode_bytes bs, \<lparr>d_payload = p, d_remaining = r\<rparr>)"
  by (simp add: get_encoded_item_def decode_rlp_item_encode_bytes)

lemma rmap_err_eq_Diverge: "rmap_err f r = Diverge \<longleftrightarrow> r = Diverge"
  by (cases r) auto

context rlp_decoder
begin

lemma decode_field_no_Diverge: "decode_field t n dec d \<noteq> Diverge"
  by (auto simp: decode_field_def rbind_eq_Diverge dec_no_Diverge rmap_err_eq_Diverge)

end

context rlp_codec
begin

lemma decode_field_enc:
  "valid x \<Longrightarrow> decode_field t n dec \<lparr>d_payload = enc x @ p, d_remaining = r\<rparr> =
     Ok (x, \<lparr>d_payload = p, d_remaining = r\<rparr>)"
  by (simp add: decode_field_def round_trip)

lemma decode_optional_field_enc:
  "valid x \<Longrightarrow> decode_optional_field dec \<lparr>d_payload = enc x @ p, d_remaining = r\<rparr> =
     Ok (Some x, \<lparr>d_payload = p, d_remaining = r\<rparr>)"
  by (simp add: decode_optional_field_def round_trip)

end

lemma decode_optional_field_Nil:
  "dec [] = Err e \<Longrightarrow> decode_optional_field dec \<lparr>d_payload = [], d_remaining = r\<rparr> =
     Ok (None, \<lparr>d_payload = [], d_remaining = r\<rparr>)"
  by (simp add: decode_optional_field_def)

section \<open>Correctness of the RLP library\<close>

text \<open>
  C28: every unsigned integer type is read back from its encoding, and the encoding is
  recognised in front of any further input.
\<close>

theorem rlp_integers_round_trip:
  "decode_u8 (encode_u8 a @ rest) = Ok (a, rest) \<and>
   decode_u16 (encode_u16 b @ rest) = Ok (b, rest) \<and>
   decode_u32 (encode_u32 c @ rest) = Ok (c, rest) \<and>
   decode_u64 (encode_u64 d @ rest) = Ok (d, rest) \<and>
   decode_usize (encode_usize e @ rest) = Ok (e, rest) \<and>
   decode_u128 (encode_u128 f @ rest) = Ok (f, rest) \<and>
   decode_u256 (encode_u256 g @ rest) = Ok (g, rest)"
  by (simp add: rlp_u8.round_trip rlp_u16.round_trip rlp_u32.round_trip rlp_u64.round_trip
      rlp_usize.round_trip rlp_u128.round_trip rlp_u256.round_trip)

text \<open>
  a byte string of any length a slice can have is read back, and two encodings that begin
  the same input are encodings of the same string (the code is prefix-free).
\<close>

theorem rlp_bytes_round_trip:
  assumes "length bs < slice_bound" "length cs < slice_bound"
  shows "decode decode_bytes (encode_bytes bs) = Ok bs \<and>
    (encode_bytes bs @ r = encode_bytes cs @ s \<longleftrightarrow> bs = cs \<and> r = s)"
  using assms rlp_bytes.decode_enc rlp_bytes.enc_prefix_free by blast

theorem rlp_bytes_round_trip_witness:
  "decode decode_bytes (encode_bytes (replicate 60 7)) = Ok (replicate 60 7) \<and>
   (encode_bytes (replicate 60 7) @ [1] = encode_bytes (replicate 61 7) @ [2] \<longleftrightarrow>
     replicate 60 (7 :: u8) = replicate 61 7 \<and> [1 :: u8] = [2])"
  by (rule rlp_bytes_round_trip) (simp_all add: slice_bound_def)

text \<open>
  an access list entry, a pair of an address and a list of 32-byte storage keys, is read
  back from its encoding.
\<close>

theorem rlp_access_list_entry_round_trip:
  assumes "length a = 20" "\<forall>k \<in> set keys. length k = 32"
    and "length (encode_address a @ encode_vec encode_h256 keys) < slice_bound"
    and "length (concat (map encode_h256 keys)) < slice_bound"
  shows "decode_tuple2 decode_address (decode_vec decode_h256)
      (encode_tuple2 encode_address (encode_vec encode_h256) (a, keys) @ rest) =
    Ok ((a, keys), rest)"
  using assms
  by (intro rlp_address_vec_h256.pair.round_trip)
    (simp add: rlp_address_vec_h256.pair_valid_def rlp_h256.vec_valid_def)

theorem rlp_access_list_entry_round_trip_witness:
  "decode_tuple2 decode_address (decode_vec decode_h256)
     (encode_tuple2 encode_address (encode_vec encode_h256)
       (replicate 20 1, [replicate 32 2, replicate 32 3]) @ []) =
   Ok ((replicate 20 1, [replicate 32 2, replicate 32 3]), [])"
  by (rule rlp_access_list_entry_round_trip)
    (simp_all add: slice_bound_def encode_address_def encode_vec_def encode_h256_def
      encode_bytes_def length_prefix_def encode_length_def Let_def length_dropWhile_le
      le_less_trans [OF length_dropWhile_le])

text \<open>
  the item decoder cuts its result out of the input: the payload and the rest are
  consecutive parts of it behind a prefix of at most nine bytes, and at least one byte is
  consumed.
\<close>

theorem decode_rlp_item_cuts_input:
  assumes "decode_rlp_item data = Ok (is_list, payload, rest)"
  shows "\<exists>pre. data = pre @ payload @ rest \<and> length pre \<le> 9 \<and> length rest < length data"
  using assms by (rule decode_rlp_item_parts)

theorem decode_rlp_item_cuts_input_witness:
  "\<exists>pre. [0x82, 5, 6, 7] = pre @ [5, 6] @ [7 :: u8] \<and> length pre \<le> 9 \<and>
     length [7 :: u8] < length [0x82, 5, 6, 7 :: u8]"
  by (rule decode_rlp_item_cuts_input [of _ False])
    (simp add: decode_rlp_item_def short_item_def split_item_def slice_def slice_from_def
      usize_add_def usize_bound_def)

text \<open>
  decoding a vector ends on every input, well-formed or not, whenever the decoder of the
  elements consumes input: here for vectors of integers and of vectors of hashes.
\<close>

theorem decode_vec_terminates:
  "decode_vec decode_u64 bs \<noteq> Diverge \<and> decode_vec (decode_vec decode_h256) bs \<noteq> Diverge"
  using rlp_u64.decode_vec_no_Diverge
    rlp_decoder.decode_vec_no_Diverge [OF rlp_h256.vec_decoder] by blast

text \<open>
  C40: the item decoder panics exactly on the inputs whose long form declares a length that
  overflows a \<^verbatim>\<open>usize\<close> together with the prefix; every other malformed input is an error value.
\<close>

theorem decode_rlp_item_panics_iff:
  "decode_rlp_item data = Panic \<longleftrightarrow>
     (\<exists>k n. declared_length data = Some (k, n) \<and> 2 ^ 64 \<le> k + n + 1)"
  by (rule decode_rlp_item_panic)

end
