(* ===== verification/Nibbles.thy ===== *)
theory Nibbles
  imports Rlp_Struct
begin

text \<open>
  Nibble paths of the trie, \<^verbatim>\<open>crates/storage/trie/nibbles.rs\<close>. A path is a list of bytes below
  16, closed by the leaf flag 16 when it ends at a value. Accesses that the source leaves to
  the slice type to check are results that can panic.
\<close>

unbundle bit_operations_syntax

type_synonym nibbles = "u8 list"

section \<open>Operations\<close>

definition from_raw :: "bytes \<Rightarrow> bool \<Rightarrow> nibbles" where
  "from_raw bs leaf_flag =
     concat (map (\<lambda>byte. [drop_bit 4 byte AND 0x0F, byte AND 0x0F]) bs)
       @ (if leaf_flag then [16] else [])"

definition from_bytes :: "bytes \<Rightarrow> nibbles" where
  "from_bytes bs = from_raw bs True"

definition skip_prefix :: "nibbles \<Rightarrow> nibbles \<Rightarrow> bool \<times> nibbles" where
  "skip_prefix self prefix =
     (if length prefix \<le> length self \<and> take (length prefix) self = prefix
      then (True, drop (length prefix) self)
      else (False, self))"

datatype ordering = Less | Equal | Greater

fun cmp_bytes :: "u8 list \<Rightarrow> u8 list \<Rightarrow> ordering" where
  "cmp_bytes [] [] = Equal"
| "cmp_bytes [] (_ # _) = Less"
| "cmp_bytes (_ # _) [] = Greater"
| "cmp_bytes (a # as) (b # bs) =
     (if a < b then Less else if b < a then Greater else cmp_bytes as bs)"

definition compare_prefix :: "nibbles \<Rightarrow> nibbles \<Rightarrow> ordering" where
  "compare_prefix self prefix =
     (if length prefix < length self then cmp_bytes (take (length prefix) self) prefix
      else cmp_bytes self prefix)"

definition count_prefix :: "nibbles \<Rightarrow> nibbles \<Rightarrow> nat" where
  "count_prefix self other = length (takeWhile (\<lambda>(a, b). a = b) (zip self other))"

definition nib_next :: "nibbles \<Rightarrow> u8 option \<times> nibbles" where
  "nib_next self = (case self of [] \<Rightarrow> (None, []) | n # rest \<Rightarrow> (Some n, rest))"

definition next_choice :: "nibbles \<Rightarrow> nat option \<times> nibbles" where
  "next_choice self =
     (case nib_next self of
        (Some n, rest) \<Rightarrow> (if unat n < 16 then Some (unat n) else None, rest)
      | (None, rest) \<Rightarrow> (None, rest))"

definition nib_slice :: "nibbles \<Rightarrow> nat \<Rightarrow> nat \<Rightarrow> (nibbles, 'e) result" where
  "nib_slice self start stop = slice self start stop"

definition nib_offset :: "nibbles \<Rightarrow> nat \<Rightarrow> (nibbles, 'e) result" where
  "nib_offset self off = nib_slice self off (length self)"

definition nib_extend :: "nibbles \<Rightarrow> nibbles \<Rightarrow> nibbles" where
  "nib_extend self other = self @ other"

definition nib_at :: "nibbles \<Rightarrow> nat \<Rightarrow> (nat, 'e) result" where
  "nib_at self i = (if i < length self then Ok (unat (self ! i)) else Panic)"

definition nib_prepend :: "nibbles \<Rightarrow> u8 \<Rightarrow> nibbles" where
  "nib_prepend self n = n # self"

definition nib_append :: "nibbles \<Rightarrow> u8 \<Rightarrow> nibbles" where
  "nib_append self n = self @ [n]"

definition nib_is_leaf :: "nibbles \<Rightarrow> bool" where
  "nib_is_leaf self = (if self = [] then False else last self = 16)"

fun pack_pairs :: "nibbles \<Rightarrow> bytes" where
  "pack_pairs (a # b # rest) = (a * 16 + b) # pack_pairs rest"
| "pack_pairs _ = []"

definition encode_compact :: "nibbles \<Rightarrow> bytes" where
  "encode_compact self =
     (let leaf_flag = nib_is_leaf self;
          hex = (if leaf_flag then butlast self else self);
          odd_len = (length hex mod 2 = 1);
          v = (if odd_len then 0x10 + hd hex else 0x00);
          hex = (if odd_len then tl hex else hex)
      in (v + (if leaf_flag then 0x20 else 0x00)) # pack_pairs hex)"

definition keybytes_to_hex :: "bytes \<Rightarrow> nibbles" where
  "keybytes_to_hex keybytes = concat (map (\<lambda>b. [b div 16, b mod 16]) keybytes) @ [16]"

definition compact_to_hex :: "bytes \<Rightarrow> nibbles" where
  "compact_to_hex cbytes =
     (if cbytes = [] then []
      else let base = keybytes_to_hex cbytes;
               base = (if hd base < 2 then butlast base else base);
               chop = 2 - unat (hd base AND 1)
           in drop chop base)"

definition decode_compact :: "bytes \<Rightarrow> nibbles" where
  "decode_compact cbytes = compact_to_hex cbytes"

fun chunks_to_bytes :: "nibbles \<Rightarrow> bytes" where
  "chunks_to_bytes [] = []"
| "chunks_to_bytes [a] = [push_bit 4 a]"
| "chunks_to_bytes (a # b # rest) = (push_bit 4 a OR b) # chunks_to_bytes rest"

definition to_bytes :: "nibbles \<Rightarrow> bytes" where
  "to_bytes self =
     chunks_to_bytes (if self \<noteq> [] \<and> nib_is_leaf self then butlast self else self)"

definition encode_nibbles :: "nibbles \<Rightarrow> bytes" where
  "encode_nibbles self = encoder_finish (encode_field (encode_vec encode_u8) self (encoder_new []))"

definition decode_nibbles :: "nibbles decoder_fun" where
  "decode_nibbles rlp =
     rbind (decoder_new rlp) (\<lambda>decoder.
     rbind (decode_field ''Vec<u8>'' ''data'' (decode_vec decode_u8) decoder) (\<lambda>(data, decoder).
     rbind (decoder_finish decoder) (\<lambda>rest. Ok (data, rest))))"

section \<open>Paths\<close>

text \<open>\<open>nibs\<close>: proper nibbles only; \<open>key_path\<close>: a path to a value, closed by the leaf flag.\<close>

definition nibs :: "nibbles \<Rightarrow> bool" where
  "nibs p \<longleftrightarrow> (\<forall>n \<in> set p. unat n < 16)"

definition key_path :: "nibbles \<Rightarrow> bool" where
  "key_path p \<longleftrightarrow> p \<noteq> [] \<and> last p = 16 \<and> nibs (butlast p)"

lemma nibs_simps [simp]:
  "nibs []" "nibs (n # p) \<longleftrightarrow> unat n < 16 \<and> nibs p" "nibs (p @ q) \<longleftrightarrow> nibs p \<and> nibs q"
  by (auto simp: nibs_def)

lemma nibs_drop [intro]: "nibs p \<Longrightarrow> nibs (drop k p)"
  by (auto simp: nibs_def dest: in_set_dropD)

lemma nibs_take [intro]: "nibs p \<Longrightarrow> nibs (take k p)"
  by (auto simp: nibs_def dest: in_set_takeD)

lemma key_path_snoc: "key_path p \<longleftrightarrow> (\<exists>q. p = q @ [16] \<and> nibs q)"
  unfolding key_path_def by (metis append_butlast_last_id butlast_snoc last_snoc snoc_eq_iff_butlast)

lemma key_path_Cons: "key_path (n # p) \<longleftrightarrow> (n = 16 \<and> p = []) \<or> (unat n < 16 \<and> key_path p)"
  by (cases p) (auto simp: key_path_def)

lemma key_path_Nil [simp]: "\<not> key_path []"
  by (simp add: key_path_def)

lemma key_path_append: "nibs p \<Longrightarrow> key_path (p @ q) \<longleftrightarrow> key_path q"
  by (induction p) (auto simp: key_path_Cons)

text \<open>No path is a proper prefix of another one: the leaf flag ends every path.\<close>

lemma key_path_prefix: "key_path p \<Longrightarrow> key_path (p @ q) \<Longrightarrow> q = []"
proof (induction p)
  case (Cons n p)
  then show ?case by (cases "p = []") (auto simp: key_path_Cons)
qed simp

lemma and_mask_eq_take_bit_u8: "b AND 0x0F = (b :: u8) mod 16"
  using take_bit_eq_mask [of 4 b] by (simp add: mask_eq_exp_minus_1 take_bit_eq_mod)

lemma nibs_from_raw: "nibs (concat (map (\<lambda>byte. [drop_bit 4 byte AND 0x0F, byte AND 0x0F]) bs))"
proof -
  have "unat (b AND 0x0F) < 16" for b :: u8
  proof -
    have "b AND 0x0F = b mod 16" using and_mask_eq_take_bit_u8 [of b] by simp
    then show ?thesis by (simp add: unat_mod_distrib)
  qed
  then show ?thesis by (induction bs) auto
qed

lemma key_path_from_bytes [simp, intro]: "key_path (from_bytes bs)"
  using nibs_from_raw [of bs] by (auto simp: from_bytes_def from_raw_def key_path_snoc)

section \<open>Compact encoding\<close>

lemma nib_pack:
  assumes "unat a < 16" "unat b < 16"
  shows "(a * 16 + b) div 16 = (a :: u8)" "(a * 16 + b) mod 16 = b"
proof -
  have u: "unat (a * 16 + b) = unat a * 16 + unat b"
    using assms by (simp add: unat_word_ariths)
  have "unat ((a * 16 + b) div 16) = unat a" "unat ((a * 16 + b) mod 16) = unat b"
    using u assms by (simp_all add: unat_div_distrib unat_mod_distrib)
  then show "(a * 16 + b) div 16 = a" "(a * 16 + b) mod 16 = b"
    by (auto intro: unsigned_word_eqI)
qed

lemma unpack_pack_pairs:
  "\<lbrakk> nibs hex; even (length hex) \<rbrakk> \<Longrightarrow>
     concat (map (\<lambda>b. [b div 16, b mod 16]) (pack_pairs hex)) = hex"
  by (induction hex rule: pack_pairs.induct) (auto simp: nib_pack)

lemma keybytes_to_hex_pack:
  assumes "unat flag < 16" "unat n < 16" "nibs hex" "even (length hex)"
  shows "keybytes_to_hex ((flag * 16 + n) # pack_pairs hex) = flag # n # hex @ [16]"
  using assms by (simp add: keybytes_to_hex_def unpack_pack_pairs nib_pack)

lemma compact_to_hex_flags:
  assumes "unat n < 16" "nibs hex" "even (length hex)"
  shows "compact_to_hex ((0 * 16 + n) # pack_pairs hex) = hex"
    "compact_to_hex ((1 * 16 + n) # pack_pairs hex) = n # hex"
    "compact_to_hex ((2 * 16 + n) # pack_pairs hex) = hex @ [16]"
    "compact_to_hex ((3 * 16 + n) # pack_pairs hex) = n # hex @ [16]"
proof -
  note k = keybytes_to_hex_pack [OF _ assms]
  show "compact_to_hex ((0 * 16 + n) # pack_pairs hex) = hex"
    using k [of 0] by (simp add: compact_to_hex_def)
  show "compact_to_hex ((1 * 16 + n) # pack_pairs hex) = n # hex"
    using k [of 1] by (simp add: compact_to_hex_def)
  show "compact_to_hex ((2 * 16 + n) # pack_pairs hex) = hex @ [16]"
    using k [of 2] by (simp add: compact_to_hex_def)
  show "compact_to_hex ((3 * 16 + n) # pack_pairs hex) = n # hex @ [16]"
    using k [of 3] by (simp add: compact_to_hex_def)
qed

lemma encode_compact_ext:
  assumes "nibs p"
  shows "decode_compact (encode_compact p) = p"
proof -
  have leaf: "\<not> nib_is_leaf p"
    using assms by (cases p rule: rev_cases) (auto simp: nib_is_leaf_def)
  show ?thesis
  proof (cases "even (length p)")
    case True
    then show ?thesis
      using compact_to_hex_flags(1) [of 0 p] assms leaf
      by (simp add: decode_compact_def encode_compact_def Let_def)
  next
    case False
    then obtain n q where p: "p = n # q" "even (length q)" by (cases p) auto
    then show ?thesis
      using compact_to_hex_flags(2) [of n q] assms leaf
      by (simp add: decode_compact_def encode_compact_def Let_def mod_Suc even_iff_mod_2_eq_zero)
  qed
qed

lemma encode_compact_leaf:
  assumes "key_path p"
  shows "decode_compact (encode_compact p) = p"
proof -
  obtain q where q: "p = q @ [16]" "nibs q" using assms by (auto simp: key_path_snoc)
  then have leaf: "nib_is_leaf p" by (simp add: nib_is_leaf_def)
  show ?thesis
  proof (cases "even (length q)")
    case True
    then show ?thesis
      using compact_to_hex_flags(3) [of 0 q] q leaf
      by (simp add: decode_compact_def encode_compact_def Let_def)
  next
    case False
    then obtain n r where r: "q = n # r" "even (length r)" by (cases q) auto
    moreover have "(0x10 + n + 0x20 :: u8) = 3 * 16 + n" by simp
    ultimately show ?thesis
      using compact_to_hex_flags(4) [of n r] q leaf
      by (simp add: decode_compact_def encode_compact_def Let_def mod_Suc even_iff_mod_2_eq_zero
          add.commute add.left_commute)
  qed
qed

section \<open>Bytes and nibbles\<close>

lemma join_nibbles: "push_bit 4 (drop_bit 4 b AND 0x0F) OR (b AND 0x0F) = (b :: u8)"
proof -
  have m: "(0x0F :: u8) = mask 4" by (simp add: mask_eq_exp_minus_1)
  show ?thesis unfolding m
    by (rule bit_word_eqI) (auto simp: bit_simps)
qed

lemma chunks_from_raw: "chunks_to_bytes (from_raw bs False) = bs"
  by (induction bs) (auto simp: from_raw_def join_nibbles [simplified])

lemma to_bytes_from_bytes: "to_bytes (from_bytes bs) = bs"
  using chunks_from_raw [of bs] by (simp add: to_bytes_def from_bytes_def from_raw_def nib_is_leaf_def)

lemma from_bytes_inject: "from_bytes bs = from_bytes cs \<longleftrightarrow> bs = cs"
  by (metis to_bytes_from_bytes)

section \<open>Common prefixes\<close>

lemma count_prefix_Nil [simp]: "count_prefix [] q = 0" "count_prefix p [] = 0"
  by (simp_all add: count_prefix_def)

lemma count_prefix_Cons [simp]:
  "count_prefix (a # p) (b # q) = (if a = b then Suc (count_prefix p q) else 0)"
  by (simp add: count_prefix_def)

lemma count_prefix_le: "count_prefix p q \<le> length p" "count_prefix p q \<le> length q"
  by (induction p q rule: list_induct2') auto

lemma count_prefix_take: "take (count_prefix p q) p = take (count_prefix p q) q"
  by (induction p q rule: list_induct2') auto

lemma count_prefix_full: "count_prefix p q = length q \<longleftrightarrow> (\<exists>r. p = q @ r)"
  by (induction p q rule: list_induct2') auto

lemma skip_prefix_append [simp]: "skip_prefix (p @ r) p = (True, r)"
  by (simp add: skip_prefix_def)

lemma skip_prefix_cases:
  "skip_prefix path p = (if \<exists>r. path = p @ r then (True, drop (length p) path) else (False, path))"
  by (auto simp: skip_prefix_def) (metis append_take_drop_id)

end
