(* ===== verification/Trie_Node.thy ===== *)
theory Trie_Node
  imports Nibbles
begin

text \<open>
  Nodes of the Merkle Patricia trie and their two encodings: \<^verbatim>\<open>crates/storage/trie/node.rs\<close>,
  \<^verbatim>\<open>node_hash.rs\<close>, \<^verbatim>\<open>rlp.rs\<close> and the struct and encoding parts of \<^verbatim>\<open>node/leaf.rs\<close>,
  \<^verbatim>\<open>node/extension.rs\<close> and \<^verbatim>\<open>node/branch.rs\<close>. The raw encoding is the one that is hashed; a node
  whose raw encoding is shorter than 32 bytes stands in its parent itself. The Keccak-256
  function of the \<^verbatim>\<open>sha3\<close> package is the parameter \<open>keccak\<close>.
\<close>

section \<open>Node hashes\<close>

datatype node_hash = Hashed bytes | Inline bytes

fun node_hash_bytes :: "node_hash \<Rightarrow> bytes" where
  "node_hash_bytes (Hashed x) = x"
| "node_hash_bytes (Inline x) = x"

definition from_encoded_raw :: "(bytes \<Rightarrow> bytes) \<Rightarrow> bytes \<Rightarrow> node_hash" where
  "from_encoded_raw keccak encoded =
     (if 32 \<le> length encoded then Hashed (keccak encoded) else Inline encoded)"

fun finalize :: "(bytes \<Rightarrow> bytes) \<Rightarrow> node_hash \<Rightarrow> bytes" where
  "finalize keccak (Inline x) = keccak x"
| "finalize keccak (Hashed x) = x"

fun is_valid :: "node_hash \<Rightarrow> bool" where
  "is_valid (Inline v) \<longleftrightarrow> v \<noteq> []"
| "is_valid (Hashed _) \<longleftrightarrow> True"

definition node_hash_default :: node_hash where
  "node_hash_default = Inline []"

definition node_hash_of_bytes :: "bytes \<Rightarrow> node_hash" where
  "node_hash_of_bytes bs = (if length bs = 32 then Hashed bs else Inline bs)"

definition encode_node_hash :: "node_hash \<Rightarrow> bytes" where
  "encode_node_hash h = encode_vec encode_u8 (node_hash_bytes h)"

definition decode_node_hash :: "node_hash decoder_fun" where
  "decode_node_hash rlp =
     rbind (decode_vec decode_u8 rlp) (\<lambda>(hash, rest). Ok (node_hash_of_bytes hash, rest))"

section \<open>Nodes\<close>

record leaf_node =
  leaf_partial :: nibbles
  leaf_value :: bytes

record extension_node =
  ext_prefix :: nibbles
  ext_child :: node_hash

record branch_node =
  branch_choices :: "node_hash list"
  branch_value :: bytes

datatype node = Branch branch_node | Extension extension_node | Leaf leaf_node

definition EMPTY_CHOICES :: "node_hash list" where
  "EMPTY_CHOICES = replicate 16 node_hash_default"

definition new_leaf_node :: "nibbles \<Rightarrow> bytes \<Rightarrow> leaf_node" where
  "new_leaf_node p v = \<lparr>leaf_partial = p, leaf_value = v\<rparr>"

definition new_extension_node :: "nibbles \<Rightarrow> node_hash \<Rightarrow> extension_node" where
  "new_extension_node p c = \<lparr>ext_prefix = p, ext_child = c\<rparr>"

definition new_branch_node :: "node_hash list \<Rightarrow> branch_node" where
  "new_branch_node choices = \<lparr>branch_choices = choices, branch_value = []\<rparr>"

definition new_branch_with_value :: "node_hash list \<Rightarrow> bytes \<Rightarrow> branch_node" where
  "new_branch_with_value choices v = \<lparr>branch_choices = choices, branch_value = v\<rparr>"

section \<open>The raw encoding\<close>

definition encode_raw_leaf :: "leaf_node \<Rightarrow> bytes" where
  "encode_raw_leaf n =
     encoder_finish (encoder_bytes (leaf_value n)
       (encoder_bytes (encode_compact (leaf_partial n)) (encoder_new [])))"

definition encode_raw_extension :: "extension_node \<Rightarrow> bytes" where
  "encode_raw_extension n =
     (let enc = encoder_bytes (encode_compact (ext_prefix n)) (encoder_new [])
      in encoder_finish
           (case ext_child n of
              Inline x \<Rightarrow> encode_raw x enc
            | Hashed x \<Rightarrow> encoder_bytes x enc))"

fun encode_choice :: "encoder \<Rightarrow> node_hash \<Rightarrow> encoder" where
  "encode_choice enc (Hashed hash) = encoder_bytes hash enc"
| "encode_choice enc (Inline raw) = (if raw \<noteq> [] then encode_raw raw enc else encoder_bytes [] enc)"

definition encode_raw_branch :: "branch_node \<Rightarrow> bytes" where
  "encode_raw_branch n =
     encoder_finish (encoder_bytes (branch_value n)
       (foldl encode_choice (encoder_new []) (branch_choices n)))"

fun encode_raw_node :: "node \<Rightarrow> bytes" where
  "encode_raw_node (Branch n) = encode_raw_branch n"
| "encode_raw_node (Extension n) = encode_raw_extension n"
| "encode_raw_node (Leaf n) = encode_raw_leaf n"

definition compute_hash :: "(bytes \<Rightarrow> bytes) \<Rightarrow> node \<Rightarrow> node_hash" where
  "compute_hash keccak n = from_encoded_raw keccak (encode_raw_node n)"

definition decode_child :: "bytes \<Rightarrow> (node_hash, rlp_error) result" where
  "decode_child rlp =
     (case decode_bytes rlp of
        Ok (hash, rest) \<Rightarrow>
          Ok (if rest = [] \<and> length hash = 32 then Hashed hash
              else if rest = [] \<and> hash = [] then Inline []
              else Inline rlp)
      | Err _ \<Rightarrow> Ok (Inline rlp)
      | Panic \<Rightarrow> Panic
      | Diverge \<Rightarrow> Diverge)"

text \<open>The loop of \<^verbatim>\<open>Node::decode_raw\<close> stops by itself after 18 items; the fuel is that bound.\<close>

primrec collect_items :: "nat \<Rightarrow> bytes list \<Rightarrow> decoder \<Rightarrow> (bytes list, rlp_error) result" where
  "collect_items 0 rlp_items d = Diverge"
| "collect_items (Suc fuel) rlp_items d =
     rbind (get_encoded_item d) (\<lambda>(item, d).
       let rlp_items = rlp_items @ [item]
       in if is_done d \<or> 17 < length rlp_items then Ok rlp_items
          else collect_items fuel rlp_items d)"

primrec decode_children :: "bytes list \<Rightarrow> (node_hash list, rlp_error) result" where
  "decode_children [] = Ok []"
| "decode_children (rlp # rlps) =
     rbind (decode_child rlp) (\<lambda>h. rbind (decode_children rlps) (\<lambda>hs. Ok (h # hs)))"

fun string_of_nat :: "nat \<Rightarrow> string" where
  "string_of_nat n =
     (if n < 10 then [char_of (48 + n)] else string_of_nat (n div 10) @ [char_of (48 + n mod 10)])"

definition decode_raw :: "bytes \<Rightarrow> (node, rlp_error) result" where
  "decode_raw rlp =
     rbind (decoder_new rlp) (\<lambda>d.
     rbind (collect_items 18 [] d) (\<lambda>rlp_items.
       if length rlp_items = 2 then
         rbind (decode_bytes (rlp_items ! 0)) (\<lambda>(path, _).
           let path = decode_compact path
           in if nib_is_leaf path then
                rbind (decode_bytes (rlp_items ! 1)) (\<lambda>(v, _).
                  Ok (Leaf \<lparr>leaf_partial = path, leaf_value = v\<rparr>))
              else
                rbind (decode_child (rlp_items ! 1)) (\<lambda>c.
                  Ok (Extension \<lparr>ext_prefix = path, ext_child = c\<rparr>)))
       else if length rlp_items = 17 then
         rbind (decode_children (take 16 rlp_items)) (\<lambda>choices.
         rbind (decode_bytes (rlp_items ! 16)) (\<lambda>(v, _).
           Ok (Branch \<lparr>branch_choices = choices, branch_value = v\<rparr>)))
       else Err (Custom (''Invalid arg count for Node, expected 2 or 17, got ''
              @ string_of_nat (length rlp_items)))))"

section \<open>The storage encoding\<close>

datatype node_type = NodeBranch | NodeExtension | NodeLeaf

definition node_type_from_u8 :: "u8 \<Rightarrow> node_type option" where
  "node_type_from_u8 v =
     (if v = 0 then Some NodeBranch else if v = 1 then Some NodeExtension
      else if v = 2 then Some NodeLeaf else None)"

definition encode_branch :: "branch_node \<Rightarrow> bytes" where
  "encode_branch n =
     encoder_finish (encode_field (encode_vec encode_u8) (branch_value n)
       (encode_field (encode_vec encode_node_hash) (branch_choices n) (encoder_new [])))"

definition encode_extension :: "extension_node \<Rightarrow> bytes" where
  "encode_extension n =
     encoder_finish (encode_field encode_node_hash (ext_child n)
       (encode_field encode_nibbles (ext_prefix n) (encoder_new [])))"

definition encode_leaf :: "leaf_node \<Rightarrow> bytes" where
  "encode_leaf n =
     encoder_finish (encode_field (encode_vec encode_u8) (leaf_value n)
       (encode_field encode_nibbles (leaf_partial n) (encoder_new [])))"

definition decode_branch :: "branch_node decoder_fun" where
  "decode_branch rlp =
     rbind (decoder_new rlp) (\<lambda>d.
     rbind (decode_field ''Vec<NodeHash>'' ''choices'' (decode_vec decode_node_hash) d)
       (\<lambda>(choices, d).
     rbind (if length choices = 16 then Ok choices
            else Err (Custom (''Error decoding field '' @ [CHR 0x27] @ ''choices'' @ [CHR 0x27]
                   @ '' of type [H256;16]: Invalid Length''))) (\<lambda>choices.
     rbind (decode_field ''Vec<u8>'' ''value'' (decode_vec decode_u8) d) (\<lambda>(v, d).
     rbind (decoder_finish d) (\<lambda>rest.
       Ok (\<lparr>branch_choices = choices, branch_value = v\<rparr>, rest))))))"

definition decode_extension :: "extension_node decoder_fun" where
  "decode_extension rlp =
     rbind (decoder_new rlp) (\<lambda>d.
     rbind (decode_field ''Nibbles'' ''prefix'' decode_nibbles d) (\<lambda>(p, d).
     rbind (decode_field ''NodeHash'' ''child'' decode_node_hash d) (\<lambda>(c, d).
     rbind (decoder_finish d) (\<lambda>rest.
       Ok (\<lparr>ext_prefix = p, ext_child = c\<rparr>, rest)))))"

definition decode_leaf :: "leaf_node decoder_fun" where
  "decode_leaf rlp =
     rbind (decoder_new rlp) (\<lambda>d.
     rbind (decode_field ''Nibbles'' ''partial'' decode_nibbles d) (\<lambda>(p, d).
     rbind (decode_field ''Vec<u8>'' ''value'' (decode_vec decode_u8) d) (\<lambda>(v, d).
     rbind (decoder_finish d) (\<lambda>rest.
       Ok (\<lparr>leaf_partial = p, leaf_value = v\<rparr>, rest)))))"

fun encode_node :: "node \<Rightarrow> bytes" where
  "encode_node (Branch n) = 0 # encode_branch n"
| "encode_node (Extension n) = 1 # encode_extension n"
| "encode_node (Leaf n) = 2 # encode_leaf n"

definition decode_node :: "node decoder_fun" where
  "decode_node rlp =
     (case rlp of
        [] \<Rightarrow> Err InvalidLength
      | b # rlp \<Rightarrow>
          rbind (ok_or (node_type_from_u8 b) MalformedData) (\<lambda>t.
            case t of
              NodeBranch \<Rightarrow> rbind (decode_branch rlp) (\<lambda>(n, rest). Ok (Branch n, rest))
            | NodeExtension \<Rightarrow> rbind (decode_extension rlp) (\<lambda>(n, rest). Ok (Extension n, rest))
            | NodeLeaf \<Rightarrow> rbind (decode_leaf rlp) (\<lambda>(n, rest). Ok (Leaf n, rest))))"

end
