(* ===== verification/Trie_Codec.thy ===== *)
theory Trie_Codec
  imports Trie_Node
begin

text \<open>
  Both node encodings are read back: \<open>decode_raw\<close> inverts the raw encoding that is hashed and
  inlined in parents, \<open>decode_node\<close> inverts the storage encoding of the database.
\<close>

section \<open>Sizes\<close>

lemma length_prefix_length: "length (length_prefix s l n) \<le> 9"
  using sig_bytes_length [of 8 n] by (simp add: length_prefix_def Let_def)

lemma encode_bytes_length: "length (encode_bytes bs) \<le> length bs + 9"
  using length_prefix_length [of RLP_NULL "0xb7" "length bs"] by (simp add: encode_bytes_def)

lemma encode_length_length: "length (encode_length n) \<le> 9"
  using length_prefix_length by (simp add: encode_length_def)

lemma encode_u8_length: "length (encode_u8 n) \<le> 2"
  by (simp add: encode_u8_cases)

lemma concat_encode_u8_length: "length (concat (map encode_u8 bs)) \<le> 2 * length bs"
proof (induction bs)
  case (Cons b bs)
  then show ?case using encode_u8_length [of b] by simp
qed simp

lemma encode_vec_u8_length: "length (encode_vec encode_u8 bs) \<le> 2 * length bs + 9"
  using concat_encode_u8_length [of bs]
    encode_length_length [of "length (concat (map encode_u8 bs))"]
  by (simp add: encode_vec_alt)

lemma vec_u8_valid: "length bs < 2 ^ 61 \<Longrightarrow> rlp_u8.vec_valid bs"
  using concat_encode_u8_length [of bs] by (simp add: rlp_u8.vec_valid_def slice_bound_def)

lemma pack_pairs_length: "length (pack_pairs p) \<le> length p"
  by (induction p rule: pack_pairs.induct) auto

lemma encode_compact_length: "length (encode_compact p) \<le> length p + 1"
proof -
  have "length (pack_pairs (tl (butlast p))) \<le> length p" "length (pack_pairs (butlast p)) \<le> length p"
    "length (pack_pairs (tl p)) \<le> length p" "length (pack_pairs p) \<le> length p"
    using pack_pairs_length [of "tl (butlast p)"] pack_pairs_length [of "butlast p"]
      pack_pairs_length [of "tl p"] pack_pairs_length [of p] by simp_all
  then show ?thesis by (simp add: encode_compact_def Let_def)
qed

section \<open>Valid nodes\<close>

definition raw_list :: "bytes \<Rightarrow> bool" where
  "raw_list r \<longleftrightarrow> (\<exists>p. r = encode_length (length p) @ p \<and> length p < slice_bound)"

fun valid_child :: "node_hash \<Rightarrow> bool" where
  "valid_child (Hashed h) \<longleftrightarrow> length h = 32"
| "valid_child (Inline r) \<longleftrightarrow> length r < 32 \<and> (r = [] \<or> raw_list r)"

fun valid_node :: "node \<Rightarrow> bool" where
  "valid_node (Leaf n) \<longleftrightarrow> key_path (leaf_partial n) \<and>
     length (leaf_partial n) < 2 ^ 59 \<and> length (leaf_value n) < 2 ^ 59"
| "valid_node (Extension n) \<longleftrightarrow> nibs (ext_prefix n) \<and> length (ext_prefix n) < 2 ^ 59 \<and>
     valid_child (ext_child n) \<and> is_valid (ext_child n)"
| "valid_node (Branch n) \<longleftrightarrow> length (branch_choices n) = 16 \<and>
     (\<forall>h \<in> set (branch_choices n). valid_child h) \<and> length (branch_value n) < 2 ^ 59"

fun child_item :: "node_hash \<Rightarrow> bytes" where
  "child_item (Hashed h) = encode_bytes h"
| "child_item (Inline r) = (if r = [] then encode_bytes [] else r)"

fun node_items :: "node \<Rightarrow> bytes list" where
  "node_items (Leaf n) = [encode_bytes (encode_compact (leaf_partial n)), encode_bytes (leaf_value n)]"
| "node_items (Extension n) = [encode_bytes (encode_compact (ext_prefix n)), child_item (ext_child n)]"
| "node_items (Branch n) = map child_item (branch_choices n) @ [encode_bytes (branch_value n)]"

lemma encode_choice_bufs:
  "temp_buf (encode_choice e h) = temp_buf e @ child_item h" "e_buf (encode_choice e h) = e_buf e"
  by (cases h; simp)+

lemma temp_buf_foldl_encode_choice:
  "temp_buf (foldl encode_choice e hs) = temp_buf e @ concat (map child_item hs)"
  by (induction hs arbitrary: e) (auto simp: encode_choice_bufs)

lemma e_buf_foldl_encode_choice: "e_buf (foldl encode_choice e hs) = e_buf e"
  by (induction hs arbitrary: e) (auto simp: encode_choice_bufs)

lemmas foldl_encode_choice = temp_buf_foldl_encode_choice e_buf_foldl_encode_choice

lemma encode_raw_node_items:
  assumes "valid_node n"
  shows "encode_raw_node n =
    encode_length (length (concat (node_items n))) @ concat (node_items n)"
proof (cases n)
  case (Branch b)
  then show ?thesis by (simp add: encode_raw_branch_def encoder_finish_def foldl_encode_choice)
next
  case (Extension e)
  with assms show ?thesis
    by (cases "ext_child e") (auto simp: encode_raw_extension_def encoder_finish_def Let_def)
next
  case (Leaf l)
  then show ?thesis by (simp add: encode_raw_leaf_def encoder_finish_def)
qed

lemma child_item_length: "valid_child h \<Longrightarrow> length (child_item h) \<le> 41"
  using encode_bytes_length [of "node_hash_bytes h"] by (cases h) auto

lemma concat_child_item_length:
  "\<forall>h \<in> set hs. valid_child h \<Longrightarrow> length (concat (map child_item hs)) \<le> 41 * length hs"
proof (induction hs)
  case (Cons h hs)
  then show ?case using child_item_length [of h] by simp
qed simp

lemma node_items_length:
  assumes "valid_node n"
  shows "length (concat (node_items n)) < slice_bound"
proof (cases n)
  case (Branch b)
  have "length (concat (map child_item (branch_choices b))) \<le> 41 * 16"
    using assms Branch concat_child_item_length [of "branch_choices b"] by simp
  with assms Branch encode_bytes_length [of "branch_value b"] show ?thesis
    by (simp add: slice_bound_def)
next
  case (Extension e)
  with assms encode_bytes_length [of "encode_compact (ext_prefix e)"]
    encode_compact_length [of "ext_prefix e"] child_item_length [of "ext_child e"]
  show ?thesis by (simp add: slice_bound_def)
next
  case (Leaf l)
  with assms encode_bytes_length [of "encode_compact (leaf_partial l)"]
    encode_compact_length [of "leaf_partial l"] encode_bytes_length [of "leaf_value l"]
  show ?thesis by (simp add: slice_bound_def)
qed

section \<open>Reading back the raw encoding\<close>

definition item_ok :: "bytes \<Rightarrow> bool" where
  "item_ok it \<longleftrightarrow> it \<noteq> [] \<and> (\<forall>rest. get_item_with_prefix (it @ rest) = Ok (it, rest))"

lemma item_ok_encode_bytes: "length bs < slice_bound \<Longrightarrow> item_ok (encode_bytes bs)"
  by (simp add: item_ok_def decode_rlp_item_encode_bytes)

lemma item_ok_raw_list: "raw_list r \<Longrightarrow> item_ok r"
  by (auto simp: item_ok_def raw_list_def decode_rlp_item_encode_length)

lemma item_ok_child_item: "valid_child h \<Longrightarrow> item_ok (child_item h)"
  by (cases h) (auto simp: item_ok_raw_list item_ok_encode_bytes slice_bound_def)

lemma collect_items_all:
  "\<lbrakk> \<forall>it \<in> set its. item_ok it; its \<noteq> []; length acc + length its \<le> 17; length its \<le> fuel \<rbrakk> \<Longrightarrow>
     collect_items fuel acc \<lparr>d_payload = concat its, d_remaining = r\<rparr> = Ok (acc @ its)"
proof (induction its arbitrary: fuel acc)
  case (Cons it its)
  obtain k where k: "fuel = Suc k" using Cons.prems by (cases fuel) auto
  have g: "get_encoded_item \<lparr>d_payload = concat (it # its), d_remaining = r\<rparr> =
      Ok (it, \<lparr>d_payload = concat its, d_remaining = r\<rparr>)"
    using Cons.prems(1) by (simp add: get_encoded_item_def item_ok_def)
  show ?case
  proof (cases "its = []")
    case True
    with g k show ?thesis by (simp add: is_done_def)
  next
    case False
    then have "concat its \<noteq> []" using Cons.prems(1) by (cases its) (auto simp: item_ok_def)
    moreover have "collect_items k (acc @ [it]) \<lparr>d_payload = concat its, d_remaining = r\<rparr> =
        Ok ((acc @ [it]) @ its)"
      using Cons False k by (intro Cons.IH) auto
    ultimately show ?thesis using g k Cons.prems(3) by (auto simp: is_done_def Let_def)
  qed
qed simp

lemma decode_child_item:
  assumes "valid_child h"
  shows "decode_child (child_item h) = Ok h"
proof (cases h)
  case (Hashed x)
  then show ?thesis using assms decode_bytes_encode_bytes [of x "[]"]
    by (simp add: decode_child_def slice_bound_def)
next
  case (Inline r)
  show ?thesis
  proof (cases "r = []")
    case True
    then show ?thesis using Inline decode_bytes_encode_bytes [of "[]" "[]"]
      by (simp add: decode_child_def slice_bound_def)
  next
    case False
    then obtain p where "r = encode_length (length p) @ p" "length p < slice_bound"
      using assms Inline by (auto simp: raw_list_def)
    then have "decode_bytes r = Err UnexpectedList"
      using decode_rlp_item_encode_length(1) [of p "[]"] by (simp add: decode_bytes_def)
    then show ?thesis using Inline False by (simp add: decode_child_def)
  qed
qed

lemma decode_children_items:
  "\<forall>h \<in> set hs. valid_child h \<Longrightarrow> decode_children (map child_item hs) = Ok hs"
  by (induction hs) (auto simp: decode_child_item)

lemma nib_is_leaf_key_path: "key_path p \<Longrightarrow> nib_is_leaf p"
  by (auto simp: key_path_def nib_is_leaf_def)

lemma nib_is_leaf_nibs: "nibs p \<Longrightarrow> \<not> nib_is_leaf p"
  by (cases p rule: rev_cases) (auto simp: nib_is_leaf_def)

lemma node_items_ok:
  assumes "valid_node n"
  shows "\<forall>it \<in> set (node_items n). item_ok it" "node_items n \<noteq> []" "length (node_items n) \<le> 17"
proof -
  have c: "length (encode_compact p) < slice_bound" if "length p < 2 ^ 59" for p
    using encode_compact_length [of p] that by (simp add: slice_bound_def)
  show "\<forall>it \<in> set (node_items n). item_ok it"
    using assms c
    by (cases n) (auto simp: item_ok_child_item slice_bound_def intro!: item_ok_encode_bytes)
  show "node_items n \<noteq> []" "length (node_items n) \<le> 17" using assms by (cases n; simp)+
qed

lemma decode_bytes_item: "length bs < slice_bound \<Longrightarrow> decode_bytes (encode_bytes bs) = Ok (bs, [])"
  using decode_bytes_encode_bytes [of bs "[]"] by simp

lemma decode_raw_encode_raw:
  assumes v: "valid_node n"
  shows "decode_raw (encode_raw_node n) = Ok n"
proof -
  have d: "decoder_new (encode_raw_node n) = Ok \<lparr>d_payload = concat (node_items n), d_remaining = []\<rparr>"
    using decode_rlp_item_encode_length(1) [OF node_items_length [OF v], of "[]"]
    by (simp add: decoder_new_def encode_raw_node_items [OF v])
  have c: "collect_items 18 [] \<lparr>d_payload = concat (node_items n), d_remaining = []\<rparr> = Ok (node_items n)"
    using collect_items_all [of "node_items n" "[]" 18] node_items_ok [OF v] by simp
  have s: "length (encode_compact p) < slice_bound" if "length p < 2 ^ 59" for p
    using encode_compact_length [of p] that by (simp add: slice_bound_def)
  have l: "length bs < slice_bound" if "length bs < 2 ^ 59" for bs :: bytes
    using that by (simp add: slice_bound_def)
  show ?thesis
  proof (cases n)
    case (Branch b)
    with v d c decode_children_items [of "branch_choices b"] show ?thesis
      by (simp add: decode_raw_def nth_append decode_bytes_item l)
  next
    case (Extension e)
    with v d c show ?thesis
      by (simp add: decode_raw_def decode_bytes_item s encode_compact_ext nib_is_leaf_nibs
          decode_child_item)
  next
    case (Leaf l)
    with v d c show ?thesis
      by (simp add: decode_raw_def decode_bytes_item s encode_compact_leaf nib_is_leaf_key_path l)
  qed
qed

lemma encode_raw_node_inject:
  "valid_node n \<Longrightarrow> valid_node m \<Longrightarrow> encode_raw_node n = encode_raw_node m \<Longrightarrow> n = m"
  using decode_raw_encode_raw by (metis result.inject(1))

lemma encode_raw_node_raw_list: "valid_node n \<Longrightarrow> raw_list (encode_raw_node n)"
  by (auto simp: raw_list_def encode_raw_node_items node_items_length)

lemma compute_hash_valid:
  assumes "valid_node n" "\<And>bs. length (keccak bs) = 32"
  shows "valid_child (compute_hash keccak n)" "is_valid (compute_hash keccak n)"
  using assms encode_raw_node_raw_list [of n]
  by (auto simp: compute_hash_def from_encoded_raw_def raw_list_def)

section \<open>Reading back the storage encoding\<close>

lemma encode_nibbles_length: "length (encode_nibbles p) \<le> 2 * length p + 18"
  using encode_vec_u8_length [of p] encode_length_length [of "length (encode_vec encode_u8 p)"]
  by (simp add: encode_nibbles_def encoder_finish_def)

lemma decode_field_progress:
  "decode_field t n dec d = Ok (x, d') \<Longrightarrow> d_remaining d' = d_remaining d"
  by (rule decode_field_remaining)

lemma decoder_finish_Ok: "decoder_finish d = Ok r \<longleftrightarrow> d_payload d = [] \<and> r = d_remaining d"
  by (auto simp: decoder_finish_def)

lemmas struct_decoder_simps =
  rbind_eq_Ok rbind_eq_Diverge decoder_new_no_Diverge decoder_finish_def

lemma decode_nibbles_enc:
  assumes "length p < 2 ^ 60"
  shows "decode_nibbles (encode_nibbles p @ rest) = Ok (p, rest)"
proof -
  let ?e = "encode_field (encode_vec encode_u8) p (encoder_new [])"
  have "length (temp_buf ?e) < slice_bound"
    using encode_vec_u8_length [of p] assms by (simp add: slice_bound_def)
  then have "decoder_new (encode_nibbles p @ rest) =
      Ok \<lparr>d_payload = encode_vec encode_u8 p, d_remaining = rest\<rparr>"
    using decoder_new_finish [of ?e rest] by (simp add: encode_nibbles_def)
  moreover have "rlp_u8.vec_valid p" using assms by (intro vec_u8_valid) simp
  ultimately show ?thesis
    using rlp_codec.decode_field_enc [OF rlp_u8.vec_codec, of p _ _ "[]"]
    by (simp add: decode_nibbles_def decoder_finish_def)
qed

interpretation rlp_nibbles: rlp_codec decode_nibbles encode_nibbles "\<lambda>p. length p < 2 ^ 60"
proof unfold_locales
  show "\<exists>pre. pre \<noteq> [] \<and> bs = pre @ rest" if d: "decode_nibbles bs = Ok (p, rest)" for bs p rest
  proof -
    obtain d where "decoder_new bs = Ok d" "rest = d_remaining d"
      using d by (fastforce simp: decode_nibbles_def rbind_eq_Ok decoder_finish_Ok
          dest: decode_field_remaining)
    with decoder_new_progress show ?thesis by blast
  qed
  show "decode_nibbles bs \<noteq> Diverge" for bs
    by (auto simp: decode_nibbles_def struct_decoder_simps
        rlp_decoder.decode_field_no_Diverge [OF rlp_u8.vec_decoder])
qed (rule decode_nibbles_enc)

lemma decode_node_hash_enc:
  assumes "valid_child h"
  shows "decode_node_hash (encode_node_hash h @ rest) = Ok (h, rest)"
proof -
  have "length (node_hash_bytes h) \<le> 32" using assms by (cases h) auto
  then have "rlp_u8.vec_valid (node_hash_bytes h)" by (intro vec_u8_valid) simp
  then have "decode_vec decode_u8 (encode_node_hash h @ rest) = Ok (node_hash_bytes h, rest)"
    by (simp add: encode_node_hash_def rlp_u8.decode_vec_enc)
  with assms show ?thesis
    by (cases h) (auto simp: decode_node_hash_def node_hash_of_bytes_def)
qed

interpretation rlp_node_hash: rlp_codec decode_node_hash encode_node_hash valid_child
proof unfold_locales
  show "\<exists>pre. pre \<noteq> [] \<and> bs = pre @ rest" if "decode_node_hash bs = Ok (h, rest)" for bs h rest
    using that by (auto simp: decode_node_hash_def rbind_eq_Ok dest: rlp_u8.decode_vec_parts)
  show "decode_node_hash bs \<noteq> Diverge" for bs
    by (auto simp: decode_node_hash_def rbind_eq_Diverge rlp_u8.decode_vec_no_Diverge)
qed (rule decode_node_hash_enc)

lemma encode_node_hash_length: "valid_child h \<Longrightarrow> length (encode_node_hash h) \<le> 73"
  using encode_vec_u8_length [of "node_hash_bytes h"] by (cases h) (auto simp: encode_node_hash_def)

lemma concat_node_hash_length:
  "\<forall>h \<in> set hs. valid_child h \<Longrightarrow> length (concat (map encode_node_hash hs)) \<le> 73 * length hs"
proof (induction hs)
  case (Cons h hs)
  then show ?case using encode_node_hash_length [of h] by simp
qed simp

lemma decode_leaf_enc:
  assumes "valid_node (Leaf n)"
  shows "decode_leaf (encode_leaf n @ rest) = Ok (n, rest)"
proof -
  let ?e = "encode_field (encode_vec encode_u8) (leaf_value n)
    (encode_field encode_nibbles (leaf_partial n) (encoder_new []))"
  have "length (temp_buf ?e) < slice_bound"
    using encode_vec_u8_length [of "leaf_value n"] encode_nibbles_length [of "leaf_partial n"] assms
    by (simp add: slice_bound_def)
  then have "decoder_new (encode_leaf n @ rest) =
    Ok \<lparr>d_payload = encode_nibbles (leaf_partial n) @ encode_vec encode_u8 (leaf_value n),
        d_remaining = rest\<rparr>"
    using decoder_new_finish [of ?e rest] by (simp add: encode_leaf_def)
  moreover have "rlp_u8.vec_valid (leaf_value n)" using assms by (intro vec_u8_valid) simp
  ultimately show ?thesis
    using rlp_codec.decode_field_enc [OF rlp_u8.vec_codec, of "leaf_value n" _ _ "[]"] assms
    by (simp add: decode_leaf_def decoder_finish_def rlp_nibbles.decode_field_enc)
qed

lemma decode_extension_enc:
  assumes "valid_node (Extension n)"
  shows "decode_extension (encode_extension n @ rest) = Ok (n, rest)"
proof -
  let ?e = "encode_field encode_node_hash (ext_child n)
    (encode_field encode_nibbles (ext_prefix n) (encoder_new []))"
  have "length (temp_buf ?e) < slice_bound"
    using encode_node_hash_length [of "ext_child n"] encode_nibbles_length [of "ext_prefix n"] assms
    by (simp add: slice_bound_def)
  then have "decoder_new (encode_extension n @ rest) =
    Ok \<lparr>d_payload = encode_nibbles (ext_prefix n) @ encode_node_hash (ext_child n),
        d_remaining = rest\<rparr>"
    using decoder_new_finish [of ?e rest] by (simp add: encode_extension_def)
  then show ?thesis
    using rlp_node_hash.decode_field_enc [of "ext_child n" _ _ "[]"] assms
    by (simp add: decode_extension_def decoder_finish_def rlp_nibbles.decode_field_enc)
qed

lemma decode_branch_enc:
  assumes "valid_node (Branch n)"
  shows "decode_branch (encode_branch n @ rest) = Ok (n, rest)"
proof -
  let ?c = "encode_vec encode_node_hash (branch_choices n)"
  let ?e = "encode_field (encode_vec encode_u8) (branch_value n)
    (encode_field (encode_vec encode_node_hash) (branch_choices n) (encoder_new []))"
  have p: "length (concat (map encode_node_hash (branch_choices n))) \<le> 73 * 16"
    using assms concat_node_hash_length [of "branch_choices n"] by simp
  then have "length ?c \<le> 73 * 16 + 9"
    using encode_length_length [of "length (concat (map encode_node_hash (branch_choices n)))"]
    by (simp add: encode_vec_alt)
  then have "length (temp_buf ?e) < slice_bound"
    using encode_vec_u8_length [of "branch_value n"] assms by (simp add: slice_bound_def)
  then have "decoder_new (encode_branch n @ rest) =
    Ok \<lparr>d_payload = ?c @ encode_vec encode_u8 (branch_value n), d_remaining = rest\<rparr>"
    using decoder_new_finish [of ?e rest] by (simp add: encode_branch_def)
  moreover have "rlp_u8.vec_valid (branch_value n)" using assms by (intro vec_u8_valid) simp
  moreover have "rlp_node_hash.vec_valid (branch_choices n)"
    using assms p by (simp add: rlp_node_hash.vec_valid_def slice_bound_def)
  ultimately show ?thesis
    using rlp_codec.decode_field_enc [OF rlp_u8.vec_codec, of "branch_value n" _ _ "[]"] assms
    by (simp add: decode_branch_def decoder_finish_def
        rlp_codec.decode_field_enc [OF rlp_node_hash.vec_codec])
qed

lemma decode_node_encode_node:
  assumes "valid_node n"
  shows "decode_node (encode_node n @ rest) = Ok (n, rest)"
  using assms decode_leaf_enc decode_extension_enc decode_branch_enc
  by (cases n) (auto simp: decode_node_def node_type_from_u8_def)

end
