(* ===== verification/Patricia.thy ===== *)
theory Patricia
  imports Trie_Codec
begin

text \<open>
  The trie as a value: Patricia tries with subtries in place of node hashes, and the insertion,
  lookup and removal of \<^verbatim>\<open>node/leaf.rs\<close>, \<^verbatim>\<open>node/extension.rs\<close> and \<^verbatim>\<open>node/branch.rs\<close> on them. This is
  the specification the hashed, stored trie is refined to. Here it is shown to be a finite map
  from paths to values whose shape is determined by its contents.
\<close>

section \<open>Tries and lookup\<close>

datatype ptrie =
    PLeaf nibbles bytes
  | PExt nibbles ptrie
  | PBranch "ptrie option list" bytes

definition some_value :: "bytes \<Rightarrow> bytes option" where
  "some_value v = (if v = [] then None else Some v)"

lemma size_child_mem [termination_simp]:
  "Some t \<in> set ts \<Longrightarrow> size t < Suc (size_list (size_option size) ts)"
  using size_list_estimation' [of "Some t" ts "size t" "size_option size"] by simp

lemma size_child [termination_simp]:
  "i < length ts \<Longrightarrow> ts ! i = Some t \<Longrightarrow> size t < Suc (size_list (size_option size) ts)"
  by (metis nth_mem size_child_mem)

fun pget :: "ptrie \<Rightarrow> nibbles \<Rightarrow> bytes option" where
  "pget (PLeaf p v) q = (if p = q then Some v else None)"
| "pget (PExt p t) q =
     (if length p \<le> length q \<and> take (length p) q = p then pget t (drop (length p) q) else None)"
| "pget (PBranch ts v) q =
     (case q of
        [] \<Rightarrow> some_value v
      | n # r \<Rightarrow>
          if unat n < 16 then
            (if unat n < length ts
             then (case ts ! unat n of None \<Rightarrow> None | Some t \<Rightarrow> pget t r) else None)
          else some_value v)"

section \<open>Insertion\<close>

definition pchoices :: "ptrie option list" where
  "pchoices = replicate 16 None"

definition leaf_split :: "nibbles \<Rightarrow> bytes \<Rightarrow> nibbles \<Rightarrow> bytes \<Rightarrow> ptrie" where
  "leaf_split p w q v =
     (let k = count_prefix q p;
          a = unat (p ! k); b = unat (q ! k);
          branch =
            (if a = 16 then PBranch (pchoices[b := Some (PLeaf (drop (Suc k) q) v)]) w
             else if b = 16 then PBranch (pchoices[a := Some (PLeaf (drop (Suc k) p) w)]) v
             else PBranch (pchoices[b := Some (PLeaf (drop (Suc k) q) v),
                                    a := Some (PLeaf (drop (Suc k) p) w)]) [])
      in if k = 0 then branch else PExt (take k q) branch)"

definition ext_tail :: "nibbles \<Rightarrow> ptrie \<Rightarrow> ptrie" where
  "ext_tail p t = (if length p = 1 then t else PExt (tl p) t)"

definition ext_split :: "nibbles \<Rightarrow> ptrie \<Rightarrow> nibbles \<Rightarrow> bytes \<Rightarrow> ptrie" where
  "ext_split p t q v =
     (let ts = pchoices[unat (hd p) := Some (ext_tail p t)]
      in if unat (hd q) < 16 then PBranch (ts[unat (hd q) := Some (PLeaf (tl q) v)]) []
         else PBranch ts v)"

fun pinsert :: "ptrie \<Rightarrow> nibbles \<Rightarrow> bytes \<Rightarrow> ptrie" where
  "pinsert (PLeaf p w) q v = (if p = q then PLeaf p v else leaf_split p w q v)"
| "pinsert (PExt p t) q v =
     (let k = count_prefix q p
      in if k = length p then PExt p (pinsert t (drop k q) v)
         else if k = 0 then ext_split p t q v
         else PExt (take k p) (ext_split (drop k p) t (drop k q) v))"
| "pinsert (PBranch ts w) q v =
     (case q of
        [] \<Rightarrow> PBranch ts v
      | n # r \<Rightarrow>
          if unat n < 16 then
            (if unat n < length ts
             then PBranch (ts[unat n := Some (case ts ! unat n of None \<Rightarrow> PLeaf r v
                                              | Some t \<Rightarrow> pinsert t r v)]) w
             else PBranch ts w)
          else PBranch ts v)"

section \<open>Removal\<close>

fun prefix_trie :: "nibbles \<Rightarrow> ptrie \<Rightarrow> ptrie" where
  "prefix_trie p (PLeaf q v) = PLeaf (p @ q) v"
| "prefix_trie p (PExt q t) = PExt (p @ q) t"
| "prefix_trie p (PBranch ts v) = PExt p (PBranch ts v)"

definition pchildren :: "ptrie option list \<Rightarrow> (nat \<times> ptrie) list" where
  "pchildren ts = concat (map (\<lambda>(i, c). case c of None \<Rightarrow> [] | Some t \<Rightarrow> [(i, t)]) (enumerate 0 ts))"

definition restructure :: "ptrie option list \<Rightarrow> bytes \<Rightarrow> ptrie" where
  "restructure ts v =
     (let cs = pchildren ts
      in if length cs = 0 \<and> v \<noteq> [] then PLeaf [16] v
         else if length cs = 1 \<and> v = [] then prefix_trie [of_nat (fst (hd cs))] (snd (hd cs))
         else PBranch ts v)"

fun premove :: "ptrie \<Rightarrow> nibbles \<Rightarrow> ptrie option \<times> bytes option" where
  "premove (PLeaf p w) q = (if p = q then (None, Some w) else (Some (PLeaf p w), None))"
| "premove (PExt p t) q =
     (if length p \<le> length q \<and> take (length p) q = p
      then (let (t', old) = premove t (drop (length p) q) in (map_option (prefix_trie p) t', old))
      else (Some (PExt p t), None))"
| "premove (PBranch ts w) q =
     (case q of
        [] \<Rightarrow> (Some (restructure ts []), some_value w)
      | n # r \<Rightarrow>
          if unat n < 16 then
            (if unat n < length ts
             then (case ts ! unat n of
                     None \<Rightarrow> (Some (restructure ts w), None)
                   | Some t \<Rightarrow>
                       (let (t', old) = premove t r
                        in (Some (restructure (ts[unat n := t']) w), old)))
             else (Some (PBranch ts w), None))
          else (Some (restructure ts []), some_value w))"

section \<open>Well-formed tries\<close>

fun is_pbranch :: "ptrie \<Rightarrow> bool" where
  "is_pbranch (PBranch ts v) \<longleftrightarrow> True"
| "is_pbranch _ \<longleftrightarrow> False"

definition child_count :: "ptrie option list \<Rightarrow> nat" where
  "child_count ts = length (filter (\<lambda>c. c \<noteq> None) ts)"

definition pcount :: "ptrie option list \<Rightarrow> bytes \<Rightarrow> nat" where
  "pcount ts v = child_count ts + (if v = [] then 0 else 1)"

text \<open>
  Leaves hold non-empty values under a path closed by the leaf flag, an extension has a
  non-empty path and leads to a branch, a branch has at least two entries.
\<close>

fun pwf :: "ptrie \<Rightarrow> bool" where
  "pwf (PLeaf p v) \<longleftrightarrow> key_path p \<and> v \<noteq> []"
| "pwf (PExt p t) \<longleftrightarrow> p \<noteq> [] \<and> nibs p \<and> is_pbranch t \<and> pwf t"
| "pwf (PBranch ts v) \<longleftrightarrow>
     length ts = 16 \<and> (\<forall>c \<in> set ts. case c of None \<Rightarrow> True | Some t \<Rightarrow> pwf t) \<and> 2 \<le> pcount ts v"

section \<open>Lookup equations\<close>

lemma unat_nib_eq [simp]: "unat a = unat b \<longleftrightarrow> (a :: u8) = b"
  by (metis unsigned_word_eqI)

lemma unat_nib_16 [simp]: "unat (n :: u8) = 16 \<longleftrightarrow> n = 16"
proof -
  have "unat (16 :: u8) = 16" by simp
  then show ?thesis by (metis unsigned_word_eqI)
qed

lemma pwf_PBranch:
  "pwf (PBranch ts v) \<longleftrightarrow>
     length ts = 16 \<and> (\<forall>i t. i < 16 \<longrightarrow> ts ! i = Some t \<longrightarrow> pwf t) \<and> 2 \<le> pcount ts v"
  by (fastforce simp: in_set_conv_nth split: option.splits)

declare pwf.simps(3) [simp del]

lemma pget_branch_nib [simp]:
  "unat n < 16 \<Longrightarrow> length ts = 16 \<Longrightarrow>
     pget (PBranch ts v) (n # r) = (case ts ! unat n of None \<Rightarrow> None | Some t \<Rightarrow> pget t r)"
  by simp

lemma pget_branch_16 [simp]: "pget (PBranch ts v) (16 # r) = some_value v"
  by simp

declare pget.simps(3) [simp del]

lemma pget_PExt: "pget (PExt p t) q = (if \<exists>r. q = p @ r then pget t (drop (length p) q) else None)"
  by (auto simp del: append_take_drop_id) (metis append_take_drop_id)

lemma pget_PExt_append [simp]: "pget (PExt p t) (p @ r) = pget t r"
  by (simp add: pget_PExt)

declare pget.simps(2) [simp del]

definition pext :: "nibbles \<Rightarrow> ptrie \<Rightarrow> ptrie" where
  "pext p t = (if p = [] then t else PExt p t)"

lemma pget_pext: "pget (pext p t) q = (if \<exists>r. q = p @ r then pget t (drop (length p) q) else None)"
  by (simp add: pext_def pget_PExt)

lemma pget_prefix_trie:
  "pget (prefix_trie p t) q = (if \<exists>r. q = p @ r then pget t (drop (length p) q) else None)"
proof (cases t)
  case (PLeaf r v)
  then show ?thesis by auto (metis append_eq_conv_conj)
qed (auto simp: pget_PExt)

lemma pchoices_simps [simp]: "length pchoices = 16" "i < 16 \<Longrightarrow> pchoices ! i = None"
  by (simp_all add: pchoices_def)

section \<open>Two different paths part at a nibble\<close>

lemma count_prefix_split: "a \<noteq> b \<Longrightarrow> count_prefix (c @ a # p) (c @ b # q) = length c"
  by (induction c) auto

lemma key_paths_part:
  "\<lbrakk> key_path p; key_path q; p \<noteq> q \<rbrakk> \<Longrightarrow>
     \<exists>c a p' b q'. p = c @ a # p' \<and> q = c @ b # q' \<and> a \<noteq> b \<and> nibs c \<and>
       key_path (a # p') \<and> key_path (b # q')"
proof (induction p arbitrary: q)
  case (Cons a p)
  obtain b q' where q: "q = b # q'" using Cons.prems(2) by (cases q) auto
  show ?case
  proof (cases "a = b")
    case False
    show ?thesis
      by (rule exI [of _ "[]"], rule exI [of _ a], rule exI [of _ p], rule exI [of _ b],
          rule exI [of _ q']) (use Cons.prems q False in auto)
  next
    case True
    then have n: "unat a < 16" "key_path p" "key_path q'" "p \<noteq> q'"
      using Cons.prems q by (auto simp: key_path_Cons)
    then obtain c x p'' y q'' where "p = c @ x # p''" "q' = c @ y # q''" "x \<noteq> y" "nibs c"
      "key_path (x # p'')" "key_path (y # q'')"
      using Cons.IH [of q'] by blast
    then show ?thesis
      by (intro exI [of _ "a # c"] exI [of _ x] exI [of _ p''] exI [of _ y] exI [of _ q''])
        (use q True n(1) in auto)
  qed
qed simp

lemma ext_path_parts:
  "\<lbrakk> nibs p; key_path q; count_prefix q p \<noteq> length p \<rbrakk> \<Longrightarrow>
     \<exists>c a p' b q'. p = c @ a # p' \<and> q = c @ b # q' \<and> a \<noteq> b \<and> nibs c \<and> unat a < 16 \<and>
       nibs p' \<and> key_path (b # q')"
proof (induction p arbitrary: q)
  case (Cons a p)
  obtain b q' where q: "q = b # q'" using Cons.prems(2) by (cases q) auto
  show ?case
  proof (cases "a = b")
    case False
    show ?thesis
      by (rule exI [of _ "[]"], rule exI [of _ a], rule exI [of _ p], rule exI [of _ b],
          rule exI [of _ q']) (use Cons.prems q False in auto)
  next
    case True
    then have "nibs p" "key_path q'" "count_prefix q' p \<noteq> length p"
      using Cons.prems q by (auto simp: key_path_Cons)
    then obtain c x p'' y q'' where "p = c @ x # p''" "q' = c @ y # q''" "x \<noteq> y" "nibs c"
      "unat x < 16" "nibs p''" "key_path (y # q'')"
      using Cons.IH [of q'] by blast
    then show ?thesis
      by (intro exI [of _ "a # c"] exI [of _ x] exI [of _ p''] exI [of _ y] exI [of _ q''])
        (use q True Cons.prems(1) in auto)
  qed
qed simp

lemma key_path_cases:
  "key_path (n # p) \<Longrightarrow> (n = 16 \<and> p = []) \<or> (unat n < 16 \<and> n \<noteq> 16 \<and> key_path p)"
  by (auto simp: key_path_Cons)

definition two_leaves :: "u8 \<Rightarrow> nibbles \<Rightarrow> bytes \<Rightarrow> u8 \<Rightarrow> nibbles \<Rightarrow> bytes \<Rightarrow> ptrie" where
  "two_leaves a p w b q v =
     (if a = 16 then PBranch (pchoices[unat b := Some (PLeaf q v)]) w
      else if b = 16 then PBranch (pchoices[unat a := Some (PLeaf p w)]) v
      else PBranch (pchoices[unat b := Some (PLeaf q v), unat a := Some (PLeaf p w)]) [])"

lemma leaf_split_parts:
  "a \<noteq> b \<Longrightarrow> leaf_split (c @ a # p) w (c @ b # q) v = pext c (two_leaves a p w b q v)"
  using count_prefix_split [of b a c q p]
  by (simp add: leaf_split_def two_leaves_def pext_def Let_def nth_append)

lemma pinsert_PExt_parts:
  assumes "a \<noteq> b"
  shows "pinsert (PExt (c @ a # p) t) (c @ b # q) v = pext c (ext_split (a # p) t (b # q) v)"
  using assms count_prefix_split [of b a c q p] by (simp add: pext_def Let_def)

lemma pinsert_PExt_full: "pinsert (PExt p t) (p @ q) v = PExt p (pinsert t q v)"
  using count_prefix_full [of "p @ q" p] by (simp add: Let_def)

declare pinsert.simps(2) [simp del]

lemma pinsert_branch_nib [simp]:
  "unat n < 16 \<Longrightarrow> length ts = 16 \<Longrightarrow>
     pinsert (PBranch ts w) (n # r) v =
       PBranch (ts[unat n := Some (case ts ! unat n of None \<Rightarrow> PLeaf r v | Some t \<Rightarrow> pinsert t r v)]) w"
  by simp

lemma pinsert_branch_16 [simp]: "pinsert (PBranch ts w) (16 # r) v = PBranch ts v"
  by simp

declare pinsert.simps(3) [simp del]

section \<open>Lookup after insertion\<close>

lemma key_path_nib: "key_path (n # p) \<Longrightarrow> n \<noteq> 16 \<Longrightarrow> unat n < 16 \<and> key_path p"
  by (auto simp: key_path_Cons)

lemma pget_two_leaves:
  assumes "a \<noteq> b" "key_path (a # p)" "key_path (b # q)" "v \<noteq> []" "w \<noteq> []" "key_path r"
  shows "pget (two_leaves a p w b q v) r =
    (if r = b # q then Some v else if r = a # p then Some w else None)"
proof -
  obtain n s where r: "r = n # s" using assms(6) by (cases r) auto
  consider "n = 16" "s = []" | "unat n < 16" "n \<noteq> 16"
    using key_path_cases assms(6) r by blast
  then show ?thesis
  proof cases
    case 1
    then show ?thesis using assms r
      by (auto simp: two_leaves_def some_value_def key_path_Cons)
  next
    case 2
    have "a \<noteq> 16 \<Longrightarrow> unat a < 16" "b \<noteq> 16 \<Longrightarrow> unat b < 16"
      using assms(2,3) by (auto dest: key_path_nib)
    with 2 show ?thesis using assms(1) r
      by (auto simp: two_leaves_def nth_list_update)
  qed
qed

lemma pget_ext_tail: "pget (ext_tail (a # p) t) q = pget (PExt p t) q"
  by (cases p) (simp_all add: ext_tail_def pget_PExt)

lemma pget_ext_split:
  assumes "a \<noteq> b" "unat a < 16" "key_path (b # q)" "v \<noteq> []" "key_path r"
  shows "pget (ext_split (a # p) t (b # q) v) r =
    (if r = b # q then Some v else pget (PExt (a # p) t) r)"
proof -
  obtain n s where r: "r = n # s" using assms(5) by (cases r) auto
  have e: "pget (PExt (a # p) t) (n # s) = (if n = a then pget (PExt p t) s else None)"
    by (auto simp: pget_PExt)
  have a16: "a \<noteq> 16" using assms(2) by auto
  consider "n = 16" "s = []" | "unat n < 16" "n \<noteq> 16"
    using key_path_cases assms(5) r by blast
  then show ?thesis
  proof cases
    case 1
    then show ?thesis using assms r a16 e
      by (auto simp: ext_split_def Let_def some_value_def key_path_Cons)
  next
    case 2
    then show ?thesis using assms r a16 e
      by (auto simp: ext_split_def Let_def nth_list_update pget_ext_tail key_path_Cons)
  qed
qed

lemma key_path_append_iff: "nibs c \<Longrightarrow> r = c @ s \<Longrightarrow> key_path r \<Longrightarrow> key_path s"
  using key_path_append by blast

lemma pget_pinsert:
  "\<lbrakk> pwf t; key_path q; key_path r; v \<noteq> [] \<rbrakk> \<Longrightarrow>
     pget (pinsert t q v) r = (if r = q then Some v else pget t r)"
proof (induction t arbitrary: q r)
  case (PLeaf p w)
  show ?case
  proof (cases "p = q")
    case True
    then show ?thesis by simp
  next
    case False
    then obtain c a p' b q' where d: "p = c @ a # p'" "q = c @ b # q'" "a \<noteq> b" "nibs c"
      "key_path (a # p')" "key_path (b # q')"
      using PLeaf.prems by (metis key_paths_part pwf.simps(1))
    show ?thesis
    proof (cases "\<exists>s. r = c @ s")
      case True
      then obtain s where s: "r = c @ s" "key_path s"
        using d(4) PLeaf.prems(3) key_path_append_iff by blast
      then show ?thesis using PLeaf.prems d
        by (simp add: leaf_split_parts pget_pext pget_two_leaves)
    next
      case no: False
      then have "r \<noteq> p" "r \<noteq> q" using d(1,2) by blast+
      then have "pget (PLeaf p w) r = None" by simp
      then show ?thesis using no \<open>r \<noteq> q\<close> d False by (simp add: leaf_split_parts pget_pext)
    qed
  qed
next
  case (PExt p t)
  show ?case
  proof (cases "count_prefix q p = length p")
    case True
    then obtain q' where q: "q = p @ q'" using count_prefix_full by blast
    then have "key_path q'" using PExt.prems by (auto simp: key_path_append)
    then have "pget (pinsert t q' v) s = (if s = q' then Some v else pget t s)"
      if "key_path s" for s using PExt.IH [of q' s] PExt.prems that by simp
    note IH = this
    show ?thesis
    proof (cases "\<exists>s. r = p @ s")
      case True
      then obtain s where s: "r = p @ s" by blast
      then have "key_path s" using PExt.prems key_path_append_iff by (metis pwf.simps(2))
      then show ?thesis by (simp add: q s pinsert_PExt_full IH)
    next
      case False
      then show ?thesis by (auto simp: q pinsert_PExt_full pget_PExt)
    qed
  next
    case False
    then obtain c a p' b q' where d: "p = c @ a # p'" "q = c @ b # q'" "a \<noteq> b" "nibs c"
      "unat a < 16" "nibs p'" "key_path (b # q')"
      using PExt.prems by (metis ext_path_parts pwf.simps(2))
    show ?thesis
    proof (cases "\<exists>s. r = c @ s")
      case True
      then obtain s where s: "r = c @ s" "key_path s"
        using d(4) PExt.prems(3) key_path_append_iff by blast
      then have "pget (PExt p t) r = pget (PExt (a # p') t) s" by (auto simp: d pget_PExt)
      with s show ?thesis using PExt.prems d
        by (simp add: pinsert_PExt_parts pget_pext pget_ext_split)
    next
      case no: False
      then have "r \<noteq> q" "\<nexists>s. r = p @ s" using d(1,2) by auto
      then show ?thesis using no d by (simp add: pinsert_PExt_parts pget_pext pget_PExt)
    qed
  qed
next
  case (PBranch ts w)
  obtain n q' m r' where qr: "q = n # q'" "r = m # r'" using PBranch.prems by (cases q; cases r) auto
  have l: "length ts = 16" using PBranch.prems by (simp add: pwf_PBranch)
  have IH: "pget (pinsert t q' v) r' = (if r' = q' then Some v else pget t r')"
    if "ts ! unat n = Some t" "unat n < 16" "key_path q'" "key_path r'" for t
  proof (rule PBranch.IH [of "Some t"])
    show "Some t \<in> set ts" using that l by (metis nth_mem)
    show "pwf t" using PBranch.prems(1) that by (auto simp: pwf_PBranch)
  qed (use that PBranch.prems in auto)
  have "(n = 16 \<and> q' = []) \<or> (unat n < 16 \<and> n \<noteq> 16 \<and> key_path q')"
    "(m = 16 \<and> r' = []) \<or> (unat m < 16 \<and> m \<noteq> 16 \<and> key_path r')"
    using PBranch.prems qr key_path_cases by blast+
  then show ?case
    using PBranch.prems(4) l IH
    by (auto simp: qr some_value_def nth_list_update split: option.splits)
qed

end
