(* ===== verification/Patricia_Map.thy ===== *)
theory Patricia_Map
  imports Patricia
begin

text \<open>
  Well-formedness of the pure trie is kept by insertion and removal, removal deletes exactly one
  path, and a well-formed trie is determined by the paths and values it holds. The last part
  states the finite-map interface as a locale and interprets it on the trie.
\<close>

section \<open>Counting the entries of a branch\<close>

lemma child_count_update:
  "i < length ts \<Longrightarrow> child_count (ts[i := c]) + (if ts ! i = None then 0 else 1) =
     child_count ts + (if c = None then 0 else 1)"
proof (induction ts arbitrary: i)
  case (Cons x ts)
  then show ?case by (cases i) (fastforce simp: child_count_def)+
qed simp

lemma child_count_pchoices [simp]: "child_count pchoices = 0"
  by (simp add: pchoices_def child_count_def)

lemma child_count_set_new:
  "i < length ts \<Longrightarrow> ts ! i = None \<Longrightarrow> child_count (ts[i := Some t]) = Suc (child_count ts)"
  using child_count_update [of i ts "Some t"] by simp

lemma child_count_set_old:
  "i < length ts \<Longrightarrow> ts ! i \<noteq> None \<Longrightarrow> child_count (ts[i := Some t]) = child_count ts"
  using child_count_update [of i ts "Some t"] by auto

section \<open>Insertion keeps the shape\<close>

lemma pwf_two_leaves:
  assumes "a \<noteq> b" "key_path (a # p)" "key_path (b # q)" "v \<noteq> []" "w \<noteq> []"
  shows "pwf (two_leaves a p w b q v)"
proof -
  have "a \<noteq> 16 \<Longrightarrow> unat a < 16 \<and> key_path p" "b \<noteq> 16 \<Longrightarrow> unat b < 16 \<and> key_path q"
    using assms(2,3) key_path_nib by blast+
  with assms show ?thesis
    by (auto simp: two_leaves_def pwf_PBranch pcount_def child_count_set_new nth_list_update
        split: if_splits)
qed

lemma is_pbranch_two_leaves [simp]: "is_pbranch (two_leaves a p w b q v)"
  by (simp add: two_leaves_def)

lemma is_pbranch_ext_split [simp]: "is_pbranch (ext_split p t q v)"
  by (simp add: ext_split_def Let_def)

lemma pwf_ext_tail: "is_pbranch t \<Longrightarrow> pwf t \<Longrightarrow> nibs p \<Longrightarrow> pwf (ext_tail (a # p) t)"
  by (cases p) (auto simp: ext_tail_def)

lemma pwf_ext_split:
  assumes "a \<noteq> b" "unat a < 16" "nibs p" "is_pbranch t" "pwf t" "key_path (b # q)" "v \<noteq> []"
  shows "pwf (ext_split (a # p) t (b # q) v)"
proof -
  have t: "pwf (ext_tail (a # p) t)" using assms by (intro pwf_ext_tail)
  consider "b = 16" | "unat b < 16" "key_path q" using key_path_cases [OF assms(6)] by blast
  then show ?thesis
    by cases (use assms t in \<open>auto simp: ext_split_def Let_def pwf_PBranch pcount_def
        child_count_set_new nth_list_update split: if_splits\<close>)
qed

lemma pwf_pext: "nibs c \<Longrightarrow> is_pbranch t \<Longrightarrow> pwf t \<Longrightarrow> pwf (pext c t)"
  by (simp add: pext_def)

lemma is_pbranch_pinsert: "is_pbranch t \<Longrightarrow> is_pbranch (pinsert t q v)"
  by (cases t) (auto simp: pinsert.simps(3) split: list.split)

lemma pcount_set_some: "i < length ts \<Longrightarrow> pcount ts w \<le> pcount (ts[i := Some t]) w"
  using child_count_update [of i ts "Some t"] by (auto simp: pcount_def split: if_splits)

lemma pwf_pinsert: "\<lbrakk> pwf t; key_path q; v \<noteq> [] \<rbrakk> \<Longrightarrow> pwf (pinsert t q v)"
proof (induction t arbitrary: q)
  case (PLeaf p w)
  show ?case
  proof (cases "p = q")
    case False
    then obtain c a p' b q' where "p = c @ a # p'" "q = c @ b # q'" "a \<noteq> b" "nibs c"
      "key_path (a # p')" "key_path (b # q')"
      using PLeaf.prems key_paths_part by (metis pwf.simps(1))
    then show ?thesis using PLeaf.prems False
      by (simp add: leaf_split_parts pwf_pext pwf_two_leaves)
  qed (use PLeaf in simp)
next
  case (PExt p t)
  show ?case
  proof (cases "count_prefix q p = length p")
    case True
    then obtain q' where q: "q = p @ q'" using count_prefix_full by blast
    then have "key_path q'" using PExt.prems by (auto simp: key_path_append)
    then show ?thesis
      using PExt q by (simp add: pinsert_PExt_full is_pbranch_pinsert)
  next
    case False
    then obtain c a p' b q' where "p = c @ a # p'" "q = c @ b # q'" "a \<noteq> b" "nibs c"
      "unat a < 16" "nibs p'" "key_path (b # q')"
      using PExt.prems ext_path_parts by (metis pwf.simps(2))
    then show ?thesis using PExt.prems
      by (simp add: pinsert_PExt_parts pwf_pext pwf_ext_split)
  qed
next
  case (PBranch ts w)
  obtain n r where q: "q = n # r" using PBranch.prems by (cases q) auto
  have l: "length ts = 16" using PBranch.prems by (simp add: pwf_PBranch)
  from key_path_cases PBranch.prems(2) q
  consider "n = 16" | "unat n < 16" "key_path r" by blast
  then show ?case
  proof cases
    case 1
    then show ?thesis using PBranch.prems q by (auto simp: pwf_PBranch pcount_def split: if_splits)
  next
    case 2
    define c where "c = (case ts ! unat n of None \<Rightarrow> PLeaf r v | Some t \<Rightarrow> pinsert t r v)"
    have "pwf c"
    proof (cases "ts ! unat n")
      case (Some t)
      then have "Some t \<in> set ts" using 2 l by (metis nth_mem)
      then show ?thesis using PBranch Some 2 by (auto simp: c_def pwf_PBranch)
    qed (use 2 PBranch.prems in \<open>simp add: c_def\<close>)
    moreover have "2 \<le> pcount (ts[unat n := Some c]) w"
      using pcount_set_some [of "unat n" ts w c] PBranch.prems(1) 2 l by (simp add: pwf_PBranch)
    ultimately show ?thesis using PBranch.prems q 2 l
      by (auto simp: pwf_PBranch c_def nth_list_update split: if_splits)
  qed
qed

section \<open>Removal\<close>

lemma enumerate_update:
  "i < length ts \<Longrightarrow> (j, c) \<in> set (enumerate k (ts[i := d])) \<longleftrightarrow>
     (if j = k + i then c = d else (j, c) \<in> set (enumerate k ts))"
  by (auto simp: in_set_enumerate_eq nth_list_update split: if_splits)

lemma set_pchildren: "(i, t) \<in> set (pchildren ts) \<longleftrightarrow> i < length ts \<and> ts ! i = Some t"
  by (fastforce simp: pchildren_def in_set_enumerate_eq split: option.splits)

lemma length_pchildren_enum:
  "length (concat (map (\<lambda>(i, c). case c of None \<Rightarrow> [] | Some t \<Rightarrow> [(i, t)]) (enumerate k ts))) =
     child_count ts"
  by (induction ts arbitrary: k) (auto simp: child_count_def split: option.splits)

lemma length_pchildren: "length (pchildren ts) = child_count ts"
  unfolding pchildren_def by (rule length_pchildren_enum)

lemma pchildren_single:
  assumes "child_count ts = 1"
  shows "\<exists>i t. pchildren ts = [(i, t)] \<and> i < length ts \<and> ts ! i = Some t \<and>
    (\<forall>j < length ts. j \<noteq> i \<longrightarrow> ts ! j = None)"
proof -
  obtain i t where p: "pchildren ts = [(i, t)]"
    using assms length_pchildren [of ts] by (auto simp: length_Suc_conv)
  then have "i < length ts" "ts ! i = Some t" using set_pchildren [of i t ts] by auto
  moreover have "ts ! j = None" if "j < length ts" "j \<noteq> i" for j
    using set_pchildren [of j _ ts] p that by (cases "ts ! j") auto
  ultimately show ?thesis using p by blast
qed

lemma unat_of_nat_nib: "i < 16 \<Longrightarrow> unat (of_nat i :: u8) = i"
  by (simp add: unat_of_nat_u8)

lemma child_count_0: "child_count ts = 0 \<Longrightarrow> i < length ts \<Longrightarrow> ts ! i = None"
  by (auto simp: child_count_def filter_empty_conv)

lemma restructure_alt:
  "restructure ts v =
     (if child_count ts = 0 \<and> v \<noteq> [] then PLeaf [16] v
      else if child_count ts = 1 \<and> v = [] then
        prefix_trie [of_nat (fst (hd (pchildren ts)))] (snd (hd (pchildren ts)))
      else PBranch ts v)"
  by (simp only: restructure_def Let_def length_pchildren)

lemma pget_restructure:
  assumes "length ts = 16" "key_path q"
  shows "pget (restructure ts v) q = pget (PBranch ts v) q"
proof -
  obtain n r where q: "q = n # r" using assms(2) by (cases q) auto
  have k: "(n = 16 \<and> r = []) \<or> (unat n < 16 \<and> n \<noteq> 16 \<and> key_path r)"
    using key_path_cases assms(2) q by blast
  consider "child_count ts = 0" "v \<noteq> []" | "child_count ts = 1" "v = []"
    | "restructure ts v = PBranch ts v"
    using restructure_alt by metis
  then show ?thesis
  proof cases
    case 1
    then have "restructure ts v = PLeaf [16] v" by (simp add: restructure_alt)
    then show ?thesis using 1 k q assms child_count_0 [OF 1(1)]
      by (auto simp: some_value_def)
  next
    case 2
    then obtain i t where p: "pchildren ts = [(i, t)]" "i < 16" "ts ! i = Some t"
      "\<forall>j < 16. j \<noteq> i \<longrightarrow> ts ! j = None" using pchildren_single assms(1) by metis
    then have "restructure ts v = prefix_trie [of_nat i] t"
      using 2 by (simp add: restructure_alt)
    then have "pget (restructure ts v) q = (if n = of_nat i then pget t r else None)"
      by (auto simp: pget_prefix_trie q)
    moreover have "n = of_nat i \<longleftrightarrow> unat n = i"
      using unat_of_nat_nib [OF p(2)] by (metis unat_nib_eq)
    moreover have "(of_nat i :: u8) \<noteq> 16"
      using unat_of_nat_nib [OF p(2)] p(2) by (metis less_irrefl unat_nib_16)
    ultimately show ?thesis using k p q assms(1) 2
      by (auto simp: some_value_def)
  qed simp
qed

lemma pwf_prefix_trie: "nibs p \<Longrightarrow> p \<noteq> [] \<Longrightarrow> pwf t \<Longrightarrow> pwf (prefix_trie p t)"
  by (cases t) (auto simp: key_path_append)

lemma pwf_restructure:
  assumes "length ts = 16" "\<And>i t. i < 16 \<Longrightarrow> ts ! i = Some t \<Longrightarrow> pwf t" "1 \<le> pcount ts v"
  shows "pwf (restructure ts v)"
proof -
  consider "child_count ts = 0" "v \<noteq> []" | "child_count ts = 1" "v = []"
    | "restructure ts v = PBranch ts v" "2 \<le> pcount ts v"
  proof (cases "2 \<le> pcount ts v")
    case True
    then show ?thesis using that restructure_alt [of ts v] by (auto simp: pcount_def split: if_splits)
  next
    case False
    then show ?thesis using that assms(3) by (auto simp: pcount_def split: if_splits)
  qed
  then show ?thesis
  proof cases
    case 1
    then show ?thesis by (simp add: restructure_alt key_path_Cons)
  next
    case 2
    then obtain i t where p: "pchildren ts = [(i, t)]" "i < 16" "ts ! i = Some t"
      using pchildren_single assms(1) by metis
    then show ?thesis using 2 assms(2) [of i t] unat_of_nat_nib [of i]
      by (simp add: restructure_alt pwf_prefix_trie)
  next
    case 3
    then show ?thesis using assms(1,2) by (simp add: pwf_PBranch)
  qed
qed

definition pget_opt :: "ptrie option \<Rightarrow> nibbles \<Rightarrow> bytes option" where
  "pget_opt c q = (case c of None \<Rightarrow> None | Some t \<Rightarrow> pget t q)"

lemma pget_opt_simps [simp]: "pget_opt None q = None" "pget_opt (Some t) q = pget t q"
  by (simp_all add: pget_opt_def)

text \<open>What removal promises: the old value, a well-formed rest, and no other path changed.\<close>

definition removes :: "ptrie \<Rightarrow> nibbles \<Rightarrow> ptrie option \<times> bytes option \<Rightarrow> bool" where
  "removes t q res \<longleftrightarrow>
     snd res = pget t q \<and>
     (\<forall>r. key_path r \<longrightarrow> pget_opt (fst res) r = (if r = q then None else pget t r)) \<and>
     (\<forall>u. fst res = Some u \<longrightarrow> pwf u) \<and>
     (is_pbranch t \<longrightarrow> fst res \<noteq> None)"

lemma premove_branch_nib:
  "unat n < 16 \<Longrightarrow> length ts = 16 \<Longrightarrow>
     premove (PBranch ts w) (n # r) =
       (case ts ! unat n of
          None \<Rightarrow> (Some (restructure ts w), None)
        | Some t \<Rightarrow> (Some (restructure (ts[unat n := fst (premove t r)]) w), snd (premove t r)))"
  by (simp add: split_beta split: option.split)

lemma premove_branch_16: "premove (PBranch ts w) (16 # r) = (Some (restructure ts []), some_value w)"
  by simp

lemma take_prefix_iff: "length p \<le> length q \<and> take (length p) q = p \<longleftrightarrow> (\<exists>r. q = p @ r)"
  by (metis append_eq_conv_conj append_take_drop_id length_append le_add1)

lemma premove_PExt:
  "premove (PExt p t) q =
     (if \<exists>r. q = p @ r
      then (map_option (prefix_trie p) (fst (premove t (drop (length p) q))),
            snd (premove t (drop (length p) q)))
      else (Some (PExt p t), None))"
  unfolding premove.simps(2) take_prefix_iff by (simp add: split_beta)

declare premove.simps(2,3) [simp del]

lemma pget_opt_prefix:
  "pget_opt (map_option (prefix_trie p) t) r =
     (if \<exists>s. r = p @ s then pget_opt t (drop (length p) r) else None)"
  by (cases t) (simp_all add: pget_prefix_trie)

lemma removes_PExt:
  assumes "pwf (PExt p t)" "key_path q"
    and IH: "\<And>q. key_path q \<Longrightarrow> removes t q (premove t q)"
  shows "removes (PExt p t) q (premove (PExt p t) q)"
proof (cases "\<exists>s. q = p @ s")
  case True
  then obtain s where q: "q = p @ s" by blast
  have nib: "nibs p" "p \<noteq> []" using assms(1) by auto
  then have r: "removes t s (premove t s)" using IH assms(2) q by (simp add: key_path_append)
  have "pget_opt (map_option (prefix_trie p) (fst (premove t s))) x =
      (if x = q then None else pget (PExt p t) x)" if x: "key_path x" for x
  proof (cases "\<exists>y. x = p @ y")
    case True
    then obtain y where "x = p @ y" by blast
    then show ?thesis using r x q nib
      by (simp add: pget_opt_prefix removes_def key_path_append)
  next
    case False
    then show ?thesis by (auto simp: pget_opt_prefix pget_PExt)
  qed
  then show ?thesis using r q nib
    by (auto simp: removes_def premove_PExt pwf_prefix_trie)
next
  case False
  then show ?thesis using assms(1) by (auto simp: removes_def premove_PExt pget_PExt)
qed

lemma pcount_set: "i < length ts \<Longrightarrow> pcount ts w \<le> Suc (pcount (ts[i := c]) w)"
  using child_count_update [of i ts c] by (auto simp: pcount_def split: if_splits)

lemma removes_PBranch:
  assumes wf: "pwf (PBranch ts w)" and q: "key_path q"
    and IH: "\<And>i t r. i < 16 \<Longrightarrow> ts ! i = Some t \<Longrightarrow> key_path r \<Longrightarrow> removes t r (premove t r)"
  shows "removes (PBranch ts w) q (premove (PBranch ts w) q)"
proof -
  obtain n r where qn: "q = n # r" using q by (cases q) auto
  have l: "length ts = 16" and two: "2 \<le> pcount ts w"
    and ch: "\<And>i t. i < 16 \<Longrightarrow> ts ! i = Some t \<Longrightarrow> pwf t" using wf by (auto simp: pwf_PBranch)
  consider "n = 16" "r = []" | "unat n < 16" "n \<noteq> 16" "key_path r" "ts ! unat n = None"
    | t where "unat n < 16" "n \<noteq> 16" "key_path r" "ts ! unat n = Some t"
    using key_path_cases q qn by (metis option.exhaust)
  then show ?thesis
  proof cases
    case 1
    have "pget (PBranch ts []) x = (if x = q then None else pget (PBranch ts w) x)"
      if k: "key_path x" for x
    proof -
      obtain m y where x: "x = m # y" using k by (cases x) auto
      with k key_path_cases [of m y] show ?thesis
        using 1 l qn by (auto simp: some_value_def)
    qed
    moreover have "1 \<le> pcount ts []" using two by (auto simp: pcount_def split: if_splits)
    ultimately show ?thesis using 1 qn l ch
      by (auto simp: removes_def premove_branch_16 pget_restructure intro: pwf_restructure)
  next
    case 2
    moreover have "pget (PBranch ts w) q = None" using 2 l qn by simp
    ultimately show ?thesis using qn l ch two
      by (auto simp: removes_def premove_branch_nib pget_restructure intro: pwf_restructure)
  next
    case 3
    let ?c = "fst (premove t r)"
    have rm: "removes t r (premove t r)" using IH 3 by blast
    have "pget (PBranch (ts[unat n := ?c]) w) x = (if x = q then None else pget (PBranch ts w) x)"
      if k: "key_path x" for x
    proof -
      obtain m y where x: "x = m # y" using k by (cases x) auto
      have "pget_opt ?c y = (if y = r then None else pget t y)" if "key_path y"
        using rm that by (simp add: removes_def)
      with k key_path_cases [of m y] x show ?thesis
        using 3 l qn by (auto simp: nth_list_update pget_opt_def)
    qed
    moreover have "pwf u" if "i < 16" "ts[unat n := ?c] ! i = Some u" for i u
      using that ch rm 3 l by (auto simp: removes_def nth_list_update split: if_splits)
    moreover have "1 \<le> pcount (ts[unat n := ?c]) w"
      using pcount_set [of "unat n" ts w ?c] two l 3(1) by simp
    ultimately show ?thesis using 3 qn l rm
      by (auto simp: removes_def premove_branch_nib pget_restructure intro!: pwf_restructure)
  qed
qed

lemma premove_removes: "\<lbrakk> pwf t; key_path q \<rbrakk> \<Longrightarrow> removes t q (premove t q)"
proof (induction t arbitrary: q)
  case (PLeaf p w)
  then show ?case by (auto simp: removes_def)
next
  case (PExt p t)
  then show ?case by (intro removes_PExt) auto
next
  case (PBranch ts w)
  show ?case
  proof (rule removes_PBranch [OF PBranch.prems])
    fix i t r
    assume a: "i < 16" "ts ! i = Some t" "key_path r"
    then have "Some t \<in> set ts" "pwf t"
      using PBranch.prems(1) by (auto simp: pwf_PBranch) (metis nth_mem)
    then show "removes t r (premove t r)" using PBranch.IH [of "Some t" t r] a by simp
  qed
qed

section \<open>A trie is determined by its contents\<close>

definition holds_key :: "ptrie \<Rightarrow> nibbles \<Rightarrow> bool" where
  "holds_key t q \<longleftrightarrow> key_path q \<and> pget t q \<noteq> None"

lemma holds_key_child:
  "length ts = 16 \<Longrightarrow> i < 16 \<Longrightarrow> ts ! i = Some t \<Longrightarrow> holds_key t q \<Longrightarrow>
     holds_key (PBranch ts v) (of_nat i # q)"
  using unat_of_nat_nib [of i] by (simp add: holds_key_def key_path_Cons)

lemma holds_key_value: "v \<noteq> [] \<Longrightarrow> holds_key (PBranch ts v) [16]"
  by (simp add: holds_key_def key_path_Cons some_value_def)

lemma child_exists:
  assumes "1 \<le> child_count ts"
  shows "\<exists>i < length ts. ts ! i \<noteq> None"
proof (rule ccontr)
  assume "\<not> ?thesis"
  then have "filter (\<lambda>c. c \<noteq> None) ts = []" by (auto simp: filter_empty_conv in_set_conv_nth)
  then show False using assms by (simp add: child_count_def)
qed

lemma two_children:
  assumes "2 \<le> child_count ts"
  shows "\<exists>i j. i < length ts \<and> j < length ts \<and> i \<noteq> j \<and> ts ! i \<noteq> None \<and> ts ! j \<noteq> None"
proof -
  obtain i where i: "i < length ts" "ts ! i \<noteq> None"
    using child_exists [of ts] assms by (metis le_trans one_le_numeral)
  then have "1 \<le> child_count (ts[i := None])" using assms child_count_update [of i ts None] by auto
  then obtain j where "j < length ts" "ts[i := None] ! j \<noteq> None"
    using child_exists [of "ts[i := None]"] by auto
  with i show ?thesis by (metis nth_list_update)
qed

lemma pwf_nonempty: "pwf t \<Longrightarrow> \<exists>q. holds_key t q"
proof (induction t)
  case (PLeaf p v)
  then show ?case by (auto simp: holds_key_def)
next
  case (PExt p t)
  then obtain q where "holds_key t q" by auto
  then have "holds_key (PExt p t) (p @ q)" using PExt.prems by (simp add: holds_key_def key_path_append)
  then show ?case by blast
next
  case (PBranch ts v)
  show ?case
  proof (cases "v = []")
    case True
    then have "1 \<le> child_count ts" using PBranch.prems by (simp add: pwf_PBranch pcount_def)
    then obtain i t where i: "i < 16" "ts ! i = Some t" "length ts = 16" "pwf t"
      using child_exists [of ts] PBranch.prems by (auto simp: pwf_PBranch)
    then obtain q where "holds_key t q" using PBranch.IH [of "Some t" t] by (metis nth_mem option.set_intros)
    then show ?thesis using holds_key_child i by blast
  qed (use holds_key_value in blast)
qed

text \<open>The paths of a branch part at their first nibble.\<close>

lemma branch_parts:
  assumes "pwf (PBranch ts v)"
  shows "\<exists>a p b q. a \<noteq> b \<and> holds_key (PBranch ts v) (a # p) \<and> holds_key (PBranch ts v) (b # q)"
proof -
  have l: "length ts = 16" and ch: "\<And>i t. i < 16 \<Longrightarrow> ts ! i = Some t \<Longrightarrow> pwf t"
    and two: "2 \<le> pcount ts v" using assms by (auto simp: pwf_PBranch)
  have key: "\<exists>q. holds_key (PBranch ts v) (of_nat i # q)" if "i < 16" "ts ! i \<noteq> None" for i
    using that ch pwf_nonempty holds_key_child [OF l] by (metis not_None_eq)
  show ?thesis
  proof (cases "v = []")
    case True
    then obtain i j where ij: "i < 16" "j < 16" "i \<noteq> j" "ts ! i \<noteq> None" "ts ! j \<noteq> None"
      using two two_children [of ts] l by (auto simp: pcount_def)
    then have "(of_nat i :: u8) \<noteq> of_nat j" using unat_of_nat_nib by metis
    then show ?thesis using key ij by blast
  next
    case False
    then have "1 \<le> child_count ts" using two by (simp add: pcount_def)
    then obtain i where i: "i < 16" "ts ! i \<noteq> None" using child_exists [of ts] l by auto
    then have "(of_nat i :: u8) \<noteq> 16" using unat_of_nat_nib by (metis less_irrefl unat_nib_16)
    then show ?thesis using key i holds_key_value [OF False] by blast
  qed
qed

lemma is_pbranch_parts:
  assumes "is_pbranch t" "pwf t"
  shows "\<exists>a p b q. a \<noteq> b \<and> holds_key t (a # p) \<and> holds_key t (b # q)"
proof (cases t)
  case (PBranch ts v)
  then show ?thesis using branch_parts assms(2) by blast
qed (use assms(1) in simp_all)

lemma holds_key_PExt: "holds_key (PExt p t) q \<Longrightarrow> \<exists>r. q = p @ r"
  by (auto simp: holds_key_def pget_PExt split: if_splits)

lemma PExt_parts:
  assumes "pwf (PExt p t)"
  shows "\<exists>a x b y. a \<noteq> b \<and> holds_key (PExt p t) (p @ a # x) \<and> holds_key (PExt p t) (p @ b # y)"
proof -
  have "nibs p" "is_pbranch t" "pwf t" using assms by auto
  with is_pbranch_parts [of t] show ?thesis
    by (fastforce simp: holds_key_def key_path_append)
qed

lemma PExt_prefix_le:
  assumes "pwf (PExt p t)" "\<And>q. holds_key (PExt p t) q \<Longrightarrow> \<exists>r. q = p' @ r"
  shows "length p' \<le> length p"
proof (rule ccontr)
  assume n: "\<not> ?thesis"
  obtain a x b y where k: "a \<noteq> b" "holds_key (PExt p t) (p @ a # x)" "holds_key (PExt p t) (p @ b # y)"
    using PExt_parts [OF assms(1)] by blast
  then obtain r s where "p @ a # x = p' @ r" "p @ b # y = p' @ s" using assms(2) by metis
  then have "p' ! length p = a" "p' ! length p = b"
    using n by (metis nth_append nth_append_length linorder_not_le)+
  with k(1) show False by simp
qed

definition same_contents :: "ptrie \<Rightarrow> ptrie \<Rightarrow> bool" where
  "same_contents t u \<longleftrightarrow> (\<forall>q. key_path q \<longrightarrow> pget t q = pget u q)"

lemma same_contents_keys: "same_contents t u \<Longrightarrow> holds_key t q \<longleftrightarrow> holds_key u q"
  by (auto simp: same_contents_def holds_key_def)

lemma same_contents_sym: "same_contents t u \<Longrightarrow> same_contents u t"
  by (simp add: same_contents_def)

lemma same_PExt:
  assumes "pwf (PExt p t)" "pwf (PExt p' u)" "same_contents (PExt p t) (PExt p' u)"
  shows "p = p' \<and> same_contents t u"
proof -
  have k: "holds_key (PExt p t) q \<longleftrightarrow> holds_key (PExt p' u) q" for q
    using same_contents_keys [OF assms(3)] .
  have "length p' \<le> length p" "length p \<le> length p'"
    using PExt_prefix_le [OF assms(1), of p'] PExt_prefix_le [OF assms(2), of p] holds_key_PExt k
    by blast+
  moreover obtain q where "holds_key (PExt p t) q" using pwf_nonempty assms(1) by blast
  then obtain r s where "q = p @ r" "q = p' @ s" using holds_key_PExt k by blast
  ultimately have p: "p = p'" by simp
  have "pget t q = pget u q" if "key_path q" for q
  proof -
    have "key_path (p @ q)" using that assms(1) by (simp add: key_path_append)
    then have "pget (PExt p t) (p @ q) = pget (PExt p' u) (p @ q)"
      using assms(3) unfolding same_contents_def by blast
    then show ?thesis by (simp add: p)
  qed
  with p show ?thesis by (simp add: same_contents_def)
qed

lemma same_PBranch:
  assumes "length ts = 16" "length us = 16" "same_contents (PBranch ts v) (PBranch us w)"
  shows "v = w" "\<And>i q. i < 16 \<Longrightarrow> key_path q \<Longrightarrow> pget_opt (ts ! i) q = pget_opt (us ! i) q"
proof -
  have "key_path [16]" by (simp add: key_path_Cons)
  then have "some_value v = some_value w"
    using assms(3) pget_branch_16 by (metis same_contents_def)
  then show "v = w" by (auto simp: some_value_def split: if_splits)
  show "pget_opt (ts ! i) q = pget_opt (us ! i) q" if "i < 16" "key_path q" for i q
  proof -
    have u: "unat (of_nat i :: u8) = i" using that(1) by (rule unat_of_nat_nib)
    then have "key_path (of_nat i # q)" using that by (simp add: key_path_Cons)
    then have "pget (PBranch ts v) (of_nat i # q) = pget (PBranch us w) (of_nat i # q)"
      using assms(3) by (simp add: same_contents_def)
    then show ?thesis using that u assms(1,2) by (simp add: pget_opt_def)
  qed
qed

lemma leaf_keys: "holds_key (PLeaf p v) q \<Longrightarrow> q = p"
  by (auto simp: holds_key_def split: if_splits)

lemma two_keys:
  assumes "pwf t" "\<not> (\<exists>p v. t = PLeaf p v)"
  shows "\<exists>a b. a \<noteq> b \<and> holds_key t a \<and> holds_key t b"
proof (cases t)
  case (PLeaf p v)
  then show ?thesis using assms by blast
next
  case (PExt p x)
  with assms(1) PExt_parts [of p x] show ?thesis by (metis list.inject same_append_eq)
next
  case (PBranch ts v)
  with assms(1) branch_parts [of ts v] show ?thesis by (metis list.inject)
qed

lemma same_shape:
  assumes "pwf t" "pwf u" "same_contents t u"
  shows "(\<exists>p v. t = PLeaf p v \<and> u = PLeaf p v) \<or> (\<exists>p q x y. t = PExt p x \<and> u = PExt q y) \<or>
    (\<exists>ts us v w. t = PBranch ts v \<and> u = PBranch us w)"
proof -
  have keys: "holds_key t q \<longleftrightarrow> holds_key u q" for q using same_contents_keys [OF assms(3)] .
  have leaf: False if x: "x = PLeaf p v" and y: "pwf y" "\<not> (\<exists>p v. y = PLeaf p v)"
    and xy: "\<And>q. holds_key x q \<longleftrightarrow> holds_key y q" for x y p v
  proof -
    obtain a b where "a \<noteq> b" "holds_key y a" "holds_key y b"
      using y two_keys by blast
    then show False using x xy leaf_keys by metis
  qed
  have ext: False if x: "x = PExt p s" "pwf x" and y: "pwf y" "is_pbranch y"
    and xy: "\<And>q. holds_key x q \<longleftrightarrow> holds_key y q" for x y p s
  proof -
    obtain a v b w where k: "a \<noteq> b" "holds_key x (a # v)" "holds_key x (b # w)"
      using is_pbranch_parts [of y] y xy by blast
    obtain r r' where "a # v = p @ r" "b # w = p @ r'" using k x holds_key_PExt by metis
    moreover have "p \<noteq> []" using x by simp
    ultimately have "a = hd p" "b = hd p" by (metis hd_append2 list.sel(1))+
    with k(1) show False by simp
  qed
  show ?thesis
  proof (cases t)
    case (PLeaf p v)
    then obtain p' v' where u: "u = PLeaf p' v'" using leaf [of t p v u] assms(2) keys by blast
    have "key_path p" using assms(1) PLeaf by simp
    then have "pget t p = pget u p" using assms(3) unfolding same_contents_def by blast
    then have "pget u p = Some v" using PLeaf by simp
    then show ?thesis using u PLeaf by (auto split: if_splits)
  next
    case (PExt p x)
    then show ?thesis using leaf [of u _ _ t] ext [of t p x u] assms keys by (cases u) auto
  next
    case (PBranch ts v)
    then show ?thesis using leaf [of u _ _ t] ext [of u _ _ t] assms keys by (cases u) auto
  qed
qed

theorem pwf_unique: "\<lbrakk> pwf t; pwf u; same_contents t u \<rbrakk> \<Longrightarrow> t = u"
proof (induction t arbitrary: u)
  case (PLeaf p v)
  then show ?case using same_shape [OF PLeaf.prems] by auto
next
  case (PExt p t)
  then obtain p' u' where u: "u = PExt p' u'" using same_shape [OF PExt.prems] by auto
  then have "p = p'" "same_contents t u'" using PExt.prems same_PExt by blast+
  then show ?case using u PExt by auto
next
  case (PBranch ts v)
  then obtain us w where u: "u = PBranch us w" using same_shape [OF PBranch.prems] by auto
  have l: "length ts = 16" "length us = 16" using PBranch.prems u by (auto simp: pwf_PBranch)
  note same = same_PBranch [OF l, of v w]
  have "ts ! i = us ! i" if i: "i < 16" for i
  proof -
    have g: "pget_opt (ts ! i) q = pget_opt (us ! i) q" if "key_path q" for q
      using same(2) PBranch.prems(3) u i that by simp
    have wf: "ts ! i = Some x \<Longrightarrow> pwf x" "us ! i = Some x \<Longrightarrow> pwf x" for x
      using PBranch.prems u i by (auto simp: pwf_PBranch)
    show ?thesis
    proof (cases "ts ! i")
      case None
      then show ?thesis using g wf(2) pwf_nonempty
        by (cases "us ! i") (fastforce simp: holds_key_def)+
    next
      case (Some x)
      then obtain q where "holds_key x q" using wf(1) pwf_nonempty by blast
      then obtain y where y: "us ! i = Some y" using g [of q] Some
        by (cases "us ! i") (auto simp: holds_key_def)
      then have "same_contents x y" using g Some by (simp add: same_contents_def)
      moreover have "Some x \<in> set ts" using Some i l by (metis nth_mem)
      ultimately show ?thesis using PBranch.IH [of "Some x" x y] wf Some y by simp
    qed
  qed
  then have "ts = us" using l by (intro nth_equalityI) auto
  then show ?case using same(1) PBranch.prems(3) u by simp
qed

section \<open>The finite-map interface\<close>

text \<open>
  What a client of the trie relies on. The last law, that equal contents mean equal
  structures, is what makes a Merkle root a function of the contents.
\<close>

locale path_map =
  fixes empty :: 't
    and get :: "'t \<Rightarrow> nibbles \<Rightarrow> bytes option"
    and ins :: "'t \<Rightarrow> nibbles \<Rightarrow> bytes \<Rightarrow> 't"
    and rem :: "'t \<Rightarrow> nibbles \<Rightarrow> 't"
    and inv :: "'t \<Rightarrow> bool"
  assumes inv_empty: "inv empty"
    and inv_ins: "\<lbrakk> inv t; key_path q; v \<noteq> [] \<rbrakk> \<Longrightarrow> inv (ins t q v)"
    and inv_rem: "\<lbrakk> inv t; key_path q \<rbrakk> \<Longrightarrow> inv (rem t q)"
    and get_empty: "get empty q = None"
    and get_ins: "\<lbrakk> inv t; key_path q; key_path r; v \<noteq> [] \<rbrakk> \<Longrightarrow>
          get (ins t q v) r = (if r = q then Some v else get t r)"
    and get_rem: "\<lbrakk> inv t; key_path q; key_path r \<rbrakk> \<Longrightarrow>
          get (rem t q) r = (if r = q then None else get t r)"
    and extensional: "\<lbrakk> inv t; inv u; \<And>q. key_path q \<Longrightarrow> get t q = get u q \<rbrakk> \<Longrightarrow> t = u"
begin

definition good :: "(nibbles \<times> bytes) list \<Rightarrow> bool" where
  "good kvs \<longleftrightarrow> (\<forall>(q, v) \<in> set kvs. key_path q \<and> v \<noteq> [])"

definition ins_all :: "'t \<Rightarrow> (nibbles \<times> bytes) list \<Rightarrow> 't" where
  "ins_all t kvs = foldl (\<lambda>t (q, v). ins t q v) t kvs"

lemma ins_swap:
  assumes "inv t" "key_path q" "key_path r" "v \<noteq> []" "w \<noteq> []" "q \<noteq> r"
  shows "ins (ins t q v) r w = ins (ins t r w) q v"
  using assms by (intro extensional) (auto simp: inv_ins get_ins)

lemma ins_again:
  assumes "inv t" "key_path q" "v \<noteq> []" "w \<noteq> []"
  shows "ins (ins t q v) q w = ins t q w"
  using assms by (intro extensional) (auto simp: inv_ins get_ins)

lemma rem_absent:
  assumes "inv t" "key_path q" "get t q = None"
  shows "rem t q = t"
  using assms by (intro extensional) (auto simp: inv_rem get_rem)

lemma rem_ins:
  assumes "inv t" "key_path q" "v \<noteq> []" "get t q = None"
  shows "rem (ins t q v) q = t"
  using assms by (intro extensional) (auto simp: inv_ins inv_rem get_ins get_rem)

lemma inv_ins_all: "inv t \<Longrightarrow> good kvs \<Longrightarrow> inv (ins_all t kvs)"
  unfolding ins_all_def good_def by (induction kvs arbitrary: t) (auto simp: inv_ins)

lemma get_ins_all:
  "inv t \<Longrightarrow> good kvs \<Longrightarrow> key_path r \<Longrightarrow> get (ins_all t kvs) r = (get t ++ map_of (rev kvs)) r"
proof (induction kvs arbitrary: t)
  case (Cons kv kvs)
  obtain q v where kv: "kv = (q, v)" by (cases kv)
  then have g: "key_path q" "v \<noteq> []" "good kvs" using Cons.prems(2) by (auto simp: good_def)
  then have "get (ins_all (ins t q v) kvs) r = (get (ins t q v) ++ map_of (rev kvs)) r"
    using Cons by (simp add: inv_ins)
  then show ?case using g Cons.prems
    by (auto simp: kv ins_all_def map_add_def get_ins split: option.splits)
qed (simp add: ins_all_def)

lemma ins_all_order:
  assumes "good kvs" "good kws" "map_of (rev kvs) = map_of (rev kws)"
  shows "ins_all empty kvs = ins_all empty kws"
  using assms by (intro extensional) (auto simp: inv_empty inv_ins_all get_ins_all)

end

definition proot_insert :: "ptrie option \<Rightarrow> nibbles \<Rightarrow> bytes \<Rightarrow> ptrie option" where
  "proot_insert c q v = Some (case c of None \<Rightarrow> PLeaf q v | Some t \<Rightarrow> pinsert t q v)"

definition proot_remove :: "ptrie option \<Rightarrow> nibbles \<Rightarrow> ptrie option" where
  "proot_remove c q = (case c of None \<Rightarrow> None | Some t \<Rightarrow> fst (premove t q))"

definition proot_wf :: "ptrie option \<Rightarrow> bool" where
  "proot_wf c \<longleftrightarrow> (case c of None \<Rightarrow> True | Some t \<Rightarrow> pwf t)"

lemma proot_unique:
  assumes "proot_wf c" "proot_wf d" "\<And>q. key_path q \<Longrightarrow> pget_opt c q = pget_opt d q"
  shows "c = d"
proof (cases c)
  case None
  show ?thesis
  proof (cases d)
    case (Some u)
    then obtain q where "holds_key u q" using assms(2) pwf_nonempty by (auto simp: proot_wf_def)
    then show ?thesis using assms(3) [of q] None Some by (simp add: holds_key_def)
  qed (simp add: None)
next
  case (Some t)
  then obtain q where "holds_key t q" using assms(1) pwf_nonempty by (auto simp: proot_wf_def)
  then obtain u where u: "d = Some u" using assms(3) [of q] Some
    by (cases d) (auto simp: holds_key_def)
  then have "same_contents t u" using assms(3) Some by (simp add: same_contents_def)
  then show ?thesis using pwf_unique assms(1,2) Some u by (simp add: proot_wf_def)
qed

interpretation ptries: path_map None pget_opt proot_insert proot_remove proot_wf
proof unfold_locales
  fix c :: "ptrie option" and q r :: nibbles and v :: bytes
  show "proot_wf None" "pget_opt None q = None" by (simp_all add: proot_wf_def)
  show "proot_wf (proot_insert c q v)" if "proot_wf c" "key_path q" "v \<noteq> []"
    using that by (cases c) (auto simp: proot_wf_def proot_insert_def pwf_pinsert)
  show "proot_wf (proot_remove c q)" if "proot_wf c" "key_path q"
    using that premove_removes
    by (cases c) (auto simp: proot_wf_def proot_remove_def removes_def split: option.splits)
  show "pget_opt (proot_insert c q v) r = (if r = q then Some v else pget_opt c r)"
    if "proot_wf c" "key_path q" "key_path r" "v \<noteq> []"
    using that by (cases c) (auto simp: proot_wf_def proot_insert_def pget_pinsert)
  show "pget_opt (proot_remove c q) r = (if r = q then None else pget_opt c r)"
    if "proot_wf c" "key_path q" "key_path r"
    using that premove_removes
    by (cases c) (auto simp: proot_wf_def proot_remove_def removes_def)
qed (rule proot_unique)

end
