(* ===== verification/Trie_Ops.thy ===== *)
theory Trie_Ops
  imports Patricia_Map
begin

text \<open>
  The stored trie: \<^verbatim>\<open>crates/storage/trie/state.rs\<close>, \<^verbatim>\<open>db/in_memory.rs\<close>, the operations of
  \<^verbatim>\<open>node/leaf.rs\<close>, \<^verbatim>\<open>node/extension.rs\<close>, \<^verbatim>\<open>node/branch.rs\<close> and the \<^verbatim>\<open>Trie\<close> of \<^verbatim>\<open>trie.rs\<close>. Nodes refer to
  their children by hash and fetch them from a cache in front of a database. The operations
  follow hashes, so nothing in the types makes them end: they take fuel, one unit per node
  visited, and out of fuel is the value \<open>Diverge\<close>.
\<close>

section \<open>Database and cache\<close>

datatype trie_error = RLPDecode rlp_error | Verify string | InconsistentTree | LockError

text \<open>The in-memory database and the one of stateless tries, which keeps nothing.\<close>

datatype trie_db = InMemoryTrieDB "bytes \<rightharpoonup> bytes" | NullTrieDB

fun db_get :: "trie_db \<Rightarrow> bytes \<Rightarrow> (bytes option, trie_error) result" where
  "db_get (InMemoryTrieDB m) key = Ok (m key)"
| "db_get NullTrieDB key = Ok None"

fun db_put_batch :: "trie_db \<Rightarrow> (bytes \<times> bytes) list \<Rightarrow> trie_db" where
  "db_put_batch (InMemoryTrieDB m) key_values =
     InMemoryTrieDB (foldl (\<lambda>m (k, v). m(k \<mapsto> v)) m key_values)"
| "db_put_batch NullTrieDB key_values = NullTrieDB"

record trie_state =
  st_db :: trie_db
  st_cache :: "node_hash \<rightharpoonup> node"

definition trie_state_new :: "trie_db \<Rightarrow> trie_state" where
  "trie_state_new d = \<lparr>st_db = d, st_cache = Map.empty\<rparr>"

fun get_node :: "trie_state \<Rightarrow> node_hash \<Rightarrow> (node option, trie_error) result" where
  "get_node st (Inline encoded) = rbind (rmap_err RLPDecode (decode_raw encoded)) (\<lambda>n. Ok (Some n))"
| "get_node st (Hashed h) =
     (case st_cache st (Hashed h) of
        Some n \<Rightarrow> Ok (Some n)
      | None \<Rightarrow>
          rbind (db_get (st_db st) h) (\<lambda>c.
            case c of
              None \<Rightarrow> Ok None
            | Some rlp \<Rightarrow>
                rbind (rmap_err RLPDecode (decode decode_node rlp)) (\<lambda>n. Ok (Some n))))"

definition insert_node :: "node \<Rightarrow> node_hash \<Rightarrow> trie_state \<Rightarrow> trie_state" where
  "insert_node n hash st =
     (case hash of
        Hashed _ \<Rightarrow> st\<lparr>st_cache := (st_cache st)(hash \<mapsto> n)\<rparr>
      | Inline _ \<Rightarrow> st)"

type_synonym commit_state = "trie_state \<times> (bytes \<times> bytes) list"

primrec commit_children ::
  "(node_hash \<Rightarrow> commit_state \<Rightarrow> (commit_state, trie_error) result) \<Rightarrow> node_hash list \<Rightarrow>
     commit_state \<Rightarrow> (commit_state, trie_error) result" where
  "commit_children rec [] s = Ok s"
| "commit_children rec (c # cs) s =
     rbind (if is_valid c then rec c s else Ok s) (commit_children rec cs)"

primrec commit_node_tail_recursive ::
  "nat \<Rightarrow> node_hash \<Rightarrow> commit_state \<Rightarrow> (commit_state, trie_error) result" where
  "commit_node_tail_recursive 0 h s = Diverge"
| "commit_node_tail_recursive (Suc fuel) h s =
     (case st_cache (fst s) h of
        None \<Rightarrow> Ok s
      | Some n \<Rightarrow>
          (let s1 = ((fst s)\<lparr>st_cache := (st_cache (fst s))(h := None)\<rparr>, snd s)
           in rbind (case n of
                       Branch b \<Rightarrow>
                         commit_children (commit_node_tail_recursive fuel) (branch_choices b) s1
                     | Extension e \<Rightarrow> commit_node_tail_recursive fuel (ext_child e) s1
                     | Leaf l \<Rightarrow> Ok s1)
                (\<lambda>s2. Ok (fst s2, snd s2 @ [(node_hash_bytes h, encode_node n)]))))"

definition commit_node :: "nat \<Rightarrow> node_hash \<Rightarrow> trie_state \<Rightarrow> (trie_state, trie_error) result" where
  "commit_node fuel h st =
     rbind (commit_node_tail_recursive fuel h (st, [])) (\<lambda>(st, to_commit).
       Ok (st\<lparr>st_db := db_put_batch (st_db st) to_commit\<rparr>))"

definition commit :: "nat \<Rightarrow> node_hash \<Rightarrow> trie_state \<Rightarrow> (trie_state, trie_error) result" where
  "commit fuel h st = rbind (commit_node fuel h st) (\<lambda>st. Ok (st\<lparr>st_cache := Map.empty\<rparr>))"

section \<open>Lookup\<close>

definition fetch :: "trie_state \<Rightarrow> node_hash \<Rightarrow> (node, trie_error) result" where
  "fetch st h = rbind (get_node st h) (\<lambda>c. ok_or c InconsistentTree)"

definition leaf_get :: "leaf_node \<Rightarrow> nibbles \<Rightarrow> (bytes option, trie_error) result" where
  "leaf_get self path = Ok (if leaf_partial self = path then Some (leaf_value self) else None)"

definition extension_get ::
  "(node \<Rightarrow> nibbles \<Rightarrow> (bytes option, trie_error) result) \<Rightarrow> trie_state \<Rightarrow> extension_node \<Rightarrow> nibbles
     \<Rightarrow> (bytes option, trie_error) result" where
  "extension_get rec st self path =
     (case skip_prefix path (ext_prefix self) of
        (True, path) \<Rightarrow> rbind (fetch st (ext_child self)) (\<lambda>child_node. rec child_node path)
      | (False, _) \<Rightarrow> Ok None)"

definition branch_get ::
  "(node \<Rightarrow> nibbles \<Rightarrow> (bytes option, trie_error) result) \<Rightarrow> trie_state \<Rightarrow> branch_node \<Rightarrow> nibbles
     \<Rightarrow> (bytes option, trie_error) result" where
  "branch_get rec st self path =
     (case next_choice path of
        (Some choice, path) \<Rightarrow>
          if choice < length (branch_choices self) then
            (let child_hash = branch_choices self ! choice
             in if is_valid child_hash
                then rbind (fetch st child_hash) (\<lambda>child_node. rec child_node path)
                else Ok None)
          else Panic
      | (None, _) \<Rightarrow> Ok (if branch_value self \<noteq> [] then Some (branch_value self) else None))"

primrec node_get :: "nat \<Rightarrow> trie_state \<Rightarrow> node \<Rightarrow> nibbles \<Rightarrow> (bytes option, trie_error) result" where
  "node_get 0 st self path = Diverge"
| "node_get (Suc fuel) st self path =
     (case self of
        Branch n \<Rightarrow> branch_get (node_get fuel st) st n path
      | Extension n \<Rightarrow> extension_get (node_get fuel st) st n path
      | Leaf n \<Rightarrow> leaf_get n path)"

section \<open>Insertion\<close>

type_synonym 'a trie_m = "('a, trie_error, trie_state) sm"

definition insert_self :: "(bytes \<Rightarrow> bytes) \<Rightarrow> node \<Rightarrow> node_hash trie_m" where
  "insert_self keccak n = (\<lambda>st.
     let hash = compute_hash keccak n in (Ok hash, insert_node n hash st))"

definition fetch_m :: "node_hash \<Rightarrow> node trie_m" where
  "fetch_m h = (\<lambda>st. (fetch st h, st))"

definition set_choice :: "node_hash list \<Rightarrow> nat \<Rightarrow> node_hash \<Rightarrow> (node_hash list, trie_error) result"
where
  "set_choice choices i h = (if i < length choices then Ok (choices[i := h]) else Panic)"

definition leaf_insert :: "(bytes \<Rightarrow> bytes) \<Rightarrow> leaf_node \<Rightarrow> nibbles \<Rightarrow> bytes \<Rightarrow> node trie_m" where
  "leaf_insert keccak self path v =
     (if leaf_partial self = path then sreturn (Leaf (self\<lparr>leaf_value := v\<rparr>))
      else
        let match_index = count_prefix path (leaf_partial self) in
        sbind (slift (nib_at (leaf_partial self) match_index)) (\<lambda>self_choice_idx.
        sbind (slift (nib_at path match_index)) (\<lambda>new_leaf_choice_idx.
        sbind (slift (nib_offset (leaf_partial self) (match_index + 1))) (\<lambda>self_partial.
        let self = self\<lparr>leaf_partial := self_partial\<rparr> in
        sbind
          (if self_choice_idx = 16 then
             sbind (slift (nib_offset path (match_index + 1))) (\<lambda>rest.
             sbind (insert_self keccak (Leaf (new_leaf_node rest v))) (\<lambda>h.
             sbind (slift (set_choice EMPTY_CHOICES new_leaf_choice_idx h)) (\<lambda>choices.
               sreturn (new_branch_with_value choices (leaf_value self)))))
           else if new_leaf_choice_idx = 16 then
             sbind (insert_self keccak (Leaf self)) (\<lambda>h.
             sbind (slift (set_choice EMPTY_CHOICES self_choice_idx h)) (\<lambda>choices.
               sreturn (new_branch_with_value choices v)))
           else
             sbind (slift (nib_offset path (match_index + 1))) (\<lambda>rest.
             sbind (insert_self keccak (Leaf (new_leaf_node rest v))) (\<lambda>h.
             sbind (slift (set_choice EMPTY_CHOICES new_leaf_choice_idx h)) (\<lambda>choices.
             sbind (insert_self keccak (Leaf self)) (\<lambda>h.
             sbind (slift (set_choice choices self_choice_idx h)) (\<lambda>choices.
               sreturn (new_branch_node choices)))))))
          (\<lambda>b.
        if match_index = 0 then sreturn (Branch b)
        else
          sbind (slift (nib_slice path 0 match_index)) (\<lambda>p.
          sbind (insert_self keccak (Branch b)) (\<lambda>h.
            sreturn (Extension (new_extension_node p h)))))))))"

type_synonym insert_rec = "node \<Rightarrow> nibbles \<Rightarrow> bytes \<Rightarrow> node trie_m"

definition branch_insert ::
  "(bytes \<Rightarrow> bytes) \<Rightarrow> insert_rec \<Rightarrow> branch_node \<Rightarrow> nibbles \<Rightarrow> bytes \<Rightarrow> node trie_m" where
  "branch_insert keccak rec self path v =
     (case next_choice path of
        (Some choice, path) \<Rightarrow>
          if choice < length (branch_choices self) then
            (let choice_hash = branch_choices self ! choice in
             sbind
               (if \<not> is_valid choice_hash then insert_self keccak (Leaf (new_leaf_node path v))
                else
                  sbind (fetch_m choice_hash) (\<lambda>child_node.
                  sbind (rec child_node path v) (\<lambda>child_node.
                  insert_self keccak child_node)))
               (\<lambda>h. sreturn (Branch (self\<lparr>branch_choices := (branch_choices self)[choice := h]\<rparr>))))
          else slift Panic
      | (None, _) \<Rightarrow> sreturn (Branch (self\<lparr>branch_value := v\<rparr>)))"

definition extension_insert ::
  "(bytes \<Rightarrow> bytes) \<Rightarrow> insert_rec \<Rightarrow> extension_node \<Rightarrow> nibbles \<Rightarrow> bytes \<Rightarrow> node trie_m" where
  "extension_insert keccak rec self path v =
     (let match_index = count_prefix path (ext_prefix self) in
      if match_index = length (ext_prefix self) then
        sbind (fetch_m (ext_child self)) (\<lambda>child_node.
        sbind (slift (nib_offset path match_index)) (\<lambda>rest.
        sbind (rec child_node rest v) (\<lambda>new_child_node.
        sbind (insert_self keccak new_child_node) (\<lambda>h.
          sreturn (Extension (self\<lparr>ext_child := h\<rparr>))))))
      else if match_index = 0 then
        sbind
          (if length (ext_prefix self) = 1 then sreturn (ext_child self)
           else
             sbind (slift (nib_offset (ext_prefix self) 1)) (\<lambda>p.
             insert_self keccak (Extension (new_extension_node p (ext_child self))))) (\<lambda>new_node.
        sbind (slift (nib_at (ext_prefix self) 0)) (\<lambda>first.
        sbind
          (if first = 16 then
             sbind (\<lambda>st. (get_node st new_node, st)) (\<lambda>c.
               case c of
                 Some (Leaf leaf) \<Rightarrow> sreturn (new_branch_with_value EMPTY_CHOICES (leaf_value leaf))
               | _ \<Rightarrow> serr InconsistentTree)
           else
             sbind (slift (set_choice EMPTY_CHOICES first new_node)) (\<lambda>choices.
               sreturn (new_branch_node choices))) (\<lambda>b.
        branch_insert keccak rec b path v)))
      else
        sbind (slift (nib_offset (ext_prefix self) match_index)) (\<lambda>p.
        sbind (slift (nib_offset path match_index)) (\<lambda>rest.
        sbind (rec (Extension (new_extension_node p (ext_child self))) rest v) (\<lambda>new_node.
        sbind (slift (nib_slice (ext_prefix self) 0 match_index)) (\<lambda>p.
        sbind (insert_self keccak new_node) (\<lambda>h.
          sreturn (Extension \<lparr>ext_prefix = p, ext_child = h\<rparr>)))))))"

primrec node_insert :: "(bytes \<Rightarrow> bytes) \<Rightarrow> nat \<Rightarrow> node \<Rightarrow> nibbles \<Rightarrow> bytes \<Rightarrow> node trie_m" where
  "node_insert keccak 0 self path v = slift Diverge"
| "node_insert keccak (Suc fuel) self path v =
     (case self of
        Branch n \<Rightarrow> branch_insert keccak (node_insert keccak fuel) n path v
      | Extension n \<Rightarrow> extension_insert keccak (node_insert keccak fuel) n path v
      | Leaf n \<Rightarrow> leaf_insert keccak n path v)"

section \<open>Removal\<close>

type_synonym remove_rec = "node \<Rightarrow> nibbles \<Rightarrow> (node option \<times> bytes option) trie_m"

definition leaf_remove ::
  "leaf_node \<Rightarrow> nibbles \<Rightarrow> (node option \<times> bytes option) trie_m" where
  "leaf_remove self path =
     sreturn (if leaf_partial self = path then (None, Some (leaf_value self))
              else (Some (Leaf self), None))"

definition extension_remove ::
  "(bytes \<Rightarrow> bytes) \<Rightarrow> remove_rec \<Rightarrow> extension_node \<Rightarrow> nibbles
     \<Rightarrow> (node option \<times> bytes option) trie_m" where
  "extension_remove keccak rec self path =
     (case skip_prefix path (ext_prefix self) of
        (True, path) \<Rightarrow>
          sbind (fetch_m (ext_child self)) (\<lambda>child_node.
          sbind (rec child_node path) (\<lambda>(child_node, old_value).
          sbind
            (case child_node of
               None \<Rightarrow> sreturn None
             | Some (Branch b) \<Rightarrow>
                 sbind (insert_self keccak (Branch b)) (\<lambda>h.
                   sreturn (Some (Extension (self\<lparr>ext_child := h\<rparr>))))
             | Some (Extension e) \<Rightarrow>
                 sreturn (Some (Extension
                   (e\<lparr>ext_prefix := nib_extend (ext_prefix self) (ext_prefix e)\<rparr>)))
             | Some (Leaf l) \<Rightarrow>
                 sreturn (Some (Leaf
                   (l\<lparr>leaf_partial := nib_extend (ext_prefix self) (leaf_partial l)\<rparr>)))) (\<lambda>n.
          sreturn (n, old_value))))
      | (False, _) \<Rightarrow> sreturn (Some (Extension self), None))"

definition valid_children :: "branch_node \<Rightarrow> (nat \<times> node_hash) list" where
  "valid_children self = filter (\<lambda>(_, h). is_valid h) (enumerate 0 (branch_choices self))"

definition branch_restructure :: "branch_node \<Rightarrow> node trie_m" where
  "branch_restructure self =
     (let children = valid_children self in
      if length children = 0 \<and> branch_value self \<noteq> []
      then sreturn (Leaf (new_leaf_node [16] (branch_value self)))
      else if length children = 1 \<and> branch_value self = [] then
        (let (choice_index, child_hash) = hd children in
         sbind (fetch_m child_hash) (\<lambda>child.
           sreturn
             (case child of
                Branch _ \<Rightarrow> Extension (new_extension_node [of_nat choice_index] child_hash)
              | Extension e \<Rightarrow>
                  Extension (e\<lparr>ext_prefix := nib_prepend (ext_prefix e) (of_nat choice_index)\<rparr>)
              | Leaf l \<Rightarrow>
                  Leaf (l\<lparr>leaf_partial := nib_prepend (leaf_partial l) (of_nat choice_index)\<rparr>))))
      else sreturn (Branch self))"

definition branch_remove ::
  "(bytes \<Rightarrow> bytes) \<Rightarrow> remove_rec \<Rightarrow> branch_node \<Rightarrow> nibbles
     \<Rightarrow> (node option \<times> bytes option) trie_m" where
  "branch_remove keccak rec self path =
     sbind
       (case next_choice path of
          (Some choice_index, path) \<Rightarrow>
            if \<not> choice_index < length (branch_choices self) then slift Panic
            else if is_valid (branch_choices self ! choice_index) then
              sbind (fetch_m (branch_choices self ! choice_index)) (\<lambda>child_node.
              sbind (rec child_node path) (\<lambda>(child_node, old_value).
              sbind
                (case child_node of
                   Some child_node \<Rightarrow> insert_self keccak child_node
                 | None \<Rightarrow> sreturn node_hash_default) (\<lambda>h.
              sreturn
                (self\<lparr>branch_choices := (branch_choices self)[choice_index := h]\<rparr>, old_value))))
            else sreturn (self, None)
        | (None, _) \<Rightarrow>
            if branch_value self \<noteq> [] then
              sreturn (self\<lparr>branch_value := []\<rparr>, Some (branch_value self))
            else sreturn (self, None))
       (\<lambda>(self, old_value).
     sbind (branch_restructure self) (\<lambda>new_node. sreturn (Some new_node, old_value)))"

primrec node_remove ::
  "(bytes \<Rightarrow> bytes) \<Rightarrow> nat \<Rightarrow> node \<Rightarrow> nibbles \<Rightarrow> (node option \<times> bytes option) trie_m" where
  "node_remove keccak 0 self path = slift Diverge"
| "node_remove keccak (Suc fuel) self path =
     (case self of
        Branch n \<Rightarrow> branch_remove keccak (node_remove keccak fuel) n path
      | Extension n \<Rightarrow> extension_remove keccak (node_remove keccak fuel) n path
      | Leaf n \<Rightarrow> leaf_remove n path)"

section \<open>Proofs\<close>

definition push_encoded :: "node \<Rightarrow> bytes list \<Rightarrow> bytes list" where
  "push_encoded n node_path =
     (let encoded = encode_raw_node n
      in if 32 \<le> length encoded then node_path @ [encoded] else node_path)"

primrec get_path ::
  "nat \<Rightarrow> trie_state \<Rightarrow> node \<Rightarrow> nibbles \<Rightarrow> bytes list \<Rightarrow> (bytes list, trie_error) result" where
  "get_path 0 st self path node_path = Diverge"
| "get_path (Suc fuel) st self path node_path =
     (let node_path = push_encoded self node_path in
      case self of
        Branch n \<Rightarrow>
          (case next_choice path of
             (Some choice, path) \<Rightarrow>
               if choice < length (branch_choices n) then
                 (if is_valid (branch_choices n ! choice)
                  then rbind (fetch st (branch_choices n ! choice)) (\<lambda>child_node.
                         get_path fuel st child_node path node_path)
                  else Ok node_path)
               else Panic
           | (None, _) \<Rightarrow> Ok node_path)
      | Extension n \<Rightarrow>
          (case skip_prefix path (ext_prefix n) of
             (True, path) \<Rightarrow>
               rbind (fetch st (ext_child n)) (\<lambda>child_node.
                 get_path fuel st child_node path node_path)
           | (False, _) \<Rightarrow> Ok node_path)
      | Leaf n \<Rightarrow> Ok node_path)"

section \<open>The trie\<close>

record trie =
  t_root :: "node_hash option"
  t_state :: trie_state

definition EMPTY_TRIE_HASH :: "(bytes \<Rightarrow> bytes) \<Rightarrow> bytes" where
  "EMPTY_TRIE_HASH keccak = keccak [RLP_NULL]"

definition trie_new :: "trie_db \<Rightarrow> trie" where
  "trie_new d = \<lparr>t_root = None, t_state = trie_state_new d\<rparr>"

definition trie_open :: "(bytes \<Rightarrow> bytes) \<Rightarrow> trie_db \<Rightarrow> bytes \<Rightarrow> trie" where
  "trie_open keccak d root_hash =
     \<lparr>t_root = (if root_hash \<noteq> EMPTY_TRIE_HASH keccak then Some (Hashed root_hash) else None),
      t_state = trie_state_new d\<rparr>"

definition stateless :: trie where
  "stateless = trie_new NullTrieDB"

definition trie_get :: "nat \<Rightarrow> trie \<Rightarrow> bytes \<Rightarrow> (bytes option, trie_error) result" where
  "trie_get fuel self path =
     (case t_root self of
        Some rt \<Rightarrow>
          rbind (fetch (t_state self) rt) (\<lambda>root_node.
            node_get fuel (t_state self) root_node (from_bytes path))
      | None \<Rightarrow> Ok None)"

definition root_node :: "trie \<Rightarrow> (node option, trie_error) result" where
  "root_node self =
     (case t_root self of None \<Rightarrow> Ok None | Some rt \<Rightarrow> get_node (t_state self) rt)"

text \<open>
  A trie whose state changes by a computation on the nodes; its root was taken before and is
  missing if the computation fails.
\<close>

definition on_state :: "'a trie_m \<Rightarrow> ('a, trie_error, trie) sm" where
  "on_state m self = (case m (t_state self) of (r, st) \<Rightarrow> (r, self\<lparr>t_state := st\<rparr>))"

definition trie_insert ::
  "(bytes \<Rightarrow> bytes) \<Rightarrow> nat \<Rightarrow> bytes \<Rightarrow> bytes \<Rightarrow> (unit, trie_error, trie) sm" where
  "trie_insert keccak fuel path v =
     sbind sget (\<lambda>self.
     sbind (smodify (t_root_update (\<lambda>_. None))) (\<lambda>_.
     sbind (slift (root_node self)) (\<lambda>rt.
     sbind
       (case rt of
          Some n \<Rightarrow> on_state (node_insert keccak fuel n (from_bytes path) v)
        | None \<Rightarrow> sreturn (Leaf (new_leaf_node (from_bytes path) v))) (\<lambda>n.
     sbind (on_state (insert_self keccak n)) (\<lambda>h.
     smodify (t_root_update (\<lambda>_. Some h)))))))"

definition trie_remove ::
  "(bytes \<Rightarrow> bytes) \<Rightarrow> nat \<Rightarrow> bytes \<Rightarrow> (bytes option, trie_error, trie) sm" where
  "trie_remove keccak fuel path =
     sbind (sgets t_root) (\<lambda>rt.
     sbind (smodify (t_root_update (\<lambda>_. None))) (\<lambda>_.
     case rt of
       Some rt \<Rightarrow>
         sbind (on_state (fetch_m rt)) (\<lambda>n.
         sbind (on_state (node_remove keccak fuel n (from_bytes path))) (\<lambda>(n, old_value).
         sbind
           (case n of
              Some n \<Rightarrow> sbind (on_state (insert_self keccak n)) (\<lambda>h. sreturn (Some h))
            | None \<Rightarrow> sreturn None) (\<lambda>h.
         sbind (smodify (t_root_update (\<lambda>_. h))) (\<lambda>_.
         sreturn old_value))))
     | None \<Rightarrow> sreturn None))"

definition hash_no_commit :: "(bytes \<Rightarrow> bytes) \<Rightarrow> trie \<Rightarrow> bytes" where
  "hash_no_commit keccak self =
     (case t_root self of Some rt \<Rightarrow> finalize keccak rt | None \<Rightarrow> EMPTY_TRIE_HASH keccak)"

definition trie_hash ::
  "(bytes \<Rightarrow> bytes) \<Rightarrow> nat \<Rightarrow> trie \<Rightarrow> (bytes \<times> trie, trie_error) result" where
  "trie_hash keccak fuel self =
     rbind (case t_root self of
              Some rt \<Rightarrow> rbind (commit fuel rt (t_state self)) (\<lambda>st. Ok (self\<lparr>t_state := st\<rparr>))
            | None \<Rightarrow> Ok self) (\<lambda>self.
     Ok (hash_no_commit keccak self, self))"

definition get_proof :: "nat \<Rightarrow> trie \<Rightarrow> bytes \<Rightarrow> (bytes list, trie_error) result" where
  "get_proof fuel self path =
     (case t_root self of
        None \<Rightarrow> Ok []
      | Some rt \<Rightarrow>
          (let node_path = (case rt of Inline n \<Rightarrow> [n] | Hashed _ \<Rightarrow> []) in
           rbind (get_node (t_state self) rt) (\<lambda>c.
             case c of
               Some n \<Rightarrow> get_path fuel (t_state self) n (from_bytes path) node_path
             | None \<Rightarrow> Ok node_path)))"

primrec insert_encoded_nodes :: "(bytes \<Rightarrow> bytes) \<Rightarrow> bytes list \<Rightarrow> (unit, trie_error, trie) sm" where
  "insert_encoded_nodes keccak [] = sreturn ()"
| "insert_encoded_nodes keccak (rlp # rlps) =
     sbind (slift (rmap_err RLPDecode (decode_raw rlp))) (\<lambda>n.
     sbind (on_state (insert_self keccak n)) (\<lambda>_.
     insert_encoded_nodes keccak rlps))"

definition from_nodes ::
  "(bytes \<Rightarrow> bytes) \<Rightarrow> bytes option \<Rightarrow> bytes list \<Rightarrow> (trie, trie_error) result" where
  "from_nodes keccak root_rlp other_nodes =
     fst (sbind
       (case root_rlp of
          Some rlp \<Rightarrow>
            sbind (slift (rmap_err RLPDecode (decode_raw rlp))) (\<lambda>n.
            sbind (on_state (insert_self keccak n)) (\<lambda>h.
            smodify (t_root_update (\<lambda>_. Some h))))
        | None \<Rightarrow> sreturn ()) (\<lambda>_.
     sbind (insert_encoded_nodes keccak other_nodes) (\<lambda>_. sget)) stateless)"

text \<open>
  \<^verbatim>\<open>compute_hash_from_unsorted_iter\<close> unwraps the result of every insertion: an error would be a
  panic.
\<close>

primrec insert_all :: "(bytes \<Rightarrow> bytes) \<Rightarrow> nat \<Rightarrow> (bytes \<times> bytes) list \<Rightarrow> trie \<Rightarrow> (trie, trie_error) result"
where
  "insert_all keccak fuel [] self = Ok self"
| "insert_all keccak fuel (kv # kvs) self =
     (case trie_insert keccak fuel (fst kv) (snd kv) self of
        (Ok _, self) \<Rightarrow> insert_all keccak fuel kvs self
      | (Diverge, _) \<Rightarrow> Diverge
      | _ \<Rightarrow> Panic)"

definition compute_hash_from_unsorted_iter ::
  "(bytes \<Rightarrow> bytes) \<Rightarrow> nat \<Rightarrow> (bytes \<times> bytes) list \<Rightarrow> (bytes, trie_error) result" where
  "compute_hash_from_unsorted_iter keccak fuel kvs =
     rbind (insert_all keccak fuel kvs stateless) (\<lambda>self. Ok (hash_no_commit keccak self))"

primrec get_node_inner ::
  "nat \<Rightarrow> trie_state \<Rightarrow> node \<Rightarrow> nibbles \<Rightarrow> (bytes, trie_error) result" where
  "get_node_inner 0 st n partial_path = Diverge"
| "get_node_inner (Suc fuel) st n partial_path =
     (if partial_path = [] then Ok (encode_raw_node n)
      else case n of
        Branch b \<Rightarrow>
          (case next_choice partial_path of
             (Some idx, partial_path) \<Rightarrow>
               if idx < length (branch_choices b) then
                 (if is_valid (branch_choices b ! idx)
                  then rbind (fetch st (branch_choices b ! idx)) (\<lambda>child_node.
                         get_node_inner fuel st child_node partial_path)
                  else Ok [])
               else Panic
           | (None, _) \<Rightarrow> Ok [])
      | Extension e \<Rightarrow>
          (case skip_prefix partial_path (ext_prefix e) of
             (True, partial_path) \<Rightarrow>
               if is_valid (ext_child e)
               then rbind (fetch st (ext_child e)) (\<lambda>child_node.
                      get_node_inner fuel st child_node partial_path)
               else Ok []
           | (False, _) \<Rightarrow> Ok [])
      | Leaf l \<Rightarrow> Ok [])"

definition trie_get_node :: "nat \<Rightarrow> trie \<Rightarrow> bytes \<Rightarrow> (bytes, trie_error) result" where
  "trie_get_node fuel self partial_path =
     (if 32 < length partial_path then Ok []
      else
        let partial_path =
          (if length partial_path < 32 then decode_compact partial_path else from_bytes partial_path)
        in rbind (root_node self) (\<lambda>c.
             case c of
               None \<Rightarrow> Ok []
             | Some n \<Rightarrow> get_node_inner fuel (t_state self) n partial_path))"

end
