(* ===== verification/Trie_Refine.thy ===== *)
theory Trie_Refine
  imports Trie_Ops
begin

text \<open>
  The stored trie implements the pure one. \<open>node_of\<close> is the node the code keeps for a pure trie,
  with the hashes of the subtries as children, and a state holds a trie when every subtrie can be
  fetched by its hash. As long as no two of the nodes involved collide under the hash function,
  lookup, insertion and removal compute on nodes what \<open>pget\<close>, \<open>pinsert\<close> and \<open>premove\<close> compute on
  tries, with fuel for one step per nibble of the path.
\<close>

section \<open>Nodes of a trie\<close>

fun node_of :: "(bytes \<Rightarrow> bytes) \<Rightarrow> ptrie \<Rightarrow> node" where
  "node_of k (PLeaf p v) = Leaf \<lparr>leaf_partial = p, leaf_value = v\<rparr>"
| "node_of k (PExt p t) = Extension \<lparr>ext_prefix = p, ext_child = compute_hash k (node_of k t)\<rparr>"
| "node_of k (PBranch ts v) =
     Branch \<lparr>branch_choices =
               map (\<lambda>c. case c of None \<Rightarrow> node_hash_default
                        | Some t \<Rightarrow> compute_hash k (node_of k t)) ts,
             branch_value = v\<rparr>"

definition hash_of :: "(bytes \<Rightarrow> bytes) \<Rightarrow> ptrie \<Rightarrow> node_hash" where
  "hash_of k t = compute_hash k (node_of k t)"

definition child_hash :: "(bytes \<Rightarrow> bytes) \<Rightarrow> ptrie option \<Rightarrow> node_hash" where
  "child_hash k c = (case c of None \<Rightarrow> node_hash_default | Some t \<Rightarrow> hash_of k t)"

lemma child_hash_simps [simp]:
  "child_hash k None = node_hash_default" "child_hash k (Some t) = hash_of k t"
  by (simp_all add: child_hash_def)

lemma node_of_ext: "node_of k (PExt p t) = Extension \<lparr>ext_prefix = p, ext_child = hash_of k t\<rparr>"
  by (simp add: hash_of_def)

lemma node_of_branch:
  "node_of k (PBranch ts v) =
     Branch \<lparr>branch_choices = map (child_hash k) ts, branch_value = v\<rparr>"
  by (auto simp: child_hash_def hash_of_def split: option.split)

declare node_of.simps(2,3) [simp del]
lemmas node_of_simps [simp] = node_of_ext node_of_branch

fun below :: "ptrie \<Rightarrow> ptrie set" where
  "below (PLeaf p v) = {}"
| "below (PExt p t) = insert t (below t)"
| "below (PBranch ts v) =
     (\<Union>c \<in> set ts. case c of None \<Rightarrow> {} | Some t \<Rightarrow> insert t (below t))"

definition subtries :: "ptrie \<Rightarrow> ptrie set" where
  "subtries t = insert t (below t)"

lemma below_PBranch: "below (PBranch ts v) = (\<Union>t \<in> {t. Some t \<in> set ts}. subtries t)"
  by (auto simp: subtries_def split: option.splits)

declare below.simps(3) [simp del]

lemma subtries_child: "Some t \<in> set ts \<Longrightarrow> subtries t \<subseteq> below (PBranch ts v)"
  by (auto simp: below_PBranch)

lemma subtries_nth: "i < length ts \<Longrightarrow> ts ! i = Some t \<Longrightarrow> subtries t \<subseteq> below (PBranch ts v)"
  by (metis nth_mem subtries_child)

lemma below_update: "below (PBranch (ts[i := c]) v) \<subseteq>
    (case c of None \<Rightarrow> {} | Some t \<Rightarrow> subtries t) \<union> below (PBranch ts w)"
proof -
  have "set (ts[i := c]) \<subseteq> insert c (set ts)" by (rule set_update_subset_insert)
  then show ?thesis by (fastforce simp: below_PBranch split: option.splits)
qed

lemma below_pchoices [simp]: "below (PBranch pchoices v) = {}"
  by (auto simp: below_PBranch pchoices_def)

lemma self_in_subtries [simp]: "t \<in> subtries t"
  by (simp add: subtries_def)

section \<open>Small tries have valid nodes\<close>

definition small :: "ptrie \<Rightarrow> bool" where
  "small t \<longleftrightarrow> (\<forall>q v. key_path q \<longrightarrow> pget t q = Some v \<longrightarrow> length q < 2 ^ 59 \<and> length v < 2 ^ 59)"

lemma smallD:
  "small t \<Longrightarrow> key_path q \<Longrightarrow> pget t q = Some v \<Longrightarrow> length q < 2 ^ 59 \<and> length v < 2 ^ 59"
  unfolding small_def by blast

lemma small_PExt:
  assumes "nibs p" "small (PExt p t)"
  shows "small t"
  unfolding small_def
proof (intro allI impI)
  fix q v
  assume "key_path q" "pget t q = Some v"
  then show "length q < 2 ^ 59 \<and> length v < 2 ^ 59"
    using smallD [OF assms(2), of "p @ q" v] assms(1) by (simp add: key_path_append)
qed

lemma small_child:
  assumes "small (PBranch ts v)" "length ts = 16" "i < 16" "ts ! i = Some t"
  shows "small t"
  unfolding small_def
proof (intro allI impI)
  fix q w
  assume q: "key_path q" "pget t q = Some w"
  have "unat (of_nat i :: u8) = i" using assms(3) by (rule unat_of_nat_nib)
  then have "key_path (of_nat i # q)" "pget (PBranch ts v) (of_nat i # q) = Some w"
    using q assms by (simp_all add: key_path_Cons)
  then show "length q < 2 ^ 59 \<and> length w < 2 ^ 59" using smallD [OF assms(1)] by fastforce
qed

lemma valid_node_of:
  assumes k: "\<And>bs. length (k bs) = 32"
  shows "pwf t \<Longrightarrow> small t \<Longrightarrow> valid_node (node_of k t)"
proof (induction t)
  case (PLeaf p v)
  then show ?case using smallD [OF PLeaf.prems(2), of p v] by simp
next
  case (PExt p t)
  then have "valid_node (node_of k t)" using small_PExt by auto
  then have "valid_child (hash_of k t)" "is_valid (hash_of k t)"
    using compute_hash_valid k by (auto simp: hash_of_def)
  moreover obtain q where "holds_key t q" using PExt.prems pwf_nonempty by auto
  then have "holds_key (PExt p t) (p @ q)"
    using PExt.prems(1) by (simp add: holds_key_def key_path_append)
  then have "length p < 2 ^ 59"
    using smallD [OF PExt.prems(2), of "p @ q"] by (auto simp: holds_key_def)
  ultimately show ?case using PExt.prems(1) by simp
next
  case (PBranch ts v)
  have l: "length ts = 16" using PBranch.prems by (simp add: pwf_PBranch)
  have "valid_child (child_hash k c)" if c: "c \<in> set ts" for c
  proof (cases c)
    case (Some t)
    then obtain i where i: "i < 16" "ts ! i = Some t" using c l by (auto simp: in_set_conv_nth)
    then have "valid_node (node_of k t)"
      using PBranch.IH [of c t] c Some PBranch.prems small_child [OF PBranch.prems(2) l i]
      by (auto simp: pwf_PBranch)
    then show ?thesis using Some compute_hash_valid k by (simp add: hash_of_def)
  qed (simp add: node_hash_default_def)
  moreover have "length v < 2 ^ 59"
    using smallD [OF PBranch.prems(2), of "[16]" v]
    by (cases "v = []") (auto simp: some_value_def key_path_Cons)
  ultimately show ?case using l by simp
qed

section \<open>States that hold a trie\<close>

text \<open>
  A trie is held by a state when its node can be fetched, and either the node waits in the cache
  or the whole trie is in the database. The second part is what makes committing the cache
  complete.
\<close>

definition in_db :: "(bytes \<Rightarrow> bytes) \<Rightarrow> trie_db \<Rightarrow> ptrie \<Rightarrow> bool" where
  "in_db k d t \<longleftrightarrow>
     (\<forall>h. hash_of k t = Hashed h \<longrightarrow> db_get d h = Ok (Some (encode_node (node_of k t))))"

definition cached_or_stored :: "(bytes \<Rightarrow> bytes) \<Rightarrow> trie_state \<Rightarrow> ptrie \<Rightarrow> bool" where
  "cached_or_stored k st t \<longleftrightarrow>
     (\<exists>e. hash_of k t = Inline e) \<or> st_cache st (hash_of k t) = Some (node_of k t) \<or>
     (\<forall>x \<in> subtries t. in_db k (st_db st) x)"

definition held :: "(bytes \<Rightarrow> bytes) \<Rightarrow> trie_state \<Rightarrow> ptrie \<Rightarrow> bool" where
  "held k st t \<longleftrightarrow>
     get_node st (hash_of k t) = Ok (Some (node_of k t)) \<and> cached_or_stored k st t"

text \<open>
  The nodes a run deals with: their encodings can be read back and no two different ones have
  the same hash.
\<close>

definition collision_free :: "(bytes \<Rightarrow> bytes) \<Rightarrow> ptrie set \<Rightarrow> bool" where
  "collision_free k U \<longleftrightarrow>
     (\<forall>t \<in> U. valid_node (node_of k t)) \<and>
     (\<forall>t \<in> U. \<forall>u \<in> U. hash_of k t = hash_of k u \<longrightarrow> node_of k t = node_of k u)"

definition hashed_cache :: "trie_state \<Rightarrow> bool" where
  "hashed_cache st \<longleftrightarrow> (\<forall>e. st_cache st (Inline e) = None)"

definition keeps :: "(bytes \<Rightarrow> bytes) \<Rightarrow> ptrie set \<Rightarrow> trie_state \<Rightarrow> trie_state \<Rightarrow> bool" where
  "keeps k U st st' \<longleftrightarrow>
     (\<forall>u \<in> U. held k st u \<longrightarrow> held k st' u) \<and> (hashed_cache st \<longrightarrow> hashed_cache st')"

definition put :: "(bytes \<Rightarrow> bytes) \<Rightarrow> ptrie \<Rightarrow> trie_state \<Rightarrow> trie_state" where
  "put k t st = insert_node (node_of k t) (hash_of k t) st"

lemma collision_freeI:
  assumes "\<And>bs. length (k bs) = 32" "\<And>t. t \<in> U \<Longrightarrow> pwf t \<and> small t"
    and "inj_on k ((\<lambda>t. encode_raw_node (node_of k t)) ` U)"
  shows "collision_free k U"
  unfolding collision_free_def
proof (intro conjI ballI impI)
  show v: "valid_node (node_of k t)" if "t \<in> U" for t
    using valid_node_of [of k t] assms(1,2) that by auto
  fix t u
  assume U: "t \<in> U" "u \<in> U" and h: "hash_of k t = hash_of k u"
  let ?e = "\<lambda>t. encode_raw_node (node_of k t)"
  have "?e t = ?e u"
    using h inj_onD [OF assms(3), of "?e t" "?e u"] U
    by (auto simp: hash_of_def compute_hash_def from_encoded_raw_def split: if_splits)
  then show "node_of k t = node_of k u" using encode_raw_node_inject v U by blast
qed

lemma collision_free_valid: "collision_free k U \<Longrightarrow> t \<in> U \<Longrightarrow> valid_node (node_of k t)"
  unfolding collision_free_def by blast

lemma collision_free_node:
  "collision_free k U \<Longrightarrow> t \<in> U \<Longrightarrow> u \<in> U \<Longrightarrow> hash_of k t = hash_of k u \<Longrightarrow>
     node_of k t = node_of k u"
  unfolding collision_free_def by blast

lemma insert_self_put: "insert_self k (node_of k t) st = (Ok (hash_of k t), put k t st)"
  by (simp add: insert_self_def put_def hash_of_def Let_def)

lemma keeps_refl [simp]: "keeps k U st st"
  by (simp add: keeps_def)

lemma keeps_trans: "keeps k U st st' \<Longrightarrow> keeps k U st' st'' \<Longrightarrow> keeps k U st st''"
  by (auto simp: keeps_def)

lemma keeps_held: "keeps k U st st' \<Longrightarrow> A \<subseteq> U \<Longrightarrow> \<forall>u \<in> A. held k st u \<Longrightarrow> \<forall>u \<in> A. held k st' u"
  by (auto simp: keeps_def)

lemma held_inline:
  assumes "valid_node (node_of k t)" "hash_of k t = Inline e"
  shows "held k st t"
proof -
  have "e = encode_raw_node (node_of k t)"
    using assms(2) by (auto simp: hash_of_def compute_hash_def from_encoded_raw_def split: if_splits)
  then show ?thesis using assms decode_raw_encode_raw by (simp add: held_def cached_or_stored_def)
qed

lemma st_db_put [simp]: "st_db (put k t st) = st_db st"
  by (cases "hash_of k t") (simp_all add: put_def insert_node_def)

lemma hashed_cache_put: "hashed_cache st \<Longrightarrow> hashed_cache (put k t st)"
  by (cases "hash_of k t") (simp_all add: put_def insert_node_def hashed_cache_def)

lemma held_put:
  assumes "collision_free k U" "t \<in> U"
  shows "held k (put k t st) t" "keeps k U st (put k t st)"
proof -
  have v: "valid_node (node_of k t)" using assms by (rule collision_free_valid)
  show h: "held k (put k t st) t"
  proof (cases "hash_of k t")
    case (Hashed x)
    then show ?thesis by (simp add: held_def put_def insert_node_def cached_or_stored_def)
  next
    case (Inline e)
    with v show ?thesis by (rule held_inline)
  qed
  show "keeps k U st (put k t st)"
    unfolding keeps_def
  proof (intro conjI ballI impI)
    show "hashed_cache st \<Longrightarrow> hashed_cache (put k t st)" by (rule hashed_cache_put)
    fix u
    assume u: "u \<in> U" "held k st u"
    show "held k (put k t st) u"
    proof (cases "hash_of k u = hash_of k t")
      case True
      then have "node_of k u = node_of k t" using collision_free_node assms u by blast
      moreover have "(\<exists>e. hash_of k t = Inline e) \<or> st_cache (put k t st) (hash_of k t) = Some (node_of k t)"
        by (cases "hash_of k t") (simp_all add: put_def insert_node_def)
      ultimately show ?thesis using h True by (auto simp: held_def cached_or_stored_def)
    next
      case False
      then have "get_node (put k t st) (hash_of k u) = get_node st (hash_of k u)"
        by (cases "hash_of k t"; cases "hash_of k u") (simp_all add: put_def insert_node_def split: option.split)
      moreover have "st_cache (put k t st) (hash_of k u) = st_cache st (hash_of k u)"
        using False by (cases "hash_of k t") (simp_all add: put_def insert_node_def)
      ultimately show ?thesis using u(2) by (simp add: held_def cached_or_stored_def)
    qed
  qed
qed

lemma fetch_held: "held k st t \<Longrightarrow> fetch st (hash_of k t) = Ok (node_of k t)"
  by (simp add: fetch_def held_def)

lemma fetch_m_held: "held k st t \<Longrightarrow> fetch_m (hash_of k t) st = (Ok (node_of k t), st)"
  by (simp add: fetch_m_def fetch_held)

lemma hash_of_valid: "valid_node (node_of k t) \<Longrightarrow> is_valid (hash_of k t)"
  using encode_raw_node_raw_list [of "node_of k t"]
  by (auto simp: hash_of_def compute_hash_def from_encoded_raw_def raw_list_def)

section \<open>Lookup\<close>

lemma next_choice_Cons:
  "next_choice (n # r) = (if unat n < 16 then Some (unat n) else None, r)"
  by (simp add: next_choice_def nib_next_def)

lemma node_get_refines:
  assumes "\<And>u. u \<in> below t \<Longrightarrow> held k st u \<and> valid_node (node_of k u)"
  shows "\<lbrakk> pwf t; key_path q; length q < fuel \<rbrakk> \<Longrightarrow> node_get fuel st (node_of k t) q = Ok (pget t q)"
  using assms
proof (induction t arbitrary: q fuel)
  case (PLeaf p v)
  then show ?case by (cases fuel) (auto simp: leaf_get_def)
next
  case (PExt p t)
  obtain f where f: "fuel = Suc f" using PExt.prems(3) by (cases fuel) auto
  show ?case
  proof (cases "\<exists>r. q = p @ r")
    case True
    then obtain r where r: "q = p @ r" by blast
    moreover have "key_path r" "length r < f" "p \<noteq> []"
      using PExt.prems f r by (auto simp: key_path_append) (cases p; auto)
    moreover have "held k st t" using PExt.prems(4) by simp
    moreover have "node_get f st (node_of k t) r = Ok (pget t r)"
      using PExt calculation by auto
    ultimately show ?thesis using f by (simp add: extension_get_def fetch_held)
  next
    case False
    then show ?thesis using f by (simp add: extension_get_def skip_prefix_cases pget_PExt)
  qed
next
  case (PBranch ts v)
  obtain f where f: "fuel = Suc f" using PBranch.prems(3) by (cases fuel) auto
  obtain n r where q: "q = n # r" using PBranch.prems(2) by (cases q) auto
  have l: "length ts = 16" using PBranch.prems by (simp add: pwf_PBranch)
  from key_path_cases PBranch.prems(2) q
  consider "n = 16" | "unat n < 16" "key_path r" "ts ! unat n = None"
    | t where "unat n < 16" "key_path r" "ts ! unat n = Some t" by (metis option.exhaust)
  then show ?case
  proof cases
    case 3
    then have "Some t \<in> set ts" using l by (metis nth_mem)
    moreover from this have b: "subtries t \<subseteq> below (PBranch ts v)" by (rule subtries_child)
    moreover have "t \<in> below (PBranch ts v)" using b by (auto simp: subtries_def)
    then have "held k st t" "valid_node (node_of k t)" using PBranch.prems(4) by blast+
    moreover have "node_get f st (node_of k t) r = Ok (pget t r)"
      using PBranch.IH [of "Some t" t r f] PBranch.prems 3 f q b \<open>Some t \<in> set ts\<close>
      by (auto simp: pwf_PBranch subtries_def)
    ultimately show ?thesis using f q l 3
      by (simp add: branch_get_def next_choice_Cons fetch_held hash_of_valid Let_def)
  qed (use f q l in \<open>auto simp: branch_get_def next_choice_Cons some_value_def node_hash_default_def\<close>)
qed

end
