(* ===== verification/Trie_Insert.thy ===== *)
theory Trie_Insert
  imports Trie_Refine
begin

text \<open>
  Insertion of the stored trie refines \<open>pinsert\<close>: it returns the node of the new trie, stores
  every node below it and disturbs none of the nodes the state already held.
\<close>

definition ins_ok ::
  "(bytes \<Rightarrow> bytes) \<Rightarrow> ptrie set \<Rightarrow> trie_state \<Rightarrow> ptrie \<Rightarrow> (node, trie_error) result \<times> trie_state \<Rightarrow> bool"
where
  "ins_ok k U st t res \<longleftrightarrow>
     fst res = Ok (node_of k t) \<and> keeps k U st (snd res) \<and> (\<forall>u \<in> below t. held k (snd res) u)"

lemma nib_parts [simp]:
  "nib_at (c @ a # p) (length c) = Ok (unat a)"
  "nib_offset (c @ a # p) (Suc (length c)) = Ok p"
  "nib_offset (c @ p) (length c) = Ok p"
  "nib_slice (c @ p) 0 (length c) = Ok c"
  by (simp_all add: nib_at_def nib_offset_def nib_slice_def slice_def)

lemma nib_parts_hd [simp]:
  "nib_at (a # p) 0 = Ok (unat a)" "nib_offset (a # p) (Suc 0) = Ok p"
  by (simp_all add: nib_at_def nib_offset_def nib_slice_def slice_def)

lemma map_child_hash_pchoices [simp]: "map (child_hash k) pchoices = EMPTY_CHOICES"
  by (simp add: pchoices_def EMPTY_CHOICES_def)

lemma length_EMPTY_CHOICES [simp]: "length EMPTY_CHOICES = 16"
  by (simp add: EMPTY_CHOICES_def)

lemma EMPTY_CHOICES_nth: "i < 16 \<Longrightarrow> EMPTY_CHOICES ! i = node_hash_default"
  by (simp add: EMPTY_CHOICES_def)

lemma not_valid_default [simp]: "\<not> is_valid node_hash_default"
  by (simp add: node_hash_default_def)

lemmas insert_self_leaf [simp] = insert_self_put [where t = "PLeaf p v" for p v, simplified]
lemmas insert_self_ext [simp] = insert_self_put [where t = "PExt p t" for p t, simplified]
lemmas insert_self_branch [simp] = insert_self_put [where t = "PBranch ts v" for ts v, simplified]

lemma insert_self_one_child [simp]:
  "insert_self k (Branch \<lparr>branch_choices = EMPTY_CHOICES[i := hash_of k t], branch_value = v\<rparr>) st =
     (Ok (hash_of k (PBranch (pchoices[i := Some t]) v)), put k (PBranch (pchoices[i := Some t]) v) st)"
  using insert_self_put [of k "PBranch (pchoices[i := Some t]) v" st] by (simp add: map_update)

lemma insert_self_two_children [simp]:
  "insert_self k (Branch \<lparr>branch_choices = EMPTY_CHOICES[i := hash_of k t, j := hash_of k u],
       branch_value = v\<rparr>) st =
     (Ok (hash_of k (PBranch (pchoices[i := Some t, j := Some u]) v)),
      put k (PBranch (pchoices[i := Some t, j := Some u]) v) st)"
  using insert_self_put [of k "PBranch (pchoices[i := Some t, j := Some u]) v" st]
  by (simp add: map_update)

lemmas node_ctor_defs =
  new_leaf_node_def new_extension_node_def new_branch_node_def new_branch_with_value_def

section \<open>Storing the nodes of a new branch\<close>

lemma put_held:
  assumes "collision_free k U" "t \<in> U"
  shows "held k (put k t st) t" "keeps k U st (put k t st)"
    "u \<in> U \<Longrightarrow> held k st u \<Longrightarrow> held k (put k t st) u"
  using held_put [OF assms] by (auto simp: keeps_def)

lemma put_two:
  assumes cf: "collision_free k U" and x: "x \<in> U" and y: "y \<in> U"
  shows "keeps k U st (put k x (put k y st))" "held k (put k x (put k y st)) x"
    "held k (put k x (put k y st)) y"
proof -
  show "held k (put k x (put k y st)) x" using cf x by (rule put_held(1))
  show "held k (put k x (put k y st)) y" using put_held [OF cf y] put_held(3) [OF cf x y] by blast
  show "keeps k U st (put k x (put k y st))"
    using put_held(2) [OF cf y] put_held(2) [OF cf x] by (rule keeps_trans)
qed

lemma ins_ok_pext:
  assumes cf: "collision_free k U" and U: "below (pext c t) \<subseteq> U"
    and st': "keeps k U st st'" "\<forall>u \<in> below t. held k st' u"
  shows "ins_ok k U st (pext c t)
    (if c = [] then (Ok (node_of k t), st')
     else (Ok (Extension \<lparr>ext_prefix = c, ext_child = hash_of k t\<rparr>), put k t st'))"
proof (cases "c = []")
  case True
  then show ?thesis using st' by (simp add: ins_ok_def pext_def)
next
  case False
  then have t: "t \<in> U" and b: "below t \<subseteq> U" using U by (auto simp: pext_def)
  have "keeps k U st (put k t st')" using keeps_trans st'(1) put_held(2) [OF cf t] by blast
  moreover have "\<forall>u \<in> below t. held k (put k t st') u"
    using put_held(3) [OF cf t] st'(2) b by blast
  ultimately show ?thesis using False put_held(1) [OF cf t]
    by (simp add: ins_ok_def pext_def)
qed

lemma below_two_leaves:
  "a = 16 \<Longrightarrow> unat b < 16 \<Longrightarrow> below (two_leaves a p w b q v) = {PLeaf q v}"
  "a \<noteq> 16 \<Longrightarrow> b = 16 \<Longrightarrow> unat a < 16 \<Longrightarrow> below (two_leaves a p w b q v) = {PLeaf p w}"
  "a \<noteq> 16 \<Longrightarrow> b \<noteq> 16 \<Longrightarrow> a \<noteq> b \<Longrightarrow> unat a < 16 \<Longrightarrow> unat b < 16 \<Longrightarrow>
     below (two_leaves a p w b q v) = {PLeaf p w, PLeaf q v}"
proof -
  have one: "{t. Some t \<in> set (pchoices[i := Some x])} = {x}" if "i < 16" for i and x :: ptrie
    using that by (auto simp: in_set_conv_nth nth_list_update pchoices_def split: if_splits)
  have two: "{t. Some t \<in> set (pchoices[i := Some x, j := Some y])} = {x, y}"
    if "i < 16" "j < 16" "i \<noteq> j" for i j and x y :: ptrie
    using that
    by (auto simp: in_set_conv_nth nth_list_update pchoices_def split: if_splits)
  show "a = 16 \<Longrightarrow> unat b < 16 \<Longrightarrow> below (two_leaves a p w b q v) = {PLeaf q v}"
    by (simp add: two_leaves_def below_PBranch one subtries_def)
  show "a \<noteq> 16 \<Longrightarrow> b = 16 \<Longrightarrow> unat a < 16 \<Longrightarrow> below (two_leaves a p w b q v) = {PLeaf p w}"
    by (simp add: two_leaves_def below_PBranch one subtries_def)
  show "a \<noteq> 16 \<Longrightarrow> b \<noteq> 16 \<Longrightarrow> a \<noteq> b \<Longrightarrow> unat a < 16 \<Longrightarrow> unat b < 16 \<Longrightarrow>
      below (two_leaves a p w b q v) = {PLeaf p w, PLeaf q v}"
    by (auto simp: two_leaves_def below_PBranch two subtries_def)
qed

lemma leaf_insert_parts:
  assumes ab: "a \<noteq> b" and p: "key_path (a # p)" and q: "key_path (b # q)"
  shows "leaf_insert k \<lparr>leaf_partial = c @ a # p, leaf_value = w\<rparr> (c @ b # q) v st =
    (let st' = (if a = 16 then put k (PLeaf q v) st
                else if b = 16 then put k (PLeaf p w) st
                else put k (PLeaf p w) (put k (PLeaf q v) st));
         t = two_leaves a p w b q v
     in if c = [] then (Ok (node_of k t), st')
        else (Ok (Extension \<lparr>ext_prefix = c, ext_child = hash_of k t\<rparr>), put k t st'))"
proof -
  have m: "count_prefix (c @ b # q) (c @ a # p) = length c" using ab by (intro count_prefix_split) auto
  have n: "a \<noteq> 16 \<Longrightarrow> unat a < 16" "b \<noteq> 16 \<Longrightarrow> unat b < 16" using p q key_path_nib by blast+
  show ?thesis
    using ab n
    by (auto simp: leaf_insert_def m sbind_def sm_steps set_choice_def node_ctor_defs Let_def
        two_leaves_def map_update)
qed

lemma leaf_insert_refines:
  assumes cf: "collision_free k U" and p: "key_path p" and q: "key_path q"
    and U: "below (pinsert (PLeaf p w) q v) \<subseteq> U"
  shows "ins_ok k U st (pinsert (PLeaf p w) q v)
    (leaf_insert k \<lparr>leaf_partial = p, leaf_value = w\<rparr> q v st)"
proof (cases "p = q")
  case True
  then show ?thesis by (simp add: ins_ok_def leaf_insert_def sm_steps)
next
  case False
  then obtain c a p' b q' where d: "p = c @ a # p'" "q = c @ b # q'" "a \<noteq> b" "nibs c"
    "key_path (a # p')" "key_path (b # q')" using key_paths_part [OF p q] by blast
  let ?t = "two_leaves a p' w b q' v"
  define st' where "st' = (if a = 16 then put k (PLeaf q' v) st
    else if b = 16 then put k (PLeaf p' w) st else put k (PLeaf p' w) (put k (PLeaf q' v) st))"
  have n: "a \<noteq> 16 \<Longrightarrow> unat a < 16" "b \<noteq> 16 \<Longrightarrow> unat b < 16" using d key_path_nib by blast+
  have ext: "pinsert (PLeaf p w) q v = pext c ?t" using False d by (simp add: leaf_split_parts)
  then have b: "below ?t \<subseteq> U" using U by (auto simp: pext_def split: if_splits)
  have "keeps k U st st' \<and> (\<forall>u \<in> below ?t. held k st' u)"
  proof -
    consider "a = 16" "unat b < 16" | "a \<noteq> 16" "b = 16" "unat a < 16"
      | "a \<noteq> 16" "b \<noteq> 16" "unat a < 16" "unat b < 16" using n d(3) by blast
    then show ?thesis
    proof cases
      case 3
      then have "PLeaf p' w \<in> U" "PLeaf q' v \<in> U" using b d(3) by (simp_all add: below_two_leaves)
      then have "keeps k U st st'" "held k st' (PLeaf p' w)" "held k st' (PLeaf q' v)"
        using 3 put_two [OF cf] by (simp_all add: st'_def)
      then show ?thesis using 3 d(3) by (simp add: below_two_leaves)
    qed (use b d(3) put_held [OF cf] in \<open>simp_all add: st'_def below_two_leaves\<close>)
  qed
  then have "ins_ok k U st (pext c ?t)
    (if c = [] then (Ok (node_of k ?t), st')
     else (Ok (Extension \<lparr>ext_prefix = c, ext_child = hash_of k ?t\<rparr>), put k ?t st'))"
    using ins_ok_pext [OF cf] U ext by simp
  then show ?thesis
    unfolding ext unfolding d(1,2) leaf_insert_parts [OF d(3,5,6)] st'_def Let_def .
qed

section \<open>Extensions\<close>

definition put_tail :: "(bytes \<Rightarrow> bytes) \<Rightarrow> nibbles \<Rightarrow> ptrie \<Rightarrow> trie_state \<Rightarrow> trie_state" where
  "put_tail k p t st = (if p = [] then st else put k (PExt p t) st)"

lemma extension_insert_split:
  assumes "a \<noteq> b" "unat a < 16" "key_path (b # q)"
  shows "extension_insert k rec \<lparr>ext_prefix = a # p, ext_child = hash_of k t\<rparr> (b # q) v st =
    (Ok (node_of k (ext_split (a # p) t (b # q) v)),
     if b = 16 then put_tail k p t st else put k (PLeaf q v) (put_tail k p t st))"
proof -
  have n: "b \<noteq> 16 \<Longrightarrow> unat b < 16" "a \<noteq> 16" using assms key_path_nib by auto
  have h: "hash_of k (ext_tail (a # p) t) = (if p = [] then hash_of k t else hash_of k (PExt p t))"
    by (cases p) (simp_all add: ext_tail_def)
  show ?thesis
    using assms n h
    by (cases "b = 16"; cases p)
      (auto simp: extension_insert_def branch_insert_def put_tail_def sbind_def sm_steps
        set_choice_def node_ctor_defs Let_def ext_split_def map_update next_choice_Cons
        nth_list_update EMPTY_CHOICES_nth)
qed

lemma below_ext_split:
  assumes "a \<noteq> b" "unat a < 16" "key_path (b # q)"
  shows "below (ext_split (a # p) t (b # q) v) =
    subtries (ext_tail (a # p) t) \<union> (if b = 16 then {} else {PLeaf q v})"
proof -
  have n: "b \<noteq> 16 \<Longrightarrow> unat b < 16" using assms key_path_nib by auto
  have one: "{t. Some t \<in> set (pchoices[i := Some x])} = {x}" if "i < 16" for i and x :: ptrie
    using that by (auto simp: in_set_conv_nth nth_list_update pchoices_def split: if_splits)
  have two: "{t. Some t \<in> set (pchoices[i := Some x, j := Some y])} = {x, y}"
    if "i < 16" "j < 16" "i \<noteq> j" for i j and x y :: ptrie
    using that by (auto simp: in_set_conv_nth nth_list_update pchoices_def split: if_splits)
  show ?thesis using assms n
    by (cases "b = 16") (auto simp: ext_split_def Let_def below_PBranch one two subtries_def)
qed

lemma extension_split_refines:
  assumes cf: "collision_free k U" and ab: "a \<noteq> b" "unat a < 16" "key_path (b # q)"
    and held: "\<forall>u \<in> subtries t. held k st u" and tU: "subtries t \<subseteq> U"
    and U: "below (ext_split (a # p) t (b # q) v) \<subseteq> U"
  shows "ins_ok k U st (ext_split (a # p) t (b # q) v)
    (extension_insert k rec \<lparr>ext_prefix = a # p, ext_child = hash_of k t\<rparr> (b # q) v st)"
proof -
  let ?st = "put_tail k p t st"
  have tl: "subtries (ext_tail (a # p) t) \<subseteq> U" using U by (auto simp: below_ext_split [OF ab])
  have e: "subtries (ext_tail (a # p) t) = (if p = [] then subtries t else insert (PExt p t) (subtries t))"
    by (cases p) (auto simp: ext_tail_def subtries_def)
  have st1: "keeps k U st ?st" "\<forall>u \<in> subtries (ext_tail (a # p) t). held k ?st u"
    using held tU tl e put_held [OF cf, of "PExt p t"] by (auto simp: put_tail_def split: if_splits)
  show ?thesis
  proof (cases "b = 16")
    case True
    then show ?thesis using st1
      unfolding ins_ok_def extension_insert_split [OF ab] below_ext_split [OF ab] by simp
  next
    case False
    then have l: "PLeaf q v \<in> U" using U by (auto simp: below_ext_split [OF ab])
    have "keeps k U st (put k (PLeaf q v) ?st)"
      using st1(1) put_held(2) [OF cf l] by (rule keeps_trans)
    moreover have "\<forall>u \<in> subtries (ext_tail (a # p) t). held k (put k (PLeaf q v) ?st) u"
      using put_held(3) [OF cf l] st1(2) tl by blast
    ultimately show ?thesis using False put_held(1) [OF cf l]
      unfolding ins_ok_def extension_insert_split [OF ab] below_ext_split [OF ab] by simp
  qed
qed

lemma extension_insert_partial:
  assumes "a \<noteq> b" "c \<noteq> []"
    and "rec (Extension \<lparr>ext_prefix = a # p, ext_child = h\<rparr>) (b # q) v st = (Ok (node_of k t), st')"
  shows "extension_insert k rec \<lparr>ext_prefix = c @ a # p, ext_child = h\<rparr> (c @ b # q) v st =
    (Ok (Extension \<lparr>ext_prefix = c, ext_child = hash_of k t\<rparr>), put k t st')"
proof -
  have "count_prefix (c @ b # q) (c @ a # p) = length c" using assms(1) by (intro count_prefix_split) auto
  then show ?thesis using assms
    by (simp add: extension_insert_def sbind_def sm_steps node_ctor_defs Let_def insert_self_put)
qed

lemma extension_insert_full:
  assumes "held k st t" "rec (node_of k t) q v st = (Ok (node_of k t'), st')"
  shows "extension_insert k rec \<lparr>ext_prefix = p, ext_child = hash_of k t\<rparr> (p @ q) v st =
    (Ok (Extension \<lparr>ext_prefix = p, ext_child = hash_of k t'\<rparr>), put k t' st')"
proof -
  have "count_prefix (p @ q) p = length p" using count_prefix_full by blast
  then show ?thesis using assms
    by (simp add: extension_insert_def sbind_def sm_steps Let_def insert_self_put fetch_m_held)
qed

section \<open>Branches\<close>

lemma branch_insert_new:
  assumes "unat n < 16" "length ts = 16" "ts ! unat n = None"
  shows "branch_insert k rec \<lparr>branch_choices = map (child_hash k) ts, branch_value = w\<rparr> (n # q) v st =
    (Ok (node_of k (PBranch (ts[unat n := Some (PLeaf q v)]) w)), put k (PLeaf q v) st)"
  using assms
  by (simp add: branch_insert_def next_choice_Cons Let_def sbind_def sm_steps node_ctor_defs map_update)

lemma branch_insert_old:
  assumes "unat n < 16" "length ts = 16" "ts ! unat n = Some t" "held k st t"
    and "valid_node (node_of k t)" "rec (node_of k t) q v st = (Ok (node_of k t'), st')"
  shows "branch_insert k rec \<lparr>branch_choices = map (child_hash k) ts, branch_value = w\<rparr> (n # q) v st =
    (Ok (node_of k (PBranch (ts[unat n := Some t']) w)), put k t' st')"
  using assms hash_of_valid [OF assms(5)]
  by (simp add: branch_insert_def next_choice_Cons Let_def sbind_def sm_steps map_update fetch_m_held
      insert_self_put)

lemma ins_ok_put:
  assumes cf: "collision_free k U" and r: "ins_ok k U st t (res, st')" and t: "subtries t \<subseteq> U"
  shows "keeps k U st (put k t st')" "\<forall>u \<in> subtries t. held k (put k t st') u"
proof -
  have U: "t \<in> U" "below t \<subseteq> U" using t by (auto simp: subtries_def)
  have "keeps k U st st'" using r by (simp add: ins_ok_def)
  then show "keeps k U st (put k t st')" using put_held(2) [OF cf U(1)] keeps_trans by blast
  show "\<forall>u \<in> subtries t. held k (put k t st') u"
    using r U put_held(1,3) [OF cf U(1)] by (auto simp: ins_ok_def subtries_def)
qed

lemma branch_update_held:
  assumes "below (PBranch ts w) \<subseteq> U" "\<forall>u \<in> below (PBranch ts w). held k st u" "keeps k U st st'"
    and "\<forall>u \<in> subtries t. held k st' u"
  shows "\<forall>u \<in> below (PBranch (ts[i := Some t]) w). held k st' u"
  using assms below_update [of ts i "Some t" w w] by (fastforce simp: keeps_def)

lemma subtries_update_subset:
  "i < length ts \<Longrightarrow> below (PBranch (ts[i := Some t]) w) \<subseteq> U \<Longrightarrow> subtries t \<subseteq> U"
  using subtries_nth [of i "ts[i := Some t]" t w] by fastforce

section \<open>All nodes\<close>

lemma ins_ok_result: "ins_ok k U st t res \<Longrightarrow> res = (Ok (node_of k t), snd res)"
  by (cases res) (auto simp: ins_ok_def)

lemma node_insert_refines:
  assumes cf: "collision_free k U" and v: "v \<noteq> []"
  shows "\<lbrakk> pwf t; key_path q; length q < fuel; below t \<subseteq> U; \<forall>u \<in> below t. held k st u;
      below (pinsert t q v) \<subseteq> U \<rbrakk> \<Longrightarrow>
    ins_ok k U st (pinsert t q v) (node_insert k fuel (node_of k t) q v st)"
proof (induction t arbitrary: q fuel)
  case (PLeaf p w)
  then show ?case using leaf_insert_refines [OF cf] by (cases fuel) auto
next
  case (PExt p t)
  obtain f where f: "fuel = Suc f" using PExt.prems(3) by (cases fuel) auto
  have t: "subtries t \<subseteq> U" "\<forall>u \<in> subtries t. held k st u" "held k st t"
    using PExt.prems(4,5) by (auto simp: subtries_def)
  show ?case
  proof (cases "count_prefix q p = length p")
    case True
    then obtain r where r: "q = p @ r" using count_prefix_full by blast
    have "p \<noteq> []" using PExt.prems(1) by simp
    then have p: "key_path r" "length r < f"
      using PExt.prems(1,2,3) f r by (auto simp: key_path_append) (cases p; auto)
    have U: "subtries (pinsert t r v) \<subseteq> U"
      using PExt.prems(6) by (simp add: r pinsert_PExt_full subtries_def)
    then have ih: "ins_ok k U st (pinsert t r v) (node_insert k f (node_of k t) r v st)"
      using PExt.IH [of r f] PExt.prems p t by (auto simp: subtries_def)
    note res = ins_ok_result [OF ih]
    have "node_insert k fuel (node_of k (PExt p t)) q v st =
        (Ok (node_of k (PExt p (pinsert t r v))), put k (pinsert t r v) (snd (node_insert k f (node_of k t) r v st)))"
      using extension_insert_full [where rec = "node_insert k f", OF t(3) res] f r by simp
    then show ?thesis
      using ins_ok_put [OF cf _ U, of st "fst (node_insert k f (node_of k t) r v st)"] ih
      by (simp add: r pinsert_PExt_full ins_ok_def [of k U st "PExt p (pinsert t r v)"] subtries_def)
  next
    case False
    then obtain c a p' b q' where d: "p = c @ a # p'" "q = c @ b # q'" "a \<noteq> b" "nibs c"
      "unat a < 16" "nibs p'" "key_path (b # q')"
      using ext_path_parts PExt.prems(1,2) by (metis pwf.simps(2))
    let ?t = "ext_split (a # p') t (b # q') v"
    have e: "pinsert (PExt p t) q v = pext c ?t" unfolding d(1,2) using d(3) by (rule pinsert_PExt_parts)
    then have U: "below (pext c ?t) \<subseteq> U" "below ?t \<subseteq> U"
      using PExt.prems(6) by (auto simp: pext_def split: if_splits)
    note split = extension_split_refines [OF cf d(3,5,7) t(2,1) U(2)]
    show ?thesis
    proof (cases "c = []")
      case True
      then show ?thesis using split f d e by (simp add: pext_def)
    next
      case c: False
      then obtain g where g: "f = Suc g" using PExt.prems(3) f d(2) by (cases f) auto
      let ?res = "extension_insert k (node_insert k g)
        \<lparr>ext_prefix = a # p', ext_child = hash_of k t\<rparr> (b # q') v st"
      have "?res = (Ok (node_of k ?t), snd ?res)" using split by (rule ins_ok_result)
      then have "node_insert k fuel (node_of k (PExt p t)) q v st =
          (Ok (Extension \<lparr>ext_prefix = c, ext_child = hash_of k ?t\<rparr>), put k ?t (snd ?res))"
        using extension_insert_partial [where rec = "node_insert k f", OF d(3) c] f g d(1,2) by simp
      moreover have "keeps k U st (snd ?res)" "\<forall>u \<in> below ?t. held k (snd ?res) u"
        using split by (auto simp: ins_ok_def)
      ultimately show ?thesis using ins_ok_pext [OF cf U(1)] c e by simp
    qed
  qed
next
  case (PBranch ts w)
  obtain f where f: "fuel = Suc f" using PBranch.prems(3) by (cases fuel) auto
  obtain n r where q: "q = n # r" using PBranch.prems(2) by (cases q) auto
  have l: "length ts = 16" using PBranch.prems by (simp add: pwf_PBranch)
  from key_path_cases PBranch.prems(2) q
  consider "n = 16" | "unat n < 16" "key_path r" "ts ! unat n = None"
    | t where "unat n < 16" "key_path r" "ts ! unat n = Some t" by (metis option.exhaust)
  then show ?case
  proof cases
    case 1
    have "below (PBranch ts v) = below (PBranch ts w)" by (simp add: below_PBranch)
    then show ?thesis using 1 f q PBranch.prems(5)
      by (simp add: branch_insert_def next_choice_Cons sm_steps ins_ok_def)
  next
    case 2
    let ?t = "PLeaf r v"
    have b: "below (PBranch (ts[unat n := Some ?t]) w) \<subseteq> U" using PBranch.prems(6) 2 q l by simp
    then have U: "subtries ?t \<subseteq> U" using subtries_update_subset [OF _ b] 2 l by simp
    then have p: "keeps k U st (put k ?t st)" "\<forall>u \<in> subtries ?t. held k (put k ?t st) u"
      using put_held(1,2) [OF cf, of ?t st] by (auto simp: subtries_def)
    show ?thesis
      using 2 q f l branch_insert_new [of n ts k "node_insert k f" w r v st] p
        branch_update_held [OF PBranch.prems(4,5) p]
      by (simp add: ins_ok_def)
  next
    case 3
    let ?t = "pinsert t r v" and ?res = "node_insert k f (node_of k t) r v st"
    have m: "Some t \<in> set ts" using 3 l by (metis nth_mem)
    then have s: "subtries t \<subseteq> U" "\<forall>u \<in> subtries t. held k st u"
      using subtries_child [of t ts w] PBranch.prems(4,5) by auto
    have vt: "valid_node (node_of k t)" "held k st t"
      using s collision_free_valid [OF cf] by (auto simp: subtries_def)
    have b: "below (PBranch (ts[unat n := Some ?t]) w) \<subseteq> U" using PBranch.prems(6) 3 q l by simp
    then have U: "subtries ?t \<subseteq> U" using subtries_update_subset [OF _ b] 3 l by simp
    have ih: "ins_ok k U st ?t ?res"
      using PBranch.IH [of "Some t" t r f] m PBranch.prems(1,3) 3 f q l s U
      by (auto simp: pwf_PBranch subtries_def)
    note res = ins_ok_result [OF ih]
    have p: "keeps k U st (put k ?t (snd ?res))" "\<forall>u \<in> subtries ?t. held k (put k ?t (snd ?res)) u"
      using ins_ok_put [OF cf _ U, of st "fst ?res" "snd ?res"] ih by auto
    show ?thesis
      using 3 q f l branch_insert_old [where rec = "node_insert k f", OF 3(1) l 3(3) vt(2,1) res] p
        branch_update_held [OF PBranch.prems(4,5) p]
      by (simp add: ins_ok_def)
  qed
qed

end
