(* ===== verification/Trie_Remove.thy ===== *)
theory Trie_Remove
  imports Trie_Insert
begin

text \<open>
  Removal of the stored trie refines \<open>premove\<close>. In a well-formed trie a child that is stored
  again stays a child of the result, so every node that removal writes is a node of the new trie.
\<close>

definition rem_ok ::
  "(bytes \<Rightarrow> bytes) \<Rightarrow> ptrie set \<Rightarrow> trie_state \<Rightarrow> ptrie option \<times> bytes option
     \<Rightarrow> (node option \<times> bytes option, trie_error) result \<times> trie_state \<Rightarrow> bool" where
  "rem_ok k U st r res \<longleftrightarrow>
     fst res = Ok (map_option (node_of k) (fst r), snd r) \<and> keeps k U st (snd res) \<and>
     (\<forall>t. fst r = Some t \<longrightarrow> (\<forall>u \<in> below t. held k (snd res) u))"

lemma rem_ok_result:
  "rem_ok k U st r res \<Longrightarrow> res = (Ok (map_option (node_of k) (fst r), snd r), snd res)"
  by (cases res) (auto simp: rem_ok_def)

lemma below_prefix_trie: "below t \<subseteq> below (prefix_trie p t)"
  by (cases t) auto

lemma below_prefix_trie': "below (prefix_trie p t) \<subseteq> subtries t"
  by (cases t) (auto simp: subtries_def)

section \<open>Restructuring a branch\<close>

lemma valid_children_of:
  assumes "\<And>t. Some t \<in> set ts \<Longrightarrow> is_valid (hash_of k t)"
  shows "valid_children \<lparr>branch_choices = map (child_hash k) ts, branch_value = v\<rparr> =
    map (\<lambda>(i, t). (i, hash_of k t)) (pchildren ts)"
proof -
  have "filter (\<lambda>(_, h). is_valid h) (enumerate j (map (child_hash k) ts)) =
    map (\<lambda>(i, t). (i, hash_of k t))
      (concat (map (\<lambda>(i, c). case c of None \<Rightarrow> [] | Some t \<Rightarrow> [(i, t)]) (enumerate j ts)))" for j
    using assms by (induction ts arbitrary: j) (auto split: option.splits)
  then show ?thesis by (simp add: valid_children_def pchildren_def)
qed

lemma node_of_prefix_trie:
  "node_of k (prefix_trie [i] t) =
     (case node_of k t of
        Branch _ \<Rightarrow> Extension \<lparr>ext_prefix = [i], ext_child = hash_of k t\<rparr>
      | Extension e \<Rightarrow> Extension (e\<lparr>ext_prefix := i # ext_prefix e\<rparr>)
      | Leaf l \<Rightarrow> Leaf (l\<lparr>leaf_partial := i # leaf_partial l\<rparr>))"
  by (cases t) simp_all

lemma branch_restructure_refines:
  assumes v: "\<And>t. Some t \<in> set ts \<Longrightarrow> held k st t \<and> valid_node (node_of k t)"
  shows "branch_restructure \<lparr>branch_choices = map (child_hash k) ts, branch_value = w\<rparr> st =
    (Ok (node_of k (restructure ts w)), st)"
proof -
  have c: "valid_children \<lparr>branch_choices = map (child_hash k) ts, branch_value = v\<rparr> =
      map (\<lambda>(i, t). (i, hash_of k t)) (pchildren ts)" for v
    using v hash_of_valid by (intro valid_children_of) blast
  show ?thesis
  proof (cases "length (pchildren ts) = 1 \<and> w = []")
    case True
    then obtain i t where p: "pchildren ts = [(i, t)]" by (auto simp: length_Suc_conv)
    then have "Some t \<in> set ts" using set_pchildren [of i t ts] by (metis list.set_intros(1) nth_mem)
    then have "held k st t" using v by blast
    then show ?thesis using True p
      by (simp add: branch_restructure_def c Let_def sbind_def sm_steps fetch_m_held restructure_def
          nib_prepend_def new_extension_node_def node_of_prefix_trie split: node.split)
  next
    case False
    then show ?thesis
      by (auto simp: branch_restructure_def c Let_def sm_steps restructure_def new_leaf_node_def)
  qed
qed

lemma below_restructure: "below (restructure ts w) \<subseteq> below (PBranch ts w)"
proof (cases "length (pchildren ts) = 1 \<and> w = []")
  case True
  then obtain i t where p: "pchildren ts = [(i, t)]" by (auto simp: length_Suc_conv)
  then have "Some t \<in> set ts" using set_pchildren [of i t ts] by (metis list.set_intros(1) nth_mem)
  then have "below (prefix_trie q t) \<subseteq> below (PBranch ts w)" for q
    using below_prefix_trie' subtries_child by blast
  then show ?thesis using True p by (simp add: restructure_def)
next
  case False
  then show ?thesis by (auto simp: restructure_def Let_def)
qed

lemma restructure_two: "2 \<le> pcount ts w \<Longrightarrow> restructure ts w = PBranch ts w"
  by (auto simp: restructure_alt pcount_def split: if_splits)

section \<open>Extensions\<close>

lemma extension_remove_full:
  assumes "held k st t" "rec (node_of k t) q st = (Ok (map_option (node_of k) t', old), st')"
  shows "extension_remove k rec \<lparr>ext_prefix = p, ext_child = hash_of k t\<rparr> (p @ q) st =
    (Ok (map_option (\<lambda>t. node_of k (prefix_trie p t)) t', old),
     case t' of Some (PBranch ts v) \<Rightarrow> put k (PBranch ts v) st' | _ \<Rightarrow> st')"
proof (cases t')
  case None
  then show ?thesis using assms
    by (simp add: extension_remove_def sbind_def sm_steps fetch_m_held)
next
  case (Some u)
  then show ?thesis using assms
    by (cases u) (simp_all add: extension_remove_def sbind_def sm_steps fetch_m_held nib_extend_def)
qed

lemma extension_remove_refines:
  assumes cf: "collision_free k U" and t: "held k st t"
    and r: "rem_ok k U st (t', old) (rec (node_of k t) q st)"
    and U: "\<And>u. t' = Some u \<Longrightarrow> below (prefix_trie p u) \<subseteq> U"
  shows "rem_ok k U st (map_option (prefix_trie p) t', old)
    (extension_remove k rec \<lparr>ext_prefix = p, ext_child = hash_of k t\<rparr> (p @ q) st)"
proof -
  let ?st = "snd (rec (node_of k t) q st)"
  have k: "keeps k U st ?st" "\<And>u. t' = Some u \<Longrightarrow> \<forall>x \<in> below u. held k ?st x"
    using r by (auto simp: rem_ok_def)
  have e: "extension_remove k rec \<lparr>ext_prefix = p, ext_child = hash_of k t\<rparr> (p @ q) st =
      (Ok (map_option (\<lambda>t. node_of k (prefix_trie p t)) t', old),
       case t' of Some (PBranch ts v) \<Rightarrow> put k (PBranch ts v) ?st | _ \<Rightarrow> ?st)"
    using rem_ok_result [OF r] t by (intro extension_remove_full) simp_all
  show ?thesis
  proof (cases "\<exists>ts v. t' = Some (PBranch ts v)")
    case True
    then obtain ts v where b: "t' = Some (PBranch ts v)" by blast
    then have m: "PBranch ts v \<in> U" "below (PBranch ts v) \<subseteq> U" using U by auto
    have "keeps k U st (put k (PBranch ts v) ?st)"
      using k(1) held_put(2) [OF cf m(1)] by (rule keeps_trans)
    then show ?thesis
      using e b m k(2) [OF b] put_held(1,3) [OF cf m(1)] by (auto simp: rem_ok_def)
  next
    case False
    then show ?thesis using e k
      by (cases t') (auto simp: rem_ok_def option.map_comp comp_def split: ptrie.splits)
  qed
qed

section \<open>Branches\<close>

lemma branch_remove_value:
  assumes "\<And>t. Some t \<in> set ts \<Longrightarrow> held k st t \<and> valid_node (node_of k t)"
  shows "branch_remove k rec \<lparr>branch_choices = map (child_hash k) ts, branch_value = w\<rparr> (16 # q) st =
    (Ok (Some (node_of k (restructure ts [])), some_value w), st)"
  using branch_restructure_refines [OF assms, where w = "[]"]
  by (cases "w = []")
    (simp_all add: branch_remove_def next_choice_Cons sbind_def sm_steps some_value_def)

lemma branch_remove_absent:
  assumes "\<And>t. Some t \<in> set ts \<Longrightarrow> held k st t \<and> valid_node (node_of k t)"
    and "unat n < 16" "length ts = 16" "ts ! unat n = None"
  shows "branch_remove k rec \<lparr>branch_choices = map (child_hash k) ts, branch_value = w\<rparr> (n # q) st =
    (Ok (Some (node_of k (restructure ts w)), None), st)"
  using branch_restructure_refines [OF assms(1), where w = w] assms(2-4)
  by (simp add: branch_remove_def next_choice_Cons sbind_def sm_steps)

definition put_opt :: "(bytes \<Rightarrow> bytes) \<Rightarrow> ptrie option \<Rightarrow> trie_state \<Rightarrow> trie_state" where
  "put_opt k c st = (case c of None \<Rightarrow> st | Some t \<Rightarrow> put k t st)"

lemma branch_remove_child:
  assumes "unat n < 16" "length ts = 16" "ts ! unat n = Some t" "held k st t"
    and "valid_node (node_of k t)"
    and "rec (node_of k t) q st = (Ok (map_option (node_of k) t', old), st')"
    and "\<And>u. Some u \<in> set (ts[unat n := t']) \<Longrightarrow> held k (put_opt k t' st') u \<and> valid_node (node_of k u)"
  shows "branch_remove k rec \<lparr>branch_choices = map (child_hash k) ts, branch_value = w\<rparr> (n # q) st =
    (Ok (Some (node_of k (restructure (ts[unat n := t']) w)), old), put_opt k t' st')"
proof -
  have "branch_restructure
      \<lparr>branch_choices = map (child_hash k) (ts[unat n := t']), branch_value = w\<rparr> (put_opt k t' st') =
    (Ok (node_of k (restructure (ts[unat n := t']) w)), put_opt k t' st')"
    using assms(7) by (rule branch_restructure_refines)
  then show ?thesis
    using assms(1-6) hash_of_valid [OF assms(5)]
    by (cases t')
      (simp_all add: branch_remove_def next_choice_Cons sbind_def sm_steps fetch_m_held
        insert_self_put map_update put_opt_def)
qed

lemma held_update:
  assumes "\<forall>u \<in> below (PBranch ts w). held k st u" "below (PBranch ts w) \<subseteq> U" "keeps k U st st'"
    and "\<And>u. c = Some u \<Longrightarrow> \<forall>x \<in> subtries u. held k st' x"
  shows "\<forall>u \<in> below (PBranch (ts[i := c]) w). held k st' u"
  using below_update [of ts i c w w] assms by (fastforce simp: keeps_def split: option.splits)

section \<open>All nodes\<close>

lemma rem_ok_put_opt:
  assumes cf: "collision_free k U" and r: "rem_ok k U st (c, old) (res, st')"
    and U: "\<And>u. c = Some u \<Longrightarrow> subtries u \<subseteq> U"
  shows "keeps k U st (put_opt k c st')"
    "\<And>u. c = Some u \<Longrightarrow> \<forall>x \<in> subtries u. held k (put_opt k c st') x"
proof -
  have k: "keeps k U st st'" "\<And>u. c = Some u \<Longrightarrow> \<forall>x \<in> below u. held k st' x"
    using r by (auto simp: rem_ok_def)
  show "keeps k U st (put_opt k c st')"
  proof (cases c)
    case (Some u)
    then have "u \<in> U" using U by (auto simp: subtries_def)
    then show ?thesis using k(1) Some held_put(2) [OF cf] keeps_trans by (auto simp: put_opt_def)
  qed (use k in \<open>simp add: put_opt_def\<close>)
  show "\<forall>x \<in> subtries u. held k (put_opt k c st') x" if c: "c = Some u" for u
  proof -
    have "u \<in> U" "below u \<subseteq> U" using U [OF c] by (auto simp: subtries_def)
    then show ?thesis using k(2) [OF c] put_held(1,3) [OF cf] c by (auto simp: put_opt_def subtries_def)
  qed
qed

lemma node_remove_refines:
  assumes cf: "collision_free k U"
  shows "\<lbrakk> pwf t; key_path q; length q < fuel; below t \<subseteq> U; \<forall>u \<in> below t. held k st u;
      \<And>t'. fst (premove t q) = Some t' \<Longrightarrow> below t' \<subseteq> U \<rbrakk> \<Longrightarrow>
    rem_ok k U st (premove t q) (node_remove k fuel (node_of k t) q st)"
proof (induction t arbitrary: q fuel)
  case (PLeaf p w)
  then show ?case by (cases fuel) (auto simp: rem_ok_def leaf_remove_def sm_steps)
next
  case (PExt p t)
  obtain f where f: "fuel = Suc f" using PExt.prems(3) by (cases fuel) auto
  show ?case
  proof (cases "\<exists>r. q = p @ r")
    case True
    then obtain r where r: "q = p @ r" by blast
    have "p \<noteq> []" using PExt.prems(1) by simp
    then have p: "key_path r" "length r < f"
      using PExt.prems(1,2,3) f r by (auto simp: key_path_append) (cases p; auto)
    have U: "below (prefix_trie p u) \<subseteq> U" if "fst (premove t r) = Some u" for u
      using PExt.prems(6) [of "prefix_trie p u"] that r by (simp add: premove_PExt)
    then have "rem_ok k U st (premove t r) (node_remove k f (node_of k t) r st)"
      using PExt.IH [of r f] PExt.prems(1,4,5) p below_prefix_trie by fastforce
    then have "rem_ok k U st (map_option (prefix_trie p) (fst (premove t r)), snd (premove t r))
        (extension_remove k (node_remove k f) \<lparr>ext_prefix = p, ext_child = hash_of k t\<rparr> (p @ r) st)"
      using PExt.prems(5) U by (intro extension_remove_refines [OF cf]) auto
    then show ?thesis using f r by (simp add: premove_PExt)
  next
    case False
    then show ?thesis using f PExt.prems(5)
      by (simp add: premove_PExt extension_remove_def skip_prefix_cases sm_steps rem_ok_def)
  qed
next
  case (PBranch ts w)
  obtain f where f: "fuel = Suc f" using PBranch.prems(3) by (cases fuel) auto
  obtain n r where q: "q = n # r" using PBranch.prems(2) by (cases q) auto
  have l: "length ts = 16" and two: "2 \<le> pcount ts w" using PBranch.prems by (auto simp: pwf_PBranch)
  have held: "held k st t \<and> valid_node (node_of k t)" if "Some t \<in> set ts" for t
    using subtries_child [OF that, of w] PBranch.prems(4,5) collision_free_valid [OF cf]
    by (auto simp: subtries_def)
  from key_path_cases PBranch.prems(2) q
  consider "n = 16" | "unat n < 16" "n \<noteq> 16" "ts ! unat n = None"
    | t where "unat n < 16" "n \<noteq> 16" "key_path r" "ts ! unat n = Some t" by (metis option.exhaust)
  then show ?case
  proof cases
    case 1
    have "below (PBranch ts []) = below (PBranch ts w)" by (simp add: below_PBranch)
    then have "\<forall>u \<in> below (restructure ts []). held k st u"
      using below_restructure [of ts "[]"] PBranch.prems(5) by blast
    then show ?thesis using 1 f q branch_remove_value [OF held]
      by (simp add: rem_ok_def premove_branch_16)
  next
    case 2
    then show ?thesis using f q l two PBranch.prems(5) branch_remove_absent [OF held]
      by (simp add: rem_ok_def premove_branch_nib restructure_two)
  next
    case 3
    let ?p = "premove t r" and ?res = "node_remove k f (node_of k t) r st"
    let ?ts = "ts[unat n := fst ?p]"
    have m: "Some t \<in> set ts" using 3 l by (metis nth_mem)
    have res: "premove (PBranch ts w) q = (Some (restructure ?ts w), snd ?p)"
      using 3 q l by (simp add: premove_branch_nib)
    have U: "subtries u \<subseteq> U" if "fst ?p = Some u" for u
    proof -
      have "restructure ?ts w = PBranch ?ts w"
        using pcount_set_some [of "unat n" ts w u] two 3(1) l that by (intro restructure_two) simp
      then have "below (PBranch ?ts w) \<subseteq> U" using PBranch.prems(6) res by simp
      then show ?thesis using subtries_update_subset [of "unat n" ts u w U] that 3(1) l by simp
    qed
    have b: "below t \<subseteq> U" "\<forall>u \<in> below t. held k st u" "pwf t" "length r < f"
      using subtries_child [OF m, of w] PBranch.prems(1,3,4,5) 3 l f q
      by (auto simp: subtries_def pwf_PBranch)
    have "rem_ok k U st ?p ?res"
      by (rule PBranch.IH [of "Some t"]) (use m b 3 U in \<open>auto simp: subtries_def\<close>)
    then have ih: "rem_ok k U st (fst ?p, snd ?p) (fst ?res, snd ?res)" by simp
    let ?st = "put_opt k (fst ?p) (snd ?res)"
    have k: "keeps k U st ?st" "\<And>u. fst ?p = Some u \<Longrightarrow> \<forall>x \<in> subtries u. held k ?st x"
      using rem_ok_put_opt [OF cf ih] U by blast+
    have hs: "\<forall>u \<in> below (PBranch ?ts w). held k ?st u"
      using held_update [OF PBranch.prems(5,4) k] .
    have "held k ?st u \<and> valid_node (node_of k u)" if "Some u \<in> set ?ts" for u
    proof -
      have "u \<in> U"
        using that U held l below_update [of ts "unat n" "fst ?p" w w] PBranch.prems(4)
          subtries_child [OF that, of w] by (auto simp: subtries_def split: option.splits)
      then show ?thesis using hs subtries_child [OF that, of w] collision_free_valid [OF cf]
        by (auto simp: subtries_def)
    qed
    then have "node_remove k fuel (node_of k (PBranch ts w)) q st =
        (Ok (Some (node_of k (restructure ?ts w)), snd ?p), ?st)"
      using branch_remove_child [where rec = "node_remove k f" and st' = "snd ?res",
          OF 3(1) l 3(4)] held [OF m] rem_ok_result [OF ih] f q by simp
    then show ?thesis using res k(1) hs below_restructure [of ?ts w] by (auto simp: rem_ok_def)
  qed
qed

end
