(* ===== verification/Trie_Correct.thy ===== *)
theory Trie_Correct
  imports Trie_Remove
begin

text \<open>
  The \<^verbatim>\<open>Trie\<close> of \<^verbatim>\<open>crates/storage/trie/trie.rs\<close> as a finite map: \<open>represents\<close> ties a trie to a pure
  one, every operation keeps it, and the root hash is a function of the contents.
\<close>

section \<open>Representation\<close>

definition subs :: "ptrie option \<Rightarrow> ptrie set" where
  "subs c = (case c of None \<Rightarrow> {} | Some t \<Rightarrow> subtries t)"

definition small_root :: "ptrie option \<Rightarrow> bool" where
  "small_root c \<longleftrightarrow>
     (\<forall>q v. key_path q \<longrightarrow> pget_opt c q = Some v \<longrightarrow>
        length q < 2 ^ 59 \<and> length v < 2 ^ 59 \<and> (\<exists>path. q = from_bytes path))"

definition represents :: "(bytes \<Rightarrow> bytes) \<Rightarrow> trie \<Rightarrow> ptrie option \<Rightarrow> bool" where
  "represents k tr c \<longleftrightarrow>
     t_root tr = map_option (hash_of k) c \<and> proot_wf c \<and> small_root c \<and>
     (\<forall>u \<in> subs c. held k (t_state tr) u) \<and> hashed_cache (t_state tr)"

definition no_collisions :: "(bytes \<Rightarrow> bytes) \<Rightarrow> ptrie set \<Rightarrow> bool" where
  "no_collisions k U \<longleftrightarrow>
     (\<forall>bs. length (k bs) = 32) \<and> inj_on k ((\<lambda>t. encode_raw_node (node_of k t)) ` U)"

lemma subs_simps [simp]: "subs None = {}" "subs (Some t) = subtries t"
  by (simp_all add: subs_def)

lemma no_collisions_mono: "no_collisions k U \<Longrightarrow> V \<subseteq> U \<Longrightarrow> no_collisions k V"
  unfolding no_collisions_def by (meson image_mono inj_on_subset)

lemma small_root_None [simp]: "small_root None"
  by (simp add: small_root_def)

lemma small_root_small: "small_root (Some t) \<Longrightarrow> small t"
  by (simp add: small_root_def small_def)

lemma represents_new: "represents k (trie_new d) None"
  by (simp add: represents_def trie_new_def proot_wf_def trie_state_new_def hashed_cache_def)

section \<open>Subtries of well-formed tries\<close>

lemma small_child_mem: "small (PBranch ts v) \<Longrightarrow> length ts = 16 \<Longrightarrow> Some t \<in> set ts \<Longrightarrow> small t"
  using small_child by (auto simp: in_set_conv_nth)

lemma pwf_child_mem: "pwf (PBranch ts v) \<Longrightarrow> Some t \<in> set ts \<Longrightarrow> pwf t \<and> length ts = 16"
  by (auto simp: pwf_PBranch in_set_conv_nth)

lemma subtries_wf: "pwf t \<Longrightarrow> small t \<Longrightarrow> u \<in> subtries t \<Longrightarrow> pwf u \<and> small u"
proof (induction t)
  case (PLeaf p v)
  then show ?case by (simp add: subtries_def)
next
  case (PExt p t)
  then show ?case using small_PExt by (auto simp: subtries_def)
next
  case (PBranch ts v)
  show ?case
  proof (cases "u = PBranch ts v")
    case False
    then obtain t where t: "Some t \<in> set ts" "u \<in> subtries t"
      using PBranch.prems(3) by (auto simp: subtries_def below_PBranch)
    then show ?thesis
      using PBranch.IH [of "Some t" t] PBranch.prems(1,2) pwf_child_mem small_child_mem by auto
  qed (use PBranch.prems in simp)
qed

lemma subs_wf:
  assumes "proot_wf c" "small_root c" "u \<in> subs c"
  shows "pwf u \<and> small u"
proof (cases c)
  case (Some t)
  then have "pwf t" "small t" "u \<in> subtries t"
    using assms small_root_small by (simp_all add: proot_wf_def)
  then show ?thesis by (rule subtries_wf)
qed (use assms in simp)

lemma collision_free_subs:
  assumes "no_collisions k (subs c \<union> subs d)" "proot_wf c" "small_root c" "proot_wf d" "small_root d"
  shows "collision_free k (subs c \<union> subs d)"
proof (rule collision_freeI)
  show "length (k bs) = 32" for bs using assms(1) by (simp add: no_collisions_def)
  show "pwf t \<and> small t" if "t \<in> subs c \<union> subs d" for t using subs_wf assms that by blast
qed (use assms(1) in \<open>simp add: no_collisions_def\<close>)

section \<open>Lookup\<close>

lemma length_from_bytes [simp]: "length (from_bytes bs) = 2 * length bs + 1"
proof -
  have "length (concat (map (\<lambda>byte. [drop_bit 4 byte AND 0x0F, byte AND 0x0F]) bs)) = 2 * length bs"
    by (induction bs) auto
  then show ?thesis by (simp add: from_bytes_def from_raw_def)
qed

lemma trie_get_represents:
  assumes "represents k tr c" "\<And>bs. length (k bs) = 32" "2 * length path + 1 < fuel"
  shows "trie_get fuel tr path = Ok (pget_opt c (from_bytes path))"
proof (cases c)
  case None
  then show ?thesis using assms(1) by (simp add: trie_get_def represents_def)
next
  case (Some t)
  have r: "t_root tr = Some (hash_of k t)" "pwf t" "small t" "\<forall>u \<in> subtries t. held k (t_state tr) u"
    using assms(1) Some small_root_small by (auto simp: represents_def proot_wf_def)
  then have "valid_node (node_of k u)" if "u \<in> subtries t" for u
    using valid_node_of assms(2) subtries_wf that by blast
  then have "node_get fuel (t_state tr) (node_of k t) (from_bytes path) = Ok (pget t (from_bytes path))"
    using r assms(3) by (intro node_get_refines) (auto simp: subtries_def)
  moreover have "held k (t_state tr) t" using r(4) by simp
  ultimately show ?thesis using r(1) Some by (simp add: trie_get_def fetch_held)
qed

section \<open>Insertion\<close>

lemma small_root_insert:
  assumes "proot_wf c" "small_root c" "v \<noteq> []" "length path < 2 ^ 57" "length v < 2 ^ 59"
  shows "small_root (proot_insert c (from_bytes path) v)"
proof -
  have "pget_opt (proot_insert c (from_bytes path) v) q = (if q = from_bytes path then Some v else pget_opt c q)"
    if "key_path q" for q using ptries.get_ins [of c "from_bytes path" q v] assms(1,3) that by simp
  then show ?thesis using assms(2,4,5) by (auto simp: small_root_def split: if_splits)
qed

lemma on_state_simps: "on_state m tr = (fst (m (t_state tr)), tr\<lparr>t_state := snd (m (t_state tr))\<rparr>)"
  by (simp add: on_state_def split_beta)

lemma represents_put:
  assumes cf: "collision_free k U" and t: "pwf t" "small_root (Some t)" "subtries t \<subseteq> U"
    and h: "\<forall>u \<in> below t. held k st u" "hashed_cache st"
    and tr: "t_root tr = Some (hash_of k t)" "t_state tr = put k t st"
  shows "represents k tr (Some t)"
proof -
  have "t \<in> U" "below t \<subseteq> U" using t(3) by (auto simp: subtries_def)
  then have "\<forall>u \<in> subtries t. held k (put k t st) u"
    using put_held(1,3) [OF cf] h by (auto simp: subtries_def)
  then show ?thesis using t tr h(2) hashed_cache_put by (simp add: represents_def proot_wf_def)
qed

lemma trie_insert_represents:
  assumes r: "represents k tr c" and v: "v \<noteq> []" "length v < 2 ^ 59" "length path < 2 ^ 57"
    and nc: "no_collisions k (subs c \<union> subs (proot_insert c (from_bytes path) v))"
    and fuel: "2 * length path + 1 < fuel"
  shows "fst (trie_insert k fuel path v tr) = Ok () \<and>
    represents k (snd (trie_insert k fuel path v tr)) (proot_insert c (from_bytes path) v)"
proof -
  let ?q = "from_bytes path" and ?d = "proot_insert c (from_bytes path) v"
  have c: "proot_wf c" "small_root c" "t_root tr = map_option (hash_of k) c"
    "\<forall>u \<in> subs c. held k (t_state tr) u" "hashed_cache (t_state tr)"
    using r by (auto simp: represents_def)
  have d: "proot_wf ?d" "small_root ?d"
    using ptries.inv_ins [of c ?q v] small_root_insert c v by auto
  have cf: "collision_free k (subs c \<union> subs ?d)" using collision_free_subs nc c d by blast
  show ?thesis
  proof (cases c)
    case None
    let ?tr = "snd (trie_insert k fuel path v tr)"
    have e: "fst (trie_insert k fuel path v tr) = Ok ()" "t_root ?tr = Some (hash_of k (PLeaf ?q v))"
      "t_state ?tr = put k (PLeaf ?q v) (t_state tr)"
      using None c(3)
      by (simp_all add: trie_insert_def root_node_def sbind_def sm_steps on_state_simps new_leaf_node_def)
    have "represents k ?tr (Some (PLeaf ?q v))"
      using None d e(2,3) c(5) by (intro represents_put [OF cf]) (auto simp: proot_insert_def proot_wf_def)
    then show ?thesis using None e(1) by (simp add: proot_insert_def)
  next
    case (Some t)
    let ?t = "pinsert t ?q v" and ?U = "subs c \<union> subs ?d"
    let ?res = "node_insert k fuel (node_of k t) ?q v (t_state tr)"
    have u: "subtries t \<subseteq> ?U" "subtries ?t \<subseteq> ?U" "?d = Some ?t"
      using Some by (auto simp: proot_insert_def)
    have t: "pwf t" "\<forall>u \<in> below t. held k (t_state tr) u" "held k (t_state tr) t"
      using c Some by (auto simp: proot_wf_def subtries_def)
    have ok: "ins_ok k ?U (t_state tr) ?t ?res"
      using t u fuel v by (intro node_insert_refines [OF cf]) (auto simp: subtries_def)
    let ?tr = "snd (trie_insert k fuel path v tr)"
    obtain st where st: "?res = (Ok (node_of k ?t), st)" using ins_ok_result [OF ok] by blast
    then have e: "fst (trie_insert k fuel path v tr) = Ok ()" "t_root ?tr = Some (hash_of k ?t)"
      "t_state ?tr = put k ?t st"
      using Some c(3) t(3)
      by (simp_all add: trie_insert_def root_node_def sbind_def sm_steps on_state_simps held_def
          insert_self_put)
    have "represents k ?tr (Some ?t)"
      using d u ok e(2,3) st c(5)
      by (intro represents_put [OF cf]) (auto simp: proot_wf_def ins_ok_def keeps_def)
    then show ?thesis using e(1) u(3) by simp
  qed
qed

section \<open>Removal\<close>

lemma small_root_remove:
  assumes "proot_wf c" "small_root c" "key_path q"
  shows "small_root (proot_remove c q)"
proof -
  have "pget_opt (proot_remove c q) r = (if r = q then None else pget_opt c r)" if "key_path r" for r
    using ptries.get_rem [of c q r] assms that by simp
  then show ?thesis using assms(2) by (auto simp: small_root_def split: if_splits)
qed

lemma trie_remove_represents:
  assumes r: "represents k tr c"
    and nc: "no_collisions k (subs c \<union> subs (proot_remove c (from_bytes path)))"
    and fuel: "2 * length path + 1 < fuel"
  shows "fst (trie_remove k fuel path tr) = Ok (pget_opt c (from_bytes path)) \<and>
    represents k (snd (trie_remove k fuel path tr)) (proot_remove c (from_bytes path))"
proof -
  let ?q = "from_bytes path" and ?d = "proot_remove c (from_bytes path)"
  have c: "proot_wf c" "small_root c" "t_root tr = map_option (hash_of k) c"
    "\<forall>u \<in> subs c. held k (t_state tr) u" "hashed_cache (t_state tr)"
    using r by (auto simp: represents_def)
  have d: "proot_wf ?d" "small_root ?d"
    using ptries.inv_rem [of c ?q] small_root_remove c by auto
  have cf: "collision_free k (subs c \<union> subs ?d)" using collision_free_subs nc c d by blast
  show ?thesis
  proof (cases c)
    case None
    then show ?thesis using c(3,5)
      by (simp add: trie_remove_def sbind_def sm_steps proot_remove_def represents_def proot_wf_def)
  next
    case (Some t)
    let ?U = "subs c \<union> subs ?d" and ?p = "premove t ?q"
    let ?res = "node_remove k fuel (node_of k t) ?q (t_state tr)"
    have u: "subtries t \<subseteq> ?U" "?d = fst ?p" using Some by (auto simp: proot_remove_def)
    have t: "pwf t" "\<forall>u \<in> below t. held k (t_state tr) u" "held k (t_state tr) t"
      using c Some by (auto simp: proot_wf_def subtries_def)
    have ok: "rem_ok k ?U (t_state tr) ?p ?res"
      using t u fuel by (intro node_remove_refines [OF cf]) (auto simp: subtries_def)
    have old: "snd ?p = pget t ?q" using premove_removes [OF t(1), of ?q] by (simp add: removes_def)
    obtain st where st: "?res = (Ok (map_option (node_of k) (fst ?p), snd ?p), st)"
      using rem_ok_result [OF ok] by blast
    let ?tr = "snd (trie_remove k fuel path tr)"
    show ?thesis
    proof (cases "fst ?p")
      case None
      then show ?thesis using Some st c(3,5) t(3) u(2) old ok
        by (simp add: trie_remove_def sbind_def sm_steps on_state_simps fetch_m_held represents_def
            proot_wf_def rem_ok_def keeps_def)
    next
      case s: (Some x)
      have e: "fst (trie_remove k fuel path tr) = Ok (snd ?p)" "t_root ?tr = Some (hash_of k x)"
        "t_state ?tr = put k x st"
        using Some s st c(3) t(3)
        by (simp_all add: trie_remove_def sbind_def sm_steps on_state_simps fetch_m_held insert_self_put)
      have "represents k ?tr (Some x)"
        using d u s ok e(2,3) st c(5)
        by (intro represents_put [OF cf]) (auto simp: proot_wf_def rem_ok_def keeps_def)
      then show ?thesis using e(1) u(2) s old Some by simp
    qed
  qed
qed

section \<open>The root hash is a function of the contents\<close>

lemma represents_unique:
  assumes "represents k tr c" "represents k tr' d"
    and "\<And>path. pget_opt c (from_bytes path) = pget_opt d (from_bytes path)"
  shows "c = d"
proof (rule proot_unique)
  show "proot_wf c" "proot_wf d" using assms(1,2) by (auto simp: represents_def)
  fix q
  assume q: "key_path q"
  have "pget_opt c q = None" "pget_opt d q = None" if "\<nexists>path. q = from_bytes path"
    using assms(1,2) that q by (cases "pget_opt c q"; cases "pget_opt d q";
        auto simp: represents_def small_root_def)+
  then show "pget_opt c q = pget_opt d q" using assms(3) by metis
qed

lemma hash_represents: "represents k tr c \<Longrightarrow>
    hash_no_commit k tr = (case c of None \<Rightarrow> EMPTY_TRIE_HASH k | Some t \<Rightarrow> finalize k (hash_of k t))"
  by (auto simp: represents_def hash_no_commit_def split: option.split)

end
