(* ===== verification/Trie_Commit.thy ===== *)
theory Trie_Commit
  imports Trie_Correct
begin

text \<open>
  Committing the cache: \<^verbatim>\<open>TrieState::commit\<close> writes every node of the trie that the database
  lacks, so a committed trie can be opened again from its root hash.
\<close>

section \<open>Equal hashes mean equal tries\<close>

lemma collision_free_sub: "collision_free k U \<Longrightarrow> subtries t \<subseteq> U \<Longrightarrow> valid_node (node_of k t)"
  by (meson collision_free_valid self_in_subtries subsetD)

lemma hash_eq_trie:
  assumes cf: "collision_free k U"
  shows "\<lbrakk> subtries t \<subseteq> U; subtries u \<subseteq> U; hash_of k t = hash_of k u \<rbrakk> \<Longrightarrow> t = u"
proof (induction t arbitrary: u)
  case (PLeaf p v)
  then have "node_of k (PLeaf p v) = node_of k u"
    using collision_free_node [OF cf] by (meson self_in_subtries subsetD)
  then show ?case by (cases u) auto
next
  case (PExt p t)
  then have "node_of k (PExt p t) = node_of k u"
    using collision_free_node [OF cf] by (meson self_in_subtries subsetD)
  then obtain x where "u = PExt p x" "hash_of k t = hash_of k x" by (cases u) auto
  then show ?case using PExt by (auto simp: subtries_def)
next
  case (PBranch ts v)
  then have "node_of k (PBranch ts v) = node_of k u"
    using collision_free_node [OF cf] by (meson self_in_subtries subsetD)
  then obtain us where u: "u = PBranch us v" and e: "map (child_hash k) ts = map (child_hash k) us"
    by (cases u) auto
  have "ts ! i = us ! i" if i: "i < length ts" for i
  proof -
    have l: "length us = length ts" using e by (metis length_map)
    have h: "child_hash k (ts ! i) = child_hash k (us ! i)" using e i l by (metis nth_map)
    have sub: "subtries x \<subseteq> U" if x: "ts ! i = Some x \<or> us ! i = Some x" for x
      using subtries_nth [of i ts x v] subtries_nth [of i us x v] x i l PBranch.prems(1,2) u
      by (auto simp: subtries_def)
    then have "is_valid (hash_of k x)" if "ts ! i = Some x \<or> us ! i = Some x" for x
      using that hash_of_valid collision_free_sub [OF cf] by blast
    then have "ts ! i = None \<longleftrightarrow> us ! i = None"
      using h by (cases "ts ! i"; cases "us ! i") fastforce+
    then consider "ts ! i = us ! i" | x y where "ts ! i = Some x" "us ! i = Some y" by fastforce
    then show ?thesis
    proof cases
      case 2
      have "Some x \<in> set ts" using 2(1) i nth_mem by metis
      moreover have "subtries x \<subseteq> U" "subtries y \<subseteq> U" using sub 2 by blast+
      moreover have "hash_of k x = hash_of k y" using h 2 by simp
      ultimately have "x = y" using PBranch.IH [of "Some x" x y] by simp
      then show ?thesis using 2 by simp
    qed
  qed
  moreover have "length ts = length us" using e by (metis length_map)
  ultimately show ?case using u by (simp add: list_eq_iff_nth_eq)
qed

lemma size_below: "u \<in> below t \<Longrightarrow> size u < size t"
proof (induction t)
  case (PExt p t)
  then show ?case by auto
next
  case (PBranch ts v)
  then obtain t where t: "Some t \<in> set ts" "u \<in> subtries t" by (auto simp: below_PBranch)
  then have "size t < size (PBranch ts v)" using size_child_mem [of t ts] by simp
  moreover have "size u \<le> size t" using t PBranch.IH [of "Some t" t] by (auto simp: subtries_def)
  ultimately show ?case by simp
qed simp

lemma subtries_trans: "u \<in> subtries t \<Longrightarrow> subtries u \<subseteq> subtries t"
proof (induction t)
  case (PBranch ts v)
  show ?case
  proof (cases "u = PBranch ts v")
    case False
    then obtain t where t: "Some t \<in> set ts" "u \<in> subtries t"
      using PBranch.prems by (auto simp: subtries_def below_PBranch)
    then have "subtries u \<subseteq> subtries t" using PBranch.IH [of "Some t" t] by simp
    then show ?thesis using subtries_child [OF t(1), of v] by (auto simp: subtries_def)
  qed simp
qed (auto simp: subtries_def)

section \<open>Inlined nodes have inlined children\<close>

lemma encode_bytes_32: "length h = 32 \<Longrightarrow> length (encode_bytes h) = 33"
  by (simp add: encode_bytes_def length_prefix_def)

lemma sum_list_elem: "x \<in> set xs \<Longrightarrow> x \<le> sum_list (xs :: nat list)"
  by (rule member_le_sum_list) auto

lemma child_item_hashed:
  assumes "valid_node n" "Hashed h \<in> set (case n of Branch b \<Rightarrow> branch_choices b
      | Extension e \<Rightarrow> [ext_child e] | Leaf l \<Rightarrow> [])"
  shows "32 \<le> length (encode_raw_node n)"
proof -
  have "valid_child (Hashed h)" using assms by (cases n) auto
  then have v: "length h = 32" by simp
  have "child_item (Hashed h) \<in> set (node_items n)"
    using assms by (cases n) (auto simp del: child_item.simps)
  then have "encode_bytes h \<in> set (node_items n)" by simp
  then have "33 \<in> set (map length (node_items n))" using encode_bytes_32 [OF v] by (metis image_eqI list.set_map)
  then have "33 \<le> length (concat (node_items n))" using sum_list_elem by (metis length_concat)
  then show ?thesis by (simp add: encode_raw_node_items [OF assms(1)])
qed

lemma inline_child:
  assumes "valid_node (node_of k (PExt p t))" "hash_of k (PExt p t) = Inline e"
  shows "\<exists>e. hash_of k t = Inline e"
proof (cases "hash_of k t")
  case (Hashed h)
  then have "32 \<le> length (encode_raw_node (node_of k (PExt p t)))"
    using assms(1) by (intro child_item_hashed [of _ h]) auto
  then show ?thesis using assms(2) by (auto simp: hash_of_def compute_hash_def from_encoded_raw_def)
qed simp

lemma inline_branch_child:
  assumes "valid_node (node_of k (PBranch ts v))" "hash_of k (PBranch ts v) = Inline e" "Some t \<in> set ts"
  shows "\<exists>e. hash_of k t = Inline e"
proof (cases "hash_of k t")
  case (Hashed h)
  then have "Hashed h \<in> set (map (child_hash k) ts)" using assms(3) by (force intro!: rev_image_eqI)
  then have "32 \<le> length (encode_raw_node (node_of k (PBranch ts v)))"
    using assms(1) by (intro child_item_hashed [of _ h]) auto
  then show ?thesis using assms(2) by (auto simp: hash_of_def compute_hash_def from_encoded_raw_def)
qed simp

lemma inline_subtries:
  assumes cf: "collision_free k U"
  shows "\<lbrakk> subtries t \<subseteq> U; hash_of k t = Inline e; u \<in> subtries t \<rbrakk> \<Longrightarrow> \<exists>e. hash_of k u = Inline e"
proof (induction t arbitrary: e)
  case (PLeaf p v)
  then show ?case by (simp add: subtries_def)
next
  case (PExt p t)
  have "valid_node (node_of k (PExt p t))" using PExt.prems(1) by (rule collision_free_sub [OF cf])
  then obtain e' where "hash_of k t = Inline e'" using inline_child PExt.prems(2) by blast
  then show ?case using PExt by (auto simp: subtries_def)
next
  case (PBranch ts v)
  show ?case
  proof (cases "u = PBranch ts v")
    case False
    then obtain t where t: "Some t \<in> set ts" "u \<in> subtries t"
      using PBranch.prems(3) by (auto simp: subtries_def below_PBranch)
    have "valid_node (node_of k (PBranch ts v))" using PBranch.prems(1) by (rule collision_free_sub [OF cf])
    then obtain e' where "hash_of k t = Inline e'" using inline_branch_child PBranch.prems(2) t(1) by blast
    moreover have "subtries t \<subseteq> U"
      using PBranch.prems(1) subtries_child [OF t(1), of v] by (auto simp: subtries_def)
    ultimately show ?thesis using PBranch.IH [of "Some t" t e'] t by simp
  qed (use PBranch.prems in blast)
qed

section \<open>The walk of \<^verbatim>\<open>commit_node_tail_recursive\<close>\<close>

text \<open>
  While the walk runs, a node of the trie is still in the cache, or it and everything below it is
  written (in the database before, or in the batch), or it is one of the ancestors \<open>A\<close> of the
  current node, which are taken out of the cache and written last.
\<close>

definition covered :: "(bytes \<Rightarrow> bytes) \<Rightarrow> trie_db \<Rightarrow> (bytes \<times> bytes) list \<Rightarrow> ptrie \<Rightarrow> bool" where
  "covered k d acc x \<longleftrightarrow>
     (\<forall>h. hash_of k x = Hashed h \<longrightarrow>
        (h, encode_node (node_of k x)) \<in> set acc \<or> db_get d h = Ok (Some (encode_node (node_of k x))))"

definition written :: "(bytes \<Rightarrow> bytes) \<Rightarrow> trie_db \<Rightarrow> (bytes \<times> bytes) list \<Rightarrow> ptrie \<Rightarrow> bool" where
  "written k d acc t \<longleftrightarrow> (\<forall>x \<in> subtries t. covered k d acc x)"

definition commit_inv ::
  "(bytes \<Rightarrow> bytes) \<Rightarrow> ptrie set \<Rightarrow> trie_db \<Rightarrow> ptrie set \<Rightarrow> commit_state \<Rightarrow> bool" where
  "commit_inv k U d A s \<longleftrightarrow>
     st_db (fst s) = d \<and> hashed_cache (fst s) \<and>
     (\<forall>x \<in> U. x \<in> A \<or> st_cache (fst s) (hash_of k x) = Some (node_of k x) \<or> written k d (snd s) x) \<and>
     (\<forall>x \<in> U. \<forall>n. st_cache (fst s) (hash_of k x) = Some n \<longrightarrow> n = node_of k x) \<and>
     (\<forall>(h, e) \<in> set (snd s). \<exists>x \<in> U. hash_of k x = Hashed h \<and> e = encode_node (node_of k x))"

definition visits ::
  "(bytes \<Rightarrow> bytes) \<Rightarrow> ptrie set \<Rightarrow> trie_db \<Rightarrow> ptrie set \<Rightarrow> commit_state \<Rightarrow>
     (commit_state, trie_error) result \<Rightarrow> ptrie set \<Rightarrow> bool" where
  "visits k U d A s res B \<longleftrightarrow>
     (\<exists>s'. res = Ok s' \<and> commit_inv k U d A s' \<and> set (snd s) \<subseteq> set (snd s') \<and>
        (\<forall>t \<in> B. written k d (snd s') t))"

lemma commit_inv_cases:
  assumes "commit_inv k U d A s" "x \<in> U"
  shows "x \<in> A \<or> st_cache (fst s) (hash_of k x) = Some (node_of k x) \<or> written k d (snd s) x"
    "st_cache (fst s) (hash_of k x) = Some n \<Longrightarrow> n = node_of k x"
  using assms unfolding commit_inv_def by blast+

lemma commit_inv_hashed: "commit_inv k U d A s \<Longrightarrow> st_cache (fst s) (Inline e) = None"
  unfolding commit_inv_def hashed_cache_def by blast

lemma written_mono: "written k d acc t \<Longrightarrow> set acc \<subseteq> set acc' \<Longrightarrow> written k d acc' t"
  by (auto simp: written_def covered_def)

lemma visits_children:
  assumes "\<And>t s. Some t \<in> set ts \<Longrightarrow> commit_inv k U d A s \<Longrightarrow> visits k U d A s (rec (hash_of k t) s) {t}"
    and "\<And>t. Some t \<in> set ts \<Longrightarrow> is_valid (hash_of k t)" "commit_inv k U d A s"
  shows "visits k U d A s (commit_children rec (map (child_hash k) ts) s) {t. Some t \<in> set ts}"
  using assms
proof (induction ts arbitrary: s)
  case Nil
  then show ?case by (simp add: visits_def)
next
  case (Cons c ts)
  obtain s1 where s1: "(if is_valid (child_hash k c) then rec (child_hash k c) s else Ok s) = Ok s1"
    "commit_inv k U d A s1" "set (snd s) \<subseteq> set (snd s1)" "\<And>t. c = Some t \<Longrightarrow> written k d (snd s1) t"
  proof (cases c)
    case None
    then show ?thesis using Cons.prems(3) that [of s] by simp
  next
    case (Some t)
    then have "visits k U d A s (rec (hash_of k t) s) {t}" "is_valid (hash_of k t)"
      using Cons.prems by auto
    then show ?thesis using Some that by (auto simp: visits_def)
  qed
  have "visits k U d A s1 (commit_children rec (map (child_hash k) ts) s1) {t. Some t \<in> set ts}"
    using Cons.IH [of s1] Cons.prems(1,2) s1(2) by simp
  then obtain s2 where s2: "commit_children rec (map (child_hash k) ts) s1 = Ok s2"
    "commit_inv k U d A s2" "set (snd s1) \<subseteq> set (snd s2)"
    "\<forall>t \<in> {t. Some t \<in> set ts}. written k d (snd s2) t" by (auto simp: visits_def)
  have "written k d (snd s2) t" if "Some t \<in> set (c # ts)" for t
    using that s1(4) s2(3,4) written_mono by (metis mem_Collect_eq set_ConsD)
  then show ?case using s1 s2 by (auto simp: visits_def)
qed

lemma commit_inv_remove:
  assumes cf: "collision_free k V" and U: "\<And>x. x \<in> U \<Longrightarrow> subtries x \<subseteq> V" "t \<in> U"
    and inv: "commit_inv k U d A s"
  shows "commit_inv k U d (insert t A)
    ((fst s)\<lparr>st_cache := (st_cache (fst s))(hash_of k t := None)\<rparr>, snd s)"
proof -
  have "hash_of k x \<noteq> hash_of k t" if "x \<in> U" "x \<noteq> t" for x
    using hash_eq_trie [OF cf] U that by blast
  then show ?thesis using inv by (auto simp: commit_inv_def hashed_cache_def)
qed

lemma commit_inv_push:
  assumes inv: "commit_inv k U d (insert t A) s" and t: "t \<in> U" "hash_of k t = Hashed h"
    and w: "\<forall>x \<in> below t. covered k d (snd s) x"
  shows "commit_inv k U d A (fst s, snd s @ [(h, encode_node (node_of k t))])"
    "written k d (snd s @ [(h, encode_node (node_of k t))]) t"
proof -
  show wt: "written k d (snd s @ [(h, encode_node (node_of k t))]) t"
    using w t(2) by (auto simp: written_def covered_def subtries_def)
  have "x \<in> A \<or> st_cache (fst s) (hash_of k x) = Some (node_of k x) \<or>
      written k d (snd s @ [(h, encode_node (node_of k t))]) x" if x: "x \<in> U" for x
  proof -
    have "x \<in> insert t A \<or> st_cache (fst s) (hash_of k x) = Some (node_of k x) \<or> written k d (snd s) x"
      using commit_inv_cases(1) [OF inv x] .
    then show ?thesis using wt written_mono [of k d "snd s" x "snd s @ [(h, encode_node (node_of k t))]"]
      by auto
  qed
  then show "commit_inv k U d A (fst s, snd s @ [(h, encode_node (node_of k t))])"
    using inv t by (auto simp: commit_inv_def)
qed

lemma below_written:
  "(\<forall>u \<in> B. written k d acc u) \<Longrightarrow> below t \<subseteq> (\<Union>u \<in> B. subtries u) \<Longrightarrow> \<forall>x \<in> below t. covered k d acc x"
  by (auto simp: written_def)

lemma commit_visits:
  assumes cf: "collision_free k U" and closed: "\<And>x. x \<in> U \<Longrightarrow> subtries x \<subseteq> U"
  shows "\<lbrakk> t \<in> U; subtries t \<inter> A = {}; commit_inv k U d A s; size t < fuel \<rbrakk> \<Longrightarrow>
    visits k U d A s (commit_node_tail_recursive fuel (hash_of k t) s) {t}"
proof (induction fuel arbitrary: t A s)
  case (Suc f)
  have tA: "t \<notin> A" using Suc.prems(2) by (auto simp: subtries_def)
  show ?case
  proof (cases "st_cache (fst s) (hash_of k t)")
    case None
    then have "written k d (snd s) t" using commit_inv_cases(1) [OF Suc.prems(3,1)] tA by simp
    then show ?thesis using None Suc.prems(3) by (simp add: visits_def)
  next
    case (Some n)
    then have n: "n = node_of k t" by (rule commit_inv_cases(2) [OF Suc.prems(3,1)])
    obtain h where h: "hash_of k t = Hashed h"
      using Some commit_inv_hashed [OF Suc.prems(3)] by (cases "hash_of k t") auto
    let ?s = "((fst s)\<lparr>st_cache := (st_cache (fst s))(hash_of k t := None)\<rparr>, snd s)"
    let ?rec = "commit_node_tail_recursive f"
    have inv: "commit_inv k U d (insert t A) ?s"
      using commit_inv_remove [OF cf closed] Suc.prems(1,3) by blast
    have child: "visits k U d (insert t A) s' (?rec (hash_of k u) s') {u}"
      if "u \<in> below t" "commit_inv k U d (insert t A) s'" for u s'
    proof (rule Suc.IH [OF _ _ that(2)])
      have u: "subtries u \<subseteq> subtries t" using that(1) by (intro subtries_trans) (simp add: subtries_def)
      then show "u \<in> U" using closed [OF Suc.prems(1)] by (meson self_in_subtries subsetD)
      have "t \<notin> subtries u" using size_below [OF that(1)] size_below [of t u] by (auto simp: subtries_def)
      then show "subtries u \<inter> insert t A = {}" using u Suc.prems(2) by blast
      show "size u < f" using size_below [OF that(1)] Suc.prems(4) by simp
    qed
    define body where "body = (case n of
        Branch b \<Rightarrow> commit_children ?rec (branch_choices b) ?s
      | Extension e \<Rightarrow> ?rec (ext_child e) ?s
      | Leaf l \<Rightarrow> Ok ?s)"
    have "\<exists>B. visits k U d (insert t A) ?s body B \<and> below t \<subseteq> (\<Union>u \<in> B. subtries u)"
    proof (cases t)
      case (PLeaf p v)
      then have "visits k U d (insert t A) ?s body {}" using inv n by (simp add: body_def visits_def)
      then show ?thesis using PLeaf by auto
    next
      case (PExt p u)
      then have "visits k U d (insert t A) ?s body {u}" using child [of u, OF _ inv] n by (simp add: body_def)
      then show ?thesis using PExt by (auto simp: subtries_def)
    next
      case (PBranch ts v)
      have m: "u \<in> below t" if "Some u \<in> set ts" for u
        using subtries_child [OF that, of v] PBranch by (auto simp: subtries_def)
      have "is_valid (hash_of k u)" if "Some u \<in> set ts" for u
        using m [OF that] closed [OF Suc.prems(1)] collision_free_valid [OF cf, of u] hash_of_valid
        by (auto simp: subtries_def)
      then have "visits k U d (insert t A) ?s body {u. Some u \<in> set ts}"
        using visits_children [of ts k U d "insert t A" ?rec, OF child _ inv] m n PBranch
        by (simp add: body_def)
      then show ?thesis using PBranch by (auto simp: below_PBranch)
    qed
    then obtain B s2 where B: "body = Ok s2" "commit_inv k U d (insert t A) s2"
      "set (snd s) \<subseteq> set (snd s2)" "\<forall>u \<in> B. written k d (snd s2) u" "below t \<subseteq> (\<Union>u \<in> B. subtries u)"
      by (auto simp: visits_def)
    note push = commit_inv_push [OF B(2) Suc.prems(1) h below_written [OF B(4,5)]]
    have "commit_node_tail_recursive (Suc f) (hash_of k t) s =
        rbind body (\<lambda>s2. Ok (fst s2, snd s2 @ [(node_hash_bytes (hash_of k t), encode_node n)]))"
      using Some by (simp add: body_def Let_def)
    then have "commit_node_tail_recursive (Suc f) (hash_of k t) s =
        Ok (fst s2, snd s2 @ [(h, encode_node (node_of k t))])"
      by (simp add: B(1) h n)
    then show ?thesis using push B(3) by (auto simp: visits_def)
  qed
qed simp

section \<open>The database after a commit\<close>

lemma db_put_batch_get:
  "db_get (InMemoryTrieDB (foldl (\<lambda>m (k, v). m(k \<mapsto> v)) m kvs)) h =
     Ok (case map_of (rev kvs) h of None \<Rightarrow> m h | Some v \<Rightarrow> Some v)"
  by (induction kvs arbitrary: m) (auto simp: split_beta split: option.split)

lemma in_db_after:
  assumes cf: "collision_free k U" and x: "x \<in> U" and c: "covered k (InMemoryTrieDB m) acc x"
    and e: "\<forall>(h, e) \<in> set acc. \<exists>y \<in> U. hash_of k y = Hashed h \<and> e = encode_node (node_of k y)"
  shows "in_db k (db_put_batch (InMemoryTrieDB m) acc) x"
  unfolding in_db_def
proof (intro allI impI)
  fix h
  assume h: "hash_of k x = Hashed h"
  show "db_get (db_put_batch (InMemoryTrieDB m) acc) h = Ok (Some (encode_node (node_of k x)))"
  proof (cases "map_of (rev acc) h")
    case None
    then have "h \<notin> fst ` set acc" by (simp add: map_of_eq_None_iff)
    then have "m h = Some (encode_node (node_of k x))" using c h by (force simp: covered_def)
    then show ?thesis using None by (simp add: db_put_batch_get del: db_get.simps)
  next
    case (Some v)
    then have "(h, v) \<in> set acc" by (metis map_of_SomeD set_rev)
    then obtain y where "y \<in> U" "hash_of k y = Hashed h" "v = encode_node (node_of k y)" using e by fastforce
    then have "v = encode_node (node_of k x)" using collision_free_node [OF cf _ x] h by metis
    then show ?thesis using Some by (simp add: db_put_batch_get del: db_get.simps)
  qed
qed

lemma held_in_db:
  assumes "valid_node (node_of k x)" "\<And>y. y \<in> subtries x \<Longrightarrow> in_db k d y"
  shows "held k \<lparr>st_db = d, st_cache = Map.empty\<rparr> x"
proof (cases "hash_of k x")
  case (Hashed h)
  then have "db_get d h = Ok (Some (encode_node (node_of k x)))" using assms(2) by (auto simp: in_db_def)
  moreover have "decode decode_node (encode_node (node_of k x)) = Ok (node_of k x)"
    using decode_node_encode_node [OF assms(1), of "[]"] by (simp add: decode_def)
  ultimately show ?thesis using Hashed assms(2) by (simp add: held_def cached_or_stored_def)
next
  case (Inline e)
  with assms(1) show ?thesis by (rule held_inline)
qed

lemma held_commit_inv:
  assumes cf: "collision_free k U" and closed: "\<And>x. x \<in> U \<Longrightarrow> subtries x \<subseteq> U"
    and h: "\<And>x. x \<in> U \<Longrightarrow> held k st x" and c: "hashed_cache st"
  shows "commit_inv k U (st_db st) {} (st, [])"
proof -
  have "st_cache st (hash_of k x) = Some (node_of k x) \<or> written k (st_db st) [] x" if x: "x \<in> U" for x
  proof (cases "hash_of k x")
    case (Inline e)
    then have "written k (st_db st) [] x"
      using inline_subtries [OF cf closed [OF x]] by (fastforce simp: written_def covered_def)
    then show ?thesis ..
  next
    case (Hashed y)
    then show ?thesis
      using h [OF x] by (auto simp: held_def cached_or_stored_def written_def covered_def in_db_def)
  qed
  moreover have "n = node_of k x" if "x \<in> U" "st_cache st (hash_of k x) = Some n" for x n
    using h [OF that(1)] that(2) c
    by (cases "hash_of k x") (auto simp: held_def hashed_cache_def)
  ultimately show ?thesis using c by (auto simp: commit_inv_def)
qed

lemma commit_stores:
  assumes r: "represents k tr (Some t)" and nc: "no_collisions k (subtries t)"
    and d: "st_db (t_state tr) = InMemoryTrieDB m" and fuel: "size t < fuel"
  shows "\<exists>m'. commit fuel (hash_of k t) (t_state tr) =
      Ok \<lparr>st_db = InMemoryTrieDB m', st_cache = Map.empty\<rparr> \<and>
    (\<forall>x \<in> subtries t. in_db k (InMemoryTrieDB m') x)"
proof -
  let ?U = "subtries t"
  have w: "proot_wf (Some t)" "small_root (Some t)" "hashed_cache (t_state tr)"
    "\<And>x. x \<in> ?U \<Longrightarrow> held k (t_state tr) x" using r by (auto simp: represents_def)
  have cf: "collision_free k ?U" using collision_free_subs [of k "Some t" "Some t"] nc w by simp
  have closed: "\<And>x. x \<in> ?U \<Longrightarrow> subtries x \<subseteq> ?U" by (rule subtries_trans)
  have inv: "commit_inv k ?U (InMemoryTrieDB m) {} (t_state tr, [])"
    using held_commit_inv [OF cf closed w(4,3)] d by simp
  have "visits k ?U (InMemoryTrieDB m) {} (t_state tr, [])
      (commit_node_tail_recursive fuel (hash_of k t) (t_state tr, [])) {t}"
    using inv fuel by (intro commit_visits [OF cf closed]) auto
  then obtain s where s: "commit_node_tail_recursive fuel (hash_of k t) (t_state tr, []) = Ok s"
    "commit_inv k ?U (InMemoryTrieDB m) {} s" "written k (InMemoryTrieDB m) (snd s) t"
    by (auto simp: visits_def)
  have db: "st_db (fst s) = InMemoryTrieDB m"
    and e: "\<forall>(h, e) \<in> set (snd s). \<exists>y \<in> ?U. hash_of k y = Hashed h \<and> e = encode_node (node_of k y)"
    using s(2) unfolding commit_inv_def by blast+
  have "in_db k (db_put_batch (InMemoryTrieDB m) (snd s)) x" if x: "x \<in> ?U" for x
    using in_db_after [OF cf x _ e] s(3) x by (auto simp: written_def)
  moreover have "commit fuel (hash_of k t) (t_state tr) =
      Ok \<lparr>st_db = db_put_batch (InMemoryTrieDB m) (snd s), st_cache = Map.empty\<rparr>"
    using s(1) db by (cases s) (simp add: commit_def commit_node_def)
  ultimately show ?thesis by auto
qed

lemma trie_hash_represents:
  assumes r: "represents k tr (Some t)" and nc: "no_collisions k (subtries t)"
    and d: "st_db (t_state tr) = InMemoryTrieDB m" and fuel: "size t < fuel"
  shows "\<exists>tr' m'. trie_hash k fuel tr = Ok (hash_no_commit k tr, tr') \<and> represents k tr' (Some t) \<and>
    t_state tr' = trie_state_new (InMemoryTrieDB m') \<and> t_root tr' = t_root tr"
proof -
  obtain m' where m: "commit fuel (hash_of k t) (t_state tr) =
      Ok \<lparr>st_db = InMemoryTrieDB m', st_cache = Map.empty\<rparr>" "\<forall>x \<in> subtries t. in_db k (InMemoryTrieDB m') x"
    using commit_stores [OF assms] by blast
  have w: "t_root tr = Some (hash_of k t)" "pwf t" "small_root (Some t)"
    using r by (auto simp: represents_def proot_wf_def)
  let ?tr = "tr\<lparr>t_state := \<lparr>st_db = InMemoryTrieDB m', st_cache = Map.empty\<rparr>\<rparr>"
  have "held k (t_state ?tr) x" if x: "x \<in> subtries t" for x
  proof -
    have "valid_node (node_of k x)"
      using valid_node_of [of k x] subtries_wf [OF w(2) small_root_small [OF w(3)] x] nc
      by (auto simp: no_collisions_def)
    moreover have "in_db k (InMemoryTrieDB m') y" if "y \<in> subtries x" for y
      using m(2) subtries_trans [OF x] that by blast
    ultimately show ?thesis using held_in_db by simp
  qed
  then have "represents k ?tr (Some t)"
    using w by (simp add: represents_def proot_wf_def hashed_cache_def)
  moreover have "trie_hash k fuel tr = Ok (hash_no_commit k tr, ?tr)"
    using m(1) w(1) by (simp add: trie_hash_def hash_no_commit_def)
  ultimately show ?thesis by (auto simp: trie_state_new_def)
qed

lemma trie_open_represents:
  assumes "represents k tr (Some t)" "t_state tr = trie_state_new d" "hash_of k t = Hashed h"
    and "h \<noteq> EMPTY_TRIE_HASH k"
  shows "represents k (trie_open k d (hash_no_commit k tr)) (Some t)"
  using assms by (simp add: represents_def trie_open_def hash_no_commit_def)

end
