(* ===== verification/State_Logic.thy ===== *)
theory State_Logic
  imports Prelude
begin

text \<open>
  A small program logic for the stateful, fallible computations of the prelude. \<open>moves R m\<close> says
  that every run of \<open>m\<close>, successful or not, takes a state to a related one; for a preorder \<open>R\<close> it
  goes through every combinator. The locale \<open>state_order\<close> holds those rules and is interpreted for
  each relation a component keeps.
\<close>

definition moves :: "('s \<Rightarrow> 's \<Rightarrow> bool) \<Rightarrow> ('a, 'e, 's) sm \<Rightarrow> bool" where
  "moves R m \<longleftrightarrow> (\<forall>s. R s (snd (m s)))"

named_theorems moves_rules "introduction rules for moves"

lemma movesI [intro?]: "(\<And>s. R s (snd (m s))) \<Longrightarrow> moves R m"
  by (simp add: moves_def)

lemma movesD: "moves R m \<Longrightarrow> R s (snd (m s))"
  by (simp add: moves_def)

lemma snd_sbind:
  "snd (sbind m f s) = (case fst (m s) of Ok x \<Rightarrow> snd (f x (snd (m s))) | _ \<Rightarrow> snd (m s))"
  by (cases "m s") (simp add: sbind_def split: result.split)

text \<open>Case distinctions of the code, independent of the relation.\<close>

lemma moves_if [moves_rules]:
  "(b \<Longrightarrow> moves R m) \<Longrightarrow> (\<not> b \<Longrightarrow> moves R m') \<Longrightarrow> moves R (if b then m else m')"
  by simp

lemma moves_let [moves_rules]: "(\<And>x. x = v \<Longrightarrow> moves R (f x)) \<Longrightarrow> moves R (Let v f)"
  by simp

lemma moves_option [moves_rules]:
  "(c = None \<Longrightarrow> moves R m) \<Longrightarrow> (\<And>x. c = Some x \<Longrightarrow> moves R (f x)) \<Longrightarrow>
     moves R (case c of None \<Rightarrow> m | Some x \<Rightarrow> f x)"
  by (cases c) simp_all

lemma moves_prod [moves_rules]:
  "(\<And>x y. p = (x, y) \<Longrightarrow> moves R (f x y)) \<Longrightarrow> moves R (case p of (x, y) \<Rightarrow> f x y)"
  by (cases p) simp

lemma moves_bool [moves_rules]:
  "(b \<Longrightarrow> moves R m) \<Longrightarrow> (\<not> b \<Longrightarrow> moves R m') \<Longrightarrow> moves R (case b of True \<Rightarrow> m | False \<Rightarrow> m')"
  by (cases b) simp_all

lemma moves_list [moves_rules]:
  "(xs = [] \<Longrightarrow> moves R m) \<Longrightarrow> (\<And>y ys. xs = y # ys \<Longrightarrow> moves R (f y ys)) \<Longrightarrow>
     moves R (case xs of [] \<Rightarrow> m | y # ys \<Rightarrow> f y ys)"
  by (cases xs) simp_all

locale state_order =
  fixes R :: "'s \<Rightarrow> 's \<Rightarrow> bool"
  assumes same: "R s s"
    and trans: "R s t \<Longrightarrow> R t u \<Longrightarrow> R s u"
begin

lemma moves_return [moves_rules]: "moves R (sreturn x)"
  by (simp add: moves_def sm_steps same)

lemma moves_err [moves_rules]: "moves R (serr e)"
  by (simp add: moves_def sm_steps same)

lemma moves_lift [moves_rules]: "moves R (slift r)"
  by (simp add: moves_def sm_steps same)

lemma moves_get [moves_rules]: "moves R sget"
  by (simp add: moves_def sm_steps same)

lemma moves_gets [moves_rules]: "moves R (sgets g)"
  by (simp add: moves_def sm_steps same)

lemma moves_modify: "(\<And>s. R s (h s)) \<Longrightarrow> moves R (smodify h)"
  by (simp add: moves_def sm_steps)

lemma moves_bind [moves_rules]:
  assumes "moves R m" "\<And>x. moves R (f x)"
  shows "moves R (sbind m f)"
  unfolding moves_def snd_sbind using movesD [OF assms(1)] movesD [OF assms(2)]
  by (auto split: result.split intro: trans)

end

end
