(* ===== verification/Trie_Properties.thy ===== *)
theory Trie_Properties
  imports Trie_Commit State_Logic
begin

text \<open>
  What the trie promises its users, stated on the operations of \<^verbatim>\<open>trie.rs\<close>. Every property is for
  any hash function with 32-byte results that has no collision among the nodes of the tries
  involved (\<open>no_collisions\<close>), and for any fuel above one step per nibble of the path.
\<close>

section \<open>Runs of operations\<close>

text \<open>
  A client of the trie as a sequence of insertions and removals: the run on the trie of
  \<^verbatim>\<open>trie.rs\<close>, the run on the abstract tries, and the run on finite maps that specifies both.
\<close>

datatype trie_op = OpInsert bytes bytes | OpRemove bytes

primrec run_op :: "(bytes \<Rightarrow> bytes) \<Rightarrow> nat \<Rightarrow> trie_op \<Rightarrow> (bytes option, trie_error, trie) sm" where
  "run_op k fuel (OpInsert p v) = sbind (trie_insert k fuel p v) (\<lambda>_. sreturn None)"
| "run_op k fuel (OpRemove p) = trie_remove k fuel p"

primrec run_ops :: "(bytes \<Rightarrow> bytes) \<Rightarrow> nat \<Rightarrow> trie_op list \<Rightarrow> (bytes option list, trie_error, trie) sm"
where
  "run_ops k fuel [] = sreturn []"
| "run_ops k fuel (x # xs) =
     sbind (run_op k fuel x) (\<lambda>r. sbind (run_ops k fuel xs) (\<lambda>rs. sreturn (r # rs)))"

primrec abs_op :: "trie_op \<Rightarrow> ptrie option \<Rightarrow> ptrie option" where
  "abs_op (OpInsert p v) c = proot_insert c (from_bytes p) v"
| "abs_op (OpRemove p) c = proot_remove c (from_bytes p)"

primrec spec_op :: "trie_op \<Rightarrow> (bytes \<rightharpoonup> bytes) \<Rightarrow> bytes \<rightharpoonup> bytes" where
  "spec_op (OpInsert p v) m = m(p \<mapsto> v)"
| "spec_op (OpRemove p) m = m(p := None)"

primrec spec_out :: "trie_op \<Rightarrow> (bytes \<rightharpoonup> bytes) \<Rightarrow> bytes option" where
  "spec_out (OpInsert p v) m = None"
| "spec_out (OpRemove p) m = m p"

primrec spec_map :: "(bytes \<rightharpoonup> bytes) \<Rightarrow> trie_op list \<Rightarrow> bytes \<rightharpoonup> bytes" where
  "spec_map m [] = m"
| "spec_map m (x # xs) = spec_map (spec_op x m) xs"

primrec spec_outs :: "(bytes \<rightharpoonup> bytes) \<Rightarrow> trie_op list \<Rightarrow> bytes option list" where
  "spec_outs m [] = []"
| "spec_outs m (x # xs) = spec_out x m # spec_outs (spec_op x m) xs"

primrec abs_trace :: "ptrie option \<Rightarrow> trie_op list \<Rightarrow> ptrie option list" where
  "abs_trace c [] = [c]"
| "abs_trace c (x # xs) = c # abs_trace (abs_op x c) xs"

definition abs_run :: "ptrie option \<Rightarrow> trie_op list \<Rightarrow> ptrie option" where
  "abs_run c xs = foldl (\<lambda>c x. abs_op x c) c xs"

definition trace_nodes :: "ptrie option \<Rightarrow> trie_op list \<Rightarrow> ptrie set" where
  "trace_nodes c xs = (\<Union>d \<in> set (abs_trace c xs). subs d)"

text \<open>
  What is assumed of the client: no empty value is stored, and the fuel covers the paths. The
  length bounds hold of every slice an allocator can serve.
\<close>

fun op_ok :: "nat \<Rightarrow> trie_op \<Rightarrow> bool" where
  "op_ok fuel (OpInsert p v) \<longleftrightarrow>
     v \<noteq> [] \<and> length v < 2 ^ 59 \<and> length p < 2 ^ 57 \<and> 2 * length p + 1 < fuel"
| "op_ok fuel (OpRemove p) \<longleftrightarrow> 2 * length p + 1 < fuel"

text \<open>
  What is assumed of the hash function: results of 32 bytes, and no two different inputs with
  one hash among the nodes that the run builds and the encoding of the empty trie.
\<close>

definition run_inputs :: "(bytes \<Rightarrow> bytes) \<Rightarrow> trie_op list \<Rightarrow> bytes set" where
  "run_inputs k xs = insert [RLP_NULL] ((\<lambda>t. encode_raw_node (node_of k t)) ` trace_nodes None xs)"

definition collision_resistant :: "(bytes \<Rightarrow> bytes) \<Rightarrow> bytes set \<Rightarrow> bool" where
  "collision_resistant k S \<longleftrightarrow> (\<forall>bs. length (k bs) = 32) \<and> inj_on k S"

lemma collision_resistant_trace:
  "collision_resistant k S \<Longrightarrow> run_inputs k xs \<subseteq> S \<Longrightarrow> no_collisions k (trace_nodes None xs)"
  by (auto simp: collision_resistant_def no_collisions_def run_inputs_def intro: inj_on_subset)

definition contents :: "ptrie option \<Rightarrow> bytes \<rightharpoonup> bytes" where
  "contents c = (\<lambda>path. pget_opt c (from_bytes path))"

lemma contents_None [simp]: "contents None = Map.empty"
  by (rule ext) (simp add: contents_def ptries.get_empty)

lemma abs_run_simps [simp]: "abs_run c [] = c" "abs_run c (x # xs) = abs_run (abs_op x c) xs"
  by (simp_all add: abs_run_def)

lemma trace_nodes_Cons [simp]: "trace_nodes c (x # xs) = subs c \<union> trace_nodes (abs_op x c) xs"
  by (simp add: trace_nodes_def)

lemma subs_trace_nodes: "subs c \<subseteq> trace_nodes c xs" "subs (abs_run c xs) \<subseteq> trace_nodes c xs"
proof -
  show "subs c \<subseteq> trace_nodes c xs" by (cases xs) (auto simp: trace_nodes_def)
  show "subs (abs_run c xs) \<subseteq> trace_nodes c xs"
    by (induction xs arbitrary: c) (auto simp: trace_nodes_def)
qed

lemma contents_abs_op:
  "proot_wf c \<Longrightarrow> op_ok fuel x \<Longrightarrow> contents (abs_op x c) = spec_op x (contents c)"
  by (cases x) (auto simp: contents_def ptries.get_ins ptries.get_rem from_bytes_inject)

lemma run_op_represents:
  assumes "represents k tr c" "op_ok fuel x" "no_collisions k (subs c \<union> subs (abs_op x c))"
  shows "fst (run_op k fuel x tr) = Ok (spec_out x (contents c)) \<and>
    represents k (snd (run_op k fuel x tr)) (abs_op x c)"
proof (cases x)
  case (OpInsert p v)
  then show ?thesis using trie_insert_represents [OF assms(1), of v p fuel] assms(2,3)
    by (cases "trie_insert k fuel p v tr") (auto simp: sbind_def sm_steps)
next
  case (OpRemove p)
  then show ?thesis using trie_remove_represents [OF assms(1), of p fuel] assms(2,3)
    by (simp add: contents_def)
qed

lemma run_ops_represents:
  "\<lbrakk> represents k tr c; \<forall>x \<in> set xs. op_ok fuel x; no_collisions k (trace_nodes c xs) \<rbrakk> \<Longrightarrow>
     fst (run_ops k fuel xs tr) = Ok (spec_outs (contents c) xs) \<and>
     represents k (snd (run_ops k fuel xs tr)) (abs_run c xs) \<and>
     contents (abs_run c xs) = spec_map (contents c) xs"
proof (induction xs arbitrary: tr c)
  case Nil
  then show ?case by (simp add: sm_steps)
next
  case (Cons x xs)
  have "no_collisions k (subs c \<union> subs (abs_op x c))" "no_collisions k (trace_nodes (abs_op x c) xs)"
    using subs_trace_nodes(1) [of "abs_op x c" xs] by (auto intro!: no_collisions_mono [OF Cons.prems(3)])
  moreover have "contents (abs_op x c) = spec_op x (contents c)"
    using Cons.prems by (auto simp: represents_def intro!: contents_abs_op)
  ultimately show ?case
    using run_op_represents [of k tr c fuel x] Cons.IH [of "snd (run_op k fuel x tr)" "abs_op x c"] Cons.prems
    by (cases "run_op k fuel x tr"; cases "run_ops k fuel xs (snd (run_op k fuel x tr))")
      (simp add: sbind_def sm_steps)
qed

lemma run_from_new:
  assumes "\<forall>x \<in> set xs. op_ok fuel x" "collision_resistant k S" "run_inputs k xs \<subseteq> S"
  obtains tr where "run_ops k fuel xs (trie_new d) = (Ok (spec_outs Map.empty xs), tr)"
    "represents k tr (abs_run None xs)" "contents (abs_run None xs) = spec_map Map.empty xs"
  using run_ops_represents [OF represents_new assms(1) collision_resistant_trace [OF assms(2,3)], of d]
  by (cases "run_ops k fuel xs (trie_new d)") (auto intro: that)

lemma trie_get_contents:
  "\<lbrakk> represents k tr c; collision_resistant k S; 2 * length path + 1 < fuel \<rbrakk> \<Longrightarrow>
     trie_get fuel tr path = Ok (contents c path)"
  unfolding contents_def collision_resistant_def by (blast intro: trie_get_represents)

lemma insert_all_run:
  "run_ops k fuel (map (\<lambda>(p, v). OpInsert p v) kvs) tr = (Ok rs, tr') \<Longrightarrow> insert_all k fuel kvs tr = Ok tr'"
  by (induction kvs arbitrary: tr rs)
    (auto simp: sbind_eq_Ok sm_steps split: prod.splits result.splits)

section \<open>Operations work in the cache\<close>

text \<open>Insertions and removals change the cache of a trie; its database changes at a commit only.\<close>

interpretation same_db: state_order "\<lambda>s t. st_db t = st_db s"
  by unfold_locales simp_all

interpretation same_trie_db: state_order "\<lambda>s t. st_db (t_state t) = st_db (t_state s)"
  by unfold_locales simp_all

abbreviation keeps_db :: "'a trie_m \<Rightarrow> bool" where
  "keeps_db \<equiv> moves (\<lambda>s t. st_db t = st_db s)"

lemma keeps_db_node [moves_rules]:
  "(\<And>b. n = Branch b \<Longrightarrow> moves R (f b)) \<Longrightarrow> (\<And>e. n = Extension e \<Longrightarrow> moves R (g e)) \<Longrightarrow>
     (\<And>l. n = Leaf l \<Longrightarrow> moves R (h l)) \<Longrightarrow>
     moves R (case n of Branch b \<Rightarrow> f b | Extension e \<Rightarrow> g e | Leaf l \<Rightarrow> h l)"
  by (cases n) simp_all

lemma keeps_db_self [moves_rules]: "keeps_db (insert_self k n)" "keeps_db (fetch_m h)"
  "keeps_db (\<lambda>st. (get_node st h, st))"
  by (auto simp: moves_def insert_self_def insert_node_def fetch_m_def Let_def split: node_hash.split)

lemma keeps_db_insert: "keeps_db (node_insert k fuel n p v)"
proof (induction fuel arbitrary: n p v)
  case (Suc fuel)
  have "keeps_db (branch_insert k (node_insert k fuel) b p v)" for b p v
    unfolding branch_insert_def by (intro moves_rules Suc.IH)
  moreover have "keeps_db (leaf_insert k l p v)" for l
    unfolding leaf_insert_def by (intro moves_rules)
  ultimately show ?case
    by (cases n) (auto simp: extension_insert_def intro!: moves_rules Suc.IH)
qed (simp add: moves_rules)

lemma keeps_db_remove: "keeps_db (node_remove k fuel n p)"
proof (induction fuel arbitrary: n p)
  case (Suc fuel)
  have "keeps_db (branch_restructure b)" for b
    unfolding branch_restructure_def by (intro moves_rules)
  then show ?case
    by (cases n) (auto simp: extension_remove_def branch_remove_def leaf_remove_def intro!: moves_rules Suc.IH)
qed (simp add: moves_rules)

lemma on_state_db: "keeps_db m \<Longrightarrow> moves (\<lambda>s t. st_db (t_state t) = st_db (t_state s)) (on_state m)"
  by (auto simp: moves_def on_state_simps)

lemma run_op_db: "moves (\<lambda>s t. st_db (t_state t) = st_db (t_state s)) (run_op k fuel x)"
  by (cases x) (auto simp: trie_insert_def trie_remove_def
      intro!: moves_rules on_state_db same_trie_db.moves_modify keeps_db_insert keeps_db_remove)

lemma run_ops_db: "moves (\<lambda>s t. st_db (t_state t) = st_db (t_state s)) (run_ops k fuel xs)"
  by (induction xs) (auto intro!: moves_rules run_op_db)

section \<open>The root hash determines the trie\<close>

definition root_input :: "(bytes \<Rightarrow> bytes) \<Rightarrow> ptrie option \<Rightarrow> bytes" where
  "root_input k c = (case c of None \<Rightarrow> [RLP_NULL] | Some t \<Rightarrow> encode_raw_node (node_of k t))"

lemma hash_root_input: "represents k tr c \<Longrightarrow> hash_no_commit k tr = k (root_input k c)"
  by (auto simp: hash_represents root_input_def EMPTY_TRIE_HASH_def hash_of_def compute_hash_def
      from_encoded_raw_def split: option.split)

lemma root_input_mem: "root_input k (abs_run None xs) \<in> run_inputs k xs"
proof (cases "abs_run None xs")
  case (Some t)
  then have "t \<in> trace_nodes None xs"
    using subs_trace_nodes(2) [of None xs] self_in_subtries by fastforce
  then show ?thesis using Some by (simp add: root_input_def run_inputs_def)
qed (simp add: root_input_def run_inputs_def)

lemma decode_raw_null: "decode_raw [RLP_NULL] \<noteq> Ok n"
  by (simp add: decode_raw_def decoder_new_def decode_rlp_item_def short_item_def split_item_def
      slice_def slice_from_def RLP_NULL_def)

lemma root_input_inject:
  assumes "proot_wf c" "small_root c" "proot_wf d" "small_root d"
    and nc: "no_collisions k (subs c \<union> subs d)" and e: "root_input k c = root_input k d"
  shows "c = d"
proof -
  have cf: "collision_free k (subs c \<union> subs d)" using assms by (intro collision_free_subs)
  have v: "encode_raw_node (node_of k t) \<noteq> [RLP_NULL]" if "c = Some t \<or> d = Some t" for t
  proof -
    have "valid_node (node_of k t)" using collision_free_valid [OF cf] that self_in_subtries by fastforce
    then have "decode_raw (encode_raw_node (node_of k t)) = Ok (node_of k t)" by (rule decode_raw_encode_raw)
    then show ?thesis using decode_raw_null by auto
  qed
  show ?thesis
  proof (cases c)
    case None
    then show ?thesis using e v by (cases d) (auto simp: root_input_def)
  next
    case (Some t)
    then obtain u where u: "d = Some u" using e v by (cases d) (auto simp: root_input_def)
    then have "hash_of k t = hash_of k u" using e Some by (simp add: root_input_def hash_of_def compute_hash_def)
    then show ?thesis using hash_eq_trie [OF cf] Some u by auto
  qed
qed

lemma hash_neq_empty:
  assumes "represents k tr (abs_run None xs)" "collision_resistant k (run_inputs k xs)" "abs_run None xs = Some t"
  shows "hash_no_commit k tr \<noteq> EMPTY_TRIE_HASH k"
proof
  assume "hash_no_commit k tr = EMPTY_TRIE_HASH k"
  then have "k (root_input k (abs_run None xs)) = k (root_input k None)"
    using hash_root_input [OF assms(1)] by (simp add: EMPTY_TRIE_HASH_def root_input_def)
  moreover have "inj_on k (run_inputs k xs)" using assms(2) by (simp add: collision_resistant_def)
  moreover have "root_input k None \<in> run_inputs k xs" by (simp add: root_input_def run_inputs_def)
  ultimately have "root_input k (abs_run None xs) = root_input k None"
    using root_input_mem [of k xs] by (meson inj_onD)
  moreover have "no_collisions k (subs (abs_run None xs) \<union> subs None)"
    using no_collisions_mono [OF collision_resistant_trace [OF assms(2) order_refl]] subs_trace_nodes(2) [of None xs]
    by simp
  ultimately have "abs_run None xs = None"
    using assms(1) by (intro root_input_inject) (auto simp: represents_def ptries.inv_empty)
  then show False using assms(3) by simp
qed

lemma hash_iff_abs:
  assumes "represents k tr (abs_run None xs)" "represents k tr' (abs_run None ys)"
    and cr: "collision_resistant k (run_inputs k xs \<union> run_inputs k ys)"
  shows "hash_no_commit k tr = hash_no_commit k tr' \<longleftrightarrow> abs_run None xs = abs_run None ys"
proof
  assume "hash_no_commit k tr = hash_no_commit k tr'"
  then have "root_input k (abs_run None xs) = root_input k (abs_run None ys)"
    using assms(1,2) cr root_input_mem [of k xs] root_input_mem [of k ys]
    by (auto simp: hash_root_input collision_resistant_def dest: inj_onD)
  moreover have "(\<lambda>t. encode_raw_node (node_of k t)) ` (subs (abs_run None xs) \<union> subs (abs_run None ys))
      \<subseteq> run_inputs k xs \<union> run_inputs k ys"
    using subs_trace_nodes(2) [of None xs] subs_trace_nodes(2) [of None ys] by (auto simp: run_inputs_def)
  then have "no_collisions k (subs (abs_run None xs) \<union> subs (abs_run None ys))"
    using cr unfolding collision_resistant_def no_collisions_def by (blast intro: inj_on_subset)
  ultimately show "abs_run None xs = abs_run None ys"
    using assms(1,2) by (intro root_input_inject) (auto simp: represents_def)
qed (use assms(1,2) in \<open>simp add: hash_root_input\<close>)

lemma hash_iff_contents:
  assumes "represents k tr (abs_run None xs)" "represents k tr' (abs_run None ys)"
    and "collision_resistant k (run_inputs k xs \<union> run_inputs k ys)"
  shows "hash_no_commit k tr = hash_no_commit k tr' \<longleftrightarrow>
    contents (abs_run None xs) = contents (abs_run None ys)"
  using hash_iff_abs [OF assms] represents_unique [OF assms(1,2)] by (auto simp: contents_def fun_eq_iff)

lemma spec_map_inserts: "spec_map m (map (\<lambda>(p, v). OpInsert p v) kvs) = m ++ map_of (rev kvs)"
  by (induction kvs arbitrary: m) (auto simp: map_add_def fun_eq_iff split: option.split)

lemma insert_all_represents:
  assumes "\<forall>(p, v) \<in> set kvs. op_ok fuel (OpInsert p v)" "collision_resistant k S"
    and "run_inputs k (map (\<lambda>(p, v). OpInsert p v) kvs) \<subseteq> S"
  obtains tr where "insert_all k fuel kvs stateless = Ok tr"
    "represents k tr (abs_run None (map (\<lambda>(p, v). OpInsert p v) kvs))"
    "contents (abs_run None (map (\<lambda>(p, v). OpInsert p v) kvs)) = map_of (rev kvs)"
proof -
  have "\<forall>x \<in> set (map (\<lambda>(p, v). OpInsert p v) kvs). op_ok fuel x" using assms(1) by auto
  then obtain tr where "run_ops k fuel (map (\<lambda>(p, v). OpInsert p v) kvs) (trie_new NullTrieDB) =
      (Ok (spec_outs Map.empty (map (\<lambda>(p, v). OpInsert p v) kvs)), tr)"
    "represents k tr (abs_run None (map (\<lambda>(p, v). OpInsert p v) kvs))"
    "contents (abs_run None (map (\<lambda>(p, v). OpInsert p v) kvs)) =
      spec_map Map.empty (map (\<lambda>(p, v). OpInsert p v) kvs)"
    using run_from_new [OF _ assms(2,3), of fuel NullTrieDB] by blast
  then show ?thesis using that insert_all_run by (simp add: spec_map_inserts stateless_def)
qed

section \<open>A concrete hash function for the examples\<close>

text \<open>
  A function with 32-byte results that is injective on inputs of at most 31 bytes; it stands in
  for Keccak-256 where a property is shown to apply.
\<close>

definition pad_hash :: "bytes \<Rightarrow> bytes" where
  "pad_hash bs = take 32 (bs @ replicate (31 - length bs) 0 @ [of_nat (length bs)] @ replicate 32 0)"

lemma length_pad_hash [simp]: "length (pad_hash bs) = 32"
  by (simp add: pad_hash_def)

lemma pad_hash_inject:
  assumes "length bs \<le> 31" "length cs \<le> 31" "pad_hash bs = pad_hash cs"
  shows "bs = cs"
proof -
  have p: "pad_hash xs = xs @ replicate (31 - length xs) 0 @ [of_nat (length xs)]" if "length xs \<le> 31" for xs
    using that by (simp add: pad_hash_def)
  then have "last (pad_hash xs) = of_nat (length xs)" if "length xs \<le> 31" for xs
    using that by simp
  then have "(of_nat (length bs) :: u8) = of_nat (length cs)" using assms by metis
  moreover have "unat (of_nat (length xs) :: u8) = length xs" if "length xs \<le> 31" for xs :: bytes
    using that by (simp add: unat_of_nat_u8)
  ultimately have len: "length bs = length cs" using assms(1,2) by metis
  have "take (length bs) (pad_hash bs) = bs" "take (length cs) (pad_hash cs) = cs"
    by (simp_all only: p [OF assms(1)] p [OF assms(2)] append_eq_conv_conj [symmetric] take_append
        diff_self_eq_0 take0 append_Nil2 take_all order_refl)
  then show ?thesis using len assms(3) by metis
qed

lemma collision_resistant_pad:
  "\<forall>bs \<in> S. length bs \<le> 31 \<Longrightarrow> collision_resistant pad_hash S"
  using pad_hash_inject by (auto simp: collision_resistant_def inj_on_def)

definition ex_ops :: "trie_op list" where
  "ex_ops = [OpInsert [0x12] [9], OpInsert [0x13] [8], OpInsert [0x12] [7], OpRemove [0x13]]"

definition ex_ops' :: "trie_op list" where
  "ex_ops' = [OpInsert [0x12] [7]]"

lemma ex_inputs: "\<forall>bs \<in> run_inputs pad_hash ex_ops. length bs \<le> 31"
  by code_simp

lemma ex_inputs': "\<forall>bs \<in> run_inputs pad_hash ex_ops'. length bs \<le> 31"
  by code_simp

lemma trie_state_new_simps: "st_db (trie_state_new d) = d" "st_cache (trie_state_new d) = Map.empty"
  by (simp_all add: trie_state_new_def)

text \<open>A root that is kept inline has no entry in the cache, so committing it writes nothing.\<close>

lemma trie_hash_inline:
  assumes "hashed_cache (t_state tr)" "t_root tr = Some (Inline e)" "st_db (t_state tr) = InMemoryTrieDB m"
  shows "trie_hash k (Suc f) tr = Ok (k e, tr\<lparr>t_state := trie_state_new (InMemoryTrieDB m)\<rparr>)"
  using assms by (simp add: trie_hash_def commit_def commit_node_def hashed_cache_def hash_no_commit_def
      trie_state_new_def)

lemma trie_get_unstored:
  assumes "m h = None" "h \<noteq> EMPTY_TRIE_HASH k"
  shows "trie_get fuel (trie_open k (InMemoryTrieDB m) h) path = Err InconsistentTree"
  using assms by (simp add: trie_get_def trie_open_def fetch_def trie_state_new_def)

section \<open>Correctness of the trie\<close>

text \<open>
  C1: the trie is a map. A sequence of insertions and removals on a new trie succeeds, every
  removal returns the value that was stored, and a lookup afterwards gives exactly what the
  same sequence leaves in a finite map.
\<close>

theorem trie_refines_map:
  assumes "\<forall>x \<in> set xs. op_ok fuel x" "collision_resistant k (run_inputs k xs)"
    and "2 * length path + 1 < fuel"
  shows "\<exists>tr. run_ops k fuel xs (trie_new d) = (Ok (spec_outs Map.empty xs), tr) \<and>
    trie_get fuel tr path = Ok (spec_map Map.empty xs path)"
proof -
  obtain tr where tr: "run_ops k fuel xs (trie_new d) = (Ok (spec_outs Map.empty xs), tr)"
    "represents k tr (abs_run None xs)" "contents (abs_run None xs) = spec_map Map.empty xs"
    using run_from_new [OF assms(1,2) order_refl] by blast
  then show ?thesis using trie_get_contents [OF tr(2) assms(2,3)] by auto
qed

theorem trie_refines_map_witness:
  "\<exists>tr. run_ops pad_hash 10 ex_ops (trie_new (InMemoryTrieDB Map.empty)) =
       (Ok (spec_outs Map.empty ex_ops), tr) \<and>
     trie_get 10 tr [0x12] = Ok (spec_map Map.empty ex_ops [0x12])"
  by (rule trie_refines_map [OF _ collision_resistant_pad [OF ex_inputs]]) (simp_all add: ex_ops_def)

text \<open>
  C5: the root hash commits to the contents. Two tries, built by any sequences of insertions
  and removals, have the same root hash exactly if they hold the same values: the hash does not
  depend on the history, and different contents have different hashes.
\<close>

theorem root_hash_iff_contents:
  assumes "\<forall>x \<in> set xs. op_ok fuel x" "\<forall>y \<in> set ys. op_ok fuel y"
    and "collision_resistant k (run_inputs k xs \<union> run_inputs k ys)"
  shows "hash_no_commit k (snd (run_ops k fuel xs (trie_new d))) =
      hash_no_commit k (snd (run_ops k fuel ys (trie_new e))) \<longleftrightarrow>
    spec_map Map.empty xs = spec_map Map.empty ys"
proof -
  obtain tr where tr: "run_ops k fuel xs (trie_new d) = (Ok (spec_outs Map.empty xs), tr)"
    "represents k tr (abs_run None xs)" "contents (abs_run None xs) = spec_map Map.empty xs"
    using run_from_new [OF assms(1,3)] by blast
  obtain tr' where tr': "run_ops k fuel ys (trie_new e) = (Ok (spec_outs Map.empty ys), tr')"
    "represents k tr' (abs_run None ys)" "contents (abs_run None ys) = spec_map Map.empty ys"
    using run_from_new [OF assms(2,3)] by blast
  show ?thesis using hash_iff_contents [OF tr(2) tr'(2) assms(3)] tr tr' by simp
qed

theorem root_hash_iff_contents_witness:
  "hash_no_commit pad_hash (snd (run_ops pad_hash 10 ex_ops (trie_new NullTrieDB))) =
      hash_no_commit pad_hash (snd (run_ops pad_hash 10 ex_ops' (trie_new NullTrieDB))) \<longleftrightarrow>
    spec_map Map.empty ex_ops = spec_map Map.empty ex_ops'"
proof (rule root_hash_iff_contents)
  show "collision_resistant pad_hash (run_inputs pad_hash ex_ops \<union> run_inputs pad_hash ex_ops')"
    using ex_inputs ex_inputs' by (intro collision_resistant_pad) blast
qed (simp_all add: ex_ops_def ex_ops'_def)

text \<open>
  C14: what \<^verbatim>\<open>hash\<close> writes out. It commits a trie to an in-memory database and returns its root
  hash. If the root is a hashed node or the trie is empty, a trie opened on the new database with
  that hash answers every lookup as the trie did before. If the encoding of the root has less than
  32 bytes, so that the root is kept inline, nothing is written: the database stays as it was, and,
  unless it held an entry for the hash already, every lookup in the trie that is opened with the
  returned hash fails with an inconsistent tree.
\<close>

theorem commit_then_open:
  assumes "\<forall>x \<in> set xs. op_ok fuel x" "collision_resistant k (run_inputs k xs)"
    and "2 * length path + 1 < fuel"
    and "run_ops k fuel xs (trie_new (InMemoryTrieDB m)) = (Ok rs, tr)"
  shows "\<exists>n. \<forall>f. \<exists>h tr' m'. trie_hash k (n + f) tr = Ok (h, tr') \<and>
    st_db (t_state tr') = InMemoryTrieDB m' \<and> (t_root tr \<noteq> None \<longrightarrow> st_cache (t_state tr') = Map.empty) \<and>
    (case t_root tr of
       Some (Inline e) \<Rightarrow> h = k e \<and> m' = m \<and>
         (m h = None \<longrightarrow> trie_get fuel (trie_open k (InMemoryTrieDB m') h) path = Err InconsistentTree)
     | _ \<Rightarrow> trie_get fuel (trie_open k (InMemoryTrieDB m') h) path = trie_get fuel tr path)"
proof -
  have r: "represents k tr (abs_run None xs)"
    using run_from_new [OF assms(1,2) order_refl, of "InMemoryTrieDB m"] assms(4) by fastforce
  have d: "st_db (t_state tr) = InMemoryTrieDB m"
    using movesD [OF run_ops_db [of k fuel xs], of "trie_new (InMemoryTrieDB m)"] assms(4)
    by (simp add: trie_new_def trie_state_new_def)
  have nc: "no_collisions k (subs (abs_run None xs))"
    using no_collisions_mono [OF collision_resistant_trace [OF assms(2) order_refl]]
      subs_trace_nodes(2) [of None xs] by auto
  show ?thesis
  proof (cases "abs_run None xs")
    case None
    then have "t_root tr = None" using r by (simp add: represents_def)
    then show ?thesis
      using d by (intro exI [of _ 0] allI exI [of _ "EMPTY_TRIE_HASH k"] exI [of _ tr] exI [of _ m])
        (simp add: trie_hash_def hash_no_commit_def trie_open_def trie_get_def)
  next
    case (Some t)
    have rt: "t_root tr = Some (hash_of k t)" using r Some by (simp add: represents_def)
    have ne: "hash_no_commit k tr \<noteq> EMPTY_TRIE_HASH k" by (rule hash_neq_empty [OF r assms(2) Some])
    show ?thesis
    proof (cases "hash_of k t")
      case (Hashed h)
      have "\<exists>tr' m'. trie_hash k (Suc (size t) + f) tr = Ok (h, tr') \<and>
          t_state tr' = trie_state_new (InMemoryTrieDB m') \<and>
          trie_get fuel (trie_open k (InMemoryTrieDB m') h) path = trie_get fuel tr path" for f
      proof -
        have h: "hash_no_commit k tr = h" using rt Hashed by (simp add: hash_no_commit_def)
        obtain tr' m' where c: "trie_hash k (Suc (size t) + f) tr = Ok (h, tr')" "represents k tr' (Some t)"
            "t_state tr' = trie_state_new (InMemoryTrieDB m')" "t_root tr' = t_root tr"
          using trie_hash_represents [of k tr t m "Suc (size t) + f"] r nc d Some h by auto
        then have "represents k (trie_open k (InMemoryTrieDB m') h) (Some t)"
          using trie_open_represents [OF c(2,3) Hashed] ne h by (simp add: hash_no_commit_def)
        then have "trie_get fuel (trie_open k (InMemoryTrieDB m') h) path = trie_get fuel tr path"
          using trie_get_contents [OF _ assms(2,3)] r Some by simp
        then show ?thesis using c by blast
      qed
      then show ?thesis
        unfolding rt Hashed option.case node_hash.case by (metis trie_state_new_simps)
    next
      case (Inline e)
      have "trie_hash k (Suc 0 + f) tr = Ok (k e, tr\<lparr>t_state := trie_state_new (InMemoryTrieDB m)\<rparr>)" for f
        using trie_hash_inline [OF _ _ d] r rt Inline by (simp add: represents_def)
      moreover have "k e \<noteq> EMPTY_TRIE_HASH k" using ne rt Inline by (simp add: hash_no_commit_def)
      ultimately show ?thesis
        unfolding rt Inline option.case node_hash.case
        by (intro exI [of _ "Suc 0"] allI exI [of _ "k e"] exI [of _ "tr\<lparr>t_state := trie_state_new (InMemoryTrieDB m)\<rparr>"]
            exI [of _ m]) (simp add: trie_get_unstored trie_state_new_simps)
    qed
  qed
qed

definition ex_big :: "trie_op list" where
  "ex_big = [OpInsert [0x12] (replicate 40 1)]"

lemma inj_on_pair: "S \<subseteq> {a, b} \<Longrightarrow> f a \<noteq> f b \<Longrightarrow> inj_on f S"
  by (rule inj_on_subset [of _ "{a, b}"]) auto

lemma ex_big_collisions: "collision_resistant pad_hash (run_inputs pad_hash ex_big)"
proof -
  have "run_inputs pad_hash ex_big \<subseteq>
      {[RLP_NULL], encode_raw_node (node_of pad_hash (PLeaf (from_bytes [0x12]) (replicate 40 1)))}"
    by (simp add: run_inputs_def ex_big_def trace_nodes_def proot_insert_def subtries_def)
  moreover have "pad_hash [RLP_NULL] \<noteq>
      pad_hash (encode_raw_node (node_of pad_hash (PLeaf (from_bytes [0x12]) (replicate 40 1))))"
    by code_simp
  ultimately have "inj_on pad_hash (run_inputs pad_hash ex_big)" by (rule inj_on_pair)
  then show ?thesis by (simp add: collision_resistant_def)
qed

definition ex_big_trie :: trie where
  "ex_big_trie = snd (run_ops pad_hash 10 ex_big (trie_new (InMemoryTrieDB Map.empty)))"

lemma ex_big_run:
  "run_ops pad_hash 10 ex_big (trie_new (InMemoryTrieDB Map.empty)) = (Ok [None], ex_big_trie)"
proof (rule prod_eqI)
  show "fst (run_ops pad_hash 10 ex_big (trie_new (InMemoryTrieDB Map.empty))) = fst (Ok [None], ex_big_trie)"
    unfolding fst_conv by code_simp
qed (simp add: ex_big_trie_def)

lemma ex_big_root: "t_root ex_big_trie = Some (Hashed (hash_no_commit pad_hash ex_big_trie))"
  by code_simp

definition ex_small_trie :: trie where
  "ex_small_trie = snd (run_ops pad_hash 10 ex_ops' (trie_new (InMemoryTrieDB Map.empty)))"

lemma ex_small_run:
  "run_ops pad_hash 10 ex_ops' (trie_new (InMemoryTrieDB Map.empty)) = (Ok [None], ex_small_trie)"
proof (rule prod_eqI)
  show "fst (run_ops pad_hash 10 ex_ops' (trie_new (InMemoryTrieDB Map.empty))) = fst (Ok [None], ex_small_trie)"
    unfolding fst_conv by code_simp
qed (simp add: ex_small_trie_def)

lemma ex_small_root: "t_root ex_small_trie = Some (Inline [0xc4, 0x82, 0x20, 0x12, 7])"
  by code_simp

theorem commit_then_open_witness:
  "(\<exists>n. \<forall>f. \<exists>h tr' m'. trie_hash pad_hash (n + f) ex_big_trie = Ok (h, tr') \<and>
      st_db (t_state tr') = InMemoryTrieDB m' \<and>
      trie_get 10 (trie_open pad_hash (InMemoryTrieDB m') h) [0x12] = trie_get 10 ex_big_trie [0x12]) \<and>
   (\<exists>n. \<forall>f. \<exists>h tr' m'. trie_hash pad_hash (n + f) ex_small_trie = Ok (h, tr') \<and>
      st_db (t_state tr') = InMemoryTrieDB Map.empty \<and>
      trie_get 10 (trie_open pad_hash (InMemoryTrieDB Map.empty) h) [0x12] = Err InconsistentTree)"
proof -
  have "collision_resistant pad_hash (run_inputs pad_hash ex_ops')"
    using ex_inputs' by (rule collision_resistant_pad)
  note small = commit_then_open [OF _ this _ ex_small_run, of "[0x12]"]
  note big = commit_then_open [OF _ ex_big_collisions _ ex_big_run, of "[0x12]"]
  show ?thesis
    using big small unfolding ex_big_root ex_small_root option.case node_hash.case
    by (simp add: ex_big_def ex_ops'_def) (intro conjI; blast)
qed

text \<open>
  C26: the root hash of a collection computed from its entries does not depend on their order:
  of entries with the same path the last one counts.
\<close>

theorem compute_hash_order_irrelevant:
  assumes "\<forall>(p, v) \<in> set kvs. op_ok fuel (OpInsert p v)" "\<forall>(p, v) \<in> set kws. op_ok fuel (OpInsert p v)"
    and "collision_resistant k (run_inputs k (map (\<lambda>(p, v). OpInsert p v) kvs) \<union>
      run_inputs k (map (\<lambda>(p, v). OpInsert p v) kws))"
  shows "(\<exists>h. compute_hash_from_unsorted_iter k fuel kvs = Ok h) \<and>
    (compute_hash_from_unsorted_iter k fuel kvs = compute_hash_from_unsorted_iter k fuel kws \<longleftrightarrow>
      map_of (rev kvs) = map_of (rev kws))"
proof -
  obtain tr where tr: "insert_all k fuel kvs stateless = Ok tr"
    "represents k tr (abs_run None (map (\<lambda>(p, v). OpInsert p v) kvs))"
    "contents (abs_run None (map (\<lambda>(p, v). OpInsert p v) kvs)) = map_of (rev kvs)"
    using insert_all_represents [OF assms(1,3)] by auto
  obtain tr' where tr': "insert_all k fuel kws stateless = Ok tr'"
    "represents k tr' (abs_run None (map (\<lambda>(p, v). OpInsert p v) kws))"
    "contents (abs_run None (map (\<lambda>(p, v). OpInsert p v) kws)) = map_of (rev kws)"
    using insert_all_represents [OF assms(2,3)] by auto
  show ?thesis
    using hash_iff_contents [OF tr(2) tr'(2) assms(3)] tr tr'
    by (simp add: compute_hash_from_unsorted_iter_def)
qed

theorem compute_hash_order_irrelevant_witness:
  "(\<exists>h. compute_hash_from_unsorted_iter pad_hash 10 [([1], [2]), ([0x12], [7])] = Ok h) \<and>
    (compute_hash_from_unsorted_iter pad_hash 10 [([1], [2]), ([0x12], [7])] =
       compute_hash_from_unsorted_iter pad_hash 10 [([0x12], [7]), ([1], [2])] \<longleftrightarrow>
     map_of (rev [([1 :: u8], [2 :: u8]), ([0x12], [7])]) = map_of (rev [([0x12], [7]), ([1], [2])]))"
proof (rule compute_hash_order_irrelevant)
  show "collision_resistant pad_hash
      (run_inputs pad_hash (map (\<lambda>(p, v). OpInsert p v) [([1], [2]), ([0x12], [7])]) \<union>
       run_inputs pad_hash (map (\<lambda>(p, v). OpInsert p v) [([0x12], [7]), ([1], [2])]))"
    by (rule collision_resistant_pad) code_simp
qed simp_all

text \<open>
  C27: both encodings of a node, the one that is hashed and the one that is stored, are read
  back: a node of the trie is determined by its encoding.
\<close>

theorem node_round_trip:
  assumes "valid_node n"
  shows "decode_raw (encode_raw_node n) = Ok n \<and> decode_node (encode_node n @ rest) = Ok (n, rest)"
  using decode_raw_encode_raw [OF assms] decode_node_encode_node [OF assms] by blast

theorem node_round_trip_witness:
  "decode_raw (encode_raw_node (Leaf \<lparr>leaf_partial = [1, 2, 16], leaf_value = [9]\<rparr>)) =
     Ok (Leaf \<lparr>leaf_partial = [1, 2, 16], leaf_value = [9]\<rparr>) \<and>
   decode_node (encode_node (Leaf \<lparr>leaf_partial = [1, 2, 16], leaf_value = [9]\<rparr>) @ [5]) =
     Ok (Leaf \<lparr>leaf_partial = [1, 2, 16], leaf_value = [9]\<rparr>, [5])"
  by (rule node_round_trip) (simp add: key_path_def nibs_def)

text \<open>
  nibble paths and bytes. A path from bytes converts back to them, and the compact (hex
  prefix) form of an extension prefix or a leaf path of any length, even or odd, is decoded to
  the path and keeps the leaf flag.
\<close>

theorem nibbles_round_trip:
  assumes "nibs ns"
  shows "to_bytes (from_bytes bs) = bs \<and>
    decode_compact (encode_compact ns) = ns \<and> decode_compact (encode_compact (ns @ [16])) = ns @ [16]"
  using assms by (simp add: to_bytes_from_bytes encode_compact_ext encode_compact_leaf key_path_snoc)

theorem nibbles_round_trip_witness:
  "to_bytes (from_bytes [0xAB, 0xCD]) = [0xAB, 0xCD] \<and>
    decode_compact (encode_compact [1, 2, 3]) = [1, 2, 3] \<and>
    decode_compact (encode_compact ([1, 2, 3] @ [16])) = [1, 2, 3] @ [16]"
  by (rule nibbles_round_trip) (simp add: nibs_def)

end
