(* ===== verification/Evm_Types.thy ===== *)
theory Evm_Types
  imports Rlp_Instances State_Logic
begin

text \<open>
  The data of the virtual machine (\<^verbatim>\<open>crates/vm/levm/src\<close>): errors (\<^verbatim>\<open>errors.rs\<close>), accounts
  (\<^verbatim>\<open>account.rs\<close>), the environment of a transaction (\<^verbatim>\<open>environment.rs\<close>), call frames with their
  stack (\<^verbatim>\<open>call_frame.rs\<close>), the substate and the machine itself (\<^verbatim>\<open>vm.rs\<close>).

  Values of type \<^verbatim>\<open>U256\<close> and \<^verbatim>\<open>H256\<close> are 256-bit words, addresses 160-bit words. The counters of type
  \<^verbatim>\<open>u64\<close> and \<^verbatim>\<open>usize\<close> (gas, nonces, sizes, the program counter) are natural numbers: the code
  computes them with checked operations only, and the checks are written out against \<open>u64_bound\<close>
  and \<open>usize_bound\<close>. The account database behind the machine and the cryptographic libraries are
  parameters, the records \<open>database\<close> and \<open>crypto\<close>.
\<close>

section \<open>Errors\<close>

datatype tx_validation_error =
    SenderNotEOA | InsufficientAccountFunds | NonceIsMax | InitcodeSizeExceeded
  | PriorityGreaterThanMaxFeePerGas | IntrinsicGasTooLow | GasAllowanceExceeded
  | InsufficientMaxFeePerGas | InsufficientMaxFeePerBlobGas | Type3TxZeroBlobs
  | Type3TxInvalidBlobVersionedHash | Type3TxBlobCountExceeded | Type3TxContractCreation
  | GasLimitPriceProductOverflow

datatype out_of_gas_error =
    GasCostOverflow | GasUsedOverflow | CreationCostIsTooHigh | ConsumedGasOverflow
  | MaxGasLimitExceeded | GasDividedByZero | MemoryExpansionCostOverflow

datatype internal_error =
    PCOverflowed | PCUnderflowed | ArithmeticOperationOverflow | ArithmeticOperationUnderflow
  | ArithmeticOperationDividedByZero | AccountShouldHaveBeenCached | ConversionError
  | DivisionError | CouldNotAccessLastCallframe | BlobHashOutOfRange | TriedToIndexEmptyCode
  | CouldNotComputeCreateAddress | CouldNotComputeCreate2Address | SlicingError
  | CouldNotPopCallframe | AccountNotFound | ExcessBlobGasShouldNotBeNone | UtilsError
  | PCOutOfBounds | GasOverflow | UndefinedState int | InvalidPrecompileAddress

datatype precompile_error =
    ParsingInputError | GasConsumedOverflow | NotEnoughGas | DefaultError

datatype vm_error =
    StackUnderflow | StackOverflow | InvalidJump | OpcodeNotAllowedInStaticContext
  | OpcodeNotFound | InvalidBytecode | InvalidContractPrefix | VeryLargeNumber | FatalError
  | InvalidTransaction | RevertOpcode | InvalidOpcode | MissingBlobHashes
  | BlobHashIndexOutOfBounds | SenderAccountDoesNotExist | AddressDoesNotMatchAnAccount
  | GasPriceIsLowerThanBaseFee | AddressAlreadyOccupied | ContractOutputTooBig
  | VMGasLimitPriceProductOverflow | BalanceOverflow | BalanceUnderflow | GasRefundsUnderflow
  | GasRefundsOverflow | MemorySizeOverflow | NonceOverflow | NonceUnderflow
  | OutOfGas out_of_gas_error | Internal internal_error | TxValidation tx_validation_error
  | OutOfBounds | PrecompileError precompile_error

fun is_internal :: "vm_error \<Rightarrow> bool" where
  "is_internal (Internal _) = True"
| "is_internal _ = False"

datatype result_reason = Stop | ReasonRevert | Return | SelfDestruct

datatype opcode_success = Continue | OpResult result_reason

datatype tx_result = Success | Revert vm_error

section \<open>Bounds, constants and checked operations\<close>

type_synonym address = "160 word"
type_synonym h256 = "256 word"

definition u64_bound :: nat where
  "u64_bound = 2 ^ 64"

definition WORD_SIZE :: nat where
  "WORD_SIZE = 32"

definition STACK_LIMIT :: nat where
  "STACK_LIMIT = 1024"

definition MEMORY_EXPANSION_QUOTIENT :: nat where
  "MEMORY_EXPANSION_QUOTIENT = 512"

definition TX_BASE_COST :: nat where
  "TX_BASE_COST = 21000"

definition MAX_CODE_SIZE :: nat where
  "MAX_CODE_SIZE = 0x6000"

definition INIT_CODE_MAX_SIZE :: nat where
  "INIT_CODE_MAX_SIZE = 49152"

definition INVALID_CONTRACT_PREFIX :: u8 where
  "INVALID_CONTRACT_PREFIX = 0xef"

definition EMPTY_CODE_HASH :: bytes where
  "EMPTY_CODE_HASH =
     [0xc5, 0xd2, 0x46, 0x01, 0x86, 0xf7, 0x23, 0x3c, 0x92, 0x7e, 0x7d, 0xb2, 0xdc, 0xc7, 0x03, 0xc0,
      0xe5, 0x00, 0xb6, 0x53, 0xca, 0x82, 0x27, 0x3b, 0x7b, 0xfa, 0xd8, 0x04, 0x5d, 0x85, 0xa4, 0x70]"

definition SUCCESS_FOR_CALL :: u256 where
  "SUCCESS_FOR_CALL = 1"

definition REVERT_FOR_CALL :: u256 where
  "REVERT_FOR_CALL = 0"

definition CREATE_DEPLOYMENT_FAIL :: u256 where
  "CREATE_DEPLOYMENT_FAIL = 0"

definition MAX_BLOB_COUNT :: nat where
  "MAX_BLOB_COUNT = 6"

definition VALID_BLOB_PREFIXES :: "u8 list" where
  "VALID_BLOB_PREFIXES = [0x01, 0x02]"

definition LAST_AVAILABLE_BLOCK_LIMIT :: u256 where
  "LAST_AVAILABLE_BLOCK_LIMIT = 256"

definition MIN_BASE_FEE_PER_BLOB_GAS :: nat where
  "MIN_BASE_FEE_PER_BLOB_GAS = 1"

definition BLOB_BASE_FEE_UPDATE_FRACTION :: nat where
  "BLOB_BASE_FEE_UPDATE_FRACTION = 3338477"

text \<open>The checked operations of \<^verbatim>\<open>U256\<close> and its conversions to \<^verbatim>\<open>usize\<close> and \<^verbatim>\<open>u64\<close>.\<close>

definition u256_checked_add :: "u256 \<Rightarrow> u256 \<Rightarrow> u256 option" where
  "u256_checked_add a b = (if unat a + unat b < 2 ^ 256 then Some (a + b) else None)"

definition u256_checked_sub :: "u256 \<Rightarrow> u256 \<Rightarrow> u256 option" where
  "u256_checked_sub a b = (if b \<le> a then Some (a - b) else None)"

definition u256_checked_mul :: "u256 \<Rightarrow> u256 \<Rightarrow> u256 option" where
  "u256_checked_mul a b = (if unat a * unat b < 2 ^ 256 then Some (a * b) else None)"

definition u256_checked_div :: "u256 \<Rightarrow> u256 \<Rightarrow> u256 option" where
  "u256_checked_div a b = (if b = 0 then None else Some (a div b))"

definition u256_checked_rem :: "u256 \<Rightarrow> u256 \<Rightarrow> u256 option" where
  "u256_checked_rem a b = (if b = 0 then None else Some (a mod b))"

definition u256_saturating_add :: "u256 \<Rightarrow> u256 \<Rightarrow> u256" where
  "u256_saturating_add a b = (case u256_checked_add a b of Some c \<Rightarrow> c | None \<Rightarrow> - 1)"

definition u256_saturating_sub :: "u256 \<Rightarrow> u256 \<Rightarrow> u256" where
  "u256_saturating_sub a b = (if b \<le> a then a - b else 0)"

definition u256_to_usize :: "u256 \<Rightarrow> nat option" where
  "u256_to_usize w = (if unat w < usize_bound then Some (unat w) else None)"

definition u256_to_u64 :: "u256 \<Rightarrow> nat option" where
  "u256_to_u64 w = (if unat w < u64_bound then Some (unat w) else None)"

lemma u256_checked_Some [result_simps]:
  "u256_checked_add a b = Some c \<longleftrightarrow> unat a + unat b < 2 ^ 256 \<and> c = a + b"
  "u256_checked_sub a b = Some c \<longleftrightarrow> b \<le> a \<and> c = a - b"
  "u256_checked_mul a b = Some c \<longleftrightarrow> unat a * unat b < 2 ^ 256 \<and> c = a * b"
  "u256_checked_div a b = Some c \<longleftrightarrow> b \<noteq> 0 \<and> c = a div b"
  "u256_checked_rem a b = Some c \<longleftrightarrow> b \<noteq> 0 \<and> c = a mod b"
  "u256_to_usize a = Some n \<longleftrightarrow> unat a < usize_bound \<and> n = unat a"
  "u256_to_u64 a = Some n \<longleftrightarrow> unat a < u64_bound \<and> n = unat a"
  by (auto simp: u256_checked_add_def u256_checked_sub_def u256_checked_mul_def
      u256_checked_div_def u256_checked_rem_def u256_to_usize_def u256_to_u64_def)

section \<open>Accounts\<close>

record account_info =
  ai_balance :: u256
  ai_bytecode :: bytes
  ai_nonce :: nat

record storage_slot =
  original_value :: u256
  current_value :: u256

record account =
  acc_info :: account_info
  acc_storage :: "h256 \<Rightarrow> storage_slot option"

type_synonym cache_db = "address \<Rightarrow> account option"

text \<open>The interface \<^verbatim>\<open>trait Database\<close> of \<^verbatim>\<open>db/mod.rs\<close>.\<close>

record database =
  get_account_info :: "address \<Rightarrow> account_info"
  get_storage_slot :: "address \<Rightarrow> h256 \<Rightarrow> u256"
  get_block_hash :: "nat \<Rightarrow> h256 option"

text \<open>The cryptographic libraries the machine calls.\<close>

record crypto =
  keccak :: "bytes \<Rightarrow> bytes"
  sha256_digest :: "bytes \<Rightarrow> bytes"
  ripemd160_digest :: "bytes \<Rightarrow> bytes"
  secp_parse_message :: "bytes \<Rightarrow> bool"
  secp_parse_rpc :: "u8 \<Rightarrow> nat option"
  secp_parse_signature :: "bytes \<Rightarrow> bool"
  secp_recover :: "bytes \<Rightarrow> bytes \<Rightarrow> nat \<Rightarrow> bytes option"

definition account_info_is_empty :: "account_info \<Rightarrow> bool" where
  "account_info_is_empty self \<longleftrightarrow> ai_balance self = 0 \<and> ai_nonce self = 0 \<and> ai_bytecode self = []"

definition bytecode_hash :: "crypto \<Rightarrow> account_info \<Rightarrow> bytes" where
  "bytecode_hash H self = keccak H (ai_bytecode self)"

definition has_code :: "crypto \<Rightarrow> account_info \<Rightarrow> bool" where
  "has_code H self \<longleftrightarrow> \<not> (ai_bytecode self = [] \<or> bytecode_hash H self = EMPTY_CODE_HASH)"

definition has_nonce :: "account_info \<Rightarrow> bool" where
  "has_nonce self \<longleftrightarrow> ai_nonce self \<noteq> 0"

definition has_code_or_nonce :: "crypto \<Rightarrow> account \<Rightarrow> bool" where
  "has_code_or_nonce H self \<longleftrightarrow> has_code H (acc_info self) \<or> has_nonce (acc_info self)"

definition account_new :: "u256 \<Rightarrow> bytes \<Rightarrow> nat \<Rightarrow> (h256 \<Rightarrow> storage_slot option) \<Rightarrow> account" where
  "account_new bal code n sto =
     \<lparr>acc_info = \<lparr>ai_balance = bal, ai_bytecode = code, ai_nonce = n\<rparr>, acc_storage = sto\<rparr>"

section \<open>Environment\<close>

type_synonym transient_storage = "address \<times> u256 \<Rightarrow> u256 option"

record environment =
  env_origin :: address
  env_refunded_gas :: nat
  env_gas_limit :: nat
  env_block_number :: u256
  env_coinbase :: address
  env_timestamp :: u256
  env_prev_randao :: "h256 option"
  env_chain_id :: u256
  env_base_fee_per_gas :: u256
  env_gas_price :: u256
  env_block_excess_blob_gas :: "u256 option"
  env_block_blob_gas_used :: "u256 option"
  env_tx_blob_hashes :: "h256 list"
  env_tx_max_priority_fee_per_gas :: "u256 option"
  env_tx_max_fee_per_gas :: "u256 option"
  env_tx_max_fee_per_blob_gas :: "u256 option"
  env_block_gas_limit :: nat
  env_transient_storage :: transient_storage

section \<open>The stack\<close>

text \<open>A stack is the vector of the code: its top is the last element.\<close>

type_synonym stack = "u256 list"

definition stack_pop :: "(u256, vm_error, stack) sm" where
  "stack_pop self = (if self = [] then (Err StackUnderflow, self) else (Ok (last self), butlast self))"

definition stack_push :: "u256 \<Rightarrow> (unit, vm_error, stack) sm" where
  "stack_push v self =
     (if STACK_LIMIT \<le> length self then (Err StackOverflow, self) else (Ok (), self @ [v]))"

definition stack_get :: "nat \<Rightarrow> stack \<Rightarrow> (u256, vm_error) result" where
  "stack_get index self = (if index < length self then Ok (self ! index) else Err StackUnderflow)"

definition stack_swap :: "nat \<Rightarrow> nat \<Rightarrow> (unit, vm_error, stack) sm" where
  "stack_swap a b self =
     (if length self \<le> a \<or> length self \<le> b then (Err StackUnderflow, self)
      else (Ok (), self[a := self ! b, b := self ! a]))"

section \<open>Call frames, reports and the machine\<close>

record log_entry =
  log_address :: address
  log_topics :: "h256 list"
  log_data :: bytes

record call_frame =
  cf_gas_limit :: nat
  cf_gas_used :: nat
  cf_pc :: nat
  cf_msg_sender :: address
  cf_to :: address
  cf_code_address :: address
  cf_bytecode :: bytes
  cf_msg_value :: u256
  cf_stack :: stack
  cf_memory :: bytes
  cf_calldata :: bytes
  cf_output :: bytes
  cf_sub_return_data :: bytes
  cf_is_static :: bool
  cf_logs :: "log_entry list"
  cf_depth :: nat
  cf_valid_jump_destinations :: "nat set"
  cf_create_op_called :: bool

record transaction_report =
  rep_result :: tx_result
  rep_new_state :: cache_db
  rep_gas_used :: nat
  rep_gas_refunded :: nat
  rep_output :: bytes
  rep_logs :: "log_entry list"
  rep_created_address :: "address option"

record substate =
  selfdestruct_set :: "address set"
  touched_accounts :: "address set"
  touched_storage_slots :: "address \<Rightarrow> h256 set option"
  created_accounts :: "address set"

datatype tx_kind = TxCall address | TxCreate

type_synonym access_list = "(address \<times> h256 list) list"

record vm =
  vm_call_frames :: "call_frame list"
  vm_env :: environment
  vm_substate :: substate
  vm_db :: database
  vm_cache :: cache_db
  vm_tx_kind :: tx_kind
  vm_access_list :: access_list

definition increment_pc_by :: "nat \<Rightarrow> (unit, vm_error, call_frame) sm" where
  "increment_pc_by n self =
     (case checked_add usize_bound (cf_pc self) n of
        Some p \<Rightarrow> (Ok (), self\<lparr>cf_pc := p\<rparr>)
      | None \<Rightarrow> (Err (Internal PCOverflowed), self))"

definition increment_pc :: "(unit, vm_error, call_frame) sm" where
  "increment_pc = increment_pc_by 1"

section \<open>Conversions between words and addresses\<close>

definition address_to_word :: "address \<Rightarrow> u256" where
  "address_to_word a = from_be_bytes (replicate 12 0 @ to_be_bytes a)"

definition word_to_address :: "u256 \<Rightarrow> address" where
  "word_to_address w = from_be_bytes (drop 12 (to_be_bytes w))"

text \<open>
  A handler works on the machine and on the frame it is given; its state is the pair. A sub-context
  gets its own frame.
\<close>

record ctx =
  c_vm :: vm
  c_frame :: call_frame

type_synonym 'a vm_m = "('a, vm_error, vm) sm"
type_synonym 'a ctx_m = "('a, vm_error, ctx) sm"

definition on_frame :: "('a, vm_error, call_frame) sm \<Rightarrow> 'a ctx_m" where
  "on_frame m s = (case m (c_frame s) of (r, f) \<Rightarrow> (r, s\<lparr>c_frame := f\<rparr>))"

definition on_vm :: "'a vm_m \<Rightarrow> 'a ctx_m" where
  "on_vm m s = (case m (c_vm s) of (r, v) \<Rightarrow> (r, s\<lparr>c_vm := v\<rparr>))"

definition on_stack :: "('a, vm_error, stack) sm \<Rightarrow> 'a ctx_m" where
  "on_stack m s =
     (case m (cf_stack (c_frame s)) of
        (r, st) \<Rightarrow> (r, s\<lparr>c_frame := (c_frame s)\<lparr>cf_stack := st\<rparr>\<rparr>))"

definition on_memory :: "('a, vm_error, bytes) sm \<Rightarrow> 'a ctx_m" where
  "on_memory m s =
     (case m (cf_memory (c_frame s)) of
        (r, mem) \<Rightarrow> (r, s\<lparr>c_frame := (c_frame s)\<lparr>cf_memory := mem\<rparr>\<rparr>))"

definition frame :: "(call_frame \<Rightarrow> 'a) \<Rightarrow> 'a ctx_m" where
  "frame f = sgets (\<lambda>s. f (c_frame s))"

definition env :: "(environment \<Rightarrow> 'a) \<Rightarrow> 'a ctx_m" where
  "env f = sgets (\<lambda>s. f (vm_env (c_vm s)))"

definition pop :: "u256 ctx_m" where
  "pop = on_stack stack_pop"

definition push :: "u256 \<Rightarrow> unit ctx_m" where
  "push v = on_stack (stack_push v)"

definition set_frame :: "(call_frame \<Rightarrow> call_frame) \<Rightarrow> unit ctx_m" where
  "set_frame f = smodify (c_frame_update f)"

text \<open>
  An operation whose \<^verbatim>\<open>Result\<close> the code keeps as a value instead of returning it to the caller, and
  \<^verbatim>\<open>map_err\<close>.
\<close>

definition attempt :: "('a, 'e, 's) sm \<Rightarrow> ('e + 'a, 'e, 's) sm" where
  "attempt m s =
     (case m s of
        (Ok a, t) \<Rightarrow> (Ok (Inr a), t)
      | (Err e, t) \<Rightarrow> (Ok (Inl e), t)
      | (Panic, t) \<Rightarrow> (Panic, t)
      | (Diverge, t) \<Rightarrow> (Diverge, t))"

definition smap_err :: "('e \<Rightarrow> 'f) \<Rightarrow> ('a, 'e, 's) sm \<Rightarrow> ('a, 'f, 's) sm" where
  "smap_err f m s = (case m s of (r, t) \<Rightarrow> (rmap_err f r, t))"

end
