(* ===== verification/Evm_Memory.thy ===== *)
theory Evm_Memory
  imports Evm_Types
begin

text \<open>
  The memory of a call frame (\<^verbatim>\<open>memory.rs\<close>): growing in words of 32 bytes, loading, storing and
  copying, and the cost of an expansion. A reservation fails exactly where the capacity of a vector
  overflows (\<open>slice_bound\<close>); an allocator that runs out of memory below that is not modelled. The
  lemmas give the size invariant, what a load returns after a store, and that the expansion costs
  of consecutive growths add up.
\<close>

section \<open>Definitions\<close>

type_synonym 'a mem_m = "('a, vm_error, bytes) sm"

definition next_multiple :: "nat \<Rightarrow> nat" where
  "next_multiple n = (n + (WORD_SIZE - 1)) div WORD_SIZE * WORD_SIZE"

definition checked_next_multiple :: "nat \<Rightarrow> nat option" where
  "checked_next_multiple n =
     (if next_multiple n < usize_bound then Some (next_multiple n) else None)"

definition try_resize :: "nat \<Rightarrow> unit mem_m" where
  "try_resize unchecked_new_size memory =
     (if unchecked_new_size = 0 \<or> unchecked_new_size \<le> length memory then (Ok (), memory)
      else case checked_next_multiple unchecked_new_size of
        None \<Rightarrow> (Err OutOfBounds, memory)
      | Some new_size \<Rightarrow>
          if length memory < new_size then
            (if new_size < slice_bound
             then (Ok (), memory @ replicate (new_size - length memory) 0)
             else (Err MemorySizeOverflow, memory))
          else (Ok (), memory))"

definition mem_get :: "nat \<Rightarrow> nat \<Rightarrow> bytes \<Rightarrow> (bytes, vm_error) result" where
  "mem_get a b memory =
     (if a \<le> b \<and> b \<le> length memory then Ok (take (b - a) (drop a memory)) else Err OutOfBounds)"

definition load_range :: "u256 \<Rightarrow> nat \<Rightarrow> bytes mem_m" where
  "load_range offset sz =
     (if sz = 0 then sreturn []
      else
        (sbind (slift (ok_or (u256_to_usize offset) VeryLargeNumber)) (\<lambda>offset.
        sbind (slift (ok_or (checked_add usize_bound offset sz) OutOfBounds)) (\<lambda>ending.
        sbind (try_resize ending) (\<lambda>_.
        sbind (slift (ok_or (checked_add usize_bound offset sz) OutOfBounds)) (\<lambda>ending.
        sbind sget (\<lambda>memory.
        slift (mem_get offset ending memory))))))))"

definition load_word :: "u256 \<Rightarrow> u256 mem_m" where
  "load_word offset = (sbind (load_range offset WORD_SIZE) (\<lambda>bs.
                      sreturn (from_be_bytes bs)))"

text \<open>The bytes of \<open>data\<close> are zipped with the slots of the range: the shorter one ends the loop.\<close>

definition mem_write :: "nat \<Rightarrow> nat \<Rightarrow> bytes \<Rightarrow> bytes \<Rightarrow> bytes" where
  "mem_write at_offset data_size data memory =
     (let n = min data_size (length data)
      in take at_offset memory @ take n data @ drop (at_offset + n) memory)"

definition try_store :: "bytes \<Rightarrow> u256 \<Rightarrow> nat \<Rightarrow> unit mem_m" where
  "try_store data at_offset data_size =
     (if data_size = 0 then sreturn ()
      else
        (sbind (slift (ok_or (u256_to_usize at_offset) VeryLargeNumber)) (\<lambda>at_offset.
        sbind (slift (ok_or (checked_add usize_bound at_offset data_size) OutOfBounds)) (\<lambda>ending.
        sbind sget (\<lambda>memory.
        if ending \<le> length memory then smodify (mem_write at_offset data_size data)
        else serr OutOfBounds)))))"

definition try_store_sized :: "u256 \<Rightarrow> nat \<Rightarrow> (nat, vm_error) result" where
  "try_store_sized offset n =
     (rbind (ok_or (u256_checked_add offset (of_nat n)) OutOfBounds) (\<lambda>ending.
     ok_or (u256_to_usize ending) VeryLargeNumber))"

definition try_store_word :: "u256 \<Rightarrow> u256 \<Rightarrow> unit mem_m" where
  "try_store_word offset w =
     (sbind (slift (try_store_sized offset WORD_SIZE)) (\<lambda>new_size.
     sbind (try_resize new_size) (\<lambda>_.
     try_store (to_be_bytes w) offset WORD_SIZE)))"

definition try_store_data :: "u256 \<Rightarrow> bytes \<Rightarrow> unit mem_m" where
  "try_store_data offset data =
     (sbind (slift (try_store_sized offset (length data))) (\<lambda>new_size.
     sbind (try_resize new_size) (\<lambda>_.
     try_store data offset (length data))))"

definition try_store_range :: "u256 \<Rightarrow> nat \<Rightarrow> bytes \<Rightarrow> unit mem_m" where
  "try_store_range offset sz data =
     (if sz = 0 then sreturn ()
      else
        (sbind (slift (try_store_sized offset sz)) (\<lambda>new_size.
        sbind (try_resize new_size) (\<lambda>_.
        try_store data offset sz))))"

text \<open>A zeroed vector of the given length; its allocation panics where the capacity overflows.\<close>

definition vec_zeroes :: "nat \<Rightarrow> (bytes, 'e) result" where
  "vec_zeroes n = (if n < slice_bound then Ok (replicate n 0) else Panic)"

definition mem_byte :: "bytes \<Rightarrow> nat \<Rightarrow> u8" where
  "mem_byte memory i = (if i < length memory then memory ! i else 0)"

text \<open>
  The two loops of \<^verbatim>\<open>try_copy_within\<close>: the first reads the source range into a buffer, zero where it
  lies outside the memory, the second writes the buffer to the slots that exist. Both add the index
  to an offset with an overflow check.
\<close>

definition copy_buffer :: "nat \<Rightarrow> nat \<Rightarrow> bytes \<Rightarrow> bytes" where
  "copy_buffer from_offset sz memory = map (\<lambda>i. mem_byte memory (from_offset + i)) [0..<sz]"

definition try_copy_within :: "u256 \<Rightarrow> u256 \<Rightarrow> nat \<Rightarrow> unit mem_m" where
  "try_copy_within from_offset to_offset sz =
     (if sz = 0 then sreturn ()
      else
        (sbind (slift (ok_or (u256_to_usize from_offset) VeryLargeNumber)) (\<lambda>from_offset.
        sbind (slift (ok_or (u256_to_usize to_offset) VeryLargeNumber)) (\<lambda>to_offset.
        sbind (slift (ok_or (checked_add usize_bound to_offset sz) OutOfBounds)) (\<lambda>ending.
        sbind (try_resize ending) (\<lambda>_.
        sbind (slift (vec_zeroes sz)) (\<lambda>_.
        sbind (slift (ok_or (checked_add usize_bound from_offset (sz - 1)) OutOfBounds)) (\<lambda>_.
        sbind sget (\<lambda>memory.
        let buffer = copy_buffer from_offset sz memory in
        smodify (mem_write to_offset sz buffer))))))))))"

definition mem_cost :: "nat \<Rightarrow> (nat, vm_error) result" where
  "mem_cost memory_size =
     (rbind (ok_or (checked_add usize_bound memory_size (WORD_SIZE - 1)) (OutOfGas MemoryExpansionCostOverflow)) (\<lambda>padded.
     let memory_size_word = padded div WORD_SIZE in
     rbind (ok_or (checked_mul usize_bound memory_size_word memory_size_word) (OutOfGas MemoryExpansionCostOverflow)) (\<lambda>square.
     rbind (ok_or (checked_div square MEMORY_EXPANSION_QUOTIENT) (OutOfGas MemoryExpansionCostOverflow)) (\<lambda>quotient.
     rbind (ok_or (checked_mul usize_bound 3 memory_size_word) (OutOfGas MemoryExpansionCostOverflow)) (\<lambda>linear.
     ok_or (checked_add usize_bound quotient linear) (OutOfGas MemoryExpansionCostOverflow))))))"

definition expansion_cost :: "nat \<Rightarrow> nat \<Rightarrow> (nat, vm_error) result" where
  "expansion_cost new_memory_size current_memory_size =
     (if new_memory_size \<le> current_memory_size then Ok 0
      else
        (rbind (mem_cost new_memory_size) (\<lambda>new_cost.
        rbind (mem_cost current_memory_size) (\<lambda>current_cost.
        ok_or (checked_sub new_cost current_cost) (Internal ArithmeticOperationUnderflow)))))"

definition calculate_memory_size :: "u256 \<Rightarrow> nat \<Rightarrow> (nat, vm_error) result" where
  "calculate_memory_size offset sz =
     (if sz = 0 then Ok 0
      else
        (rbind (ok_or (u256_to_usize offset) (OutOfGas ConsumedGasOverflow)) (\<lambda>offset.
        ok_or
        (case checked_add usize_bound offset sz of
           Some needed \<Rightarrow> checked_next_multiple needed
         | None \<Rightarrow> None) OutOfBounds)))"

section \<open>The size of the memory\<close>

definition mem_ok :: "bytes \<Rightarrow> bool" where
  "mem_ok memory \<longleftrightarrow> length memory mod 32 = 0 \<and> length memory < slice_bound"

lemma next_multiple_props:
  "n \<le> next_multiple n" "next_multiple n mod 32 = 0" "next_multiple n < n + 32"
  using div_mult_mod_eq [of "n + 31" 32] mod_less_divisor [of 32 "n + 31"]
  by (simp_all add: next_multiple_def WORD_SIZE_def)

lemma next_multiple_mono: "n \<le> a \<Longrightarrow> next_multiple n \<le> next_multiple a"
  unfolding next_multiple_def by (intro mult_le_mono1 div_le_mono) simp

lemma next_multiple_id: "n mod 32 = 0 \<Longrightarrow> next_multiple n = n"
  by (auto simp: next_multiple_def WORD_SIZE_def mod_eq_0_iff_dvd elim!: dvdE)

text \<open>A resize keeps the contents and adds zeros up to the next multiple of 32.\<close>

lemma try_resize_cases:
  obtains (ok) k where "try_resize n memory = (Ok (), memory @ replicate k 0)" "n \<le> length memory + k"
      "k = 0 \<or> (length memory + k = next_multiple n \<and> length memory + k < slice_bound \<and> length memory < n)"
  | (err) e where "try_resize n memory = (Err e, memory)"
proof (cases "n \<le> length memory")
  case True
  then show ?thesis using ok [of 0] by (simp add: try_resize_def)
next
  case False
  show ?thesis
  proof (cases "next_multiple n < slice_bound")
    case True
    then have "try_resize n memory = (Ok (), memory @ replicate (next_multiple n - length memory) 0)"
      using False next_multiple_props(1) [of n]
      by (simp add: try_resize_def checked_next_multiple_def slice_bound_def usize_bound_def)
    then show ?thesis using ok [of "next_multiple n - length memory"] True False next_multiple_props(1) [of n]
      by simp
  next
    case a: False
    then have "length memory < next_multiple n" using False next_multiple_props(1) [of n] by simp
    then have "\<exists>e. try_resize n memory = (Err e, memory)"
      using False a by (auto simp: try_resize_def checked_next_multiple_def)
    then show ?thesis using err by blast
  qed
qed

lemma try_resize_ok:
  "mem_ok memory \<Longrightarrow> try_resize n memory = (r, memory') \<Longrightarrow> mem_ok memory'"
  using next_multiple_props(2) [of n]
  by (cases rule: try_resize_cases [of n memory]) (auto simp: mem_ok_def)

lemma length_mem_write: "a + min n (length data) \<le> length memory \<Longrightarrow> length (mem_write a n data memory) = length memory"
  by (simp add: mem_write_def Let_def)

definition grows :: "bytes \<Rightarrow> bytes \<Rightarrow> bool" where
  "grows m m' \<longleftrightarrow> (mem_ok m \<longrightarrow> mem_ok m') \<and> length m \<le> length m'"

interpretation mem_grows: state_order grows
  by unfold_locales (auto simp: grows_def)

lemma grows_resize [moves_rules]: "moves grows (try_resize n)"
proof
  fix m
  show "grows m (snd (try_resize n m))"
    using try_resize_ok [of m n] by (cases rule: try_resize_cases [of n m]) (auto simp: grows_def)
qed

lemma grows_load_range [moves_rules]: "moves grows (load_range off n)"
  unfolding load_range_def by (intro moves_rules)

lemma grows_load_word [moves_rules]: "moves grows (load_word off)"
  unfolding load_word_def by (intro moves_rules)

lemma grows_store [moves_rules]: "moves grows (try_store data off n)"
proof
  fix m
  show "grows m (snd (try_store data off n m))"
    using length_mem_write [of "unat off" n data m]
    by (auto simp: try_store_def sbind_def sm_steps grows_def mem_ok_def u256_to_usize_def checked_add_def)
qed

lemma grows_store_word [moves_rules]: "moves grows (try_store_word off w)"
  unfolding try_store_word_def by (intro moves_rules)

lemma grows_store_data [moves_rules]: "moves grows (try_store_data off data)"
  unfolding try_store_data_def by (intro moves_rules)

lemma grows_store_range [moves_rules]: "moves grows (try_store_range off n data)"
  unfolding try_store_range_def by (intro moves_rules)

section \<open>Contents of the memory\<close>

lemma length_copy_buffer [simp]: "length (copy_buffer a n m) = n"
  by (simp add: copy_buffer_def)

lemma mem_byte_append0 [simp]: "mem_byte (m @ replicate k 0) i = mem_byte m i"
  by (simp add: mem_byte_def nth_append)

lemma mem_byte_write:
  "a + length data \<le> length m \<Longrightarrow>
     mem_byte (mem_write a (length data) data m) i =
       (if a \<le> i \<and> i < a + length data then data ! (i - a) else mem_byte m i)"
  by (auto simp: mem_byte_def mem_write_def Let_def nth_append)

lemma resize_Ok:
  assumes "try_resize n m = (Ok x, m')"
  shows "n \<le> length m'" "mem_byte m' i = mem_byte m i"
  using assms by (cases rule: try_resize_cases [of n m]; auto)+

lemma try_store_Ok:
  assumes "try_store data off (length data) m = (Ok x, m')" "data \<noteq> []"
  shows "unat off < usize_bound" "unat off + length data \<le> length m"
    "m' = mem_write (unat off) (length data) data m"
  using assms by (auto simp: try_store_def sbind_eq_Ok sm_steps result_simps split: if_splits)

text \<open>A load returns the bytes of the range, zeros where it lies outside, and changes no byte.\<close>

lemma load_range_Ok:
  assumes "load_range off n m = (Ok bs, m')"
  shows "length bs = n" "i < n \<Longrightarrow> bs ! i = mem_byte m (unat off + i)" "mem_byte m' j = mem_byte m j"
proof -
  have "length bs = n \<and> (\<forall>i < n. bs ! i = mem_byte m (unat off + i)) \<and> mem_byte m' j = mem_byte m j"
  proof (cases "n = 0")
    case False
    then have r: "try_resize (unat off + n) m = (Ok (), m')" "mem_get (unat off) (unat off + n) m' = Ok bs"
      using assms by (auto simp: load_range_def sbind_eq_Ok sm_steps result_simps)
    have "bs ! i = mem_byte m' (unat off + i)" if "i < n" for i
      using r(2) that by (auto simp: mem_get_def mem_byte_def split: if_splits)
    then show ?thesis using resize_Ok [OF r(1)] r(2) by (auto simp: mem_get_def split: if_splits)
  qed (use assms in \<open>auto simp: load_range_def sm_steps\<close>)
  then show "length bs = n" "i < n \<Longrightarrow> bs ! i = mem_byte m (unat off + i)" "mem_byte m' j = mem_byte m j"
    by auto
qed

lemma try_store_data_Ok:
  assumes "try_store_data off data m = (Ok x, m')" "data \<noteq> []"
  shows "unat off + length data \<le> length m'"
    "mem_byte m' i = (if unat off \<le> i \<and> i < unat off + length data then data ! (i - unat off)
       else mem_byte m i)"
proof -
  obtain k m1 where m1: "try_resize k m = (Ok (), m1)" "try_store data off (length data) m1 = (Ok x, m')"
    using assms(1) by (auto simp: try_store_data_def sbind_eq_Ok sm_steps)
  note st = try_store_Ok [OF m1(2) assms(2)]
  show "unat off + length data \<le> length m'" using st length_mem_write [of "unat off" "length data" data m1] by simp
  show "mem_byte m' i = (if unat off \<le> i \<and> i < unat off + length data then data ! (i - unat off)
       else mem_byte m i)"
    using st mem_byte_write [of "unat off" data m1 i] resize_Ok(2) [OF m1(1), of i] by simp
qed

lemma load_range_inside:
  assumes "unat off + n \<le> length m" "unat off + n < usize_bound" "n \<noteq> 0"
  shows "load_range off n m = (Ok (take n (drop (unat off) m)), m)"
  using assms by (simp add: load_range_def sbind_def sm_steps u256_to_usize_def checked_add_def
      try_resize_def mem_get_def)

lemma load_after_store:
  assumes "try_store_word off w m = (Ok x, m')" "mem_ok m"
  shows "load_word off m' = (Ok w, m')"
proof -
  have st: "try_store_data off (to_be_bytes w) m = (Ok x, m')"
    using assms(1) by (simp add: try_store_word_def try_store_data_def WORD_SIZE_def)
  have "length (to_be_bytes w) = 32" by (simp add: to_be_bytes_def)
  then have "to_be_bytes w \<noteq> []" by (metis list.size(3) zero_neq_numeral)
  note d = try_store_data_Ok [OF st this]
  have "mem_ok m'"
    using assms(2) movesD [OF grows_store_data, of m off "to_be_bytes w"] st by (simp add: grows_def)
  moreover have l: "unat off + 32 \<le> length m'" using d(1) by (simp add: to_be_bytes_def)
  moreover have "take 32 (drop (unat off) m') = to_be_bytes w"
  proof (rule nth_equalityI)
    fix i
    assume "i < length (take 32 (drop (unat off) m'))"
    then have "i < 32" by simp
    then show "take 32 (drop (unat off) m') ! i = to_be_bytes w ! i"
      using d(2) [of "unat off + i"] l by (simp add: mem_byte_def to_be_bytes_def)
  qed (use l in simp)
  ultimately have "load_range off WORD_SIZE m' = (Ok (to_be_bytes w), m')"
    using load_range_inside [of off 32 m'] by (simp add: mem_ok_def slice_bound_def usize_bound_def WORD_SIZE_def)
  then show ?thesis by (simp add: load_word_def sbind_def sm_steps to_be_bytes_inverse)
qed

text \<open>Copying reads the source before it writes: overlapping ranges are copied correctly.\<close>

lemma try_copy_within_Ok:
  assumes "try_copy_within src dst n m = (Ok x, m')"
  shows "mem_byte m' i =
    (if unat dst \<le> i \<and> i < unat dst + n then mem_byte m (unat src + (i - unat dst)) else mem_byte m i)"
proof (cases "n = 0")
  case False
  then obtain m1 where m1: "try_resize (unat dst + n) m = (Ok (), m1)"
    "m' = mem_write (unat dst) n (copy_buffer (unat src) n m1) m1"
    using assms by (auto simp: try_copy_within_def sbind_eq_Ok sm_steps result_simps Let_def)
  have "mem_byte m' i = (if unat dst \<le> i \<and> i < unat dst + n
      then copy_buffer (unat src) n m1 ! (i - unat dst) else mem_byte m1 i)"
    using mem_byte_write [of "unat dst" "copy_buffer (unat src) n m1" m1 i] resize_Ok(1) [OF m1(1)] m1(2)
    by simp
  then show ?thesis using resize_Ok(2) [OF m1(1)] by (auto simp: copy_buffer_def)
qed (use assms in \<open>auto simp: try_copy_within_def sm_steps\<close>)

lemma grows_copy_within [moves_rules]: "moves grows (try_copy_within src dst n)"
proof
  fix m
  show "grows m (snd (try_copy_within src dst n m))"
  proof (cases "n \<noteq> 0 \<and> unat src < usize_bound \<and> unat dst + n < usize_bound")
    case True
    then have e: "try_copy_within src dst n m =
        (case try_resize (unat dst + n) m of
           (Ok _, m1) \<Rightarrow>
             if slice_bound \<le> n then (Panic, m1)
             else if unat src + (n - 1) < usize_bound
               then (Ok (), mem_write (unat dst) n (copy_buffer (unat src) n m1) m1)
               else (Err OutOfBounds, m1)
         | (Err e, m1) \<Rightarrow> (Err e, m1) | (Panic, m1) \<Rightarrow> (Panic, m1) | (Diverge, m1) \<Rightarrow> (Diverge, m1))"
      by (auto simp: try_copy_within_def sbind_def sm_steps u256_to_usize_def checked_add_def vec_zeroes_def
          Let_def split: prod.split result.split)
    show ?thesis
    proof (cases rule: try_resize_cases [of "unat dst + n" m])
      case (ok k)
      then have "length (mem_write (unat dst) n (copy_buffer (unat src) n (m @ replicate k 0)) (m @ replicate k 0)) =
          length m + k"
        using length_mem_write [of "unat dst" n "copy_buffer (unat src) n (m @ replicate k 0)" "m @ replicate k 0"]
        by simp
      moreover have "grows m (m @ replicate k 0)"
        using movesD [OF grows_resize, of m "unat dst + n"] ok(1) by simp
      ultimately show ?thesis using e ok(1) by (simp add: grows_def mem_ok_def)
    qed (simp add: e mem_grows.same)
  qed (auto simp: try_copy_within_def sbind_def sm_steps u256_to_usize_def checked_add_def mem_grows.same)
qed

section \<open>Cost of an expansion\<close>

definition words :: "nat \<Rightarrow> nat" where
  "words n = (n + 31) div 32"

lemma mem_cost_Ok: "mem_cost n = Ok c \<longleftrightarrow> n + 31 < usize_bound \<and> words n * words n < usize_bound \<and>
    3 * words n < usize_bound \<and> words n * words n div 512 + 3 * words n < usize_bound \<and>
    c = words n * words n div 512 + 3 * words n"
  by (auto simp: mem_cost_def words_def WORD_SIZE_def MEMORY_EXPANSION_QUOTIENT_def result_simps Let_def)

lemma mem_cost_mono: "mem_cost a = Ok c \<Longrightarrow> mem_cost b = Ok d \<Longrightarrow> a \<le> b \<Longrightarrow> c \<le> d"
proof -
  assume "mem_cost a = Ok c" "mem_cost b = Ok d" "a \<le> b"
  moreover from this have "words a \<le> words b" by (simp add: words_def div_le_mono)
  ultimately show "c \<le> d" by (auto simp: mem_cost_Ok intro!: add_mono div_le_mono mult_le_mono)
qed

lemma expansion_cost_Ok: "expansion_cost n c = Ok k \<longleftrightarrow>
    (if n \<le> c then k = 0 else \<exists>x y. mem_cost n = Ok x \<and> mem_cost c = Ok y \<and> k = x - y)"
  using mem_cost_mono [of c _ n] by (force simp: expansion_cost_def result_simps)

text \<open>The price of a growth does not depend on the steps it is made in.\<close>

lemma expansion_cost_add:
  assumes "expansion_cost b a = Ok x" "expansion_cost c b = Ok y" "a \<le> b" "b \<le> c"
  shows "expansion_cost c a = Ok (x + y)"
proof -
  consider "a = b" | "b = c" | "a < b" "b < c" using assms(3,4) by linarith
  then show ?thesis
  proof cases
    case 3
    then obtain p q r where "mem_cost a = Ok p" "mem_cost b = Ok q" "mem_cost c = Ok r" "x = q - p" "y = r - q"
      using assms by (auto simp: expansion_cost_Ok)
    moreover from this 3 have "p \<le> q" "q \<le> r" using mem_cost_mono by (auto simp: less_imp_le)
    ultimately show ?thesis using 3 by (auto simp: expansion_cost_Ok)
  qed (use assms in \<open>auto simp: expansion_cost_Ok\<close>)
qed

text \<open>Memory that could be paid for is far below the capacity of a vector.\<close>

lemma mem_cost_small: "mem_cost n = Ok c \<Longrightarrow> n < 2 ^ 37"
proof (rule ccontr)
  assume c: "mem_cost n = Ok c" and n: "\<not> n < 2 ^ 37"
  then have "2 ^ 32 \<le> words n" by (simp add: words_def)
  then have "2 ^ 32 * 2 ^ 32 \<le> words n * words n" by (intro mult_le_mono)
  then show False using c by (simp add: mem_cost_Ok usize_bound_def)
qed

lemma expansion_cost_small: "expansion_cost n c = Ok k \<Longrightarrow> n \<le> c \<or> n < 2 ^ 37"
  using mem_cost_small by (auto simp: expansion_cost_Ok split: if_splits)

lemma calculate_memory_size_Ok:
  "calculate_memory_size off n = Ok k \<longleftrightarrow>
     (if n = 0 then k = 0
      else unat off + n < usize_bound \<and> next_multiple (unat off + n) < usize_bound \<and>
        k = next_multiple (unat off + n))"
  by (auto simp: calculate_memory_size_def result_simps checked_add_def checked_next_multiple_def
      u256_to_usize_def split: option.splits if_splits)

end
