(* ===== verification/Evm_Opcodes.thy ===== *)
theory Evm_Opcodes
  imports Evm_Memory
begin

text \<open>
  The instruction set (\<^verbatim>\<open>opcodes.rs\<close>) and the analysis of jump destinations (\<^verbatim>\<open>vm.rs\<close>). The
  numbered families \<^verbatim>\<open>PUSH1..PUSH32\<close>, \<^verbatim>\<open>DUP1..DUP16\<close>, \<^verbatim>\<open>SWAP1..SWAP16\<close> and \<^verbatim>\<open>LOG0..LOG4\<close> are
  constructors with the number as argument, which is what \<^verbatim>\<open>get_n_value\<close> and
  \<^verbatim>\<open>get_number_of_topics\<close> compute from the code; the other instructions are grouped by the sections
  of the enumeration. The lemmas characterise the computed
  destinations by the instruction boundaries of the code.
\<close>

section \<open>Instructions\<close>

datatype arithmetic_op =
    STOP | ADD | MUL | SUB | DIV | SDIV | MOD | SMOD | ADDMOD | MULMOD | EXP | SIGNEXTEND

datatype comparison_op =
    LT | GT | SLT | SGT | EQ | ISZERO | AND | OR | XOR | NOT | BYTE | SHL | SHR | SAR

datatype environment_op =
    ADDRESS | BALANCE | ORIGIN | CALLER | CALLVALUE | CALLDATALOAD | CALLDATASIZE
    | CALLDATACOPY | CODESIZE | CODECOPY | GASPRICE | EXTCODESIZE | EXTCODECOPY
    | RETURNDATASIZE | RETURNDATACOPY | EXTCODEHASH

datatype block_op =
    BLOCKHASH | COINBASE | TIMESTAMP | NUMBER | PREVRANDAO | GASLIMIT | CHAINID
    | SELFBALANCE | BASEFEE | BLOBHASH | BLOBBASEFEE

datatype flow_op =
    POP | MLOAD | MSTORE | MSTORE8 | SLOAD | SSTORE | JUMP | JUMPI | PC | MSIZE | GAS
    | JUMPDEST | TLOAD | TSTORE | MCOPY

datatype system_op =
    CREATE | CALL | CALLCODE | RETURN | DELEGATECALL | CREATE2 | STATICCALL | REVERT
    | INVALID | SELFDESTRUCT

datatype opcode =
    Arith arithmetic_op | Cmp comparison_op | KECCAK256 | Envr environment_op | Block block_op
  | Flow flow_op | PUSH0 | PUSH nat | DUP nat | SWAP nat | LOG nat | Sys system_op

definition opcode_table :: "(u8 \<times> opcode) list" where
  "opcode_table =
     [(0x00, Arith STOP), (0x01, Arith ADD), (0x16, Cmp AND), (0x17, Cmp OR),
      (0x18, Cmp XOR), (0x19, Cmp NOT), (0x1A, Cmp BYTE), (0x1B, Cmp SHL), (0x1C, Cmp SHR),
      (0x1D, Cmp SAR), (0x02, Arith MUL), (0x03, Arith SUB), (0x04, Arith DIV),
      (0x05, Arith SDIV), (0x06, Arith MOD), (0x07, Arith SMOD), (0x08, Arith ADDMOD),
      (0x09, Arith MULMOD), (0x0A, Arith EXP), (0x0B, Arith SIGNEXTEND), (0x10, Cmp LT),
      (0x11, Cmp GT), (0x12, Cmp SLT), (0x13, Cmp SGT), (0x14, Cmp EQ), (0x15, Cmp ISZERO),
      (0x20, KECCAK256), (0x30, Envr ADDRESS), (0x31, Envr BALANCE), (0x32, Envr ORIGIN),
      (0x33, Envr CALLER), (0x34, Envr CALLVALUE), (0x35, Envr CALLDATALOAD),
      (0x36, Envr CALLDATASIZE), (0x37, Envr CALLDATACOPY), (0x38, Envr CODESIZE),
      (0x39, Envr CODECOPY), (0x3A, Envr GASPRICE), (0x3B, Envr EXTCODESIZE),
      (0x3C, Envr EXTCODECOPY), (0x3D, Envr RETURNDATASIZE), (0x3E, Envr RETURNDATACOPY),
      (0x3F, Envr EXTCODEHASH), (0x40, Block BLOCKHASH), (0x41, Block COINBASE),
      (0x42, Block TIMESTAMP), (0x43, Block NUMBER), (0x44, Block PREVRANDAO),
      (0x45, Block GASLIMIT), (0x46, Block CHAINID), (0x47, Block SELFBALANCE),
      (0x48, Block BASEFEE), (0x49, Block BLOBHASH), (0x4A, Block BLOBBASEFEE),
      (0x50, Flow POP), (0x56, Flow JUMP), (0x57, Flow JUMPI), (0x58, Flow PC),
      (0x5B, Flow JUMPDEST), (0x5F, PUSH0), (0x51, Flow MLOAD), (0x52, Flow MSTORE),
      (0x53, Flow MSTORE8), (0x54, Flow SLOAD), (0x55, Flow SSTORE), (0x59, Flow MSIZE),
      (0x5A, Flow GAS), (0x5E, Flow MCOPY), (0x5C, Flow TLOAD), (0x5D, Flow TSTORE),
      (0xF0, Sys CREATE), (0xF1, Sys CALL), (0xF2, Sys CALLCODE), (0xF3, Sys RETURN),
      (0xF5, Sys CREATE2), (0xF4, Sys DELEGATECALL), (0xFA, Sys STATICCALL),
      (0xFD, Sys REVERT), (0xFF, Sys SELFDESTRUCT)]"

definition opcode_from_u8 :: "u8 \<Rightarrow> opcode" where
  "opcode_from_u8 b =
     (if 0x60 \<le> b \<and> b \<le> 0x7F then PUSH (unat b - 0x5F)
      else if 0x80 \<le> b \<and> b \<le> 0x8F then DUP (unat b - 0x7F)
      else if 0x90 \<le> b \<and> b \<le> 0x9F then SWAP (unat b - 0x8F)
      else if 0xA0 \<le> b \<and> b \<le> 0xA4 then LOG (unat b - 0xA0)
      else case map_of opcode_table b of Some op \<Rightarrow> op | None \<Rightarrow> Sys INVALID)"

definition next_opcode :: "call_frame \<Rightarrow> opcode" where
  "next_opcode self =
     (if cf_pc self < length (cf_bytecode self)
      then opcode_from_u8 (cf_bytecode self ! cf_pc self) else Arith STOP)"

section \<open>Jump destinations\<close>

text \<open>
  The width of the instruction at a position: a push is followed by its data. The loop of
  \<^verbatim>\<open>get_valid_jump_destinations\<close> moves by it; the positions it computes overflow a \<^verbatim>\<open>usize\<close> only for
  code longer than any vector, so its error branch is the one with the bound.
\<close>

definition instr_width :: "u8 \<Rightarrow> nat" where
  "instr_width b = (case opcode_from_u8 b of PUSH n \<Rightarrow> n + 1 | _ \<Rightarrow> 1)"

function jump_destinations_loop :: "bytes \<Rightarrow> nat \<Rightarrow> nat set \<Rightarrow> (nat set, vm_error) result" where
  "jump_destinations_loop code pc acc =
     (if pc < length code then
        let acc = (if opcode_from_u8 (code ! pc) = Flow JUMPDEST then insert pc acc else acc);
            pc' = pc + instr_width (code ! pc)
        in if pc' < usize_bound then jump_destinations_loop code pc' acc
           else Err (Internal ArithmeticOperationOverflow)
      else Ok acc)"
  by pat_completeness auto
termination
  by (relation "measure (\<lambda>(code, pc, acc). length code - pc)")
    (auto simp: instr_width_def split: opcode.split)

declare jump_destinations_loop.simps [simp del]

definition get_valid_jump_destinations :: "bytes \<Rightarrow> (nat set, vm_error) result" where
  "get_valid_jump_destinations code = jump_destinations_loop code 0 {}"

text \<open>The constructors of a frame fall back to the empty set of destinations (\<^verbatim>\<open>unwrap_or_default\<close>).\<close>

definition jump_destinations_or_default :: "bytes \<Rightarrow> nat set" where
  "jump_destinations_or_default code =
     (case get_valid_jump_destinations code of Ok d \<Rightarrow> d | _ \<Rightarrow> {})"

definition call_frame_new ::
  "address \<Rightarrow> address \<Rightarrow> address \<Rightarrow> bytes \<Rightarrow> u256 \<Rightarrow> bytes \<Rightarrow> bool \<Rightarrow> nat \<Rightarrow> nat \<Rightarrow> nat \<Rightarrow> bool \<Rightarrow> call_frame"
where
  "call_frame_new msg_sender to code_address bytecode msg_value calldata is_static gas_limit
     gas_used depth create_op_called =
     \<lparr>cf_gas_limit = gas_limit, cf_gas_used = gas_used, cf_pc = 0, cf_msg_sender = msg_sender,
      cf_to = to, cf_code_address = code_address, cf_bytecode = bytecode, cf_msg_value = msg_value,
      cf_stack = [], cf_memory = [], cf_calldata = calldata, cf_output = [],
      cf_sub_return_data = [], cf_is_static = is_static, cf_logs = [], cf_depth = depth,
      cf_valid_jump_destinations = jump_destinations_or_default bytecode,
      cf_create_op_called = create_op_called\<rparr>"

definition assign_bytecode :: "bytes \<Rightarrow> call_frame \<Rightarrow> call_frame" where
  "assign_bytecode bytecode self =
     self\<lparr>cf_bytecode := bytecode,
          cf_valid_jump_destinations := jump_destinations_or_default bytecode\<rparr>"

section \<open>Instruction boundaries\<close>

text \<open>
  The positions at which instructions start, reached from a given start by whole instructions, as
  an inductive relation; the code itself starts at 0.
\<close>

inductive instr_from :: "bytes \<Rightarrow> nat \<Rightarrow> nat \<Rightarrow> bool" for code start where
  here: "instr_from code start start"
| following: "instr_from code start pc \<Longrightarrow> pc < length code \<Longrightarrow>
     instr_from code start (pc + instr_width (code ! pc))"

lemma opcode_table_push: "map_of opcode_table b \<noteq> Some (PUSH n)"
proof
  assume "map_of opcode_table b = Some (PUSH n)"
  then have "(b, PUSH n) \<in> set opcode_table" by (rule map_of_SomeD)
  moreover have "list_all (\<lambda>(b, c). case c of PUSH _ \<Rightarrow> False | _ \<Rightarrow> True) opcode_table"
    by (simp add: opcode_table_def)
  ultimately show False by (auto simp: list_all_iff)
qed

lemma instr_width_pos: "0 < instr_width b" "instr_width b \<le> 33"
proof -
  show "0 < instr_width b" by (simp add: instr_width_def split: opcode.split)
  have "n \<le> 32" if "opcode_from_u8 b = PUSH n" for n
    using that opcode_table_push [of b n]
    by (auto simp: opcode_from_u8_def word_le_nat_alt split: if_splits option.splits)
  then show "instr_width b \<le> 33" by (auto simp: instr_width_def split: opcode.split)
qed

lemma instr_from_ge: "instr_from code p q \<Longrightarrow> p \<le> q"
  by (induction rule: instr_from.induct) auto

lemma instr_from_end: "length code \<le> p \<Longrightarrow> instr_from code p q \<longleftrightarrow> q = p"
proof
  assume p: "length code \<le> p" "instr_from code p q"
  from p(2) show "q = p" by cases (use p(1) instr_from_ge [of code p] in fastforce)+
qed (simp add: instr_from.here)

lemma instr_from_step:
  assumes "p < length code"
  shows "instr_from code p q \<longleftrightarrow> q = p \<or> instr_from code (p + instr_width (code ! p)) q"
proof
  assume "instr_from code p q"
  then show "q = p \<or> instr_from code (p + instr_width (code ! p)) q"
    by induction (auto intro: instr_from.intros)
next
  assume "q = p \<or> instr_from code (p + instr_width (code ! p)) q"
  then show "instr_from code p q"
  proof
    assume "instr_from code (p + instr_width (code ! p)) q"
    then show ?thesis by induction (auto intro: instr_from.intros assms)
  qed (simp add: instr_from.here)
qed

definition jumpdests :: "bytes \<Rightarrow> nat \<Rightarrow> nat set" where
  "jumpdests code p =
     {q. instr_from code p q \<and> q < length code \<and> opcode_from_u8 (code ! q) = Flow JUMPDEST}"

lemma jumpdests_step:
  "p < length code \<Longrightarrow> jumpdests code p =
     (if opcode_from_u8 (code ! p) = Flow JUMPDEST then {p} else {}) \<union>
     jumpdests code (p + instr_width (code ! p))"
  by (auto simp: jumpdests_def instr_from_step [of p code])

lemma jump_destinations_loop_eq:
  "length code + 33 < usize_bound \<Longrightarrow>
     jump_destinations_loop code pc acc = Ok (acc \<union> jumpdests code pc)"
proof (induction code pc acc rule: jump_destinations_loop.induct)
  case (1 code pc acc)
  show ?case
  proof (cases "pc < length code")
    case True
    let ?acc = "if opcode_from_u8 (code ! pc) = Flow JUMPDEST then insert pc acc else acc"
    have "pc + instr_width (code ! pc) < usize_bound"
      using True 1(2) instr_width_pos(2) [of "code ! pc"] by linarith
    then have "jump_destinations_loop code pc acc =
        Ok (?acc \<union> jumpdests code (pc + instr_width (code ! pc)))"
      using 1 True by (simp add: jump_destinations_loop.simps [of code pc acc] Let_def)
    then show ?thesis using jumpdests_step [OF True] by auto
  next
    case False
    then show ?thesis
      by (auto simp: jump_destinations_loop.simps [of code pc acc] jumpdests_def instr_from_end)
  qed
qed

end
