(* ===== verification/Evm_Gas.thy ===== *)
theory Evm_Gas
  imports Evm_Opcodes
begin

text \<open>
  The gas schedule (\<^verbatim>\<open>gas_cost.rs\<close>). The constants keep the names of the source; those that are
  aliases of the \<^verbatim>\<open>DEFAULT_*\<close> costs are written as these, and the fixed costs of the simple
  instructions are the tables \<open>arithmetic_gas\<close> to \<open>flow_gas\<close>. Every sum and product of the
  source is checked against the range of a \<^verbatim>\<open>u64\<close>; the conversion of a \<^verbatim>\<open>usize\<close> to a \<^verbatim>\<open>u64\<close> cannot
  fail on the 64-bit targets modelled here.
\<close>

section \<open>Constants\<close>

abbreviation (input) EXP_STATIC :: nat where "EXP_STATIC \<equiv> 10"
abbreviation (input) EXP_DYNAMIC_BASE :: nat where "EXP_DYNAMIC_BASE \<equiv> 50"
abbreviation (input) KECCAK25_STATIC :: nat where "KECCAK25_STATIC \<equiv> 30"
abbreviation (input) KECCAK25_DYNAMIC_BASE :: nat where "KECCAK25_DYNAMIC_BASE \<equiv> 6"
abbreviation (input) CALLDATACOPY_STATIC :: nat where "CALLDATACOPY_STATIC \<equiv> 3"
abbreviation (input) CALLDATACOPY_DYNAMIC_BASE :: nat where "CALLDATACOPY_DYNAMIC_BASE \<equiv> 3"
abbreviation (input) RETURNDATACOPY_STATIC :: nat where "RETURNDATACOPY_STATIC \<equiv> 3"
abbreviation (input) RETURNDATACOPY_DYNAMIC_BASE :: nat where "RETURNDATACOPY_DYNAMIC_BASE \<equiv> 3"
abbreviation (input) MLOAD_STATIC :: nat where "MLOAD_STATIC \<equiv> 3"
abbreviation (input) MSTORE_STATIC :: nat where "MSTORE_STATIC \<equiv> 3"
abbreviation (input) MSTORE8_STATIC :: nat where "MSTORE8_STATIC \<equiv> 3"
abbreviation (input) MCOPY_STATIC :: nat where "MCOPY_STATIC \<equiv> 3"
abbreviation (input) MCOPY_DYNAMIC_BASE :: nat where "MCOPY_DYNAMIC_BASE \<equiv> 3"
abbreviation (input) PUSHN :: nat where "PUSHN \<equiv> 3"
abbreviation (input) DUPN :: nat where "DUPN \<equiv> 3"
abbreviation (input) SWAPN :: nat where "SWAPN \<equiv> 3"
abbreviation (input) LOGN_STATIC :: nat where "LOGN_STATIC \<equiv> 375"
abbreviation (input) LOGN_DYNAMIC_BASE :: nat where "LOGN_DYNAMIC_BASE \<equiv> 375"
abbreviation (input) LOGN_DYNAMIC_BYTE_BASE :: nat where "LOGN_DYNAMIC_BYTE_BASE \<equiv> 8"
abbreviation (input) CODECOPY_STATIC :: nat where "CODECOPY_STATIC \<equiv> 3"
abbreviation (input) CODECOPY_DYNAMIC_BASE :: nat where "CODECOPY_DYNAMIC_BASE \<equiv> 3"
abbreviation (input) SELFDESTRUCT_STATIC :: nat where "SELFDESTRUCT_STATIC \<equiv> 5000"
abbreviation (input) SELFDESTRUCT_DYNAMIC :: nat where "SELFDESTRUCT_DYNAMIC \<equiv> 25000"
abbreviation (input) DEFAULT_STATIC :: nat where "DEFAULT_STATIC \<equiv> 0"
abbreviation (input) DEFAULT_COLD_DYNAMIC :: nat where "DEFAULT_COLD_DYNAMIC \<equiv> 2600"
abbreviation (input) DEFAULT_WARM_DYNAMIC :: nat where "DEFAULT_WARM_DYNAMIC \<equiv> 100"
abbreviation (input) SLOAD_STATIC :: nat where "SLOAD_STATIC \<equiv> 0"
abbreviation (input) SLOAD_COLD_DYNAMIC :: nat where "SLOAD_COLD_DYNAMIC \<equiv> 2100"
abbreviation (input) SLOAD_WARM_DYNAMIC :: nat where "SLOAD_WARM_DYNAMIC \<equiv> 100"
abbreviation (input) SSTORE_STATIC :: nat where "SSTORE_STATIC \<equiv> 0"
abbreviation (input) SSTORE_COLD_DYNAMIC :: nat where "SSTORE_COLD_DYNAMIC \<equiv> 2100"
abbreviation (input) SSTORE_DEFAULT_DYNAMIC :: nat where "SSTORE_DEFAULT_DYNAMIC \<equiv> 100"
abbreviation (input) SSTORE_STORAGE_CREATION :: nat where "SSTORE_STORAGE_CREATION \<equiv> 20000"
abbreviation (input) SSTORE_STORAGE_MODIFICATION :: nat where "SSTORE_STORAGE_MODIFICATION \<equiv> 2900"
abbreviation (input) SSTORE_STIPEND :: nat where "SSTORE_STIPEND \<equiv> 2300"
abbreviation (input) EXTCODECOPY_STATIC :: nat where "EXTCODECOPY_STATIC \<equiv> 0"
abbreviation (input) EXTCODECOPY_DYNAMIC_BASE :: nat where "EXTCODECOPY_DYNAMIC_BASE \<equiv> 3"
abbreviation (input) CALL_POSITIVE_VALUE :: nat where "CALL_POSITIVE_VALUE \<equiv> 9000"
abbreviation (input) CALL_POSITIVE_VALUE_STIPEND :: nat where "CALL_POSITIVE_VALUE_STIPEND \<equiv> 2300"
abbreviation (input) CALL_TO_EMPTY_ACCOUNT :: nat where "CALL_TO_EMPTY_ACCOUNT \<equiv> 25000"
abbreviation (input) CALLCODE_POSITIVE_VALUE :: nat where "CALLCODE_POSITIVE_VALUE \<equiv> 9000"
abbreviation (input) CALLCODE_POSITIVE_VALUE_STIPEND :: nat where "CALLCODE_POSITIVE_VALUE_STIPEND \<equiv> 2300"
abbreviation (input) COLD_ADDRESS_ACCESS_COST :: nat where "COLD_ADDRESS_ACCESS_COST \<equiv> 2600"
abbreviation (input) INIT_CODE_WORD_COST :: nat where "INIT_CODE_WORD_COST \<equiv> 2"
abbreviation (input) CODE_DEPOSIT_COST :: nat where "CODE_DEPOSIT_COST \<equiv> 200"
abbreviation (input) CREATE_BASE_COST :: nat where "CREATE_BASE_COST \<equiv> 32000"
abbreviation (input) CALLDATA_COST_ZERO_BYTE :: nat where "CALLDATA_COST_ZERO_BYTE \<equiv> 4"
abbreviation (input) CALLDATA_COST_NON_ZERO_BYTE :: nat where "CALLDATA_COST_NON_ZERO_BYTE \<equiv> 16"
abbreviation (input) BLOB_GAS_PER_BLOB :: nat where "BLOB_GAS_PER_BLOB \<equiv> 131072"
abbreviation (input) ACCESS_LIST_STORAGE_KEY_COST :: nat where "ACCESS_LIST_STORAGE_KEY_COST \<equiv> 1900"
abbreviation (input) ACCESS_LIST_ADDRESS_COST :: nat where "ACCESS_LIST_ADDRESS_COST \<equiv> 2400"
abbreviation (input) ECRECOVER_COST :: nat where "ECRECOVER_COST \<equiv> 3000"
abbreviation (input) SHA2_256_STATIC_COST :: nat where "SHA2_256_STATIC_COST \<equiv> 60"
abbreviation (input) SHA2_256_DYNAMIC_BASE :: nat where "SHA2_256_DYNAMIC_BASE \<equiv> 12"
abbreviation (input) RIPEMD_160_STATIC_COST :: nat where "RIPEMD_160_STATIC_COST \<equiv> 600"
abbreviation (input) RIPEMD_160_DYNAMIC_BASE :: nat where "RIPEMD_160_DYNAMIC_BASE \<equiv> 120"
abbreviation (input) IDENTITY_STATIC_COST :: nat where "IDENTITY_STATIC_COST \<equiv> 15"
abbreviation (input) IDENTITY_DYNAMIC_BASE :: nat where "IDENTITY_DYNAMIC_BASE \<equiv> 3"
abbreviation (input) MODEXP_STATIC_COST :: nat where "MODEXP_STATIC_COST \<equiv> 0"
abbreviation (input) MODEXP_DYNAMIC_BASE :: nat where "MODEXP_DYNAMIC_BASE \<equiv> 200"
abbreviation (input) MODEXP_DYNAMIC_QUOTIENT :: nat where "MODEXP_DYNAMIC_QUOTIENT \<equiv> 3"
abbreviation (input) PUSH0_GAS :: nat where "PUSH0_GAS \<equiv> 2"

definition arithmetic_gas :: "arithmetic_op \<Rightarrow> nat" where
  "arithmetic_gas c =
     (case c of
        STOP \<Rightarrow> 0 | ADD \<Rightarrow> 3 | MUL \<Rightarrow> 5
       | SUB \<Rightarrow> 3 | DIV \<Rightarrow> 5 | SDIV \<Rightarrow> 5
       | MOD \<Rightarrow> 5 | SMOD \<Rightarrow> 5 | ADDMOD \<Rightarrow> 8
       | MULMOD \<Rightarrow> 8 | SIGNEXTEND \<Rightarrow> 5 | _ \<Rightarrow> 0)"

definition comparison_gas :: "comparison_op \<Rightarrow> nat" where
  "comparison_gas c =
     (case c of
        LT \<Rightarrow> 3 | GT \<Rightarrow> 3 | SLT \<Rightarrow> 3 | SGT \<Rightarrow> 3
       | EQ \<Rightarrow> 3 | ISZERO \<Rightarrow> 3 | AND \<Rightarrow> 3
       | OR \<Rightarrow> 3 | XOR \<Rightarrow> 3 | NOT \<Rightarrow> 3
       | BYTE \<Rightarrow> 3 | SHL \<Rightarrow> 3 | SHR \<Rightarrow> 3
       | SAR \<Rightarrow> 3)"

definition environment_gas :: "environment_op \<Rightarrow> nat" where
  "environment_gas c =
     (case c of
        ADDRESS \<Rightarrow> 2 | ORIGIN \<Rightarrow> 2 | CALLER \<Rightarrow> 2
       | CALLVALUE \<Rightarrow> 2 | CALLDATALOAD \<Rightarrow> 3
       | CALLDATASIZE \<Rightarrow> 2 | CODESIZE \<Rightarrow> 2
       | GASPRICE \<Rightarrow> 2 | RETURNDATASIZE \<Rightarrow> 2 | _ \<Rightarrow> 0)"

definition block_gas :: "block_op \<Rightarrow> nat" where
  "block_gas c =
     (case c of
        BLOCKHASH \<Rightarrow> 20 | COINBASE \<Rightarrow> 2 | TIMESTAMP \<Rightarrow> 2
       | NUMBER \<Rightarrow> 2 | PREVRANDAO \<Rightarrow> 2 | GASLIMIT \<Rightarrow> 2
       | CHAINID \<Rightarrow> 2 | SELFBALANCE \<Rightarrow> 5 | BASEFEE \<Rightarrow> 2
       | BLOBHASH \<Rightarrow> 3 | BLOBBASEFEE \<Rightarrow> 2)"

definition flow_gas :: "flow_op \<Rightarrow> nat" where
  "flow_gas c =
     (case c of
        POP \<Rightarrow> 2 | JUMP \<Rightarrow> 8 | JUMPI \<Rightarrow> 10
       | PC \<Rightarrow> 2 | MSIZE \<Rightarrow> 2 | GAS \<Rightarrow> 2
       | JUMPDEST \<Rightarrow> 1 | TLOAD \<Rightarrow> 100 | TSTORE \<Rightarrow> 100 | _ \<Rightarrow> 0)"

abbreviation gas_add :: "nat \<Rightarrow> nat \<Rightarrow> (nat, vm_error) result" where
  "gas_add a b \<equiv> ok_or (checked_add u64_bound a b) (OutOfGas GasCostOverflow)"

abbreviation gas_mul :: "nat \<Rightarrow> nat \<Rightarrow> (nat, vm_error) result" where
  "gas_mul a b \<equiv> ok_or (checked_mul u64_bound a b) (OutOfGas GasCostOverflow)"

section \<open>Costs of the instructions\<close>

text \<open>The number of significant bits (\<^verbatim>\<open>U256::bits\<close>).\<close>

definition u256_bits :: "u256 \<Rightarrow> nat" where
  "u256_bits w = floorlog 2 (unat w)"

definition gas_exp :: "u256 \<Rightarrow> (nat, vm_error) result" where
  "gas_exp exponent =
     (rbind (ok_or (checked_add usize_bound (u256_bits exponent) 7) (OutOfGas GasCostOverflow)) (\<lambda>padded.
     let exponent_byte_size = padded div 8 in
     rbind (gas_mul EXP_DYNAMIC_BASE exponent_byte_size) (\<lambda>exponent_byte_size_cost.
     gas_add EXP_STATIC exponent_byte_size_cost)))"

definition copy_behavior :: "nat \<Rightarrow> nat \<Rightarrow> nat \<Rightarrow> nat \<Rightarrow> nat \<Rightarrow> (nat, vm_error) result" where
  "copy_behavior new_memory_size current_memory_size sz dynamic_base static_cost =
     (rbind (ok_or (checked_add usize_bound sz WORD_SIZE) (OutOfGas GasCostOverflow)) (\<lambda>padded.
     let minimum_word_size = (padded - 1) div WORD_SIZE in
     rbind (expansion_cost new_memory_size current_memory_size) (\<lambda>memory_expansion_cost.
     rbind (gas_mul dynamic_base minimum_word_size) (\<lambda>minimum_word_size_cost.
     rbind (gas_add static_cost minimum_word_size_cost) (\<lambda>c.
     gas_add c memory_expansion_cost)))))"

definition gas_calldatacopy :: "nat \<Rightarrow> nat \<Rightarrow> nat \<Rightarrow> (nat, vm_error) result" where
  "gas_calldatacopy new_memory_size current_memory_size sz =
     copy_behavior new_memory_size current_memory_size sz CALLDATACOPY_DYNAMIC_BASE CALLDATACOPY_STATIC"

definition gas_codecopy :: "nat \<Rightarrow> nat \<Rightarrow> nat \<Rightarrow> (nat, vm_error) result" where
  "gas_codecopy new_memory_size current_memory_size sz =
     copy_behavior new_memory_size current_memory_size sz CODECOPY_DYNAMIC_BASE CODECOPY_STATIC"

definition gas_returndatacopy :: "nat \<Rightarrow> nat \<Rightarrow> nat \<Rightarrow> (nat, vm_error) result" where
  "gas_returndatacopy new_memory_size current_memory_size sz =
     copy_behavior new_memory_size current_memory_size sz RETURNDATACOPY_DYNAMIC_BASE RETURNDATACOPY_STATIC"

definition gas_keccak256 :: "nat \<Rightarrow> nat \<Rightarrow> nat \<Rightarrow> (nat, vm_error) result" where
  "gas_keccak256 new_memory_size current_memory_size sz =
     copy_behavior new_memory_size current_memory_size sz KECCAK25_DYNAMIC_BASE KECCAK25_STATIC"

definition gas_log :: "nat \<Rightarrow> nat \<Rightarrow> nat \<Rightarrow> nat \<Rightarrow> (nat, vm_error) result" where
  "gas_log new_memory_size current_memory_size sz number_of_topics =
     (rbind (expansion_cost new_memory_size current_memory_size) (\<lambda>memory_expansion_cost.
     rbind (gas_mul LOGN_DYNAMIC_BASE number_of_topics) (\<lambda>topics_cost.
     rbind (gas_mul LOGN_DYNAMIC_BYTE_BASE sz) (\<lambda>bytes_cost.
     rbind (gas_add topics_cost LOGN_STATIC) (\<lambda>c.
     rbind (gas_add c bytes_cost) (\<lambda>c.
     gas_add c memory_expansion_cost))))))"

definition mem_expansion_behavior :: "nat \<Rightarrow> nat \<Rightarrow> nat \<Rightarrow> (nat, vm_error) result" where
  "mem_expansion_behavior new_memory_size current_memory_size static_cost =
     (rbind (expansion_cost new_memory_size current_memory_size) (\<lambda>memory_expansion_cost.
     gas_add static_cost memory_expansion_cost))"

definition gas_mload :: "nat \<Rightarrow> nat \<Rightarrow> (nat, vm_error) result" where
  "gas_mload new_memory_size current_memory_size =
     mem_expansion_behavior new_memory_size current_memory_size MLOAD_STATIC"

definition gas_mstore :: "nat \<Rightarrow> nat \<Rightarrow> (nat, vm_error) result" where
  "gas_mstore new_memory_size current_memory_size =
     mem_expansion_behavior new_memory_size current_memory_size MSTORE_STATIC"

definition gas_mstore8 :: "nat \<Rightarrow> nat \<Rightarrow> (nat, vm_error) result" where
  "gas_mstore8 new_memory_size current_memory_size =
     mem_expansion_behavior new_memory_size current_memory_size MSTORE8_STATIC"

definition gas_sload :: "bool \<Rightarrow> (nat, vm_error) result" where
  "gas_sload storage_slot_was_cold =
     gas_add SLOAD_STATIC (if storage_slot_was_cold then SLOAD_COLD_DYNAMIC else SLOAD_WARM_DYNAMIC)"

definition gas_sstore :: "storage_slot \<Rightarrow> u256 \<Rightarrow> bool \<Rightarrow> call_frame \<Rightarrow> (nat, vm_error) result" where
  "gas_sstore slot new_value storage_slot_was_cold current_call_frame =
     (rbind (ok_or (checked_sub (cf_gas_limit current_call_frame) (cf_gas_used current_call_frame))
            (OutOfGas ConsumedGasOverflow)) (\<lambda>gas_left.
     if gas_left \<le> SSTORE_STIPEND then Err (OutOfGas MaxGasLimitExceeded)
     else
       let base_dynamic_gas =
         (if new_value = current_value slot then SSTORE_DEFAULT_DYNAMIC
          else if current_value slot = original_value slot then
            (if original_value slot = 0 then SSTORE_STORAGE_CREATION
             else SSTORE_STORAGE_MODIFICATION)
          else SSTORE_DEFAULT_DYNAMIC) in
       (rbind (if storage_slot_was_cold then gas_add base_dynamic_gas SSTORE_COLD_DYNAMIC
              else Ok base_dynamic_gas) (\<lambda>base_dynamic_gas.
       gas_add SSTORE_STATIC base_dynamic_gas))))"

definition gas_mcopy :: "nat \<Rightarrow> nat \<Rightarrow> nat \<Rightarrow> (nat, vm_error) result" where
  "gas_mcopy new_memory_size current_memory_size sz =
     (rbind (ok_or (checked_add usize_bound sz WORD_SIZE) (OutOfGas GasCostOverflow)) (\<lambda>padded.
     let words_copied = (padded - 1) div WORD_SIZE in
     rbind (expansion_cost new_memory_size current_memory_size) (\<lambda>memory_expansion_cost.
     rbind (gas_mul MCOPY_DYNAMIC_BASE words_copied) (\<lambda>copied_words_cost.
     rbind (gas_add MCOPY_STATIC copied_words_cost) (\<lambda>c.
     gas_add c memory_expansion_cost)))))"

abbreviation create_add :: "nat \<Rightarrow> nat \<Rightarrow> (nat, vm_error) result" where
  "create_add a b \<equiv> ok_or (checked_add u64_bound a b) (OutOfGas CreationCostIsTooHigh)"

definition compute_gas_create :: "nat \<Rightarrow> nat \<Rightarrow> nat \<Rightarrow> bool \<Rightarrow> (nat, vm_error) result" where
  "compute_gas_create new_memory_size current_memory_size code_size_in_memory is_create_2 =
     (rbind (ok_or (checked_add usize_bound code_size_in_memory 31) (OutOfGas GasCostOverflow)) (\<lambda>padded.
     rbind (ok_or (checked_div padded 32) (OutOfGas GasDividedByZero)) (\<lambda>minimum_word_size.
     rbind (gas_mul minimum_word_size INIT_CODE_WORD_COST) (\<lambda>init_code_cost.
     rbind (expansion_cost new_memory_size current_memory_size) (\<lambda>memory_expansion_cost.
     rbind (if is_create_2 then gas_mul minimum_word_size KECCAK25_DYNAMIC_BASE else Ok 0) (\<lambda>hash_cost.
     rbind (create_add memory_expansion_cost init_code_cost) (\<lambda>c.
     rbind (create_add c CREATE_BASE_COST) (\<lambda>c.
     create_add c hash_cost))))))))"

definition gas_create :: "nat \<Rightarrow> nat \<Rightarrow> nat \<Rightarrow> (nat, vm_error) result" where
  "gas_create new_memory_size current_memory_size code_size_in_memory =
     compute_gas_create new_memory_size current_memory_size code_size_in_memory False"

definition gas_create_2 :: "nat \<Rightarrow> nat \<Rightarrow> nat \<Rightarrow> (nat, vm_error) result" where
  "gas_create_2 new_memory_size current_memory_size code_size_in_memory =
     compute_gas_create new_memory_size current_memory_size code_size_in_memory True"

definition gas_selfdestruct :: "bool \<Rightarrow> bool \<Rightarrow> u256 \<Rightarrow> (nat, vm_error) result" where
  "gas_selfdestruct address_was_cold account_is_empty balance_to_transfer =
     (rbind (if address_was_cold then gas_add SELFDESTRUCT_STATIC COLD_ADDRESS_ACCESS_COST
            else Ok SELFDESTRUCT_STATIC) (\<lambda>c.
     if account_is_empty \<and> 0 < balance_to_transfer then gas_add c SELFDESTRUCT_DYNAMIC else Ok c))"

primrec tx_calldata_loop :: "bytes \<Rightarrow> nat \<Rightarrow> (nat, vm_error) result" where
  "tx_calldata_loop [] calldata_cost = Ok calldata_cost"
| "tx_calldata_loop (b # bs) calldata_cost =
     (rbind (ok_or
            (checked_add u64_bound calldata_cost
              (if b \<noteq> 0 then CALLDATA_COST_NON_ZERO_BYTE else CALLDATA_COST_ZERO_BYTE))
            (OutOfGas GasUsedOverflow)) (\<lambda>calldata_cost.
     tx_calldata_loop bs calldata_cost))"

definition tx_calldata :: "bytes \<Rightarrow> (nat, vm_error) result" where
  "tx_calldata calldata = tx_calldata_loop calldata 0"

definition tx_creation :: "nat \<Rightarrow> nat \<Rightarrow> (nat, vm_error) result" where
  "tx_creation code_length number_of_words =
     (rbind (ok_or (checked_mul u64_bound code_length 200) (OutOfGas CreationCostIsTooHigh)) (\<lambda>creation_cost.
     rbind (create_add creation_cost 32000) (\<lambda>creation_cost.
     rbind (gas_mul number_of_words 2) (\<lambda>words_cost.
     ok_or (checked_add u64_bound creation_cost words_cost) (OutOfGas GasUsedOverflow)))))"

definition address_access_cost :: "bool \<Rightarrow> nat \<Rightarrow> nat \<Rightarrow> nat \<Rightarrow> (nat, vm_error) result" where
  "address_access_cost address_was_cold static_cost cold_dynamic_cost warm_dynamic_cost =
     gas_add static_cost (if address_was_cold then cold_dynamic_cost else warm_dynamic_cost)"

definition gas_balance :: "bool \<Rightarrow> (nat, vm_error) result" where
  "gas_balance address_was_cold =
     address_access_cost address_was_cold DEFAULT_STATIC DEFAULT_COLD_DYNAMIC DEFAULT_WARM_DYNAMIC"

definition gas_extcodesize :: "bool \<Rightarrow> (nat, vm_error) result" where
  "gas_extcodesize address_was_cold =
     address_access_cost address_was_cold DEFAULT_STATIC DEFAULT_COLD_DYNAMIC DEFAULT_WARM_DYNAMIC"

definition gas_extcodecopy :: "nat \<Rightarrow> nat \<Rightarrow> nat \<Rightarrow> bool \<Rightarrow> (nat, vm_error) result" where
  "gas_extcodecopy sz new_memory_size current_memory_size address_was_cold =
     (rbind (copy_behavior new_memory_size current_memory_size sz
            EXTCODECOPY_DYNAMIC_BASE EXTCODECOPY_STATIC) (\<lambda>base_access_cost.
     rbind (address_access_cost address_was_cold EXTCODECOPY_STATIC
            DEFAULT_COLD_DYNAMIC DEFAULT_WARM_DYNAMIC) (\<lambda>expansion_access_cost.
     gas_add base_access_cost expansion_access_cost)))"

definition gas_extcodehash :: "bool \<Rightarrow> (nat, vm_error) result" where
  "gas_extcodehash address_was_cold =
     address_access_cost address_was_cold DEFAULT_STATIC DEFAULT_COLD_DYNAMIC DEFAULT_WARM_DYNAMIC"

definition gas_call :: "nat \<Rightarrow> nat \<Rightarrow> bool \<Rightarrow> bool \<Rightarrow> u256 \<Rightarrow> (nat, vm_error) result" where
  "gas_call new_memory_size current_memory_size address_was_cold address_is_empty value_to_transfer =
     (rbind (expansion_cost new_memory_size current_memory_size) (\<lambda>memory_expansion_cost.
     rbind (address_access_cost address_was_cold DEFAULT_STATIC DEFAULT_COLD_DYNAMIC
            DEFAULT_WARM_DYNAMIC) (\<lambda>access_cost.
     rbind (if value_to_transfer \<noteq> 0
            then ok_or (checked_sub CALL_POSITIVE_VALUE CALL_POSITIVE_VALUE_STIPEND)
                   (Internal ArithmeticOperationUnderflow)
            else Ok 0) (\<lambda>positive_value_cost.
     let value_to_empty_account = (if address_is_empty \<and> value_to_transfer \<noteq> 0 then CALL_TO_EMPTY_ACCOUNT else 0) in
     rbind (gas_add memory_expansion_cost access_cost) (\<lambda>c.
     rbind (gas_add c positive_value_cost) (\<lambda>c.
     rbind (gas_add c value_to_empty_account) (\<lambda>dynamic_gas.
     gas_add DEFAULT_STATIC dynamic_gas)))))))"

definition gas_callcode :: "nat \<Rightarrow> nat \<Rightarrow> bool \<Rightarrow> u256 \<Rightarrow> (nat, vm_error) result" where
  "gas_callcode new_memory_size current_memory_size address_was_cold value_to_transfer =
     (rbind (expansion_cost new_memory_size current_memory_size) (\<lambda>memory_expansion_cost.
     rbind (address_access_cost address_was_cold DEFAULT_STATIC DEFAULT_COLD_DYNAMIC
            DEFAULT_WARM_DYNAMIC) (\<lambda>access_cost.
     rbind (if value_to_transfer \<noteq> 0
            then ok_or (checked_sub CALLCODE_POSITIVE_VALUE CALLCODE_POSITIVE_VALUE_STIPEND)
                   (Internal ArithmeticOperationUnderflow)
            else Ok 0) (\<lambda>positive_value_cost.
     rbind (gas_add memory_expansion_cost access_cost) (\<lambda>c.
     rbind (gas_add c positive_value_cost) (\<lambda>dynamic_gas.
     gas_add DEFAULT_STATIC dynamic_gas))))))"

definition gas_delegatecall :: "nat \<Rightarrow> nat \<Rightarrow> bool \<Rightarrow> (nat, vm_error) result" where
  "gas_delegatecall new_memory_size current_memory_size address_was_cold =
     (rbind (expansion_cost new_memory_size current_memory_size) (\<lambda>memory_expansion_cost.
     rbind (address_access_cost address_was_cold DEFAULT_STATIC DEFAULT_COLD_DYNAMIC
            DEFAULT_WARM_DYNAMIC) (\<lambda>access_cost.
     rbind (gas_add memory_expansion_cost access_cost) (\<lambda>dynamic_gas.
     gas_add DEFAULT_STATIC dynamic_gas))))"

definition gas_staticcall :: "nat \<Rightarrow> nat \<Rightarrow> bool \<Rightarrow> (nat, vm_error) result" where
  "gas_staticcall new_memory_size current_memory_size address_was_cold =
     (rbind (expansion_cost new_memory_size current_memory_size) (\<lambda>memory_expansion_cost.
     rbind (address_access_cost address_was_cold DEFAULT_STATIC DEFAULT_COLD_DYNAMIC
            DEFAULT_WARM_DYNAMIC) (\<lambda>access_cost.
     rbind (gas_add memory_expansion_cost access_cost) (\<lambda>dynamic_gas.
     gas_add DEFAULT_STATIC dynamic_gas))))"

section \<open>The blob gas exponential\<close>

text \<open>
  The loop shared by the two copies of \<^verbatim>\<open>fake_exponential\<close>, the one on \<^verbatim>\<open>u64\<close> in \<^verbatim>\<open>gas_cost.rs\<close> and the
  one on \<^verbatim>\<open>U256\<close> in \<^verbatim>\<open>opcode_handlers/block.rs\<close>, with the width as the bound of its checks
  and the error of a division by zero as a parameter. It ends:
  as long as \<open>denominator * i\<close> is at most the numerator that product grows, and afterwards the
  accumulator shrinks.
\<close>

function fake_exponential_loop ::
  "nat \<Rightarrow> internal_error \<Rightarrow> nat \<Rightarrow> nat \<Rightarrow> nat \<Rightarrow> nat \<Rightarrow> nat \<Rightarrow> (nat, vm_error) result" where
  "fake_exponential_loop bound div_err numerator denominator i output numerator_accum =
     (if 0 < numerator_accum then
        if output + numerator_accum < bound \<and> numerator_accum * numerator < bound \<and>
           denominator * i < bound then
          if denominator * i = 0 then Err (Internal div_err)
          else if i + 1 < bound then
            fake_exponential_loop bound div_err numerator denominator (i + 1)
              (output + numerator_accum) (numerator_accum * numerator div (denominator * i))
          else Err (Internal ArithmeticOperationOverflow)
        else Err (Internal ArithmeticOperationOverflow)
      else Ok output)"
  by pat_completeness auto
termination
proof (relation "measures [\<lambda>(b, e, n, d, i, out, acc). n + 1 - d * i, \<lambda>(b, e, n, d, i, out, acc). acc]")
  fix b n d i out acc :: nat and e :: internal_error
  assume a: "0 < acc" and di: "d * i \<noteq> 0"
  then have d: "0 < d" "0 < d * i" by auto
  have "n + 1 - d * (i + 1) < n + 1 - d * i" if "d * i \<le> n" using that d by simp
  moreover have "acc * n div (d * i) < acc" if "n < d * i"
    using that a d by (simp add: div_less_iff_less_mult)
  ultimately show "((b, e, n, d, i + 1, out + acc, acc * n div (d * i)), b, e, n, d, i, out, acc)
      \<in> measures [\<lambda>(b, e, n, d, i, out, acc). n + 1 - d * i, \<lambda>(b, e, n, d, i, out, acc). acc]"
    using d by (cases "d * i \<le> n") auto
qed simp

declare fake_exponential_loop.simps [simp del]

definition fake_exponential :: "nat \<Rightarrow> nat \<Rightarrow> nat \<Rightarrow> (nat, vm_error) result" where
  "fake_exponential factor numerator denominator =
     (rbind (ok_or (checked_mul u64_bound factor denominator)
            (Internal ArithmeticOperationOverflow)) (\<lambda>numerator_accum.
     rbind (fake_exponential_loop u64_bound ArithmeticOperationOverflow numerator denominator 1 0 numerator_accum) (\<lambda>output.
     ok_or (checked_div output denominator) (Internal ArithmeticOperationOverflow))))"

section \<open>Precompiles and message calls\<close>

definition gas_precompile :: "nat \<Rightarrow> nat \<Rightarrow> nat \<Rightarrow> (nat, vm_error) result" where
  "gas_precompile data_size static_cost dynamic_base =
     (rbind (gas_add data_size (WORD_SIZE - 1)) (\<lambda>padded.
     let data_word_cost = padded div WORD_SIZE in
     rbind (gas_mul dynamic_base data_word_cost) (\<lambda>dynamic_gas.
     gas_add static_cost dynamic_gas)))"

definition gas_sha2_256 :: "nat \<Rightarrow> (nat, vm_error) result" where
  "gas_sha2_256 data_size = gas_precompile data_size SHA2_256_STATIC_COST SHA2_256_DYNAMIC_BASE"

definition gas_ripemd_160 :: "nat \<Rightarrow> (nat, vm_error) result" where
  "gas_ripemd_160 data_size = gas_precompile data_size RIPEMD_160_STATIC_COST RIPEMD_160_DYNAMIC_BASE"

definition gas_identity :: "nat \<Rightarrow> (nat, vm_error) result" where
  "gas_identity data_size = gas_precompile data_size IDENTITY_STATIC_COST IDENTITY_DYNAMIC_BASE"

text \<open>
  \<^verbatim>\<open>2usize.checked_pow(256)\<close> is \<open>None\<close> on every target, so the branch for exponents longer than a
  word is an error.
\<close>

definition usize_checked_pow :: "nat \<Rightarrow> nat \<Rightarrow> nat option" where
  "usize_checked_pow a n = (if a ^ n < usize_bound then Some (a ^ n) else None)"

definition gas_modexp :: "u256 \<Rightarrow> nat \<Rightarrow> nat \<Rightarrow> nat \<Rightarrow> (nat, vm_error) result" where
  "gas_modexp exponent base_size exponent_size modulus_size =
     (rbind (gas_add (max base_size modulus_size) 7) (\<lambda>padded.
     let n_words = padded div 32 in
     rbind (gas_mul n_words n_words) (\<lambda>multiplication_complexity.
     rbind (if exponent_size \<le> 32 \<and> exponent = 0 then Ok 0
            else if exponent_size \<le> 32
              then ok_or (checked_sub (u256_bits exponent) 1) (Internal ArithmeticOperationUnderflow)
            else
              (rbind (ok_or (checked_sub exponent_size 32) (Internal ArithmeticOperationUnderflow)) (\<lambda>excess.
              rbind (ok_or (checked_mul u64_bound 8 excess) (Internal ArithmeticOperationOverflow)) (\<lambda>scaled.
              rbind (ok_or (usize_checked_pow 2 256) (Internal ArithmeticOperationOverflow)) (\<lambda>power.
              rbind (ok_or (checked_sub power 1) (Internal ArithmeticOperationOverflow)) (\<lambda>mask.
              rbind (ok_or
                     (checked_sub (u256_bits (semiring_bit_operations_class.and exponent (of_nat mask))) 1)
                     (Internal ArithmeticOperationUnderflow)) (\<lambda>head_bits.
              ok_or (checked_add u64_bound scaled head_bits) (Internal ArithmeticOperationOverflow)))))))) (\<lambda>iteration_count.
     rbind (gas_mul multiplication_complexity (max iteration_count 1)) (\<lambda>product.
     let dynamic_gas = max MODEXP_DYNAMIC_BASE (product div MODEXP_DYNAMIC_QUOTIENT) in
     gas_add MODEXP_STATIC_COST dynamic_gas)))))"

definition max_message_call_gas :: "call_frame \<Rightarrow> (nat, vm_error) result" where
  "max_message_call_gas current_call_frame =
     (rbind (ok_or (checked_sub (cf_gas_limit current_call_frame) (cf_gas_used current_call_frame))
            (Internal GasOverflow)) (\<lambda>remaining_gas.
     ok_or (checked_sub remaining_gas (remaining_gas div 64)) (Internal GasOverflow)))"

end
