(* ===== verification/Evm_State.thy ===== *)
theory Evm_State
  imports Evm_Gas
begin

text \<open>
  The state behind the machine: accounts in the cache over the database, their balances, nonces,
  code and storage (\<^verbatim>\<open>vm.rs\<close>), the addresses of new contracts, and the precompiled contracts
  (\<^verbatim>\<open>precompiles.rs\<close>). \<^verbatim>\<open>get_account_mut\<close> returns a reference into the cache; its callers here write
  the changed account back.
\<close>

section \<open>Gas\<close>

definition increase_consumed_gas :: "nat \<Rightarrow> unit ctx_m" where
  "increase_consumed_gas gas =
     on_frame (\<lambda>f.
       case checked_add u64_bound (cf_gas_used f) gas of
         None \<Rightarrow> (Err (OutOfGas ConsumedGasOverflow), f)
       | Some potential_consumed_gas \<Rightarrow>
           if cf_gas_limit f < potential_consumed_gas then (Err (OutOfGas MaxGasLimitExceeded), f)
           else (Ok (), f\<lparr>cf_gas_used := potential_consumed_gas\<rparr>))"

section \<open>Accounts\<close>

definition load_account :: "database \<Rightarrow> address \<Rightarrow> account" where
  "load_account d a = \<lparr>acc_info = get_account_info d a, acc_storage = Map.empty\<rparr>"

definition get_account_mut :: "address \<Rightarrow> account vm_m" where
  "get_account_mut a self =
     (case vm_cache self a of
        Some acc \<Rightarrow> (Ok acc, self)
      | None \<Rightarrow> (let acc = load_account (vm_db self) a
                in (Ok acc, self\<lparr>vm_cache := (vm_cache self)(a \<mapsto> acc)\<rparr>)))"

definition get_account_or_load :: "database \<Rightarrow> cache_db \<Rightarrow> address \<Rightarrow> account \<times> cache_db" where
  "get_account_or_load d c a =
     (case c a of
        Some acc \<Rightarrow> (acc, c)
      | None \<Rightarrow> (let acc = load_account d a in (acc, c(a \<mapsto> acc))))"

definition get_account :: "address \<Rightarrow> account vm_m" where
  "get_account a self =
     (case get_account_or_load (vm_db self) (vm_cache self) a of
        (acc, c) \<Rightarrow> (Ok acc, self\<lparr>vm_cache := c\<rparr>))"

definition insert_account :: "address \<Rightarrow> account \<Rightarrow> unit vm_m" where
  "insert_account a acc = smodify (\<lambda>self. self\<lparr>vm_cache := (vm_cache self)(a \<mapsto> acc)\<rparr>)"

definition remove_account :: "address \<Rightarrow> unit vm_m" where
  "remove_account a = smodify (\<lambda>self. self\<lparr>vm_cache := (vm_cache self)(a := None)\<rparr>)"

definition touch :: "address \<Rightarrow> unit vm_m" where
  "touch a = smodify (\<lambda>self. self\<lparr>vm_substate := (vm_substate self)
     \<lparr>touched_accounts := insert a (touched_accounts (vm_substate self))\<rparr>\<rparr>)"

definition access_account :: "address \<Rightarrow> (account_info \<times> bool) vm_m" where
  "access_account a =
     (sbind (sgets (\<lambda>self. a \<notin> touched_accounts (vm_substate self))) (\<lambda>address_was_cold.
     sbind (touch a) (\<lambda>_.
     sbind (sgets (\<lambda>self.
            case vm_cache self a of
              Some account \<Rightarrow> acc_info account
            | None \<Rightarrow> get_account_info (vm_db self) a)) (\<lambda>acc.
     sreturn (acc, address_was_cold)))))"

definition touched_slots :: "vm \<Rightarrow> address \<Rightarrow> h256 set" where
  "touched_slots self a =
     (case touched_storage_slots (vm_substate self) a of Some ks \<Rightarrow> ks | None \<Rightarrow> {})"

definition read_slot :: "vm \<Rightarrow> address \<Rightarrow> h256 \<Rightarrow> storage_slot" where
  "read_slot self a key =
     (let v = get_storage_slot (vm_db self) a key;
          fresh = \<lparr>original_value = v, current_value = v\<rparr>
      in case vm_cache self a of
           Some account \<Rightarrow> (case acc_storage account key of Some slot \<Rightarrow> slot | None \<Rightarrow> fresh)
         | None \<Rightarrow> fresh)"

definition access_storage_slot :: "address \<Rightarrow> h256 \<Rightarrow> (storage_slot \<times> bool) vm_m" where
  "access_storage_slot a key =
     (sbind (sgets (\<lambda>self. key \<notin> touched_slots self a)) (\<lambda>storage_slot_was_cold.
     sbind (smodify (\<lambda>self. self\<lparr>vm_substate := (vm_substate self)
            \<lparr>touched_storage_slots := (touched_storage_slots (vm_substate self))
              (a \<mapsto> insert key (touched_slots self a))\<rparr>\<rparr>)) (\<lambda>_.
     sbind (sgets (\<lambda>self. read_slot self a key)) (\<lambda>slot.
     sbind (get_account_mut a) (\<lambda>account.
     sbind (insert_account a (account\<lparr>acc_storage := (acc_storage account)(key \<mapsto> slot)\<rparr>)) (\<lambda>_.
     sreturn (slot, storage_slot_was_cold)))))))"

definition increase_account_balance :: "address \<Rightarrow> u256 \<Rightarrow> unit vm_m" where
  "increase_account_balance a increase =
     (sbind (get_account_mut a) (\<lambda>account.
     sbind (slift (ok_or (u256_checked_add (ai_balance (acc_info account)) increase) BalanceOverflow)) (\<lambda>bal.
     insert_account a (account\<lparr>acc_info := (acc_info account)\<lparr>ai_balance := bal\<rparr>\<rparr>))))"

definition decrease_account_balance :: "address \<Rightarrow> u256 \<Rightarrow> unit vm_m" where
  "decrease_account_balance a decrease =
     (sbind (get_account_mut a) (\<lambda>account.
     sbind (slift (ok_or (u256_checked_sub (ai_balance (acc_info account)) decrease) BalanceUnderflow)) (\<lambda>bal.
     insert_account a (account\<lparr>acc_info := (acc_info account)\<lparr>ai_balance := bal\<rparr>\<rparr>))))"

definition increment_account_nonce :: "address \<Rightarrow> nat vm_m" where
  "increment_account_nonce a =
     (sbind (get_account_mut a) (\<lambda>account.
     sbind (slift (ok_or (checked_add u64_bound (ai_nonce (acc_info account)) 1) NonceOverflow)) (\<lambda>n.
     sbind (insert_account a (account\<lparr>acc_info := (acc_info account)\<lparr>ai_nonce := n\<rparr>\<rparr>)) (\<lambda>_.
     sreturn n))))"

definition decrement_account_nonce :: "address \<Rightarrow> unit vm_m" where
  "decrement_account_nonce a =
     (sbind (get_account_mut a) (\<lambda>account.
     sbind (slift (ok_or (checked_sub (ai_nonce (acc_info account)) 1) NonceUnderflow)) (\<lambda>n.
     insert_account a (account\<lparr>acc_info := (acc_info account)\<lparr>ai_nonce := n\<rparr>\<rparr>))))"

definition update_account_bytecode :: "address \<Rightarrow> bytes \<Rightarrow> unit vm_m" where
  "update_account_bytecode a new_bytecode =
     (sbind (get_account_mut a) (\<lambda>account.
     insert_account a (account\<lparr>acc_info := (acc_info account)\<lparr>ai_bytecode := new_bytecode\<rparr>\<rparr>)))"

definition update_account_storage :: "address \<Rightarrow> h256 \<Rightarrow> u256 \<Rightarrow> unit vm_m" where
  "update_account_storage a key new_value =
     (sbind (get_account_mut a) (\<lambda>account.
     let original = (case acc_storage account key of Some slot \<Rightarrow> original_value slot | None \<Rightarrow> 0) in
     let slot = (case acc_storage account key of
           Some slot \<Rightarrow> slot
         | None \<Rightarrow> \<lparr>original_value = original, current_value = new_value\<rparr>) in
     insert_account a (account\<lparr>acc_storage := (acc_storage account)
     (key \<mapsto> slot\<lparr>current_value := new_value\<rparr>)\<rparr>)))"

section \<open>Addresses of new contracts\<close>

definition address_from_hash :: "internal_error \<Rightarrow> bytes \<Rightarrow> (address, vm_error) result" where
  "address_from_hash e h =
     (if 12 \<le> length h then if length h = 32 then Ok (from_be_bytes (drop 12 h)) else Panic
      else Err (Internal e))"

definition calculate_create_address :: "crypto \<Rightarrow> address \<Rightarrow> nat \<Rightarrow> (address, vm_error) result" where
  "calculate_create_address H sender_address sender_nonce =
     (let encoded = encode_tuple2 encode_address encode_u64 (to_be_bytes sender_address, of_nat sender_nonce)
      in address_from_hash CouldNotComputeCreateAddress (keccak H encoded))"

definition calculate_create2_address :: "crypto \<Rightarrow> address \<Rightarrow> bytes \<Rightarrow> u256 \<Rightarrow> (address, vm_error) result" where
  "calculate_create2_address H sender_address initialization_code salt =
     (let init_code_hash = keccak H initialization_code
      in address_from_hash CouldNotComputeCreate2Address
           (keccak H ([0xff] @ to_be_bytes sender_address @ to_be_bytes salt @ init_code_hash)))"

section \<open>Precompiled contracts\<close>

abbreviation (input) ECRECOVER_ADDRESS :: address where "ECRECOVER_ADDRESS \<equiv> 1"
abbreviation (input) SHA2_256_ADDRESS :: address where "SHA2_256_ADDRESS \<equiv> 2"
abbreviation (input) RIPEMD_160_ADDRESS :: address where "RIPEMD_160_ADDRESS \<equiv> 3"
abbreviation (input) IDENTITY_ADDRESS :: address where "IDENTITY_ADDRESS \<equiv> 4"
abbreviation (input) MODEXP_ADDRESS :: address where "MODEXP_ADDRESS \<equiv> 5"
abbreviation (input) ECADD_ADDRESS :: address where "ECADD_ADDRESS \<equiv> 6"
abbreviation (input) ECMUL_ADDRESS :: address where "ECMUL_ADDRESS \<equiv> 7"
abbreviation (input) ECPAIRING_ADDRESS :: address where "ECPAIRING_ADDRESS \<equiv> 8"
abbreviation (input) BLAKE2F_ADDRESS :: address where "BLAKE2F_ADDRESS \<equiv> 9"
abbreviation (input) POINT_EVALUATION_ADDRESS :: address where "POINT_EVALUATION_ADDRESS \<equiv> 10"

definition PRECOMPILES :: "address list" where
  "PRECOMPILES =
     [ECRECOVER_ADDRESS, SHA2_256_ADDRESS, RIPEMD_160_ADDRESS, IDENTITY_ADDRESS, MODEXP_ADDRESS,
      ECADD_ADDRESS, ECMUL_ADDRESS, ECPAIRING_ADDRESS, BLAKE2F_ADDRESS, POINT_EVALUATION_ADDRESS]"

definition is_precompile :: "address \<Rightarrow> bool" where
  "is_precompile callee_address \<longleftrightarrow> callee_address \<in> set PRECOMPILES"

definition increase_precompile_consumed_gas :: "nat \<Rightarrow> nat \<Rightarrow> (unit, vm_error, nat) sm" where
  "increase_precompile_consumed_gas gas_for_call gas_cost consumed_gas =
     (if gas_for_call < gas_cost then (Err (PrecompileError NotEnoughGas), consumed_gas)
      else case checked_add u64_bound consumed_gas gas_cost of
        Some g \<Rightarrow> (Ok (), g)
      | None \<Rightarrow> (Err (PrecompileError GasConsumedOverflow), consumed_gas))"

definition fill_with_zeros :: "bytes \<Rightarrow> bytes" where
  "fill_with_zeros sl = take 128 (sl @ replicate 128 0)"

text \<open>
  The recovered key is serialised to 65 bytes; the hash of the last 64 is written over the first 32
  of them, and its last 20 bytes are the address.
\<close>

definition ecrecover :: "crypto \<Rightarrow> bytes \<Rightarrow> nat \<Rightarrow> (bytes, vm_error, nat) sm" where
  "ecrecover H calldata gas_for_call =
     (sbind (increase_precompile_consumed_gas gas_for_call ECRECOVER_COST) (\<lambda>_.
     let calldata = fill_with_zeros calldata in
     let hash = take 32 calldata in
     if \<not> secp_parse_message H hash then serr (PrecompileError ParsingInputError)
     else
       let v = (from_be_bytes (take 32 (drop 32 calldata)) :: u256) in
       if \<not> (v = 27 \<or> v = 28) then sreturn []
       else case secp_parse_rpc H (ucast v) of
         None \<Rightarrow> sreturn []
       | Some recovery_id \<Rightarrow>
           let sig = take 64 (drop 64 calldata) in
           if \<not> secp_parse_signature H sig then serr (PrecompileError ParsingInputError)
           else case secp_recover H hash sig recovery_id of
             None \<Rightarrow> sreturn []
           | Some public_key \<Rightarrow>
               sreturn (replicate 12 0 @ drop 12 (take 32 (keccak H (take 64 (drop 1 public_key)))))))"

definition sha2_256 :: "crypto \<Rightarrow> bytes \<Rightarrow> nat \<Rightarrow> (bytes, vm_error, nat) sm" where
  "sha2_256 H calldata gas_for_call =
     (sbind (slift (gas_sha2_256 (length calldata))) (\<lambda>gas_cost.
     sbind (increase_precompile_consumed_gas gas_for_call gas_cost) (\<lambda>_.
     sreturn (sha256_digest H calldata))))"

definition ripemd_160 :: "crypto \<Rightarrow> bytes \<Rightarrow> nat \<Rightarrow> (bytes, vm_error, nat) sm" where
  "ripemd_160 H calldata gas_for_call =
     (sbind (slift (gas_ripemd_160 (length calldata))) (\<lambda>gas_cost.
     sbind (increase_precompile_consumed_gas gas_for_call gas_cost) (\<lambda>_.
     sreturn (replicate 12 0 @ ripemd160_digest H calldata))))"

text \<open>The remaining contracts are stubs in the source: they return no bytes and charge nothing.\<close>

definition precompile_stub :: "bytes \<Rightarrow> nat \<Rightarrow> (bytes, vm_error, nat) sm" where
  "precompile_stub calldata gas_for_call = sreturn []"

definition precompile_run :: "crypto \<Rightarrow> address \<Rightarrow> bytes \<Rightarrow> nat \<Rightarrow> (bytes, vm_error, nat) sm" where
  "precompile_run H callee_address =
     (if callee_address = ECRECOVER_ADDRESS then ecrecover H
      else if callee_address = IDENTITY_ADDRESS then precompile_stub
      else if callee_address = SHA2_256_ADDRESS then sha2_256 H
      else if callee_address = RIPEMD_160_ADDRESS then ripemd_160 H
      else if callee_address \<in> {MODEXP_ADDRESS, ECADD_ADDRESS, ECMUL_ADDRESS, ECPAIRING_ADDRESS,
        BLAKE2F_ADDRESS, POINT_EVALUATION_ADDRESS} then precompile_stub
      else (\<lambda>_ _. serr (Internal InvalidPrecompileAddress)))"

definition execute_precompile :: "crypto \<Rightarrow> (bytes, vm_error, call_frame) sm" where
  "execute_precompile H f =
     (case precompile_run H (cf_code_address f) (cf_calldata f) (cf_gas_limit f) (cf_gas_used f) of
        (r, g) \<Rightarrow> (r, f\<lparr>cf_gas_used := g\<rparr>))"

end
