(* ===== verification/Evm_Arith.thy ===== *)
theory Evm_Arith
  imports Evm_State
begin

text \<open>
  The handlers of the arithmetic, comparison and bitwise instructions
  (\<^verbatim>\<open>opcode_handlers/arithmetic.rs\<close> and \<^verbatim>\<open>opcode_handlers/bitwise_comparison.rs\<close>), one definition
  per handler in the order of the source, each with its gas charge, its pops and pushes and its early
  returns.
\<close>

abbreviation (input) charge :: "nat \<Rightarrow> unit ctx_m" where
  "charge \<equiv> increase_consumed_gas"

abbreviation (input) to_usize :: "u256 \<Rightarrow> vm_error \<Rightarrow> nat ctx_m" where
  "to_usize w e \<equiv> slift (ok_or (u256_to_usize w) e)"

abbreviation (input) continue :: "opcode_success ctx_m" where
  "continue \<equiv> sreturn Continue"

section \<open>Shifts and signs\<close>

definition is_negative :: "u256 \<Rightarrow> bool" where
  "is_negative v = bit v 255"

definition negate :: "u256 \<Rightarrow> u256" where
  "negate v = ring_bit_operations_class.not v + 1"

definition abs_u256 :: "u256 \<Rightarrow> u256" where
  "abs_u256 v = (if is_negative v then negate v else v)"

definition u256_from_bool :: "bool \<Rightarrow> u256" where
  "u256_from_bool b = (if b then 1 else 0)"

primrec shift_left_loop :: "nat \<Rightarrow> u256 \<Rightarrow> (u256, vm_error) result" where
  "shift_left_loop 0 acc = Ok acc"
| "shift_left_loop (Suc shifts_left) acc =
     (rbind (case u256_checked_mul acc 2 of
              Some num \<Rightarrow> Ok num
            | None \<Rightarrow>
                (rbind (ok_or (u256_checked_sub acc (2 ^ 255)) (Internal ArithmeticOperationUnderflow)) (\<lambda>partial_result.
                ok_or (u256_checked_mul partial_result 2) (Internal ArithmeticOperationOverflow)))) (\<lambda>acc.
     shift_left_loop shifts_left acc))"

definition checked_shift_left :: "u256 \<Rightarrow> u256 \<Rightarrow> (u256, vm_error) result" where
  "checked_shift_left v shift = shift_left_loop (unat shift) v"

primrec shift_right_loop :: "nat \<Rightarrow> u256 \<Rightarrow> (u256, vm_error) result" where
  "shift_right_loop 0 acc = Ok acc"
| "shift_right_loop (Suc shifts_left) acc =
     (rbind (ok_or (u256_checked_div acc 2) (Internal ArithmeticOperationDividedByZero)) (\<lambda>acc.
     shift_right_loop shifts_left acc))"

definition checked_shift_right :: "u256 \<Rightarrow> u256 \<Rightarrow> (u256, vm_error) result" where
  "checked_shift_right v shift = shift_right_loop (unat shift) v"

definition arithmetic_shift_right :: "u256 \<Rightarrow> u256 \<Rightarrow> (u256, vm_error) result" where
  "arithmetic_shift_right v shift =
     (if bit v 255 then
        (rbind (checked_shift_right v shift) (\<lambda>shifted.
        rbind (ok_or (u256_checked_sub 256 shift) (Internal ArithmeticOperationUnderflow)) (\<lambda>mask_shift.
        rbind (checked_shift_left (- 1) mask_shift) (\<lambda>mask.
        Ok (semiring_bit_operations_class.or shifted mask)))))
      else checked_shift_right v shift)"

section \<open>Arithmetic\<close>

definition op_add :: "opcode_success ctx_m" where
  "op_add =
     (sbind (charge (arithmetic_gas ADD)) (\<lambda>_.
     sbind pop (\<lambda>augend.
     sbind pop (\<lambda>addend.
     sbind (push (augend + addend)) (\<lambda>_.
     continue)))))"

definition op_sub :: "opcode_success ctx_m" where
  "op_sub =
     (sbind (charge (arithmetic_gas SUB)) (\<lambda>_.
     sbind pop (\<lambda>minuend.
     sbind pop (\<lambda>subtrahend.
     sbind (push (minuend - subtrahend)) (\<lambda>_.
     continue)))))"

definition op_mul :: "opcode_success ctx_m" where
  "op_mul =
     (sbind (charge (arithmetic_gas MUL)) (\<lambda>_.
     sbind pop (\<lambda>multiplicand.
     sbind pop (\<lambda>multiplier.
     sbind (push (multiplicand * multiplier)) (\<lambda>_.
     continue)))))"

definition op_div :: "opcode_success ctx_m" where
  "op_div =
     (sbind (charge (arithmetic_gas DIV)) (\<lambda>_.
     sbind pop (\<lambda>dividend.
     sbind pop (\<lambda>divisor.
     case u256_checked_div dividend divisor of
       None \<Rightarrow> (sbind (push 0) (\<lambda>_.
                          continue))
     | Some quot \<Rightarrow> (sbind (push quot) (\<lambda>_.
                               continue))))))"

definition sdiv_u256 :: "u256 \<Rightarrow> u256 \<Rightarrow> u256" where
  "sdiv_u256 dividend divisor =
     (case u256_checked_div (abs_u256 dividend) (abs_u256 divisor) of
        Some quot \<Rightarrow> if is_negative dividend \<noteq> is_negative divisor then negate quot else quot
      | None \<Rightarrow> 0)"

definition op_sdiv :: "opcode_success ctx_m" where
  "op_sdiv =
     (sbind (charge (arithmetic_gas SDIV)) (\<lambda>_.
     sbind pop (\<lambda>dividend.
     sbind pop (\<lambda>divisor.
     if divisor = 0 \<or> dividend = 0 then (sbind (push 0) (\<lambda>_.
                                            continue))
     else (sbind (push (sdiv_u256 dividend divisor)) (\<lambda>_.
          continue))))))"

definition op_mod :: "opcode_success ctx_m" where
  "op_mod =
     (sbind (charge (arithmetic_gas MOD)) (\<lambda>_.
     sbind pop (\<lambda>dividend.
     sbind pop (\<lambda>divisor.
     sbind (push (case u256_checked_rem dividend divisor of Some r \<Rightarrow> r | None \<Rightarrow> 0)) (\<lambda>_.
     continue)))))"

definition op_smod :: "opcode_success ctx_m" where
  "op_smod =
     (sbind (charge (arithmetic_gas SMOD)) (\<lambda>_.
     sbind pop (\<lambda>unchecked_dividend.
     sbind pop (\<lambda>unchecked_divisor.
     if unchecked_divisor = 0 \<or> unchecked_dividend = 0 then (sbind (push 0) (\<lambda>_.
                                                                continue))
     else case u256_checked_rem (abs_u256 unchecked_dividend) (abs_u256 unchecked_divisor) of
       None \<Rightarrow> (sbind (push 0) (\<lambda>_.
                          continue))
     | Some unchecked_remainder \<Rightarrow>
         (sbind (push (if is_negative unchecked_dividend then negate unchecked_remainder
                else unchecked_remainder)) (\<lambda>_.
         continue))))))"

text \<open>The 512-bit intermediate results of \<^verbatim>\<open>ADDMOD\<close> and \<^verbatim>\<open>MULMOD\<close>.\<close>

definition u512_rem :: "nat option \<Rightarrow> u256 \<Rightarrow> (u256, vm_error) result" where
  "u512_rem x modulus =
     (rbind (ok_or x (Internal ArithmeticOperationOverflow)) (\<lambda>n.
     rbind ((if modulus = 0 then Err (Internal ArithmeticOperationOverflow) else Ok (n mod unat modulus))) (\<lambda>r.
     if r < 2 ^ 256 then Ok (of_nat r) else Err (Internal ArithmeticOperationOverflow))))"

definition op_addmod :: "opcode_success ctx_m" where
  "op_addmod =
     (sbind (charge (arithmetic_gas ADDMOD)) (\<lambda>_.
     sbind pop (\<lambda>augend.
     sbind pop (\<lambda>addend.
     sbind pop (\<lambda>modulus.
     if modulus = 0 then (sbind (push 0) (\<lambda>_.
                         continue))
     else
       (sbind (slift (u512_rem (checked_add (2 ^ 512) (unat augend) (unat addend)) modulus)) (\<lambda>sum_mod.
       sbind (push sum_mod) (\<lambda>_.
       continue))))))))"

definition op_mulmod :: "opcode_success ctx_m" where
  "op_mulmod =
     (sbind (charge (arithmetic_gas MULMOD)) (\<lambda>_.
     sbind pop (\<lambda>multiplicand.
     sbind pop (\<lambda>multiplier.
     sbind pop (\<lambda>modulus.
     if modulus = 0 \<or> multiplicand = 0 \<or> multiplier = 0 then (sbind (push 0) (\<lambda>_.
                                                                     continue))
     else
       (sbind (slift (u512_rem (checked_mul (2 ^ 512) (unat multiplicand) (unat multiplier)) modulus)) (\<lambda>product_mod.
       sbind (push product_mod) (\<lambda>_.
       continue))))))))"

definition op_exp :: "opcode_success ctx_m" where
  "op_exp =
     (sbind pop (\<lambda>base.
     sbind pop (\<lambda>exponent.
     sbind (slift (gas_exp exponent)) (\<lambda>gas_cost.
     sbind (charge gas_cost) (\<lambda>_.
     sbind (push (base ^ unat exponent)) (\<lambda>_.
     continue))))))"

definition signextend_u256 :: "u256 \<Rightarrow> u256 \<Rightarrow> (u256, vm_error) result" where
  "signextend_u256 byte_size_minus_one value_to_extend =
     (rbind (ok_or (u256_checked_mul 8 byte_size_minus_one) (Internal ArithmeticOperationOverflow)) (\<lambda>total_bits.
     rbind (ok_or (u256_checked_add total_bits 7) (Internal ArithmeticOperationOverflow)) (\<lambda>sign_bit_index.
     rbind (checked_shift_right value_to_extend sign_bit_index) (\<lambda>shifted_value.
     let sign_bit = semiring_bit_operations_class.and shifted_value 1 in
     rbind (checked_shift_left 1 sign_bit_index) (\<lambda>shifted_one.
     rbind (ok_or (u256_checked_sub shifted_one 1) (Internal ArithmeticOperationUnderflow)) (\<lambda>sign_bit_mask.
     Ok (if sign_bit = 0 then semiring_bit_operations_class.and value_to_extend sign_bit_mask
     else semiring_bit_operations_class.or value_to_extend
       (ring_bit_operations_class.not sign_bit_mask))))))))"

definition op_signextend :: "opcode_success ctx_m" where
  "op_signextend =
     (sbind (charge (arithmetic_gas SIGNEXTEND)) (\<lambda>_.
     sbind pop (\<lambda>byte_size_minus_one.
     sbind pop (\<lambda>value_to_extend.
     if 31 < byte_size_minus_one then (sbind (push value_to_extend) (\<lambda>_.
                                      continue))
     else
       (sbind (slift (signextend_u256 byte_size_minus_one value_to_extend)) (\<lambda>extended.
       sbind (push extended) (\<lambda>_.
       continue)))))))"

section \<open>Comparison and bitwise logic\<close>

definition op_lt :: "opcode_success ctx_m" where
  "op_lt =
     (sbind (charge (comparison_gas LT)) (\<lambda>_.
     sbind pop (\<lambda>lho.
     sbind pop (\<lambda>rho.
     sbind (push (u256_from_bool (lho < rho))) (\<lambda>_.
     continue)))))"

definition op_gt :: "opcode_success ctx_m" where
  "op_gt =
     (sbind (charge (comparison_gas GT)) (\<lambda>_.
     sbind pop (\<lambda>lho.
     sbind pop (\<lambda>rho.
     sbind (push (u256_from_bool (rho < lho))) (\<lambda>_.
     continue)))))"

definition op_slt :: "opcode_success ctx_m" where
  "op_slt =
     (sbind (charge (comparison_gas SLT)) (\<lambda>_.
     sbind pop (\<lambda>lho.
     sbind pop (\<lambda>rho.
     sbind (push (if bit lho 255 = bit rho 255 then u256_from_bool (lho < rho) else u256_from_bool (bit lho 255))) (\<lambda>_.
     continue)))))"

definition op_sgt :: "opcode_success ctx_m" where
  "op_sgt =
     (sbind (charge (comparison_gas SGT)) (\<lambda>_.
     sbind pop (\<lambda>lho.
     sbind pop (\<lambda>rho.
     sbind (push (if bit lho 255 = bit rho 255 then u256_from_bool (rho < lho) else u256_from_bool (bit rho 255))) (\<lambda>_.
     continue)))))"

definition op_eq :: "opcode_success ctx_m" where
  "op_eq =
     (sbind (charge (comparison_gas EQ)) (\<lambda>_.
     sbind pop (\<lambda>lho.
     sbind pop (\<lambda>rho.
     sbind (push (u256_from_bool (lho = rho))) (\<lambda>_.
     continue)))))"

definition op_iszero :: "opcode_success ctx_m" where
  "op_iszero =
     (sbind (charge (comparison_gas ISZERO)) (\<lambda>_.
     sbind pop (\<lambda>operand.
     sbind (push (u256_from_bool (operand = 0))) (\<lambda>_.
     continue))))"

definition op_and :: "opcode_success ctx_m" where
  "op_and =
     (sbind (charge (comparison_gas AND)) (\<lambda>_.
     sbind pop (\<lambda>a.
     sbind pop (\<lambda>b.
     sbind (push (semiring_bit_operations_class.and a b)) (\<lambda>_.
     continue)))))"

definition op_or :: "opcode_success ctx_m" where
  "op_or =
     (sbind (charge (comparison_gas OR)) (\<lambda>_.
     sbind pop (\<lambda>a.
     sbind pop (\<lambda>b.
     sbind (push (semiring_bit_operations_class.or a b)) (\<lambda>_.
     continue)))))"

definition op_xor :: "opcode_success ctx_m" where
  "op_xor =
     (sbind (charge (comparison_gas XOR)) (\<lambda>_.
     sbind pop (\<lambda>a.
     sbind pop (\<lambda>b.
     sbind (push (semiring_bit_operations_class.xor a b)) (\<lambda>_.
     continue)))))"

definition op_not :: "opcode_success ctx_m" where
  "op_not = (sbind (charge (comparison_gas NOT)) (\<lambda>_.
            sbind pop (\<lambda>a.
            sbind (push (ring_bit_operations_class.not a)) (\<lambda>_.
            continue))))"

text \<open>\<^verbatim>\<open>U256::byte(i)\<close>: the byte with index \<open>i\<close> from the least significant one.\<close>

definition u256_byte :: "u256 \<Rightarrow> nat \<Rightarrow> u8" where
  "u256_byte w i = ucast (drop_bit (8 * i) w)"

definition op_byte :: "opcode_success ctx_m" where
  "op_byte =
     (sbind (charge (comparison_gas BYTE)) (\<lambda>_.
     sbind pop (\<lambda>op1.
     sbind pop (\<lambda>op2.
     case u256_to_usize op1 of
       None \<Rightarrow> (sbind (push 0) (\<lambda>_.
                          continue))
     | Some byte_index \<Rightarrow>
         if byte_index < WORD_SIZE then
           (sbind (slift (ok_or (checked_sub WORD_SIZE byte_index) (Internal ArithmeticOperationUnderflow))) (\<lambda>rest.
           sbind (slift (ok_or (checked_sub rest 1) (Internal ArithmeticOperationUnderflow))) (\<lambda>byte_to_push.
           sbind (push (ucast (u256_byte op2 byte_to_push))) (\<lambda>_.
           continue))))
         else (sbind (push 0) (\<lambda>_.
              continue))))))"

definition op_shl :: "opcode_success ctx_m" where
  "op_shl =
     (sbind (charge (comparison_gas SHL)) (\<lambda>_.
     sbind pop (\<lambda>shift.
     sbind pop (\<lambda>v.
     if shift < 256 then (sbind (slift (checked_shift_left v shift)) (\<lambda>r.
                         sbind (push r) (\<lambda>_.
                         continue)))
     else (sbind (push 0) (\<lambda>_.
          continue))))))"

definition op_shr :: "opcode_success ctx_m" where
  "op_shr =
     (sbind (charge (comparison_gas SHR)) (\<lambda>_.
     sbind pop (\<lambda>shift.
     sbind pop (\<lambda>v.
     if shift < 256 then (sbind (slift (checked_shift_right v shift)) (\<lambda>r.
                         sbind (push r) (\<lambda>_.
                         continue)))
     else (sbind (push 0) (\<lambda>_.
          continue))))))"

definition op_sar :: "opcode_success ctx_m" where
  "op_sar =
     (sbind (charge (comparison_gas SAR)) (\<lambda>_.
     sbind pop (\<lambda>shift.
     sbind pop (\<lambda>v.
     sbind (slift (if shift < 256 then arithmetic_shift_right v shift
            else if bit v 255 then Ok (- 1) else Ok 0)) (\<lambda>res.
     sbind (push res) (\<lambda>_.
     continue))))))"

end
