(* ===== verification/Evm_Ops.thy ===== *)
theory Evm_Ops
  imports Evm_Arith
begin

text \<open>
  The handlers of the block, environment, stack, memory, storage and flow instructions and of
  \<^verbatim>\<open>KECCAK256\<close>, \<^verbatim>\<open>PUSH\<close>, \<^verbatim>\<open>DUP\<close>, \<^verbatim>\<open>SWAP\<close> and \<^verbatim>\<open>LOG\<close> (\<^verbatim>\<open>opcode_handlers/\<close>, except \<^verbatim>\<open>system.rs\<close>), one
  definition per handler in the order of the source files.
\<close>

text \<open>
  The loop of the copying handlers: the bytes of the source from the offset on are written over the
  start of the prepared vector, as many as there are and fit.
\<close>

definition fill_data :: "bytes \<Rightarrow> nat \<Rightarrow> bytes \<Rightarrow> bytes" where
  "fill_data dat offset src =
     (let chunk = take (length dat) (drop offset src) in chunk @ drop (length chunk) dat)"

definition memory_len :: "nat ctx_m" where
  "memory_len = frame (\<lambda>f. length (cf_memory f))"

section \<open>Block information\<close>

definition op_blockhash :: "opcode_success ctx_m" where
  "op_blockhash =
     (sbind (charge (block_gas BLOCKHASH)) (\<lambda>_.
     sbind pop (\<lambda>block_number.
     sbind (env env_block_number) (\<lambda>current.
     if block_number < u256_saturating_sub current LAST_AVAILABLE_BLOCK_LIMIT \<or> current \<le> block_number
     then (sbind (push 0) (\<lambda>_.
          continue))
     else
       (sbind (slift (ok_or (u256_to_u64 block_number) VeryLargeNumber)) (\<lambda>block_number.
       sbind (sgets (\<lambda>s. get_block_hash (vm_db (c_vm s)) block_number)) (\<lambda>block_hash.
       case block_hash of
         Some h \<Rightarrow> (sbind (push h) (\<lambda>_.
                              continue))
       | None \<Rightarrow> (sbind (push 0) (\<lambda>_.
                            continue)))))))))"

definition op_coinbase :: "opcode_success ctx_m" where
  "op_coinbase = (sbind (charge (block_gas COINBASE)) (\<lambda>_.
                 sbind (env env_coinbase) (\<lambda>a.
                 sbind (push (address_to_word a)) (\<lambda>_.
                 continue))))"

definition op_timestamp :: "opcode_success ctx_m" where
  "op_timestamp = (sbind (charge (block_gas TIMESTAMP)) (\<lambda>_.
                  sbind (env env_timestamp) (\<lambda>t.
                  sbind (push t) (\<lambda>_.
                  continue))))"

definition op_number :: "opcode_success ctx_m" where
  "op_number = (sbind (charge (block_gas NUMBER)) (\<lambda>_.
               sbind (env env_block_number) (\<lambda>n.
               sbind (push n) (\<lambda>_.
               continue))))"

definition op_prevrandao :: "opcode_success ctx_m" where
  "op_prevrandao =
     (sbind (charge (block_gas PREVRANDAO)) (\<lambda>_.
     sbind (env env_prev_randao) (\<lambda>randao.
     sbind (push (case randao of Some r \<Rightarrow> r | None \<Rightarrow> 0)) (\<lambda>_.
     continue))))"

definition op_gaslimit :: "opcode_success ctx_m" where
  "op_gaslimit = (sbind (charge (block_gas GASLIMIT)) (\<lambda>_.
                 sbind (env env_block_gas_limit) (\<lambda>n.
                 sbind (push (of_nat n)) (\<lambda>_.
                 continue))))"

definition op_chainid :: "opcode_success ctx_m" where
  "op_chainid = (sbind (charge (block_gas CHAINID)) (\<lambda>_.
                sbind (env env_chain_id) (\<lambda>i.
                sbind (push i) (\<lambda>_.
                continue))))"

definition op_selfbalance :: "opcode_success ctx_m" where
  "op_selfbalance =
     (sbind (charge (block_gas SELFBALANCE)) (\<lambda>_.
     sbind (frame cf_to) (\<lambda>a.
     sbind (on_vm (get_account a)) (\<lambda>acc.
     sbind (push (ai_balance (acc_info acc))) (\<lambda>_.
     continue)))))"

definition op_basefee :: "opcode_success ctx_m" where
  "op_basefee = (sbind (charge (block_gas BASEFEE)) (\<lambda>_.
                sbind (env env_base_fee_per_gas) (\<lambda>n.
                sbind (push n) (\<lambda>_.
                continue))))"

definition op_blobhash :: "opcode_success ctx_m" where
  "op_blobhash =
     (sbind (charge (block_gas BLOBHASH)) (\<lambda>_.
     sbind pop (\<lambda>index.
     sbind (env env_tx_blob_hashes) (\<lambda>blob_hashes.
     if of_nat (length blob_hashes) < index then (sbind (push 0) (\<lambda>_.
                                                 continue))
     else
       (sbind (to_usize index (Internal ConversionError)) (\<lambda>index.
       sbind (slift (if index < length blob_hashes then Ok (blob_hashes ! index)
              else Err (Internal BlobHashOutOfRange))) (\<lambda>blob_hash.
       sbind (push blob_hash) (\<lambda>_.
       continue))))))))"

definition fake_exponential_u256 :: "u256 \<Rightarrow> u256 \<Rightarrow> u256 \<Rightarrow> (u256, vm_error) result" where
  "fake_exponential_u256 factor numerator denominator =
     (rbind (ok_or (u256_checked_mul factor denominator) (Internal ArithmeticOperationOverflow)) (\<lambda>numerator_accum.
     rbind (fake_exponential_loop (2 ^ 256) ArithmeticOperationDividedByZero (unat numerator)
            (unat denominator) 1 0 (unat numerator_accum)) (\<lambda>output.
     ok_or (u256_checked_div (of_nat output) denominator) (Internal ArithmeticOperationDividedByZero))))"

definition get_blob_gasprice :: "environment \<Rightarrow> (u256, vm_error) result" where
  "get_blob_gasprice e =
     (rbind (ok_or (env_block_excess_blob_gas e) (Internal ExcessBlobGasShouldNotBeNone)) (\<lambda>excess.
     fake_exponential_u256 (of_nat MIN_BASE_FEE_PER_BLOB_GAS) excess (of_nat BLOB_BASE_FEE_UPDATE_FRACTION)))"

definition op_blobbasefee :: "opcode_success ctx_m" where
  "op_blobbasefee =
     (sbind (charge (block_gas BLOBBASEFEE)) (\<lambda>_.
     sbind (env get_blob_gasprice) (\<lambda>price.
     sbind (slift price) (\<lambda>blob_base_fee.
     sbind (push blob_base_fee) (\<lambda>_.
     continue)))))"

section \<open>Environmental information\<close>

definition op_address :: "opcode_success ctx_m" where
  "op_address =
     (sbind (charge (environment_gas ADDRESS)) (\<lambda>_.
     sbind (frame cf_to) (\<lambda>addr.
     sbind (push (from_be_bytes (to_be_bytes addr))) (\<lambda>_.
     continue))))"

definition op_balance :: "opcode_success ctx_m" where
  "op_balance =
     (sbind pop (\<lambda>w.
     sbind (on_vm (access_account (word_to_address w))) (\<lambda>(account_info, address_was_cold).
     sbind (slift (gas_balance address_was_cold)) (\<lambda>gas_cost.
     sbind (charge gas_cost) (\<lambda>_.
     sbind (push (ai_balance account_info)) (\<lambda>_.
     continue))))))"

definition op_origin :: "opcode_success ctx_m" where
  "op_origin =
     (sbind (charge (environment_gas ORIGIN)) (\<lambda>_.
     sbind (env env_origin) (\<lambda>a.
     sbind (push (from_be_bytes (to_be_bytes a))) (\<lambda>_.
     continue))))"

definition op_caller :: "opcode_success ctx_m" where
  "op_caller =
     (sbind (charge (environment_gas CALLER)) (\<lambda>_.
     sbind (frame cf_msg_sender) (\<lambda>a.
     sbind (push (from_be_bytes (to_be_bytes a))) (\<lambda>_.
     continue))))"

definition op_callvalue :: "opcode_success ctx_m" where
  "op_callvalue = (sbind (charge (environment_gas CALLVALUE)) (\<lambda>_.
                  sbind (frame cf_msg_value) (\<lambda>v.
                  sbind (push v) (\<lambda>_.
                  continue))))"

definition op_calldataload :: "opcode_success ctx_m" where
  "op_calldataload =
     (sbind (charge (environment_gas CALLDATALOAD)) (\<lambda>_.
     sbind (frame cf_calldata) (\<lambda>calldata.
     sbind pop (\<lambda>offset.
     if of_nat (length calldata) < offset then (sbind (push 0) (\<lambda>_.
                                               continue))
     else
       (sbind (to_usize offset (Internal ConversionError)) (\<lambda>offset.
       sbind (push (from_be_bytes (fill_data (replicate 32 0) offset calldata))) (\<lambda>_.
       continue)))))))"

definition op_calldatasize :: "opcode_success ctx_m" where
  "op_calldatasize =
     (sbind (charge (environment_gas CALLDATASIZE)) (\<lambda>_.
     sbind (frame cf_calldata) (\<lambda>d.
     sbind (push (of_nat (length d))) (\<lambda>_.
     continue))))"

definition op_calldatacopy :: "opcode_success ctx_m" where
  "op_calldatacopy =
     (sbind pop (\<lambda>dest_offset.
     sbind pop (\<lambda>calldata_offset.
     sbind pop (\<lambda>sz.
     sbind (to_usize sz VeryLargeNumber) (\<lambda>sz.
     sbind (slift (calculate_memory_size dest_offset sz)) (\<lambda>new_memory_size.
     sbind memory_len (\<lambda>mem_len.
     sbind (slift (gas_calldatacopy new_memory_size mem_len sz)) (\<lambda>gas_cost.
     sbind (charge gas_cost) (\<lambda>_.
     if sz = 0 then continue
     else
       (sbind (slift (vec_zeroes sz)) (\<lambda>dat.
       sbind (frame cf_calldata) (\<lambda>calldata.
       if of_nat (length calldata) < calldata_offset then
         (sbind (on_memory (try_store_data dest_offset dat)) (\<lambda>_.
         continue))
       else
         (sbind (to_usize calldata_offset (Internal ConversionError)) (\<lambda>calldata_offset.
         sbind (on_memory (try_store_data dest_offset (fill_data dat calldata_offset calldata))) (\<lambda>_.
         continue)))))))))))))))"

definition op_codesize :: "opcode_success ctx_m" where
  "op_codesize =
     (sbind (charge (environment_gas CODESIZE)) (\<lambda>_.
     sbind (frame cf_bytecode) (\<lambda>c.
     sbind (push (of_nat (length c))) (\<lambda>_.
     continue))))"

definition op_codecopy :: "opcode_success ctx_m" where
  "op_codecopy =
     (sbind pop (\<lambda>destination_offset.
     sbind pop (\<lambda>code_offset.
     sbind pop (\<lambda>sz.
     sbind (to_usize sz VeryLargeNumber) (\<lambda>sz.
     sbind (slift (calculate_memory_size destination_offset sz)) (\<lambda>new_memory_size.
     sbind memory_len (\<lambda>mem_len.
     sbind (slift (gas_codecopy new_memory_size mem_len sz)) (\<lambda>gas_cost.
     sbind (charge gas_cost) (\<lambda>_.
     if sz = 0 then continue
     else
       (sbind (slift (vec_zeroes sz)) (\<lambda>dat.
       sbind (frame cf_bytecode) (\<lambda>code.
       sbind ((if code_offset < of_nat (length code) then
                (sbind (to_usize code_offset (Internal ConversionError)) (\<lambda>code_offset.
                sreturn (fill_data dat code_offset code)))
              else sreturn dat)) (\<lambda>dat.
       sbind (on_memory (try_store_data destination_offset dat)) (\<lambda>_.
       continue))))))))))))))"

definition op_gasprice :: "opcode_success ctx_m" where
  "op_gasprice = (sbind (charge (environment_gas GASPRICE)) (\<lambda>_.
                 sbind (env env_gas_price) (\<lambda>p.
                 sbind (push p) (\<lambda>_.
                 continue))))"

definition op_extcodesize :: "opcode_success ctx_m" where
  "op_extcodesize =
     (sbind pop (\<lambda>w.
     sbind (on_vm (access_account (word_to_address w))) (\<lambda>(account_info, address_was_cold).
     sbind (slift (gas_extcodesize address_was_cold)) (\<lambda>gas_cost.
     sbind (charge gas_cost) (\<lambda>_.
     sbind (push (of_nat (length (ai_bytecode account_info)))) (\<lambda>_.
     continue))))))"

definition op_extcodecopy :: "opcode_success ctx_m" where
  "op_extcodecopy =
     (sbind pop (\<lambda>w.
     sbind pop (\<lambda>dest_offset.
     sbind pop (\<lambda>offset.
     sbind pop (\<lambda>sz.
     sbind (to_usize sz VeryLargeNumber) (\<lambda>sz.
     sbind (on_vm (access_account (word_to_address w))) (\<lambda>(account_info, address_was_cold).
     sbind (slift (calculate_memory_size dest_offset sz)) (\<lambda>new_memory_size.
     sbind memory_len (\<lambda>mem_len.
     sbind (slift (gas_extcodecopy sz new_memory_size mem_len address_was_cold)) (\<lambda>gas_cost.
     sbind (charge gas_cost) (\<lambda>_.
     if sz = 0 then continue
     else
       (sbind (slift (vec_zeroes sz)) (\<lambda>dat.
       sbind ((if offset < of_nat (length (ai_bytecode account_info)) then
                (sbind (to_usize offset (Internal ConversionError)) (\<lambda>offset.
                sreturn (fill_data dat offset (ai_bytecode account_info))))
              else sreturn dat)) (\<lambda>dat.
       sbind (on_memory (try_store_data dest_offset dat)) (\<lambda>_.
       continue)))))))))))))))"

definition op_returndatasize :: "opcode_success ctx_m" where
  "op_returndatasize =
     (sbind (charge (environment_gas RETURNDATASIZE)) (\<lambda>_.
     sbind (frame cf_sub_return_data) (\<lambda>d.
     sbind (push (of_nat (length d))) (\<lambda>_.
     continue))))"

definition op_returndatacopy :: "opcode_success ctx_m" where
  "op_returndatacopy =
     (sbind pop (\<lambda>dest_offset.
     sbind pop (\<lambda>returndata_offset.
     sbind (to_usize returndata_offset VeryLargeNumber) (\<lambda>returndata_offset.
     sbind pop (\<lambda>sz.
     sbind (to_usize sz VeryLargeNumber) (\<lambda>sz.
     sbind (slift (calculate_memory_size dest_offset sz)) (\<lambda>new_memory_size.
     sbind memory_len (\<lambda>mem_len.
     sbind (slift (gas_returndatacopy new_memory_size mem_len sz)) (\<lambda>gas_cost.
     sbind (charge gas_cost) (\<lambda>_.
     if sz = 0 \<and> returndata_offset = 0 then continue
     else
       (sbind (frame cf_sub_return_data) (\<lambda>sub_return_data.
       sbind (slift (ok_or (checked_add usize_bound returndata_offset sz) VeryLargeNumber)) (\<lambda>copy_limit.
       if length sub_return_data < copy_limit then serr OutOfBounds
       else
         (sbind (slift (vec_zeroes sz)) (\<lambda>dat.
         sbind (on_memory (try_store_data dest_offset (fill_data dat returndata_offset sub_return_data))) (\<lambda>_.
         continue))))))))))))))))"

definition op_extcodehash :: "crypto \<Rightarrow> opcode_success ctx_m" where
  "op_extcodehash H =
     (sbind pop (\<lambda>w.
     sbind (on_vm (access_account (word_to_address w))) (\<lambda>(account_info, address_was_cold).
     sbind (slift (gas_extcodehash address_was_cold)) (\<lambda>gas_cost.
     sbind (charge gas_cost) (\<lambda>_.
     if account_info_is_empty account_info then (sbind (push 0) (\<lambda>_.
                                                continue))
     else (sbind (push (from_be_bytes (keccak H (ai_bytecode account_info)))) (\<lambda>_.
          continue)))))))"

section \<open>Stack, memory, storage and flow\<close>

definition op_pop :: "opcode_success ctx_m" where
  "op_pop = (sbind (charge (flow_gas POP)) (\<lambda>_.
            sbind pop (\<lambda>_.
            continue)))"

definition op_tload :: "opcode_success ctx_m" where
  "op_tload =
     (sbind (charge (flow_gas TLOAD)) (\<lambda>_.
     sbind pop (\<lambda>key.
     sbind (frame cf_msg_sender) (\<lambda>sender.
     sbind (env env_transient_storage) (\<lambda>ts.
     sbind (push (case ts (sender, key) of Some v \<Rightarrow> v | None \<Rightarrow> 0)) (\<lambda>_.
     continue))))))"

definition set_env :: "(environment \<Rightarrow> environment) \<Rightarrow> unit ctx_m" where
  "set_env g = on_vm (smodify (vm_env_update g))"

definition op_tstore :: "opcode_success ctx_m" where
  "op_tstore =
     (sbind (charge (flow_gas TSTORE)) (\<lambda>_.
     sbind (frame cf_is_static) (\<lambda>is_static.
     if is_static then serr OpcodeNotAllowedInStaticContext
     else
       (sbind pop (\<lambda>key.
       sbind pop (\<lambda>v.
       sbind (frame cf_msg_sender) (\<lambda>sender.
       sbind (set_env (env_transient_storage_update (\<lambda>ts. ts((sender, key) \<mapsto> v)))) (\<lambda>_.
       continue))))))))"

definition op_mload :: "opcode_success ctx_m" where
  "op_mload =
     (sbind pop (\<lambda>offset.
     sbind (slift (calculate_memory_size offset 32)) (\<lambda>new_memory_size.
     sbind memory_len (\<lambda>mem_len.
     sbind (slift (gas_mload new_memory_size mem_len)) (\<lambda>gas_cost.
     sbind (charge gas_cost) (\<lambda>_.
     sbind (on_memory (load_word offset)) (\<lambda>w.
     sbind (push w) (\<lambda>_.
     continue))))))))"

definition op_mstore :: "opcode_success ctx_m" where
  "op_mstore =
     (sbind pop (\<lambda>offset.
     sbind (slift (calculate_memory_size offset 32)) (\<lambda>new_memory_size.
     sbind memory_len (\<lambda>mem_len.
     sbind (slift (gas_mstore new_memory_size mem_len)) (\<lambda>gas_cost.
     sbind (charge gas_cost) (\<lambda>_.
     sbind pop (\<lambda>v.
     sbind (on_memory (try_store_data offset (to_be_bytes v))) (\<lambda>_.
     continue))))))))"

definition op_mstore8 :: "opcode_success ctx_m" where
  "op_mstore8 =
     (sbind pop (\<lambda>offset.
     sbind (slift (calculate_memory_size offset 1)) (\<lambda>new_memory_size.
     sbind memory_len (\<lambda>mem_len.
     sbind (slift (gas_mstore8 new_memory_size mem_len)) (\<lambda>gas_cost.
     sbind (charge gas_cost) (\<lambda>_.
     sbind pop (\<lambda>v.
     sbind (on_memory (try_store_data offset (drop (WORD_SIZE - 1) (to_be_bytes v)))) (\<lambda>_.
     continue))))))))"

definition op_sload :: "opcode_success ctx_m" where
  "op_sload =
     (sbind pop (\<lambda>storage_slot_key.
     sbind (frame cf_to) (\<lambda>a.
     sbind (on_vm (access_storage_slot a storage_slot_key)) (\<lambda>(slot, storage_slot_was_cold).
     sbind (slift (gas_sload storage_slot_was_cold)) (\<lambda>gas_cost.
     sbind (charge gas_cost) (\<lambda>_.
     sbind (push (current_value slot)) (\<lambda>_.
     continue)))))))"

definition sstore_refund :: "storage_slot \<Rightarrow> u256 \<Rightarrow> nat \<Rightarrow> (nat, vm_error) result" where
  "sstore_refund slot new_value gas_refunds =
     (if new_value \<noteq> current_value slot then
        if current_value slot = original_value slot then
          if original_value slot \<noteq> 0 \<and> new_value = 0
          then ok_or (checked_add u64_bound gas_refunds 4800) GasRefundsOverflow
          else Ok gas_refunds
        else if original_value slot \<noteq> 0 then
          if current_value slot = 0 then ok_or (checked_sub gas_refunds 4800) GasRefundsUnderflow
          else if new_value = 0 then ok_or (checked_add u64_bound gas_refunds 4800) GasRefundsOverflow
          else Ok gas_refunds
        else if new_value = original_value slot then
          if original_value slot = 0 then ok_or (checked_add u64_bound gas_refunds 19900) GasRefundsOverflow
          else ok_or (checked_add u64_bound gas_refunds 2800) GasRefundsOverflow
        else Ok gas_refunds
      else Ok gas_refunds)"

definition op_sstore :: "opcode_success ctx_m" where
  "op_sstore =
     (sbind (frame cf_is_static) (\<lambda>is_static.
     if is_static then serr OpcodeNotAllowedInStaticContext
     else
       (sbind pop (\<lambda>key.
       sbind pop (\<lambda>new_storage_slot_value.
       sbind (frame cf_to) (\<lambda>a.
       sbind (on_vm (access_storage_slot a key)) (\<lambda>(slot, storage_slot_was_cold).
       sbind (frame (gas_sstore slot new_storage_slot_value storage_slot_was_cold)) (\<lambda>cost.
       sbind (slift cost) (\<lambda>gas_cost.
       sbind (charge gas_cost) (\<lambda>_.
       sbind (env env_refunded_gas) (\<lambda>refunded_gas.
       sbind (slift (sstore_refund slot new_storage_slot_value refunded_gas)) (\<lambda>gas_refunds.
       sbind (set_env (env_refunded_gas_update (\<lambda>_. gas_refunds))) (\<lambda>_.
       sbind (on_vm (update_account_storage a key new_storage_slot_value)) (\<lambda>_.
       continue))))))))))))))"

definition op_msize :: "opcode_success ctx_m" where
  "op_msize = (sbind (charge (flow_gas MSIZE)) (\<lambda>_.
              sbind memory_len (\<lambda>n.
              sbind (push (of_nat n)) (\<lambda>_.
              continue))))"

definition op_gas :: "opcode_success ctx_m" where
  "op_gas =
     (sbind (charge (flow_gas GAS)) (\<lambda>_.
     sbind (frame (\<lambda>f. checked_sub (cf_gas_limit f) (cf_gas_used f))) (\<lambda>remaining.
     sbind (slift (ok_or remaining (OutOfGas ConsumedGasOverflow))) (\<lambda>remaining_gas.
     sbind (push (of_nat remaining_gas)) (\<lambda>_.
     continue)))))"

definition op_mcopy :: "opcode_success ctx_m" where
  "op_mcopy =
     (sbind pop (\<lambda>dest_offset.
     sbind pop (\<lambda>src_offset.
     sbind pop (\<lambda>sz.
     sbind (to_usize sz VeryLargeNumber) (\<lambda>sz.
     sbind (slift (calculate_memory_size dest_offset sz)) (\<lambda>new_memory_size_for_dest.
     sbind (slift (calculate_memory_size src_offset sz)) (\<lambda>new_memory_size_for_src.
     sbind memory_len (\<lambda>mem_len.
     sbind (slift (gas_mcopy (max new_memory_size_for_dest new_memory_size_for_src) mem_len sz)) (\<lambda>gas_cost.
     sbind (charge gas_cost) (\<lambda>_.
     sbind (on_memory (try_copy_within src_offset dest_offset sz)) (\<lambda>_.
     continue)))))))))))"

definition is_valid_jump_addr :: "call_frame \<Rightarrow> nat \<Rightarrow> bool" where
  "is_valid_jump_addr f jump_address \<longleftrightarrow> jump_address \<in> cf_valid_jump_destinations f"

definition jump :: "u256 \<Rightarrow> (unit, vm_error, call_frame) sm" where
  "jump jump_address f =
     (case u256_to_usize jump_address of
        None \<Rightarrow> (Err VeryLargeNumber, f)
      | Some a \<Rightarrow>
          if is_valid_jump_addr f a then (Ok (), f\<lparr>cf_pc := a\<rparr>) else (Err InvalidJump, f))"

definition op_jump :: "opcode_success ctx_m" where
  "op_jump = (sbind (charge (flow_gas JUMP)) (\<lambda>_.
             sbind pop (\<lambda>jump_address.
             sbind (on_frame (jump jump_address)) (\<lambda>_.
             continue))))"

definition op_jumpi :: "opcode_success ctx_m" where
  "op_jumpi =
     (sbind pop (\<lambda>jump_address.
     sbind pop (\<lambda>condition.
     sbind (charge (flow_gas JUMPI)) (\<lambda>_.
     sbind ((if condition \<noteq> 0 then on_frame (jump jump_address) else on_frame increment_pc)) (\<lambda>_.
     continue)))))"

definition op_jumpdest :: "opcode_success ctx_m" where
  "op_jumpdest = (sbind (charge (flow_gas JUMPDEST)) (\<lambda>_.
                 continue))"

definition op_pc :: "opcode_success ctx_m" where
  "op_pc = (sbind (charge (flow_gas PC)) (\<lambda>_.
           sbind (frame cf_pc) (\<lambda>p.
           sbind (push (of_nat p)) (\<lambda>_.
           continue))))"

section \<open>Push, duplicate, swap, hash and log\<close>

definition read_bytcode_slice :: "nat \<Rightarrow> call_frame \<Rightarrow> (bytes, vm_error) result" where
  "read_bytcode_slice n_bytes f =
     (rbind (ok_or (checked_add usize_bound (cf_pc f) 1) (Internal ArithmeticOperationOverflow)) (\<lambda>pc_offset.
     Ok (take n_bytes (drop pc_offset (cf_bytecode f)))))"

definition bytes_to_word :: "bytes \<Rightarrow> nat \<Rightarrow> (bytes, vm_error) result" where
  "bytes_to_word read_n_bytes n_bytes =
     (rbind (ok_or (checked_sub WORD_SIZE n_bytes) (Internal ArithmeticOperationUnderflow)) (\<lambda>start_index.
     Ok (replicate start_index 0 @ fill_data (replicate (WORD_SIZE - start_index) 0) 0 read_n_bytes)))"

definition op_push :: "nat \<Rightarrow> opcode_success ctx_m" where
  "op_push n_bytes =
     (sbind (charge PUSHN) (\<lambda>_.
     sbind (frame (read_bytcode_slice n_bytes)) (\<lambda>sl.
     sbind (slift sl) (\<lambda>read_n_bytes.
     sbind (slift (bytes_to_word read_n_bytes n_bytes)) (\<lambda>value_to_push.
     sbind (push (from_be_bytes value_to_push)) (\<lambda>_.
     sbind (on_frame (increment_pc_by n_bytes)) (\<lambda>_.
     continue)))))))"

definition op_push0 :: "opcode_success ctx_m" where
  "op_push0 = (sbind (charge PUSH0_GAS) (\<lambda>_.
              sbind (push 0) (\<lambda>_.
              continue)))"

definition op_dup :: "nat \<Rightarrow> opcode_success ctx_m" where
  "op_dup depth =
     (sbind (charge DUPN) (\<lambda>_.
     sbind (frame cf_stack) (\<lambda>st.
     if length st < depth then serr StackUnderflow
     else
       (sbind (slift (ok_or (checked_sub (length st) depth) StackUnderflow)) (\<lambda>index.
       sbind (slift (stack_get index st)) (\<lambda>value_at_depth.
       sbind (push value_at_depth) (\<lambda>_.
       continue)))))))"

definition op_swap :: "nat \<Rightarrow> opcode_success ctx_m" where
  "op_swap depth =
     (sbind (charge SWAPN) (\<lambda>_.
     sbind (frame cf_stack) (\<lambda>st.
     sbind (slift (ok_or (checked_sub (length st) 1) StackUnderflow)) (\<lambda>stack_top_index.
     if length st < depth then serr StackUnderflow
     else
       (sbind (slift (ok_or (checked_sub stack_top_index depth) StackUnderflow)) (\<lambda>to_swap_index.
       sbind (on_stack (stack_swap stack_top_index to_swap_index)) (\<lambda>_.
       continue)))))))"

definition op_keccak256 :: "crypto \<Rightarrow> opcode_success ctx_m" where
  "op_keccak256 H =
     (sbind pop (\<lambda>offset.
     sbind pop (\<lambda>sz.
     sbind (to_usize sz VeryLargeNumber) (\<lambda>sz.
     sbind (slift (calculate_memory_size offset sz)) (\<lambda>new_memory_size.
     sbind memory_len (\<lambda>mem_len.
     sbind (slift (gas_keccak256 new_memory_size mem_len sz)) (\<lambda>gas_cost.
     sbind (charge gas_cost) (\<lambda>_.
     sbind (on_memory (load_range offset sz)) (\<lambda>dat.
     sbind (push (from_be_bytes (keccak H dat))) (\<lambda>_.
     continue))))))))))"

primrec pop_topics :: "nat \<Rightarrow> h256 list ctx_m" where
  "pop_topics 0 = sreturn []"
| "pop_topics (Suc n) = (sbind pop (\<lambda>topic.
                        sbind (pop_topics n) (\<lambda>topics.
                        sreturn (topic # topics))))"

definition op_log :: "nat \<Rightarrow> opcode_success ctx_m" where
  "op_log number_of_topics =
     (sbind (frame cf_is_static) (\<lambda>is_static.
     if is_static then serr OpcodeNotAllowedInStaticContext
     else
       (sbind pop (\<lambda>offset.
       sbind pop (\<lambda>sz.
       sbind (to_usize sz VeryLargeNumber) (\<lambda>sz.
       sbind (pop_topics number_of_topics) (\<lambda>topics.
       sbind (slift (calculate_memory_size offset sz)) (\<lambda>new_memory_size.
       sbind memory_len (\<lambda>mem_len.
       sbind (slift (gas_log new_memory_size mem_len sz number_of_topics)) (\<lambda>gas_cost.
       sbind (charge gas_cost) (\<lambda>_.
       sbind (frame cf_to) (\<lambda>a.
       sbind (on_memory (load_range offset sz)) (\<lambda>dat.
       sbind (set_frame (\<lambda>f. f\<lparr>cf_logs := cf_logs f @ [\<lparr>log_address = a, log_topics = topics, log_data = dat\<rparr>]\<rparr>)) (\<lambda>_.
       continue))))))))))))))"

end
