(* ===== verification/Evm_System.thy ===== *)
theory Evm_System
  imports Evm_Ops
begin

text \<open>
  Message calls and contract creation (\<^verbatim>\<open>opcode_handlers/system.rs\<close>) and the interpreter loop
  (\<^verbatim>\<open>VM::execute\<close> of \<^verbatim>\<open>vm.rs\<close>). The handlers that enter a sub-context take the interpreter as the
  argument \<open>ex\<close>; \<open>exec_loop\<close> ties the knot with fuel, one unit per instruction and per nested
  context. \<open>execute\<close> provides one unit more than the gas that is left.
\<close>

section \<open>Entering a sub-context\<close>

definition run_sub :: "transaction_report ctx_m \<Rightarrow> call_frame \<Rightarrow> transaction_report ctx_m" where
  "run_sub ex new_call_frame s =
     (case ex \<lparr>c_vm = c_vm s, c_frame = new_call_frame\<rparr> of (r, t) \<Rightarrow> (r, s\<lparr>c_vm := c_vm t\<rparr>))"

definition set_gas_used :: "nat \<Rightarrow> unit ctx_m" where
  "set_gas_used g = set_frame (cf_gas_used_update (\<lambda>_. g))"

definition generic_call ::
  "transaction_report ctx_m \<Rightarrow> u256 \<Rightarrow> u256 \<Rightarrow> address \<Rightarrow> address \<Rightarrow> address \<Rightarrow> bool \<Rightarrow> bool \<Rightarrow>
     u256 \<Rightarrow> nat \<Rightarrow> u256 \<Rightarrow> nat \<Rightarrow> opcode_success ctx_m" where
  "generic_call ex gas_limit val msg_sender to code_address should_transfer_value is_static
     args_offset args_size ret_offset ret_size =
     (sbind (set_frame (cf_sub_return_data_update (\<lambda>_. []))) (\<lambda>_.
     sbind (on_vm (access_account msg_sender)) (\<lambda>(sender_account_info, _).
     if should_transfer_value \<and> ai_balance sender_account_info < val then
       (sbind (push REVERT_FOR_CALL) (\<lambda>_.
       continue))
     else
       (sbind (frame cf_depth) (\<lambda>depth.
       sbind (slift (ok_or (checked_add usize_bound depth 1) (Internal ArithmeticOperationOverflow))) (\<lambda>new_depth.
       if 1024 < new_depth then (sbind (push REVERT_FOR_CALL) (\<lambda>_.
                                continue))
       else
         (sbind (on_vm (access_account code_address)) (\<lambda>(code_account_info, _).
         sbind (on_memory (load_range args_offset args_size)) (\<lambda>calldata.
         sbind (frame max_message_call_gas) (\<lambda>cap.
         sbind (slift cap) (\<lambda>gas_cap.
         sbind (slift (ok_or (u256_to_u64 (min gas_limit (of_nat gas_cap))) (Internal ConversionError))) (\<lambda>gas_limit.
         let new_call_frame = call_frame_new msg_sender to code_address (ai_bytecode code_account_info)
             val calldata is_static gas_limit 0 new_depth False in
         sbind ((if should_transfer_value then
                  (sbind (on_vm (decrease_account_balance msg_sender val)) (\<lambda>_.
                  on_vm (increase_account_balance to val)))
                else sreturn ())) (\<lambda>_.
         sbind (run_sub ex new_call_frame) (\<lambda>tx_report.
         sbind (frame cf_gas_used) (\<lambda>gas_used.
         sbind (slift (ok_or (checked_add u64_bound gas_used (rep_gas_used tx_report))
                (OutOfGas ConsumedGasOverflow))) (\<lambda>gas_used.
         sbind (set_gas_used gas_used) (\<lambda>_.
         sbind (set_frame (cf_logs_update (\<lambda>l. l @ rep_logs tx_report))) (\<lambda>_.
         sbind (on_memory (try_store_range ret_offset ret_size (rep_output tx_report))) (\<lambda>_.
         sbind (set_frame (cf_sub_return_data_update (\<lambda>_. rep_output tx_report))) (\<lambda>_.
         case rep_result tx_report of
           Success \<Rightarrow> (sbind (push SUCCESS_FOR_CALL) (\<lambda>_.
                                 continue))
         | Revert _ \<Rightarrow>
             (sbind ((if should_transfer_value then
                      (sbind (on_vm (decrease_account_balance to val)) (\<lambda>_.
                      on_vm (increase_account_balance msg_sender val)))
                    else sreturn ())) (\<lambda>_.
             sbind (push REVERT_FOR_CALL) (\<lambda>_.
             continue)))))))))))))))))))))))"

definition created_accounts_insert :: "address \<Rightarrow> unit vm_m" where
  "created_accounts_insert a =
     smodify (vm_substate_update (created_accounts_update (insert a)))"

definition created_accounts_remove :: "address \<Rightarrow> unit vm_m" where
  "created_accounts_remove a =
     smodify (vm_substate_update (created_accounts_update (\<lambda>s. s - {a})))"

definition generic_create ::
  "crypto \<Rightarrow> transaction_report ctx_m \<Rightarrow> u256 \<Rightarrow> u256 \<Rightarrow> nat \<Rightarrow> u256 option \<Rightarrow> opcode_success ctx_m" where
  "generic_create H ex value_in_wei_to_send code_offset_in_memory code_size_in_memory salt =
     (sbind (frame cf_is_static) (\<lambda>is_static.
     if is_static then serr OpcodeNotAllowedInStaticContext
     else if INIT_CODE_MAX_SIZE < code_size_in_memory then serr (OutOfGas ConsumedGasOverflow)
     else
       (sbind (frame max_message_call_gas) (\<lambda>reserved.
       sbind (slift reserved) (\<lambda>max_gas.
       sbind (charge max_gas) (\<lambda>_.
       sbind (set_frame (cf_sub_return_data_update (\<lambda>_. []))) (\<lambda>_.
       sbind (frame cf_to) (\<lambda>deployer_address.
       sbind (on_vm (access_account deployer_address)) (\<lambda>(deployer_account_info, _).
       sbind (on_memory (load_range code_offset_in_memory code_size_in_memory)) (\<lambda>code.
       sbind (slift (case salt of
                Some sa \<Rightarrow> calculate_create2_address H deployer_address code sa
              | None \<Rightarrow> calculate_create_address H deployer_address (ai_nonce deployer_account_info))) (\<lambda>new_address.
       sbind (on_vm (touch new_address)) (\<lambda>_.
       sbind (frame cf_depth) (\<lambda>depth.
       sbind (slift (ok_or (checked_add usize_bound depth 1) (Internal ArithmeticOperationOverflow))) (\<lambda>new_depth.
       if ai_balance deployer_account_info < value_in_wei_to_send \<or> 1024 < new_depth \<or>
          ai_nonce deployer_account_info = u64_bound - 1 then
         (sbind (frame cf_gas_used) (\<lambda>gas_used.
         sbind (slift (ok_or (checked_sub gas_used max_gas) (Internal GasOverflow))) (\<lambda>gas_used.
         sbind (set_gas_used gas_used) (\<lambda>_.
         sbind (push CREATE_DEPLOYMENT_FAIL) (\<lambda>_.
         continue)))))
       else
         (sbind (on_vm (get_account new_address)) (\<lambda>new_account.
         if has_code_or_nonce H new_account then
           (sbind (on_vm (increment_account_nonce deployer_address)) (\<lambda>_.
           sbind (push CREATE_DEPLOYMENT_FAIL) (\<lambda>_.
           continue)))
         else
           (sbind (slift (ok_or (u256_checked_add value_in_wei_to_send (ai_balance (acc_info new_account)))
                  BalanceOverflow)) (\<lambda>new_balance.
           sbind (on_vm (insert_account new_address (account_new new_balance [] 1 Map.empty))) (\<lambda>_.
           sbind (on_vm (increment_account_nonce deployer_address)) (\<lambda>_.
           sbind (on_vm (decrease_account_balance deployer_address value_in_wei_to_send)) (\<lambda>_.
           let new_call_frame = call_frame_new deployer_address new_address new_address code
               value_in_wei_to_send [] False max_gas 0 new_depth True in
           sbind (on_vm (created_accounts_insert new_address)) (\<lambda>_.
           sbind (run_sub ex new_call_frame) (\<lambda>tx_report.
           sbind (slift (ok_or (checked_sub max_gas (rep_gas_used tx_report)) (Internal GasOverflow))) (\<lambda>unused_gas.
           sbind (frame cf_gas_used) (\<lambda>gas_used.
           sbind (slift (ok_or (checked_sub gas_used unused_gas) (Internal GasOverflow))) (\<lambda>gas_used.
           sbind (set_gas_used gas_used) (\<lambda>_.
           sbind (set_frame (cf_logs_update (\<lambda>l. l @ rep_logs tx_report))) (\<lambda>_.
           case rep_result tx_report of
             Success \<Rightarrow> (sbind (push (address_to_word new_address)) (\<lambda>_.
                                   continue))
           | Revert err \<Rightarrow>
               (sbind (on_vm (increase_account_balance deployer_address value_in_wei_to_send)) (\<lambda>_.
               sbind (on_vm (remove_account new_address)) (\<lambda>_.
               sbind (on_vm (created_accounts_remove new_address)) (\<lambda>_.
               sbind ((if err = RevertOpcode
                      then set_frame (cf_sub_return_data_update (\<lambda>_. rep_output tx_report))
                      else sreturn ())) (\<lambda>_.
               sbind (push CREATE_DEPLOYMENT_FAIL) (\<lambda>_.
               continue))))))))))))))))))))))))))))))))))"

section \<open>System operations\<close>

definition op_call :: "transaction_report ctx_m \<Rightarrow> opcode_success ctx_m" where
  "op_call ex =
     (sbind pop (\<lambda>gas.
     sbind pop (\<lambda>w.
     let callee = word_to_address w in
     sbind pop (\<lambda>value_to_transfer.
     sbind pop (\<lambda>args_start_offset.
     sbind pop (\<lambda>args_size.
     sbind (to_usize args_size VeryLargeNumber) (\<lambda>args_size.
     sbind pop (\<lambda>return_data_start_offset.
     sbind pop (\<lambda>return_data_size.
     sbind (to_usize return_data_size VeryLargeNumber) (\<lambda>return_data_size.
     sbind (frame cf_is_static) (\<lambda>is_static.
     if is_static \<and> value_to_transfer \<noteq> 0 then serr OpcodeNotAllowedInStaticContext
     else
       (sbind memory_len (\<lambda>current_memory_size.
       sbind (slift (calculate_memory_size args_start_offset args_size)) (\<lambda>new_memory_size_for_args.
       sbind (slift (calculate_memory_size return_data_start_offset return_data_size)) (\<lambda>new_memory_size_for_return_data.
       let new_memory_size = max new_memory_size_for_args new_memory_size_for_return_data in
       sbind (on_vm (access_account callee)) (\<lambda>(account_info, address_was_cold).
       sbind (slift (gas_call new_memory_size current_memory_size address_was_cold
              (account_info_is_empty account_info) value_to_transfer)) (\<lambda>gas_cost.
       sbind (charge gas_cost) (\<lambda>_.
       sbind (frame cf_to) (\<lambda>msg_sender.
       let gas_for_subcall = (if value_to_transfer \<noteq> 0 then u256_saturating_add gas (of_nat CALL_POSITIVE_VALUE_STIPEND) else gas) in
       generic_call ex gas_for_subcall value_to_transfer msg_sender callee callee True is_static
       args_start_offset args_size return_data_start_offset return_data_size)))))))))))))))))))"

definition op_callcode :: "transaction_report ctx_m \<Rightarrow> opcode_success ctx_m" where
  "op_callcode ex =
     (sbind pop (\<lambda>gas.
     sbind pop (\<lambda>w.
     let code_address = word_to_address w in
     sbind pop (\<lambda>value_to_transfer.
     sbind pop (\<lambda>args_start_offset.
     sbind pop (\<lambda>args_size.
     sbind (to_usize args_size VeryLargeNumber) (\<lambda>args_size.
     sbind pop (\<lambda>return_data_start_offset.
     sbind pop (\<lambda>return_data_size.
     sbind (to_usize return_data_size VeryLargeNumber) (\<lambda>return_data_size.
     sbind memory_len (\<lambda>current_memory_size.
     sbind (slift (calculate_memory_size args_start_offset args_size)) (\<lambda>new_memory_size_for_args.
     sbind (slift (calculate_memory_size return_data_start_offset return_data_size)) (\<lambda>new_memory_size_for_return_data.
     let new_memory_size = max new_memory_size_for_args new_memory_size_for_return_data in
     sbind (on_vm (access_account code_address)) (\<lambda>(_, address_was_cold).
     sbind (slift (gas_callcode new_memory_size current_memory_size address_was_cold value_to_transfer)) (\<lambda>gas_cost.
     sbind (charge gas_cost) (\<lambda>_.
     sbind (frame cf_to) (\<lambda>to.
     sbind (frame cf_is_static) (\<lambda>is_static.
     let gas_for_subcall = (if value_to_transfer \<noteq> 0 then u256_saturating_add gas (of_nat CALLCODE_POSITIVE_VALUE_STIPEND) else gas) in
     generic_call ex gas_for_subcall value_to_transfer to to code_address True is_static
     args_start_offset args_size return_data_start_offset return_data_size))))))))))))))))))"

definition op_return :: "opcode_success ctx_m" where
  "op_return =
     (sbind pop (\<lambda>offset.
     sbind pop (\<lambda>sz.
     sbind (to_usize sz VeryLargeNumber) (\<lambda>sz.
     if sz = 0 then sreturn (OpResult Return)
     else
       (sbind (slift (calculate_memory_size offset sz)) (\<lambda>new_memory_size.
       sbind memory_len (\<lambda>mem_len.
       sbind (slift (expansion_cost new_memory_size mem_len)) (\<lambda>memory_expansion_cost.
       sbind (charge memory_expansion_cost) (\<lambda>_.
       sbind (on_memory (load_range offset sz)) (\<lambda>dat.
       sbind (set_frame (cf_output_update (\<lambda>_. dat))) (\<lambda>_.
       sreturn (OpResult Return))))))))))))"

definition op_delegatecall :: "transaction_report ctx_m \<Rightarrow> opcode_success ctx_m" where
  "op_delegatecall ex =
     (sbind pop (\<lambda>gas.
     sbind pop (\<lambda>w.
     let code_address = word_to_address w in
     sbind pop (\<lambda>args_start_offset.
     sbind pop (\<lambda>args_size.
     sbind (to_usize args_size VeryLargeNumber) (\<lambda>args_size.
     sbind pop (\<lambda>return_data_start_offset.
     sbind pop (\<lambda>return_data_size.
     sbind (to_usize return_data_size VeryLargeNumber) (\<lambda>return_data_size.
     sbind (on_vm (access_account code_address)) (\<lambda>(_, address_was_cold).
     sbind memory_len (\<lambda>current_memory_size.
     sbind (slift (calculate_memory_size args_start_offset args_size)) (\<lambda>new_memory_size_for_args.
     sbind (slift (calculate_memory_size return_data_start_offset return_data_size)) (\<lambda>new_memory_size_for_return_data.
     let new_memory_size = max new_memory_size_for_args new_memory_size_for_return_data in
     sbind (slift (gas_delegatecall new_memory_size current_memory_size address_was_cold)) (\<lambda>gas_cost.
     sbind (charge gas_cost) (\<lambda>_.
     sbind (frame cf_msg_sender) (\<lambda>msg_sender.
     sbind (frame cf_msg_value) (\<lambda>val.
     sbind (frame cf_to) (\<lambda>to.
     sbind (frame cf_is_static) (\<lambda>is_static.
     generic_call ex gas val msg_sender to code_address False is_static
     args_start_offset args_size return_data_start_offset return_data_size)))))))))))))))))))"

definition op_staticcall :: "transaction_report ctx_m \<Rightarrow> opcode_success ctx_m" where
  "op_staticcall ex =
     (sbind pop (\<lambda>gas.
     sbind pop (\<lambda>w.
     let code_address = word_to_address w in
     sbind pop (\<lambda>args_start_offset.
     sbind pop (\<lambda>args_size.
     sbind (to_usize args_size VeryLargeNumber) (\<lambda>args_size.
     sbind pop (\<lambda>return_data_start_offset.
     sbind pop (\<lambda>return_data_size.
     sbind (to_usize return_data_size VeryLargeNumber) (\<lambda>return_data_size.
     sbind (on_vm (access_account code_address)) (\<lambda>(_, address_was_cold).
     sbind memory_len (\<lambda>current_memory_size.
     sbind (slift (calculate_memory_size args_start_offset args_size)) (\<lambda>new_memory_size_for_args.
     sbind (slift (calculate_memory_size return_data_start_offset return_data_size)) (\<lambda>new_memory_size_for_return_data.
     let new_memory_size = max new_memory_size_for_args new_memory_size_for_return_data in
     sbind (slift (gas_staticcall new_memory_size current_memory_size address_was_cold)) (\<lambda>gas_cost.
     sbind (charge gas_cost) (\<lambda>_.
     sbind (frame cf_to) (\<lambda>msg_sender.
     generic_call ex gas 0 msg_sender code_address code_address True True
     args_start_offset args_size return_data_start_offset return_data_size))))))))))))))))"

definition op_create :: "crypto \<Rightarrow> transaction_report ctx_m \<Rightarrow> opcode_success ctx_m" where
  "op_create H ex =
     (sbind pop (\<lambda>value_in_wei_to_send.
     sbind pop (\<lambda>code_offset_in_memory.
     sbind pop (\<lambda>code_size_in_memory.
     sbind (to_usize code_size_in_memory VeryLargeNumber) (\<lambda>code_size_in_memory.
     sbind (slift (calculate_memory_size code_offset_in_memory code_size_in_memory)) (\<lambda>new_size.
     sbind memory_len (\<lambda>mem_len.
     sbind (slift (gas_create new_size mem_len code_size_in_memory)) (\<lambda>gas_cost.
     sbind (charge gas_cost) (\<lambda>_.
     generic_create H ex value_in_wei_to_send code_offset_in_memory code_size_in_memory None)))))))))"

definition op_create2 :: "crypto \<Rightarrow> transaction_report ctx_m \<Rightarrow> opcode_success ctx_m" where
  "op_create2 H ex =
     (sbind pop (\<lambda>value_in_wei_to_send.
     sbind pop (\<lambda>code_offset_in_memory.
     sbind pop (\<lambda>code_size_in_memory.
     sbind (to_usize code_size_in_memory VeryLargeNumber) (\<lambda>code_size_in_memory.
     sbind pop (\<lambda>salt.
     sbind (slift (calculate_memory_size code_offset_in_memory code_size_in_memory)) (\<lambda>new_size.
     sbind memory_len (\<lambda>mem_len.
     sbind (slift (gas_create_2 new_size mem_len code_size_in_memory)) (\<lambda>gas_cost.
     sbind (charge gas_cost) (\<lambda>_.
     generic_create H ex value_in_wei_to_send code_offset_in_memory code_size_in_memory (Some salt)))))))))))"

definition op_revert :: "opcode_success ctx_m" where
  "op_revert =
     (sbind pop (\<lambda>offset.
     sbind pop (\<lambda>sz.
     sbind (to_usize sz VeryLargeNumber) (\<lambda>sz.
     sbind (slift (calculate_memory_size offset sz)) (\<lambda>new_memory_size.
     sbind memory_len (\<lambda>mem_len.
     sbind (slift (expansion_cost new_memory_size mem_len)) (\<lambda>memory_expansion_cost.
     sbind (charge memory_expansion_cost) (\<lambda>_.
     sbind (on_memory (load_range offset sz)) (\<lambda>dat.
     sbind (set_frame (cf_output_update (\<lambda>_. dat))) (\<lambda>_.
     serr RevertOpcode))))))))))"

definition op_invalid :: "opcode_success ctx_m" where
  "op_invalid = serr InvalidOpcode"

definition selfdestruct_set_insert :: "address \<Rightarrow> unit vm_m" where
  "selfdestruct_set_insert a =
     smodify (vm_substate_update (selfdestruct_set_update (insert a)))"

definition op_selfdestruct :: "opcode_success ctx_m" where
  "op_selfdestruct =
     (sbind (frame cf_is_static) (\<lambda>is_static.
     if is_static then serr OpcodeNotAllowedInStaticContext
     else
       (sbind pop (\<lambda>w.
       let target_address = word_to_address w in
       sbind (on_vm (access_account target_address)) (\<lambda>(target_account_info, target_account_is_cold).
       sbind (frame cf_to) (\<lambda>to.
       sbind (on_vm (access_account to)) (\<lambda>(current_account_info, _).
       let balance_to_transfer = ai_balance current_account_info in
       sbind (slift (gas_selfdestruct target_account_is_cold (account_info_is_empty target_account_info)
              balance_to_transfer)) (\<lambda>gas_cost.
       sbind (charge gas_cost) (\<lambda>_.
       sbind (on_vm (increase_account_balance target_address balance_to_transfer)) (\<lambda>_.
       sbind (on_vm (decrease_account_balance to balance_to_transfer)) (\<lambda>_.
       sbind (sgets (\<lambda>s. to \<in> created_accounts (vm_substate (c_vm s)))) (\<lambda>created.
       sbind ((if created then on_vm (selfdestruct_set_insert to) else sreturn ())) (\<lambda>_.
       sreturn (OpResult SelfDestruct))))))))))))))"

end
