(* ===== verification/Evm_Execute.thy ===== *)
theory Evm_Execute
  imports Evm_System
begin

text \<open>
  The interpreter (\<^verbatim>\<open>VM::execute\<close> of \<^verbatim>\<open>vm.rs\<close>): the dispatch on the next instruction, the end of a
  frame on success and on failure, precompiled contracts, and the loop.
\<close>

section \<open>Dispatch\<close>

definition exec_arithmetic :: "arithmetic_op \<Rightarrow> opcode_success ctx_m" where
  "exec_arithmetic c =
     (case c of
        STOP \<Rightarrow> sreturn (OpResult Stop) | ADD \<Rightarrow> op_add | MUL \<Rightarrow> op_mul | SUB \<Rightarrow> op_sub
      | DIV \<Rightarrow> op_div | SDIV \<Rightarrow> op_sdiv | MOD \<Rightarrow> op_mod | SMOD \<Rightarrow> op_smod | ADDMOD \<Rightarrow> op_addmod
      | MULMOD \<Rightarrow> op_mulmod | EXP \<Rightarrow> op_exp | SIGNEXTEND \<Rightarrow> op_signextend)"

definition exec_comparison :: "comparison_op \<Rightarrow> opcode_success ctx_m" where
  "exec_comparison c =
     (case c of
        LT \<Rightarrow> op_lt | GT \<Rightarrow> op_gt | SLT \<Rightarrow> op_slt | SGT \<Rightarrow> op_sgt | EQ \<Rightarrow> op_eq
      | ISZERO \<Rightarrow> op_iszero | AND \<Rightarrow> op_and | OR \<Rightarrow> op_or | XOR \<Rightarrow> op_xor | NOT \<Rightarrow> op_not
      | BYTE \<Rightarrow> op_byte | SHL \<Rightarrow> op_shl | SHR \<Rightarrow> op_shr | SAR \<Rightarrow> op_sar)"

definition exec_environment :: "crypto \<Rightarrow> environment_op \<Rightarrow> opcode_success ctx_m" where
  "exec_environment H c =
     (case c of
        ADDRESS \<Rightarrow> op_address | BALANCE \<Rightarrow> op_balance | ORIGIN \<Rightarrow> op_origin | CALLER \<Rightarrow> op_caller
      | CALLVALUE \<Rightarrow> op_callvalue | CALLDATALOAD \<Rightarrow> op_calldataload
      | CALLDATASIZE \<Rightarrow> op_calldatasize | CALLDATACOPY \<Rightarrow> op_calldatacopy
      | CODESIZE \<Rightarrow> op_codesize | CODECOPY \<Rightarrow> op_codecopy | GASPRICE \<Rightarrow> op_gasprice
      | EXTCODESIZE \<Rightarrow> op_extcodesize | EXTCODECOPY \<Rightarrow> op_extcodecopy
      | RETURNDATASIZE \<Rightarrow> op_returndatasize | RETURNDATACOPY \<Rightarrow> op_returndatacopy
      | EXTCODEHASH \<Rightarrow> op_extcodehash H)"

definition exec_block :: "block_op \<Rightarrow> opcode_success ctx_m" where
  "exec_block c =
     (case c of
        BLOCKHASH \<Rightarrow> op_blockhash | COINBASE \<Rightarrow> op_coinbase | TIMESTAMP \<Rightarrow> op_timestamp
      | NUMBER \<Rightarrow> op_number | PREVRANDAO \<Rightarrow> op_prevrandao | GASLIMIT \<Rightarrow> op_gaslimit
      | CHAINID \<Rightarrow> op_chainid | SELFBALANCE \<Rightarrow> op_selfbalance | BASEFEE \<Rightarrow> op_basefee
      | BLOBHASH \<Rightarrow> op_blobhash | BLOBBASEFEE \<Rightarrow> op_blobbasefee)"

definition exec_flow :: "flow_op \<Rightarrow> opcode_success ctx_m" where
  "exec_flow c =
     (case c of
        POP \<Rightarrow> op_pop | MLOAD \<Rightarrow> op_mload | MSTORE \<Rightarrow> op_mstore | MSTORE8 \<Rightarrow> op_mstore8
      | SLOAD \<Rightarrow> op_sload | SSTORE \<Rightarrow> op_sstore | JUMP \<Rightarrow> op_jump | JUMPI \<Rightarrow> op_jumpi
      | PC \<Rightarrow> op_pc | MSIZE \<Rightarrow> op_msize | GAS \<Rightarrow> op_gas | JUMPDEST \<Rightarrow> op_jumpdest
      | TLOAD \<Rightarrow> op_tload | TSTORE \<Rightarrow> op_tstore | MCOPY \<Rightarrow> op_mcopy)"

definition exec_system ::
  "crypto \<Rightarrow> transaction_report ctx_m \<Rightarrow> system_op \<Rightarrow> opcode_success ctx_m" where
  "exec_system H ex c =
     (case c of
        CREATE \<Rightarrow> op_create H ex | CALL \<Rightarrow> op_call ex | CALLCODE \<Rightarrow> op_callcode ex
      | RETURN \<Rightarrow> op_return | DELEGATECALL \<Rightarrow> op_delegatecall ex | CREATE2 \<Rightarrow> op_create2 H ex
      | STATICCALL \<Rightarrow> op_staticcall ex | REVERT \<Rightarrow> op_revert | INVALID \<Rightarrow> op_invalid
      | SELFDESTRUCT \<Rightarrow> op_selfdestruct)"

definition exec_opcode ::
  "crypto \<Rightarrow> transaction_report ctx_m \<Rightarrow> opcode \<Rightarrow> opcode_success ctx_m" where
  "exec_opcode H ex opc =
     (case opc of
        Arith c \<Rightarrow> exec_arithmetic c
      | Cmp c \<Rightarrow> exec_comparison c
      | KECCAK256 \<Rightarrow> op_keccak256 H
      | Envr c \<Rightarrow> exec_environment H c
      | Block c \<Rightarrow> exec_block c
      | Flow c \<Rightarrow> exec_flow c
      | PUSH0 \<Rightarrow> op_push0
      | PUSH n \<Rightarrow> op_push n
      | DUP n \<Rightarrow> op_dup n
      | SWAP n \<Rightarrow> op_swap n
      | LOG n \<Rightarrow> op_log n
      | Sys c \<Rightarrow> exec_system H ex c)"

section \<open>The end of a frame\<close>

record backup =
  bk_cache :: cache_db
  bk_substate :: substate
  bk_refunded_gas :: nat
  bk_transient_storage :: transient_storage

definition take_backup :: "vm \<Rightarrow> backup" where
  "take_backup self =
     \<lparr>bk_cache = vm_cache self, bk_substate = vm_substate self,
      bk_refunded_gas = env_refunded_gas (vm_env self),
      bk_transient_storage = env_transient_storage (vm_env self)\<rparr>"

definition restore_state :: "backup \<Rightarrow> vm \<Rightarrow> vm" where
  "restore_state bk self =
     self\<lparr>vm_cache := bk_cache bk, vm_substate := bk_substate bk,
          vm_env := (vm_env self)\<lparr>env_refunded_gas := bk_refunded_gas bk,
                                  env_transient_storage := bk_transient_storage bk\<rparr>\<rparr>"

definition is_create :: "vm \<Rightarrow> bool" where
  "is_create self \<longleftrightarrow> vm_tx_kind self = TxCreate"

definition push_call_frame :: "unit ctx_m" where
  "push_call_frame =
     smodify (\<lambda>s. s\<lparr>c_vm := (c_vm s)\<lparr>vm_call_frames := vm_call_frames (c_vm s) @ [c_frame s]\<rparr>\<rparr>)"

definition make_report :: "tx_result \<Rightarrow> nat \<Rightarrow> nat \<Rightarrow> bytes \<Rightarrow> ctx \<Rightarrow> transaction_report" where
  "make_report res gas_used gas_refunded output s =
     \<lparr>rep_result = res, rep_new_state = vm_cache (c_vm s), rep_gas_used = gas_used,
      rep_gas_refunded = gas_refunded, rep_output = output, rep_logs = cf_logs (c_frame s),
      rep_created_address = None\<rparr>"

definition frame_report :: "tx_result \<Rightarrow> transaction_report ctx_m" where
  "frame_report res =
     sgets (\<lambda>s. make_report res (cf_gas_used (c_frame s)) (env_refunded_gas (vm_env (c_vm s)))
       (cf_output (c_frame s)) s)"

definition validate_create :: "bytes \<Rightarrow> nat \<Rightarrow> (vm_error + address) ctx_m" where
  "validate_create contract_code code_deposit_cost =
     (if MAX_CODE_SIZE < length contract_code then sreturn (Inl ContractOutputTooBig)
      else if (case contract_code of [] \<Rightarrow> 0 | b # _ \<Rightarrow> b) = INVALID_CONTRACT_PREFIX
      then sreturn (Inl InvalidContractPrefix)
      else
        (sbind (attempt (charge code_deposit_cost)) (\<lambda>charged.
        case charged of
          Inl _ \<Rightarrow> sreturn (Inl (OutOfGas MaxGasLimitExceeded))
        | Inr _ \<Rightarrow> (sbind (frame cf_to) (\<lambda>to.
                              sreturn (Inr to))))))"

definition finish_success :: "backup \<Rightarrow> transaction_report ctx_m" where
  "finish_success bk =
     (sbind push_call_frame (\<lambda>_.
     sbind sget (\<lambda>s.
     if (is_create (c_vm s) \<and> cf_depth (c_frame s) = 0) \<or> cf_create_op_called (c_frame s) then
       (let contract_code = cf_output (c_frame s) in
       sbind (slift (ok_or (checked_mul u64_bound (length contract_code) CODE_DEPOSIT_COST)
              (Internal ArithmeticOperationOverflow))) (\<lambda>code_deposit_cost.
       sbind (validate_create contract_code code_deposit_cost) (\<lambda>validated.
       case validated of
         Inr new_address \<Rightarrow>
           (sbind (on_vm (update_account_bytecode new_address contract_code)) (\<lambda>_.
           frame_report Success))
       | Inl error \<Rightarrow>
           (sbind (set_frame (\<lambda>f. f\<lparr>cf_gas_used := cf_gas_limit f\<rparr>)) (\<lambda>_.
           sbind (on_vm (smodify (restore_state bk))) (\<lambda>_.
           frame_report (Revert error)))))))
     else frame_report Success)))"

definition finish_error :: "backup \<Rightarrow> vm_error \<Rightarrow> transaction_report ctx_m" where
  "finish_error bk error =
     (sbind push_call_frame (\<lambda>_.
     if is_internal error then serr error
     else
       (sbind ((if error \<noteq> RevertOpcode
              then set_frame (\<lambda>f.
                let left_gas = cf_gas_limit f - cf_gas_used f
                in f\<lparr>cf_gas_used := min (cf_gas_used f + left_gas) (u64_bound - 1)\<rparr>)
              else sreturn ())) (\<lambda>_.
       sbind (on_vm (smodify (restore_state bk))) (\<lambda>_.
       frame_report (Revert error))))))"

section \<open>Execution\<close>

definition execute_with ::
  "crypto \<Rightarrow> (backup \<Rightarrow> transaction_report ctx_m) \<Rightarrow> transaction_report ctx_m" where
  "execute_with H loop =
     (sbind (sgets (\<lambda>s. take_backup (c_vm s))) (\<lambda>bk.
     sbind (frame cf_code_address) (\<lambda>code_address.
     if is_precompile code_address then
       (sbind (attempt (on_frame (execute_precompile H))) (\<lambda>precompile_result.
       case precompile_result of
         Inr output \<Rightarrow>
           (sbind push_call_frame (\<lambda>_.
           sgets (\<lambda>s. make_report Success (cf_gas_used (c_frame s)) 0 output s)))
       | Inl error \<Rightarrow>
           if is_internal error then serr error
           else
             (sbind push_call_frame (\<lambda>_.
             sbind (on_vm (smodify (restore_state bk))) (\<lambda>_.
             sgets (\<lambda>s. make_report (Revert error) (cf_gas_limit (c_frame s)) 0 [] s))))))
     else loop bk)))"

definition exec_step :: "crypto \<Rightarrow> transaction_report ctx_m \<Rightarrow> (vm_error + opcode_success) ctx_m" where
  "exec_step H ex =
     (sbind (frame next_opcode) (\<lambda>opc.
     sbind (attempt (exec_opcode H ex opc)) (\<lambda>op_result.
     sbind ((if opc \<noteq> Flow JUMP \<and> opc \<noteq> Flow JUMPI then on_frame increment_pc else sreturn ())) (\<lambda>_.
     sreturn op_result))))"

primrec exec_loop :: "crypto \<Rightarrow> nat \<Rightarrow> backup \<Rightarrow> transaction_report ctx_m" where
  "exec_loop H 0 = (\<lambda>bk s. (Diverge, s))"
| "exec_loop H (Suc n) =
     (\<lambda>bk. (sbind (exec_step H (execute_with H (exec_loop H n))) (\<lambda>op_result.
                   case op_result of
                     Inr r \<Rightarrow> (case r of Continue \<Rightarrow> exec_loop H n bk | OpResult _ \<Rightarrow> finish_success bk)
                   | Inl error \<Rightarrow> finish_error bk error)))"

definition execute_fuel :: "crypto \<Rightarrow> nat \<Rightarrow> transaction_report ctx_m" where
  "execute_fuel H n = execute_with H (exec_loop H n)"

definition gas_left :: "call_frame \<Rightarrow> nat" where
  "gas_left f = cf_gas_limit f - cf_gas_used f"

definition execute :: "crypto \<Rightarrow> transaction_report ctx_m" where
  "execute H s = execute_fuel H (Suc (gas_left (c_frame s))) s"

end
