(* ===== verification/Evm_Transact.thy ===== *)
theory Evm_Transact
  imports Evm_Execute
begin

text \<open>
  A transaction (\<^verbatim>\<open>vm.rs\<close>): the machine it starts from (\<^verbatim>\<open>VM::new\<close>), its intrinsic gas and the
  validations before execution, the execution of its frame, and the changes afterwards.
\<close>

section \<open>The initial machine\<close>

definition substate_new :: "environment \<Rightarrow> access_list \<Rightarrow> address \<Rightarrow> address set \<Rightarrow> substate" where
  "substate_new e al target created =
     \<lparr>selfdestruct_set = {},
      touched_accounts =
        insert target ({env_origin e, env_coinbase e} \<union> set (map fst al) \<union> set (map of_nat [1..<11])),
      touched_storage_slots = foldl (\<lambda>m (a, ks). m(a \<mapsto> set ks)) Map.empty al,
      created_accounts = created\<rparr>"

definition vm_new ::
  "crypto \<Rightarrow> tx_kind \<Rightarrow> environment \<Rightarrow> u256 \<Rightarrow> bytes \<Rightarrow> database \<Rightarrow> cache_db \<Rightarrow> access_list \<Rightarrow>
     (vm, vm_error) result" where
  "vm_new H to e val calldata d c al =
     (case to of
        TxCall address_to \<Rightarrow>
          (case get_account_or_load d c address_to of
             (acc, c') \<Rightarrow>
               Ok \<lparr>vm_call_frames = [call_frame_new (env_origin e) address_to address_to
                     (ai_bytecode (acc_info acc)) val calldata False (env_gas_limit e) 0 0 False],
                   vm_env = e, vm_substate = substate_new e al address_to {}, vm_db = d,
                   vm_cache = c', vm_tx_kind = to, vm_access_list = al\<rparr>)
      | TxCreate \<Rightarrow>
          (case get_account_or_load d c (env_origin e) of
             (acc, c') \<Rightarrow>
               (rbind (rmap_err (\<lambda>_. Internal CouldNotComputeCreateAddress)
                      (calculate_create_address H (env_origin e) (ai_nonce (acc_info acc)))) (\<lambda>new_contract_address.
               Ok \<lparr>vm_call_frames = [call_frame_new (env_origin e) new_contract_address
                 new_contract_address [] val calldata False (env_gas_limit e) 0 0 False],
               vm_env = e,
               vm_substate = substate_new e al new_contract_address {new_contract_address},
               vm_db = d, vm_cache = c', vm_tx_kind = TxCreate, vm_access_list = al\<rparr>))))"

section \<open>Intrinsic gas\<close>

abbreviation (input) gas_sum :: "nat \<Rightarrow> nat \<Rightarrow> (nat, vm_error) result" where
  "gas_sum a b \<equiv> ok_or (checked_add u64_bound a b) (OutOfGas ConsumedGasOverflow)"

primrec access_list_keys_cost :: "h256 list \<Rightarrow> nat \<Rightarrow> (nat, vm_error) result" where
  "access_list_keys_cost [] cost = Ok cost"
| "access_list_keys_cost (_ # ks) cost =
     (rbind (gas_sum cost ACCESS_LIST_STORAGE_KEY_COST) (\<lambda>cost.
     access_list_keys_cost ks cost))"

fun access_list_cost :: "access_list \<Rightarrow> nat \<Rightarrow> (nat, vm_error) result" where
  "access_list_cost [] cost = Ok cost"
| "access_list_cost ((_, ks) # al) cost =
     (rbind (gas_sum cost ACCESS_LIST_ADDRESS_COST) (\<lambda>cost.
     rbind (access_list_keys_cost ks cost) (\<lambda>cost.
     access_list_cost al cost)))"

definition intrinsic_gas :: "bytes \<Rightarrow> bool \<Rightarrow> access_list \<Rightarrow> (nat, vm_error) result" where
  "intrinsic_gas calldata create al =
     (rbind (tx_calldata calldata) (\<lambda>calldata_cost.
     rbind (gas_sum 0 calldata_cost) (\<lambda>gas.
     rbind (gas_sum gas TX_BASE_COST) (\<lambda>gas.
     rbind ((if create then
              (rbind (gas_sum gas CREATE_BASE_COST) (\<lambda>gas.
              let number_of_words = (length calldata + WORD_SIZE - 1) div WORD_SIZE in
              rbind (ok_or (checked_mul usize_bound number_of_words 2) (OutOfGas ConsumedGasOverflow)) (\<lambda>double_number_of_words.
              gas_sum gas double_number_of_words)))
            else Ok gas)) (\<lambda>gas.
     rbind (access_list_cost al 0) (\<lambda>access_lists_cost.
     gas_sum gas access_lists_cost))))))"

definition add_intrinsic_gas :: "unit ctx_m" where
  "add_intrinsic_gas =
     (sbind (sgets (\<lambda>s. intrinsic_gas (cf_calldata (c_frame s)) (is_create (c_vm s)) (vm_access_list (c_vm s)))) (\<lambda>cost.
     sbind (slift cost) (\<lambda>gas.
     smap_err (\<lambda>_. TxValidation IntrinsicGasTooLow) (charge gas))))"

section \<open>Blob gas\<close>

definition blob_gas :: "environment \<Rightarrow> nat" where
  "blob_gas e =
     (case checked_mul u64_bound (length (env_tx_blob_hashes e)) BLOB_GAS_PER_BLOB of
        Some g \<Rightarrow> g | None \<Rightarrow> 0)"

definition get_max_blob_gas_price :: "environment \<Rightarrow> (u256, vm_error) result" where
  "get_max_blob_gas_price e =
     (let fee = (case env_tx_max_fee_per_blob_gas e of Some f \<Rightarrow> f | None \<Rightarrow> 0)
      in ok_or (u256_checked_mul fee (of_nat (blob_gas e))) (Internal (UndefinedState 1)))"

definition get_base_fee_per_blob_gas :: "environment \<Rightarrow> (u256, vm_error) result" where
  "get_base_fee_per_blob_gas e =
     (rbind (ok_or (u256_to_u64 (case env_block_excess_blob_gas e of Some x \<Rightarrow> x | None \<Rightarrow> 0)) VeryLargeNumber) (\<lambda>excess.
     rbind (fake_exponential MIN_BASE_FEE_PER_BLOB_GAS excess BLOB_BASE_FEE_UPDATE_FRACTION) (\<lambda>fee.
     Ok (of_nat fee))))"

definition get_blob_gas_price :: "environment \<Rightarrow> (u256, vm_error) result" where
  "get_blob_gas_price e =
     (rbind (get_base_fee_per_blob_gas e) (\<lambda>base_fee_per_blob_gas.
     ok_or (u256_checked_mul (of_nat (blob_gas e)) base_fee_per_blob_gas) (Internal (UndefinedState 1))))"

section \<open>Before execution\<close>

definition require :: "bool \<Rightarrow> tx_validation_error \<Rightarrow> (unit, vm_error) result" where
  "require b e = (if b then Ok () else Err (TxValidation e))"

definition up_front_cost :: "environment \<Rightarrow> u256 \<Rightarrow> u256 \<Rightarrow> (u256, vm_error) result" where
  "up_front_cost e val sender_balance =
     (rbind (ok_or (u256_checked_mul (env_gas_price e) (of_nat (env_gas_limit e)))
            (TxValidation GasLimitPriceProductOverflow)) (\<lambda>gaslimit_price_product.
     rbind (get_max_blob_gas_price e) (\<lambda>max_blob_gas_cost.
     let max_fee = (case env_tx_max_fee_per_gas e of Some f \<Rightarrow> f | None \<Rightarrow> env_gas_price e) in
     rbind (ok_or (u256_checked_mul max_fee (of_nat (env_gas_limit e)))
            (TxValidation GasLimitPriceProductOverflow)) (\<lambda>gas_fee_for_valid_tx.
     rbind (ok_or (u256_checked_add gas_fee_for_valid_tx val) (TxValidation InsufficientAccountFunds)) (\<lambda>with_value.
     rbind (ok_or (u256_checked_add with_value max_blob_gas_cost) (TxValidation InsufficientAccountFunds)) (\<lambda>balance_for_valid_tx.
     rbind (require (\<not> sender_balance < balance_for_valid_tx) InsufficientAccountFunds) (\<lambda>_.
     rbind (get_blob_gas_price e) (\<lambda>blob_gas_cost.
     rbind (ok_or (u256_checked_add gaslimit_price_product val) (TxValidation InsufficientAccountFunds)) (\<lambda>with_value.
     ok_or (u256_checked_add with_value blob_gas_cost) (TxValidation InsufficientAccountFunds))))))))))"

definition validate_blobs :: "environment \<Rightarrow> bool \<Rightarrow> (unit, vm_error) result" where
  "validate_blobs e create =
     (case env_tx_max_fee_per_blob_gas e of
        None \<Rightarrow> Ok ()
      | Some tx_max_fee_per_blob_gas \<Rightarrow>
          (rbind (get_base_fee_per_blob_gas e) (\<lambda>base_fee.
          rbind (require (\<not> tx_max_fee_per_blob_gas < base_fee) InsufficientMaxFeePerBlobGas) (\<lambda>_.
          let blob_hashes = env_tx_blob_hashes e in
          rbind (require (blob_hashes \<noteq> []) Type3TxZeroBlobs) (\<lambda>_.
          rbind (require (list_all (\<lambda>h. hd (to_be_bytes h) \<in> set VALID_BLOB_PREFIXES) blob_hashes)
                 Type3TxInvalidBlobVersionedHash) (\<lambda>_.
          rbind (require (\<not> MAX_BLOB_COUNT < length blob_hashes) Type3TxBlobCountExceeded) (\<lambda>_.
          require (\<not> create) Type3TxContractCreation)))))))"

definition prepare_execution :: "crypto \<Rightarrow> unit ctx_m" where
  "prepare_execution H =
     (sbind (env (\<lambda>e. e)) (\<lambda>e.
     sbind (sgets (\<lambda>s. is_create (c_vm s))) (\<lambda>create.
     let sender_address = env_origin e in
     sbind (on_vm (get_account sender_address)) (\<lambda>sender_account.
     sbind (frame cf_msg_value) (\<lambda>val.
     sbind (slift (up_front_cost e val (ai_balance (acc_info sender_account)))) (\<lambda>cost.
     sbind (smap_err (\<lambda>_. TxValidation InsufficientAccountFunds)
            (on_vm (decrease_account_balance sender_address cost))) (\<lambda>_.
     sbind (frame cf_to) (\<lambda>receiver_address.
     sbind ((if \<not> create then on_vm (increase_account_balance receiver_address val) else sreturn ())) (\<lambda>_.
     let max_fee = (case env_tx_max_fee_per_gas e of Some f \<Rightarrow> f | None \<Rightarrow> env_gas_price e) in
     sbind (slift (require (\<not> max_fee < env_base_fee_per_gas e) InsufficientMaxFeePerGas)) (\<lambda>_.
     sbind (frame cf_calldata) (\<lambda>calldata.
     sbind (slift (require (\<not> (create \<and> INIT_CODE_MAX_SIZE < length calldata)) InitcodeSizeExceeded)) (\<lambda>_.
     sbind add_intrinsic_gas (\<lambda>_.
     sbind (smap_err (\<lambda>_. TxValidation NonceIsMax) (on_vm (increment_account_nonce sender_address))) (\<lambda>_.
     sbind (slift (require
            (case (env_tx_max_priority_fee_per_gas e, env_tx_max_fee_per_gas e) of
               (Some tx_max_priority_fee, Some tx_max_fee_per_gas) \<Rightarrow> \<not> tx_max_fee_per_gas < tx_max_priority_fee
             | _ \<Rightarrow> True) PriorityGreaterThanMaxFeePerGas)) (\<lambda>_.
     sbind (slift (require (\<not> has_code H (acc_info sender_account)) SenderNotEOA)) (\<lambda>_.
     sbind (slift (require (\<not> env_block_gas_limit e < env_gas_limit e) GasAllowanceExceeded)) (\<lambda>_.
     sbind (slift (validate_blobs e create)) (\<lambda>_.
     (if create then set_frame (\<lambda>f. (assign_bytecode (cf_calldata f) f)\<lparr>cf_calldata := []\<rparr>)
     else sreturn ())))))))))))))))))))"

section \<open>After execution\<close>

definition remove_accounts :: "address set \<Rightarrow> unit vm_m" where
  "remove_accounts A = smodify (vm_cache_update (\<lambda>c a. if a \<in> A then None else c a))"

definition post_execution_changes ::
  "call_frame \<Rightarrow> transaction_report \<Rightarrow> transaction_report vm_m" where
  "post_execution_changes initial_call_frame report =
     (sbind (sgets vm_env) (\<lambda>e.
     let sender_address = cf_msg_sender initial_call_frame in
     let receiver_address = cf_to initial_call_frame in
     sbind ((case rep_result report of
              Revert _ \<Rightarrow>
                (sbind (remove_account receiver_address) (\<lambda>_.
                increase_account_balance sender_address (cf_msg_value initial_call_frame)))
            | Success \<Rightarrow> sreturn ())) (\<lambda>_.
     let consumed_gas = rep_gas_used report in
     sbind (slift (ok_or (checked_div consumed_gas 5) (Internal (UndefinedState (- 1))))) (\<lambda>fifth.
     let refunded_gas = min (rep_gas_refunded report) fifth in
     let report = report\<lparr>rep_gas_refunded := refunded_gas\<rparr> in
     sbind (slift (ok_or (checked_sub (env_gas_limit e) consumed_gas) (Internal (UndefinedState 0)))) (\<lambda>unused.
     sbind (slift (ok_or (checked_add u64_bound unused refunded_gas) (Internal (UndefinedState 0)))) (\<lambda>gas_to_return.
     sbind (slift (ok_or (u256_checked_mul (env_gas_price e) (of_nat gas_to_return)) (Internal (UndefinedState 1)))) (\<lambda>wei_return_amount.
     sbind (increase_account_balance sender_address wei_return_amount) (\<lambda>_.
     sbind (slift (ok_or (checked_sub consumed_gas refunded_gas) (Internal (UndefinedState 2)))) (\<lambda>gas_to_pay_coinbase.
     sbind (slift (ok_or (u256_checked_sub (env_gas_price e) (env_base_fee_per_gas e)) GasPriceIsLowerThanBaseFee)) (\<lambda>priority_fee_per_gas.
     sbind (slift (ok_or (u256_checked_mul (of_nat gas_to_pay_coinbase) priority_fee_per_gas) BalanceOverflow)) (\<lambda>coinbase_fee.
     sbind ((if coinbase_fee \<noteq> 0 then increase_account_balance (env_coinbase e) coinbase_fee else sreturn ())) (\<lambda>_.
     sbind (sgets (\<lambda>self. selfdestruct_set (vm_substate self))) (\<lambda>destroyed.
     sbind (remove_accounts destroyed) (\<lambda>_.
     sreturn report))))))))))))))"

definition handle_create_non_empty_account :: "call_frame \<Rightarrow> transaction_report vm_m" where
  "handle_create_non_empty_account initial_call_frame =
     (sbind sget (\<lambda>self.
     let report = \<lparr>rep_result = Revert AddressAlreadyOccupied, rep_new_state = vm_cache self,
         rep_gas_used = env_gas_limit (vm_env self), rep_gas_refunded = 0, rep_output = [],
         rep_logs = [], rep_created_address = None\<rparr> in
     sbind (post_execution_changes initial_call_frame report) (\<lambda>report.
     sbind sget (\<lambda>self.
     sreturn (report\<lparr>rep_new_state := vm_cache self\<rparr>)))))"

section \<open>The transaction\<close>

definition execute_and_settle :: "crypto \<Rightarrow> transaction_report ctx_m" where
  "execute_and_settle H =
     (sbind (execute H) (\<lambda>report.
     sbind (frame (\<lambda>f. f)) (\<lambda>initial_call_frame.
     sbind (on_vm (post_execution_changes initial_call_frame report)) (\<lambda>report.
     sbind (sgets (\<lambda>s. vm_cache (c_vm s))) (\<lambda>c.
     sreturn (report\<lparr>rep_new_state := c\<rparr>))))))"

definition transact_frame :: "crypto \<Rightarrow> transaction_report ctx_m" where
  "transact_frame H =
     (sbind (prepare_execution H) (\<lambda>_.
     sbind (sgets (\<lambda>s. is_create (c_vm s))) (\<lambda>create.
     if create then
       (sbind (frame cf_to) (\<lambda>new_contract_address.
       sbind (on_vm (get_account new_contract_address)) (\<lambda>new_account.
       sbind (frame cf_msg_value) (\<lambda>val.
       sbind (slift (ok_or (u256_checked_add (ai_balance (acc_info new_account)) val)
              (Internal ArithmeticOperationOverflow))) (\<lambda>balance.
       if has_code_or_nonce H new_account then
         (sbind (frame (\<lambda>f. f)) (\<lambda>initial_call_frame.
         on_vm (handle_create_non_empty_account initial_call_frame)))
       else
         (sbind (on_vm (insert_account new_contract_address (account_new balance [] 1 Map.empty))) (\<lambda>_.
         execute_and_settle H)))))))
     else execute_and_settle H)))"

definition transact :: "crypto \<Rightarrow> transaction_report vm_m" where
  "transact H self =
     (if vm_call_frames self = [] then (Err (Internal CouldNotPopCallframe), self)
      else case transact_frame H
          \<lparr>c_vm = self\<lparr>vm_call_frames := butlast (vm_call_frames self)\<rparr>,
           c_frame = last (vm_call_frames self)\<rparr> of
        (r, s) \<Rightarrow> (r, c_vm s))"

end
