(* ===== verification/Evm_Resource.thy ===== *)
theory Evm_Resource
  imports Evm_Transact
begin

text \<open>
  A resource logic for the handlers. \<open>frame_ok\<close> is the invariant of a frame: the gas used is within
  the limit, the stack within its bound, the memory made of whole words; with the flag \<open>pd\<close> the gas used
  so far also pays for the memory. The judgement \<open>spends pd L g0 g mlen m\<close> says that \<open>m\<close>, started with limit \<open>L\<close>,
  \<open>g\<close> gas used and \<open>mlen\<close> bytes of memory, neither panics nor diverges, keeps the invariant whatever
  its result, never goes below \<open>g0\<close>, and lies strictly above it whenever execution continues. The
  collection \<open>spends_rules\<close> has one rule per primitive of the handlers.
\<close>

section \<open>The invariant\<close>

definition memory_price :: "nat \<Rightarrow> nat" where
  "memory_price n = words n * words n div 512 + 3 * words n"

definition frame_ok :: "call_frame \<Rightarrow> bool" where
  "frame_ok f \<longleftrightarrow>
     cf_gas_used f \<le> cf_gas_limit f \<and> cf_gas_limit f < u64_bound \<and>
     length (cf_stack f) \<le> STACK_LIMIT \<and> mem_ok (cf_memory f)"

lemma frame_ok_new [simp]:
  "frame_ok (call_frame_new a b c code v d st gl 0 dep cr) \<longleftrightarrow> gl < u64_bound"
  by (simp add: frame_ok_def call_frame_new_def mem_ok_def slice_bound_def)

text \<open>The gas used covers the memory; the flag switches the requirement off.\<close>

definition paid :: "bool \<Rightarrow> nat \<Rightarrow> nat \<Rightarrow> bool" where
  "paid pd n g \<longleftrightarrow> (pd \<longrightarrow> memory_price n \<le> g)"

lemma paid_more: "paid pd n g \<Longrightarrow> g \<le> g' \<Longrightarrow> paid pd n g'"
  by (auto simp: paid_def)

lemma memory_price_mono: "a \<le> b \<Longrightarrow> memory_price a \<le> memory_price b"
  unfolding memory_price_def
  by (intro add_mono div_le_mono mult_le_mono) (simp_all add: words_def div_le_mono)

text \<open>An expansion cost covers the price of the larger memory.\<close>

lemma expansion_cost_covers:
  "expansion_cost n m = Ok c \<Longrightarrow> memory_price n \<le> memory_price m + c"
  using memory_price_mono [of n m]
  by (auto simp: expansion_cost_Ok mem_cost_Ok memory_price_def split: if_splits)

section \<open>What a charge covers\<close>

named_theorems gas_facts "a computed cost is positive and covers the memory expansion"

lemma copy_behavior_covers:
  "copy_behavior n m sz d st = Ok c \<Longrightarrow> memory_price n \<le> memory_price m + c \<and> st \<le> c \<and> (n \<le> m \<or> n < 2 ^ 37)"
  using expansion_cost_covers [of n m] expansion_cost_small [of n m]
  by (fastforce simp: copy_behavior_def result_simps Let_def)

lemma gas_copy_covers [gas_facts]:
  "gas_calldatacopy n m sz = Ok c \<Longrightarrow> memory_price n \<le> memory_price m + c \<and> 0 < c \<and> (n \<le> m \<or> n < 2 ^ 37)"
  "gas_codecopy n m sz = Ok c \<Longrightarrow> memory_price n \<le> memory_price m + c \<and> 0 < c \<and> (n \<le> m \<or> n < 2 ^ 37)"
  "gas_returndatacopy n m sz = Ok c \<Longrightarrow> memory_price n \<le> memory_price m + c \<and> 0 < c \<and> (n \<le> m \<or> n < 2 ^ 37)"
  "gas_keccak256 n m sz = Ok c \<Longrightarrow> memory_price n \<le> memory_price m + c \<and> 0 < c \<and> (n \<le> m \<or> n < 2 ^ 37)"
  unfolding gas_calldatacopy_def gas_codecopy_def gas_returndatacopy_def gas_keccak256_def
  by (drule copy_behavior_covers; simp)+

lemma address_access_cost_pos: "address_access_cost cold 0 2600 100 = Ok c \<Longrightarrow> 0 < c"
  by (auto simp: address_access_cost_def result_simps split: if_splits)

lemma gas_extcodecopy_covers [gas_facts]:
  "gas_extcodecopy sz n m cold = Ok c \<Longrightarrow> memory_price n \<le> memory_price m + c \<and> 0 < c \<and> (n \<le> m \<or> n < 2 ^ 37)"
  by (auto simp: gas_extcodecopy_def result_simps dest!: copy_behavior_covers address_access_cost_pos)

lemma gas_log_covers [gas_facts]:
  "gas_log n m sz k = Ok c \<Longrightarrow> memory_price n \<le> memory_price m + c \<and> 0 < c"
  using expansion_cost_covers [of n m] by (fastforce simp: gas_log_def result_simps)

lemma gas_mem_covers [gas_facts]:
  "gas_mload n m = Ok c \<Longrightarrow> memory_price n \<le> memory_price m + c \<and> 0 < c"
  "gas_mstore n m = Ok c \<Longrightarrow> memory_price n \<le> memory_price m + c \<and> 0 < c"
  "gas_mstore8 n m = Ok c \<Longrightarrow> memory_price n \<le> memory_price m + c \<and> 0 < c"
  using expansion_cost_covers [of n m]
  by (fastforce simp: gas_mload_def gas_mstore_def gas_mstore8_def mem_expansion_behavior_def result_simps)+

lemma gas_mcopy_covers [gas_facts]:
  "gas_mcopy n m sz = Ok c \<Longrightarrow> memory_price n \<le> memory_price m + c \<and> 0 < c \<and> (n \<le> m \<or> n < 2 ^ 37)"
  using expansion_cost_covers [of n m] expansion_cost_small [of n m]
  by (fastforce simp: gas_mcopy_def result_simps Let_def)

lemma gas_create_covers [gas_facts]:
  "gas_create n m sz = Ok c \<Longrightarrow> memory_price n \<le> memory_price m + c \<and> 0 < c"
  "gas_create_2 n m sz = Ok c \<Longrightarrow> memory_price n \<le> memory_price m + c \<and> 0 < c"
  using expansion_cost_covers [of n m]
  by (fastforce simp: gas_create_def gas_create_2_def compute_gas_create_def result_simps)+

lemma gas_call_covers [gas_facts]:
  "gas_call n m cold em v = Ok c \<Longrightarrow> memory_price n \<le> memory_price m + c \<and> 0 < c"
  "gas_callcode n m cold v = Ok c \<Longrightarrow> memory_price n \<le> memory_price m + c \<and> 0 < c"
  "gas_delegatecall n m cold = Ok c \<Longrightarrow> memory_price n \<le> memory_price m + c \<and> 0 < c"
  "gas_staticcall n m cold = Ok c \<Longrightarrow> memory_price n \<le> memory_price m + c \<and> 0 < c"
  using expansion_cost_covers [of n m] address_access_cost_pos [of cold]
  by (fastforce simp: gas_call_def gas_callcode_def gas_delegatecall_def gas_staticcall_def
      result_simps Let_def)+

lemma gas_access_pos [gas_facts]:
  "gas_balance cold = Ok c \<Longrightarrow> 0 < c" "gas_extcodesize cold = Ok c \<Longrightarrow> 0 < c"
  "gas_extcodehash cold = Ok c \<Longrightarrow> 0 < c" "gas_sload cold = Ok c \<Longrightarrow> 0 < c"
  "gas_exp e = Ok c \<Longrightarrow> 0 < c" "gas_sstore slot v cold f = Ok c \<Longrightarrow> 0 < c"
  using address_access_cost_pos [of cold c]
  by (auto simp: gas_balance_def gas_extcodesize_def gas_extcodehash_def gas_sload_def gas_exp_def
      gas_sstore_def result_simps Let_def split: if_splits)

text \<open>None of the computed costs panics or diverges.\<close>

named_theorems calm_simps "results that are neither a panic nor divergence"

lemma calm_memory [calm_simps]:
  "mem_cost n \<noteq> Panic" "mem_cost n \<noteq> Diverge" "expansion_cost n m \<noteq> Panic" "expansion_cost n m \<noteq> Diverge"
  "calculate_memory_size off k \<noteq> Panic" "calculate_memory_size off k \<noteq> Diverge"
  by (simp_all add: mem_cost_def expansion_cost_def calculate_memory_size_def result_simps Let_def)

lemma calm_copy [calm_simps]: "copy_behavior n m sz d st \<noteq> Panic" "copy_behavior n m sz d st \<noteq> Diverge"
  by (simp_all add: copy_behavior_def result_simps calm_simps Let_def)

lemma calm_access [calm_simps]:
  "address_access_cost cold a b c \<noteq> Panic" "address_access_cost cold a b c \<noteq> Diverge"
  by (simp_all add: address_access_cost_def result_simps)

lemma calm_gas [calm_simps]:
  "gas_calldatacopy n m sz \<noteq> Panic" "gas_calldatacopy n m sz \<noteq> Diverge"
  "gas_codecopy n m sz \<noteq> Panic" "gas_codecopy n m sz \<noteq> Diverge"
  "gas_returndatacopy n m sz \<noteq> Panic" "gas_returndatacopy n m sz \<noteq> Diverge"
  "gas_keccak256 n m sz \<noteq> Panic" "gas_keccak256 n m sz \<noteq> Diverge"
  "gas_extcodecopy sz n m cold \<noteq> Panic" "gas_extcodecopy sz n m cold \<noteq> Diverge"
  "gas_log n m sz k \<noteq> Panic" "gas_log n m sz k \<noteq> Diverge"
  "gas_mload n m \<noteq> Panic" "gas_mload n m \<noteq> Diverge"
  "gas_mstore n m \<noteq> Panic" "gas_mstore n m \<noteq> Diverge"
  "gas_mstore8 n m \<noteq> Panic" "gas_mstore8 n m \<noteq> Diverge"
  "gas_mcopy n m sz \<noteq> Panic" "gas_mcopy n m sz \<noteq> Diverge"
  "gas_create n m sz \<noteq> Panic" "gas_create n m sz \<noteq> Diverge"
  "gas_create_2 n m sz \<noteq> Panic" "gas_create_2 n m sz \<noteq> Diverge"
  "gas_call n m cold em v \<noteq> Panic" "gas_call n m cold em v \<noteq> Diverge"
  "gas_callcode n m cold v \<noteq> Panic" "gas_callcode n m cold v \<noteq> Diverge"
  "gas_delegatecall n m cold \<noteq> Panic" "gas_delegatecall n m cold \<noteq> Diverge"
  "gas_staticcall n m cold \<noteq> Panic" "gas_staticcall n m cold \<noteq> Diverge"
  "gas_balance cold \<noteq> Panic" "gas_balance cold \<noteq> Diverge"
  "gas_extcodesize cold \<noteq> Panic" "gas_extcodesize cold \<noteq> Diverge"
  "gas_extcodehash cold \<noteq> Panic" "gas_extcodehash cold \<noteq> Diverge"
  "gas_sload cold \<noteq> Panic" "gas_sload cold \<noteq> Diverge"
  "gas_exp e \<noteq> Panic" "gas_exp e \<noteq> Diverge"
  "gas_sstore slot v cold f \<noteq> Panic" "gas_sstore slot v cold f \<noteq> Diverge"
  "gas_selfdestruct cold em v \<noteq> Panic" "gas_selfdestruct cold em v \<noteq> Diverge"
  "max_message_call_gas f \<noteq> Panic" "max_message_call_gas f \<noteq> Diverge"
  by (simp_all add: gas_calldatacopy_def gas_codecopy_def gas_returndatacopy_def gas_keccak256_def
      gas_extcodecopy_def gas_log_def gas_mload_def gas_mstore_def gas_mstore8_def
      mem_expansion_behavior_def gas_mcopy_def gas_create_def gas_create_2_def compute_gas_create_def
      gas_call_def gas_callcode_def gas_delegatecall_def gas_staticcall_def gas_balance_def
      gas_extcodesize_def gas_extcodehash_def gas_sload_def gas_exp_def gas_sstore_def
      gas_selfdestruct_def max_message_call_gas_def result_simps calm_simps Let_def)

lemma calm_words [calm_simps]:
  "shift_left_loop n v \<noteq> Panic" "shift_left_loop n v \<noteq> Diverge"
  "shift_right_loop n v \<noteq> Panic" "shift_right_loop n v \<noteq> Diverge"
  by (induction n arbitrary: v) (auto simp: result_simps split: option.splits)

lemma calm_signextend [calm_simps]:
  "checked_shift_left v sh \<noteq> Panic" "checked_shift_left v sh \<noteq> Diverge"
  "checked_shift_right v sh \<noteq> Panic" "checked_shift_right v sh \<noteq> Diverge"
  "arithmetic_shift_right v sh \<noteq> Panic" "arithmetic_shift_right v sh \<noteq> Diverge"
  "signextend_u256 v sh \<noteq> Panic" "signextend_u256 v sh \<noteq> Diverge"
  "u512_rem x sh \<noteq> Panic" "u512_rem x sh \<noteq> Diverge"
  by (simp_all add: checked_shift_left_def checked_shift_right_def arithmetic_shift_right_def
      signextend_u256_def u512_rem_def calm_simps result_simps Let_def)

lemma calm_fake_exponential_loop [calm_simps]:
  "fake_exponential_loop b e n d i out acc \<noteq> Panic" "fake_exponential_loop b e n d i out acc \<noteq> Diverge"
  by (induction b e n d i out acc rule: fake_exponential_loop.induct)
    (subst fake_exponential_loop.simps; simp)+

lemma calm_handlers [calm_simps]:
  "get_blob_gasprice en \<noteq> Panic" "get_blob_gasprice en \<noteq> Diverge"
  "sstore_refund slot v r \<noteq> Panic" "sstore_refund slot v r \<noteq> Diverge"
  "read_bytcode_slice n f \<noteq> Panic" "read_bytcode_slice n f \<noteq> Diverge"
  "bytes_to_word bs n \<noteq> Panic" "bytes_to_word bs n \<noteq> Diverge"
  "stack_get i st \<noteq> Panic" "stack_get i st \<noteq> Diverge"
  by (simp_all add: get_blob_gasprice_def fake_exponential_u256_def sstore_refund_def
      read_bytcode_slice_def bytes_to_word_def stack_get_def calm_simps result_simps)

section \<open>The judgement\<close>

definition at_state :: "nat \<Rightarrow> nat \<Rightarrow> nat \<Rightarrow> ctx \<Rightarrow> bool" where
  "at_state L g mlen s \<longleftrightarrow>
     cf_gas_limit (c_frame s) = L \<and> L < u64_bound \<and> cf_gas_used (c_frame s) = g \<and>
     g \<le> L \<and> length (cf_stack (c_frame s)) \<le> STACK_LIMIT \<and>
     mem_ok (cf_memory (c_frame s)) \<and> length (cf_memory (c_frame s)) = mlen"

definition fits :: "bool \<Rightarrow> nat \<Rightarrow> nat \<Rightarrow> ctx \<Rightarrow> bool" where
  "fits pd L g0 s \<longleftrightarrow>
     frame_ok (c_frame s) \<and> cf_gas_limit (c_frame s) = L \<and> g0 \<le> cf_gas_used (c_frame s) \<and>
     paid pd (length (cf_memory (c_frame s))) (cf_gas_used (c_frame s))"

definition spends :: "bool \<Rightarrow> nat \<Rightarrow> nat \<Rightarrow> nat \<Rightarrow> nat \<Rightarrow> opcode_success ctx_m \<Rightarrow> bool" where
  "spends pd L g0 g mlen m \<longleftrightarrow>
     (g0 \<le> g \<longrightarrow> paid pd mlen g \<longrightarrow> (\<forall>s. at_state L g mlen s \<longrightarrow>
       (case m s of
          (Ok r, t) \<Rightarrow> fits pd L g0 t \<and> (r = Continue \<longrightarrow> g0 < cf_gas_used (c_frame t))
        | (Err e, t) \<Rightarrow> fits pd L g0 t
        | (Panic, t) \<Rightarrow> False
        | (Diverge, t) \<Rightarrow> False)))"

named_theorems spends_rules "introduction rules for the resource judgement"

lemma at_state_fits:
  "at_state L g mlen s \<Longrightarrow> g0 \<le> g \<Longrightarrow> paid pd mlen g \<Longrightarrow> fits pd L g0 s"
  by (auto simp: at_state_def fits_def frame_ok_def intro: paid_more)

text \<open>The outcome of one primitive: its continuation \<open>f\<close> spends from the state it leaves.\<close>

definition step_ok :: "bool \<Rightarrow> nat \<Rightarrow> nat \<Rightarrow> ('a \<Rightarrow> opcode_success ctx_m) \<Rightarrow> ('a, vm_error) result \<times> ctx \<Rightarrow> bool" where
  "step_ok pd L g0 f res \<longleftrightarrow>
     (case res of
        (Ok x, t) \<Rightarrow> \<exists>g' m'. at_state L g' m' t \<and> g0 \<le> g' \<and> paid pd m' g' \<and> spends pd L g0 g' m' (f x)
      | (Err e, t) \<Rightarrow> fits pd L g0 t
      | (Panic, t) \<Rightarrow> False
      | (Diverge, t) \<Rightarrow> False)"

lemma step_ok_Ok:
  "at_state L g' m' t \<Longrightarrow> g0 \<le> g' \<Longrightarrow> paid pd m' g' \<Longrightarrow> spends pd L g0 g' m' (f x) \<Longrightarrow>
     step_ok pd L g0 f (Ok x, t)"
  by (auto simp: step_ok_def)

lemma step_ok_Err: "at_state L g mlen t \<Longrightarrow> g0 \<le> g \<Longrightarrow> paid pd mlen g \<Longrightarrow> step_ok pd L g0 f (Err e, t)"
  using at_state_fits by (auto simp: step_ok_def)

lemma spends_bind:
  assumes "\<And>s. g0 \<le> g \<Longrightarrow> paid pd mlen g \<Longrightarrow> at_state L g mlen s \<Longrightarrow> step_ok pd L g0 f (p s)"
  shows "spends pd L g0 g mlen (sbind p f)"
  unfolding spends_def
proof (intro impI allI)
  fix s
  assume a: "g0 \<le> g" "paid pd mlen g" "at_state L g mlen s"
  obtain r t where p: "p s = (r, t)" by fastforce
  then have "step_ok pd L g0 f (r, t)" using assms [OF a] by simp
  then show "case sbind p f s of
      (Ok r, t) \<Rightarrow> fits pd L g0 t \<and> (r = Continue \<longrightarrow> g0 < cf_gas_used (c_frame t))
    | (Err e, t) \<Rightarrow> fits pd L g0 t | (Panic, t) \<Rightarrow> False | (Diverge, t) \<Rightarrow> False"
    using p by (cases r) (auto simp: spends_def step_ok_def sbind_def)
qed

text \<open>Ends of a handler and case distinctions.\<close>

lemma spends_continue [spends_rules]: "(g0 \<le> g \<Longrightarrow> paid pd mlen g \<Longrightarrow> g0 < g) \<Longrightarrow> spends pd L g0 g mlen (sreturn Continue)"
  by (auto simp: spends_def sm_steps at_state_def fits_def frame_ok_def intro: paid_more)

lemma spends_result [spends_rules]: "spends pd L g0 g mlen (sreturn (OpResult r))"
  by (auto simp: spends_def sm_steps at_state_fits)

lemma spends_err [spends_rules]: "spends pd L g0 g mlen (serr e)"
  by (auto simp: spends_def sm_steps at_state_fits)

lemma spends_if [spends_rules]:
  "(b \<Longrightarrow> spends pd L g0 g mlen m) \<Longrightarrow> (\<not> b \<Longrightarrow> spends pd L g0 g mlen m') \<Longrightarrow>
     spends pd L g0 g mlen (if b then m else m')"
  by simp

lemma spends_let [spends_rules]: "(\<And>x. x = v \<Longrightarrow> spends pd L g0 g mlen (f x)) \<Longrightarrow> spends pd L g0 g mlen (Let v f)"
  by simp

lemma spends_option [spends_rules]:
  "(c = None \<Longrightarrow> spends pd L g0 g mlen m) \<Longrightarrow> (\<And>x. c = Some x \<Longrightarrow> spends pd L g0 g mlen (f x)) \<Longrightarrow>
     spends pd L g0 g mlen (case c of None \<Rightarrow> m | Some x \<Rightarrow> f x)"
  by (cases c) simp_all

lemma spends_prod [spends_rules]:
  "(\<And>x y. p = (x, y) \<Longrightarrow> spends pd L g0 g mlen (f x y)) \<Longrightarrow> spends pd L g0 g mlen (case p of (x, y) \<Rightarrow> f x y)"
  by (cases p) simp

lemma spends_bind_if [spends_rules]:
  "(b \<Longrightarrow> spends pd L g0 g mlen (sbind m f)) \<Longrightarrow> (\<not> b \<Longrightarrow> spends pd L g0 g mlen (sbind m' f)) \<Longrightarrow>
     spends pd L g0 g mlen (sbind (if b then m else m') f)"
  by simp

lemma spends_bind_assoc [spends_rules]:
  "spends pd L g0 g mlen (sbind m (\<lambda>x. sbind (h x) f)) \<Longrightarrow> spends pd L g0 g mlen (sbind (sbind m h) f)"
  by (simp add: sbind_assoc)

lemma spends_bind_return [spends_rules]: "spends pd L g0 g mlen (f x) \<Longrightarrow> spends pd L g0 g mlen (sbind (sreturn x) f)"
  by simp

text \<open>Primitives.\<close>

lemma spends_lift [spends_rules]:
  assumes "r \<noteq> Panic" "r \<noteq> Diverge" "\<And>x. r = Ok x \<Longrightarrow> spends pd L g0 g mlen (f x)"
  shows "spends pd L g0 g mlen (sbind (slift r) f)"
  by (rule spends_bind) (use assms in \<open>cases r; auto simp: sm_steps intro: step_ok_Ok step_ok_Err\<close>)

lemma spends_gets [spends_rules]:
  assumes "\<And>x. spends pd L g0 g mlen (f x)"
  shows "spends pd L g0 g mlen (sbind (sgets h) f)"
  by (rule spends_bind) (use assms in \<open>auto simp: sm_steps intro: step_ok_Ok\<close>)

lemma spends_frame [spends_rules]:
  assumes "\<And>x s. x = h (c_frame s) \<Longrightarrow> at_state L g mlen s \<Longrightarrow> spends pd L g0 g mlen (f x)"
  shows "spends pd L g0 g mlen (sbind (frame h) f)"
  by (rule spends_bind) (use assms in \<open>auto simp: sm_steps frame_def intro: step_ok_Ok\<close>)

lemma spends_env [spends_rules]:
  assumes "\<And>x e. x = h e \<Longrightarrow> spends pd L g0 g mlen (f x)"
  shows "spends pd L g0 g mlen (sbind (env h) f)"
  by (rule spends_bind) (use assms in \<open>auto simp: sm_steps env_def intro: step_ok_Ok\<close>)

lemma spends_memory_len [spends_rules]:
  assumes "mlen < slice_bound \<Longrightarrow> spends pd L g0 g mlen (f mlen)"
  shows "spends pd L g0 g mlen (sbind memory_len f)"
proof (rule spends_bind)
  fix s
  assume a: "g0 \<le> g" "paid pd mlen g" "at_state L g mlen s"
  moreover have "memory_len s = (Ok mlen, s)" using a(3) by (simp add: memory_len_def frame_def sm_steps at_state_def)
  moreover have "mlen < slice_bound" using a(3) by (auto simp: at_state_def mem_ok_def)
  ultimately show "step_ok pd L g0 f (memory_len s)" using assms by (auto intro: step_ok_Ok)
qed

lemma at_state_stack:
  "at_state L g mlen s \<Longrightarrow> length st \<le> STACK_LIMIT \<Longrightarrow>
     at_state L g mlen (s\<lparr>c_frame := (c_frame s)\<lparr>cf_stack := st\<rparr>\<rparr>)"
  by (simp add: at_state_def)

lemma at_stateD: "at_state L g mlen s \<Longrightarrow> length (cf_stack (c_frame s)) \<le> STACK_LIMIT"
  by (simp add: at_state_def)

lemma on_stack_out: "on_stack m s = (fst (m (cf_stack (c_frame s))),
    s\<lparr>c_frame := (c_frame s)\<lparr>cf_stack := snd (m (cf_stack (c_frame s)))\<rparr>\<rparr>)"
  by (simp add: on_stack_def split: prod.split)

lemma spends_on_stack:
  assumes "\<And>st. length st \<le> STACK_LIMIT \<Longrightarrow> length (snd (p st)) \<le> STACK_LIMIT \<and> fst (p st) \<noteq> Panic \<and> fst (p st) \<noteq> Diverge"
    and "\<And>x. spends pd L g0 g mlen (f x)"
  shows "spends pd L g0 g mlen (sbind (on_stack p) f)"
proof (rule spends_bind)
  fix s
  assume a: "g0 \<le> g" "paid pd mlen g" "at_state L g mlen s"
  note st = assms(1) [OF at_stateD [OF a(3)]]
  from st have "at_state L g mlen (s\<lparr>c_frame := (c_frame s)\<lparr>cf_stack := snd (p (cf_stack (c_frame s)))\<rparr>\<rparr>)"
    by (intro at_state_stack a) simp
  then show "step_ok pd L g0 f (on_stack p s)"
    using a st assms(2) unfolding on_stack_out
    by (cases "fst (p (cf_stack (c_frame s)))") (auto intro: step_ok_Ok step_ok_Err)
qed

lemma spends_pop [spends_rules]:
  "(\<And>x. spends pd L g0 g mlen (f x)) \<Longrightarrow> spends pd L g0 g mlen (sbind pop f)"
  unfolding pop_def by (rule spends_on_stack) (auto simp: stack_pop_def)

lemma spends_push [spends_rules]:
  "spends pd L g0 g mlen (f ()) \<Longrightarrow> spends pd L g0 g mlen (sbind (push v) f)"
  unfolding push_def by (rule spends_on_stack) (auto simp: stack_push_def)

lemma spends_swap [spends_rules]:
  "spends pd L g0 g mlen (f ()) \<Longrightarrow> spends pd L g0 g mlen (sbind (on_stack (stack_swap a b)) f)"
  by (rule spends_on_stack) (auto simp: stack_swap_def)

lemma spends_charge [spends_rules]:
  assumes "g0 \<le> g \<Longrightarrow> paid pd mlen g \<Longrightarrow> spends pd L g0 (g + n) mlen (f ())"
  shows "spends pd L g0 g mlen (sbind (increase_consumed_gas n) f)"
proof (rule spends_bind)
  fix s
  assume a: "g0 \<le> g" "paid pd mlen g" "at_state L g mlen s"
  have "at_state L (g + n) mlen
      (s\<lparr>c_frame := (c_frame s)\<lparr>cf_gas_used := cf_gas_used (c_frame s) + n\<rparr>\<rparr>)"
    if "\<not> cf_gas_limit (c_frame s) < cf_gas_used (c_frame s) + n"
    using that a by (simp add: at_state_def)
  then show "step_ok pd L g0 f (increase_consumed_gas n s)"
    using a assms [OF a(1,2)]
    by (auto simp: increase_consumed_gas_def on_frame_def checked_add_def intro: paid_more
        intro!: step_ok_Ok [of L "g + n" mlen] step_ok_Err [of L g mlen])
qed

text \<open>Changes of the frame that touch neither gas, stack nor memory.\<close>

definition harmless :: "(call_frame \<Rightarrow> call_frame) \<Rightarrow> bool" where
  "harmless h \<longleftrightarrow> (\<forall>f. cf_gas_limit (h f) = cf_gas_limit f \<and> cf_gas_used (h f) = cf_gas_used f \<and>
     cf_stack (h f) = cf_stack f \<and> cf_memory (h f) = cf_memory f)"

lemma at_state_harmless: "harmless h \<Longrightarrow> at_state L g mlen (s\<lparr>c_frame := h (c_frame s)\<rparr>) = at_state L g mlen s"
  by (simp add: at_state_def harmless_def)

lemma spends_set_frame [spends_rules]:
  assumes "harmless h" "spends pd L g0 g mlen (f ())"
  shows "spends pd L g0 g mlen (sbind (set_frame h) f)"
proof (rule spends_bind)
  fix s
  assume a: "g0 \<le> g" "paid pd mlen g" "at_state L g mlen s"
  have "set_frame h s = (Ok (), s\<lparr>c_frame := h (c_frame s)\<rparr>)"
    by (cases s) (simp add: set_frame_def sm_steps)
  then show "step_ok pd L g0 f (set_frame h s)"
    using a assms by (auto simp: at_state_harmless intro: step_ok_Ok)
qed

lemma spends_on_frame:
  assumes "\<And>f0. \<exists>h. harmless h \<and> (p f0 = (Ok (), h f0) \<or> (\<exists>e. p f0 = (Err e, f0)))" "spends pd L g0 g mlen (f ())"
  shows "spends pd L g0 g mlen (sbind (on_frame p) f)"
proof (rule spends_bind)
  fix s
  assume a: "g0 \<le> g" "paid pd mlen g" "at_state L g mlen s"
  obtain h where h: "harmless h" "p (c_frame s) = (Ok (), h (c_frame s)) \<or> (\<exists>e. p (c_frame s) = (Err e, c_frame s))"
    using assms(1) by blast
  then have "on_frame p s = (Ok (), s\<lparr>c_frame := h (c_frame s)\<rparr>) \<or> (\<exists>e. on_frame p s = (Err e, s))"
    by (auto simp: on_frame_def)
  moreover have "at_state L g mlen (s\<lparr>c_frame := h (c_frame s)\<rparr>)" using a h(1) by (simp add: at_state_harmless)
  ultimately show "step_ok pd L g0 f (on_frame p s)"
    using a assms(2) by (metis step_ok_Ok step_ok_Err)
qed

lemma harmless_id: "harmless (\<lambda>f. f)" by (simp add: harmless_def)

lemma harmless_pc: "harmless (cf_pc_update (\<lambda>_. p))" by (simp add: harmless_def)

lemma spends_jump [spends_rules]:
  "spends pd L g0 g mlen (f ()) \<Longrightarrow> spends pd L g0 g mlen (sbind (on_frame (jump a)) f)"
  by (rule spends_on_frame)
    (auto simp: jump_def split: option.splits intro: harmless_pc harmless_id)

lemma spends_pc_by [spends_rules]:
  "spends pd L g0 g mlen (f ()) \<Longrightarrow> spends pd L g0 g mlen (sbind (on_frame (increment_pc_by n)) f)"
  by (rule spends_on_frame)
    (auto simp: increment_pc_by_def split: option.splits intro: harmless_pc harmless_id)

lemma spends_pc [spends_rules]:
  "spends pd L g0 g mlen (f ()) \<Longrightarrow> spends pd L g0 g mlen (sbind (on_frame increment_pc) f)"
  unfolding increment_pc_def by (rule spends_pc_by)

text \<open>Operations on the machine alone.\<close>

definition calm :: "('a, 'e, 's) sm \<Rightarrow> bool" where
  "calm m \<longleftrightarrow> (\<forall>s. fst (m s) \<noteq> Panic \<and> fst (m s) \<noteq> Diverge)"

named_theorems calm_rules "computations that neither panic nor diverge"

lemma calm_basic [calm_rules]:
  "calm (sreturn x)" "calm (serr e)" "calm sget" "calm (sgets h)" "calm (smodify k)"
  "r \<noteq> Panic \<Longrightarrow> r \<noteq> Diverge \<Longrightarrow> calm (slift r)"
  by (simp_all add: calm_def sm_steps)

lemma calm_bind [calm_rules]: "calm m \<Longrightarrow> (\<And>x. calm (f x)) \<Longrightarrow> calm (sbind m f)"
  by (auto simp: calm_def sbind_def split: prod.split result.split) (metis fst_conv)+

lemma calm_if [calm_rules]: "(b \<Longrightarrow> calm m) \<Longrightarrow> (\<not> b \<Longrightarrow> calm m') \<Longrightarrow> calm (if b then m else m')"
  by simp

lemma calm_let [calm_rules]: "(\<And>x. calm (f x)) \<Longrightarrow> calm (Let v f)"
  by simp

lemma calm_state [calm_rules]:
  "calm (get_account_mut a)" "calm (get_account a)" "calm (insert_account a acc)" "calm (remove_account a)"
  "calm (touch a)"
  by (auto simp: calm_def get_account_mut_def get_account_def insert_account_def remove_account_def
      touch_def sm_steps Let_def split: option.splits prod.splits)

lemma calm_accounts [calm_rules]:
  "calm (access_account a)" "calm (access_storage_slot a k)" "calm (increase_account_balance a v)"
  "calm (decrease_account_balance a v)" "calm (increment_account_nonce a)"
  "calm (update_account_bytecode a code)" "calm (update_account_storage a k v)"
  "calm (created_accounts_insert a)" "calm (created_accounts_remove a)" "calm (selfdestruct_set_insert a)"
  unfolding access_account_def access_storage_slot_def increase_account_balance_def
    decrease_account_balance_def increment_account_nonce_def update_account_bytecode_def
    update_account_storage_def created_accounts_insert_def created_accounts_remove_def
    selfdestruct_set_insert_def
  by (intro calm_rules; simp add: result_simps)+

lemma spends_on_vm [spends_rules]:
  assumes "calm p" "\<And>x. spends pd L g0 g mlen (f x)"
  shows "spends pd L g0 g mlen (sbind (on_vm p) f)"
proof (rule spends_bind)
  fix s
  assume a: "g0 \<le> g" "paid pd mlen g" "at_state L g mlen s"
  have vm: "on_vm p s = (fst (p (c_vm s)), s\<lparr>c_vm := snd (p (c_vm s))\<rparr>)"
    by (simp add: on_vm_def split: prod.split)
  have "at_state L g mlen (s\<lparr>c_vm := v\<rparr>)" for v using a by (simp add: at_state_def)
  moreover have "fst (p (c_vm s)) \<noteq> Panic" "fst (p (c_vm s)) \<noteq> Diverge" using assms(1) by (auto simp: calm_def)
  ultimately show "step_ok pd L g0 f (on_vm p s)"
    using a assms(2) unfolding vm by (cases "fst (p (c_vm s))") (auto intro: step_ok_Ok step_ok_Err)
qed

lemma spends_set_env [spends_rules]:
  "spends pd L g0 g mlen (f ()) \<Longrightarrow> spends pd L g0 g mlen (sbind (set_env h) f)"
  unfolding set_env_def by (intro spends_rules calm_rules) simp

text \<open>Memory operations, whose size the charge before them has paid.\<close>

lemma on_memory_out: "on_memory m s = (fst (m (cf_memory (c_frame s))),
    s\<lparr>c_frame := (c_frame s)\<lparr>cf_memory := snd (m (cf_memory (c_frame s)))\<rparr>\<rparr>)"
  by (simp add: on_memory_def split: prod.split)

lemma spends_on_memory_at:
  assumes p: "moves grows p" "calm p"
    and n: "\<And>mem. pd \<Longrightarrow> length (snd (p mem)) \<le> max (length mem) n" "paid pd n b"
    and b: "paid pd mlen b" "b \<le> g"
    and f: "\<And>x m'. paid pd m' b \<Longrightarrow> spends pd L g0 g m' (f x)"
  shows "spends pd L g0 g mlen (sbind (on_memory p) f)"
proof (rule spends_bind)
  fix s
  assume a: "g0 \<le> g" "paid pd mlen g" "at_state L g mlen s"
  define mem where "mem = snd (p (cf_memory (c_frame s)))"
  have "mem_ok mem" using movesD [OF p(1), of "cf_memory (c_frame s)"] a(3)
    by (simp add: grows_def mem_def at_state_def)
  then have at: "at_state L g (length mem) (s\<lparr>c_frame := (c_frame s)\<lparr>cf_memory := mem\<rparr>\<rparr>)"
    using a(3) by (simp add: at_state_def)
  have price: "paid pd (length mem) b"
    using n(1) [of "cf_memory (c_frame s)"] n(2) b(1) a memory_price_mono [of "length mem" "max mlen n"]
    by (auto simp: mem_def at_state_def max_def paid_def split: if_splits)
  have "fst (p (cf_memory (c_frame s))) \<noteq> Panic" "fst (p (cf_memory (c_frame s))) \<noteq> Diverge"
    using p(2) by (auto simp: calm_def)
  then show "step_ok pd L g0 f (on_memory p s)"
    unfolding on_memory_out mem_def [symmetric]
    using at paid_more [OF price b(2)] a(1) f [OF price]
    by (cases "fst (p (cf_memory (c_frame s)))") (auto intro: step_ok_Ok step_ok_Err)
qed

lemma spends_on_memory:
  assumes p: "moves grows p" "calm p"
    and n: "\<And>mem. pd \<Longrightarrow> length (snd (p mem)) \<le> max (length mem) n" "paid pd n g"
    and f: "\<And>x m'. paid pd m' g \<Longrightarrow> spends pd L g0 g m' (f x)"
  shows "spends pd L g0 g mlen (sbind (on_memory p) f)"
proof (cases "paid pd mlen g")
  case True
  show ?thesis by (rule spends_on_memory_at [OF p n True order_refl f])
qed (simp add: spends_def)

lemma length_resize: "length (snd (try_resize k m)) \<le> max (length m) (next_multiple k)"
  by (cases rule: try_resize_cases [of k m]) auto

lemma calm_resize [calm_rules]: "calm (try_resize k)"
  unfolding calm_def
proof
  fix m
  show "fst (try_resize k m) \<noteq> Panic \<and> fst (try_resize k m) \<noteq> Diverge"
    by (cases rule: try_resize_cases [of k m]) auto
qed

lemma calm_memory_ops [calm_rules]:
  "calm (load_range off k)" "calm (load_word off)" "calm (try_store dat off k)" "calm (try_store_data off dat)"
  "calm (try_store_range off k dat)"
  unfolding load_range_def load_word_def try_store_data_def try_store_range_def try_store_def
  by (intro calm_rules; simp add: mem_get_def try_store_sized_def result_simps)+

lemma snd_sbind_lift: "snd (sbind (slift r) f s) = (case r of Ok x \<Rightarrow> snd (f x s) | _ \<Rightarrow> s)"
  by (cases r) (simp_all add: sbind_def sm_steps)

lemma length_after_resize:
  assumes "\<And>m. length (snd (f () m)) = length m"
  shows "length (snd (sbind (try_resize k) f m)) \<le> max (length m) (next_multiple k)"
  using length_resize [of k m] assms by (simp add: snd_sbind split: result.split)

text \<open>The size of the memory that a range needs.\<close>

definition memory_need :: "u256 \<Rightarrow> nat \<Rightarrow> nat" where
  "memory_need off k = (if k = 0 then 0 else next_multiple (unat off + k))"

lemma memory_size_need: "calculate_memory_size off k = Ok n \<Longrightarrow> n = memory_need off k"
  by (auto simp: calculate_memory_size_Ok memory_need_def split: if_splits)

lemma length_load_range: "length (snd (load_range off k m)) \<le> max (length m) (memory_need off k)"
proof (cases "k = 0")
  case False
  have "length (snd (sbind (try_resize (unat off + k)) (\<lambda>_. sbind (slift r) (\<lambda>e. sbind sget (\<lambda>mem. slift (g e mem)))) m))
      \<le> max (length m) (next_multiple (unat off + k))" for r and g :: "nat \<Rightarrow> bytes \<Rightarrow> (bytes, vm_error) result"
    by (rule length_after_resize) (simp add: snd_sbind sm_steps split: result.split)
  then show ?thesis using False
    by (simp add: load_range_def snd_sbind_lift u256_to_usize_def checked_add_def memory_need_def)
qed (simp add: load_range_def sm_steps)

lemma length_try_store: "length (snd (try_store dat off k m)) = length m"
  using length_mem_write [of "unat off" k dat m]
  by (auto simp: try_store_def snd_sbind sm_steps u256_to_usize_def checked_add_def split: result.split)

lemma try_store_sized_Ok: "try_store_sized off k = Ok e \<Longrightarrow> k < usize_bound \<Longrightarrow> e = unat off + k"
  by (auto simp: try_store_sized_def result_simps usize_bound_def unat_word_ariths unat_of_nat)

lemma length_store_range:
  assumes "k < usize_bound"
  shows "length (snd (try_store_range off k dat m)) \<le> max (length m) (memory_need off k)"
proof (cases "k = 0")
  case False
  have "length (snd (sbind (try_resize e) (\<lambda>_. try_store dat off k) m)) \<le> max (length m) (next_multiple e)" for e
    by (rule length_after_resize) (simp add: length_try_store)
  then show ?thesis using False assms try_store_sized_Ok [of off k]
    by (auto simp: try_store_range_def snd_sbind_lift memory_need_def split: result.split)
qed (simp add: try_store_range_def sm_steps)

lemma length_store_data:
  "length dat < usize_bound \<Longrightarrow> dat \<noteq> [] \<Longrightarrow>
     length (snd (try_store_data off dat m)) \<le> max (length m) (memory_need off (length dat))"
  using length_store_range [of "length dat" off dat m] by (simp add: try_store_data_def try_store_range_def)

lemma length_copy_within: "length (snd (try_copy_within src dst k m)) \<le> max (length m) (memory_need dst k)"
proof (cases "k = 0")
  case False
  show ?thesis
  proof (cases rule: try_resize_cases [of "unat dst + k" m])
    case (ok j)
    then have "length (mem_write (unat dst) k (copy_buffer x k y) (m @ replicate j 0)) = length m + j" for x y
      by (subst length_mem_write) auto
    then show ?thesis using False ok
      by (auto simp: try_copy_within_def snd_sbind_lift u256_to_usize_def checked_add_def snd_sbind sm_steps
          memory_need_def split: result.split)
  next
    case (err e)
    then show ?thesis
      by (auto simp: try_copy_within_def snd_sbind_lift u256_to_usize_def checked_add_def snd_sbind sm_steps
          split: result.split)
  qed
qed (simp add: try_copy_within_def sm_steps)

lemma calm_copy_within: "k < slice_bound \<Longrightarrow> calm (try_copy_within src dst k)"
  unfolding try_copy_within_def vec_zeroes_def
  by (intro calm_rules; simp add: result_simps)

lemma spends_load_range:
  assumes "paid pd (memory_need off k) g"
    "\<And>x m'. paid pd m' g \<Longrightarrow> spends pd L g0 g m' (f x)"
  shows "spends pd L g0 g mlen (sbind (on_memory (load_range off k)) f)"
  by (rule spends_on_memory [where n = "memory_need off k"])
    (auto intro!: moves_rules calm_rules assms length_load_range)

lemma spends_load_range_at:
  assumes "paid pd (memory_need off k) b" "paid pd mlen b" "b \<le> g"
    "\<And>x m'. paid pd m' b \<Longrightarrow> spends pd L g0 g m' (f x)"
  shows "spends pd L g0 g mlen (sbind (on_memory (load_range off k)) f)"
  by (rule spends_on_memory_at [where n = "memory_need off k" and b = b])
    (auto intro!: moves_rules calm_rules assms length_load_range)

lemma spends_load_word [spends_rules]:
  assumes "paid pd (memory_need off 32) g"
    "\<And>x m'. paid pd m' g \<Longrightarrow> spends pd L g0 g m' (f x)"
  shows "spends pd L g0 g mlen (sbind (on_memory (load_word off)) f)"
proof (rule spends_on_memory [where n = "memory_need off 32"])
  show "length (snd (load_word off mem)) \<le> max (length mem) (memory_need off 32)" for mem
    using length_load_range [of off 32 mem]
    by (simp add: load_word_def snd_sbind sm_steps WORD_SIZE_def split: result.split)
qed (intro moves_rules calm_rules assms)+

lemma spends_store_data [spends_rules]:
  assumes "length dat < usize_bound" "pd \<Longrightarrow> dat \<noteq> []" "paid pd (memory_need off (length dat)) g"
    "\<And>m'. paid pd m' g \<Longrightarrow> spends pd L g0 g m' (f ())"
  shows "spends pd L g0 g mlen (sbind (on_memory (try_store_data off dat)) f)"
  by (rule spends_on_memory [where n = "memory_need off (length dat)"])
    (auto intro!: moves_rules calm_rules assms length_store_data)

lemma spends_store_range [spends_rules]:
  assumes "k < usize_bound" "paid pd (memory_need off k) g"
    "\<And>m'. paid pd m' g \<Longrightarrow> spends pd L g0 g m' (f ())"
  shows "spends pd L g0 g mlen (sbind (on_memory (try_store_range off k dat)) f)"
  by (rule spends_on_memory [where n = "memory_need off k"])
    (auto intro!: moves_rules calm_rules assms length_store_range)

lemma spends_copy_within [spends_rules]:
  assumes "k < slice_bound" "paid pd (memory_need dst k) g"
    "\<And>m'. paid pd m' g \<Longrightarrow> spends pd L g0 g m' (f ())"
  shows "spends pd L g0 g mlen (sbind (on_memory (try_copy_within src dst k)) f)"
  by (rule spends_on_memory [where n = "memory_need dst k"])
    (auto intro!: moves_rules calm_copy_within assms length_copy_within)

lemma vec_zeroes_Ok [simp]: "vec_zeroes k = Ok dat \<longleftrightarrow> k < slice_bound \<and> dat = replicate k 0"
  by (auto simp: vec_zeroes_def)

lemma vec_zeroes_fails [simp]: "vec_zeroes k = Panic \<longleftrightarrow> \<not> k < slice_bound" "vec_zeroes k \<noteq> Diverge"
  by (auto simp: vec_zeroes_def)

lemma length_fill_data [simp]: "length (fill_data dat off src) = length dat"
  by (simp add: fill_data_def Let_def)

lemma fill_data_Nil [simp]: "fill_data dat off src = [] \<longleftrightarrow> dat = []"
  by (metis length_0_conv length_fill_data)

lemma size_le_need: "k \<le> memory_need off k"
  using next_multiple_props(1) [of "unat off + k"] by (auto simp: memory_need_def)

end
