(* ===== verification/Evm_Handlers.thy ===== *)
theory Evm_Handlers
  imports Evm_Resource
begin

text \<open>
  Every handler in the resource logic: whatever its result it keeps the invariant of the frame, it
  neither panics nor diverges, and where execution continues it has spent gas. The handlers that
  enter a sub-context assume the same of the interpreter they are given, for frames with less gas.
\<close>

section \<open>Handlers that stay in the frame\<close>

lemmas gas_tables = arithmetic_gas_def comparison_gas_def environment_gas_def block_gas_def flow_gas_def

lemma spends_arithmetic:
  "spends pd L g g mlen op_add" "spends pd L g g mlen op_sub" "spends pd L g g mlen op_mul"
  "spends pd L g g mlen op_div" "spends pd L g g mlen op_sdiv" "spends pd L g g mlen op_mod"
  "spends pd L g g mlen op_smod" "spends pd L g g mlen op_addmod" "spends pd L g g mlen op_mulmod"
  "spends pd L g g mlen op_exp" "spends pd L g g mlen op_signextend"
  unfolding op_add_def op_sub_def op_mul_def op_div_def op_sdiv_def op_mod_def op_smod_def
    op_addmod_def op_mulmod_def op_exp_def op_signextend_def
  by (intro spends_rules; simp add: gas_tables calm_simps result_simps gas_facts)+

lemma spends_comparison:
  "spends pd L g g mlen op_lt" "spends pd L g g mlen op_gt" "spends pd L g g mlen op_slt"
  "spends pd L g g mlen op_sgt" "spends pd L g g mlen op_eq" "spends pd L g g mlen op_iszero"
  "spends pd L g g mlen op_and" "spends pd L g g mlen op_or" "spends pd L g g mlen op_xor"
  "spends pd L g g mlen op_not" "spends pd L g g mlen op_byte" "spends pd L g g mlen op_shl"
  "spends pd L g g mlen op_shr" "spends pd L g g mlen op_sar"
  unfolding op_lt_def op_gt_def op_slt_def op_sgt_def op_eq_def op_iszero_def op_and_def op_or_def
    op_xor_def op_not_def op_byte_def op_shl_def op_shr_def op_sar_def
  by (intro spends_rules; simp add: gas_tables calm_simps result_simps gas_facts)+

lemma spends_block:
  "spends pd L g g mlen op_blockhash" "spends pd L g g mlen op_coinbase" "spends pd L g g mlen op_timestamp"
  "spends pd L g g mlen op_number" "spends pd L g g mlen op_prevrandao" "spends pd L g g mlen op_gaslimit"
  "spends pd L g g mlen op_chainid" "spends pd L g g mlen op_selfbalance" "spends pd L g g mlen op_basefee"
  "spends pd L g g mlen op_blobhash" "spends pd L g g mlen op_blobbasefee"
  unfolding op_blockhash_def op_coinbase_def op_timestamp_def op_number_def op_prevrandao_def
    op_gaslimit_def op_chainid_def op_selfbalance_def op_basefee_def op_blobhash_def op_blobbasefee_def
  by (intro spends_rules calm_rules; simp add: gas_tables calm_simps result_simps gas_facts)+

lemma spends_environment:
  "spends pd L g g mlen op_address" "spends pd L g g mlen op_balance" "spends pd L g g mlen op_origin"
  "spends pd L g g mlen op_caller" "spends pd L g g mlen op_callvalue" "spends pd L g g mlen op_calldataload"
  "spends pd L g g mlen op_calldatasize" "spends pd L g g mlen op_codesize" "spends pd L g g mlen op_gasprice"
  "spends pd L g g mlen op_extcodesize" "spends pd L g g mlen op_returndatasize" "spends pd L g g mlen (op_extcodehash H)"
  unfolding op_address_def op_balance_def op_origin_def op_caller_def op_callvalue_def
    op_calldataload_def op_calldatasize_def op_codesize_def op_gasprice_def op_extcodesize_def
    op_returndatasize_def op_extcodehash_def
  by (intro spends_rules calm_rules; simp add: gas_tables calm_simps result_simps gas_facts)+

lemma size_bounded:
  "memory_need off k \<le> mlen \<or> memory_need off k < 2 ^ 37 \<Longrightarrow> mlen < slice_bound \<Longrightarrow> k < slice_bound"
  using size_le_need [of k off] by (auto simp: slice_bound_def)

lemma spends_copies:
  "spends pd L g g mlen op_calldatacopy" "spends pd L g g mlen op_codecopy"
  "spends pd L g g mlen op_extcodecopy"
  unfolding op_calldatacopy_def op_codecopy_def op_extcodecopy_def
  by (intro spends_rules calm_rules;
      (auto simp: paid_def calm_simps result_simps dest!: gas_facts memory_size_need intro: size_bounded)[])+

text \<open>
  \<^verbatim>\<open>RETURNDATACOPY\<close> of no bytes from a position other than zero grows the memory up to its destination
  without paying for it, so the handler spends gas but does not keep the memory paid.
\<close>

lemma spends_returndatacopy: "spends False L g g mlen op_returndatacopy"
  unfolding op_returndatacopy_def
  by (intro spends_rules calm_rules;
      (auto simp: paid_def calm_simps result_simps dest!: gas_facts memory_size_need intro: size_bounded)[])

lemma spends_flow:
  "spends pd L g g mlen op_pop" "spends pd L g g mlen op_tload" "spends pd L g g mlen op_tstore"
  "spends pd L g g mlen op_sload" "spends pd L g g mlen op_sstore" "spends pd L g g mlen op_msize"
  "spends pd L g g mlen op_gas" "spends pd L g g mlen op_jump" "spends pd L g g mlen op_jumpi"
  "spends pd L g g mlen op_jumpdest" "spends pd L g g mlen op_pc"
  unfolding op_pop_def op_tload_def op_tstore_def op_sload_def op_sstore_def op_msize_def op_gas_def
    op_jump_def op_jumpi_def op_jumpdest_def op_pc_def
  by (intro spends_rules calm_rules;
      (auto simp: gas_tables calm_simps result_simps dest!: gas_facts gas_facts [OF sym])[])+

lemma u256_bytes_Nil: "to_be_bytes (w :: u256) \<noteq> []"
  using length_to_be_bytes [of w] by fastforce

lemma memory_price_max: "memory_price (max a b) \<le> c \<longleftrightarrow> memory_price a \<le> c \<and> memory_price b \<le> c"
  using memory_price_mono [of a b] memory_price_mono [of b a] by (auto simp: max_def)

lemma spends_memory:
  "spends pd L g g mlen op_mload" "spends pd L g g mlen op_mstore" "spends pd L g g mlen op_mstore8"
  "spends pd L g g mlen op_mcopy" "spends pd L g g mlen (op_keccak256 H)"
  unfolding op_mload_def op_mstore_def op_mstore8_def op_mcopy_def op_keccak256_def
  by (intro spends_rules spends_load_range calm_rules;
      (auto simp: paid_def WORD_SIZE_def usize_bound_def u256_bytes_Nil memory_price_max calm_simps result_simps dest!: gas_facts memory_size_need intro: size_bounded)[])+

lemma spends_stack:
  "spends pd L g g mlen (op_push n)" "spends pd L g g mlen op_push0" "spends pd L g g mlen (op_dup n)"
  "spends pd L g g mlen (op_swap n)"
  unfolding op_push_def op_push0_def op_dup_def op_swap_def
  by (intro spends_rules calm_rules; (auto simp: calm_simps result_simps)[])+

lemma spends_pop_topics [spends_rules]:
  "(\<And>x. spends pd L g0 g mlen (f x)) \<Longrightarrow> spends pd L g0 g mlen (sbind (pop_topics n) f)"
  by (induction n arbitrary: f) (auto simp: intro!: spends_rules)

lemma spends_log: "spends pd L g g mlen (op_log n)"
  unfolding op_log_def
  by (intro spends_rules spends_load_range calm_rules;
      (auto simp: paid_def calm_simps result_simps harmless_def dest!: gas_facts memory_size_need)[])

lemma spends_ends:
  "spends pd L g g mlen op_return" "spends pd L g g mlen op_revert" "spends pd L g g mlen op_invalid"
  "spends pd L g g mlen op_selfdestruct"
  unfolding op_return_def op_revert_def op_invalid_def op_selfdestruct_def
  by (intro spends_rules spends_load_range calm_rules;
      (auto simp: paid_def calm_simps result_simps harmless_def dest!: expansion_cost_covers memory_size_need)[])+

section \<open>Handlers that enter a sub-context\<close>

text \<open>What a handler needs of the interpreter: on a fresh frame with less than \<open>K\<close> gas it returns.\<close>

definition sub_ok :: "nat \<Rightarrow> transaction_report ctx_m \<Rightarrow> bool" where
  "sub_ok K ex \<longleftrightarrow> (\<forall>s. frame_ok (c_frame s) \<longrightarrow> cf_gas_used (c_frame s) = 0 \<longrightarrow> cf_gas_limit (c_frame s) < K \<longrightarrow>
     (case ex s of
        (Ok rep, t) \<Rightarrow> rep_gas_used rep \<le> cf_gas_limit (c_frame s)
      | (Err e, t) \<Rightarrow> True
      | (Panic, t) \<Rightarrow> False
      | (Diverge, t) \<Rightarrow> False))"

lemma spends_run_sub:
  assumes "sub_ok K ex" "frame_ok f" "cf_gas_used f = 0" "cf_gas_limit f < K"
    and h: "\<And>rep. rep_gas_used rep \<le> cf_gas_limit f \<Longrightarrow> spends pd L g0 g mlen (h rep)"
  shows "spends pd L g0 g mlen (sbind (run_sub ex f) h)"
proof (rule spends_bind)
  fix s
  assume a: "g0 \<le> g" "paid pd mlen g" "at_state L g mlen s"
  obtain r t where ex: "ex \<lparr>c_vm = c_vm s, c_frame = f\<rparr> = (r, t)" by fastforce
  have at: "at_state L g mlen (s\<lparr>c_vm := v\<rparr>)" for v using a(3) by (simp add: at_state_def)
  have "case r of Ok rep \<Rightarrow> rep_gas_used rep \<le> cf_gas_limit f | Err e \<Rightarrow> True | Panic \<Rightarrow> False | Diverge \<Rightarrow> False"
    using assms(1) [unfolded sub_ok_def, rule_format, of "\<lparr>c_vm = c_vm s, c_frame = f\<rparr>"] assms(2-4) ex
    by (simp split: result.splits)
  then show "step_ok pd L g0 h (run_sub ex f s)"
    using a at h ex by (cases r) (auto simp: run_sub_def intro: step_ok_Ok step_ok_Err)
qed

lemma spends_set_gas [spends_rules]:
  assumes "g0 \<le> v" "v \<le> L" "paid pd mlen v" "spends pd L g0 v mlen (f ())"
  shows "spends pd L g0 g mlen (sbind (set_gas_used v) f)"
proof (rule spends_bind)
  fix s
  assume a: "at_state L g mlen s"
  have "set_gas_used v s = (Ok (), s\<lparr>c_frame := (c_frame s)\<lparr>cf_gas_used := v\<rparr>\<rparr>)"
    by (cases s) (simp add: set_gas_used_def set_frame_def sm_steps)
  moreover have "at_state L v mlen (s\<lparr>c_frame := (c_frame s)\<lparr>cf_gas_used := v\<rparr>\<rparr>)"
    using a assms(2) by (simp add: at_state_def)
  ultimately show "step_ok pd L g0 f (set_gas_used v s)" using assms by (auto intro: step_ok_Ok)
qed

lemma spends_tx_result [spends_rules]:
  "(r = Success \<Longrightarrow> spends pd L g0 g mlen m) \<Longrightarrow> (\<And>e. r = Revert e \<Longrightarrow> spends pd L g0 g mlen (f e)) \<Longrightarrow>
     spends pd L g0 g mlen (case r of Success \<Rightarrow> m | Revert e \<Rightarrow> f e)"
  by (cases r) simp_all

lemma max_message_call_gas_Ok:
  "max_message_call_gas f = Ok c \<Longrightarrow> cf_gas_used f \<le> cf_gas_limit f \<and> cf_gas_used f + c \<le> cf_gas_limit f"
  by (auto simp: max_message_call_gas_def result_simps)

lemma unat_of_nat_bound: "unat (of_nat c :: 'a::len word) \<le> c"
  by (simp add: unat_of_nat take_bit_nat_def)

lemma unat_min_of_nat: "unat (min w (of_nat c :: u256)) \<le> c"
  using unat_of_nat_bound [of c, where 'a = 256]
  by (metis (no_types, lifting) min.cobounded2 order_trans word_le_nat_alt)

lemma call_frame_new_gas [simp]:
  "cf_gas_used (call_frame_new a b c code v d st gl gu dep cr) = gu"
  "cf_gas_limit (call_frame_new a b c code v d st gl gu dep cr) = gl"
  by (simp_all add: call_frame_new_def)

lemma at_state_gas: "at_state L g mlen s \<Longrightarrow> cf_gas_used (c_frame s) = g \<and> cf_gas_limit (c_frame s) = L \<and> L < u64_bound"
  by (simp add: at_state_def)

lemma call_gas_bound:
  "Ok c = max_message_call_gas f \<Longrightarrow> cf_gas_used f + unat (min w (of_nat c :: u256)) \<le> cf_gas_limit f"
  using unat_min_of_nat [of w c] max_message_call_gas_Ok [of f c] by simp

lemma spends_generic_call:
  assumes ex: "sub_ok K ex" and g: "L - g0 \<le> K" "g0 < g"
    and paid: "paid pd (memory_need args_offset args_size) g" "paid pd (memory_need ret_offset ret_size) g"
      "ret_size < usize_bound"
  shows "spends pd L g0 g mlen (generic_call ex gas_limit val msg_sender to code_address stv is_static
    args_offset args_size ret_offset ret_size)"
  unfolding generic_call_def
  by (intro spends_rules spends_load_range spends_run_sub [OF ex] calm_rules;
      (simp (no_asm) add: harmless_def calm_simps result_simps; fail)?;
      (use g paid in \<open>auto simp: calm_simps result_simps intro: paid_more
         dest!: at_state_gas call_gas_bound [where w = gas_limit]\<close>)[])

lemma calm_addresses:
  assumes "\<And>x. length (keccak H x) = 32"
  shows "calculate_create_address H a n \<noteq> Panic" "calculate_create_address H a n \<noteq> Diverge"
    "calculate_create2_address H a code sa \<noteq> Panic" "calculate_create2_address H a code sa \<noteq> Diverge"
  using assms by (simp_all add: calculate_create_address_def calculate_create2_address_def address_from_hash_def Let_def)

lemma spends_generic_create:
  assumes ex: "sub_ok K ex" and H: "\<And>x. length (keccak H x) = 32" and g: "L - g0 \<le> K" "g0 < g"
    and paid: "paid pd (memory_need off k) g"
  shows "spends pd L g0 g mlen (generic_create H ex val off k salt)"
  unfolding generic_create_def
  by (intro spends_rules spends_load_range_at [where b = g] spends_run_sub [OF ex] calm_rules;
      (simp (no_asm) add: harmless_def calm_simps calm_addresses [OF H] result_simps split: option.splits; fail)?;
      (use g paid in \<open>auto simp: calm_simps result_simps intro: paid_more
         dest!: at_state_gas max_message_call_gas_Ok [OF sym]\<close>)[])

lemmas call_facts = paid_def calm_simps result_simps memory_price_max

lemma spends_calls:
  assumes ex: "sub_ok K ex" and g: "L - g \<le> K"
  shows "spends pd L g g mlen (op_call ex)" "spends pd L g g mlen (op_callcode ex)"
    "spends pd L g g mlen (op_delegatecall ex)" "spends pd L g g mlen (op_staticcall ex)"
  unfolding op_call_def op_callcode_def op_delegatecall_def op_staticcall_def
  by (intro spends_rules spends_generic_call [OF ex g] calm_rules;
      (auto simp: call_facts dest!: gas_facts memory_size_need)[])+

lemma spends_creates:
  assumes ex: "sub_ok K ex" and H: "\<And>x. length (keccak H x) = 32" and g: "L - g \<le> K"
  shows "spends pd L g g mlen (op_create H ex)" "spends pd L g g mlen (op_create2 H ex)"
  unfolding op_create_def op_create2_def
  by (intro spends_rules spends_generic_create [OF ex H g] calm_rules;
      (auto simp: call_facts dest!: gas_facts memory_size_need)[])+

text \<open>The handler of every instruction; only \<^verbatim>\<open>RETURNDATACOPY\<close> may leave memory unpaid.\<close>

lemma spends_exec_opcode:
  assumes ex: "sub_ok K ex" and H: "\<And>x. length (keccak H x) = 32" and g: "L - g \<le> K"
    and pd: "pd \<Longrightarrow> opc \<noteq> Envr RETURNDATACOPY"
  shows "spends pd L g g mlen (exec_opcode H ex opc)"
proof -
  have "spends pd L g g mlen (exec_arithmetic c)" for c
    by (cases c) (simp_all add: exec_arithmetic_def spends_arithmetic spends_result)
  moreover have "spends pd L g g mlen (exec_comparison c)" for c
    by (cases c) (simp_all add: exec_comparison_def spends_comparison)
  moreover have "spends pd L g g mlen (exec_block c)" for c
    by (cases c) (simp_all add: exec_block_def spends_block)
  moreover have "spends pd L g g mlen (exec_flow c)" for c
    by (cases c) (simp_all add: exec_flow_def spends_flow spends_memory)
  moreover have "spends pd L g g mlen (exec_system H ex c)" for c
    by (cases c) (simp_all add: exec_system_def spends_ends spends_calls [OF ex g] spends_creates [OF ex H g])
  moreover have "spends pd L g g mlen (exec_environment H c)" if "pd \<longrightarrow> c \<noteq> RETURNDATACOPY" for c
    using that spends_returndatacopy [of L g mlen]
    by (cases c; cases pd) (simp_all add: exec_environment_def spends_environment spends_copies)
  ultimately show ?thesis using pd
    by (cases opc) (auto simp: exec_opcode_def spends_memory spends_stack spends_log)
qed

end
