(* ===== verification/Evm_Safety.thy ===== *)
theory Evm_Safety
  imports Evm_Handlers
begin

text \<open>
  Safety of execution: the interpreter never panics, it returns with one unit of fuel more than the
  gas that is left, further fuel changes nothing, and the gas it reports is within the limit of the
  frame. The invariant of the frame holds after every instruction.
\<close>

section \<open>One instruction\<close>

definition step_safe :: "bool \<Rightarrow> ctx \<Rightarrow> (vm_error + opcode_success, vm_error) result \<times> ctx \<Rightarrow> bool" where
  "step_safe pd s res \<longleftrightarrow>
     fst res \<noteq> Panic \<and> fst res \<noteq> Diverge \<and>
     fits pd (cf_gas_limit (c_frame s)) (cf_gas_used (c_frame s)) (snd res) \<and>
     (fst res = Ok (Inr Continue) \<longrightarrow> cf_gas_used (c_frame s) < cf_gas_used (c_frame (snd res)))"

lemma fits_pc: "fits pd L g (s\<lparr>c_frame := (c_frame s)\<lparr>cf_pc := p\<rparr>\<rparr>) = fits pd L g s"
  by (simp add: fits_def frame_ok_def)

lemma increment_pc_cases:
  "on_frame increment_pc s = (Ok (), s\<lparr>c_frame := (c_frame s)\<lparr>cf_pc := Suc (cf_pc (c_frame s))\<rparr>\<rparr>) \<or>
     (\<exists>e. on_frame increment_pc s = (Err e, s))"
  by (auto simp: on_frame_def increment_pc_def increment_pc_by_def checked_add_def)

lemma exec_step_safe:
  assumes ok: "frame_ok (c_frame s)" and ex: "sub_ok K ex" and H: "\<And>x. length (keccak H x) = 32"
    and K: "gas_left (c_frame s) \<le> K"
    and pd: "paid pd (length (cf_memory (c_frame s))) (cf_gas_used (c_frame s))"
      "pd \<Longrightarrow> next_opcode (c_frame s) \<noteq> Envr RETURNDATACOPY"
  shows "step_safe pd s (exec_step H ex s)"
proof -
  let ?L = "cf_gas_limit (c_frame s)" and ?g = "cf_gas_used (c_frame s)" and ?m = "length (cf_memory (c_frame s))"
  let ?opc = "next_opcode (c_frame s)"
  obtain r t where op: "exec_opcode H ex ?opc s = (r, t)" by fastforce
  have "at_state ?L ?g ?m s" using ok by (simp add: at_state_def frame_ok_def)
  moreover have "spends pd ?L ?g ?g ?m (exec_opcode H ex ?opc)"
    by (rule spends_exec_opcode [OF ex H]) (use K pd(2) in \<open>auto simp: gas_left_def\<close>)
  ultimately have sp: "case r of Ok x \<Rightarrow> fits pd ?L ?g t \<and> (x = Continue \<longrightarrow> ?g < cf_gas_used (c_frame t))
      | Err e \<Rightarrow> fits pd ?L ?g t | Panic \<Rightarrow> False | Diverge \<Rightarrow> False"
    using pd(1) op by (auto simp: spends_def split: result.splits)
  have "exec_step H ex s =
      (case attempt (exec_opcode H ex ?opc) s of
         (Ok x, t) \<Rightarrow> (if ?opc \<noteq> Flow JUMP \<and> ?opc \<noteq> Flow JUMPI
            then sbind (on_frame increment_pc) (\<lambda>_. sreturn x) t else (Ok x, t))
       | (Err e, t) \<Rightarrow> (Err e, t) | (Panic, t) \<Rightarrow> (Panic, t) | (Diverge, t) \<Rightarrow> (Diverge, t))"
    by (simp add: exec_step_def sbind_def frame_def sm_steps split: prod.split result.split)
  then show ?thesis
    using sp op increment_pc_cases [of t]
    by (cases r) (auto simp: attempt_def sbind_def sm_steps step_safe_def fits_pc)
qed

section \<open>The end of a frame\<close>

definition yields :: "('a \<Rightarrow> 's \<Rightarrow> bool) \<Rightarrow> ('a, 'e) result \<times> 's \<Rightarrow> bool" where
  "yields P res \<longleftrightarrow>
     (case res of (Ok x, t) \<Rightarrow> P x t | (Err e, t) \<Rightarrow> True | (Panic, t) \<Rightarrow> False | (Diverge, t) \<Rightarrow> False)"

named_theorems yields_simps "outcomes of the primitives"

lemma yields_sbind [yields_simps]: "yields P (sbind m f s) = yields (\<lambda>x t. yields P (f x t)) (m s)"
  by (simp add: yields_def sbind_def split: prod.split result.split)

lemma yields_basic [yields_simps]:
  "yields P (sreturn x s) = P x s" "yields P (serr e s)" "yields P1 (sget s) = P1 s s"
  "yields P2 (sgets g s) = P2 (g s) s" "yields P3 (smodify h s) = P3 () (h s)"
  "yields P (slift r s) = (case r of Ok x \<Rightarrow> P x s | Err e \<Rightarrow> True | Panic \<Rightarrow> False | Diverge \<Rightarrow> False)"
  by (simp_all add: yields_def sm_steps split: result.split)

lemma yields_frame [yields_simps]:
  "yields P (frame k s) = P (k (c_frame s)) s" "yields Q (set_frame l s) = Q () (c_frame_update l s)"
  by (simp_all add: yields_def sm_steps frame_def set_frame_def)

lemma yields_on_vm [yields_simps]:
  "yields P (on_vm m s) = yields (\<lambda>x v. P x (s\<lparr>c_vm := v\<rparr>)) (m (c_vm s))"
  by (simp add: yields_def on_vm_def split: prod.split result.split)

lemma yields_calm: "calm m \<Longrightarrow> (\<And>x t. P x t) \<Longrightarrow> yields P (m s)"
  by (auto simp: yields_def calm_def split: prod.split result.split) (metis fst_conv)+

lemma yields_mono: "yields P res \<Longrightarrow> (\<And>x t. P x t \<Longrightarrow> Q x t) \<Longrightarrow> yields Q res"
  by (auto simp: yields_def split: prod.splits result.splits)

lemma yields_attempt [yields_simps]:
  "yields P (attempt m s) =
     (case m s of (Ok x, t) \<Rightarrow> P (Inr x) t | (Err e, t) \<Rightarrow> P (Inl e) t | (Panic, t) \<Rightarrow> False | (Diverge, t) \<Rightarrow> False)"
  by (simp add: yields_def attempt_def split: prod.split result.split)

lemma rep_gas_used_make_report [simp]: "rep_gas_used (make_report r g rf out s) = g"
  by (simp add: make_report_def)

lemma yields_frame_report [yields_simps]:
  "yields P (frame_report r s) = P (make_report r (cf_gas_used (c_frame s)) (env_refunded_gas (vm_env (c_vm s)))
     (cf_output (c_frame s)) s) s"
  by (simp add: frame_report_def yields_simps)

definition gas_between :: "nat \<Rightarrow> nat \<Rightarrow> nat \<Rightarrow> bool" where
  "gas_between a b g \<longleftrightarrow> a \<le> g \<and> g \<le> b"

lemma gas_between_le: "gas_between a b g \<Longrightarrow> a' \<le> a \<Longrightarrow> gas_between a' b g"
  by (simp add: gas_between_def)

lemma finish_error_gas:
  assumes "cf_gas_used (c_frame s) \<le> cf_gas_limit (c_frame s)" "cf_gas_limit (c_frame s) < u64_bound"
  shows "yields (\<lambda>rep t. gas_between (cf_gas_used (c_frame s)) (cf_gas_limit (c_frame s)) (rep_gas_used rep)) (finish_error bk e s)"
  using assms
  by (simp add: finish_error_def yields_simps push_call_frame_def Let_def gas_between_def)

lemma update_bytecode_yields:
  "yields P (update_account_bytecode a code v) \<longleftrightarrow> (\<exists>v'. update_account_bytecode a code v = (Ok (), v') \<and> P () v')"
  by (auto simp: update_account_bytecode_def get_account_mut_def insert_account_def sm_steps sbind_def
      yields_def Let_def split: option.split)

lemma finish_success_gas:
  assumes "cf_gas_used (c_frame s) \<le> cf_gas_limit (c_frame s)"
  shows "yields (\<lambda>rep t. gas_between (cf_gas_used (c_frame s)) (cf_gas_limit (c_frame s)) (rep_gas_used rep)) (finish_success bk s)"
proof -
  let ?g = "cf_gas_used (c_frame s)" and ?L = "cf_gas_limit (c_frame s)"
  have charge: "yields (\<lambda>r t. gas_between ?g ?L (cf_gas_used (c_frame t)) \<and> cf_gas_limit (c_frame t) = ?L) (validate_create code cost u)"
    if "gas_between ?g ?L (cf_gas_used (c_frame u))" "cf_gas_limit (c_frame u) = ?L" for code cost u
    using that by (simp add: validate_create_def yields_simps increase_consumed_gas_def on_frame_def checked_add_def gas_between_def)
  have ending: "yields (\<lambda>rep t. gas_between ?g ?L (rep_gas_used rep))
      ((case v of Inl error \<Rightarrow> sbind (set_frame (\<lambda>f. f\<lparr>cf_gas_used := cf_gas_limit f\<rparr>))
           (\<lambda>_. sbind (on_vm (smodify (restore_state bk))) (\<lambda>_. frame_report (Revert error)))
        | Inr a \<Rightarrow> sbind (on_vm (update_account_bytecode a code)) (\<lambda>_. frame_report Success)) t)"
    if "gas_between ?g ?L (cf_gas_used (c_frame t)) \<and> cf_gas_limit (c_frame t) = ?L" for v t code
    using that
    by (cases v) (auto simp: yields_simps gas_between_def intro!: yields_calm calm_rules)
  show ?thesis
    using assms gas_between_def [of ?g ?L ?g]
    by (auto simp: finish_success_def yields_simps push_call_frame_def Let_def
        result_simps split: result.split intro!: yields_mono [OF charge ending])
qed

section \<open>Precompiled contracts\<close>

lemma calm_precompile_gas [calm_rules]: "calm (increase_precompile_consumed_gas a b)"
  by (auto simp: calm_def increase_precompile_consumed_gas_def split: option.split)

lemma calm_precompiles [calm_rules]:
  "calm (ecrecover H d g)" "calm (sha2_256 H d g)" "calm (ripemd_160 H d g)" "calm (precompile_stub d g)"
  unfolding ecrecover_def sha2_256_def ripemd_160_def precompile_stub_def gas_sha2_256_def
    gas_ripemd_160_def gas_precompile_def Let_def
  by (auto simp: result_simps split: option.splits intro!: calm_rules)

text \<open>A contract starts from no gas used and adds a cost it has compared with the limit.\<close>

definition stays_below :: "nat \<Rightarrow> (bytes, vm_error, nat) sm \<Rightarrow> bool" where
  "stays_below k m \<longleftrightarrow> snd (m 0) \<le> k"

lemma increase_precompile_below:
  "snd (increase_precompile_consumed_gas k c 0) \<le> k"
  by (auto simp: increase_precompile_consumed_gas_def checked_add_def)

lemma precompiles_below:
  "stays_below k (ecrecover H d k)" "stays_below k (sha2_256 H d k)" "stays_below k (ripemd_160 H d k)"
  "stays_below k (precompile_stub d k)"
proof -
  have bind: "snd (sbind (increase_precompile_consumed_gas k c) f 0) \<le> k"
    if "\<And>u. snd (f () u) = u" for c and f :: "unit \<Rightarrow> (bytes, vm_error, nat) sm"
    using increase_precompile_below [of k c] that by (simp add: snd_sbind split: result.split)
  show "stays_below k (ecrecover H d k)"
    unfolding stays_below_def ecrecover_def Let_def by (rule bind) (simp add: sm_steps split: option.split)
  show "stays_below k (sha2_256 H d k)" "stays_below k (ripemd_160 H d k)"
    unfolding stays_below_def sha2_256_def ripemd_160_def snd_sbind_lift
    by (auto simp: sm_steps split: result.split intro: bind)
  show "stays_below k (precompile_stub d k)" by (simp add: stays_below_def precompile_stub_def sm_steps)
qed

lemma calm_execute_precompile: "calm (execute_precompile H)"
proof -
  have "calm (precompile_run H a d g)" for a d g
    unfolding precompile_run_def by (auto intro: calm_rules)
  then show ?thesis by (auto simp: calm_def execute_precompile_def split: prod.split) (metis fst_conv)+
qed

lemma execute_precompile_frame:
  "cf_gas_limit (snd (execute_precompile H f)) = cf_gas_limit f"
  "cf_gas_used f = 0 \<Longrightarrow> cf_gas_used (snd (execute_precompile H f)) \<le> cf_gas_limit f"
proof -
  have "stays_below k (precompile_run H a d k)" for a d k
    using precompiles_below unfolding precompile_run_def by (auto simp: stays_below_def sm_steps)
  then show "cf_gas_used f = 0 \<Longrightarrow> cf_gas_used (snd (execute_precompile H f)) \<le> cf_gas_limit f"
    by (auto simp: execute_precompile_def stays_below_def split: prod.split) (metis snd_conv)
qed (simp add: execute_precompile_def split: prod.split)

section \<open>Execution\<close>

lemma on_frame_out: "on_frame m s = (fst (m (c_frame s)), s\<lparr>c_frame := snd (m (c_frame s))\<rparr>)"
  by (simp add: on_frame_def split: prod.split)

definition exec_safe :: "ctx \<Rightarrow> (transaction_report, vm_error) result \<times> ctx \<Rightarrow> bool" where
  "exec_safe s res \<longleftrightarrow> yields (\<lambda>rep t. gas_between (cf_gas_used (c_frame s)) (cf_gas_limit (c_frame s)) (rep_gas_used rep)) res"

lemma execute_with_safe:
  assumes "\<And>bk. exec_safe s (loop bk s)" "is_precompile (cf_code_address (c_frame s)) \<Longrightarrow> cf_gas_used (c_frame s) = 0"
  shows "exec_safe s (execute_with H loop s)"
proof (cases "is_precompile (cf_code_address (c_frame s))")
  case False
  then show ?thesis using assms(1) by (simp add: exec_safe_def execute_with_def yields_simps)
next
  case True
  obtain r f where p: "execute_precompile H (c_frame s) = (r, f)" by fastforce
  have "r \<noteq> Panic" "r \<noteq> Diverge" using calm_execute_precompile [of H] p by (auto simp: calm_def) (metis fst_conv)+
  then show ?thesis
    using True assms(2) p execute_precompile_frame [where H = H and f = "c_frame s"]
    by (cases r) (auto simp: exec_safe_def execute_with_def yields_simps on_frame_def push_call_frame_def make_report_def
        gas_between_def)
qed

lemma sub_ok_execute_with:
  assumes "\<And>s bk. frame_ok (c_frame s) \<Longrightarrow> gas_left (c_frame s) < n \<Longrightarrow> exec_safe s (loop bk s)"
  shows "sub_ok n (execute_with H loop)"
  unfolding sub_ok_def
proof (intro allI impI)
  fix u :: ctx
  assume u: "frame_ok (c_frame u)" "cf_gas_used (c_frame u) = 0" "cf_gas_limit (c_frame u) < n"
  then have "exec_safe u (execute_with H loop u)"
    by (intro execute_with_safe assms) (auto simp: gas_left_def)
  then show "case execute_with H loop u of (Ok rep, t) \<Rightarrow> rep_gas_used rep \<le> cf_gas_limit (c_frame u)
      | (Err e, t) \<Rightarrow> True | (Panic, t) \<Rightarrow> False | (Diverge, t) \<Rightarrow> False"
    by (simp add: exec_safe_def yields_def gas_between_def split: prod.splits result.splits)
qed

lemma exec_loop_safe:
  assumes H: "\<And>x. length (keccak H x) = 32"
  shows "frame_ok (c_frame s) \<Longrightarrow> gas_left (c_frame s) < n \<Longrightarrow> exec_safe s (exec_loop H n bk s)"
proof (induction n arbitrary: s bk)
  case (Suc n)
  have sub: "sub_ok n (execute_with H (exec_loop H n))"
    by (rule sub_ok_execute_with) (use Suc.IH in \<open>auto simp: gas_left_def\<close>)
  obtain r t where st: "exec_step H (execute_with H (exec_loop H n)) s = (r, t)" by fastforce
  have safe: "step_safe False s (r, t)"
    using exec_step_safe [OF Suc.prems(1) sub H, of False] Suc.prems(2) st by (simp add: paid_def)
  then have t: "frame_ok (c_frame t)" "cf_gas_limit (c_frame t) = cf_gas_limit (c_frame s)"
      "cf_gas_used (c_frame s) \<le> cf_gas_used (c_frame t)"
    by (auto simp: step_safe_def fits_def)
  show ?case
  proof (cases r)
    case (Ok x)
    show ?thesis
    proof (cases x)
      case (Inl e)
      then show ?thesis using Ok st t finish_error_gas [of t bk e]
        by (auto simp: exec_safe_def yields_simps yields_def [of _ "(_, _)"] frame_ok_def elim!: yields_mono
            intro: gas_between_le)
    next
      case (Inr os)
      show ?thesis
      proof (cases os)
        case Continue
        then have "gas_left (c_frame t) < n" using safe Suc.prems Ok Inr t
          by (auto simp: step_safe_def gas_left_def frame_ok_def)
        then show ?thesis using Suc.IH [OF t(1), of bk] Ok Inr Continue st t(2,3)
          by (auto simp: exec_safe_def yields_simps yields_def [of _ "(_, _)"] elim!: yields_mono
            intro: gas_between_le)
      next
        case (OpResult q)
        then show ?thesis using Ok Inr st t finish_success_gas [of t bk]
          by (auto simp: exec_safe_def yields_simps yields_def [of _ "(_, _)"] frame_ok_def elim!: yields_mono
            intro: gas_between_le)
      qed
    qed
  qed (use safe st in \<open>auto simp: step_safe_def exec_safe_def yields_simps yields_def [of _ "(_, _)"]\<close>)
qed (simp add: gas_left_def)

text \<open>Whatever the gas used at the start, a precompiled contract returns.\<close>

lemma execute_with_calm:
  assumes "\<And>bk. yields (\<lambda>_ _. True) (loop bk s)"
  shows "yields (\<lambda>_ _. True) (execute_with H loop s)"
proof -
  obtain r f where p: "execute_precompile H (c_frame s) = (r, f)" by fastforce
  have "r \<noteq> Panic" "r \<noteq> Diverge" using calm_execute_precompile [of H] p by (auto simp: calm_def) (metis fst_conv)+
  then show ?thesis using p assms by (cases r) (auto simp: execute_with_def yields_simps on_frame_def push_call_frame_def)
qed

section \<open>More fuel\<close>

text \<open>\<open>extends m m'\<close>: \<open>m'\<close> agrees with \<open>m\<close> wherever \<open>m\<close> does not diverge.\<close>

definition extends :: "('a, 'e, 's) sm \<Rightarrow> ('a, 'e, 's) sm \<Rightarrow> bool" where
  "extends m m' \<longleftrightarrow> (\<forall>s. fst (m s) \<noteq> Diverge \<longrightarrow> m' s = m s)"

named_theorems extends_rules "introduction rules for extends"

lemma extends_refl: "extends m m"
  by (simp add: extends_def)

lemma extends_bind [extends_rules]:
  assumes "extends m m'" "\<And>x. extends (f x) (f' x)"
  shows "extends (sbind m f) (sbind m' f')"
  unfolding extends_def
proof (intro allI impI)
  fix s
  assume d: "fst (sbind m f s) \<noteq> Diverge"
  obtain r t where m: "m s = (r, t)" by fastforce
  then have m': "m' s = (r, t)" using d assms(1) by (cases r) (auto simp: extends_def sbind_def)
  show "sbind m' f' s = sbind m f s" using d m m' assms(2) by (cases r) (auto simp: extends_def sbind_def)
qed

lemma extends_if [extends_rules]:
  "extends m m' \<Longrightarrow> extends k k' \<Longrightarrow> extends (if b then m else k) (if b then m' else k')"
  by simp

lemma extends_let [extends_rules]: "(\<And>x. extends (f x) (f' x)) \<Longrightarrow> extends (Let v f) (Let v f')"
  by simp

lemma extends_prod [extends_rules]:
  "(\<And>x y. extends (f x y) (f' x y)) \<Longrightarrow> extends (case p of (x, y) \<Rightarrow> f x y) (case p of (x, y) \<Rightarrow> f' x y)"
  by (cases p) simp

lemma extends_run_sub [extends_rules]: "extends ex ex' \<Longrightarrow> extends (run_sub ex f) (run_sub ex' f)"
  by (auto simp: extends_def run_sub_def split: prod.splits)

lemma extends_attempt [extends_rules]: "extends m m' \<Longrightarrow> extends (attempt m) (attempt m')"
  by (auto simp: extends_def attempt_def split: prod.splits result.splits)

lemma extends_generic [extends_rules]:
  assumes "extends ex ex'"
  shows "extends (generic_call ex a1 a2 a3 a4 a5 a6 a7 a8 a9 a10 a11) (generic_call ex' a1 a2 a3 a4 a5 a6 a7 a8 a9 a10 a11)"
    "extends (generic_create H ex b1 b2 b3 b4) (generic_create H ex' b1 b2 b3 b4)"
  unfolding generic_call_def generic_create_def
  by (intro extends_rules assms extends_refl)+

lemma extends_exec_opcode:
  assumes "extends ex ex'"
  shows "extends (exec_opcode H ex opc) (exec_opcode H ex' opc)"
proof -
  have "extends (exec_system H ex c) (exec_system H ex' c)" for c
    by (cases c; simp add: exec_system_def op_call_def op_callcode_def op_delegatecall_def
        op_staticcall_def op_create_def op_create2_def; intro extends_rules assms extends_refl)
  then show ?thesis by (cases opc) (auto simp: exec_opcode_def intro: extends_refl)
qed

lemma extends_exec_step: "extends ex ex' \<Longrightarrow> extends (exec_step H ex) (exec_step H ex')"
  unfolding exec_step_def by (intro extends_rules extends_exec_opcode extends_refl)

lemma extends_execute_with: "(\<And>bk. extends (l bk) (l' bk)) \<Longrightarrow> extends (execute_with H l) (execute_with H l')"
  unfolding execute_with_def by (intro extends_rules extends_refl)

lemma extends_exec_loop: "extends (exec_loop H n bk) (exec_loop H (Suc n) bk)"
proof (induction n arbitrary: bk)
  case 0
  then show ?case by (simp add: extends_def)
next
  case (Suc n)
  have "extends (case v of Inl e \<Rightarrow> finish_error bk e
        | Inr r \<Rightarrow> (case r of Continue \<Rightarrow> exec_loop H n bk | OpResult _ \<Rightarrow> finish_success bk))
      (case v of Inl e \<Rightarrow> finish_error bk e
        | Inr r \<Rightarrow> (case r of Continue \<Rightarrow> exec_loop H (Suc n) bk | OpResult _ \<Rightarrow> finish_success bk))" for v
    using Suc.IH by (auto simp del: exec_loop.simps simp: extends_refl split: sum.split opcode_success.split)
  then show ?case
    by (subst (1 2) exec_loop.simps) (intro extends_rules extends_exec_step extends_execute_with Suc.IH)
qed

lemma exec_loop_fuel:
  assumes "fst (exec_loop H n bk s) \<noteq> Diverge"
  shows "exec_loop H (n + k) bk s = exec_loop H n bk s"
proof (induction k)
  case (Suc k)
  then show ?case using extends_exec_loop [of H "n + k" bk] assms by (simp add: extends_def del: exec_loop.simps)
qed simp

section \<open>What the ends of a frame return\<close>

definition pushed :: "ctx \<Rightarrow> call_frame \<Rightarrow> ctx" where
  "pushed s f = \<lparr>c_vm = (c_vm s)\<lparr>vm_call_frames := vm_call_frames (c_vm s) @ [f]\<rparr>, c_frame = f\<rparr>"

definition restored :: "backup \<Rightarrow> ctx \<Rightarrow> ctx" where
  "restored bk s = s\<lparr>c_vm := restore_state bk (c_vm s)\<rparr>"

lemma execute_with_precompile:
  assumes "is_precompile (cf_code_address (c_frame s))"
  shows "execute_with H loop s =
    (case execute_precompile H (c_frame s) of
       (Ok out, f) \<Rightarrow> (Ok (make_report Success (cf_gas_used f) 0 out (pushed s f)), pushed s f)
     | (Err e, f) \<Rightarrow>
         if is_internal e then (Err e, s\<lparr>c_frame := f\<rparr>)
         else let t = restored (take_backup (c_vm s)) (pushed s f)
              in (Ok (make_report (Revert e) (cf_gas_limit f) 0 [] t), t)
     | (Panic, f) \<Rightarrow> (Panic, s\<lparr>c_frame := f\<rparr>)
     | (Diverge, f) \<Rightarrow> (Diverge, s\<lparr>c_frame := f\<rparr>))"
  using assms
  by (cases s) (simp add: execute_with_def sbind_def sm_steps frame_def attempt_def on_frame_def on_vm_def push_call_frame_def
      pushed_def restored_def Let_def split: prod.split result.split)

lemma execute_with_loop:
  assumes "\<not> is_precompile (cf_code_address (c_frame s))"
  shows "execute_with H loop s = loop (take_backup (c_vm s)) s"
  using assms by (simp add: execute_with_def sbind_def sm_steps frame_def)

definition error_frame :: "vm_error \<Rightarrow> call_frame \<Rightarrow> call_frame" where
  "error_frame e f =
     (if e = RevertOpcode then f
      else f\<lparr>cf_gas_used := min (cf_gas_used f + (cf_gas_limit f - cf_gas_used f)) (u64_bound - 1)\<rparr>)"

lemma finish_error_eq:
  "finish_error bk e s =
     (let p = pushed s (c_frame s); t = restored bk (p\<lparr>c_frame := error_frame e (c_frame s)\<rparr>)
      in if is_internal e then (Err e, p)
         else (Ok (make_report (Revert e) (cf_gas_used (c_frame t)) (env_refunded_gas (vm_env (c_vm t)))
           (cf_output (c_frame t)) t), t))"
  by (cases s) (auto simp: finish_error_def sbind_def sm_steps push_call_frame_def set_frame_def on_vm_def frame_report_def
      pushed_def restored_def error_frame_def Let_def)

lemma finish_success_plain:
  assumes "\<not> (is_create (c_vm s) \<and> cf_depth (c_frame s) = 0)" "\<not> cf_create_op_called (c_frame s)"
  shows "finish_success bk s =
    (let t = pushed s (c_frame s)
     in (Ok (make_report Success (cf_gas_used (c_frame t)) (env_refunded_gas (vm_env (c_vm t)))
          (cf_output (c_frame t)) t), t))"
  using assms
  by (cases s) (auto simp: finish_success_def sbind_def sm_steps push_call_frame_def frame_report_def pushed_def
      is_create_def Let_def)

lemma exec_loop_Suc:
  "exec_loop H (Suc n) bk s =
     (case exec_step H (execute_with H (exec_loop H n)) s of
        (Ok (Inl e), t) \<Rightarrow> finish_error bk e t
      | (Ok (Inr Continue), t) \<Rightarrow> exec_loop H n bk t
      | (Ok (Inr (OpResult _)), t) \<Rightarrow> finish_success bk t
      | (Err e, t) \<Rightarrow> (Err e, t)
      | (Panic, t) \<Rightarrow> (Panic, t)
      | (Diverge, t) \<Rightarrow> (Diverge, t))"
  by (simp add: sbind_def split: prod.split result.split sum.split opcode_success.split)

end
