(* ===== verification/Evm_Static.thy ===== *)
theory Evm_Static
  imports Evm_Safety
begin

text \<open>
  Static contexts. The observable state of the machine is what the accounts look like through the
  cache and the database, the transient storage, the refund counter, and the sets of created and
  destroyed accounts; loading an account into the cache does not change it. A frame entered by
  \<^verbatim>\<open>STATICCALL\<close>, and every frame below it, leaves the observable state and its logs as they were,
  whatever code it runs.
\<close>

section \<open>The observable state\<close>

definition info_view :: "vm \<Rightarrow> address \<Rightarrow> account_info" where
  "info_view v a = (case vm_cache v a of Some acc \<Rightarrow> acc_info acc | None \<Rightarrow> get_account_info (vm_db v) a)"

definition storage_view :: "vm \<Rightarrow> address \<Rightarrow> h256 \<Rightarrow> u256" where
  "storage_view v a k = current_value (read_slot v a k)"

definition same_world :: "vm \<Rightarrow> vm \<Rightarrow> bool" where
  "same_world v w \<longleftrightarrow>
     info_view w = info_view v \<and> storage_view w = storage_view v \<and>
     env_transient_storage (vm_env w) = env_transient_storage (vm_env v) \<and>
     env_refunded_gas (vm_env w) = env_refunded_gas (vm_env v) \<and>
     selfdestruct_set (vm_substate w) = selfdestruct_set (vm_substate v) \<and>
     created_accounts (vm_substate w) = created_accounts (vm_substate v) \<and>
     vm_db w = vm_db v \<and> vm_tx_kind w = vm_tx_kind v"

interpretation world: state_order same_world
  by unfold_locales (auto simp: same_world_def)

lemma world_cache:
  assumes "info_view (v\<lparr>vm_cache := c\<rparr>) = info_view v" "storage_view (v\<lparr>vm_cache := c\<rparr>) = storage_view v"
  shows "same_world v (v\<lparr>vm_cache := c\<rparr>)"
  using assms by (simp add: same_world_def)

lemma views_update:
  "info_view (v\<lparr>vm_cache := (vm_cache v)(a \<mapsto> acc)\<rparr>) = (info_view v)(a := acc_info acc)"
  "storage_view (v\<lparr>vm_cache := (vm_cache v)(a \<mapsto> acc)\<rparr>) =
     (storage_view v)(a := \<lambda>k. case acc_storage acc k of Some slot \<Rightarrow> current_value slot
        | None \<Rightarrow> get_storage_slot (vm_db v) a k)"
  by (auto simp: info_view_def storage_view_def read_slot_def Let_def fun_eq_iff split: option.split)

lemma world_load: "vm_cache v a = None \<Longrightarrow> same_world v (v\<lparr>vm_cache := (vm_cache v)(a \<mapsto> load_account (vm_db v) a)\<rparr>)"
  by (rule world_cache)
    (auto simp: views_update load_account_def info_view_def storage_view_def read_slot_def Let_def fun_eq_iff)

lemma world_get_account [moves_rules]: "moves same_world (get_account_mut a)" "moves same_world (get_account a)"
  by (auto simp: moves_def get_account_mut_def get_account_def get_account_or_load_def Let_def
      intro: world_load world.same split: option.split)

lemma world_access_account [moves_rules]: "moves same_world (access_account a)"
  unfolding access_account_def touch_def
  by (intro moves_rules world.moves_modify)
    (auto simp: same_world_def info_view_def storage_view_def read_slot_def Let_def fun_eq_iff split: option.split)

text \<open>The account that \<^verbatim>\<open>get_account_mut\<close> returns, and the views after writing a changed one back.\<close>

lemma get_account_mut_out:
  obtains w acc where "get_account_mut a v = (Ok acc, w)" "same_world v w" "vm_cache w a = Some acc"
    "acc_info acc = info_view v a"
proof (cases "vm_cache v a")
  case None
  then show ?thesis using that [of "load_account (vm_db v) a"] world_load [OF None]
    by (auto simp: get_account_mut_def Let_def info_view_def load_account_def)
next
  case (Some acc)
  then show ?thesis using that [of acc v] by (auto simp: get_account_mut_def info_view_def world.same)
qed

definition world_upd :: "address \<Rightarrow> account_info \<Rightarrow> vm \<Rightarrow> vm \<Rightarrow> bool" where
  "world_upd a i v w \<longleftrightarrow>
     info_view w = (info_view v)(a := i) \<and> storage_view w = storage_view v \<and>
     env_transient_storage (vm_env w) = env_transient_storage (vm_env v) \<and>
     env_refunded_gas (vm_env w) = env_refunded_gas (vm_env v) \<and>
     selfdestruct_set (vm_substate w) = selfdestruct_set (vm_substate v) \<and>
     created_accounts (vm_substate w) = created_accounts (vm_substate v) \<and>
     vm_db w = vm_db v \<and> vm_tx_kind w = vm_tx_kind v"

lemma world_upd_same: "i = info_view v a \<Longrightarrow> world_upd a i v w = same_world v w"
  by (auto simp: world_upd_def same_world_def)

lemma world_upd_trans: "world_upd a i v w \<Longrightarrow> world_upd a j w u \<Longrightarrow> world_upd a j v u"
  by (auto simp: world_upd_def)

lemma world_upd_write:
  assumes "same_world v w" "vm_cache w a = Some acc"
  shows "world_upd a i v (w\<lparr>vm_cache := (vm_cache w)(a \<mapsto> acc\<lparr>acc_info := i\<rparr>)\<rparr>)"
proof -
  have "storage_view w a = (\<lambda>k. case acc_storage acc k of Some slot \<Rightarrow> current_value slot
      | None \<Rightarrow> get_storage_slot (vm_db w) a k)"
    using assms(2) by (auto simp: storage_view_def read_slot_def Let_def fun_eq_iff split: option.split)
  then show ?thesis using assms(1) by (simp add: world_upd_def same_world_def views_update fun_upd_idem)
qed

lemma world_access_slot [moves_rules]: "moves same_world (access_storage_slot a key)"
proof
  fix v
  let ?v = "v\<lparr>vm_substate := (vm_substate v)\<lparr>touched_storage_slots :=
    (touched_storage_slots (vm_substate v))(a \<mapsto> insert key (touched_slots v a))\<rparr>\<rparr>"
  have v: "same_world v ?v" "read_slot ?v = read_slot v"
    by (auto simp: same_world_def info_view_def storage_view_def read_slot_def Let_def fun_eq_iff split: option.split)
  obtain w acc where w: "get_account_mut a ?v = (Ok acc, w)" "same_world ?v w" "vm_cache w a = Some acc"
    by (rule get_account_mut_out)
  have "current_value (read_slot v a key) = storage_view w a key"
    using w(2) v by (simp add: same_world_def storage_view_def)
  then have "same_world w (w\<lparr>vm_cache := (vm_cache w)(a \<mapsto> acc\<lparr>acc_storage := (acc_storage acc)(key \<mapsto> read_slot v a key)\<rparr>)\<rparr>)"
    using w(3) by (intro world_cache)
      (auto simp: views_update info_view_def storage_view_def read_slot_def Let_def fun_eq_iff split: option.split)
  moreover have "snd (access_storage_slot a key v) =
      w\<lparr>vm_cache := (vm_cache w)(a \<mapsto> acc\<lparr>acc_storage := (acc_storage acc)(key \<mapsto> read_slot v a key)\<rparr>)\<rparr>"
    using w(1) v(2) by (simp add: access_storage_slot_def sbind_def sm_steps insert_account_def)
  ultimately show "same_world v (snd (access_storage_slot a key v))"
    using v(1) w(2) by (auto intro: world.trans)
qed

text \<open>A transfer of nothing, or from an account to itself, changes nothing.\<close>

lemma increase_balance_cases:
  obtains (ok) w where "increase_account_balance a x v = (Ok (), w)"
      "unat (ai_balance (info_view v a)) + unat x < 2 ^ 256"
      "world_upd a ((info_view v a)\<lparr>ai_balance := ai_balance (info_view v a) + x\<rparr>) v w"
  | (err) w where "increase_account_balance a x v = (Err BalanceOverflow, w)"
      "\<not> unat (ai_balance (info_view v a)) + unat x < 2 ^ 256" "same_world v w"
proof -
  obtain w acc where w: "get_account_mut a v = (Ok acc, w)" "same_world v w" "vm_cache w a = Some acc"
    "acc_info acc = info_view v a" by (rule get_account_mut_out)
  show ?thesis
    using that w world_upd_write [OF w(2,3)]
    by (cases "unat (ai_balance (info_view v a)) + unat x < 2 ^ 256")
      (simp_all add: increase_account_balance_def insert_account_def sbind_def sm_steps u256_checked_add_def)
qed

lemma decrease_balance_cases:
  obtains (ok) w where "decrease_account_balance a x v = (Ok (), w)" "x \<le> ai_balance (info_view v a)"
      "world_upd a ((info_view v a)\<lparr>ai_balance := ai_balance (info_view v a) - x\<rparr>) v w"
  | (err) w where "decrease_account_balance a x v = (Err BalanceUnderflow, w)"
      "\<not> x \<le> ai_balance (info_view v a)" "same_world v w"
proof -
  obtain w acc where w: "get_account_mut a v = (Ok acc, w)" "same_world v w" "vm_cache w a = Some acc"
    "acc_info acc = info_view v a" by (rule get_account_mut_out)
  show ?thesis
    using that w world_upd_write [OF w(2,3)]
    by (cases "x \<le> ai_balance (info_view v a)")
      (simp_all add: decrease_account_balance_def insert_account_def sbind_def sm_steps u256_checked_sub_def)
qed

lemma world_increase_zero: "moves same_world (increase_account_balance a 0)"
proof
  fix v
  show "same_world v (snd (increase_account_balance a 0 v))"
    by (cases rule: increase_balance_cases [of a 0 v]) (auto simp: world_upd_same)
qed

lemma world_decrease_zero: "moves same_world (decrease_account_balance a 0)"
proof
  fix v
  show "same_world v (snd (decrease_account_balance a 0 v))"
    by (cases rule: decrease_balance_cases [of a 0 v]) (auto simp: world_upd_same)
qed

lemma unat_u256: "unat (w :: u256) < 2 ^ 256"
  by (rule order_less_le_trans [OF unsigned_less]) simp

lemma world_self_transfer:
  "moves same_world (sbind (decrease_account_balance a x) (\<lambda>_. increase_account_balance a x))"
proof
  fix v
  show "same_world v (snd (sbind (decrease_account_balance a x) (\<lambda>_. increase_account_balance a x) v))"
  proof (cases rule: decrease_balance_cases [of a x v])
    case (ok w)
    then have i: "info_view w a = (info_view v a)\<lparr>ai_balance := ai_balance (info_view v a) - x\<rparr>"
      by (simp add: world_upd_def)
    have "unat (ai_balance (info_view v a) - x) + unat x = unat (ai_balance (info_view v a))"
      using ok(2) by (simp add: unat_sub word_le_nat_alt)
    then have fits: "unat (ai_balance (info_view w a)) + unat x < 2 ^ 256"
      using unat_u256 [of "ai_balance (info_view v a)"] i by simp
    show ?thesis
    proof (cases rule: increase_balance_cases [of a x w])
      case (ok u)
      then show ?thesis
        using \<open>decrease_account_balance a x v = (Ok (), w)\<close>
          world_upd_trans [OF \<open>world_upd a _ v w\<close> ok(3)] i
        by (simp add: sbind_def world_upd_same)
    qed (use fits in simp)
  qed (simp add: sbind_def)
qed

section \<open>Static frames\<close>

definition static_frame :: "call_frame \<Rightarrow> bool" where
  "static_frame f \<longleftrightarrow> cf_is_static f \<and> 0 < cf_depth f \<and> \<not> cf_create_op_called f"

definition static_keeps :: "ctx \<Rightarrow> ctx \<Rightarrow> bool" where
  "static_keeps s t \<longleftrightarrow> (static_frame (c_frame s) \<longrightarrow>
     static_frame (c_frame t) \<and> cf_logs (c_frame t) = cf_logs (c_frame s) \<and> same_world (c_vm s) (c_vm t))"

interpretation static: state_order static_keeps
  by unfold_locales (auto simp: static_keeps_def intro: world.same world.trans)

text \<open>After the check of the flag only the static branch matters.\<close>

lemma static_check [moves_rules]:
  assumes "moves static_keeps (f True)"
  shows "moves static_keeps (sbind (frame cf_is_static) f)"
proof
  fix s
  show "static_keeps s (snd (sbind (frame cf_is_static) f s))"
  proof (cases "cf_is_static (c_frame s)")
    case True
    then show ?thesis using movesD [OF assms, of s] by (simp add: sbind_def frame_def sm_steps)
  qed (simp add: static_keeps_def static_frame_def)
qed

lemma static_frame_read: "moves static_keeps (frame h)"
  unfolding frame_def by (rule moves_rules)

lemma static_on_frame:
  assumes "\<And>f. static_frame (snd (m f)) = static_frame f" "\<And>f. cf_logs (snd (m f)) = cf_logs f"
  shows "moves static_keeps (on_frame m)"
  unfolding moves_def on_frame_out using assms by (simp add: static_keeps_def world.same)

lemma static_on_stack [moves_rules]: "moves static_keeps (on_stack m)" "moves static_keeps (on_memory k)"
  by (simp_all add: moves_def on_stack_out on_memory_out static_keeps_def static_frame_def world.same)

lemma static_basic [moves_rules]:
  "moves static_keeps (env h)" "moves static_keeps memory_len" "moves static_keeps pop" "moves static_keeps (push v)"
  unfolding env_def memory_len_def pop_def push_def
  by (intro moves_rules static_frame_read)+

lemma static_gas [moves_rules]: "moves static_keeps (increase_consumed_gas n)"
  unfolding increase_consumed_gas_def
  by (rule static_on_frame) (simp_all add: static_frame_def split: option.split)

lemma static_pc [moves_rules]:
  "moves static_keeps (on_frame increment_pc)" "moves static_keeps (on_frame (increment_pc_by n))"
  "moves static_keeps (on_frame (jump a))"
  by (rule static_on_frame; simp add: increment_pc_def increment_pc_by_def jump_def static_frame_def split: option.split)+

lemma static_set_frame [moves_rules]:
  assumes "\<And>f. static_frame (h f) = static_frame f" "\<And>f. cf_logs (h f) = cf_logs f"
  shows "moves static_keeps (set_frame h)"
proof -
  have "c_frame (c_frame_update h s) = h (c_frame s)" "c_vm (c_frame_update h s) = c_vm s" for s
    by (cases s; simp)+
  then show ?thesis using assms unfolding set_frame_def
    by (intro static.moves_modify) (simp add: static_keeps_def world.same)
qed

lemma static_set_gas [moves_rules]: "moves static_keeps (set_gas_used n)"
  unfolding set_gas_used_def by (rule static_set_frame) (simp_all add: static_frame_def)

lemma static_on_vm [moves_rules]: "moves same_world m \<Longrightarrow> moves static_keeps (on_vm m)"
  by (auto simp: moves_def on_vm_def static_keeps_def split: prod.split) (metis snd_conv)

lemma static_pop_topics [moves_rules]: "moves static_keeps (pop_topics n)"
  by (induction n) (auto intro!: moves_rules)

lemmas frame_handler_defs =
  op_add_def op_sub_def op_mul_def op_div_def op_sdiv_def op_mod_def op_smod_def op_addmod_def
  op_mulmod_def op_exp_def op_signextend_def op_lt_def op_gt_def op_slt_def op_sgt_def op_eq_def
  op_iszero_def op_and_def op_or_def op_xor_def op_not_def op_byte_def op_shl_def op_shr_def op_sar_def
  op_blockhash_def op_coinbase_def op_timestamp_def op_number_def op_prevrandao_def op_gaslimit_def
  op_chainid_def op_selfbalance_def op_basefee_def op_blobhash_def op_blobbasefee_def
  op_address_def op_balance_def op_origin_def op_caller_def op_callvalue_def op_calldataload_def
  op_calldatasize_def op_calldatacopy_def op_codesize_def op_codecopy_def op_gasprice_def
  op_extcodesize_def op_extcodecopy_def op_returndatasize_def op_returndatacopy_def op_extcodehash_def
  op_pop_def op_tload_def op_tstore_def op_mload_def op_mstore_def op_mstore8_def op_sload_def
  op_sstore_def op_msize_def op_gas_def op_mcopy_def op_jump_def op_jumpi_def op_jumpdest_def op_pc_def
  op_push_def op_push0_def op_dup_def op_swap_def op_keccak256_def op_log_def
  op_return_def op_revert_def op_invalid_def op_selfdestruct_def

lemma static_arithmetic: "moves static_keeps (exec_arithmetic c)"
  unfolding exec_arithmetic_def
  by (cases c; simp add: frame_handler_defs; intro moves_rules static_frame_read)

lemma static_comparison: "moves static_keeps (exec_comparison c)"
  unfolding exec_comparison_def
  by (cases c; simp add: frame_handler_defs; intro moves_rules static_frame_read)

lemma static_block: "moves static_keeps (exec_block c)"
  unfolding exec_block_def
  by (cases c; simp add: frame_handler_defs; intro moves_rules static_frame_read)

lemma static_environment: "moves static_keeps (exec_environment H c)"
  unfolding exec_environment_def
  by (cases c; simp add: frame_handler_defs; intro moves_rules static_frame_read)

lemma static_flow: "moves static_keeps (exec_flow c)"
  unfolding exec_flow_def
  by (cases c; simp add: frame_handler_defs; intro moves_rules static_frame_read; simp?)

section \<open>Sub-contexts\<close>

definition static_sub :: "transaction_report ctx_m \<Rightarrow> bool" where
  "static_sub ex \<longleftrightarrow> (\<forall>s. static_frame (c_frame s) \<longrightarrow>
     same_world (c_vm s) (c_vm (snd (ex s))) \<and>
     (\<forall>rep. fst (ex s) = Ok rep \<longrightarrow> rep_logs rep = cf_logs (c_frame s)))"

lemma static_run_sub:
  assumes "static_sub ex" "static_frame f" "cf_logs f = []" "\<And>rep. rep_logs rep = [] \<Longrightarrow> moves static_keeps (h rep)"
  shows "moves static_keeps (sbind (run_sub ex f) h)"
proof
  fix s :: ctx
  obtain r t where ex: "ex \<lparr>c_vm = c_vm s, c_frame = f\<rparr> = (r, t)" by fastforce
  have t: "same_world (c_vm s) (c_vm t)" "\<And>rep. r = Ok rep \<Longrightarrow> rep_logs rep = []"
    using assms(1) [unfolded static_sub_def, rule_format, of "\<lparr>c_vm = c_vm s, c_frame = f\<rparr>"] assms(2,3) ex by auto
  then have "static_keeps s (s\<lparr>c_vm := c_vm t\<rparr>)" by (simp add: static_keeps_def)
  moreover have "snd (sbind (run_sub ex f) h s) =
      (case r of Ok rep \<Rightarrow> snd (h rep (s\<lparr>c_vm := c_vm t\<rparr>)) | _ \<Rightarrow> s\<lparr>c_vm := c_vm t\<rparr>)"
    using ex by (cases r) (simp_all add: snd_sbind run_sub_def)
  ultimately show "static_keeps s (snd (sbind (run_sub ex f) h s))"
    using movesD [OF assms(4)] t(2) by (auto split: result.split intro: static.trans)
qed

lemma static_bind_lift:
  assumes "\<And>x. r = Ok x \<Longrightarrow> moves static_keeps (f x)"
  shows "moves static_keeps (sbind (slift r) f)"
proof
  fix s
  show "static_keeps s (snd (sbind (slift r) f s))"
    using movesD [OF assms] by (cases r) (auto simp: snd_sbind_lift static.same)
qed

lemma on_vm_bind: "sbind (on_vm m) (\<lambda>x. on_vm (f x)) = on_vm (sbind m f)"
  by (rule ext) (auto simp: sbind_def on_vm_def split: prod.split result.split)

lemma static_transfer:
  assumes "x = 0 \<or> a = b"
  shows "moves static_keeps (sbind (on_vm (decrease_account_balance a x)) (\<lambda>_. on_vm (increase_account_balance b x)))"
  unfolding on_vm_bind
proof (rule static_on_vm)
  show "moves same_world (sbind (decrease_account_balance a x) (\<lambda>_. increase_account_balance b x))"
  proof (cases "a = b")
    case False
    then show ?thesis using assms by (auto intro: moves_rules world_increase_zero world_decrease_zero)
  qed (use world_self_transfer in auto)
qed

lemma static_tx_result [moves_rules]:
  "(r = Success \<Longrightarrow> moves R m) \<Longrightarrow> (\<And>e. r = Revert e \<Longrightarrow> moves R (f e)) \<Longrightarrow>
     moves R (case r of Success \<Rightarrow> m | Revert e \<Rightarrow> f e)"
  by (cases r) simp_all

lemma static_generic_call:
  assumes "static_sub ex" "stv \<Longrightarrow> val = 0 \<or> msg_sender = to"
  shows "moves static_keeps (generic_call ex gas_limit val msg_sender to code_address stv True
    args_offset args_size ret_offset ret_size)"
  unfolding generic_call_def
  by (intro static_run_sub [OF assms(1)] static_bind_lift static_transfer moves_rules static_frame_read;
      use assms(2) in \<open>auto simp: static_frame_def call_frame_new_def result_simps\<close>)

lemma static_generic_create: "moves static_keeps (generic_create H ex val off k salt)"
  unfolding generic_create_def by (rule static_check) (simp add: static.moves_err)

lemma static_system:
  assumes "static_sub ex"
  shows "moves static_keeps (exec_system H ex c)"
  unfolding exec_system_def op_call_def op_callcode_def op_delegatecall_def op_staticcall_def op_create_def op_create2_def
  by (cases c; simp add: frame_handler_defs; intro moves_rules static_generic_create static_generic_call [OF assms] static_frame_read;
      simp add: static_frame_def)

section \<open>Execution of a static frame\<close>

lemma static_exec_opcode:
  assumes "static_sub ex"
  shows "moves static_keeps (exec_opcode H ex opc)"
proof -
  have "moves static_keeps (op_keccak256 H)" "moves static_keeps op_push0" "moves static_keeps (op_push n)"
    "moves static_keeps (op_dup n)" "moves static_keeps (op_swap n)" "moves static_keeps (op_log n)" for n
    unfolding frame_handler_defs by (intro moves_rules static_frame_read; simp)+
  then show ?thesis using static_system [OF assms]
    by (cases opc) (simp_all add: exec_opcode_def static_arithmetic static_comparison static_block
      static_environment static_flow)
qed

lemma snd_attempt: "snd (attempt m s) = snd (m s)"
  by (simp add: attempt_def split: prod.split result.split)

lemma static_exec_step: "static_sub ex \<Longrightarrow> moves static_keeps (exec_step H ex)"
proof -
  assume ex: "static_sub ex"
  have "moves static_keeps (attempt (exec_opcode H ex opc))" for opc
    using static_exec_opcode [OF ex, of H opc] by (simp add: moves_def snd_attempt)
  then show ?thesis unfolding exec_step_def by (intro moves_rules static_frame_read)
qed

text \<open>Restoring a backup is invisible when it was taken in the same world.\<close>

definition backs :: "backup \<Rightarrow> vm \<Rightarrow> bool" where
  "backs bk v \<longleftrightarrow> same_world v (restore_state bk v)"

lemma backs_take_backup: "backs (take_backup v) v"
  by (simp add: backs_def take_backup_def restore_state_def world.same)

lemma backs_same_world:
  assumes "backs bk v" "same_world v w"
  shows "backs bk w"
proof -
  have "same_world (restore_state bk v) (restore_state bk w)"
    using assms(2) by (auto simp: same_world_def restore_state_def info_view_def storage_view_def read_slot_def Let_def
        fun_eq_iff split: option.split)
  then show ?thesis using assms by (auto simp: backs_def same_world_def)
qed

lemma world_call_frames: "same_world v (v\<lparr>vm_call_frames := l\<rparr>)"
  by (simp add: same_world_def info_view_def storage_view_def read_slot_def fun_eq_iff Let_def split: option.split)

lemma world_pushed: "same_world (c_vm s) (c_vm (pushed s f))"
  by (simp add: pushed_def world_call_frames)

lemma world_restored:
  assumes "backs bk (c_vm s)"
  shows "same_world (c_vm s) (c_vm (restored bk (pushed s f)))"
proof -
  have "same_world (c_vm (pushed s f)) (c_vm (restored bk (pushed s f)))"
    using backs_same_world [OF assms world_pushed [of s f]] by (simp add: backs_def restored_def)
  then show ?thesis using world_pushed world.trans by blast
qed

lemma logs_make_report [simp]: "rep_logs (make_report r g rf out s) = cf_logs (c_frame s)"
  by (simp add: make_report_def)

lemma static_finish_error:
  assumes "backs bk (c_vm s)"
  shows "same_world (c_vm s) (c_vm (snd (finish_error bk e s)))"
    "fst (finish_error bk e s) = Ok rep \<Longrightarrow> rep_logs rep = cf_logs (c_frame s)"
proof -
  have "restored bk (pushed s (c_frame s)\<lparr>c_frame := f\<rparr>) = restored bk (pushed s (c_frame s))\<lparr>c_frame := f\<rparr>" for f
    by (simp add: restored_def)
  then show "same_world (c_vm s) (c_vm (snd (finish_error bk e s)))"
    using world_pushed [of s "c_frame s"] world_restored [OF assms, of "c_frame s"]
    by (simp add: finish_error_eq Let_def)
  show "rep_logs rep = cf_logs (c_frame s)" if "fst (finish_error bk e s) = Ok rep"
    using that by (auto simp: finish_error_eq Let_def restored_def error_frame_def split: if_splits)
qed

lemma static_finish_success:
  assumes "static_frame (c_frame s)"
  shows "same_world (c_vm s) (c_vm (snd (finish_success bk s)))"
    "fst (finish_success bk s) = Ok rep \<Longrightarrow> rep_logs rep = cf_logs (c_frame s)"
  using assms world_pushed [of s "c_frame s"]
  by (auto simp: static_frame_def finish_success_plain Let_def pushed_def)

lemma execute_precompile_logs: "execute_precompile H f = (r, f') \<Longrightarrow> cf_logs f' = cf_logs f"
  by (auto simp: execute_precompile_def split: prod.splits)

lemma static_execute_with:
  assumes "same_world (c_vm s) (c_vm (snd (loop (take_backup (c_vm s)) s)))"
    and "\<And>rep. fst (loop (take_backup (c_vm s)) s) = Ok rep \<Longrightarrow> rep_logs rep = cf_logs (c_frame s)"
  shows "same_world (c_vm s) (c_vm (snd (execute_with H loop s))) \<and>
    (\<forall>rep. fst (execute_with H loop s) = Ok rep \<longrightarrow> rep_logs rep = cf_logs (c_frame s))"
proof (cases "is_precompile (cf_code_address (c_frame s))")
  case True
  obtain r f where p: "execute_precompile H (c_frame s) = (r, f)" by fastforce
  show ?thesis
    using world_pushed [of s f] world_restored [OF backs_take_backup, of s f] execute_precompile_logs [OF p]
    by (cases r) (auto simp: execute_with_precompile [OF True] p Let_def world.same restored_def pushed_def)
qed (use assms in \<open>simp add: execute_with_loop\<close>)

lemma static_exec_loop:
  "static_frame (c_frame s) \<Longrightarrow> backs bk (c_vm s) \<Longrightarrow>
     same_world (c_vm s) (c_vm (snd (exec_loop H n bk s))) \<and>
     (\<forall>rep. fst (exec_loop H n bk s) = Ok rep \<longrightarrow> rep_logs rep = cf_logs (c_frame s))"
proof (induction n arbitrary: s bk)
  case (Suc n)
  let ?ex = "execute_with H (exec_loop H n)"
  have "static_sub ?ex"
    unfolding static_sub_def
  proof (intro allI impI)
    fix u :: ctx
    assume "static_frame (c_frame u)"
    from Suc.IH [OF this backs_take_backup]
    show "same_world (c_vm u) (c_vm (snd (?ex u))) \<and>
        (\<forall>rep. fst (?ex u) = Ok rep \<longrightarrow> rep_logs rep = cf_logs (c_frame u))"
      by (intro static_execute_with) auto
  qed
  then have mv: "static_keeps s (snd (exec_step H ?ex s))" by (rule movesD [OF static_exec_step])
  obtain r t where st: "exec_step H ?ex s = (r, t)" by fastforce
  have t: "static_frame (c_frame t)" "cf_logs (c_frame t) = cf_logs (c_frame s)" "same_world (c_vm s) (c_vm t)"
    "backs bk (c_vm t)"
    using mv st Suc.prems backs_same_world [OF Suc.prems(2), of "c_vm t"] by (simp_all add: static_keeps_def)
  have "same_world (c_vm t) (c_vm (snd (exec_loop H (Suc n) bk s))) \<and>
      (\<forall>rep. fst (exec_loop H (Suc n) bk s) = Ok rep \<longrightarrow> rep_logs rep = cf_logs (c_frame t))"
  proof (cases r)
    case (Ok x)
    show ?thesis
    proof (cases x)
      case (Inl e)
      then have "exec_loop H (Suc n) bk s = finish_error bk e t" using Ok st unfolding exec_loop_Suc by simp
      then show ?thesis using static_finish_error [OF t(4), of e] by metis
    next
      case (Inr os)
      show ?thesis
      proof (cases os)
        case Continue
        then have "exec_loop H (Suc n) bk s = exec_loop H n bk t" using Ok Inr st unfolding exec_loop_Suc by simp
        then show ?thesis using Suc.IH [OF t(1,4)] by metis
      next
        case (OpResult q)
        then have "exec_loop H (Suc n) bk s = finish_success bk t" using Ok Inr st unfolding exec_loop_Suc by simp
        then show ?thesis using static_finish_success [OF t(1), of bk] by metis
      qed
    qed
  qed (use st in \<open>simp_all add: exec_loop_Suc world.same del: exec_loop.simps\<close>)
  then show ?case using t(2) world.trans [OF t(3)] by metis
qed (simp add: world.same)

end
