(* ===== verification/Evm_Keeps.thy ===== *)
theory Evm_Keeps
  imports Evm_Static
begin

text \<open>
  What the handlers keep. The locale \<open>handler_order\<close> names the laws of a relation between machine
  states that go through every handler: one law for each field of the frame a handler writes and for
  each operation on the accounts. Its lemmas lift the laws to the whole instruction set. Three
  relations of the machine satisfy them: the frame stays in its code, the context of the transaction
  is fixed, the counters stay within their width.
\<close>

section \<open>A relation kept by the handlers\<close>

lemma set_frame_out: "set_frame h s = (Ok (), s\<lparr>c_frame := h (c_frame s)\<rparr>)"
  by (cases s) (simp add: set_frame_def sm_steps)

lemma cf_logs_update_out: "cf_logs_update k f = f\<lparr>cf_logs := k (cf_logs f)\<rparr>"
  by (cases f) simp

locale handler_order = state_order R for R :: "ctx \<Rightarrow> ctx \<Rightarrow> bool" +
  assumes stack: "R s (s\<lparr>c_frame := (c_frame s)\<lparr>cf_stack := st\<rparr>\<rparr>)"
    and memory: "R s (s\<lparr>c_frame := (c_frame s)\<lparr>cf_memory := mem\<rparr>\<rparr>)"
    and gas_used: "R s (s\<lparr>c_frame := (c_frame s)\<lparr>cf_gas_used := g\<rparr>\<rparr>)"
    and return_data: "R s (s\<lparr>c_frame := (c_frame s)\<lparr>cf_sub_return_data := dat\<rparr>\<rparr>)"
    and outputs: "R s (s\<lparr>c_frame := (c_frame s)\<lparr>cf_output := dat\<rparr>\<rparr>)"
    and logs: "R s (s\<lparr>c_frame := (c_frame s)\<lparr>cf_logs := l\<rparr>\<rparr>)"
    and access_account [moves_rules]: "moves R (on_vm (access_account a))"
    and get_account [moves_rules]: "moves R (on_vm (get_account a))"
    and access_slot [moves_rules]: "moves R (on_vm (access_storage_slot a key))"
    and increase_balance [moves_rules]: "moves R (on_vm (increase_account_balance a x))"
    and decrease_balance [moves_rules]: "moves R (on_vm (decrease_account_balance a x))"
    and increment_nonce [moves_rules]: "moves R (on_vm (increment_account_nonce a))"
    and insert_new [moves_rules]: "moves R (on_vm (insert_account a (account_new bal [] 1 Map.empty)))"
    and remove [moves_rules]: "moves R (on_vm (remove_account a))"
    and touch [moves_rules]: "moves R (on_vm (touch a))"
    and created [moves_rules]: "moves R (on_vm (created_accounts_insert a))" "moves R (on_vm (created_accounts_remove a))"
    and destroyed [moves_rules]: "moves R (on_vm (selfdestruct_set_insert a))"
    and update_storage [moves_rules]: "moves R (on_vm (update_account_storage a key v))"
    and transient [moves_rules]: "moves R (set_env (env_transient_storage_update ts))"
    and refund: "sstore_refund slot v (env_refunded_gas (vm_env (c_vm s))) = Ok n \<Longrightarrow>
      R s (s\<lparr>c_vm := vm_env_update (env_refunded_gas_update (\<lambda>_. n)) (c_vm s)\<rparr>)"
begin

lemma moves_reads [moves_rules]: "moves R (frame h)" "moves R (env k)" "moves R memory_len"
  unfolding frame_def env_def memory_len_def by (intro moves_rules)+

lemma moves_stack [moves_rules]: "moves R (on_stack m)" "moves R pop" "moves R (push v)" "moves R (on_memory k)"
  by (simp_all add: moves_def pop_def push_def on_stack_out on_memory_out stack memory)

lemma moves_charge [moves_rules]: "moves R (increase_consumed_gas n)"
  using same gas_used by (auto simp: moves_def increase_consumed_gas_def on_frame_out split: option.split)

lemma moves_set_frame [moves_rules]:
  "moves R (set_gas_used n)" "moves R (set_frame (cf_sub_return_data_update (\<lambda>_. dat)))"
  "moves R (set_frame (cf_output_update (\<lambda>_. dat)))" "moves R (set_frame (cf_logs_update k))"
  "moves R (set_frame (\<lambda>f. f\<lparr>cf_logs := q f\<rparr>))"
  unfolding moves_def set_gas_used_def set_frame_out snd_conv
  by (auto intro: gas_used return_data outputs logs) (subst cf_logs_update_out, rule logs)

lemma moves_topics [moves_rules]: "moves R (pop_topics n)"
  by (induction n) (auto intro!: moves_rules)

lemma moves_refund:
  assumes "moves R f"
  shows "moves R (sbind (env env_refunded_gas) (\<lambda>r. sbind (slift (sstore_refund slot v r))
    (\<lambda>n. sbind (set_env (env_refunded_gas_update (\<lambda>_. n))) (\<lambda>_. f))))"
proof
  fix s :: ctx
  let ?r = "sstore_refund slot v (env_refunded_gas (vm_env (c_vm s)))"
  show "R s (snd (sbind (env env_refunded_gas) (\<lambda>r. sbind (slift (sstore_refund slot v r))
      (\<lambda>n. sbind (set_env (env_refunded_gas_update (\<lambda>_. n))) (\<lambda>_. f))) s))"
    using refund [of slot v s] same movesD [OF assms]
    by (cases ?r) (auto simp: sbind_def sm_steps env_def set_env_def on_vm_def intro: trans)
qed

lemma moves_sstore: "moves R op_sstore"
  unfolding op_sstore_def by (intro moves_refund moves_rules)

lemma moves_arithmetic: "moves R (exec_arithmetic c)"
  unfolding exec_arithmetic_def
  by (cases c; simp add: frame_handler_defs; intro moves_rules)

lemma moves_comparison: "moves R (exec_comparison c)"
  unfolding exec_comparison_def
  by (cases c; simp add: frame_handler_defs; intro moves_rules)

lemma moves_block: "moves R (exec_block c)"
  unfolding exec_block_def
  by (cases c; simp add: frame_handler_defs; intro moves_rules)

lemma moves_environment: "moves R (exec_environment H c)"
  unfolding exec_environment_def
  by (cases c; simp add: frame_handler_defs; intro moves_rules)

lemma moves_flow: "c \<noteq> JUMP \<Longrightarrow> c \<noteq> JUMPI \<Longrightarrow> moves R (exec_flow c)"
  unfolding exec_flow_def using moves_sstore
  by (cases c; simp add: op_pop_def op_mload_def op_mstore_def op_mstore8_def op_sload_def op_pc_def op_msize_def
      op_gas_def op_jumpdest_def op_tload_def op_tstore_def op_mcopy_def; intro moves_rules)

lemma moves_generic_call:
  assumes "\<And>f. moves R (run_sub ex f)"
  shows "moves R (generic_call ex gas_limit val msg_sender to code_address stv is_static
    args_offset args_size ret_offset ret_size)"
  unfolding generic_call_def by (intro moves_rules assms)

lemma moves_generic_create:
  assumes "\<And>f. moves R (run_sub ex f)"
  shows "moves R (generic_create H ex val off k salt)"
  unfolding generic_create_def by (intro moves_rules assms)

lemma moves_system:
  assumes "\<And>f. moves R (run_sub ex f)"
  shows "moves R (exec_system H ex c)"
  unfolding exec_system_def op_call_def op_callcode_def op_delegatecall_def op_staticcall_def op_create_def op_create2_def
  by (cases c; simp add: frame_handler_defs;
      intro moves_rules moves_generic_create [OF assms] moves_generic_call [OF assms])

text \<open>Every instruction but those that move the program counter themselves.\<close>

lemma moves_exec_opcode:
  assumes "\<And>f. moves R (run_sub ex f)" "opc \<noteq> Flow JUMP" "opc \<noteq> Flow JUMPI" "\<forall>n. opc \<noteq> PUSH n"
  shows "moves R (exec_opcode H ex opc)"
proof -
  have "moves R (op_keccak256 H)" "moves R op_push0" "moves R (op_dup n)" "moves R (op_swap n)" "moves R (op_log n)" for n
    unfolding frame_handler_defs by (intro moves_rules)+
  then show ?thesis using moves_system [OF assms(1)] assms(2-4) moves_flow
    by (cases opc) (auto simp: exec_opcode_def moves_arithmetic moves_comparison moves_block moves_environment)
qed

end

text \<open>A relation that does not look at the program counter goes through whole instructions.\<close>

locale step_order = handler_order +
  assumes pc: "R s (s\<lparr>c_frame := (c_frame s)\<lparr>cf_pc := p\<rparr>\<rparr>)"
begin

lemma moves_pc [moves_rules]:
  "moves R (on_frame increment_pc)" "moves R (on_frame (increment_pc_by n))" "moves R (on_frame (jump a))"
  using same pc
  by (auto simp: moves_def on_frame_out increment_pc_def increment_pc_by_def jump_def split: option.split)

lemma moves_opcode:
  assumes "\<And>f. moves R (run_sub ex f)"
  shows "moves R (exec_opcode H ex opc)"
proof -
  have "moves R op_jump" "moves R op_jumpi" "moves R (op_push n)" for n
    unfolding op_jump_def op_jumpi_def op_push_def by (intro moves_rules)+
  then show ?thesis using moves_exec_opcode [OF assms, of opc H]
    by (cases "opc = Flow JUMP \<or> opc = Flow JUMPI \<or> (\<exists>n. opc = PUSH n)") (auto simp: exec_opcode_def exec_flow_def)
qed

lemma moves_step:
  assumes "\<And>f. moves R (run_sub ex f)"
  shows "moves R (exec_step H ex)"
proof -
  have "moves R (attempt (exec_opcode H ex opc))" for opc
    using moves_opcode [OF assms] by (simp add: moves_def snd_attempt)
  then show ?thesis unfolding exec_step_def by (intro moves_rules)
qed

end

section \<open>Relations between machines\<close>

text \<open>
  A relation that looks at the machine only and survives the restoration of a backup goes through
  whole executions, sub-contexts included.
\<close>

definition on_machines :: "(vm \<Rightarrow> vm \<Rightarrow> bool) \<Rightarrow> ctx \<Rightarrow> ctx \<Rightarrow> bool" where
  "on_machines Q s t \<longleftrightarrow> Q (c_vm s) (c_vm t)"

locale machine_order = state_order Q for Q :: "vm \<Rightarrow> vm \<Rightarrow> bool" +
  assumes vm_access_account: "moves Q (access_account a)"
    and vm_get_account: "moves Q (get_account a)" "moves Q (get_account_mut a)"
    and vm_access_slot: "moves Q (access_storage_slot a key)"
    and vm_balance: "moves Q (increase_account_balance a x)" "moves Q (decrease_account_balance a x)"
    and vm_nonce: "moves Q (increment_account_nonce a)"
    and vm_code: "moves Q (update_account_bytecode a code)"
    and vm_insert: "moves Q (insert_account a (account_new bal [] 1 Map.empty))"
    and vm_remove: "moves Q (remove_account a)"
    and vm_touch: "moves Q (touch a)"
    and vm_created: "moves Q (created_accounts_insert a)" "moves Q (created_accounts_remove a)"
    and vm_destroyed: "moves Q (selfdestruct_set_insert a)"
    and vm_storage: "moves Q (update_account_storage a key v)"
    and vm_transient: "Q m (vm_env_update (env_transient_storage_update ts) m)"
    and vm_refund: "sstore_refund slot v (env_refunded_gas (vm_env m)) = Ok n \<Longrightarrow>
      Q m (vm_env_update (env_refunded_gas_update (\<lambda>_. n)) m)"
    and vm_frames: "Q m (m\<lparr>vm_call_frames := fs\<rparr>)"
    and vm_restore: "Q m m' \<Longrightarrow> Q m (restore_state (take_backup m) m')"
begin

lemma moves_on_machines: "moves Q m \<Longrightarrow> moves (on_machines Q) (on_vm m)"
  by (auto simp: moves_def on_machines_def on_vm_def split: prod.split) (metis snd_conv)

end

sublocale machine_order \<subseteq> machine: step_order "on_machines Q"
proof
  show "moves (on_machines Q) (set_env (env_transient_storage_update ts))" for ts
    unfolding set_env_def by (rule moves_on_machines) (simp add: moves_def sm_steps vm_transient)
  show "on_machines Q s (s\<lparr>c_vm := vm_env_update (env_refunded_gas_update (\<lambda>_. n)) (c_vm s)\<rparr>)"
    if "sstore_refund slot v (env_refunded_gas (vm_env (c_vm s))) = Ok n" for slot v s n
    using vm_refund [OF that] by (simp add: on_machines_def)
  show "on_machines Q s u" if "on_machines Q s t" "on_machines Q t u" for s t u
    using that trans by (auto simp: on_machines_def)
qed (auto simp: on_machines_def same intro!: moves_on_machines vm_access_account vm_get_account vm_access_slot
  vm_balance vm_nonce vm_insert [simplified] vm_remove vm_touch vm_created vm_destroyed vm_storage)

context machine_order
begin

lemma moves_run_sub: "moves (on_machines Q) ex \<Longrightarrow> moves (on_machines Q) (run_sub ex f)"
  by (auto simp: moves_def on_machines_def run_sub_def split: prod.split) (metis ctx.select_convs(1) snd_conv)

end

text \<open>The ends of a frame and the whole execution, from the machine of the backup on.\<close>

definition since :: "(vm \<Rightarrow> vm \<Rightarrow> bool) \<Rightarrow> vm \<Rightarrow> ctx \<Rightarrow> ctx \<Rightarrow> bool" where
  "since Q m s t \<longleftrightarrow> (Q m (c_vm s) \<longrightarrow> Q m (c_vm t))"

sublocale machine_order \<subseteq> since: state_order "since Q m" for m
  by unfold_locales (auto simp: since_def)

context machine_order
begin

lemma since_moves: "moves (on_machines Q) k \<Longrightarrow> moves (since Q m) k"
  using trans by (fastforce simp: moves_def on_machines_def since_def)

lemma since_frame_ops [moves_rules]:
  "moves (since Q m) push_call_frame" "moves (since Q m) (set_frame h)" "moves (since Q m) (frame k)"
  "moves (since Q m) (frame_report r)" "moves (since Q m) (on_vm (update_account_bytecode a code))"
  "moves (since Q m) (on_vm (smodify (restore_state (take_backup m))))" "moves (since Q m) (validate_create code cost)"
proof -
  show "moves (since Q m) push_call_frame"
    by (rule since_moves) (simp add: moves_def push_call_frame_def sm_steps on_machines_def vm_frames)
  show "moves (since Q m) (set_frame h)" by (simp add: moves_def set_frame_out since_def)
  show "moves (since Q m) (frame k)" "moves (since Q m) (frame_report r)"
    unfolding frame_def frame_report_def by (intro moves_rules)+
  show "moves (since Q m) (on_vm (update_account_bytecode a code))"
    by (rule since_moves, rule moves_on_machines, rule vm_code)
  show "moves (since Q m) (on_vm (smodify (restore_state (take_backup m))))"
    by (simp add: moves_def on_vm_def sm_steps since_def vm_restore)
  have "moves (since Q m) (attempt (increase_consumed_gas cost))"
    using since_moves [OF machine.moves_charge, of m cost] by (simp add: moves_def snd_attempt)
  then show "moves (since Q m) (validate_create code cost)"
    unfolding validate_create_def by (auto intro!: moves_rules simp: frame_def split: sum.split)
qed

lemma since_finish:
  "moves (since Q m) (finish_error (take_backup m) e)" "moves (since Q m) (finish_success (take_backup m))"
  unfolding finish_error_def finish_success_def Let_def
  by (auto intro!: moves_rules split: sum.split)

lemma moves_execute_with:
  assumes "\<And>m. moves (since Q m) (loop (take_backup m))"
  shows "moves (on_machines Q) (execute_with H loop)"
proof
  fix s :: ctx
  show "on_machines Q s (snd (execute_with H loop s))"
  proof (cases "is_precompile (cf_code_address (c_frame s))")
    case True
    obtain r f where p: "execute_precompile H (c_frame s) = (r, f)" by fastforce
    show ?thesis using vm_frames [of "c_vm s"] vm_restore [OF vm_frames [of "c_vm s"]] same
      by (cases r) (simp_all add: execute_with_precompile [OF True] p Let_def pushed_def restored_def on_machines_def)
  next
    case False
    then show ?thesis using movesD [OF assms, of "c_vm s" s] same
      by (simp add: execute_with_loop since_def on_machines_def)
  qed
qed

lemma since_exec_loop: "moves (since Q m) (exec_loop H n (take_backup m))"
proof (induction n arbitrary: m)
  case 0
  then show ?case by (simp add: moves_def since_def)
next
  case (Suc n)
  have step: "moves (since Q m) (exec_step H (execute_with H (exec_loop H n)))"
    by (rule since_moves, rule machine.moves_step, rule moves_run_sub, rule moves_execute_with, rule Suc.IH)
  have "moves (since Q m) (case v of Inl e \<Rightarrow> finish_error (take_backup m) e
      | Inr r \<Rightarrow> (case r of Continue \<Rightarrow> exec_loop H n (take_backup m) | OpResult _ \<Rightarrow> finish_success (take_backup m)))" for v
    using Suc.IH since_finish by (simp split: sum.split opcode_success.split)
  then show ?case unfolding exec_loop.simps by (intro since.moves_bind step)
qed

lemma moves_execute_fuel: "moves (on_machines Q) (execute_fuel H n)"
  unfolding execute_fuel_def by (intro moves_execute_with since_exec_loop)

lemma execute_keeps: "Q (c_vm s) (c_vm (snd (execute H s)))"
  using movesD [OF moves_execute_fuel, of s] by (simp add: execute_def on_machines_def)

end

section \<open>The context of the transaction is fixed\<close>

text \<open>Everything of the machine but the cache, the substate, the finished frames and the two counters.\<close>

definition fixed_env :: "environment \<Rightarrow> environment" where
  "fixed_env e = e\<lparr>env_refunded_gas := 0, env_transient_storage := Map.empty\<rparr>"

definition same_context :: "vm \<Rightarrow> vm \<Rightarrow> bool" where
  "same_context v w \<longleftrightarrow>
     vm_db w = vm_db v \<and> vm_tx_kind w = vm_tx_kind v \<and> vm_access_list w = vm_access_list v \<and>
     fixed_env (vm_env w) = fixed_env (vm_env v)"

lemmas vm_operation_defs =
  access_account_def get_account_def get_account_mut_def access_storage_slot_def increase_account_balance_def
  decrease_account_balance_def increment_account_nonce_def update_account_bytecode_def insert_account_def
  remove_account_def touch_def created_accounts_insert_def created_accounts_remove_def selfdestruct_set_insert_def
  update_account_storage_def

lemma fixed_env_update [simp]:
  "fixed_env (e\<lparr>env_refunded_gas := n\<rparr>) = fixed_env e"
  "fixed_env (e\<lparr>env_refunded_gas := n, env_transient_storage := ts\<rparr>) = fixed_env e"
  "fixed_env (env_transient_storage_update h e) = fixed_env e"
  by (cases e; simp add: fixed_env_def)+

lemma vm_env_update_out: "vm_env (vm_env_update h v) = h (vm_env v)"
  by (cases v) simp

interpretation tx_context: machine_order same_context
  by unfold_locales
    (auto simp: same_context_def moves_def vm_operation_defs restore_state_def take_backup_def
      sbind_def sm_steps vm_env_update_out Let_def split: option.split result.split prod.split)

section \<open>Counters stay within their width\<close>

text \<open>The nonces and the refund counter are \<^verbatim>\<open>u64\<close> values of the code.\<close>

definition counters_ok :: "vm \<Rightarrow> bool" where
  "counters_ok v \<longleftrightarrow>
     env_refunded_gas (vm_env v) < u64_bound \<and>
     (\<forall>a acc. vm_cache v a = Some acc \<longrightarrow> ai_nonce (acc_info acc) < u64_bound) \<and>
     (\<forall>a. ai_nonce (get_account_info (vm_db v) a) < u64_bound)"

definition keeps_counters :: "vm \<Rightarrow> vm \<Rightarrow> bool" where
  "keeps_counters v w \<longleftrightarrow> vm_db w = vm_db v \<and> (counters_ok v \<longrightarrow> counters_ok w)"

lemma sstore_refund_bound: "sstore_refund slot v r = Ok n \<Longrightarrow> r < u64_bound \<Longrightarrow> n < u64_bound"
  by (auto simp: sstore_refund_def result_simps split: if_splits)

lemma counters_insert:
  "ai_nonce (acc_info acc) < u64_bound \<Longrightarrow> keeps_counters v (v\<lparr>vm_cache := (vm_cache v)(a \<mapsto> acc)\<rparr>)"
  by (auto simp: keeps_counters_def counters_ok_def)

lemma counters_substate: "keeps_counters v (v\<lparr>vm_substate := x\<rparr>)" "keeps_counters v (vm_substate_update h v)"
  by (cases v; auto simp: keeps_counters_def counters_ok_def)+

lemma counters_get_account_mut:
  obtains acc where "get_account_mut a v = (Ok acc, v\<lparr>vm_cache := (vm_cache v)(a \<mapsto> acc)\<rparr>)"
    "counters_ok v \<Longrightarrow> ai_nonce (acc_info acc) < u64_bound"
proof (cases "vm_cache v a")
  case (Some acc)
  then have "(vm_cache v)(a \<mapsto> acc) = vm_cache v" by auto
  then show thesis using that [of acc] Some by (simp add: get_account_mut_def counters_ok_def)
next
  case None
  then show thesis using that [of "load_account (vm_db v) a"]
    by (simp add: get_account_mut_def counters_ok_def load_account_def Let_def)
qed

lemma counters_update:
  assumes "\<And>acc x. g acc = Ok x \<Longrightarrow> ai_nonce (acc_info acc) < u64_bound \<Longrightarrow> ai_nonce (acc_info (h acc x)) < u64_bound"
  shows "moves keeps_counters (sbind (get_account_mut a)
    (\<lambda>acc. sbind (slift (g acc)) (\<lambda>x. sbind (insert_account a (h acc x)) (\<lambda>_. sreturn (q x)))))"
proof
  fix v :: vm
  obtain acc where m: "get_account_mut a v = (Ok acc, v\<lparr>vm_cache := (vm_cache v)(a \<mapsto> acc)\<rparr>)"
    "counters_ok v \<Longrightarrow> ai_nonce (acc_info acc) < u64_bound" using counters_get_account_mut [of a v] by blast
  show "keeps_counters v (snd (sbind (get_account_mut a)
    (\<lambda>acc. sbind (slift (g acc)) (\<lambda>x. sbind (insert_account a (h acc x)) (\<lambda>_. sreturn (q x)))) v))"
    using m assms [of acc]
    by (cases "g acc") (auto simp: sbind_def sm_steps insert_account_def keeps_counters_def counters_ok_def)
qed

lemma insert_account_return: "insert_account a acc = sbind (insert_account a acc) (\<lambda>_. sreturn ())"
  by (rule ext) (simp add: insert_account_def sbind_def sm_steps)

lemma counters_insert_op: "ai_nonce (acc_info acc) < u64_bound \<Longrightarrow> moves keeps_counters (insert_account a acc)"
  by (simp add: moves_def insert_account_def sm_steps counters_insert)

interpretation counters_order: state_order keeps_counters
  by unfold_locales (auto simp: keeps_counters_def)

lemma counters_accounts:
  "moves keeps_counters (get_account_mut a)" "moves keeps_counters (get_account a)"
  "moves keeps_counters (increase_account_balance a x)" "moves keeps_counters (decrease_account_balance a x)"
  "moves keeps_counters (increment_account_nonce a)" "moves keeps_counters (update_account_bytecode a code)"
  "moves keeps_counters (update_account_storage a key w)"
proof -
  have get: "keeps_counters v (v\<lparr>vm_cache := (vm_cache v)(a \<mapsto> load_account (vm_db v) a)\<rparr>)" for v :: vm
    by (auto simp: keeps_counters_def counters_ok_def load_account_def)
  then show "moves keeps_counters (get_account_mut a)" "moves keeps_counters (get_account a)"
    by (auto simp: moves_def get_account_mut_def get_account_def get_account_or_load_def Let_def counters_order.same
        split: option.split)
  show "moves keeps_counters (increase_account_balance a x)" "moves keeps_counters (decrease_account_balance a x)"
    unfolding increase_account_balance_def decrease_account_balance_def
    by (subst insert_account_return, rule counters_update, simp)+
  show "moves keeps_counters (increment_account_nonce a)"
    unfolding increment_account_nonce_def by (rule counters_update) (simp add: result_simps)
  have "sbind (slift (Ok ())) f = f ()" for f :: "unit \<Rightarrow> unit vm_m"
    by (rule ext) (simp add: sbind_def sm_steps)
  moreover have "sbind (insert_account a acc) sreturn = insert_account a acc" for acc
    by (rule ext) (simp add: insert_account_def sbind_def sm_steps)
  ultimately have plain: "moves keeps_counters (sbind (get_account_mut a) (\<lambda>acc. insert_account a (h acc)))"
    if "\<And>acc. ai_nonce (acc_info (h acc)) = ai_nonce (acc_info acc)" for h
    using counters_update [of "\<lambda>_. Ok ()" "\<lambda>acc _. h acc" a "\<lambda>_. ()"] that by simp
  show "moves keeps_counters (update_account_bytecode a code)"
    unfolding update_account_bytecode_def by (rule plain) simp
  show "moves keeps_counters (update_account_storage a key w)"
    unfolding update_account_storage_def Let_def by (rule plain) simp
qed

lemma counters_access_slot: "moves keeps_counters (access_storage_slot a key)"
proof -
  have "sbind (slift (Ok ())) f = f ()" for f :: "unit \<Rightarrow> (storage_slot \<times> bool) vm_m"
    by (rule ext) (simp add: sbind_def sm_steps)
  then have plain: "moves keeps_counters (sbind (get_account_mut a) (\<lambda>acc. sbind (insert_account a (h acc)) (\<lambda>_. sreturn q)))"
    if "\<And>acc. ai_nonce (acc_info (h acc)) = ai_nonce (acc_info acc)" for h and q :: "storage_slot \<times> bool"
    using counters_update [of "\<lambda>_. Ok ()" "\<lambda>acc _. h acc" a "\<lambda>_. q"] that by simp
  show ?thesis unfolding access_storage_slot_def
    by (intro counters_order.moves_bind moves_rules plain counters_order.moves_modify counters_substate) simp
qed

interpretation counters: machine_order keeps_counters
proof
  show "keeps_counters m (vm_env_update (env_refunded_gas_update (\<lambda>_. n)) m)"
    if "sstore_refund slot v (env_refunded_gas (vm_env m)) = Ok n" for slot v m n
    using sstore_refund_bound [OF that] by (cases m) (auto simp: keeps_counters_def counters_ok_def)
  show "keeps_counters m (restore_state (take_backup m) m')" if "keeps_counters m m'" for m m'
    using that by (auto simp: keeps_counters_def counters_ok_def restore_state_def take_backup_def)
  show "keeps_counters m (vm_env_update (env_transient_storage_update ts) m)" for m ts
    by (cases m) (auto simp: keeps_counters_def counters_ok_def)
  show "moves keeps_counters (access_account a)" "moves keeps_counters (touch a)"
    "moves keeps_counters (created_accounts_insert a)" "moves keeps_counters (created_accounts_remove a)"
    "moves keeps_counters (selfdestruct_set_insert a)" for a
    unfolding access_account_def touch_def created_accounts_insert_def created_accounts_remove_def selfdestruct_set_insert_def
    by (intro moves_rules counters_order.moves_modify counters_substate)+
  show "moves keeps_counters (insert_account a (account_new bal [] 1 Map.empty))" for a bal
    by (rule counters_insert_op) (simp add: account_new_def u64_bound_def)
  show "moves keeps_counters (remove_account a)" for a
    unfolding remove_account_def
    by (rule counters_order.moves_modify) (auto simp: keeps_counters_def counters_ok_def)
  show "keeps_counters m (m\<lparr>vm_call_frames := fs\<rparr>)" for m fs
    by (simp add: keeps_counters_def counters_ok_def)
qed (rule counters_accounts counters_access_slot)+

section \<open>The frame stays in its code\<close>

definition same_code :: "ctx \<Rightarrow> ctx \<Rightarrow> bool" where
  "same_code s t \<longleftrightarrow>
     cf_pc (c_frame t) = cf_pc (c_frame s) \<and> cf_bytecode (c_frame t) = cf_bytecode (c_frame s) \<and>
     cf_valid_jump_destinations (c_frame t) = cf_valid_jump_destinations (c_frame s)"

interpretation code: handler_order same_code
  by unfold_locales (auto simp: same_code_def moves_def on_vm_def set_env_def split: prod.split)

lemma code_run_sub: "moves same_code (run_sub ex f)"
  by (simp add: moves_def run_sub_def same_code_def split: prod.split)

text \<open>What a frame is created with stays.\<close>

definition same_identity :: "ctx \<Rightarrow> ctx \<Rightarrow> bool" where
  "same_identity s t \<longleftrightarrow>
     (\<forall>f g. c_frame s = f \<and> c_frame t = g \<longrightarrow>
       cf_gas_limit g = cf_gas_limit f \<and> cf_msg_sender g = cf_msg_sender f \<and> cf_to g = cf_to f \<and>
       cf_code_address g = cf_code_address f \<and> cf_bytecode g = cf_bytecode f \<and> cf_msg_value g = cf_msg_value f \<and>
       cf_calldata g = cf_calldata f \<and> cf_is_static g = cf_is_static f \<and> cf_depth g = cf_depth f \<and>
       cf_create_op_called g = cf_create_op_called f)"

interpretation identity: step_order same_identity
  by unfold_locales (auto simp: same_identity_def moves_def on_vm_def set_env_def split: prod.split)

lemma identity_step: "same_identity s (snd (exec_step H ex s))"
  by (rule movesD, rule identity.moves_step) (simp add: moves_def run_sub_def same_identity_def split: prod.split)

text \<open>
  The program counter is at the start of an instruction, and the recorded destinations are those of
  the code.
\<close>

definition code_ok :: "call_frame \<Rightarrow> bool" where
  "code_ok f \<longleftrightarrow>
     length (cf_bytecode f) + 33 < usize_bound \<and>
     cf_valid_jump_destinations f = jump_destinations_or_default (cf_bytecode f) \<and>
     instr_from (cf_bytecode f) 0 (cf_pc f)"

lemma jump_destinations_eq:
  "length code + 33 < usize_bound \<Longrightarrow> jump_destinations_or_default code = jumpdests code 0"
  by (simp add: jump_destinations_or_default_def get_valid_jump_destinations_def jump_destinations_loop_eq)

lemma exec_step_Continue:
  assumes "exec_step H ex s = (Ok (Inr Continue), t)"
  obtains u where "exec_opcode H ex (next_opcode (c_frame s)) s = (Ok Continue, u)"
    "next_opcode (c_frame s) = Flow JUMP \<or> next_opcode (c_frame s) = Flow JUMPI \<Longrightarrow> t = u"
    "next_opcode (c_frame s) \<noteq> Flow JUMP \<Longrightarrow> next_opcode (c_frame s) \<noteq> Flow JUMPI \<Longrightarrow>
       t = u\<lparr>c_frame := (c_frame u)\<lparr>cf_pc := Suc (cf_pc (c_frame u))\<rparr>\<rparr>"
proof -
  let ?opc = "next_opcode (c_frame s)"
  obtain r u where op: "exec_opcode H ex ?opc s = (r, u)" by fastforce
  show thesis
    using assms op that [of u] increment_pc_cases [of u]
    by (cases r) (auto simp: exec_step_def sbind_def frame_def sm_steps attempt_def split: if_splits)
qed

text \<open>The three instructions that move the program counter.\<close>

definition lands :: "ctx \<Rightarrow> ctx \<Rightarrow> nat set \<Rightarrow> bool" where
  "lands s t P \<longleftrightarrow>
     cf_pc (c_frame t) \<in> P \<and> cf_bytecode (c_frame t) = cf_bytecode (c_frame s) \<and>
     cf_valid_jump_destinations (c_frame t) = cf_valid_jump_destinations (c_frame s)"

lemma pc_lands:
  "on_frame (jump a) s = (Ok x, t) \<Longrightarrow> lands s t (cf_valid_jump_destinations (c_frame s))"
  "on_frame increment_pc s = (Ok x, t) \<Longrightarrow> lands s t {Suc (cf_pc (c_frame s))}"
  "on_frame (increment_pc_by n) s = (Ok x, t) \<Longrightarrow> lands s t {cf_pc (c_frame s) + n}"
  by (auto simp: on_frame_def jump_def is_valid_jump_addr_def increment_pc_def increment_pc_by_def checked_add_def lands_def
      split: option.splits if_splits)

lemma frame_read_Ok: "frame h s = (Ok x, t) \<Longrightarrow> t = s"
  by (simp add: frame_def sm_steps)

lemma same_code_charge: "increase_consumed_gas n s = (r, t) \<Longrightarrow> same_code s t"
  using movesD [OF code.moves_charge, of s n] by simp

lemma same_code_pop: "pop s = (r, t) \<Longrightarrow> same_code s t"
  using movesD [OF code.moves_stack(2), of s] by simp

lemma same_code_push: "push v s = (r, t) \<Longrightarrow> same_code s t"
  using movesD [OF code.moves_stack(3), of s v] by simp

lemma jump_lands:
  assumes "op_jump s = (Ok Continue, t)"
  shows "lands s t (cf_valid_jump_destinations (c_frame s))"
  using assms
  by (auto simp: op_jump_def sbind_eq_Ok sm_steps lands_def same_code_def dest!: same_code_charge same_code_pop pc_lands)

lemma jumpi_lands:
  assumes "op_jumpi s = (Ok Continue, t)"
  shows "lands s t (insert (Suc (cf_pc (c_frame s))) (cf_valid_jump_destinations (c_frame s)))"
  using assms
  by (auto simp: op_jumpi_def sbind_eq_Ok sm_steps lands_def same_code_def split: if_splits
      dest!: same_code_charge same_code_pop pc_lands)

lemma push_lands:
  assumes "op_push n s = (Ok Continue, t)"
  shows "lands s t {cf_pc (c_frame s) + n}"
  using assms
  by (auto simp: op_push_def sbind_eq_Ok sm_steps lands_def same_code_def
      dest!: same_code_charge same_code_push frame_read_Ok pc_lands)

text \<open>One instruction leads from the start of an instruction to the start of an instruction.\<close>

lemma exec_step_lands:
  assumes "exec_step H ex s = (Ok (Inr Continue), t)"
  shows "cf_pc (c_frame s) < length (cf_bytecode (c_frame s))"
    "lands s t (insert (cf_pc (c_frame s) + instr_width (cf_bytecode (c_frame s) ! cf_pc (c_frame s)))
       (cf_valid_jump_destinations (c_frame s)))"
proof -
  let ?opc = "next_opcode (c_frame s)" and ?pc = "cf_pc (c_frame s)" and ?code = "cf_bytecode (c_frame s)"
  obtain u where u: "exec_opcode H ex ?opc s = (Ok Continue, u)"
    "?opc = Flow JUMP \<or> ?opc = Flow JUMPI \<Longrightarrow> t = u"
    "?opc \<noteq> Flow JUMP \<Longrightarrow> ?opc \<noteq> Flow JUMPI \<Longrightarrow> t = u\<lparr>c_frame := (c_frame u)\<lparr>cf_pc := Suc (cf_pc (c_frame u))\<rparr>\<rparr>"
    using exec_step_Continue [OF assms] by blast
  have "?opc \<noteq> Arith STOP" using u(1) by (auto simp: exec_opcode_def exec_arithmetic_def sm_steps)
  then show len: "?pc < length ?code" by (auto simp: next_opcode_def split: if_splits)
  then have opc: "?opc = opcode_from_u8 (?code ! ?pc)" by (simp add: next_opcode_def)
  consider "?opc = Flow JUMP" | "?opc = Flow JUMPI" | n where "?opc = PUSH n"
    | "?opc \<noteq> Flow JUMP" "?opc \<noteq> Flow JUMPI" "\<forall>n. ?opc \<noteq> PUSH n" by blast
  then show "lands s t (insert (?pc + instr_width (?code ! ?pc)) (cf_valid_jump_destinations (c_frame s)))"
  proof cases
    case 1
    then show ?thesis using u jump_lands [of s t] by (auto simp: exec_opcode_def exec_flow_def lands_def)
  next
    case 2
    then show ?thesis using u jumpi_lands [of s t] opc
      by (auto simp: exec_opcode_def exec_flow_def lands_def instr_width_def)
  next
    case 3
    then show ?thesis using u push_lands [of n s u] opc by (auto simp: exec_opcode_def lands_def instr_width_def)
  next
    case 4
    then have "same_code s u" using movesD [OF code.moves_exec_opcode [OF code_run_sub], of ?opc s H ex] u(1) by simp
    moreover have "instr_width (?code ! ?pc) = 1" using 4(3) opc by (auto simp: instr_width_def split: opcode.split)
    ultimately show ?thesis using u(3) 4 by (auto simp: lands_def same_code_def)
  qed
qed

lemma exec_step_code_ok:
  assumes "code_ok (c_frame s)" "exec_step H ex s = (Ok (Inr Continue), t)"
  shows "code_ok (c_frame t) \<and> cf_bytecode (c_frame t) = cf_bytecode (c_frame s)"
  using exec_step_lands [OF assms(2)] assms(1) instr_from.following [of "cf_bytecode (c_frame s)" 0 "cf_pc (c_frame s)"]
  by (auto simp: code_ok_def lands_def jump_destinations_eq jumpdests_def)

end
