(* ===== verification/Evm_Words.thy ===== *)
theory Evm_Words
  imports Evm_Safety "HOL-Library.Signed_Division"
begin

text \<open>
  The arithmetic of the instructions against its mathematical meaning: signed operations against
  integers, the loops that stand for shifts against bit operations, the 512-bit intermediate results
  of \<^verbatim>\<open>ADDMOD\<close> and \<^verbatim>\<open>MULMOD\<close>. \<open>binary_spec\<close> is the table of reference functions; the theorem on the
  interpreter covers every instruction it lists.
\<close>

section \<open>Signs\<close>

lemma negate_eq: "negate v = - v"
  by (simp add: negate_def minus_eq_not_plus_1)

lemma is_negative_iff: "is_negative v \<longleftrightarrow> sint v < 0"
  using bit_last_iff [of v] by (simp add: is_negative_def)

lemma sint_range: "- (2 ^ 255) \<le> sint (v :: u256)" "sint (v :: u256) < 2 ^ 255"
  using sint_ge [of v] sint_lt [of v] by simp_all

lemma uint_mod_sint: "uint (v :: u256) = sint v mod 2 ^ 256"
  using uint_sint [of v] by (simp add: take_bit_eq_mod)

lemma uint_nonneg_sint: "0 \<le> sint v \<Longrightarrow> uint (v :: u256) = sint v"
  using sint_range [of v] by (simp add: uint_mod_sint)

lemma uint_neg_sint: "sint v < 0 \<Longrightarrow> uint (v :: u256) = sint v + 2 ^ 256"
  using sint_range [of v] mod_add_self2 [of "sint v" "2 ^ 256"] mod_pos_pos_trivial [of "sint v + 2 ^ 256" "2 ^ 256"]
  by (simp add: uint_mod_sint)

lemma uint_abs: "uint (abs_u256 v) = \<bar>sint v\<bar>"
proof (cases "sint v < 0")
  case True
  have "uint (- v) = - sint v mod 2 ^ 256"
    by (simp only: uint_word_ariths(4) uint_mod_sint [of v]) (simp add: mod_minus_eq)
  also have "\<dots> = - sint v" using True sint_range [of v] by simp
  finally show ?thesis using True by (simp add: abs_u256_def is_negative_iff negate_eq)
qed (simp add: abs_u256_def is_negative_iff uint_nonneg_sint)

lemma sint_0_iff: "sint (v :: u256) = 0 \<longleftrightarrow> v = 0"
  by (rule signed_eq_0_iff)

lemma abs_u256_zero: "abs_u256 v = 0 \<longleftrightarrow> v = 0"
proof -
  have "abs_u256 v = 0 \<longleftrightarrow> uint (abs_u256 v) = 0" by (simp only: unsigned_eq_0_iff)
  then show ?thesis by (simp only: uint_abs abs_eq_0 sint_0_iff)
qed

lemma abs_u256_word: "abs_u256 v = word_of_int \<bar>sint v\<bar>"
  using word_of_int_uint [of "abs_u256 v"] by (simp only: uint_abs)

lemma div_abs: "abs_u256 a div abs_u256 b = word_of_int (\<bar>sint a\<bar> div \<bar>sint b\<bar>)"
  using word_of_int_uint [of "abs_u256 a div abs_u256 b"] by (simp only: uint_div uint_abs)

lemma mod_abs: "abs_u256 a mod abs_u256 b = word_of_int (\<bar>sint a\<bar> mod \<bar>sint b\<bar>)"
  using word_of_int_uint [of "abs_u256 a mod abs_u256 b"] by (simp only: uint_mod uint_abs)

lemma sdiv_eq:
  assumes "a \<noteq> 0" "b \<noteq> 0"
  shows "sdiv_u256 a b = word_of_int (sint a sdiv sint b)"
proof -
  have "sint a \<noteq> 0" "sint b \<noteq> 0" using assms by (simp_all add: sint_0_iff)
  then show ?thesis using assms(2)
    by (auto simp: sdiv_u256_def u256_checked_div_def abs_u256_zero div_abs negate_eq is_negative_iff
        signed_divide_int_def sgn_if)
qed

lemma smod_eq:
  assumes "b \<noteq> 0"
  shows "(if is_negative a then negate (abs_u256 a mod abs_u256 b) else abs_u256 a mod abs_u256 b) =
    word_of_int (sint a smod sint b)"
  by (auto simp: mod_abs negate_eq is_negative_iff signed_modulo_int_def sgn_if)

lemma less_iff_sint: "sint a < 0 \<longleftrightarrow> sint b < 0 \<Longrightarrow> a < (b :: u256) \<longleftrightarrow> sint a < sint b"
  by (cases "sint a < 0"; cases "sint b < 0")
    (simp_all add: word_less_def uint_neg_sint uint_nonneg_sint not_less del: uint_mod_sint)

lemma slt_eq: "(if bit (a :: u256) 255 = bit b 255 then a < b else bit a 255) \<longleftrightarrow> sint a < sint b"
proof -
  have sign: "bit v 255 \<longleftrightarrow> sint v < 0" for v :: u256
    using is_negative_iff [of v] by (simp only: is_negative_def)
  show ?thesis
  proof (cases "sint a < 0 \<longleftrightarrow> sint b < 0")
    case True
    then show ?thesis unfolding sign by (simp only: less_iff_sint simp_thms if_True)
  next
    case False
    then show ?thesis unfolding sign by (simp only: if_False) linarith
  qed
qed

section \<open>Shifts\<close>

lemma less_one_word: "(w :: u256) < 1 \<longleftrightarrow> w = 0"
  by (simp add: word_less_nat_alt unsigned_eq_0_iff)

lemma two_pow_255: "(2 :: u256) ^ 255 * 2 = 0"
proof -
  have "(2 :: u256) ^ 255 * 2 = 2 ^ Suc 255" by (rule power_Suc2 [symmetric])
  also have "\<dots> = 2 ^ LENGTH(256)" by (rule arg_cong [of _ _ "power 2"]) simp
  also have "\<dots> = 0" by (rule word_exp_length_eq_0)
  finally show ?thesis .
qed

lemma shift_left_loop_eq: "shift_left_loop n v = Ok (push_bit n v)"
proof (induction n arbitrary: v)
  case (Suc n)
  have "(if unat v * 2 < 2 ^ 256 then Ok (v * 2) else
      rbind (ok_or (u256_checked_sub v (2 ^ 255)) (Internal ArithmeticOperationUnderflow)) (\<lambda>p.
        ok_or (u256_checked_mul p 2) (Internal ArithmeticOperationOverflow))) = Ok (v * 2)"
  proof (cases "unat v * 2 < 2 ^ 256")
    case False
    have p: "unat (2 ^ 255 :: u256) = 2 ^ 255" by simp
    then have le: "2 ^ 255 \<le> v" using False by (simp add: word_le_nat_alt)
    then have "unat (v - 2 ^ 255) = unat v - 2 ^ 255" by (simp add: unat_sub)
    moreover have "unat v < 2 ^ 256" by (rule order_less_le_trans [OF unsigned_less]) simp
    ultimately have "u256_checked_mul (v - 2 ^ 255) 2 = Some ((v - 2 ^ 255) * 2)"
      by (simp add: u256_checked_mul_def)
    moreover have "(v - 2 ^ 255) * 2 = v * 2"
      using two_pow_255 by (simp only: left_diff_distrib) simp
    ultimately show ?thesis using False le by (simp only: u256_checked_sub_def) simp
  qed simp
  then show ?case using Suc.IH by (auto simp: u256_checked_mul_def push_bit_Suc split: if_splits)
qed simp

lemma checked_shift_left_eq: "checked_shift_left v s = Ok (push_bit (unat s) v)"
  by (simp add: checked_shift_left_def shift_left_loop_eq)

lemma shift_right_loop_eq: "shift_right_loop n v = Ok (drop_bit n v)"
  by (induction n arbitrary: v) (simp_all add: u256_checked_div_def drop_bit_Suc)

lemma checked_shift_right_eq: "checked_shift_right v s = Ok (drop_bit (unat s) v)"
  by (simp add: checked_shift_right_def shift_right_loop_eq)

lemma arithmetic_shift_right_eq:
  assumes "s < 256"
  shows "arithmetic_shift_right v s = Ok (signed_drop_bit (unat s) v)"
proof -
  have s: "unat s < 256" using assms by (simp add: word_less_nat_alt)
  have m: "u256_checked_sub 256 s = Some (256 - s)" using assms by (simp only: u256_checked_sub_def less_imp_le if_True)
  have d: "unat (256 - s) = 256 - unat s" using assms by (simp add: unat_sub)
  show ?thesis
  proof (cases "bit v 255")
    case True
    then have "or (drop_bit (unat s) v) (push_bit (256 - unat s) (- 1)) = signed_drop_bit (unat s) v"
      using s by (intro bit_word_eqI) (auto simp: bit_simps dest: bit_imp_le_length)
    then show ?thesis using True
      by (simp only: arithmetic_shift_right_def checked_shift_left_eq checked_shift_right_eq m d
          ok_or.simps rbind.simps if_True)
  next
    case False
    then have "drop_bit (unat s) v = signed_drop_bit (unat s) v"
      using s by (intro bit_word_eqI) (auto simp: bit_simps dest: bit_imp_le_length)
    then show ?thesis using False by (simp only: arithmetic_shift_right_def checked_shift_right_eq if_False)
  qed
qed

lemma signextend_eq:
  assumes "b \<le> 31"
  shows "signextend_u256 b v = Ok (signed_take_bit (8 * unat b + 7) v)"
proof -
  let ?i = "8 * unat b + 7"
  have b: "unat b \<le> 31" using assms by (simp add: word_le_nat_alt)
  then have u: "unat (8 * b) = 8 * unat b" by (subst unat_mult_lem [THEN iffD1]) simp_all
  then have i: "unat (8 * b + 7) = ?i" using b by (subst unat_add_lem [THEN iffD1]) simp_all
  have ck: "u256_checked_mul 8 b = Some (8 * b)" "u256_checked_add (8 * b) 7 = Some (8 * b + 7)"
    using b u by (simp_all add: u256_checked_mul_def u256_checked_add_def)
  have "push_bit ?i (1 :: u256) \<noteq> 0" using b bit_push_bit_iff [of ?i "1 :: u256" ?i] by auto
  then have "1 \<le> push_bit ?i (1 :: u256)" by (simp only: linorder_not_less [symmetric] less_one_word not_False_eq_True)
  then have sub: "u256_checked_sub (2 ^ ?i :: u256) 1 = Some (mask ?i)"
    by (simp add: u256_checked_sub_def mask_eq_exp_minus_1 push_bit_eq_mult)
  have sign: "and (drop_bit ?i v) 1 = (if bit v ?i then 1 else 0)"
    by (simp add: and_one_eq bit_iff_odd_drop_bit mod2_eq_if)
  have "and v (mask ?i) = signed_take_bit ?i v" if "\<not> bit v ?i"
    using that by (simp add: signed_take_bit_eq_if_positive take_bit_eq_mask)
  moreover have "or v (not (mask ?i)) = signed_take_bit ?i v" if "bit v ?i"
    using that by (intro bit_word_eqI) (auto simp: signed_take_bit_eq_if_negative bit_simps)
  ultimately show ?thesis
    by (simp add: signextend_u256_def ck checked_shift_left_eq checked_shift_right_eq i sub sign Let_def)
qed

section \<open>512-bit intermediate results\<close>

lemma u512_rem_eq: "m \<noteq> 0 \<Longrightarrow> u512_rem (Some n) m = Ok (of_nat (n mod unat m))"
proof -
  assume m: "m \<noteq> 0"
  then have "n mod unat m < unat m" by (intro mod_less_divisor) (simp add: unsigned_eq_0_iff flip: neq0_conv)
  also have "unat m < 2 ^ 256" by (rule order_less_le_trans [OF unsigned_less]) simp
  finally show ?thesis using m by (simp add: u512_rem_def)
qed

lemma u512_sum: "checked_add (2 ^ 512) (unat (a :: u256)) (unat (b :: u256)) = Some (unat a + unat b)"
proof -
  have "unat w < 2 ^ 256" for w :: u256 by (rule order_less_le_trans [OF unsigned_less]) simp
  from this [of a] this [of b] have "unat a + unat b < 2 ^ 256 + 2 ^ 256" by (rule add_strict_mono)
  then show ?thesis by (simp add: checked_add_def)
qed

lemma u512_product: "checked_mul (2 ^ 512) (unat (a :: u256)) (unat (b :: u256)) = Some (unat a * unat b)"
proof -
  have "unat w < 2 ^ 256" for w :: u256 by (rule order_less_le_trans [OF unsigned_less]) simp
  from this [of a] this [of b] have "unat a * unat b < 2 ^ 256 * 2 ^ 256" by (rule mult_strict_mono') simp_all
  then show ?thesis by (simp add: checked_mul_def)
qed

section \<open>Reference semantics of the instructions on words\<close>

text \<open>The result of an instruction on its operands, the top of the stack first.\<close>

definition arithmetic_spec :: "arithmetic_op \<Rightarrow> (u256 \<Rightarrow> u256 \<Rightarrow> u256) option" where
  "arithmetic_spec c =
     (case c of
        ADD \<Rightarrow> Some (\<lambda>a b. of_nat ((unat a + unat b) mod 2 ^ 256))
      | MUL \<Rightarrow> Some (\<lambda>a b. of_nat ((unat a * unat b) mod 2 ^ 256))
      | SUB \<Rightarrow> Some (\<lambda>a b. of_int ((uint a - uint b) mod 2 ^ 256))
      | DIV \<Rightarrow> Some (\<lambda>a b. if b = 0 then 0 else of_nat (unat a div unat b))
      | SDIV \<Rightarrow> Some (\<lambda>a b. if b = 0 then 0 else of_int (sint a sdiv sint b))
      | MOD \<Rightarrow> Some (\<lambda>a b. if b = 0 then 0 else of_nat (unat a mod unat b))
      | SMOD \<Rightarrow> Some (\<lambda>a b. if b = 0 then 0 else of_int (sint a smod sint b))
      | EXP \<Rightarrow> Some (\<lambda>a b. of_nat (unat a ^ unat b mod 2 ^ 256))
      | SIGNEXTEND \<Rightarrow> Some (\<lambda>a b. if unat a < 32 then signed_take_bit (8 * unat a + 7) b else b)
      | _ \<Rightarrow> None)"

definition comparison_spec :: "comparison_op \<Rightarrow> (u256 \<Rightarrow> u256 \<Rightarrow> u256) option" where
  "comparison_spec c =
     (case c of
        LT \<Rightarrow> Some (\<lambda>a b. of_bool (unat a < unat b))
      | GT \<Rightarrow> Some (\<lambda>a b. of_bool (unat b < unat a))
      | SLT \<Rightarrow> Some (\<lambda>a b. of_bool (sint a < sint b))
      | SGT \<Rightarrow> Some (\<lambda>a b. of_bool (sint b < sint a))
      | EQ \<Rightarrow> Some (\<lambda>a b. of_bool (unat a = unat b))
      | AND \<Rightarrow> Some and
      | OR \<Rightarrow> Some or
      | XOR \<Rightarrow> Some xor
      | BYTE \<Rightarrow> Some (\<lambda>a b. if unat a < 32 then take_bit 8 (drop_bit (8 * (31 - unat a)) b) else 0)
      | SHL \<Rightarrow> Some (\<lambda>a b. push_bit (unat a) b)
      | SHR \<Rightarrow> Some (\<lambda>a b. drop_bit (unat a) b)
      | SAR \<Rightarrow> Some (\<lambda>a b. signed_drop_bit (unat a) b)
      | _ \<Rightarrow> None)"

definition binary_spec :: "opcode \<Rightarrow> (u256 \<Rightarrow> u256 \<Rightarrow> u256) option" where
  "binary_spec opc =
     (case opc of Arith c \<Rightarrow> arithmetic_spec c | Cmp c \<Rightarrow> comparison_spec c | _ \<Rightarrow> None)"

text \<open>Its price: constant, but for \<^verbatim>\<open>EXP\<close>, which pays for every byte of the exponent.\<close>

definition binary_price :: "opcode \<Rightarrow> u256 \<Rightarrow> nat" where
  "binary_price opc b =
     (case opc of
        Arith c \<Rightarrow> if c = EXP then 10 + 50 * ((u256_bits b + 7) div 8) else arithmetic_gas c
      | Cmp c \<Rightarrow> comparison_gas c
      | _ \<Rightarrow> 0)"

section \<open>Running the primitives\<close>

definition with_stack :: "nat \<Rightarrow> stack \<Rightarrow> ctx \<Rightarrow> ctx" where
  "with_stack g st s = s\<lparr>c_frame := (c_frame s)\<lparr>cf_gas_used := g, cf_stack := st\<rparr>\<rparr>"

lemma with_stack_same: "with_stack (cf_gas_used (c_frame s)) (cf_stack (c_frame s)) s = s"
  by (simp add: with_stack_def)

named_theorems run_simps "primitives on a frame with a known stack and gas"

lemma run_charge [run_simps]:
  assumes "g + c \<le> cf_gas_limit (c_frame s)" "cf_gas_limit (c_frame s) < u64_bound"
  shows "sbind (increase_consumed_gas c) k (with_stack g st s) = k () (with_stack (g + c) st s)"
  using assms
  by (cases "c_frame s") (simp add: increase_consumed_gas_def sbind_def on_frame_def with_stack_def checked_add_def)

lemma run_pop [run_simps]:
  "sbind pop k (with_stack g (st @ [x]) s) = k x (with_stack g st s)"
  "sbind pop k (with_stack g (st @ [y, x]) s) = k x (with_stack g (st @ [y]) s)"
  "sbind pop k (with_stack g (st @ [z, y, x]) s) = k x (with_stack g (st @ [z, y]) s)"
  by (simp_all add: pop_def stack_pop_def sbind_def on_stack_def with_stack_def butlast_append)

lemma run_push [run_simps]:
  "length st < STACK_LIMIT \<Longrightarrow> sbind (push v) k (with_stack g st s) = k () (with_stack g (st @ [v]) s)"
  by (simp add: push_def stack_push_def sbind_def on_stack_def with_stack_def)

lemma run_lift [run_simps]: "sbind (slift (Ok x)) k s = k x s"
  by (simp add: sbind_def sm_steps)

lemma run_return [run_simps]: "sreturn x s = (Ok x, s)"
  by (simp add: sm_steps)

section \<open>The instructions compute their reference function\<close>

lemma of_nat_mod_256: "of_nat (n mod 2 ^ 256) = (of_nat n :: u256)"
  by (simp add: unat_of_nat word_unat_eq_iff)

lemma word_arith_eqs:
  "of_nat ((unat a + unat b) mod 2 ^ 256) = (a + b :: u256)"
  "of_nat ((unat a * unat b) mod 2 ^ 256) = (a * b :: u256)"
  "of_nat (unat a ^ n mod 2 ^ 256) = (a ^ n :: u256)"
  unfolding of_nat_mod_256 by simp_all

lemma word_div_eqs:
  "of_nat (unat a div unat b) = (a div b :: u256)"
  "of_nat (unat a mod unat b) = (a mod b :: u256)"
  by (simp_all flip: unat_div unat_mod)

lemma word_sub_eq: "of_int ((uint a - uint b) mod 2 ^ 256) = (a - b :: u256)"
proof -
  have "of_int ((uint a - uint b) mod 2 ^ LENGTH(256)) = (word_of_int (uint a - uint b) :: u256)"
    by (simp only: word_uint_eq_iff uint_word_of_int mod_mod_trivial)
  moreover have "LENGTH(256) = 256" by simp
  ultimately show ?thesis by (simp only: word_sub_wi)
qed

lemma byte_eq: "ucast (u256_byte w i) = take_bit 8 (drop_bit (8 * i) w)"
  by (simp add: u256_byte_def unsigned_ucast_eq)

lemma gas_exp_eq: "gas_exp e = Ok (10 + 50 * ((u256_bits e + 7) div 8))"
proof -
  have "unat e < 2 ^ 256" by (rule order_less_le_trans [OF unsigned_less]) simp
  then have "u256_bits e \<le> 256" by (simp add: u256_bits_def floorlog_leI)
  moreover from this have "(u256_bits e + 7) div 8 \<le> 32" by simp
  ultimately show ?thesis
    by (simp add: gas_exp_def checked_add_def checked_mul_def usize_bound_def u64_bound_def Let_def)
qed

text \<open>The reference functions in the words the handlers compute with.\<close>

lemma arithmetic_spec_words:
  "arithmetic_spec ADD = Some (\<lambda>a b. a + b)"
  "arithmetic_spec MUL = Some (\<lambda>a b. a * b)"
  "arithmetic_spec SUB = Some (\<lambda>a b. a - b)"
  "arithmetic_spec EXP = Some (\<lambda>a b. a ^ unat b)"
  "arithmetic_spec DIV = Some (\<lambda>a b. case u256_checked_div a b of None \<Rightarrow> 0 | Some q \<Rightarrow> q)"
  "arithmetic_spec MOD = Some (\<lambda>a b. case u256_checked_rem a b of Some r \<Rightarrow> r | None \<Rightarrow> 0)"
  unfolding arithmetic_spec_def arithmetic_op.case word_arith_eqs word_div_eqs word_sub_eq
  by (simp_all add: u256_checked_div_def u256_checked_rem_def fun_eq_iff)

lemma arithmetic_spec_signed:
  "arithmetic_spec SDIV = Some (\<lambda>a b. if b = 0 \<or> a = 0 then 0 else sdiv_u256 a b)"
  "arithmetic_spec SMOD = Some (\<lambda>a b. if b = 0 \<or> a = 0 then 0
     else if is_negative a then negate (abs_u256 a mod abs_u256 b) else abs_u256 a mod abs_u256 b)"
proof -
  have "of_int (sint (0 :: u256) sdiv sint b) = (0 :: u256)" "of_int (sint (0 :: u256) smod sint b) = (0 :: u256)" for b :: u256
    by (simp_all add: signed_divide_int_def signed_modulo_int_def)
  then show "arithmetic_spec SDIV = Some (\<lambda>a b. if b = 0 \<or> a = 0 then 0 else sdiv_u256 a b)"
    "arithmetic_spec SMOD = Some (\<lambda>a b. if b = 0 \<or> a = 0 then 0
       else if is_negative a then negate (abs_u256 a mod abs_u256 b) else abs_u256 a mod abs_u256 b)"
    unfolding arithmetic_spec_def arithmetic_op.case option.inject fun_eq_iff
    by (auto simp only: sdiv_eq smod_eq [symmetric] de_Morgan_disj if_True if_False simp_thms split: if_split)
qed

lemma arithmetic_spec_none:
  "arithmetic_spec STOP = None" "arithmetic_spec ADDMOD = None" "arithmetic_spec MULMOD = None"
  by (simp_all add: arithmetic_spec_def)

lemma exec_arithmetic_spec:
  assumes spec: "arithmetic_spec c = Some f" and st: "length st < STACK_LIMIT"
    and gas: "g + binary_price (Arith c) b \<le> cf_gas_limit (c_frame s)" "cf_gas_limit (c_frame s) < u64_bound"
  shows "exec_arithmetic c (with_stack g (st @ [b, a]) s) =
    (Ok Continue, with_stack (g + binary_price (Arith c) b) (st @ [f a b]) s)"
proof (cases c)
  case SDIV
  have "f a b = (if b = 0 \<or> a = 0 then 0 else sdiv_u256 a b)"
    using spec unfolding SDIV arithmetic_spec_signed option.inject by blast
  then show ?thesis using SDIV st gas by (simp add: exec_arithmetic_def binary_price_def op_sdiv_def run_simps)
next
  case SMOD
  have "f a b = (if b = 0 \<or> a = 0 then 0
      else if is_negative a then negate (abs_u256 a mod abs_u256 b) else abs_u256 a mod abs_u256 b)"
    using spec unfolding SMOD arithmetic_spec_signed option.inject by blast
  then show ?thesis using SMOD st gas
    by (simp add: exec_arithmetic_def binary_price_def op_smod_def run_simps u256_checked_rem_def abs_u256_zero)
next
  case SIGNEXTEND
  have "unat a < 32 \<longleftrightarrow> \<not> 31 < a" by (auto simp: word_less_nat_alt)
  then show ?thesis using SIGNEXTEND spec st gas
    by (auto simp: arithmetic_spec_def exec_arithmetic_def binary_price_def op_signextend_def run_simps
        signextend_eq not_less)
qed (use spec st gas in \<open>auto simp: arithmetic_spec_words arithmetic_spec_none exec_arithmetic_def binary_price_def
  op_add_def op_mul_def op_sub_def op_div_def op_mod_def op_exp_def run_simps gas_exp_eq split: option.split\<close>)

lemma shift_spec_words:
  fixes v sh :: u256
  shows "push_bit (unat sh) v = (if sh < 256 then push_bit (unat sh) v else 0)"
    "drop_bit (unat sh) v = (if sh < 256 then drop_bit (unat sh) v else 0)"
    "signed_drop_bit (unat sh) v = (if sh < 256 then signed_drop_bit (unat sh) v else if bit v 255 then - 1 else 0)"
proof -
  have big: "256 \<le> unat sh" if "\<not> sh < 256" using that by (simp add: word_less_nat_alt)
  show "push_bit (unat sh) v = (if sh < 256 then push_bit (unat sh) v else 0)"
    using big by (auto intro!: bit_word_eqI simp: bit_simps)
  show "drop_bit (unat sh) v = (if sh < 256 then drop_bit (unat sh) v else 0)"
    using big by (auto intro!: bit_word_eqI simp: bit_simps dest: bit_imp_le_length)
  show "signed_drop_bit (unat sh) v = (if sh < 256 then signed_drop_bit (unat sh) v else if bit v 255 then - 1 else 0)"
    using big by (auto intro!: bit_word_eqI simp: bit_simps)
qed

lemma byte_index_cases:
  "unat a < 32 \<Longrightarrow> u256_to_usize a = Some (unat a)"
  "\<not> unat a < 32 \<Longrightarrow> u256_to_usize a = None \<or> (\<exists>i. u256_to_usize a = Some i \<and> 32 \<le> i)"
  by (auto simp: u256_to_usize_def usize_bound_def)

lemma exec_comparison_spec:
  assumes spec: "comparison_spec c = Some f" and st: "length st < STACK_LIMIT"
    and gas: "g + comparison_gas c \<le> cf_gas_limit (c_frame s)" "cf_gas_limit (c_frame s) < u64_bound"
  shows "exec_comparison c (with_stack g (st @ [b, a]) s) =
    (Ok Continue, with_stack (g + comparison_gas c) (st @ [f a b]) s)"
proof -
  note defs = comparison_spec_def exec_comparison_def run_simps
  show ?thesis
  proof (cases c)
    case BYTE
    then show ?thesis
    proof (cases "unat a < 32")
      case True
      then show ?thesis using BYTE spec st gas byte_index_cases(1) [OF True]
        by (auto simp: defs op_byte_def WORD_SIZE_def checked_sub_def byte_eq)
    next
      case False
      then show ?thesis using BYTE spec st gas byte_index_cases(2) [OF False]
        by (auto simp: defs op_byte_def WORD_SIZE_def)
    qed
  next
    case SHL
    then have "f a b = (if a < 256 then push_bit (unat a) b else 0)"
      using spec by (intro trans [OF _ shift_spec_words(1)]) (auto simp: comparison_spec_def)
    then show ?thesis using SHL st gas by (simp add: defs op_shl_def checked_shift_left_eq)
  next
    case SHR
    then have "f a b = (if a < 256 then drop_bit (unat a) b else 0)"
      using spec by (intro trans [OF _ shift_spec_words(2)]) (auto simp: comparison_spec_def)
    then show ?thesis using SHR st gas by (simp add: defs op_shr_def checked_shift_right_eq)
  next
    case SAR
    then have "f a b = (if a < 256 then signed_drop_bit (unat a) b else if bit b 255 then - 1 else 0)"
      using spec by (intro trans [OF _ shift_spec_words(3)]) (auto simp: comparison_spec_def)
    then show ?thesis using SAR st gas by (simp add: defs op_sar_def arithmetic_shift_right_eq)
  next
    case SLT
    then have "f a b = u256_from_bool (if bit a 255 = bit b 255 then a < b else bit a 255)"
      using spec unfolding slt_eq by (auto simp: comparison_spec_def u256_from_bool_def)
    then show ?thesis using SLT st gas by (simp add: defs op_slt_def)
  next
    case SGT
    then have "f a b = u256_from_bool (if bit b 255 = bit a 255 then b < a else bit b 255)"
      using spec unfolding slt_eq by (auto simp: comparison_spec_def u256_from_bool_def)
    then show ?thesis using SGT st gas by (auto simp: defs op_sgt_def)
  qed (use spec st gas in \<open>auto simp: defs op_lt_def op_gt_def op_eq_def op_and_def op_or_def op_xor_def
    u256_from_bool_def word_less_nat_alt word_unat_eq_iff\<close>)
qed

lemma exec_binary_spec:
  assumes "binary_spec opc = Some f" "length st < STACK_LIMIT"
    "g + binary_price opc b \<le> cf_gas_limit (c_frame s)" "cf_gas_limit (c_frame s) < u64_bound"
  shows "exec_opcode H ex opc (with_stack g (st @ [b, a]) s) =
    (Ok Continue, with_stack (g + binary_price opc b) (st @ [f a b]) s)"
proof (cases opc)
  case (Arith c)
  then show ?thesis using assms exec_arithmetic_spec by (simp add: binary_spec_def exec_opcode_def)
next
  case (Cmp c)
  then show ?thesis using assms exec_comparison_spec by (simp add: binary_spec_def binary_price_def exec_opcode_def)
qed (use assms(1) in \<open>simp_all add: binary_spec_def\<close>)

text \<open>The instructions with a 512-bit intermediate result.\<close>

lemma exec_addmod:
  assumes "length st < STACK_LIMIT" "g + 8 \<le> cf_gas_limit (c_frame s)" "cf_gas_limit (c_frame s) < u64_bound"
  shows "exec_opcode H ex (Arith ADDMOD) (with_stack g (st @ [m, b, a]) s) =
      (Ok Continue, with_stack (g + 8) (st @ [of_nat (if m = 0 then 0 else (unat a + unat b) mod unat m)]) s)"
    "exec_opcode H ex (Arith MULMOD) (with_stack g (st @ [m, b, a]) s) =
      (Ok Continue, with_stack (g + 8) (st @ [of_nat (if m = 0 then 0 else (unat a * unat b) mod unat m)]) s)"
  using assms unfolding exec_opcode_def exec_arithmetic_def op_addmod_def op_mulmod_def u512_sum u512_product
  by (auto simp: arithmetic_gas_def run_simps u512_rem_eq)

end
