(* ===== verification/Evm_Settle.thy ===== *)
theory Evm_Settle
  imports Evm_Keeps Evm_Words
begin

text \<open>
  Transactions: the closed form of the intrinsic gas, the effect of validation on balances and
  nonces, the settlement after execution, and the outcome of a whole transaction.
\<close>

section \<open>Intrinsic gas\<close>

definition calldata_price :: "bytes \<Rightarrow> nat" where
  "calldata_price bs = sum_list (map (\<lambda>b. if b = 0 then 4 else 16) bs)"

definition access_list_price :: "access_list \<Rightarrow> nat" where
  "access_list_price al = sum_list (map (\<lambda>(a, ks). 2400 + 1900 * length ks) al)"

definition intrinsic_price :: "bytes \<Rightarrow> bool \<Rightarrow> access_list \<Rightarrow> nat" where
  "intrinsic_price data create al =
     calldata_price data + 21000 + (if create then 32000 + (31 + length data) div 32 * 2 else 0) +
     access_list_price al"

lemma tx_calldata_loop_eq:
  "tx_calldata_loop bs c =
     (if c + calldata_price bs < u64_bound \<or> bs = [] then Ok (c + calldata_price bs) else Err (OutOfGas GasUsedOverflow))"
proof (induction bs arbitrary: c)
  case (Cons b bs)
  then show ?case
    by (cases bs) (auto simp: calldata_price_def checked_add_def)
qed (simp add: calldata_price_def)

lemma access_list_keys_cost_eq:
  "c < u64_bound \<Longrightarrow> access_list_keys_cost ks c =
     (if c + 1900 * length ks < u64_bound then Ok (c + 1900 * length ks) else Err (OutOfGas ConsumedGasOverflow))"
  by (induction ks arbitrary: c) (auto simp: checked_add_def)

lemma access_list_cost_eq:
  "c < u64_bound \<Longrightarrow> access_list_cost al c =
     (if c + access_list_price al < u64_bound then Ok (c + access_list_price al) else Err (OutOfGas ConsumedGasOverflow))"
proof (induction al c rule: access_list_cost.induct)
  case (2 a ks al c)
  then show ?case
    by (auto simp: access_list_price_def checked_add_def access_list_keys_cost_eq)
qed (simp add: access_list_price_def)

lemma intrinsic_gas_eq:
  "intrinsic_gas data create al = Ok g \<longleftrightarrow> g = intrinsic_price data create al \<and> intrinsic_price data create al < u64_bound"
  "intrinsic_gas data create al = Err e \<Longrightarrow> e = OutOfGas ConsumedGasOverflow \<or> e = OutOfGas GasUsedOverflow"
  "intrinsic_gas data create al \<noteq> Panic" "intrinsic_gas data create al \<noteq> Diverge"
proof -
  have small: "0 < u64_bound" by (simp add: u64_bound_def)
  show "intrinsic_gas data create al = Ok g \<longleftrightarrow> g = intrinsic_price data create al \<and> intrinsic_price data create al < u64_bound"
    using access_list_cost_eq [OF small, of al]
    by (auto simp: intrinsic_gas_def tx_calldata_def tx_calldata_loop_eq intrinsic_price_def result_simps Let_def
        TX_BASE_COST_def WORD_SIZE_def u64_bound_def usize_bound_def calldata_price_def split: if_splits)
  show "intrinsic_gas data create al = Err e \<Longrightarrow> e = OutOfGas ConsumedGasOverflow \<or> e = OutOfGas GasUsedOverflow"
    using access_list_cost_eq [OF small, of al]
    by (auto simp: intrinsic_gas_def tx_calldata_def tx_calldata_loop_eq result_simps Let_def split: if_splits)
  show "intrinsic_gas data create al \<noteq> Panic" "intrinsic_gas data create al \<noteq> Diverge"
    using access_list_cost_eq [OF small, of al]
    by (auto simp: intrinsic_gas_def tx_calldata_def tx_calldata_loop_eq result_simps Let_def split: if_splits)
qed

section \<open>Balances\<close>

definition balance_of :: "vm \<Rightarrow> address \<Rightarrow> nat" where
  "balance_of v a = unat (ai_balance (info_view v a))"

text \<open>\<open>credits c v w\<close>: from \<open>v\<close> to \<open>w\<close> every account gains the amount \<open>c\<close> says, and nothing else changes.\<close>

definition credits :: "(address \<Rightarrow> nat) \<Rightarrow> vm \<Rightarrow> vm \<Rightarrow> bool" where
  "credits c v w \<longleftrightarrow>
     (\<forall>a. balance_of w a = balance_of v a + c a \<and>
       ai_nonce (info_view w a) = ai_nonce (info_view v a) \<and>
       ai_bytecode (info_view w a) = ai_bytecode (info_view v a)) \<and>
     storage_view w = storage_view v \<and>
     selfdestruct_set (vm_substate w) = selfdestruct_set (vm_substate v) \<and> vm_db w = vm_db v"

lemma credits_same: "same_world v w \<Longrightarrow> credits (\<lambda>_. 0) v w"
  by (simp add: same_world_def credits_def balance_of_def)

lemma credits_trans: "credits c v w \<Longrightarrow> credits d w u \<Longrightarrow> credits (\<lambda>a. c a + d a) v u"
  by (simp add: credits_def)

lemma credits_increase:
  assumes "increase_account_balance a x v = (Ok u, w)"
  shows "credits (\<lambda>b. if b = a then unat x else 0) v w"
proof (cases rule: increase_balance_cases [of a x v])
  case (ok w')
  then have "unat (ai_balance (info_view v a) + x) = unat (ai_balance (info_view v a)) + unat x"
    by (simp add: unat_add_lem [THEN iffD1])
  then show ?thesis using ok assms by (auto simp: credits_def balance_of_def world_upd_def)
qed (use assms in simp)

lemma u256_mul_gas:
  assumes "u256_checked_mul p (of_nat g) = Some c \<or> u256_checked_mul (of_nat g) p = Some c" "g < u64_bound"
  shows "unat c = unat p * g"
proof -
  have g: "unat (of_nat g :: u256) = g" using assms(2) by (simp add: unsigned_of_nat u64_bound_def take_bit_nat_eq_self)
  show ?thesis using assms(1)
  proof
    assume "u256_checked_mul p (of_nat g) = Some c"
    then have "unat p * g < 2 ^ 256" "c = p * of_nat g" by (simp_all add: result_simps g)
    then show ?thesis by (simp add: unat_mult_lem [THEN iffD1] g)
  next
    assume "u256_checked_mul (of_nat g) p = Some c"
    then have "g * unat p < 2 ^ 256" "c = of_nat g * p" by (simp_all add: result_simps g)
    then show ?thesis by (simp add: unat_mult_lem [THEN iffD1] g mult.commute)
  qed
qed

section \<open>Settlement\<close>

text \<open>
  What the sender and the coinbase receive after execution, the gas used and refunded as in the
  report, and the machine it is added to: on a revert the receiver leaves the cache.
\<close>

definition refund_of :: "transaction_report \<Rightarrow> nat" where
  "refund_of rep = min (rep_gas_refunded rep) (rep_gas_used rep div 5)"

definition reverted :: "transaction_report \<Rightarrow> bool" where
  "reverted rep \<longleftrightarrow> rep_result rep \<noteq> Success"

definition settled :: "environment \<Rightarrow> call_frame \<Rightarrow> transaction_report \<Rightarrow> address \<Rightarrow> nat" where
  "settled e f rep a =
     (if a = cf_msg_sender f then
        (if reverted rep then unat (cf_msg_value f) else 0) +
        unat (env_gas_price e) * (env_gas_limit e - rep_gas_used rep + refund_of rep) else 0) +
     (if a = env_coinbase e
      then unat (env_gas_price e - env_base_fee_per_gas e) * (rep_gas_used rep - refund_of rep) else 0)"

definition undone :: "call_frame \<Rightarrow> transaction_report \<Rightarrow> vm \<Rightarrow> vm" where
  "undone f rep v = (if reverted rep then v\<lparr>vm_cache := (vm_cache v)(cf_to f := None)\<rparr> else v)"

lemma undo_Ok:
  assumes "(case rep_result rep of
      Success \<Rightarrow> sreturn ()
    | Revert _ \<Rightarrow> sbind (remove_account (cf_to f)) (\<lambda>_. increase_account_balance (cf_msg_sender f) (cf_msg_value f))) v =
    (Ok x, w)"
  shows "credits (\<lambda>a. if reverted rep \<and> a = cf_msg_sender f then unat (cf_msg_value f) else 0) (undone f rep v) w"
  using assms
  by (cases "rep_result rep")
    (auto simp: reverted_def undone_def sm_steps sbind_eq_Ok remove_account_def dest!: credits_increase
      intro: credits_same world.same)

lemma coinbase_Ok:
  assumes "(if fee \<noteq> 0 then increase_account_balance a fee else sreturn ()) v = (Ok x, w)"
  shows "credits (\<lambda>b. if b = a then unat fee else 0) v w"
  using assms credits_same [OF world.same, of v]
  by (cases "fee = 0") (simp_all add: sm_steps credits_increase cong: if_cong)

lemma remove_accounts_view:
  "remove_accounts A v = (Ok x, w) \<Longrightarrow> a \<notin> A \<Longrightarrow> info_view w a = info_view v a"
  by (cases v) (auto simp: remove_accounts_def sm_steps info_view_def split: option.split)

lemma post_execution_steps:
  assumes "post_execution_changes f rep v = (Ok rep', w)"
  obtains v1 v2 v3 wei fee x1 x2 x3 x4 where
    "(case rep_result rep of Success \<Rightarrow> sreturn ()
      | Revert _ \<Rightarrow> sbind (remove_account (cf_to f)) (\<lambda>_. increase_account_balance (cf_msg_sender f) (cf_msg_value f))) v = (Ok x1, v1)"
    "rep_gas_used rep \<le> env_gas_limit (vm_env v)"
    "env_gas_limit (vm_env v) - rep_gas_used rep + refund_of rep < u64_bound"
    "u256_checked_mul (env_gas_price (vm_env v)) (of_nat (env_gas_limit (vm_env v) - rep_gas_used rep + refund_of rep)) = Some wei"
    "increase_account_balance (cf_msg_sender f) wei v1 = (Ok x2, v2)"
    "env_base_fee_per_gas (vm_env v) \<le> env_gas_price (vm_env v)"
    "u256_checked_mul (of_nat (rep_gas_used rep - refund_of rep)) (env_gas_price (vm_env v) - env_base_fee_per_gas (vm_env v)) = Some fee"
    "(if fee \<noteq> 0 then increase_account_balance (env_coinbase (vm_env v)) fee else sreturn ()) v2 = (Ok x3, v3)"
    "remove_accounts (selfdestruct_set (vm_substate v3)) v3 = (Ok x4, w)"
    "rep' = rep\<lparr>rep_gas_refunded := refund_of rep\<rparr>"
proof -
  have fifth: "slift (ok_or (checked_div (rep_gas_used rep) 5) z) = sreturn (rep_gas_used rep div 5)" for z :: vm_error
    by (rule ext) (simp add: sm_steps checked_div_def)
  show thesis using assms
    unfolding post_execution_changes_def Let_def fifth sbind_return refund_of_def [symmetric]
    by (simp only: sbind_eq_Ok sm_steps ok_or_eq_Ok checked_sub_eq_Some checked_add_eq_Some u256_checked_Some(2)
        prod.inject result.inject) (elim exE conjE, hypsubst, rule that; assumption)
qed

lemma post_execution_Ok:
  assumes "post_execution_changes f rep v = (Ok rep', w)" "env_gas_limit (vm_env v) < u64_bound"
  shows "rep' = rep\<lparr>rep_gas_refunded := refund_of rep\<rparr> \<and> rep_gas_used rep \<le> env_gas_limit (vm_env v) \<and>
    (\<forall>a. a \<notin> selfdestruct_set (vm_substate v) \<longrightarrow>
       balance_of w a = balance_of (undone f rep v) a + settled (vm_env v) f rep a)"
proof -
  obtain v1 v2 v3 wei fee x1 x2 x3 x4 where st:
    "(case rep_result rep of Success \<Rightarrow> sreturn ()
      | Revert _ \<Rightarrow> sbind (remove_account (cf_to f)) (\<lambda>_. increase_account_balance (cf_msg_sender f) (cf_msg_value f))) v = (Ok x1, v1)"
    "rep_gas_used rep \<le> env_gas_limit (vm_env v)"
    "env_gas_limit (vm_env v) - rep_gas_used rep + refund_of rep < u64_bound"
    "u256_checked_mul (env_gas_price (vm_env v)) (of_nat (env_gas_limit (vm_env v) - rep_gas_used rep + refund_of rep)) = Some wei"
    "increase_account_balance (cf_msg_sender f) wei v1 = (Ok x2, v2)"
    "u256_checked_mul (of_nat (rep_gas_used rep - refund_of rep)) (env_gas_price (vm_env v) - env_base_fee_per_gas (vm_env v)) = Some fee"
    "(if fee \<noteq> 0 then increase_account_balance (env_coinbase (vm_env v)) fee else sreturn ()) v2 = (Ok x3, v3)"
    "remove_accounts (selfdestruct_set (vm_substate v3)) v3 = (Ok x4, w)"
    "rep' = rep\<lparr>rep_gas_refunded := refund_of rep\<rparr>"
    using post_execution_steps [OF assms(1)] by metis
  have used: "rep_gas_used rep - refund_of rep < u64_bound" using st(2) assms(2) by linarith
  have amounts: "unat wei = unat (env_gas_price (vm_env v)) * (env_gas_limit (vm_env v) - rep_gas_used rep + refund_of rep)"
    "unat fee = unat (env_gas_price (vm_env v) - env_base_fee_per_gas (vm_env v)) * (rep_gas_used rep - refund_of rep)"
    using u256_mul_gas [OF disjI1 [OF st(4)] st(3)] u256_mul_gas [OF disjI2 [OF st(6)] used] by simp_all
  note c = credits_trans [OF credits_trans [OF undo_Ok [OF st(1)] credits_increase [OF st(5)]] coinbase_Ok [OF st(7)]]
  have "selfdestruct_set (vm_substate v3) = selfdestruct_set (vm_substate v)" using c by (simp add: credits_def undone_def)
  then have "balance_of w a = balance_of v3 a" if "a \<notin> selfdestruct_set (vm_substate v)" for a
    using remove_accounts_view [OF st(8)] that by (simp add: balance_of_def)
  then show ?thesis using c st(2,9) amounts by (auto simp: credits_def settled_def)
qed

section \<open>Validation\<close>

text \<open>
  \<open>ledger gain loss bumps v w\<close>: from \<open>v\<close> to \<open>w\<close> every account gains \<open>gain\<close> and loses \<open>loss\<close>, its nonce grows
  by \<open>bumps\<close>, its code stays.
\<close>

definition ledger :: "(address \<Rightarrow> nat) \<Rightarrow> (address \<Rightarrow> nat) \<Rightarrow> (address \<Rightarrow> nat) \<Rightarrow> vm \<Rightarrow> vm \<Rightarrow> bool" where
  "ledger gain loss bumps v w \<longleftrightarrow>
     (\<forall>a. balance_of w a + loss a = balance_of v a + gain a \<and>
       ai_nonce (info_view w a) = ai_nonce (info_view v a) + bumps a \<and>
       ai_bytecode (info_view w a) = ai_bytecode (info_view v a))"

definition only :: "address \<Rightarrow> nat \<Rightarrow> address \<Rightarrow> nat" where
  "only a n b = (if b = a then n else 0)"

lemma ledger_trans:
  "ledger p m n v w \<Longrightarrow> ledger p' m' n' w u \<Longrightarrow> ledger (\<lambda>a. p a + p' a) (\<lambda>a. m a + m' a) (\<lambda>a. n a + n' a) v u"
  by (auto simp: ledger_def) (metis add.assoc add.commute)

lemma ledger_same: "same_world v w \<Longrightarrow> ledger (\<lambda>_. 0) (\<lambda>_. 0) (\<lambda>_. 0) v w"
  by (simp add: ledger_def same_world_def balance_of_def)

lemma ledger_increase:
  "increase_account_balance a x v = (Ok u, w) \<Longrightarrow> ledger (only a (unat x)) (\<lambda>_. 0) (\<lambda>_. 0) v w"
  by (drule credits_increase) (simp add: ledger_def credits_def only_def)

lemma ledger_decrease:
  assumes "decrease_account_balance a x v = (Ok u, w)"
  shows "ledger (\<lambda>_. 0) (only a (unat x)) (\<lambda>_. 0) v w"
proof (cases rule: decrease_balance_cases [of a x v])
  case (ok w')
  then have "unat (ai_balance (info_view v a) - x) + unat x = unat (ai_balance (info_view v a))"
    by (simp add: unat_sub word_le_nat_alt)
  then show ?thesis using ok assms by (auto simp: ledger_def balance_of_def world_upd_def only_def)
qed (use assms in simp)

lemma ledger_nonce:
  assumes "increment_account_nonce a v = (Ok u, w)"
  shows "ledger (\<lambda>_. 0) (\<lambda>_. 0) (only a 1) v w"
proof -
  obtain v' acc where g: "get_account_mut a v = (Ok acc, v')" "same_world v v'" "vm_cache v' a = Some acc"
    "acc_info acc = info_view v a" by (rule get_account_mut_out)
  have "world_upd a ((info_view v a)\<lparr>ai_nonce := Suc (ai_nonce (info_view v a))\<rparr>) v w"
    using assms g world_upd_write [OF g(2,3)]
    by (auto simp: increment_account_nonce_def insert_account_def sbind_eq_Ok sm_steps result_simps)
  then show ?thesis by (auto simp: ledger_def balance_of_def world_upd_def only_def)
qed

lemma on_vm_Ok: "on_vm m s = (Ok x, t) \<longleftrightarrow> (\<exists>w. m (c_vm s) = (Ok x, w) \<and> t = s\<lparr>c_vm := w\<rparr>)"
  by (auto simp: on_vm_def split: prod.splits)

lemma smap_err_Ok: "smap_err h m s = (Ok x, t) \<longleftrightarrow> m s = (Ok x, t)"
proof -
  obtain r u where "m s = (r, u)" by fastforce
  then show ?thesis by (cases r) (auto simp: smap_err_def)
qed

lemma charge_Ok: "increase_consumed_gas g s = (Ok x, t) \<longleftrightarrow>
    cf_gas_used (c_frame s) + g \<le> cf_gas_limit (c_frame s) \<and> cf_gas_used (c_frame s) + g < u64_bound \<and>
    t = s\<lparr>c_frame := (c_frame s)\<lparr>cf_gas_used := cf_gas_used (c_frame s) + g\<rparr>\<rparr>"
  by (auto simp: increase_consumed_gas_def on_frame_def checked_add_def split: if_splits)

lemma add_intrinsic_gas_Ok:
  assumes "add_intrinsic_gas s = (Ok x, t)"
  shows "let g = intrinsic_price (cf_calldata (c_frame s)) (is_create (c_vm s)) (vm_access_list (c_vm s))
    in cf_gas_used (c_frame s) + g \<le> cf_gas_limit (c_frame s) \<and>
       t = s\<lparr>c_frame := (c_frame s)\<lparr>cf_gas_used := cf_gas_used (c_frame s) + g\<rparr>\<rparr>"
  using assms
  by (auto simp: add_intrinsic_gas_def sbind_eq_Ok sm_steps smap_err_Ok charge_Ok intrinsic_gas_eq Let_def)

lemma require_Ok: "require b e = Ok x \<longleftrightarrow> b"
  by (simp add: require_def)

lemma prepare_steps:
  assumes "prepare_execution H s = (Ok x, t)"
  defines "e \<equiv> vm_env (c_vm s)"
  obtains acc w1 cost w2 s3 s4 w5 x2 x3 x4 x5 x6 where
    "get_account (env_origin e) (c_vm s) = (Ok acc, w1)"
    "up_front_cost e (cf_msg_value (c_frame (s\<lparr>c_vm := w1\<rparr>))) (ai_balance (acc_info acc)) = Ok cost"
    "decrease_account_balance (env_origin e) cost (c_vm (s\<lparr>c_vm := w1\<rparr>)) = (Ok x2, w2)"
    "(if \<not> is_create (c_vm s)
      then on_vm (increase_account_balance (cf_to (c_frame (s\<lparr>c_vm := w1, c_vm := w2\<rparr>))) (cf_msg_value (c_frame (s\<lparr>c_vm := w1\<rparr>))))
      else sreturn ()) (s\<lparr>c_vm := w1, c_vm := w2\<rparr>) = (Ok x3, s3)"
    "\<not> (case env_tx_max_fee_per_gas e of None \<Rightarrow> env_gas_price e | Some f \<Rightarrow> f) < env_base_fee_per_gas e"
    "\<not> (is_create (c_vm s) \<and> INIT_CODE_MAX_SIZE < length (cf_calldata (c_frame s3)))"
    "add_intrinsic_gas s3 = (Ok x4, s4)"
    "increment_account_nonce (env_origin e) (c_vm s4) = (Ok x5, w5)"
    "\<not> has_code H (acc_info acc)" "\<not> env_block_gas_limit e < env_gas_limit e"
    "validate_blobs e (is_create (c_vm s)) = Ok x6"
    "(if is_create (c_vm s) then set_frame (\<lambda>f. (assign_bytecode (cf_calldata f) f)\<lparr>cf_calldata := []\<rparr>) else sreturn ())
       (s4\<lparr>c_vm := w5\<rparr>) = (Ok x, t)"
  using assms(1)
  unfolding prepare_execution_def Let_def e_def [symmetric]
  by (simp only: sbind_eq_Ok sm_steps smap_err_Ok on_vm_Ok env_def frame_def prod.inject result.inject require_Ok
      e_def [symmetric]) (elim exE conjE, hypsubst, rule that; assumption)

lemma get_account_view: "get_account a v = (Ok acc, w) \<Longrightarrow> acc_info acc = info_view v a"
  by (auto simp: get_account_def get_account_or_load_def info_view_def load_account_def Let_def split: option.splits)

text \<open>Validation writes to the cache of the machine and to nothing else of it.\<close>

definition only_cache :: "vm \<Rightarrow> vm \<Rightarrow> bool" where
  "only_cache v w \<longleftrightarrow> (\<exists>c. w = v\<lparr>vm_cache := c\<rparr>)"

interpretation cache_order: state_order only_cache
proof
  show "only_cache v v" for v by (cases v) (auto simp: only_cache_def)
qed (auto simp: only_cache_def)

lemma only_cache_ops:
  "moves only_cache (get_account a)" "moves only_cache (increase_account_balance a x)"
  "moves only_cache (decrease_account_balance a x)" "moves only_cache (increment_account_nonce a)"
proof -
  have get: "moves only_cache (get_account_mut a)" "moves only_cache (insert_account a acc)" for acc
    using cache_order.same
    by (auto simp: moves_def get_account_mut_def insert_account_def sm_steps Let_def split: option.split)
      (auto simp: only_cache_def)
  show "moves only_cache (get_account a)"
    by (auto simp: moves_def get_account_def only_cache_def split: prod.split)
  show "moves only_cache (increase_account_balance a x)" "moves only_cache (decrease_account_balance a x)"
    "moves only_cache (increment_account_nonce a)"
    unfolding increase_account_balance_def decrease_account_balance_def increment_account_nonce_def
    by (intro cache_order.moves_bind get moves_rules)+
qed

lemma only_cache_context: "only_cache v w \<Longrightarrow> same_context v w"
  by (auto simp: only_cache_def same_context_def)

lemma prepare_execution_Ok:
  assumes "prepare_execution H s = (Ok x, t)"
  defines "e \<equiv> vm_env (c_vm s)"
  shows "\<exists>cost. up_front_cost e (cf_msg_value (c_frame s)) (ai_balance (info_view (c_vm s) (env_origin e))) = Ok cost \<and>
      ledger (if is_create (c_vm s) then \<lambda>_. 0 else only (cf_to (c_frame s)) (unat (cf_msg_value (c_frame s))))
        (only (env_origin e) (unat cost)) (only (env_origin e) 1) (c_vm s) (c_vm t)"
    "cf_gas_used (c_frame t) = cf_gas_used (c_frame s) +
      intrinsic_price (cf_calldata (c_frame s)) (is_create (c_vm s)) (vm_access_list (c_vm s))"
    "cf_gas_used (c_frame t) \<le> cf_gas_limit (c_frame t)"
    "\<not> has_code H (info_view (c_vm s) (env_origin e))" "env_gas_limit e \<le> env_block_gas_limit e"
    "frame_ok (c_frame s) \<Longrightarrow> frame_ok (c_frame t)" "only_cache (c_vm s) (c_vm t)"
    "\<not> is_create (c_vm s) \<Longrightarrow> c_frame t = (c_frame s)\<lparr>cf_gas_used := cf_gas_used (c_frame t)\<rparr>"
proof -
  obtain acc w1 cost w2 s3 s4 w5 x2 x3 x4 x5 x6 where st:
    "get_account (env_origin e) (c_vm s) = (Ok acc, w1)"
    "up_front_cost e (cf_msg_value (c_frame (s\<lparr>c_vm := w1\<rparr>))) (ai_balance (acc_info acc)) = Ok cost"
    "decrease_account_balance (env_origin e) cost (c_vm (s\<lparr>c_vm := w1\<rparr>)) = (Ok x2, w2)"
    "(if \<not> is_create (c_vm s)
      then on_vm (increase_account_balance (cf_to (c_frame (s\<lparr>c_vm := w1, c_vm := w2\<rparr>))) (cf_msg_value (c_frame (s\<lparr>c_vm := w1\<rparr>))))
      else sreturn ()) (s\<lparr>c_vm := w1, c_vm := w2\<rparr>) = (Ok x3, s3)"
    "\<not> (case env_tx_max_fee_per_gas e of None \<Rightarrow> env_gas_price e | Some f \<Rightarrow> f) < env_base_fee_per_gas e"
    "\<not> (is_create (c_vm s) \<and> INIT_CODE_MAX_SIZE < length (cf_calldata (c_frame s3)))"
    "add_intrinsic_gas s3 = (Ok x4, s4)"
    "increment_account_nonce (env_origin e) (c_vm s4) = (Ok x5, w5)"
    "\<not> has_code H (acc_info acc)" "\<not> env_block_gas_limit e < env_gas_limit e"
    "validate_blobs e (is_create (c_vm s)) = Ok x6"
    "(if is_create (c_vm s) then set_frame (\<lambda>f. (assign_bytecode (cf_calldata f) f)\<lparr>cf_calldata := []\<rparr>) else sreturn ())
       (s4\<lparr>c_vm := w5\<rparr>) = (Ok x, t)"
    by (rule prepare_steps [OF assms(1), folded e_def])
  have acc: "acc_info acc = info_view (c_vm s) (env_origin e)" using get_account_view [OF st(1)] .
  then show "\<not> has_code H (info_view (c_vm s) (env_origin e))" using st(9) by simp
  show "env_gas_limit e \<le> env_block_gas_limit e" using st(10) by simp
  let ?val = "cf_msg_value (c_frame s)"
  have pay: "c_frame s3 = c_frame s \<and> only_cache w2 (c_vm s3) \<and>
      ledger (if is_create (c_vm s) then \<lambda>_. 0 else only (cf_to (c_frame s)) (unat ?val)) (\<lambda>_. 0) (\<lambda>_. 0) w2 (c_vm s3)"
    using st(4) movesD [OF only_cache_ops(2), of w2 "cf_to (c_frame s)" ?val]
    by (auto simp: on_vm_Ok sm_steps cache_order.same ledger_same world.same split: if_splits dest: ledger_increase)
  have "only_cache (c_vm s) w1" "only_cache w1 w2"
    using movesD [OF only_cache_ops(1), of "c_vm s" "env_origin e"] st(1)
      movesD [OF only_cache_ops(3), of w1 "env_origin e" cost] st(3) by simp_all
  then have ctx: "only_cache (c_vm s) (c_vm s3)" using pay by (meson cache_order.trans)
  have gas: "cf_gas_used (c_frame s) + intrinsic_price (cf_calldata (c_frame s)) (is_create (c_vm s)) (vm_access_list (c_vm s)) \<le>
      cf_gas_limit (c_frame s)" "s4 = s3\<lparr>c_frame := (c_frame s)\<lparr>cf_gas_used := cf_gas_used (c_frame s) +
      intrinsic_price (cf_calldata (c_frame s)) (is_create (c_vm s)) (vm_access_list (c_vm s))\<rparr>\<rparr>"
    using add_intrinsic_gas_Ok [OF st(7)] pay only_cache_context [OF ctx] by (simp_all add: Let_def same_context_def is_create_def)
  have fin: "c_vm t = w5" "cf_gas_used (c_frame t) = cf_gas_used (c_frame s4)" "cf_gas_limit (c_frame t) = cf_gas_limit (c_frame s4)"
    using st(12) by (auto simp: set_frame_out sm_steps assign_bytecode_def split: if_splits)
  show "cf_gas_used (c_frame t) = cf_gas_used (c_frame s) +
      intrinsic_price (cf_calldata (c_frame s)) (is_create (c_vm s)) (vm_access_list (c_vm s))"
    "cf_gas_used (c_frame t) \<le> cf_gas_limit (c_frame t)" using fin gas by simp_all
  show "frame_ok (c_frame s) \<Longrightarrow> frame_ok (c_frame t)"
    using st(12) gas by (auto simp: frame_ok_def set_frame_out sm_steps assign_bytecode_def split: if_splits)
  have "only_cache (c_vm s3) w5"
    using movesD [OF only_cache_ops(4), of "c_vm s3" "env_origin e"] st(8) gas(2) by simp
  then show "only_cache (c_vm s) (c_vm t)" using ctx fin(1) by (metis cache_order.trans)
  show "\<not> is_create (c_vm s) \<Longrightarrow> c_frame t = (c_frame s)\<lparr>cf_gas_used := cf_gas_used (c_frame t)\<rparr>"
    using st(12) gas(2) by (auto simp: sm_steps)
  have "same_world (c_vm s) w1" using movesD [OF world_get_account(2), of "c_vm s" "env_origin e"] st(1) by simp
  moreover have "ledger (\<lambda>_. 0) (only (env_origin e) (unat cost)) (\<lambda>_. 0) w1 w2" using ledger_decrease [OF st(3)] by simp
  moreover have "ledger (\<lambda>_. 0) (\<lambda>_. 0) (only (env_origin e) 1) (c_vm s3) (c_vm t)"
    using ledger_nonce [OF st(8)] gas(2) fin(1) by simp
  ultimately have "ledger (if is_create (c_vm s) then \<lambda>_. 0 else only (cf_to (c_frame s)) (unat ?val))
      (only (env_origin e) (unat cost)) (only (env_origin e) 1) (c_vm s) (c_vm t)"
    using ledger_trans [OF ledger_trans [OF ledger_trans [OF ledger_same, of _ w1] conjunct2 [OF conjunct2 [OF pay]]]] by fastforce
  then show "\<exists>cost. up_front_cost e ?val (ai_balance (info_view (c_vm s) (env_origin e))) = Ok cost \<and>
      ledger (if is_create (c_vm s) then \<lambda>_. 0 else only (cf_to (c_frame s)) (unat ?val))
        (only (env_origin e) (unat cost)) (only (env_origin e) 1) (c_vm s) (c_vm t)"
    using st(2) acc by auto
qed

section \<open>The whole transaction\<close>

lemma calm_smap_err [calm_rules]: "calm m \<Longrightarrow> calm (smap_err h m)"
proof -
  assume m: "calm m"
  show "calm (smap_err h m)" unfolding calm_def
  proof (intro allI)
    fix s
    obtain r t where "m s = (r, t)" by fastforce
    then show "fst (smap_err h m s) \<noteq> Panic \<and> fst (smap_err h m s) \<noteq> Diverge"
      using m [unfolded calm_def, rule_format, of s] by (cases r) (auto simp: smap_err_def)
  qed
qed

lemma calm_on_vm [calm_rules]: "calm m \<Longrightarrow> calm (on_vm m)"
  by (auto simp: calm_def on_vm_def split: prod.split) (metis fst_conv)+

lemma calm_ctx [calm_rules]: "calm (frame h)" "calm (env k)" "calm (set_frame l)" "calm (increase_consumed_gas n)"
  by (auto simp: calm_def frame_def env_def set_frame_out sm_steps increase_consumed_gas_def on_frame_def split: option.split)

lemma calm_fees [calm_simps]:
  "get_base_fee_per_blob_gas e \<noteq> Panic" "get_base_fee_per_blob_gas e \<noteq> Diverge"
  "up_front_cost e val bal \<noteq> Panic" "up_front_cost e val bal \<noteq> Diverge"
  "validate_blobs e create \<noteq> Panic" "validate_blobs e create \<noteq> Diverge"
  "require b err \<noteq> Panic" "require b err \<noteq> Diverge"
proof -
  have exp: "fake_exponential a b c \<noteq> Panic" "fake_exponential a b c \<noteq> Diverge" for a b c
    by (simp_all add: fake_exponential_def calm_simps result_simps)
  then show fee: "get_base_fee_per_blob_gas e \<noteq> Panic" "get_base_fee_per_blob_gas e \<noteq> Diverge"
    by (simp_all add: get_base_fee_per_blob_gas_def result_simps)
  show req: "require b err \<noteq> Panic" "require b err \<noteq> Diverge" for b err
    by (simp_all add: require_def)
  show "up_front_cost e val bal \<noteq> Panic" "up_front_cost e val bal \<noteq> Diverge"
    by (simp_all add: up_front_cost_def get_max_blob_gas_price_def get_blob_gas_price_def fee req result_simps Let_def)
  show "validate_blobs e create \<noteq> Panic" "validate_blobs e create \<noteq> Diverge"
    by (simp_all add: validate_blobs_def fee req result_simps Let_def split: option.split)
qed

lemma calm_add_intrinsic_gas [calm_rules]: "calm add_intrinsic_gas"
proof -
  have "calm (sbind (slift (intrinsic_gas d c al)) (\<lambda>gas. smap_err h (increase_consumed_gas gas)))"
    for d c al and h :: "vm_error \<Rightarrow> vm_error"
    by (intro calm_rules intrinsic_gas_eq)
  then show ?thesis by (simp add: calm_def add_intrinsic_gas_def sbind_def [of "sgets _"] sm_steps)
qed

lemma calm_prepare: "calm (prepare_execution H)"
  unfolding prepare_execution_def by (intro calm_rules; simp add: calm_simps)

lemma calm_tx_result [calm_rules]:
  "calm m \<Longrightarrow> (\<And>e. calm (k e)) \<Longrightarrow> calm (case r of Success \<Rightarrow> m | Revert e \<Rightarrow> k e)"
  by (cases r) auto

lemma calm_post_execution: "calm (post_execution_changes f rep)"
  unfolding post_execution_changes_def remove_accounts_def
  by (intro calm_rules; simp add: result_simps)

lemma execute_returns:
  assumes "\<And>x. length (keccak H x) = 32" "frame_ok (c_frame s)"
  shows "yields (\<lambda>_ _. True) (execute H s)"
  unfolding execute_def execute_fuel_def
proof (rule execute_with_calm)
  fix bk
  have "exec_safe s (exec_loop H (Suc (gas_left (c_frame s))) bk s)"
    by (rule exec_loop_safe [OF assms(1) assms(2)]) simp
  then show "yields (\<lambda>_ _. True) (exec_loop H (Suc (gas_left (c_frame s))) bk s)"
    unfolding exec_safe_def by (rule yields_mono) simp
qed

definition fair_report :: "nat \<Rightarrow> transaction_report \<Rightarrow> bool" where
  "fair_report limit rep \<longleftrightarrow> rep_gas_used rep \<le> limit \<and> 5 * rep_gas_refunded rep \<le> rep_gas_used rep"

lemma post_execution_fair:
  assumes "env_gas_limit (vm_env v) < u64_bound"
  shows "yields (\<lambda>rep' w. fair_report (env_gas_limit (vm_env v)) rep') (post_execution_changes f rep v)"
proof -
  obtain r w where p: "post_execution_changes f rep v = (r, w)" by fastforce
  have "r \<noteq> Panic" "r \<noteq> Diverge" using calm_post_execution [of f rep] p by (auto simp: calm_def) (metis fst_conv)+
  then show ?thesis using p post_execution_Ok [of f rep v _ w] assms
    by (cases r) (auto simp: yields_def fair_report_def refund_of_def)
qed

lemma settle_fair:
  assumes "\<And>x. length (keccak H x) = 32" "frame_ok (c_frame s)" "env_gas_limit (vm_env (c_vm s)) < u64_bound"
  shows "yields (\<lambda>rep t. fair_report (env_gas_limit (vm_env (c_vm s))) rep) (execute_and_settle H s)"
proof -
  have "same_context (c_vm s) (c_vm (snd (execute H s)))" by (rule tx_context.execute_keeps)
  then have lim: "env_gas_limit (vm_env (c_vm (snd (execute H s)))) = env_gas_limit (vm_env (c_vm s))"
    by (auto simp: same_context_def fixed_env_def dest: arg_cong [where f = env_gas_limit])
  have "yields (\<lambda>rep t. env_gas_limit (vm_env (c_vm t)) = env_gas_limit (vm_env (c_vm s))) (execute H s)"
    using execute_returns [OF assms(1,2)] lim by (auto simp: yields_def split: prod.splits result.splits)
  then show ?thesis unfolding execute_and_settle_def
  proof (subst yields_sbind, elim yields_mono)
    fix rep and t :: ctx
    assume t: "env_gas_limit (vm_env (c_vm t)) = env_gas_limit (vm_env (c_vm s))"
    show "yields (\<lambda>rep t. fair_report (env_gas_limit (vm_env (c_vm s))) rep)
        (sbind (frame (\<lambda>f. f)) (\<lambda>f. sbind (on_vm (post_execution_changes f rep))
          (\<lambda>report. sbind (sgets (\<lambda>s. vm_cache (c_vm s))) (\<lambda>c. sreturn (report\<lparr>rep_new_state := c\<rparr>)))) t)"
      using post_execution_fair [of "c_vm t" "c_frame t" rep] t assms(3)
      by (simp add: yields_simps fair_report_def)
  qed
qed

lemma yields_calm_Ok: "calm m \<Longrightarrow> (\<And>x t. m s = (Ok x, t) \<Longrightarrow> P x t) \<Longrightarrow> yields P (m s)"
  by (auto simp: yields_def calm_def split: prod.split result.split) (metis fst_conv)+

lemma handle_create_fair:
  assumes "env_gas_limit (vm_env v) < u64_bound"
  shows "yields (\<lambda>rep w. fair_report (env_gas_limit (vm_env v)) rep) (handle_create_non_empty_account f v)"
  unfolding handle_create_non_empty_account_def
  using post_execution_fair [OF assms] by (simp add: yields_simps fair_report_def Let_def)

lemma get_account_yields:
  "yields P (get_account a v) \<longleftrightarrow>
     (let (acc, c) = get_account_or_load (vm_db v) (vm_cache v) a in P acc (v\<lparr>vm_cache := c\<rparr>))"
  by (simp add: get_account_def yields_def split: prod.split)

lemma insert_account_yields: "yields P (insert_account a acc v) \<longleftrightarrow> P () (v\<lparr>vm_cache := (vm_cache v)(a \<mapsto> acc)\<rparr>)"
  by (simp add: insert_account_def yields_simps)

lemma transact_frame_fair:
  assumes H: "\<And>x. length (keccak H x) = 32"
    and s: "frame_ok (c_frame s)" "env_gas_limit (vm_env (c_vm s)) < u64_bound"
  shows "yields (\<lambda>rep t. fair_report (env_gas_limit (vm_env (c_vm s))) rep) (transact_frame H s)"
  unfolding transact_frame_def
proof (subst yields_sbind, rule yields_calm_Ok [OF calm_prepare])
  fix x t
  assume "prepare_execution H s = (Ok x, t)"
  from prepare_execution_Ok(6,7) [OF this] s(1)
  have t: "frame_ok (c_frame t)" "same_context (c_vm s) (c_vm t)" by (auto dest: only_cache_context)
  then have lim: "env_gas_limit (vm_env (c_vm t)) = env_gas_limit (vm_env (c_vm s))"
    by (auto simp: same_context_def fixed_env_def dest: arg_cong [where f = env_gas_limit])
  have settle: "yields (\<lambda>rep t. fair_report (env_gas_limit (vm_env (c_vm s))) rep) (execute_and_settle H u)"
    if "c_frame u = c_frame t" "vm_env (c_vm u) = vm_env (c_vm t)" for u
    using settle_fair [OF H, of u] that t(1) lim s(2) by simp
  have occupied: "yields (\<lambda>rep w. fair_report (env_gas_limit (vm_env (c_vm s))) rep) (handle_create_non_empty_account f v)"
    if "vm_env v = vm_env (c_vm t)" for f v
    using handle_create_fair [of v f] that lim s(2) by simp
  obtain acc c where g: "get_account_or_load (vm_db (c_vm t)) (vm_cache (c_vm t)) (cf_to (c_frame t)) = (acc, c)" by fastforce
  show "yields (\<lambda>rep t. fair_report (env_gas_limit (vm_env (c_vm s))) rep)
      (sbind (sgets (\<lambda>s. is_create (c_vm s))) (\<lambda>create.
        if create then sbind (frame cf_to) (\<lambda>new_contract_address.
          sbind (on_vm (get_account new_contract_address)) (\<lambda>new_account.
          sbind (frame cf_msg_value) (\<lambda>val.
          sbind (slift (ok_or (u256_checked_add (ai_balance (acc_info new_account)) val) (Internal ArithmeticOperationOverflow))) (\<lambda>balance.
          if has_code_or_nonce H new_account
          then sbind (frame (\<lambda>f. f)) (\<lambda>initial_call_frame. on_vm (handle_create_non_empty_account initial_call_frame))
          else sbind (on_vm (insert_account new_contract_address (account_new balance [] 1 Map.empty))) (\<lambda>_. execute_and_settle H)))))
        else execute_and_settle H) t)"
    by (auto simp: yields_simps get_account_yields g insert_account_yields settle occupied result_simps split: result.split)
qed

lemma transact_fair:
  assumes "\<And>x. length (keccak H x) = 32" "vm_call_frames v = fs @ [f]" "frame_ok f" "env_gas_limit (vm_env v) < u64_bound"
  shows "yields (\<lambda>rep w. fair_report (env_gas_limit (vm_env v)) rep) (transact H v)"
  using transact_frame_fair [OF assms(1), where s = "\<lparr>c_vm = v\<lparr>vm_call_frames := fs\<rparr>, c_frame = f\<rparr>"] assms(2-4)
  by (auto simp: transact_def yields_def split: prod.splits result.splits)

end
