(* ===== verification/Evm_Frames.thy ===== *)
theory Evm_Frames
  imports Evm_Settle
begin

text \<open>
  Whole frames: a frame that fails leaves the machine as the backup had it, a creation that succeeds
  has deployed its output as valid code.
\<close>

section \<open>A failed frame leaves no trace\<close>

definition rolled_back :: "backup \<Rightarrow> transaction_report \<Rightarrow> ctx \<Rightarrow> bool" where
  "rolled_back bk rep t \<longleftrightarrow>
     rep_new_state rep = bk_cache bk \<and> vm_cache (c_vm t) = bk_cache bk \<and> vm_substate (c_vm t) = bk_substate bk \<and>
     env_refunded_gas (vm_env (c_vm t)) = bk_refunded_gas bk \<and>
     env_transient_storage (vm_env (c_vm t)) = bk_transient_storage bk"

lemma rolled_back_restored:
  "rolled_back bk (make_report r g n out (restored bk s)) (restored bk s)"
  by (simp add: rolled_back_def make_report_def restored_def restore_state_def)

lemma finish_error_rolled_back: "finish_error bk e s = (Ok rep, t) \<Longrightarrow> rolled_back bk rep t"
  using rolled_back_restored by (auto simp: finish_error_eq Let_def split: if_splits)

definition creating :: "ctx \<Rightarrow> bool" where
  "creating s \<longleftrightarrow> (is_create (c_vm s) \<and> cf_depth (c_frame s) = 0) \<or> cf_create_op_called (c_frame s)"

text \<open>
  The end of a successful creation, in its two outcomes.
\<close>

lemma finish_success_create:
  assumes "finish_success bk s = (Ok rep, t)" "creating s"
  obtains v u where
    "validate_create (cf_output (c_frame s)) (CODE_DEPOSIT_COST * length (cf_output (c_frame s))) (pushed s (c_frame s)) = (Ok v, u)"
    "case v of
       Inl e \<Rightarrow> t = restored bk (u\<lparr>c_frame := (c_frame u)\<lparr>cf_gas_used := cf_gas_limit (c_frame u)\<rparr>\<rparr>) \<and> rep_result rep = Revert e
     | Inr a \<Rightarrow> on_vm (update_account_bytecode a (cf_output (c_frame s))) u = (Ok (), t) \<and> rep_result rep = Success"
    "rep = make_report (rep_result rep) (cf_gas_used (c_frame t)) (env_refunded_gas (vm_env (c_vm t))) (cf_output (c_frame t)) t"
proof -
  let ?p = "pushed s (c_frame s)" and ?code = "cf_output (c_frame s)"
  have p: "push_call_frame s = (Ok (), ?p)" by (cases s) (simp add: push_call_frame_def pushed_def sm_steps)
  have c: "(is_create (c_vm ?p) \<and> cf_depth (c_frame ?p) = 0) \<or> cf_create_op_called (c_frame ?p)" "cf_output (c_frame ?p) = ?code"
    using assms(2) by (auto simp: creating_def is_create_def pushed_def)
  obtain cost v u where v: "checked_mul u64_bound (length ?code) CODE_DEPOSIT_COST = Some cost"
      "validate_create ?code cost ?p = (Ok v, u)"
    and fin: "(case v of Inr a \<Rightarrow> sbind (on_vm (update_account_bytecode a ?code)) (\<lambda>_. frame_report Success)
        | Inl error \<Rightarrow> sbind (set_frame (\<lambda>f. f\<lparr>cf_gas_used := cf_gas_limit f\<rparr>))
           (\<lambda>_. sbind (on_vm (smodify (restore_state bk))) (\<lambda>_. frame_report (Revert error)))) u = (Ok rep, t)"
    using assms(1) unfolding finish_success_def sbind_eq_Ok p
    by (auto simp: sbind_eq_Ok sm_steps c Let_def ok_or_eq_Ok)
  show thesis
    apply (rule that [of v u])
    using v fin
    by (cases v; auto simp: sbind_eq_Ok sm_steps set_frame_def frame_report_def make_report_def on_vm_def restored_def
        checked_mul_def mult.commute split: if_splits)+
qed

lemma finish_success_rolled_back:
  assumes "finish_success bk s = (Ok rep, t)" "rep_result rep \<noteq> Success"
  shows "rolled_back bk rep t"
proof (cases "creating s")
  case True
  show ?thesis
    by (rule finish_success_create [OF assms(1) True])
      (use assms(2) rolled_back_restored in \<open>auto split: sum.splits\<close>)
next
  case False
  then show ?thesis using assms by (auto simp: creating_def finish_success_plain Let_def make_report_def)
qed

lemma exec_loop_rolled_back:
  "exec_loop H n bk s = (Ok rep, t) \<Longrightarrow> rep_result rep \<noteq> Success \<Longrightarrow> rolled_back bk rep t"
proof (induction n arbitrary: s)
  case (Suc n)
  then show ?case
    unfolding exec_loop_Suc
    by (auto split: prod.splits result.splits sum.splits opcode_success.splits
        dest: finish_error_rolled_back finish_success_rolled_back)
qed simp

lemma execute_rolled_back:
  assumes "execute H s = (Ok rep, t)" "rep_result rep \<noteq> Success"
  shows "rolled_back (take_backup (c_vm s)) rep t"
proof (cases "is_precompile (cf_code_address (c_frame s))")
  case True
  then show ?thesis
    using assms rolled_back_restored
    by (auto simp: execute_def execute_fuel_def execute_with_precompile make_report_def Let_def
        split: prod.splits result.splits if_splits)
next
  case False
  then show ?thesis
    using assms exec_loop_rolled_back unfolding execute_def execute_fuel_def execute_with_loop [OF False] by blast
qed

section \<open>Deployment\<close>

definition deployed :: "address \<Rightarrow> nat \<Rightarrow> transaction_report \<Rightarrow> ctx \<Rightarrow> bool" where
  "deployed a limit rep t \<longleftrightarrow>
     ai_bytecode (info_view (c_vm t) a) = rep_output rep \<and> length (rep_output rep) \<le> MAX_CODE_SIZE \<and>
     (rep_output rep = [] \<or> hd (rep_output rep) \<noteq> INVALID_CONTRACT_PREFIX) \<and>
     200 * length (rep_output rep) \<le> rep_gas_used rep \<and> rep_gas_used rep \<le> limit"

lemma update_bytecode_view:
  assumes "update_account_bytecode a code v = (Ok x, w)"
  shows "ai_bytecode (info_view w a) = code"
  using assms by (auto simp: update_account_bytecode_def sbind_eq_Ok insert_account_def sm_steps info_view_def)

lemma validate_create_Ok:
  assumes "validate_create code cost s = (Ok (Inr a), t)"
  shows "length code \<le> MAX_CODE_SIZE" "code = [] \<or> hd code \<noteq> INVALID_CONTRACT_PREFIX" "a = cf_to (c_frame s)"
    "t = s\<lparr>c_frame := (c_frame s)\<lparr>cf_gas_used := cf_gas_used (c_frame s) + cost\<rparr>\<rparr>"
    "cf_gas_used (c_frame s) + cost \<le> cf_gas_limit (c_frame s)"
proof -
  obtain r u where c: "increase_consumed_gas cost s = (r, u)" by fastforce
  show "length code \<le> MAX_CODE_SIZE" "code = [] \<or> hd code \<noteq> INVALID_CONTRACT_PREFIX" "a = cf_to (c_frame s)"
    "t = s\<lparr>c_frame := (c_frame s)\<lparr>cf_gas_used := cf_gas_used (c_frame s) + cost\<rparr>\<rparr>"
    "cf_gas_used (c_frame s) + cost \<le> cf_gas_limit (c_frame s)"
    using assms c charge_Ok [of cost s _ u]
    by (cases r; auto simp: validate_create_def sbind_def sm_steps attempt_def frame_def split: if_splits list.splits)+
qed

lemma finish_success_deployed:
  assumes "finish_success bk s = (Ok rep, t)" "rep_result rep = Success" "creating s"
  shows "deployed (cf_to (c_frame s)) (cf_gas_limit (c_frame s)) rep t"
proof (rule finish_success_create [OF assms(1,3)])
  let ?code = "cf_output (c_frame s)"
  fix v u
  assume v: "validate_create ?code (CODE_DEPOSIT_COST * length ?code) (pushed s (c_frame s)) = (Ok v, u)"
    and out: "case v of
       Inl e \<Rightarrow> t = restored bk (u\<lparr>c_frame := (c_frame u)\<lparr>cf_gas_used := cf_gas_limit (c_frame u)\<rparr>\<rparr>) \<and> rep_result rep = Revert e
     | Inr a \<Rightarrow> on_vm (update_account_bytecode a ?code) u = (Ok (), t) \<and> rep_result rep = Success"
    and rep: "rep = make_report (rep_result rep) (cf_gas_used (c_frame t)) (env_refunded_gas (vm_env (c_vm t))) (cf_output (c_frame t)) t"
  from out assms(2) obtain a w where a: "v = Inr a" "update_account_bytecode a ?code (c_vm u) = (Ok (), w)" "t = u\<lparr>c_vm := w\<rparr>"
    by (auto simp: on_vm_Ok split: sum.splits)
  have "rep_output rep = cf_output (c_frame t)" "rep_gas_used rep = cf_gas_used (c_frame t)"
    by (subst rep, simp add: make_report_def)+
  then show ?thesis
    using validate_create_Ok [OF v [unfolded a(1)]] a update_bytecode_view [OF a(2)]
    by (auto simp: deployed_def pushed_def)
qed

section \<open>Reachable states of a frame\<close>

text \<open>
  The states a frame goes through, one instruction after another. A sub-context is run with some
  fuel: a step that returns is the same with more of it.
\<close>

inductive frame_run :: "crypto \<Rightarrow> ctx \<Rightarrow> ctx \<Rightarrow> bool" for H :: crypto and s :: ctx where
  start: "frame_run H s s"
| step: "frame_run H s t \<Longrightarrow> exec_step H (execute_fuel H n) t = (Ok (Inr Continue), u) \<Longrightarrow> frame_run H s u"

lemma frame_run_trans: "frame_run H t u \<Longrightarrow> frame_run H s t \<Longrightarrow> frame_run H s u"
  by (induction rule: frame_run.induct) (auto intro: frame_run.step)

text \<open>The loop of the interpreter follows these steps to the instruction that ends the frame.\<close>

lemma exec_loop_run:
  assumes "exec_loop H n bk s = (Ok rep, t)"
  obtains u m r w where "frame_run H s u" "exec_step H (execute_fuel H m) u = (Ok r, w)" "r \<noteq> Inr Continue"
    "(case r of Inl e \<Rightarrow> finish_error bk e w | Inr _ \<Rightarrow> finish_success bk w) = (Ok rep, t)"
  using assms
proof (induction n arbitrary: s thesis)
  case (Suc n)
  let ?step = "exec_step H (execute_fuel H n) s"
  have fuel: "execute_with H (exec_loop H n) = execute_fuel H n" by (rule ext) (simp add: execute_fuel_def)
  obtain r w where st: "?step = (r, w)" by fastforce
  consider (go) "r = Ok (Inr Continue)" | (halt) x where "r = Ok x" "x \<noteq> Inr Continue"
    using Suc.prems(2) st unfolding exec_loop_Suc fuel by (cases r) auto
  then show ?case
  proof cases
    case go
    with Suc.prems(2) st have "exec_loop H n bk w = (Ok rep, t)" unfolding exec_loop_Suc fuel by simp
    moreover have "frame_run H s w" using frame_run.step [OF frame_run.start] st go by blast
    ultimately show ?thesis using Suc.IH [of w] Suc.prems(1) frame_run_trans by metis
  next
    case halt
    then show ?thesis
      using Suc.prems st frame_run.start [of H s] unfolding exec_loop_Suc fuel
      by (cases x) (auto split: opcode_success.splits)
  qed
qed simp

definition frame_inv :: "call_frame \<Rightarrow> bool" where
  "frame_inv f \<longleftrightarrow> frame_ok f \<and> code_ok f"

lemma exec_step_more_fuel:
  assumes "exec_step H (execute_fuel H n) s = (Ok x, t)"
  shows "exec_step H (execute_fuel H (n + k)) s = (Ok x, t)"
proof -
  have "extends (exec_loop H m bk) (exec_loop H (m + k) bk)" for m bk
    using exec_loop_fuel by (simp add: extends_def)
  then have "extends (execute_fuel H n) (execute_fuel H (n + k))"
    unfolding execute_fuel_def by (intro extends_execute_with)
  from extends_exec_step [OF this, of H] assms show ?thesis by (auto simp: extends_def)
qed

lemma sub_ok_fuel: "(\<And>x. length (keccak H x) = 32) \<Longrightarrow> sub_ok n (execute_fuel H n)"
  unfolding execute_fuel_def by (rule sub_ok_execute_with) (rule exec_loop_safe)

text \<open>One instruction, with whatever fuel it returns.\<close>

lemma step_safe_any_fuel:
  assumes H: "\<And>x. length (keccak H x) = 32" and s: "frame_ok (c_frame s)"
    and st: "exec_step H (execute_fuel H n) s = (Ok x, t)"
    and pd: "paid pd (length (cf_memory (c_frame s))) (cf_gas_used (c_frame s))"
      "pd \<Longrightarrow> next_opcode (c_frame s) \<noteq> Envr RETURNDATACOPY"
  shows "step_safe pd s (Ok x, t)"
proof -
  let ?k = "gas_left (c_frame s)"
  have "step_safe pd s (exec_step H (execute_fuel H (n + ?k)) s)"
    by (rule exec_step_safe [OF s sub_ok_fuel [OF H] H]) (use pd in auto)
  then show ?thesis using exec_step_more_fuel [OF st] by simp
qed

context machine_order
begin

lemma step_keeps: "Q (c_vm s) (c_vm (snd (exec_step H (execute_fuel H n) s)))"
proof -
  have "moves (on_machines Q) (exec_step H (execute_fuel H n))"
    by (rule machine.moves_step, rule moves_run_sub, rule moves_execute_fuel)
  from movesD [OF this, of s] show ?thesis by (simp add: on_machines_def)
qed

lemma frame_run_keeps: "frame_run H s t \<Longrightarrow> Q (c_vm s) (c_vm t)"
proof (induction rule: frame_run.induct)
  case (step t n u)
  then show ?case using step_keeps [of t H n] by (auto intro: trans)
qed (rule same)

end

lemma frame_run_inv:
  assumes H: "\<And>x. length (keccak H x) = 32" and run: "frame_run H s t" and s: "frame_inv (c_frame s)"
  shows "frame_inv (c_frame t) \<and> same_identity s t \<and> cf_gas_used (c_frame s) \<le> cf_gas_used (c_frame t)"
  using run
proof (induction rule: frame_run.induct)
  case start
  then show ?case using s identity.same by simp
next
  case (step t n u)
  have "same_identity t u" using identity_step [of t H "execute_fuel H n"] step.hyps(2) by simp
  moreover have "step_safe False t (Ok (Inr Continue), u)"
    by (rule step_safe_any_fuel [OF H _ step.hyps(2)]) (use step.IH in \<open>auto simp: frame_inv_def paid_def\<close>)
  moreover have "code_ok (c_frame u)"
    using exec_step_code_ok step.hyps(2) step.IH by (auto simp: frame_inv_def)
  ultimately show ?case
    using step.IH identity.trans by (auto simp: frame_inv_def step_safe_def fits_def)
qed

text \<open>The end of a creation is the end of one of its steps: it deploys its output.\<close>

lemma step_identity: "exec_step H ex s = (r, t) \<Longrightarrow> same_identity s t"
  using identity_step [of s H ex] by simp

lemma frame_run_identity: "frame_run H s t \<Longrightarrow> same_identity s t"
  by (induction rule: frame_run.induct) (auto intro: identity.same identity.trans step_identity)

lemma exec_loop_deployed:
  assumes "exec_loop H n bk s = (Ok rep, t)" "rep_result rep = Success" "creating s"
  shows "deployed (cf_to (c_frame s)) (cf_gas_limit (c_frame s)) rep t"
proof (rule exec_loop_run [OF assms(1)])
  fix u m r w
  assume run: "frame_run H s u" and st: "exec_step H (execute_fuel H m) u = (Ok r, w)"
    and fin: "(case r of Inl e \<Rightarrow> finish_error bk e w | Inr _ \<Rightarrow> finish_success bk w) = (Ok rep, t)"
  have id: "same_identity s w" using identity.trans [OF frame_run_identity [OF run] step_identity [OF st]] .
  have "same_context (c_vm s) (c_vm w)"
    using tx_context.trans [OF tx_context.frame_run_keeps [OF run] tx_context.step_keeps [of u H m]] st by simp
  with id assms(3) have w: "creating w" by (auto simp: creating_def same_identity_def same_context_def is_create_def)
  have "finish_success bk w = (Ok rep, t)"
    using fin assms(2) by (cases r) (auto simp: finish_error_eq Let_def make_report_def split: if_splits)
  from finish_success_deployed [OF this assms(2) w] id show ?thesis by (simp add: same_identity_def)
qed

lemma execute_deployed:
  assumes "execute H s = (Ok rep, t)" "rep_result rep = Success" "creating s"
    "\<not> is_precompile (cf_code_address (c_frame s))"
  shows "deployed (cf_to (c_frame s)) (cf_gas_limit (c_frame s)) rep t"
  using assms exec_loop_deployed unfolding execute_def execute_fuel_def execute_with_loop [OF assms(4)] by blast

section \<open>A call of an account without code\<close>

lemma execute_no_code:
  assumes "cf_bytecode (c_frame s) = []" "\<not> is_precompile (cf_code_address (c_frame s))" "\<not> creating s"
    "cf_pc (c_frame s) + 1 < usize_bound"
  defines "t \<equiv> pushed s ((c_frame s)\<lparr>cf_pc := cf_pc (c_frame s) + 1\<rparr>)"
  shows "execute H s = (Ok (make_report Success (cf_gas_used (c_frame s)) (env_refunded_gas (vm_env (c_vm s))) (cf_output (c_frame s)) t), t)"
proof -
  let ?u = "s\<lparr>c_frame := (c_frame s)\<lparr>cf_pc := cf_pc (c_frame s) + 1\<rparr>\<rparr>"
  have "exec_step H ex s = (Ok (Inr (OpResult Stop)), ?u)" for ex
    using assms(1,4)
    by (cases s) (simp add: exec_step_def sbind_def frame_def sm_steps next_opcode_def attempt_def exec_opcode_def
        exec_arithmetic_def on_frame_def increment_pc_def increment_pc_by_def checked_add_def)
  moreover have "finish_success bk ?u = (Ok (make_report Success (cf_gas_used (c_frame s)) (env_refunded_gas (vm_env (c_vm s))) (cf_output (c_frame s)) t), t)" for bk
    using assms(3) by (simp add: creating_def finish_success_plain t_def pushed_def Let_def is_create_def)
  ultimately show ?thesis
    unfolding execute_def execute_fuel_def execute_with_loop [OF assms(2)] exec_loop_Suc by simp
qed

end
