(* ===== verification/Evm_Transfer.thy ===== *)
theory Evm_Transfer
  imports Evm_Frames
begin

text \<open>
  A transaction to an account without code, from the initial machine to the report: validation,
  execution and settlement composed.
\<close>

lemma up_front_cost_no_blobs:
  assumes "up_front_cost e val bal = Ok cost" "env_tx_blob_hashes e = []" "env_gas_limit e < u64_bound"
  shows "unat cost = unat (env_gas_price e) * env_gas_limit e + unat val"
proof -
  have z: "blob_gas e = 0" using assms(2) by (simp add: blob_gas_def checked_mul_def u64_bound_def)
  obtain p q where p: "u256_checked_mul (env_gas_price e) (of_nat (env_gas_limit e)) = Some p"
      "u256_checked_add p val = Some q" "u256_checked_add q 0 = Some cost"
    using assms(1) unfolding up_front_cost_def get_blob_gas_price_def
    by (auto simp: result_simps Let_def z)
  have "unat p = unat (env_gas_price e) * env_gas_limit e"
    using u256_mul_gas [OF disjI1 [OF p(1)] assms(3)] .
  moreover have "unat q = unat p + unat val" "cost = q"
    using p(2,3) by (auto simp: result_simps unat_add_lem [THEN iffD1])
  ultimately show ?thesis by simp
qed

text \<open>The frame of a call to an account without code.\<close>

definition codeless :: "call_frame \<Rightarrow> bool" where
  "codeless f \<longleftrightarrow>
     cf_bytecode f = [] \<and> \<not> is_precompile (cf_code_address f) \<and> \<not> cf_create_op_called f \<and>
     cf_pc f = 0 \<and> cf_gas_used f = 0 \<and> cf_logs f = []"

lemma settle_no_code:
  assumes run: "execute_and_settle H s = (Ok rep, u)" and f: "codeless (c_frame s\<lparr>cf_gas_used := 0\<rparr>)"
    and v: "\<not> is_create (c_vm s)" "env_refunded_gas (vm_env (c_vm s)) = 0" "selfdestruct_set (vm_substate (c_vm s)) = {}"
      "env_gas_limit (vm_env (c_vm s)) < u64_bound"
  shows "rep_result rep = Success \<and> rep_gas_used rep = cf_gas_used (c_frame s) \<and> rep_logs rep = [] \<and>
    rep_gas_used rep \<le> env_gas_limit (vm_env (c_vm s)) \<and>
    balance_of (c_vm u) b = balance_of (c_vm s) b +
      only (cf_msg_sender (c_frame s)) (unat (env_gas_price (vm_env (c_vm s))) * (env_gas_limit (vm_env (c_vm s)) - cf_gas_used (c_frame s))) b +
      only (env_coinbase (vm_env (c_vm s)))
        (unat (env_gas_price (vm_env (c_vm s)) - env_base_fee_per_gas (vm_env (c_vm s))) * cf_gas_used (c_frame s)) b"
proof -
  let ?t = "pushed s ((c_frame s)\<lparr>cf_pc := cf_pc (c_frame s) + 1\<rparr>)"
  let ?r = "make_report Success (cf_gas_used (c_frame s)) (env_refunded_gas (vm_env (c_vm s))) (cf_output (c_frame s)) ?t"
  have ex: "execute H s = (Ok ?r, ?t)"
    by (rule execute_no_code) (use f v(1) in \<open>auto simp: codeless_def creating_def usize_bound_def\<close>)
  obtain r w where post: "post_execution_changes (c_frame ?t) ?r (c_vm ?t) = (Ok r, w)" and u: "c_vm u = w"
      and r: "rep = r\<lparr>rep_new_state := vm_cache w\<rparr>"
    using run unfolding execute_and_settle_def sbind_eq_Ok ex
    by (auto simp: sbind_eq_Ok sm_steps frame_def on_vm_Ok)
  have bal: "balance_of (c_vm ?t) b = balance_of (c_vm s) b" by (simp add: balance_of_def info_view_def pushed_def split: option.split)
  have "r = ?r\<lparr>rep_gas_refunded := refund_of ?r\<rparr> \<and> rep_gas_used ?r \<le> env_gas_limit (vm_env (c_vm ?t)) \<and>
      balance_of w b = balance_of (undone (c_frame ?t) ?r (c_vm ?t)) b + settled (vm_env (c_vm ?t)) (c_frame ?t) ?r b"
    using post_execution_Ok [OF post] v(3,4) by (simp add: pushed_def)
  then show ?thesis
    using bal f v(2) u r
    by (simp add: codeless_def undone_def reverted_def settled_def refund_of_def make_report_def only_def pushed_def)
qed

lemma transact_frame_no_code:
  assumes run: "transact_frame H s = (Ok rep, u)" and f: "codeless (c_frame s)" "cf_msg_sender (c_frame s) = env_origin (vm_env (c_vm s))"
    and v: "\<not> is_create (c_vm s)" "env_refunded_gas (vm_env (c_vm s)) = 0" "selfdestruct_set (vm_substate (c_vm s)) = {}"
      "env_gas_limit (vm_env (c_vm s)) < u64_bound" "env_tx_blob_hashes (vm_env (c_vm s)) = []"
  defines "e \<equiv> vm_env (c_vm s)" and "g \<equiv> intrinsic_price (cf_calldata (c_frame s)) False (vm_access_list (c_vm s))"
    and "val \<equiv> unat (cf_msg_value (c_frame s))"
  shows "rep_result rep = Success \<and> rep_gas_used rep = g \<and> rep_logs rep = [] \<and>
    balance_of (c_vm u) b + only (env_origin e) (unat (env_gas_price e) * g + val) b =
      balance_of (c_vm s) b + only (cf_to (c_frame s)) val b +
      only (env_coinbase e) (unat (env_gas_price e - env_base_fee_per_gas e) * g) b"
proof -
  obtain x t where prep: "prepare_execution H s = (Ok x, t)" and
      rest: "is_create (c_vm t) \<or> execute_and_settle H t = (Ok rep, u)"
    using run unfolding transact_frame_def by (auto simp: sbind_eq_Ok sm_steps split: if_splits)
  note p = prepare_execution_Ok [OF prep, folded e_def]
  from p(7) have t: "vm_env (c_vm t) = e" "vm_substate (c_vm t) = vm_substate (c_vm s)" "\<not> is_create (c_vm t)"
    using v(1) by (auto simp: only_cache_def e_def is_create_def)
  have frame: "c_frame t = (c_frame s)\<lparr>cf_gas_used := g\<rparr>" "cf_gas_used (c_frame t) = g"
    using p(8) [OF v(1)] p(2) f v(1) by (simp_all add: codeless_def g_def)
  have settle: "rep_result rep = Success \<and> rep_gas_used rep = g \<and> rep_logs rep = [] \<and> rep_gas_used rep \<le> env_gas_limit e \<and>
      balance_of (c_vm u) b = balance_of (c_vm t) b +
        only (env_origin e) (unat (env_gas_price e) * (env_gas_limit e - g)) b +
        only (env_coinbase e) (unat (env_gas_price e - env_base_fee_per_gas e) * g) b"
    using settle_no_code [of H t rep u b] rest t frame f v by (simp add: codeless_def e_def)
  obtain cost :: u256 where cost: "unat cost = unat (env_gas_price e) * env_gas_limit e + val"
      "balance_of (c_vm t) b + only (env_origin e) (unat cost) b = balance_of (c_vm s) b + only (cf_to (c_frame s)) val b"
  proof -
    from p(1) obtain c where c: "up_front_cost e (cf_msg_value (c_frame s)) (ai_balance (info_view (c_vm s) (env_origin e))) = Ok c"
        "ledger (only (cf_to (c_frame s)) val) (only (env_origin e) (unat c)) (only (env_origin e) 1) (c_vm s) (c_vm t)"
      using v(1) by (auto simp: val_def)
    then show thesis using that [of c] up_front_cost_no_blobs [OF c(1)] v(4,5) by (simp add: ledger_def e_def val_def)
  qed
  have "unat (env_gas_price e) * g + unat (env_gas_price e) * (env_gas_limit e - g) = unat (env_gas_price e) * env_gas_limit e"
    using settle by (simp flip: add_mult_distrib2)
  then show ?thesis using settle cost by (auto simp: only_def split: if_splits)
qed

lemma vm_new_call:
  assumes "vm_new H (TxCall a) e val dat d c al = Ok v"
  shows "vm_call_frames v =
      [call_frame_new (env_origin e) a a (ai_bytecode (info_view v a)) val dat False (env_gas_limit e) 0 0 False]"
    "vm_env v = e" "vm_substate v = substate_new e al a {}" "vm_tx_kind v = TxCall a" "vm_access_list v = al"
  using assms
  by (auto simp: vm_new_def get_account_or_load_def info_view_def load_account_def Let_def split: prod.splits option.splits)

lemma transfer_settles:
  assumes new: "vm_new H (TxCall a) e val dat d c al = Ok v" and run: "transact H v = (Ok rep, w)"
    and plain: "ai_bytecode (info_view v a) = []" "\<not> is_precompile a"
    and e: "env_refunded_gas e = 0" "env_tx_blob_hashes e = []" "env_gas_limit e < u64_bound"
  defines "g \<equiv> intrinsic_price dat False al"
  shows "rep_result rep = Success \<and> rep_gas_used rep = g \<and> rep_logs rep = [] \<and>
    balance_of w b + only (env_origin e) (unat (env_gas_price e) * g + unat val) b =
      balance_of v b + only a (unat val) b +
      only (env_coinbase e) (unat (env_gas_price e - env_base_fee_per_gas e) * g) b"
proof -
  let ?s = "\<lparr>c_vm = v\<lparr>vm_call_frames := []\<rparr>,
    c_frame = call_frame_new (env_origin e) a a [] val dat False (env_gas_limit e) 0 0 False\<rparr>"
  note v = vm_new_call [OF new]
  obtain u where u: "transact_frame H ?s = (Ok rep, u)" "w = c_vm u"
    using run v(1) plain(1) by (auto simp: transact_def split: prod.splits)
  have "balance_of (c_vm ?s) b = balance_of v b" by (simp add: balance_of_def info_view_def split: option.split)
  then show ?thesis
    using transact_frame_no_code [OF u(1), of b] plain e v u(2)
    by (simp add: codeless_def call_frame_new_def is_create_def substate_new_def g_def)
qed

end
