(* ===== verification/Evm_Values.thy ===== *)
theory Evm_Values
  imports Evm_Settle
begin

text \<open>
  What single components compute: the price of blob gas as a truncated exponential series, the refund
  of a storage write against the specified one, and the storage instructions as reads and writes of
  one value for each slot.
\<close>

section \<open>The exponential series\<close>

primrec series_term :: "nat \<Rightarrow> nat \<Rightarrow> nat \<Rightarrow> nat \<Rightarrow> nat" where
  "series_term f n d 0 = f * d"
| "series_term f n d (Suc i) = series_term f n d i * n div (d * Suc i)"

definition is_series_sum :: "nat \<Rightarrow> nat \<Rightarrow> nat \<Rightarrow> nat \<Rightarrow> bool" where
  "is_series_sum f n d out \<longleftrightarrow>
     (\<exists>k. (\<forall>j. 0 < series_term f n d j \<longleftrightarrow> j < k) \<and> out = (\<Sum>j<k. series_term f n d j))"

lemma series_term_zero: "series_term f n d k = 0 \<Longrightarrow> k \<le> j \<Longrightarrow> series_term f n d j = 0"
  by (induction j) (auto simp: le_Suc_eq)

lemma fake_exponential_loop_Ok:
  "fake_exponential_loop b e n d i out acc = Ok r \<longleftrightarrow>
     (if acc = 0 then r = out
      else out + acc < b \<and> acc * n < b \<and> d * i < b \<and> d * i \<noteq> 0 \<and> i + 1 < b \<and>
        fake_exponential_loop b e n d (i + 1) (out + acc) (acc * n div (d * i)) = Ok r)"
  by (subst fake_exponential_loop.simps) auto

lemma fake_exponential_loop_series:
  assumes "fake_exponential_loop b e n d i out acc = Ok r"
    "i = k + 1" "out = (\<Sum>j<k. series_term f n d j)" "acc = series_term f n d k" "\<And>j. j < k \<Longrightarrow> 0 < series_term f n d j"
  shows "is_series_sum f n d r"
  using assms
proof (induction b e n d i out acc arbitrary: k rule: fake_exponential_loop.induct)
  case (1 b e n d i out acc)
  show ?case
  proof (cases "acc = 0")
    case True
    then have "r = out" using 1(2) by (simp add: fake_exponential_loop_Ok [of b e n d i])
    moreover have "0 < series_term f n d j \<longleftrightarrow> j < k" for j
      using 1(5,6) True series_term_zero [of f n d k j] by (cases "j < k") auto
    ultimately show ?thesis using 1(4) unfolding is_series_sum_def by blast
  next
    case False
    have st: "out + acc < b" "acc * n < b" "d * i < b" "d * i \<noteq> 0" "i + 1 < b"
        "fake_exponential_loop b e n d (i + 1) (out + acc) (acc * n div (d * i)) = Ok r"
      using 1(2) False by (simp_all only: fake_exponential_loop_Ok [of b e n d i] if_False simp_thms)
    show ?thesis
      by (rule 1(1) [where k = "Suc k"]) (use st False 1(3-6) in \<open>auto simp: less_Suc_eq\<close>)
  qed
qed

lemma fake_exponential_loop_mono:
  assumes "fake_exponential_loop b e n d i out acc = Ok r" "b \<le> b'"
  shows "fake_exponential_loop b' e' n d i out acc = Ok r"
  using assms
proof (induction b e n d i out acc rule: fake_exponential_loop.induct)
  case (1 b e n d i out acc)
  then show ?case
    by (simp only: fake_exponential_loop_Ok [of b e n d i] fake_exponential_loop_Ok [of b' e' n d i] split: if_split)
      (use 1(1) in auto)
qed

lemma fake_exponential_loop_less:
  assumes "fake_exponential_loop b e n d i out acc = Ok r" "out < b"
  shows "r < b"
  using assms
proof (induction b e n d i out acc rule: fake_exponential_loop.induct)
  case (1 b e n d i out acc)
  then show ?case
    by (simp only: fake_exponential_loop_Ok [of b e n d i] split: if_splits) auto
qed

lemma fake_exponential_series:
  assumes "fake_exponential f n d = Ok p"
  obtains out where "is_series_sum f n d out" "p = out div d" "0 < d"
    "fake_exponential_loop u64_bound ArithmeticOperationOverflow n d 1 0 (f * d) = Ok out" "f * d < u64_bound"
proof -
  from assms obtain out where out: "fake_exponential_loop u64_bound ArithmeticOperationOverflow n d 1 0 (f * d) = Ok out"
      "p = out div d" "0 < d" "f * d < u64_bound"
    by (auto simp: fake_exponential_def result_simps checked_div_def split: if_splits)
  then have "is_series_sum f n d out"
    using fake_exponential_loop_series [of u64_bound ArithmeticOperationOverflow n d 1 0 "f * d" out 0] by simp
  with out that show thesis by blast
qed

lemma fake_exponential_u256_agrees:
  assumes "fake_exponential f n d = Ok p" "f < u64_bound" "n < u64_bound" "d < u64_bound"
  shows "fake_exponential_u256 (of_nat f) (of_nat n) (of_nat d) = Ok (of_nat p)"
proof -
  obtain out where out: "p = out div d" "0 < d" "f * d < u64_bound"
    "fake_exponential_loop u64_bound ArithmeticOperationOverflow n d 1 0 (f * d) = Ok out"
    using fake_exponential_series [OF assms(1)] by metis
  have b: "u64_bound \<le> 2 ^ 256" "m < 2 ^ 256" if "m < u64_bound" for m
    using that by (simp_all add: u64_bound_def)
  have r: "out < 2 ^ 256" using fake_exponential_loop_less [OF out(4)] b by (simp add: u64_bound_def)
  have u: "unat (of_nat m :: u256) = m" if "m < 2 ^ 256" for m
    using that by (simp only: unat_of_nat len_num1 len_bit0 take_bit_eq_mod) (simp add: take_bit_nat_eq_self)
  have "fake_exponential_loop (2 ^ 256) ArithmeticOperationDividedByZero n d 1 0 (f * d) = Ok out"
    using fake_exponential_loop_mono [OF out(4) b(1)] assms(2) by blast
  note loop = this
  have mul: "u256_checked_mul (of_nat f) (of_nat d) = Some (of_nat (f * d))"
    unfolding u256_checked_mul_def u [OF b(2) [OF assms(2)]] u [OF b(2) [OF assms(4)]] using b(2) [OF out(3)] by simp
  have nz: "(of_nat d :: u256) \<noteq> 0" using u [OF b(2) [OF assms(4)]] out(2) by auto
  have "(of_nat out :: u256) div of_nat d = of_nat (out div d)"
    by (simp only: word_unat_eq_iff unat_div u [OF r] u [OF b(2) [OF assms(4)]] u [OF le_less_trans [OF div_le_dividend r]])
  then have quo: "u256_checked_div (of_nat out) (of_nat d) = Some (of_nat (out div d) :: u256)"
    using nz by (simp only: u256_checked_div_def if_False)
  show ?thesis
    unfolding fake_exponential_u256_def mul ok_or.simps rbind.simps u [OF b(2) [OF assms(3)]] u [OF b(2) [OF assms(4)]]
      u [OF b(2) [OF out(3)]] loop quo out(1) ..
qed

section \<open>The refund of a storage write\<close>

text \<open>The change of the refund counter that EIP-2200 with the constants of EIP-3529 specifies.\<close>

definition eip3529_refund :: "u256 \<Rightarrow> u256 \<Rightarrow> u256 \<Rightarrow> int" where
  "eip3529_refund original current new =
     (if current = new then 0
      else if current = original then if new = 0 then 4800 else 0
      else (if original = 0 then 0 else if current = 0 then -4800 else if new = 0 then 4800 else 0) +
           (if new = original then if original = 0 then 19900 else 2800 else 0))"

lemma sstore_refund_eq:
  assumes "r < u64_bound"
  shows "sstore_refund slot new r = Ok m \<longleftrightarrow>
    m < u64_bound \<and>
    int m = int r + eip3529_refund (original_value slot) (current_value slot) new -
      (if original_value slot \<noteq> 0 \<and> new = original_value slot \<and> current_value slot \<noteq> original_value slot then 2800 else 0)"
  using assms
  by (auto simp: sstore_refund_def eip3529_refund_def result_simps split: if_splits)

section \<open>Storage\<close>

text \<open>A slot that has been accessed is warm, and its value is in the cache.\<close>

definition warm_slot :: "vm \<Rightarrow> address \<Rightarrow> h256 \<Rightarrow> bool" where
  "warm_slot v a k \<longleftrightarrow>
     k \<in> touched_slots v a \<and> (\<exists>acc. vm_cache v a = Some acc \<and> acc_storage acc k \<noteq> None)"

lemma access_storage_slot_result:
  "fst (access_storage_slot a k v) = Ok (read_slot v a k, k \<notin> touched_slots v a)"
  by (simp add: access_storage_slot_def sbind_def sm_steps get_account_mut_def insert_account_def read_slot_def Let_def
      split: option.split)

lemma access_storage_slot_state:
  fixes v a k
  defines "w \<equiv> snd (access_storage_slot a k v)"
  shows "warm_slot w a k" "read_slot w a' k' = read_slot v a' k'"
    "info_view w a' = info_view v a'" "vm_env w = vm_env v"
  by (auto simp: w_def warm_slot_def access_storage_slot_def sbind_def sm_steps get_account_mut_def insert_account_def
      touched_slots_def read_slot_def load_account_def info_view_def Let_def split: option.split)

lemma access_storage_slot_again:
  "warm_slot v a k \<Longrightarrow> access_storage_slot a k v = (Ok (read_slot v a k, False), v)"
  by (auto simp: warm_slot_def access_storage_slot_def sbind_def sm_steps get_account_mut_def insert_account_def
      touched_slots_def read_slot_def Let_def insert_absorb fun_upd_idem split: option.splits)

lemma update_account_storage_state:
  fixes v a k n
  defines "w \<equiv> snd (update_account_storage a k n v)"
  assumes "warm_slot v a k"
  shows "fst (update_account_storage a k n v) = Ok ()" "warm_slot w a k"
    "storage_view w a' k' = (if a' = a \<and> k' = k then n else storage_view v a' k')"
    "info_view w a' = info_view v a'"
  using assms(2)
  by (auto simp: w_def warm_slot_def update_account_storage_def sbind_def sm_steps get_account_mut_def insert_account_def
      touched_slots_def read_slot_def storage_view_def info_view_def Let_def split: option.splits)

lemma pop_Ok:
  "pop s = (Ok x, t) \<longleftrightarrow> (\<exists>st. cf_stack (c_frame s) = st @ [x] \<and> t = s\<lparr>c_frame := (c_frame s)\<lparr>cf_stack := st\<rparr>\<rparr>)"
  by (cases "cf_stack (c_frame s)" rule: rev_cases) (auto simp: pop_def stack_pop_def on_stack_def)

lemma env_update_views:
  "warm_slot (vm_env_update h v) = warm_slot v" "storage_view (vm_env_update h v) = storage_view v"
  "info_view (vm_env_update h v) = info_view v"
proof -
  have "vm_cache (vm_env_update h v) = vm_cache v" "vm_db (vm_env_update h v) = vm_db v"
    "vm_substate (vm_env_update h v) = vm_substate v"
    by (cases v; simp)+
  then show "warm_slot (vm_env_update h v) = warm_slot v" "storage_view (vm_env_update h v) = storage_view v"
    "info_view (vm_env_update h v) = info_view v"
    by (simp_all only: fun_eq_iff warm_slot_def touched_slots_def storage_view_def read_slot_def info_view_def simp_thms)
qed

lemma op_sstore_Ok:
  assumes "op_sstore s = (Ok x, t)" "cf_stack (c_frame s) = st @ [n, k]"
  defines "a \<equiv> cf_to (c_frame s)"
  shows "warm_slot (c_vm t) a k" "storage_view (c_vm t) a' k' = (if a' = a \<and> k' = k then n else storage_view (c_vm s) a' k')"
    "info_view (c_vm t) a' = info_view (c_vm s) a'" "\<not> cf_is_static (c_frame s)" "x = Continue"
    "cf_to (c_frame t) = cf_to (c_frame s)" "cf_stack (c_frame t) = st"
proof -
  obtain r v h g w where acc: "access_storage_slot a k (c_vm s) = (Ok r, v)"
      and upd: "update_account_storage a k n (vm_env_update h v) = (Ok (), w)"
      and t: "c_vm t = w" "c_frame t = (c_frame s)\<lparr>cf_stack := st, cf_gas_used := g\<rparr>" "\<not> cf_is_static (c_frame s)" "x = Continue"
    using assms(1,2) unfolding op_sstore_def a_def
    by (auto simp: sbind_eq_Ok sm_steps frame_def env_def pop_Ok on_vm_Ok set_env_def charge_Ok
        split: if_splits)
  have env: "warm_slot (vm_env_update h v) a k" "storage_view (vm_env_update h v) a' k' = storage_view (c_vm s) a' k'"
    "info_view (vm_env_update h v) a' = info_view (c_vm s) a'"
    using access_storage_slot_state [of a k "c_vm s"] acc
    by (simp_all add: env_update_views, simp add: storage_view_def)
  show "warm_slot (c_vm t) a k" "storage_view (c_vm t) a' k' = (if a' = a \<and> k' = k then n else storage_view (c_vm s) a' k')"
    "info_view (c_vm t) a' = info_view (c_vm s) a'" "\<not> cf_is_static (c_frame s)" "x = Continue"
    "cf_to (c_frame t) = cf_to (c_frame s)" "cf_stack (c_frame t) = st"
    using t env update_account_storage_state [OF env(1), of n] upd by simp_all
qed

lemma run_frame [run_simps]: "sbind (frame h) k s = k (h (c_frame s)) s"
  by (simp add: sbind_def frame_def sm_steps)

lemma run_step: "m s = (Ok x, t) \<Longrightarrow> sbind m k s = k x t"
  by (simp add: sbind_def)

lemma with_stack_sel [run_simps]:
  "cf_to (c_frame (with_stack g st s)) = cf_to (c_frame s)" "cf_stack (c_frame (with_stack g st s)) = st"
  "cf_pc (c_frame (with_stack g st s)) = cf_pc (c_frame s)" "c_vm (with_stack g st s) = c_vm s"
  "cf_bytecode (c_frame (with_stack g st s)) = cf_bytecode (c_frame s)"
  by (simp_all add: with_stack_def)

lemma op_sload_warm:
  assumes "warm_slot (c_vm s) (cf_to (c_frame s)) k" "length st < STACK_LIMIT" "g + 100 \<le> cf_gas_limit (c_frame s)"
    "cf_gas_limit (c_frame s) < u64_bound"
  shows "op_sload (with_stack g (st @ [k]) s) =
    (Ok Continue, with_stack (g + 100) (st @ [storage_view (c_vm s) (cf_to (c_frame s)) k]) s)"
proof -
  have "on_vm (access_storage_slot (cf_to (c_frame s)) k) (with_stack g st s) =
      (Ok (read_slot (c_vm s) (cf_to (c_frame s)) k, False), with_stack g st s)"
    using access_storage_slot_again [OF assms(1)] by (simp add: on_vm_def with_stack_def)
  note access = run_step [where m = "on_vm (access_storage_slot (cf_to (c_frame s)) k)", OF this]
  have "gas_sload False = Ok 100" by (simp add: gas_sload_def checked_add_def u64_bound_def)
  then show ?thesis
    using assms(2-4) by (simp add: op_sload_def run_simps access storage_view_def)
qed

section \<open>Memory\<close>

lemma on_memory_Ok:
  "on_memory m s = (Ok x, t) \<longleftrightarrow>
     (\<exists>mem. m (cf_memory (c_frame s)) = (Ok x, mem) \<and> t = s\<lparr>c_frame := (c_frame s)\<lparr>cf_memory := mem\<rparr>\<rparr>)"
  by (auto simp: on_memory_def split: prod.splits)

lemma op_mstore_Ok:
  assumes "op_mstore s = (Ok x, t)" "cf_stack (c_frame s) = st @ [w, off]" "mem_ok (cf_memory (c_frame s))"
  shows "load_word off (cf_memory (c_frame t)) = (Ok w, cf_memory (c_frame t))"
    "unat off + 32 \<le> length (cf_memory (c_frame t))" "mem_ok (cf_memory (c_frame t))"
    "mem_byte (cf_memory (c_frame t)) i =
      (if unat off \<le> i \<and> i < unat off + 32 then to_be_bytes w ! (i - unat off) else mem_byte (cf_memory (c_frame s)) i)"
    "x = Continue" "cf_stack (c_frame t) = st"
proof -
  obtain m where m: "try_store_data off (to_be_bytes w) (cf_memory (c_frame s)) = (Ok (), m)"
      and t: "cf_memory (c_frame t) = m" "x = Continue" "cf_stack (c_frame t) = st"
    using assms(1,2) unfolding op_mstore_def
    by (auto simp: sbind_eq_Ok sm_steps frame_def memory_len_def pop_Ok charge_Ok on_memory_Ok)
  have l: "length (to_be_bytes w) = 32" by (simp add: to_be_bytes_def)
  then have ne: "to_be_bytes w \<noteq> []" by (metis list.size(3) zero_neq_numeral)
  have "try_store_word off w (cf_memory (c_frame s)) = (Ok (), m)"
    using m by (simp add: try_store_word_def try_store_data_def WORD_SIZE_def l)
  from load_after_store [OF this assms(3)] show "load_word off (cf_memory (c_frame t)) = (Ok w, cf_memory (c_frame t))"
    using t by simp
  show "mem_ok (cf_memory (c_frame t))"
    using assms(3) movesD [OF grows_store_data, of "cf_memory (c_frame s)" off "to_be_bytes w"] m t by (simp add: grows_def)
  show "unat off + 32 \<le> length (cf_memory (c_frame t))"
    "mem_byte (cf_memory (c_frame t)) i =
      (if unat off \<le> i \<and> i < unat off + 32 then to_be_bytes w ! (i - unat off) else mem_byte (cf_memory (c_frame s)) i)"
    "x = Continue" "cf_stack (c_frame t) = st"
    using try_store_data_Ok [OF m ne] t by (simp_all add: l)
qed

lemma op_mload_inside:
  assumes "load_word off (cf_memory (c_frame s)) = (Ok w, cf_memory (c_frame s))"
    "unat off + 32 \<le> length (cf_memory (c_frame s))" "mem_ok (cf_memory (c_frame s))" "length st < STACK_LIMIT"
    "g + 3 \<le> cf_gas_limit (c_frame s)" "cf_gas_limit (c_frame s) < u64_bound"
  shows "op_mload (with_stack g (st @ [off]) s) = (Ok Continue, with_stack (g + 3) (st @ [w]) s)"
proof -
  let ?m = "cf_memory (c_frame s)" and ?n = "next_multiple (unat off + 32)"
  have n: "?n \<le> length ?m"
    using next_multiple_mono [OF assms(2)] assms(3) by (simp add: mem_ok_def next_multiple_id)
  have "length ?m < usize_bound" using assms(3) by (simp add: mem_ok_def slice_bound_def usize_bound_def)
  then have need: "calculate_memory_size off 32 = Ok ?n"
    using assms(2) n by (simp add: calculate_memory_size_def u256_to_usize_def checked_add_def checked_next_multiple_def)
  have cost: "gas_mload ?n (length ?m) = Ok 3"
    using n by (simp add: gas_mload_def mem_expansion_behavior_def expansion_cost_def checked_add_def u64_bound_def)
  have load: "sbind (on_memory (load_word off)) k (with_stack h st s) = k w (with_stack h st s)" for k :: "u256 \<Rightarrow> 'b ctx_m" and h st
    using assms(1) by (simp add: on_memory_def with_stack_def sbind_def)
  have len: "sbind memory_len k (with_stack h st s) = k (length ?m) (with_stack h st s)" for k :: "nat \<Rightarrow> 'b ctx_m" and h st
    by (simp add: memory_len_def frame_def sbind_def sm_steps with_stack_def)
  show ?thesis
    using assms(4-6) by (simp add: op_mload_def run_simps need cost load len)
qed

lemma op_mcopy_Ok:
  assumes "op_mcopy s = (Ok x, t)" "cf_stack (c_frame s) = st @ [sz, src, dst]"
  shows "mem_byte (cf_memory (c_frame t)) i =
      (if unat dst \<le> i \<and> i < unat dst + unat sz then mem_byte (cf_memory (c_frame s)) (unat src + (i - unat dst))
       else mem_byte (cf_memory (c_frame s)) i)"
    "cf_stack (c_frame t) = st"
proof -
  obtain m where "try_copy_within src dst (unat sz) (cf_memory (c_frame s)) = (Ok (), m)"
      "cf_memory (c_frame t) = m" "cf_stack (c_frame t) = st"
    using assms unfolding op_mcopy_def
    by (auto simp: sbind_eq_Ok sm_steps frame_def memory_len_def pop_Ok charge_Ok on_memory_Ok result_simps u256_checked_Some)
  then show "mem_byte (cf_memory (c_frame t)) i =
      (if unat dst \<le> i \<and> i < unat dst + unat sz then mem_byte (cf_memory (c_frame s)) (unat src + (i - unat dst))
       else mem_byte (cf_memory (c_frame s)) i)"
    "cf_stack (c_frame t) = st"
    using try_copy_within_Ok by auto
qed

text \<open>A copy of no return data that starts behind position zero.\<close>

lemma op_returndatacopy_empty:
  assumes "0 < ro" "ro \<le> length (cf_sub_return_data (c_frame s))" "length (cf_sub_return_data (c_frame s)) < usize_bound"
    "unat dst < slice_bound - 32" "unat w = ro"
    "g + 3 \<le> cf_gas_limit (c_frame s)" "cf_gas_limit (c_frame s) < u64_bound" "mem_ok (cf_memory (c_frame s))"
  shows "\<exists>t. op_returndatacopy (with_stack g (st @ [0, w, dst]) s) = (Ok Continue, t) \<and>
    cf_gas_used (c_frame t) = g + 3 \<and>
    length (cf_memory (c_frame t)) = max (length (cf_memory (c_frame s))) (next_multiple (unat dst))"
proof -
  let ?m = "cf_memory (c_frame s)"
  have bounds: "slice_bound \<le> usize_bound" "next_multiple (unat dst) < unat dst + 32"
    using next_multiple_props(3) by (simp_all add: slice_bound_def usize_bound_def)
  have cost: "gas_returndatacopy 0 n 0 = Ok 3" for n
    by (simp add: gas_returndatacopy_def copy_behavior_def expansion_cost_def checked_add_def checked_mul_def
        usize_bound_def u64_bound_def WORD_SIZE_def)
  have len: "sbind memory_len k (with_stack h st s) = k (length ?m) (with_stack h st s)" for k :: "nat \<Rightarrow> 'b ctx_m" and h st
    by (simp add: memory_len_def frame_def sbind_def sm_steps with_stack_def)
  have usize: "u256_to_usize w = Some ro" "u256_to_usize 0 = Some 0"
    using assms by (auto simp: u256_to_usize_def usize_bound_def)
  have "next_multiple (unat dst) < usize_bound" "unat dst < usize_bound" using assms(4) bounds by linarith+
  moreover have "next_multiple (unat dst) \<le> length ?m" if "unat dst \<le> length ?m"
    using next_multiple_mono [OF that] assms(8) by (simp add: mem_ok_def next_multiple_id)
  moreover have "next_multiple (unat dst) < slice_bound" using assms(4) bounds by linarith
  ultimately have grow: "\<exists>m'. try_store_data dst [] ?m = (Ok (), m') \<and> length m' = max (length ?m) (next_multiple (unat dst))"
    using next_multiple_props(1) [of "unat dst"] unsigned_less [of dst]
    by (auto simp: try_store_data_def try_store_sized_def try_store_def sbind_def sm_steps u256_checked_add_def u256_to_usize_def
        try_resize_def checked_next_multiple_def next_multiple_def)
  have zero: "vec_zeroes 0 = Ok []" "fill_data [] ro src = []" for src
    by (simp_all add: fill_data_def slice_bound_def)
  have sub: "cf_sub_return_data (c_frame (with_stack h st s)) = cf_sub_return_data (c_frame s)" for h st
    by (simp add: with_stack_def)
  have "ro < usize_bound" using assms(2,3) by linarith
  then have limit: "checked_add usize_bound ro 0 = Some ro" by (simp add: checked_add_def)
  show ?thesis
    using assms grow
    by (auto simp: op_returndatacopy_def run_simps usize len cost calculate_memory_size_def sub zero limit)
      (auto simp: sbind_def on_memory_def with_stack_def sm_steps)
qed

section \<open>The stack\<close>

definition push_value :: "bytes \<Rightarrow> nat \<Rightarrow> nat \<Rightarrow> u256" where
  "push_value code pc n = from_be_bytes (take n (drop (Suc pc) code @ replicate n 0))"

lemma of_be_bytes_zeros: "of_be_bytes (replicate k 0) = 0"
  by (induction k) (simp_all add: replicate_append_same [symmetric])

lemma op_push_spec:
  assumes "1 \<le> n" "n \<le> 32" "length st < STACK_LIMIT" "g + 3 \<le> cf_gas_limit (c_frame s)" "cf_gas_limit (c_frame s) < u64_bound"
    "cf_pc (c_frame s) + n < usize_bound"
  shows "op_push n (with_stack g st s) =
    (Ok Continue, with_stack (g + 3) (st @ [push_value (cf_bytecode (c_frame s)) (cf_pc (c_frame s)) n])
       (s\<lparr>c_frame := (c_frame s)\<lparr>cf_pc := cf_pc (c_frame s) + n\<rparr>\<rparr>))"
proof -
  let ?f = "c_frame s" and ?bs = "take n (drop (Suc (cf_pc (c_frame s))) (cf_bytecode (c_frame s)))"
  have "bytes_to_word ?bs n = Ok (replicate (32 - n) 0 @ ?bs @ replicate (n - length ?bs) 0)"
    using assms(2) by (simp add: bytes_to_word_def checked_sub_def WORD_SIZE_def fill_data_def Let_def min_def)
  moreover have "?bs @ replicate (n - length ?bs) 0 = take n (drop (Suc (cf_pc ?f)) (cf_bytecode ?f) @ replicate n 0)"
    by (simp add: min_def)
  ultimately have w: "bytes_to_word ?bs n =
      Ok (replicate (32 - n) 0 @ take n (drop (Suc (cf_pc ?f)) (cf_bytecode ?f) @ replicate n 0))"
    by metis
  have z: "(from_be_bytes (replicate (32 - n) 0 @ bs) :: u256) = from_be_bytes bs" for bs
    using of_be_bytes_zeros by (simp add: from_be_bytes_def of_be_bytes_append)
  have pc: "sbind (on_frame (increment_pc_by n)) k (with_stack h st s) =
      k () (with_stack h st (s\<lparr>c_frame := ?f\<lparr>cf_pc := cf_pc ?f + n\<rparr>\<rparr>))" for k :: "unit \<Rightarrow> 'b ctx_m" and h st
    using assms(6)
    by (cases "c_frame s") (simp add: on_frame_def increment_pc_by_def checked_add_def sbind_def with_stack_def)
  have "read_bytcode_slice n (c_frame (with_stack h st s)) = Ok ?bs" for h st
    using assms(1,6) by (simp add: read_bytcode_slice_def with_stack_sel checked_add_def)
  then show ?thesis
    using assms w by (simp add: op_push_def run_simps pc z push_value_def)
qed

lemma op_dup_spec:
  assumes "1 \<le> n" "n \<le> length st" "length st < STACK_LIMIT" "g + 3 \<le> cf_gas_limit (c_frame s)" "cf_gas_limit (c_frame s) < u64_bound"
  shows "op_dup n (with_stack g st s) = (Ok Continue, with_stack (g + 3) (st @ [st ! (length st - n)]) s)"
proof -
  have "length st - n < length st" using assms(1,2) by simp
  then show ?thesis
    using assms by (simp add: op_dup_def run_simps stack_get_def checked_sub_def)
qed

lemma op_swap_spec:
  assumes "1 \<le> n" "n < length st" "g + 3 \<le> cf_gas_limit (c_frame s)" "cf_gas_limit (c_frame s) < u64_bound"
  shows "op_swap n (with_stack g st s) =
    (Ok Continue, with_stack (g + 3) (st[length st - 1 := st ! (length st - 1 - n), length st - 1 - n := st ! (length st - 1)]) s)"
proof -
  have swap: "sbind (on_stack (stack_swap (length st - 1) (length st - 1 - n))) k (with_stack h st s) =
      k () (with_stack h (st[length st - 1 := st ! (length st - 1 - n), length st - 1 - n := st ! (length st - 1)]) s)" for k :: "unit \<Rightarrow> 'b ctx_m" and h
    using assms(1,2) by (auto simp: on_stack_def stack_swap_def sbind_def with_stack_def)
  have "n \<le> length st - 1" using assms(2) by simp
  then show ?thesis
    using assms by (simp add: op_swap_def run_simps checked_sub_def swap [simplified])
qed

section \<open>Divergences from the specification\<close>

text \<open>
  The check of \<^verbatim>\<open>BLOBHASH\<close> lets the index equal to the number of hashes pass, for which the lookup fails.
\<close>

lemma op_blobhash_at_length:
  assumes "unat k = length (env_tx_blob_hashes (vm_env (c_vm s)))" "length (env_tx_blob_hashes (vm_env (c_vm s))) < usize_bound"
    "g + 3 \<le> cf_gas_limit (c_frame s)" "cf_gas_limit (c_frame s) < u64_bound"
  shows "fst (op_blobhash (with_stack g (st @ [k]) s)) = Err (Internal BlobHashOutOfRange)"
proof -
  let ?hs = "env_tx_blob_hashes (vm_env (c_vm s))"
  have k: "u256_to_usize k = Some (length ?hs)" "\<not> of_nat (length ?hs) < k"
    using assms(1,2) unfolding u256_to_usize_def assms(1) [symmetric] by auto
  have env: "sbind (env h) f (with_stack m xs s) = f (h (vm_env (c_vm s))) (with_stack m xs s)"
    for h :: "environment \<Rightarrow> 'b" and f :: "'b \<Rightarrow> 'c ctx_m" and m xs
    by (simp add: sbind_def env_def sm_steps with_stack_def)
  have err: "sbind (slift (Err e)) f u = (Err e, u)" for e :: vm_error and f :: "'b \<Rightarrow> 'c ctx_m" and u :: ctx
    by (simp add: sbind_def sm_steps)
  show ?thesis using assms(3,4) by (simp add: op_blobhash_def run_simps block_gas_def env k err)
qed

text \<open>The price of a modular exponentiation with an exponent of more than 32 bytes is an error.\<close>

lemma gas_modexp_long_exponent:
  assumes "32 < exponent_size"
  shows "\<nexists>c. gas_modexp ex base_size exponent_size modulus_size = Ok c"
  using assms by (auto simp: gas_modexp_def result_simps usize_checked_pow_def usize_bound_def Let_def)

text \<open>\<^verbatim>\<open>TSTORE\<close> writes under the address of the caller.\<close>

lemma op_tstore_key:
  assumes "op_tstore s = (Ok x, t)" "cf_stack (c_frame s) = st @ [v, k]"
  shows "env_transient_storage (vm_env (c_vm t)) =
    (env_transient_storage (vm_env (c_vm s)))((cf_msg_sender (c_frame s), k) \<mapsto> v)"
  using assms unfolding op_tstore_def
  by (auto simp: sbind_eq_Ok sm_steps frame_def pop_Ok charge_Ok set_env_def on_vm_Ok vm_env_update_out split: if_splits)

end
