(* ===== verification/Evm_Reference.thy ===== *)
theory Evm_Reference
  imports Evm_Transfer Evm_Values
begin

text \<open>
  Reference values for the properties of the machine, written down independently of the tables and
  helpers of the model: the bytes of an instruction, the values and prices of the arithmetic
  instructions, the gas of a precompiled contract, the amounts of validation and settlement.
\<close>

section \<open>Bytes of the code\<close>

text \<open>
  The data of a push follows its code: one byte after \<open>0x60\<close> up to 32 bytes after \<open>0x7F\<close>. An
  instruction starts at position 0 and behind the data of every instruction.
\<close>

definition push_data :: "u8 \<Rightarrow> nat" where
  "push_data b = (if 0x60 \<le> unat b \<and> unat b \<le> 0x7F then unat b - 0x5F else 0)"

inductive starts_instruction :: "bytes \<Rightarrow> nat \<Rightarrow> bool" for code where
  first: "starts_instruction code 0"
| behind: "starts_instruction code p \<Longrightarrow> p < length code \<Longrightarrow>
     starts_instruction code (p + 1 + push_data (code ! p))"

lemma instr_width_bytes: "instr_width b = 1 + push_data b"
  using opcode_table_push [of b]
  by (auto simp: instr_width_def push_data_def opcode_from_u8_def word_le_nat_alt split: option.split opcode.split)

lemma opcode_jumpdest: "opcode_from_u8 b = Flow JUMPDEST \<longleftrightarrow> b = 0x5B"
proof
  assume "opcode_from_u8 b = Flow JUMPDEST"
  then have "map_of opcode_table b = Some (Flow JUMPDEST)"
    by (auto simp: opcode_from_u8_def split: if_splits option.splits)
  then have "(b, Flow JUMPDEST) \<in> set opcode_table" by (rule map_of_SomeD)
  moreover have "list_all (\<lambda>(b, c). c = Flow JUMPDEST \<longrightarrow> b = 0x5B) opcode_table" by (simp add: opcode_table_def)
  ultimately show "b = 0x5B" by (auto simp: list_all_iff)
qed (simp add: opcode_from_u8_def opcode_table_def)

lemma starts_instruction_eq: "starts_instruction code p \<longleftrightarrow> instr_from code 0 p"
proof
  assume "starts_instruction code p"
  then show "instr_from code 0 p"
  proof induction
    case (behind p)
    then show ?case using instr_from.following [of code 0 p] by (simp add: instr_width_bytes)
  qed (rule instr_from.here)
next
  assume "instr_from code 0 p"
  then show "starts_instruction code p"
  proof induction
    case (following p)
    then show ?case using starts_instruction.behind [of code p] by (simp add: instr_width_bytes)
  qed (rule starts_instruction.first)
qed

lemma jump_destinations_bytes:
  assumes "length code + 33 < usize_bound"
  shows "get_valid_jump_destinations code = Ok {p. starts_instruction code p \<and> p < length code \<and> code ! p = 0x5B}"
  using jump_destinations_loop_eq [OF assms, of 0]
  by (simp add: get_valid_jump_destinations_def jumpdests_def starts_instruction_eq opcode_jumpdest)

section \<open>Arithmetic, comparison and bitwise instructions\<close>

text \<open>
  Operands in the order they are popped, value and price of every instruction of the two groups but
  \<^verbatim>\<open>STOP\<close>. The price of \<^verbatim>\<open>EXP\<close> grows with the bytes of the exponent.
\<close>

definition alu_arity :: "opcode \<Rightarrow> nat" where
  "alu_arity opc =
     (if opc \<in> {Cmp NOT, Cmp ISZERO} then 1 else if opc \<in> {Arith ADDMOD, Arith MULMOD} then 3 else 2)"

definition alu_value :: "opcode \<Rightarrow> u256 list \<Rightarrow> u256" where
  "alu_value opc xs =
     (if opc = Cmp NOT then 2 ^ 256 - 1 - xs ! 0
      else if opc = Cmp ISZERO then of_bool (xs ! 0 = 0)
      else if opc = Arith ADDMOD then
        (if xs ! 2 = 0 then 0 else of_nat ((unat (xs ! 0) + unat (xs ! 1)) mod unat (xs ! 2)))
      else if opc = Arith MULMOD then
        (if xs ! 2 = 0 then 0 else of_nat ((unat (xs ! 0) * unat (xs ! 1)) mod unat (xs ! 2)))
      else the (binary_spec opc) (xs ! 0) (xs ! 1))"

definition alu_price :: "opcode \<Rightarrow> u256 list \<Rightarrow> nat" where
  "alu_price opc xs =
     (if opc \<in> {Arith MUL, Arith DIV, Arith SDIV, Arith MOD, Arith SMOD, Arith SIGNEXTEND} then 5
      else if opc \<in> {Arith ADDMOD, Arith MULMOD} then 8
      else if opc = Arith EXP then 10 + 50 * ((floorlog 2 (unat (xs ! 1)) + 7) div 8)
      else 3)"

definition alu_opcodes :: "opcode set" where
  "alu_opcodes = (Arith ` (UNIV - {STOP})) \<union> range Cmp"

lemma binary_spec_some:
  assumes "opc \<in> alu_opcodes" "alu_arity opc = 2"
  shows "\<exists>f. binary_spec opc = Some f" "binary_price opc b = alu_price opc [a, b]"
proof -
  have "opc \<in> alu_opcodes - {Cmp NOT, Cmp ISZERO, Arith ADDMOD, Arith MULMOD}"
    using assms by (auto simp: alu_arity_def split: if_splits)
  then consider c where "opc = Arith c" "c \<notin> {STOP, ADDMOD, MULMOD}" | c where "opc = Cmp c" "c \<notin> {NOT, ISZERO}"
    by (auto simp: alu_opcodes_def)
  then show "\<exists>f. binary_spec opc = Some f" "binary_price opc b = alu_price opc [a, b]"
    by (cases; rename_tac c, case_tac c;
        simp add: binary_spec_def arithmetic_spec_def comparison_spec_def binary_price_def alu_price_def
          arithmetic_gas_def comparison_gas_def u256_bits_def)+
qed

lemma exec_not_iszero:
  assumes "length st < STACK_LIMIT" "g + 3 \<le> cf_gas_limit (c_frame s)" "cf_gas_limit (c_frame s) < u64_bound"
  shows "exec_opcode H ex (Cmp NOT) (with_stack g (st @ [a]) s) = (Ok Continue, with_stack (g + 3) (st @ [2 ^ 256 - 1 - a]) s)"
    "exec_opcode H ex (Cmp ISZERO) (with_stack g (st @ [a]) s) = (Ok Continue, with_stack (g + 3) (st @ [of_bool (a = 0)]) s)"
proof -
  have "ring_bit_operations_class.not a = 2 ^ 256 - 1 - a" by (simp add: not_eq_complement)
  then show "exec_opcode H ex (Cmp NOT) (with_stack g (st @ [a]) s) = (Ok Continue, with_stack (g + 3) (st @ [2 ^ 256 - 1 - a]) s)"
    using assms by (simp add: exec_opcode_def exec_comparison_def op_not_def comparison_gas_def run_simps)
  show "exec_opcode H ex (Cmp ISZERO) (with_stack g (st @ [a]) s) = (Ok Continue, with_stack (g + 3) (st @ [of_bool (a = 0)]) s)"
    using assms by (simp add: exec_opcode_def exec_comparison_def op_iszero_def comparison_gas_def run_simps u256_from_bool_def)
qed

lemma exec_alu:
  assumes opc: "opc \<in> alu_opcodes" "length xs = alu_arity opc" and st: "length st < STACK_LIMIT"
    and gas: "g + alu_price opc xs \<le> cf_gas_limit (c_frame s)" "cf_gas_limit (c_frame s) < u64_bound"
  shows "exec_opcode H ex opc (with_stack g (st @ rev xs) s) =
    (Ok Continue, with_stack (g + alu_price opc xs) (st @ [alu_value opc xs]) s)"
proof -
  consider (one) a where "opc \<in> {Cmp NOT, Cmp ISZERO}" "xs = [a]" "alu_price opc xs = 3"
    | (three) a b m where "opc \<in> {Arith ADDMOD, Arith MULMOD}" "xs = [a, b, m]" "alu_price opc xs = 8"
    | (two) a b where "opc \<notin> {Cmp NOT, Cmp ISZERO, Arith ADDMOD, Arith MULMOD}" "alu_arity opc = 2" "xs = [a, b]"
    using opc(2) by (auto simp: alu_arity_def alu_price_def length_Suc_conv numeral_eq_Suc split: if_splits)
  then show ?thesis
  proof cases
    case one
    then show ?thesis using exec_not_iszero [OF st, of g s] gas by (auto simp: alu_value_def)
  next
    case three
    then show ?thesis using exec_addmod [OF st, of g s] gas by (auto simp: alu_value_def)
  next
    case two
    obtain f where f: "binary_spec opc = Some f" using binary_spec_some(1) [OF opc(1) two(2)] by blast
    have p: "binary_price opc b = alu_price opc xs" using binary_spec_some(2) [OF opc(1) two(2)] two(3) by simp
    show ?thesis using exec_binary_spec [OF f st, of g b s] gas p two f by (simp add: alu_value_def)
  qed
qed

section \<open>Gas of a precompiled contract\<close>

text \<open>
  A precompiled contract compares its price with the limit of the frame, not with what is left of
  it: the gas it reports exceeds the limit by at most what the frame had used before.
\<close>

lemma precompile_run_gas:
  assumes "precompile_run H a dat bound g = (r, g')"
  shows "g \<le> g' \<and> g' \<le> g + bound"
  using assms
  by (auto simp: precompile_run_def ecrecover_def sha2_256_def ripemd_160_def precompile_stub_def
      increase_precompile_consumed_gas_def checked_add_def sbind_def sm_steps Let_def
      split: if_splits option.splits result.splits prod.splits)

lemma execute_with_gas:
  assumes "\<And>bk. exec_safe s (loop bk s)" "cf_gas_used (c_frame s) \<le> cf_gas_limit (c_frame s)"
    and "execute_with H loop s = (Ok rep, t)"
  shows "gas_between (cf_gas_used (c_frame s))
    (cf_gas_limit (c_frame s) + (if is_precompile (cf_code_address (c_frame s)) then cf_gas_used (c_frame s) else 0))
    (rep_gas_used rep)"
proof (cases "is_precompile (cf_code_address (c_frame s))")
  case False
  then show ?thesis using execute_with_safe [of s loop H] assms by (simp add: exec_safe_def yields_def)
next
  case True
  obtain r f where p: "execute_precompile H (c_frame s) = (r, f)" by fastforce
  then have "cf_gas_used (c_frame s) \<le> cf_gas_used f \<and> cf_gas_used f \<le> cf_gas_used (c_frame s) + cf_gas_limit (c_frame s)"
    "cf_gas_limit f = cf_gas_limit (c_frame s)"
    using precompile_run_gas by (auto simp: execute_precompile_def split: prod.splits)
  then show ?thesis
    using True assms(2,3) p
    by (cases r) (auto simp: execute_with_def sbind_def sm_steps attempt_def on_frame_def on_vm_def frame_def push_call_frame_def
        make_report_def gas_between_def split: if_splits)
qed

section \<open>Amounts\<close>

text \<open>Balances after settlement, of every account.\<close>

definition db_balance :: "vm \<Rightarrow> address \<Rightarrow> nat" where
  "db_balance v a = unat (ai_balance (get_account_info (vm_db v) a))"

lemma remove_accounts_gone:
  "remove_accounts A v = (Ok x, w) \<Longrightarrow> a \<in> A \<Longrightarrow> balance_of w a = db_balance v a"
  by (cases v) (auto simp: remove_accounts_def sm_steps info_view_def balance_of_def db_balance_def)

lemma settlement_balances:
  assumes "post_execution_changes f rep v = (Ok rep', w)" "env_gas_limit (vm_env v) < u64_bound"
  shows "balance_of w a =
    (if a \<in> selfdestruct_set (vm_substate v) then db_balance v a
     else (if rep_result rep \<noteq> Success \<and> a = cf_to f then db_balance v a else balance_of v a) +
       settled (vm_env v) f rep a)"
proof (cases "a \<in> selfdestruct_set (vm_substate v)")
  case False
  have "balance_of (undone f rep v) a =
      (if rep_result rep \<noteq> Success \<and> a = cf_to f then db_balance v a else balance_of v a)"
    by (auto simp: undone_def reverted_def balance_of_def info_view_def db_balance_def split: option.split)
  then show ?thesis using post_execution_Ok [OF assms] False by auto
next
  case True
  obtain v1 v2 v3 wei fee x1 x2 x3 x4 where st:
    "(case rep_result rep of Success \<Rightarrow> sreturn ()
      | Revert _ \<Rightarrow> sbind (remove_account (cf_to f)) (\<lambda>_. increase_account_balance (cf_msg_sender f) (cf_msg_value f))) v = (Ok x1, v1)"
    "increase_account_balance (cf_msg_sender f) wei v1 = (Ok x2, v2)"
    "(if fee \<noteq> 0 then increase_account_balance (env_coinbase (vm_env v)) fee else sreturn ()) v2 = (Ok x3, v3)"
    "remove_accounts (selfdestruct_set (vm_substate v3)) v3 = (Ok x4, w)"
    using post_execution_steps [OF assms(1)] by metis
  note c = credits_trans [OF credits_trans [OF undo_Ok [OF st(1)] credits_increase [OF st(2)]] coinbase_Ok [OF st(3)]]
  have "selfdestruct_set (vm_substate v3) = selfdestruct_set (vm_substate v)" "vm_db v3 = vm_db v"
    using c by (simp_all add: credits_def undone_def)
  then show ?thesis using remove_accounts_gone [OF st(4), of a] True by (simp add: db_balance_def)
qed

text \<open>The amount a sender pays up front, and the amount it must own.\<close>

definition blob_gas_of :: "environment \<Rightarrow> nat" where
  "blob_gas_of e = (let g = 131072 * length (env_tx_blob_hashes e) in if g < 2 ^ 64 then g else 0)"

lemma blob_gas_eq: "blob_gas e = blob_gas_of e" "blob_gas_of e < u64_bound"
  by (auto simp: blob_gas_def blob_gas_of_def checked_mul_def u64_bound_def Let_def)

lemma checked_u256_value:
  "u256_checked_mul a b = Some c \<Longrightarrow> unat c = unat a * unat b"
  "u256_checked_add a b = Some c \<Longrightarrow> unat c = unat a + unat b"
  by (auto simp: u256_checked_mul_def u256_checked_add_def unat_word_ariths split: if_splits)

lemma unat_gas: "n < u64_bound \<Longrightarrow> unat (of_nat n :: u256) = n"
  by (simp add: unsigned_of_nat take_bit_nat_eq_self u64_bound_def)

lemma up_front_cost_Ok:
  assumes "up_front_cost e val bal = Ok cost" "env_gas_limit e < u64_bound"
  obtains fee where "get_base_fee_per_blob_gas e = Ok fee"
    "unat cost = unat (env_gas_price e) * env_gas_limit e + unat val + blob_gas_of e * unat fee"
    "unat (case env_tx_max_fee_per_gas e of Some m \<Rightarrow> m | None \<Rightarrow> env_gas_price e) * env_gas_limit e + unat val +
       blob_gas_of e * unat (case env_tx_max_fee_per_blob_gas e of Some m \<Rightarrow> m | None \<Rightarrow> 0) \<le> unat bal"
proof -
  let ?max = "case env_tx_max_fee_per_gas e of Some m \<Rightarrow> m | None \<Rightarrow> env_gas_price e"
  let ?blob = "case env_tx_max_fee_per_blob_gas e of Some m \<Rightarrow> m | None \<Rightarrow> 0"
  from assms(1) obtain p b m mv mb fee bc pv where st:
    "u256_checked_mul (env_gas_price e) (of_nat (env_gas_limit e)) = Some p"
    "u256_checked_mul ?blob (of_nat (blob_gas e)) = Some b"
    "u256_checked_mul ?max (of_nat (env_gas_limit e)) = Some m"
    "u256_checked_add m val = Some mv" "u256_checked_add mv b = Some mb" "\<not> bal < mb"
    "get_base_fee_per_blob_gas e = Ok fee" "u256_checked_mul (of_nat (blob_gas e)) fee = Some bc"
    "u256_checked_add p val = Some pv" "u256_checked_add pv bc = Some cost"
    by (auto simp: up_front_cost_def get_max_blob_gas_price_def get_blob_gas_price_def require_def result_simps Let_def
        split: if_splits)
  note u = checked_u256_value(1) [OF st(1)] checked_u256_value(1) [OF st(2)] checked_u256_value(1) [OF st(3)]
    checked_u256_value(2) [OF st(4)] checked_u256_value(2) [OF st(5)] checked_u256_value(1) [OF st(8)]
    checked_u256_value(2) [OF st(9)] checked_u256_value(2) [OF st(10)]
  have g: "unat (of_nat (env_gas_limit e) :: u256) = env_gas_limit e" "unat (of_nat (blob_gas e) :: u256) = blob_gas_of e"
    using unat_gas assms(2) blob_gas_eq by simp_all
  have "unat mb \<le> unat bal" using st(6) by (simp add: not_less word_le_nat_alt)
  then show thesis using that [OF st(7)] u by (simp add: g mult.commute [of _ "blob_gas_of e"])
qed

lemma increment_nonce_storage:
  assumes "increment_account_nonce a v = (Ok u, w)"
  shows "storage_view w = storage_view v"
proof -
  obtain v' acc where g: "get_account_mut a v = (Ok acc, v')" "same_world v v'" "vm_cache v' a = Some acc"
    "acc_info acc = info_view v a" by (rule get_account_mut_out)
  have "world_upd a ((info_view v a)\<lparr>ai_nonce := Suc (ai_nonce (info_view v a))\<rparr>) v w"
    using assms g world_upd_write [OF g(2,3)]
    by (auto simp: increment_account_nonce_def insert_account_def sbind_eq_Ok sm_steps result_simps)
  then show ?thesis by (simp add: world_upd_def)
qed

lemma prepare_keeps_storage:
  assumes "prepare_execution H s = (Ok x, t)"
  shows "storage_view (c_vm t) = storage_view (c_vm s)"
proof -
  obtain acc w1 cost w2 s3 s4 w5 x2 x3 x4 x5 x6 where st:
    "get_account (env_origin (vm_env (c_vm s))) (c_vm s) = (Ok acc, w1)"
    "decrease_account_balance (env_origin (vm_env (c_vm s))) cost (c_vm (s\<lparr>c_vm := w1\<rparr>)) = (Ok x2, w2)"
    "(if \<not> is_create (c_vm s)
      then on_vm (increase_account_balance (cf_to (c_frame (s\<lparr>c_vm := w1, c_vm := w2\<rparr>))) (cf_msg_value (c_frame (s\<lparr>c_vm := w1\<rparr>))))
      else sreturn ()) (s\<lparr>c_vm := w1, c_vm := w2\<rparr>) = (Ok x3, s3)"
    "add_intrinsic_gas s3 = (Ok x4, s4)"
    "increment_account_nonce (env_origin (vm_env (c_vm s))) (c_vm s4) = (Ok x5, w5)"
    "(if is_create (c_vm s) then set_frame (\<lambda>f. (assign_bytecode (cf_calldata f) f)\<lparr>cf_calldata := []\<rparr>) else sreturn ())
       (s4\<lparr>c_vm := w5\<rparr>) = (Ok x, t)"
    by (rule prepare_steps [OF assms])
  have "storage_view w1 = storage_view (c_vm s)"
    using movesD [OF world_get_account(2), of "c_vm s" "env_origin (vm_env (c_vm s))"] st(1) by (simp add: same_world_def)
  moreover have "storage_view w2 = storage_view w1"
    using st(2) by (cases rule: decrease_balance_cases [of "env_origin (vm_env (c_vm s))" cost w1]) (auto simp: world_upd_def)
  moreover have "storage_view (c_vm s3) = storage_view w2"
    using st(3) by (auto simp: on_vm_Ok sm_steps split: if_splits dest!: credits_increase simp: credits_def)
  moreover have "c_vm s4 = c_vm s3" using add_intrinsic_gas_Ok [OF st(4)] by (auto simp: Let_def)
  moreover have "storage_view w5 = storage_view (c_vm s4)"
    by (rule increment_nonce_storage [OF st(5)])
  moreover have "c_vm t = w5" using st(6) by (auto simp: set_frame_out sm_steps split: if_splits)
  ultimately show ?thesis by simp
qed

lemma prepare_frame:
  assumes "prepare_execution H s = (Ok x, t)"
  defines "f \<equiv> (c_frame s)\<lparr>cf_gas_used := cf_gas_used (c_frame t)\<rparr>"
  shows "c_frame t = (if is_create (c_vm s) then (assign_bytecode (cf_calldata f) f)\<lparr>cf_calldata := []\<rparr> else f)"
proof (cases "is_create (c_vm s)")
  case False
  then show ?thesis using prepare_execution_Ok(8) [OF assms(1)] by (simp add: f_def)
next
  case True
  obtain acc w1 cost w2 s3 s4 w5 x2 x3 x4 where st:
    "(if \<not> is_create (c_vm s)
      then on_vm (increase_account_balance (cf_to (c_frame (s\<lparr>c_vm := w1, c_vm := w2\<rparr>))) (cf_msg_value (c_frame (s\<lparr>c_vm := w1\<rparr>))))
      else sreturn ()) (s\<lparr>c_vm := w1, c_vm := w2\<rparr>) = (Ok x3, s3)"
    "add_intrinsic_gas s3 = (Ok x4, s4)"
    "(if is_create (c_vm s) then set_frame (\<lambda>f. (assign_bytecode (cf_calldata f) f)\<lparr>cf_calldata := []\<rparr>) else sreturn ())
       (s4\<lparr>c_vm := w5\<rparr>) = (Ok x, t)"
    by (rule prepare_steps [OF assms(1)])
  have "c_frame s3 = c_frame s" using st(1) True by (auto simp: sm_steps)
  moreover obtain g where "c_frame s4 = (c_frame s3)\<lparr>cf_gas_used := g\<rparr>"
    using add_intrinsic_gas_Ok [OF st(2)] by (auto simp: Let_def)
  ultimately show ?thesis using st(3) True by (auto simp: set_frame_out sm_steps f_def assign_bytecode_def)
qed

end
