(* ===== verification/Evm_Properties.thy ===== *)
theory Evm_Properties
  imports Evm_Reference
begin

text \<open>
  The properties of the virtual machine, with the states and programs their witnesses run.
\<close>

section \<open>Sample states\<close>

definition sample_crypto :: crypto where
  "sample_crypto =
     \<lparr>keccak = (\<lambda>_. replicate 32 0), sha256_digest = (\<lambda>_. replicate 32 0), ripemd160_digest = (\<lambda>_. replicate 20 0),
      secp_parse_message = (\<lambda>_. True), secp_parse_rpc = (\<lambda>_. None), secp_parse_signature = (\<lambda>_. True),
      secp_recover = (\<lambda>_ _ _. None)\<rparr>"

definition sample_db :: database where
  "sample_db =
     \<lparr>get_account_info = (\<lambda>a. \<lparr>ai_balance = (if a = 0x1000 then 1000000 else 0), ai_bytecode = [], ai_nonce = 0\<rparr>),
      get_storage_slot = (\<lambda>_ _. 0), get_block_hash = (\<lambda>_. None)\<rparr>"

definition sample_env :: "nat \<Rightarrow> environment" where
  "sample_env gas =
     \<lparr>env_origin = 0x1000, env_refunded_gas = 0, env_gas_limit = gas, env_block_number = 1, env_coinbase = 0x3000,
      env_timestamp = 1, env_prev_randao = None, env_chain_id = 1, env_base_fee_per_gas = 7, env_gas_price = 10,
      env_block_excess_blob_gas = None, env_block_blob_gas_used = None, env_tx_blob_hashes = [],
      env_tx_max_priority_fee_per_gas = None, env_tx_max_fee_per_gas = None, env_tx_max_fee_per_blob_gas = None,
      env_block_gas_limit = 30000000, env_transient_storage = Map.empty\<rparr>"

definition sample_vm :: "nat \<Rightarrow> vm" where
  "sample_vm gas =
     \<lparr>vm_call_frames = [], vm_env = sample_env gas, vm_substate = substate_new (sample_env gas) [] 0x2000 {},
      vm_db = sample_db, vm_cache = Map.empty, vm_tx_kind = TxCall 0x2000, vm_access_list = []\<rparr>"

definition sample_ctx :: "bytes \<Rightarrow> nat \<Rightarrow> ctx" where
  "sample_ctx code gas =
     \<lparr>c_vm = sample_vm gas, c_frame = call_frame_new 0x1000 0x2000 0x2000 code 0 [] False gas 0 0 False\<rparr>"

lemma exec_loop_numeral:
  "exec_loop H (numeral n) bk s =
     (case exec_step H (execute_with H (exec_loop H (pred_numeral n))) s of
        (Ok (Inl e), t) \<Rightarrow> finish_error bk e t
      | (Ok (Inr Continue), t) \<Rightarrow> exec_loop H (pred_numeral n) bk t
      | (Ok (Inr (OpResult _)), t) \<Rightarrow> finish_success bk t
      | (Err e, t) \<Rightarrow> (Err e, t)
      | (Panic, t) \<Rightarrow> (Panic, t)
      | (Diverge, t) \<Rightarrow> (Diverge, t))"
  by (simp only: numeral_eq_Suc exec_loop_Suc)

lemma sbind_run:
  "sbind m f s = (case m s of (Ok x, t) \<Rightarrow> f x t | (Err e, t) \<Rightarrow> (Err e, t) | (Panic, t) \<Rightarrow> (Panic, t) | (Diverge, t) \<Rightarrow> (Diverge, t))"
  by (simp add: sbind_def)

lemmas eval_machine =
  execute_def execute_fuel_def execute_with_loop exec_loop_numeral exec_step_def sbind_run sm_steps attempt_def frame_def env_def
  next_opcode_def opcode_from_u8_def opcode_table_def exec_opcode_def exec_arithmetic_def exec_flow_def exec_system_def
  on_frame_def on_stack_def on_memory_def on_vm_def set_frame_def increment_pc_def increment_pc_by_def
  increase_consumed_gas_def pop_def push_def stack_pop_def stack_push_def checked_add_def checked_sub_def checked_mul_def
  finish_error_def finish_success_def push_call_frame_def frame_report_def make_report_def restore_state_def take_backup_def
  is_precompile_def PRECOMPILES_def gas_left_def is_create_def

lemmas eval_sample = sample_crypto_def sample_db_def sample_env_def sample_vm_def sample_ctx_def call_frame_new_def
  u64_bound_def usize_bound_def slice_bound_def STACK_LIMIT_def

lemma of_be_bytes_one: "of_be_bytes [b] = unat b"
  by (simp add: of_be_bytes_def)

lemmas eval_push = op_push_def read_bytcode_slice_def bytes_to_word_def fill_data_def WORD_SIZE_def from_be_bytes_def
  of_be_bytes_append of_be_bytes_zeros of_be_bytes_one flow_gas_def set_env_def

lemmas eval_memory = calculate_memory_size_def memory_len_def gas_mstore_def mem_expansion_behavior_def expansion_cost_def
  mem_cost_def try_store_data_def try_store_sized_def try_resize_def try_store_def checked_next_multiple_def next_multiple_def
  u256_to_usize_def u256_checked_add_def checked_div_def WORD_SIZE_def to_be_bytes_def slice_bound_def
  MEMORY_EXPANSION_QUOTIENT_def

lemmas eval_storage = access_storage_slot_def touched_slots_def read_slot_def get_account_mut_def insert_account_def
  substate_new_def load_account_def gas_sstore_def sstore_refund_def set_env_def update_account_storage_def Let_def

lemma sample_keccak: "\<forall>x. length (keccak sample_crypto x) = 32"
  by (simp add: sample_crypto_def)

lemma sample_frame_ok: "gas < u64_bound \<Longrightarrow> frame_ok (c_frame (sample_ctx code gas))"
  by (simp add: sample_ctx_def)

section \<open>Execution\<close>

text \<open>
  C2: The interpreter returns. On every frame that satisfies the invariant, with a hash function of
  32 bytes, \<open>execute\<close> neither panics nor runs out of the fuel of one step for each unit of gas that is
  left, and more fuel gives the same outcome.\<close>

theorem execution_returns:
  assumes "\<forall>x. length (keccak H x) = 32" "frame_ok (c_frame s)"
  shows "fst (execute H s) \<noteq> Panic \<and> fst (execute H s) \<noteq> Diverge \<and>
    (\<forall>k. execute_fuel H (Suc (gas_left (c_frame s)) + k) s = execute H s)"
proof -
  have "exec_loop H (Suc (gas_left (c_frame s)) + k) bk s = exec_loop H (Suc (gas_left (c_frame s))) bk s" for k bk
  proof (rule exec_loop_fuel)
    have "exec_safe s (exec_loop H (Suc (gas_left (c_frame s))) bk s)"
      by (rule exec_loop_safe) (use assms in auto)
    then show "fst (exec_loop H (Suc (gas_left (c_frame s))) bk s) \<noteq> Diverge"
      by (auto simp: exec_safe_def yields_def split: prod.splits)
  qed
  then have "execute_fuel H (Suc (gas_left (c_frame s)) + k) s = execute H s" for k
    by (cases "is_precompile (cf_code_address (c_frame s))")
      (simp_all add: execute_def execute_fuel_def execute_with_precompile execute_with_loop del: exec_loop.simps)
  then show ?thesis
    using execute_returns [of H s] assms by (auto simp: yields_def split: prod.splits)
qed

theorem execution_returns_witness:
  "frame_ok (c_frame (sample_ctx [0x5B, 0x60, 0, 0x56] 100)) \<and>
   fst (execute sample_crypto (sample_ctx [0x5B, 0x60, 0, 0x56] 100)) \<noteq> Diverge"
  using execution_returns [OF sample_keccak, of "sample_ctx [0x5B, 0x60, 0, 0x56] 100"]
    sample_frame_ok [of 100 "[0x5B, 0x60, 0, 0x56]"]
  by (simp add: u64_bound_def)

text \<open>
  C18: The gas a frame reports is at least the gas it had used before and at most its limit. A
  precompiled contract compares its price with the whole limit of the frame: a frame that enters one with gas already used, as a
  transaction to its address does, can report up to that much more than the limit.\<close>

theorem execution_gas_bounded:
  assumes "\<forall>x. length (keccak H x) = 32" "frame_ok (c_frame s)" "execute H s = (Ok rep, t)"
  shows "cf_gas_used (c_frame s) \<le> rep_gas_used rep \<and>
    rep_gas_used rep \<le> cf_gas_limit (c_frame s) +
      (if is_precompile (cf_code_address (c_frame s)) then cf_gas_used (c_frame s) else 0)"
proof -
  have "gas_between (cf_gas_used (c_frame s)) (cf_gas_limit (c_frame s) +
      (if is_precompile (cf_code_address (c_frame s)) then cf_gas_used (c_frame s) else 0)) (rep_gas_used rep)"
  proof (rule execute_with_gas)
    show "execute_with H (exec_loop H (Suc (gas_left (c_frame s)))) s = (Ok rep, t)"
      using assms(3) unfolding execute_def execute_fuel_def by simp
    show "exec_safe s (exec_loop H (Suc (gas_left (c_frame s))) bk s)" for bk
      by (rule exec_loop_safe) (use assms in auto)
    show "cf_gas_used (c_frame s) \<le> cf_gas_limit (c_frame s)" using assms(2) by (simp add: frame_ok_def)
  qed
  then show ?thesis by (simp add: gas_between_def)
qed

definition precompile_ctx :: ctx where
  "precompile_ctx = (let s = sample_ctx [] 21100 in
     s\<lparr>c_frame := (c_frame s)\<lparr>cf_code_address := ECRECOVER_ADDRESS, cf_gas_used := 21000\<rparr>\<rparr>)"

theorem execution_gas_bounded_witness:
  "(\<exists>rep t. execute sample_crypto (sample_ctx [0xFE] 3) = (Ok rep, t) \<and> rep_gas_used rep \<le> 3) \<and>
   (\<exists>rep t. execute sample_crypto precompile_ctx = (Ok rep, t) \<and> rep_gas_used rep = 24000 \<and>
     rep_gas_used rep \<le> 21100 + 21000)"
proof
  obtain rep t where r: "execute sample_crypto (sample_ctx [0xFE] 3) = (Ok rep, t)"
    by (simp add: eval_machine eval_sample op_invalid_def)
  have "\<not> is_precompile (cf_code_address (c_frame (sample_ctx [0xFE] 3)))" by (simp add: eval_sample eval_machine)
  then have "rep_gas_used rep \<le> cf_gas_limit (c_frame (sample_ctx [0xFE] 3))"
    using execution_gas_bounded [OF sample_keccak sample_frame_ok r] by (simp add: u64_bound_def)
  then show "\<exists>rep t. execute sample_crypto (sample_ctx [0xFE] 3) = (Ok rep, t) \<and> rep_gas_used rep \<le> 3"
    using r by (simp add: sample_ctx_def call_frame_new_def)
next
  have "execute_precompile sample_crypto (c_frame precompile_ctx) = (Ok [], (c_frame precompile_ctx)\<lparr>cf_gas_used := 24000\<rparr>)"
    by (simp add: execute_precompile_def precompile_run_def precompile_ctx_def sample_ctx_def call_frame_new_def Let_def ecrecover_def
        sbind_def increase_precompile_consumed_gas_def checked_add_def u64_bound_def sm_steps sample_crypto_def)
  moreover have "is_precompile (cf_code_address (c_frame precompile_ctx))"
    by (simp add: precompile_ctx_def Let_def is_precompile_def PRECOMPILES_def)
  ultimately obtain rep t where r: "execute sample_crypto precompile_ctx = (Ok rep, t)" "rep_gas_used rep = 24000"
    by (simp add: execute_def execute_fuel_def execute_with_def sbind_run sm_steps frame_def attempt_def on_frame_def
        push_call_frame_def make_report_def)
  have "frame_ok (c_frame precompile_ctx)"
    using sample_frame_ok [of 21100] by (simp add: precompile_ctx_def frame_ok_def Let_def eval_sample)
  from execution_gas_bounded [OF sample_keccak this r(1)] r
  show "\<exists>rep t. execute sample_crypto precompile_ctx = (Ok rep, t) \<and> rep_gas_used rep = 24000 \<and>
     rep_gas_used rep \<le> 21100 + 21000"
    by simp
qed

text \<open>
  C11: Execution is atomic: when the report of a frame is not a success, the accounts, the substate,
  the refund counter and the transient storage are those the frame started with.\<close>

theorem failed_execution_rolls_back:
  assumes "execute H s = (Ok rep, t)" "rep_result rep \<noteq> Success"
  shows "rep_new_state rep = vm_cache (c_vm s) \<and> vm_cache (c_vm t) = vm_cache (c_vm s) \<and>
    vm_substate (c_vm t) = vm_substate (c_vm s) \<and>
    env_refunded_gas (vm_env (c_vm t)) = env_refunded_gas (vm_env (c_vm s)) \<and>
    env_transient_storage (vm_env (c_vm t)) = env_transient_storage (vm_env (c_vm s))"
  using execute_rolled_back [OF assms] by (simp add: rolled_back_def take_backup_def)

theorem failed_execution_rolls_back_witness:
  "\<exists>rep t. execute sample_crypto (sample_ctx [0x60, 1, 0x60, 0, 0x5D, 0xFE] 200) = (Ok rep, t) \<and>
     env_transient_storage (vm_env (c_vm t)) = Map.empty"
proof -
  obtain rep t where r: "execute sample_crypto (sample_ctx [0x60, 1, 0x60, 0, 0x5D, 0xFE] 200) = (Ok rep, t)"
      "rep_result rep \<noteq> Success"
    by (simp add: eval_machine eval_sample op_invalid_def op_push_def op_tstore_def eval_push)
  then show ?thesis using failed_execution_rolls_back [OF r] by (simp add: sample_ctx_def sample_vm_def sample_env_def)
qed

text \<open>
  C12: A frame entered in a static context changes nothing of the world: no balance, nonce, code,
  storage, transient storage, refund, creation or destruction differs after it, and its logs are those it started with.\<close>

theorem static_execution_changes_nothing:
  assumes "cf_is_static (c_frame s)" "0 < cf_depth (c_frame s)" "\<not> cf_create_op_called (c_frame s)"
  shows "same_world (c_vm s) (c_vm (snd (execute H s))) \<and>
    (\<forall>rep. fst (execute H s) = Ok rep \<longrightarrow> rep_logs rep = cf_logs (c_frame s))"
  unfolding execute_def execute_fuel_def
  by (rule static_execute_with)
    (use static_exec_loop [of s "take_backup (c_vm s)" H "Suc (gas_left (c_frame s))"] assms backs_take_backup
      in \<open>auto simp: static_frame_def\<close>)

definition static_ctx :: "bytes \<Rightarrow> nat \<Rightarrow> ctx" where
  "static_ctx code gas =
     \<lparr>c_vm = sample_vm gas, c_frame = call_frame_new 0x1000 0x2000 0x2000 code 0 [] True gas 0 1 False\<rparr>"

theorem static_execution_changes_nothing_witness:
  "same_world (sample_vm 30000) (c_vm (snd (execute sample_crypto (static_ctx [0x60, 1, 0x60, 0, 0x55] 30000))))"
  using static_execution_changes_nothing [of "static_ctx [0x60, 1, 0x60, 0, 0x55] 30000" sample_crypto]
  by (simp add: static_ctx_def call_frame_new_def)

text \<open>
  C13: Whatever a frame executes, every state it reaches keeps the invariant: the gas used is within
  the limit, the stack has at most 1024 items, the memory is a whole number of words, the program
  counter is at the start of an instruction of the code, and the recorded jump destinations are those
  of the code. Who runs, with which input, value, code and limit stays fixed, and the gas used never
  shrinks.\<close>

theorem reachable_frames_keep_invariant:
  assumes "\<forall>x. length (keccak H x) = 32" "frame_run H s t" "frame_ok (c_frame s)" "code_ok (c_frame s)"
  shows "frame_ok (c_frame t) \<and> code_ok (c_frame t) \<and> same_identity s t \<and>
    cf_gas_used (c_frame s) \<le> cf_gas_used (c_frame t)"
  using frame_run_inv [of H s t] assms by (simp add: frame_inv_def)

theorem reachable_frames_keep_invariant_witness:
  "\<exists>t. frame_run sample_crypto (sample_ctx [0x60, 1] 10) t \<and> cf_stack (c_frame t) = [1] \<and> code_ok (c_frame t)"
proof -
  let ?s = "sample_ctx [0x60, 1] 10"
  obtain t where t: "exec_step sample_crypto (execute_fuel sample_crypto 0) ?s = (Ok (Inr Continue), t)" "cf_stack (c_frame t) = [1]"
    by (simp add: eval_machine eval_sample eval_push)
  have run: "frame_run sample_crypto ?s t" by (rule frame_run.step [OF frame_run.start t(1)])
  have "code_ok (c_frame ?s)" by (simp add: code_ok_def sample_ctx_def call_frame_new_def usize_bound_def instr_from.intros)
  then show ?thesis
    using reachable_frames_keep_invariant [OF sample_keccak run] sample_frame_ok [of 10 "[0x60, 1]"] run t(2)
    by (auto simp: u64_bound_def)
qed

text \<open>
  C19: Memory is paid for. An instruction other than \<^verbatim>\<open>RETURNDATACOPY\<close> keeps the price of the memory
  within the gas the frame has used, whether it succeeds or fails.\<close>

theorem memory_is_paid:
  assumes "\<forall>x. length (keccak H x) = 32" "frame_ok (c_frame s)" "gas_left (c_frame s) \<le> n"
    "memory_price (length (cf_memory (c_frame s))) \<le> cf_gas_used (c_frame s)"
    "next_opcode (c_frame s) \<noteq> Envr RETURNDATACOPY"
  shows "memory_price (length (cf_memory (c_frame (snd (exec_step H (execute_fuel H n) s))))) \<le>
    cf_gas_used (c_frame (snd (exec_step H (execute_fuel H n) s)))"
proof -
  have "step_safe True s (exec_step H (execute_fuel H n) s)"
    by (rule exec_step_safe [OF assms(2) sub_ok_fuel]) (use assms in \<open>auto simp: paid_def\<close>)
  then show ?thesis by (simp add: step_safe_def fits_def paid_def)
qed

theorem memory_is_paid_witness:
  "memory_price (length (cf_memory (c_frame (snd (exec_step sample_crypto (execute_fuel sample_crypto 10) (sample_ctx [0x60, 1] 10)))))) \<le>
    cf_gas_used (c_frame (snd (exec_step sample_crypto (execute_fuel sample_crypto 10) (sample_ctx [0x60, 1] 10))))"
  by (rule memory_is_paid [OF sample_keccak sample_frame_ok])
    (simp_all add: u64_bound_def sample_ctx_def call_frame_new_def gas_left_def next_opcode_def opcode_from_u8_def memory_price_def words_def)




section \<open>Instructions\<close>

text \<open>
  C17: Every arithmetic, comparison, bitwise and shift instruction replaces its one, two or three operands by the
  value of its reference function on 256-bit words (signed where the instruction is signed, modulo
  \<open>2 ^ 256\<close>, the exact sum or product modulo the third operand for \<^verbatim>\<open>ADDMOD\<close> and \<^verbatim>\<open>MULMOD\<close>), charges its price and changes
  nothing else.\<close>

theorem alu_instructions_compute:
  assumes "opc \<in> alu_opcodes" "length xs = alu_arity opc" "length st < STACK_LIMIT"
    "g + alu_price opc xs \<le> cf_gas_limit (c_frame s)" "cf_gas_limit (c_frame s) < u64_bound"
  shows "exec_opcode H ex opc (with_stack g (st @ rev xs) s) =
    (Ok Continue, with_stack (g + alu_price opc xs) (st @ [alu_value opc xs]) s)"
  by (rule exec_alu [OF assms])

theorem alu_instructions_compute_witness:
  "exec_opcode sample_crypto (execute sample_crypto) (Arith MUL) (with_stack 0 [4, 3] (sample_ctx [] 9)) =
     (Ok Continue, with_stack 5 [12] (sample_ctx [] 9)) \<and>
   exec_opcode sample_crypto (execute sample_crypto) (Arith ADDMOD) (with_stack 0 [7, 6, 5] (sample_ctx [] 9)) =
     (Ok Continue, with_stack 8 [4] (sample_ctx [] 9)) \<and>
   exec_opcode sample_crypto (execute sample_crypto) (Cmp ISZERO) (with_stack 0 [0] (sample_ctx [] 9)) =
     (Ok Continue, with_stack 3 [1] (sample_ctx [] 9))"
  using alu_instructions_compute [of "Arith MUL" "[3, 4]" "[]" 0 "sample_ctx [] 9" sample_crypto "execute sample_crypto"]
    alu_instructions_compute [of "Arith ADDMOD" "[5, 6, 7]" "[]" 0 "sample_ctx [] 9" sample_crypto "execute sample_crypto"]
    alu_instructions_compute [of "Cmp ISZERO" "[0]" "[]" 0 "sample_ctx [] 9" sample_crypto "execute sample_crypto"]
  by (simp add: eval_sample alu_opcodes_def alu_arity_def alu_price_def alu_value_def binary_spec_def arithmetic_spec_def)

text \<open>
  C25: A word stored by \<^verbatim>\<open>MSTORE\<close> is the word \<^verbatim>\<open>MLOAD\<close> reads at the same offset, for three units of
  gas, and no other byte of the memory changes.\<close>

theorem memory_word_round_trip:
  assumes "exec_opcode H ex (Flow MSTORE) s = (Ok x, t)" "cf_stack (c_frame s) = st @ [w, off]" "mem_ok (cf_memory (c_frame s))"
    and u: "cf_memory (c_frame u) = cf_memory (c_frame t)" "length st' < STACK_LIMIT"
      "g + 3 \<le> cf_gas_limit (c_frame u)" "cf_gas_limit (c_frame u) < u64_bound"
  shows "exec_opcode H ex (Flow MLOAD) (with_stack g (st' @ [off]) u) = (Ok Continue, with_stack (g + 3) (st' @ [w]) u) \<and>
    (\<forall>i. i < unat off \<or> unat off + 32 \<le> i \<longrightarrow>
       mem_byte (cf_memory (c_frame t)) i = mem_byte (cf_memory (c_frame s)) i)"
proof -
  have st: "op_mstore s = (Ok x, t)" using assms(1) by (simp add: exec_opcode_def exec_flow_def)
  note m = op_mstore_Ok [OF st assms(2,3)]
  have "op_mload (with_stack g (st' @ [off]) u) = (Ok Continue, with_stack (g + 3) (st' @ [w]) u)"
    by (rule op_mload_inside) (use m u in simp_all)
  then show ?thesis using m(4) by (simp add: exec_opcode_def exec_flow_def)
qed

theorem memory_word_round_trip_witness:
  "\<exists>x t. exec_opcode sample_crypto (execute sample_crypto) (Flow MSTORE) (with_stack 0 ([] @ [42, 0]) (sample_ctx [] 20)) = (Ok x, t) \<and>
     exec_opcode sample_crypto (execute sample_crypto) (Flow MLOAD) (with_stack 6 ([] @ [0]) t) =
       (Ok Continue, with_stack (6 + 3) ([] @ [42]) t)"
proof -
  let ?s = "with_stack 0 ([] @ [42, 0]) (sample_ctx [] 20)"
  obtain x t where t: "exec_opcode sample_crypto (execute sample_crypto) (Flow MSTORE) ?s = (Ok x, t)"
      "cf_gas_limit (c_frame t) = 20"
    by (simp add: eval_machine eval_sample eval_memory with_stack_def op_mstore_def)
  have "exec_opcode sample_crypto (execute sample_crypto) (Flow MLOAD) (with_stack 6 ([] @ [0]) t) =
      (Ok Continue, with_stack (6 + 3) ([] @ [42]) t)"
    using memory_word_round_trip [OF t(1), of "[]" 42 0 t "[]" 6] t(2)
    by (simp add: with_stack_def eval_sample mem_ok_def)
  with t show ?thesis by blast
qed

text \<open>
  C21: A value written by \<^verbatim>\<open>SSTORE\<close> is the value a later \<^verbatim>\<open>SLOAD\<close> of the contract reads, at the price of a
  warm slot, as long as nothing else has changed the machine; the write changes no other slot and no
  balance, nonce or code, and it fails in a static context.\<close>

theorem storage_round_trip:
  assumes "exec_opcode H ex (Flow SSTORE) s = (Ok x, t)" "cf_stack (c_frame s) = st @ [v, k]"
    and u: "c_vm u = c_vm t" "cf_to (c_frame u) = cf_to (c_frame s)" "length st' < STACK_LIMIT"
      "g + 100 \<le> cf_gas_limit (c_frame u)" "cf_gas_limit (c_frame u) < u64_bound"
  shows "exec_opcode H ex (Flow SLOAD) (with_stack g (st' @ [k]) u) = (Ok Continue, with_stack (g + 100) (st' @ [v]) u) \<and>
    storage_view (c_vm t) = (storage_view (c_vm s))(cf_to (c_frame s) := (storage_view (c_vm s) (cf_to (c_frame s)))(k := v)) \<and>
    info_view (c_vm t) = info_view (c_vm s) \<and> \<not> cf_is_static (c_frame s)"
proof -
  have st: "op_sstore s = (Ok x, t)" using assms(1) by (simp add: exec_opcode_def exec_flow_def)
  note m = op_sstore_Ok [OF st assms(2)]
  have "op_sload (with_stack g (st' @ [k]) u) = (Ok Continue, with_stack (g + 100) (st' @ [v]) u)"
    using op_sload_warm [of u k st' g] m(1,2) u by simp
  then show ?thesis using m(2,3,4) by (auto simp: exec_opcode_def exec_flow_def fun_eq_iff)
qed

theorem storage_round_trip_witness:
  "\<exists>x t. exec_opcode sample_crypto (execute sample_crypto) (Flow SSTORE) (with_stack 0 ([] @ [42, 7]) (sample_ctx [] 30000)) = (Ok x, t) \<and>
     exec_opcode sample_crypto (execute sample_crypto) (Flow SLOAD) (with_stack 22100 ([] @ [7]) t) =
       (Ok Continue, with_stack (22100 + 100) ([] @ [42]) t)"
proof -
  let ?s = "with_stack 0 ([] @ [42, 7]) (sample_ctx [] 30000)"
  obtain x t where t: "exec_opcode sample_crypto (execute sample_crypto) (Flow SSTORE) ?s = (Ok x, t)"
      "cf_gas_limit (c_frame t) = 30000" "cf_to (c_frame t) = 0x2000"
    by (simp add: eval_machine eval_sample eval_storage with_stack_def op_sstore_def)
  have "exec_opcode sample_crypto (execute sample_crypto) (Flow SLOAD) (with_stack 22100 ([] @ [7]) t) =
      (Ok Continue, with_stack (22100 + 100) ([] @ [42]) t)"
    using storage_round_trip [OF t(1), of "[]" 42 7 t "[]" 22100] t(2,3)
    by (simp add: with_stack_def eval_sample)
  with t show ?thesis by blast
qed

text \<open>
  C29: The stack instructions. \<^verbatim>\<open>PUSHn\<close> pushes the \<open>n\<close> bytes of code behind it as a big-endian number, read as
  zeros behind the end of the code, and moves the program counter over them; \<^verbatim>\<open>DUPn\<close> pushes the \<open>n\<close>-th item
  from the top; \<^verbatim>\<open>SWAPn\<close> exchanges the top with the item \<open>n\<close> below it.\<close>

theorem stack_instructions_compute:
  assumes "g + 3 \<le> cf_gas_limit (c_frame s)" "cf_gas_limit (c_frame s) < u64_bound" "1 \<le> n"
  shows "(n \<le> 32 \<longrightarrow> length st < STACK_LIMIT \<longrightarrow> cf_pc (c_frame s) + n < usize_bound \<longrightarrow>
      exec_opcode H ex (PUSH n) (with_stack g st s) =
        (Ok Continue, with_stack (g + 3)
           (st @ [from_be_bytes (take n (drop (Suc (cf_pc (c_frame s))) (cf_bytecode (c_frame s)) @ replicate n 0))])
           (s\<lparr>c_frame := (c_frame s)\<lparr>cf_pc := cf_pc (c_frame s) + n\<rparr>\<rparr>))) \<and>
    (n \<le> length st \<longrightarrow> length st < STACK_LIMIT \<longrightarrow>
      exec_opcode H ex (DUP n) (with_stack g st s) = (Ok Continue, with_stack (g + 3) (st @ [st ! (length st - n)]) s)) \<and>
    (n < length st \<longrightarrow>
      exec_opcode H ex (SWAP n) (with_stack g st s) =
        (Ok Continue, with_stack (g + 3)
           (st[length st - 1 := st ! (length st - 1 - n), length st - 1 - n := st ! (length st - 1)]) s))"
  using op_push_spec [OF assms(3) _ _ assms(1,2), of st] op_dup_spec [OF assms(3) _ _ assms(1,2), of st]
    op_swap_spec [OF assms(3) _ assms(1,2), of st]
  by (simp add: exec_opcode_def push_value_def)

theorem stack_instructions_compute_witness:
  "exec_opcode sample_crypto (execute sample_crypto) (SWAP 1) (with_stack 0 [5, 6] (sample_ctx [] 3)) =
     (Ok Continue, with_stack 3 [6, 5] (sample_ctx [] 3))"
proof -
  have "0 + 3 \<le> cf_gas_limit (c_frame (sample_ctx [] 3))" "cf_gas_limit (c_frame (sample_ctx [] 3)) < u64_bound"
    by (simp_all add: sample_ctx_def call_frame_new_def u64_bound_def)
  from stack_instructions_compute [OF this, of 1 "[5, 6]" sample_crypto "execute sample_crypto"]
  show ?thesis by simp
qed

text \<open>
  \<^verbatim>\<open>MCOPY\<close> copies the source range as it was before the copy, reading zeros behind the end of the memory,
  also where the ranges overlap, and changes no other byte.\<close>

theorem mcopy_copies:
  assumes "exec_opcode H ex (Flow MCOPY) s = (Ok x, t)" "cf_stack (c_frame s) = st @ [sz, src, dst]"
  shows "mem_byte (cf_memory (c_frame t)) i =
    (if unat dst \<le> i \<and> i < unat dst + unat sz then mem_byte (cf_memory (c_frame s)) (unat src + (i - unat dst))
     else mem_byte (cf_memory (c_frame s)) i)"
  using op_mcopy_Ok(1) [OF _ assms(2)] assms(1) by (simp add: exec_opcode_def exec_flow_def)

definition memory_ctx :: "bytes \<Rightarrow> nat \<Rightarrow> stack \<Rightarrow> ctx" where
  "memory_ctx mem gas st = (sample_ctx [] gas)\<lparr>c_frame := (c_frame (sample_ctx [] gas))\<lparr>cf_memory := mem, cf_stack := st\<rparr>\<rparr>"

theorem mcopy_copies_witness:
  "\<exists>x t. exec_opcode sample_crypto (execute sample_crypto) (Flow MCOPY) (memory_ctx (1 # 2 # 3 # replicate 29 0) 20 ([] @ [3, 0, 1])) = (Ok x, t) \<and>
     mem_byte (cf_memory (c_frame t)) 3 = 3"
proof -
  let ?s = "memory_ctx (1 # 2 # 3 # replicate 29 0) 20 ([] @ [3, 0, 1])"
  obtain x t where t: "exec_opcode sample_crypto (execute sample_crypto) (Flow MCOPY) ?s = (Ok x, t)"
    by (simp add: eval_machine eval_sample eval_memory memory_ctx_def op_mcopy_def gas_mcopy_def copy_behavior_def
        try_copy_within_def vec_zeroes_def)
  have "mem_byte (cf_memory (c_frame t)) 3 = 3"
    using mcopy_copies [OF t, of "[]" 3 0 1 3] by (simp add: memory_ctx_def mem_byte_def eval_sample)
  with t show ?thesis by blast
qed

text \<open>
  C30: The jump destinations the machine computes for a code are the bytes \<open>0x5B\<close> that start an
  instruction. A byte inside the one to 32 bytes of data behind a push (\<open>0x60\<close> to \<open>0x7F\<close>) is none.\<close>

theorem jump_destinations_are_instructions:
  assumes "length code + 33 < usize_bound"
  shows "get_valid_jump_destinations code = Ok {p. starts_instruction code p \<and> p < length code \<and> code ! p = 0x5B}"
  by (rule jump_destinations_bytes [OF assms])

text \<open>The second byte is the data of \<^verbatim>\<open>PUSH1\<close>, the third an instruction.\<close>

theorem jump_destinations_are_instructions_witness: "get_valid_jump_destinations [0x60, 0x5B, 0x5B] = Ok {2}"
proof -
  let ?code = "[0x60, 0x5B, 0x5B] :: bytes"
  have push: "push_data 0x60 = 1" by (simp add: push_data_def)
  have pos: "p = 0 \<or> p = 2 \<or> 3 \<le> p" if "starts_instruction ?code p" for p
    using that by induction (auto simp: push_data_def)
  have "starts_instruction ?code 2"
    using starts_instruction.behind [OF starts_instruction.first, of ?code] push by (simp add: numeral_2_eq_2)
  moreover have "p = 2" if "starts_instruction ?code p" "p < length ?code" "?code ! p = 0x5B" for p
  proof -
    have "p \<noteq> 0" using that(3) by (intro notI) simp
    then show ?thesis using pos [OF that(1)] that(2) by simp
  qed
  moreover have "?code ! 2 = 0x5B" "2 < length ?code" by simp_all
  ultimately have eq: "{p. starts_instruction ?code p \<and> p < length ?code \<and> ?code ! p = 0x5B} = {2}" by blast
  have "length ?code + 33 < usize_bound" by (simp add: usize_bound_def)
  from jump_destinations_are_instructions [OF this] show ?thesis unfolding eq .
qed

section \<open>Gas\<close>

text \<open>
  The cost of expanding the memory is additive: growing in two steps costs what growing at once
  costs.\<close>

theorem expansion_cost_additive:
  assumes "expansion_cost b a = Ok x" "expansion_cost c b = Ok y" "a \<le> b" "b \<le> c"
  shows "expansion_cost c a = Ok (x + y)"
  by (rule expansion_cost_add [OF assms])

theorem expansion_cost_additive_witness: "expansion_cost 96 32 = Ok (3 + 3)"
  by (rule expansion_cost_additive [of 64])
    (simp_all add: expansion_cost_def mem_cost_def checked_add_def checked_mul_def checked_div_def checked_sub_def
      usize_bound_def WORD_SIZE_def MEMORY_EXPANSION_QUOTIENT_def)

text \<open>
  C32: The intrinsic gas of a transaction is the sum its parts define: 21000, 4 for a zero byte and 16
  for any other of the data, 32000 and 2 for each word of the data for a creation, 2400 for each address and 1900
  for each key of the access list. It is computed exactly or, where it exceeds a \<^verbatim>\<open>u64\<close>, refused.\<close>

theorem intrinsic_gas_closed_form:
  "intrinsic_gas data create al = Ok g \<longleftrightarrow>
     g = 21000 + sum_list (map (\<lambda>b. if b = 0 then 4 else 16) data) +
       (if create then 32000 + 2 * ((length data + 31) div 32) else 0) +
       sum_list (map (\<lambda>(a, ks). 2400 + 1900 * length ks) al) \<and> g < u64_bound"
  unfolding intrinsic_gas_eq(1)
  by (auto simp: intrinsic_price_def calldata_price_def access_list_price_def add_ac mult_ac)



text \<open>
  C35: The refund of a storage write is the specified one except in one case: restoring a non-zero original value
  that has been changed before refunds 2800 less.\<close>

theorem storage_refund_misses_restored_value:
  assumes "r < u64_bound"
  shows "sstore_refund slot new r = Ok m \<longleftrightarrow>
    m < u64_bound \<and>
    int m = int r + eip3529_refund (original_value slot) (current_value slot) new -
      (if original_value slot \<noteq> 0 \<and> new = original_value slot \<and> current_value slot \<noteq> original_value slot then 2800 else 0)"
  by (rule sstore_refund_eq [OF assms])

theorem storage_refund_misses_restored_value_witness:
  "sstore_refund \<lparr>original_value = 5, current_value = 6\<rparr> 5 0 = Ok 0 \<and> eip3529_refund 5 6 5 = 2800"
  using storage_refund_misses_restored_value [of 0 "\<lparr>original_value = 5, current_value = 6\<rparr>" 5 0]
  by (simp add: eip3529_refund_def u64_bound_def)

section \<open>Transactions\<close>

text \<open>
  C20: A creation that succeeds has stored its output as the code of the new account; that code has at most
  24576 bytes, does not start with \<^verbatim>\<open>0xEF\<close>, and its deposit of 200 units of gas for each byte is part of the gas used, which is within
  the limit. This holds for the frame of a creating transaction and for that of a creating instruction.\<close>

theorem deployed_code_is_valid:
  assumes "execute H s = (Ok rep, t)" "rep_result rep = Success" "\<not> is_precompile (cf_code_address (c_frame s))"
    "cf_create_op_called (c_frame s) \<or> (vm_tx_kind (c_vm s) = TxCreate \<and> cf_depth (c_frame s) = 0)"
  shows "ai_bytecode (info_view (c_vm t) (cf_to (c_frame s))) = rep_output rep \<and>
    length (rep_output rep) \<le> MAX_CODE_SIZE \<and>
    (rep_output rep = [] \<or> hd (rep_output rep) \<noteq> INVALID_CONTRACT_PREFIX) \<and>
    200 * length (rep_output rep) \<le> rep_gas_used rep \<and> rep_gas_used rep \<le> cf_gas_limit (c_frame s)"
  using execute_deployed [OF assms(1,2) _ assms(3)] assms(4)
  by (auto simp: creating_def is_create_def deployed_def)

definition create_ctx :: "bytes \<Rightarrow> nat \<Rightarrow> ctx" where
  "create_ctx code gas =
     \<lparr>c_vm = sample_vm gas, c_frame = call_frame_new 0x1000 0x4000 0x4000 code 0 [] False gas 0 1 True\<rparr>"

theorem deployed_code_is_valid_witness:
  "\<exists>rep t. execute sample_crypto (create_ctx [0x60, 1, 0x5F, 0xF3] 1000) = (Ok rep, t) \<and>
     ai_bytecode (info_view (c_vm t) 0x4000) = rep_output rep \<and> length (rep_output rep) = 1"
proof -
  obtain rep t where r: "execute sample_crypto (create_ctx [0x60, 1, 0x5F, 0xF3] 1000) = (Ok rep, t)"
      "rep_result rep = Success" "length (rep_output rep) = 1"
    by (simp add: eval_machine eval_sample eval_memory eval_push eval_storage create_ctx_def op_push0_def op_return_def
        load_range_def mem_get_def validate_create_def update_account_bytecode_def MAX_CODE_SIZE_def INVALID_CONTRACT_PREFIX_def)
  have "\<not> is_precompile (cf_code_address (c_frame (create_ctx [0x60, 1, 0x5F, 0xF3] 1000)))"
    by (simp add: create_ctx_def call_frame_new_def is_precompile_def PRECOMPILES_def)
  with deployed_code_is_valid [OF r(1,2)] r show ?thesis by (auto simp: create_ctx_def call_frame_new_def)
qed

text \<open>
  Execution leaves the context of the transaction alone: the database, the kind and the access list of the
  transaction, and every field of the environment but the refund counter and the transient storage, with any outcome.\<close>

theorem execution_keeps_context:
  "vm_db (c_vm (snd (execute H s))) = vm_db (c_vm s) \<and> vm_tx_kind (c_vm (snd (execute H s))) = vm_tx_kind (c_vm s) \<and>
   vm_access_list (c_vm (snd (execute H s))) = vm_access_list (c_vm s) \<and>
   (\<exists>r ts. vm_env (c_vm (snd (execute H s))) = (vm_env (c_vm s))\<lparr>env_refunded_gas := r, env_transient_storage := ts\<rparr>)"
proof -
  have c: "same_context (c_vm s) (c_vm (snd (execute H s)))" by (rule tx_context.execute_keeps)
  have "e' = e\<lparr>env_refunded_gas := env_refunded_gas e', env_transient_storage := env_transient_storage e'\<rparr>"
    if "fixed_env e' = fixed_env e" for e e'
    using that by (cases e; cases e') (simp add: fixed_env_def)
  with c show ?thesis unfolding same_context_def by metis
qed

text \<open>
  C34: The counters that are unbounded numbers in the model and \<^verbatim>\<open>u64\<close> values in the code stay below
  \<open>2 ^ 64\<close>: the refund counter and the nonce of every account, with any outcome of the execution.\<close>

theorem execution_keeps_counters_u64:
  assumes "env_refunded_gas (vm_env (c_vm s)) < u64_bound" "\<forall>a. ai_nonce (info_view (c_vm s) a) < u64_bound"
    "\<forall>a. ai_nonce (get_account_info (vm_db (c_vm s)) a) < u64_bound"
  shows "env_refunded_gas (vm_env (c_vm (snd (execute H s)))) < u64_bound \<and>
    (\<forall>a. ai_nonce (info_view (c_vm (snd (execute H s))) a) < u64_bound)"
proof -
  have "counters_ok (c_vm s)" using assms by (force simp: counters_ok_def info_view_def split: option.splits)
  then have "counters_ok (c_vm (snd (execute H s)))" using counters.execute_keeps [of s H] by (simp add: keeps_counters_def)
  then show ?thesis by (auto simp: counters_ok_def info_view_def split: option.split)
qed

theorem execution_keeps_counters_u64_witness:
  "env_refunded_gas (vm_env (c_vm (snd (execute sample_crypto (sample_ctx [0x00] 10))))) < u64_bound"
  using execution_keeps_counters_u64 [of "sample_ctx [0x00] 10" sample_crypto]
  by (simp add: eval_sample info_view_def)

text \<open>
  C16: Validation. When a transaction is accepted, the sender has paid the gas limit times the gas price, the value and
  the blob gas times its base fee, and its nonce has grown by one; the receiver of a call has the value. No other balance, nonce or code
  and no storage slot has changed, nor anything of the machine besides the accounts; of the frame the intrinsic gas is
  charged, within the limit, and a creation has its data as code. The sender owned the maximal cost and has no code, and the gas
  limit fits the block.\<close>

theorem validation_effects:
  assumes "prepare_execution H s = (Ok x, t)" "env_gas_limit (vm_env (c_vm s)) < u64_bound"
  shows "let e = vm_env (c_vm s); val = cf_msg_value (c_frame s); origin = env_origin e;
      f = (c_frame s)\<lparr>cf_gas_used := cf_gas_used (c_frame s) +
        intrinsic_price (cf_calldata (c_frame s)) (is_create (c_vm s)) (vm_access_list (c_vm s))\<rparr>
    in (\<exists>fee. get_base_fee_per_blob_gas e = Ok fee \<and>
        (\<forall>a. balance_of (c_vm t) a + (if a = origin
               then unat (env_gas_price e) * env_gas_limit e + unat val + blob_gas_of e * unat fee else 0) =
            balance_of (c_vm s) a + (if a = cf_to (c_frame s) \<and> vm_tx_kind (c_vm s) \<noteq> TxCreate then unat val else 0))) \<and>
      (\<forall>a. ai_nonce (info_view (c_vm t) a) = ai_nonce (info_view (c_vm s) a) + (if a = origin then 1 else 0) \<and>
        ai_bytecode (info_view (c_vm t) a) = ai_bytecode (info_view (c_vm s) a)) \<and>
      storage_view (c_vm t) = storage_view (c_vm s) \<and> c_vm t = (c_vm s)\<lparr>vm_cache := vm_cache (c_vm t)\<rparr> \<and>
      c_frame t = (if is_create (c_vm s) then (assign_bytecode (cf_calldata f) f)\<lparr>cf_calldata := []\<rparr> else f) \<and>
      cf_gas_used f \<le> cf_gas_limit f \<and>
      unat (case env_tx_max_fee_per_gas e of Some m \<Rightarrow> m | None \<Rightarrow> env_gas_price e) * env_gas_limit e + unat val +
        blob_gas_of e * unat (case env_tx_max_fee_per_blob_gas e of Some m \<Rightarrow> m | None \<Rightarrow> 0) \<le> balance_of (c_vm s) origin \<and>
      \<not> has_code H (info_view (c_vm s) origin) \<and> env_gas_limit e \<le> env_block_gas_limit e"
proof -
  let ?e = "vm_env (c_vm s)" and ?val = "cf_msg_value (c_frame s)"
  note p = prepare_execution_Ok [OF assms(1)]
  from p(1) obtain cost where c: "up_front_cost ?e ?val (ai_balance (info_view (c_vm s) (env_origin ?e))) = Ok cost"
    "ledger (if is_create (c_vm s) then \<lambda>_. 0 else only (cf_to (c_frame s)) (unat ?val))
        (only (env_origin ?e) (unat cost)) (only (env_origin ?e) 1) (c_vm s) (c_vm t)" by blast
  from up_front_cost_Ok [OF c(1) assms(2)] obtain fee where fee: "get_base_fee_per_blob_gas ?e = Ok fee"
    "unat cost = unat (env_gas_price ?e) * env_gas_limit ?e + unat ?val + blob_gas_of ?e * unat fee"
    "unat (case env_tx_max_fee_per_gas ?e of Some m \<Rightarrow> m | None \<Rightarrow> env_gas_price ?e) * env_gas_limit ?e + unat ?val +
        blob_gas_of ?e * unat (case env_tx_max_fee_per_blob_gas ?e of Some m \<Rightarrow> m | None \<Rightarrow> 0) \<le> balance_of (c_vm s) (env_origin ?e)"
    by (auto simp: balance_of_def)
  have l: "balance_of (c_vm t) a + (if a = env_origin ?e then unat cost else 0) =
          balance_of (c_vm s) a + (if a = cf_to (c_frame s) \<and> vm_tx_kind (c_vm s) \<noteq> TxCreate then unat ?val else 0)"
        "ai_nonce (info_view (c_vm t) a) = ai_nonce (info_view (c_vm s) a) + (if a = env_origin ?e then 1 else 0)"
        "ai_bytecode (info_view (c_vm t) a) = ai_bytecode (info_view (c_vm s) a)" for a
    using c(2) [unfolded ledger_def, rule_format, of a] by (simp_all add: only_def is_create_def split: if_splits)
  have cache: "c_vm t = (c_vm s)\<lparr>vm_cache := vm_cache (c_vm t)\<rparr>" using p(7) by (auto simp: only_cache_def)
  have lim: "cf_gas_limit (c_frame t) = cf_gas_limit (c_frame s)"
    by (subst prepare_frame [OF assms(1)]) (simp add: assign_bytecode_def)
  show ?thesis unfolding Let_def
    using fee(1,3) l [unfolded fee(2)] prepare_keeps_storage [OF assms(1)] cache prepare_frame [OF assms(1), unfolded p(2)]
      p(2-5) lim by auto
qed

lemmas eval_transaction = prepare_execution_def up_front_cost_def get_max_blob_gas_price_def get_blob_gas_price_def
  get_base_fee_per_blob_gas_def blob_gas_def fake_exponential_def fake_exponential_loop.simps validate_blobs_def require_def
  add_intrinsic_gas_def intrinsic_gas_def tx_calldata_def smap_err_def has_code_def get_account_def get_account_or_load_def
  get_account_mut_def insert_account_def load_account_def increase_account_balance_def decrease_account_balance_def
  increment_account_nonce_def u256_checked_mul_def u256_checked_add_def u256_checked_sub_def u256_to_u64_def
  checked_div_def TX_BASE_COST_def MIN_BASE_FEE_PER_BLOB_GAS_def BLOB_BASE_FEE_UPDATE_FRACTION_def Let_def

theorem validation_effects_witness:
  "\<exists>x t. prepare_execution sample_crypto (sample_ctx [] 30000) = (Ok x, t) \<and> balance_of (c_vm t) 0x1000 = 700000"
proof -
  obtain x t where t: "prepare_execution sample_crypto (sample_ctx [] 30000) = (Ok x, t)"
    by (simp add: eval_transaction eval_machine eval_sample)
  have "env_gas_limit (vm_env (c_vm (sample_ctx [] 30000))) < u64_bound" by (simp add: eval_sample)
  note v = validation_effects [OF t this, unfolded Let_def, THEN conjunct1]
  have b: "balance_of (c_vm (sample_ctx [] 30000)) 0x1000 = 1000000"
    by (simp add: eval_sample balance_of_def info_view_def)
  have "balance_of (c_vm t) 0x1000 + 300000 = 1000000"
    using v by (elim exE conjE) (drule spec [of _ "0x1000"], simp add: b, simp add: eval_sample blob_gas_of_def)
  then show ?thesis using t by auto
qed

text \<open>
  C15: Settlement. After execution the sender gets back the price of the gas that is left and of the refund, which
  is at most a fifth of the gas used, and the value where the execution failed; the coinbase gets the priority fee of the gas
  used less the refund. A destroyed account and, before these payments, the receiver of a failed transaction are dropped from the cache and
  fall back to the balance the database has for them. No other balance changes, and the gas used is within the limit.\<close>

theorem settlement_effects:
  assumes "post_execution_changes f rep v = (Ok rep', w)" "env_gas_limit (vm_env v) < u64_bound"
  shows "rep_gas_used rep \<le> env_gas_limit (vm_env v) \<and>
    rep' = rep\<lparr>rep_gas_refunded := min (rep_gas_refunded rep) (rep_gas_used rep div 5)\<rparr> \<and>
    (\<forall>a. balance_of w a =
      (if a \<in> selfdestruct_set (vm_substate v) then db_balance v a
       else (if rep_result rep \<noteq> Success \<and> a = cf_to f then db_balance v a else balance_of v a) +
         (if a = cf_msg_sender f then
            (if rep_result rep = Success then 0 else unat (cf_msg_value f)) +
            unat (env_gas_price (vm_env v)) * (env_gas_limit (vm_env v) - rep_gas_used rep + rep_gas_refunded rep') else 0) +
         (if a = env_coinbase (vm_env v)
          then unat (env_gas_price (vm_env v) - env_base_fee_per_gas (vm_env v)) *
            (rep_gas_used rep - rep_gas_refunded rep') else 0)))"
proof -
  have r: "rep' = rep\<lparr>rep_gas_refunded := refund_of rep\<rparr>" "rep_gas_used rep \<le> env_gas_limit (vm_env v)"
    using post_execution_Ok [OF assms] by simp_all
  then show ?thesis using settlement_balances [OF assms]
    by (auto simp: settled_def refund_of_def reverted_def)
qed

theorem settlement_effects_witness:
  "\<exists>rep w. post_execution_changes (c_frame (sample_ctx [] 30000)) (make_report Success 21000 0 [] (sample_ctx [] 30000)) (sample_vm 30000) =
     (Ok rep, w) \<and> balance_of w 0x3000 = 63000"
proof -
  let ?f = "c_frame (sample_ctx [] 30000)" and ?r = "make_report Success 21000 0 [] (sample_ctx [] 30000)"
  obtain rep w where p: "post_execution_changes ?f ?r (sample_vm 30000) = (Ok rep, w)"
    by (simp add: post_execution_changes_def remove_accounts_def eval_transaction eval_machine eval_sample)
  have "balance_of w 0x3000 = 63000"
    using settlement_effects [OF p, THEN conjunct2, THEN conjunct2, rule_format, of "0x3000"]
      settlement_effects [OF p, THEN conjunct2, THEN conjunct1]
    by (simp add: eval_sample make_report_def substate_new_def balance_of_def info_view_def)
  with p show ?thesis by blast
qed

text \<open>
  C3: A transaction returns. The machine that \<^verbatim>\<open>VM::new\<close> makes runs its transaction to a report or to an error, without a
  panic and without running out of fuel; the gas a report says was used is within the limit of the transaction, and the refund is at most a
  fifth of it.\<close>

theorem transaction_returns:
  assumes "\<forall>x. length (keccak H x) = 32" "vm_new H to e val dat d c al = Ok v" "env_gas_limit e < u64_bound"
  shows "fst (transact H v) \<noteq> Panic \<and> fst (transact H v) \<noteq> Diverge \<and>
    (\<forall>rep. fst (transact H v) = Ok rep \<longrightarrow> rep_gas_used rep \<le> env_gas_limit e \<and> 5 * rep_gas_refunded rep \<le> rep_gas_used rep)"
proof -
  obtain f where f: "vm_call_frames v = [] @ [f]" "frame_ok f" "vm_env v = e"
    using assms(2,3) by (auto simp: vm_new_def result_simps split: tx_kind.splits prod.splits)
  have "yields (\<lambda>rep w. fair_report (env_gas_limit (vm_env v)) rep) (transact H v)"
    by (rule transact_fair [OF _ f(1,2)]) (use assms f in auto)
  then show ?thesis using f(3) by (auto simp: yields_def fair_report_def split: prod.splits)
qed

definition sample_call :: "nat \<Rightarrow> u256 \<Rightarrow> (vm, vm_error) result" where
  "sample_call gas val = vm_new sample_crypto (TxCall 0x2000) (sample_env gas) val [1, 0] sample_db Map.empty []"

theorem transaction_returns_witness:
  "\<exists>v. sample_call 30000 5 = Ok v \<and> fst (transact sample_crypto v) \<noteq> Diverge"
proof -
  obtain v where v: "sample_call 30000 5 = Ok v"
    by (simp add: sample_call_def vm_new_def get_account_or_load_def Let_def)
  with transaction_returns [OF sample_keccak v [unfolded sample_call_def]] show ?thesis
    by (simp add: sample_env_def u64_bound_def)
qed

text \<open>
  C4: A transfer. A call of an account without code that is accepted succeeds, uses the intrinsic gas exactly and logs
  nothing; the sender pays the value and the price of the gas, the receiver gets the value, the coinbase gets the priority fee,
  and no other balance changes. Validation, execution and settlement together create no wei: what disappears is the base fee.\<close>

theorem plain_transfer:
  assumes "vm_new H (TxCall a) e val dat d c al = Ok v" "transact H v = (Ok rep, w)"
    "ai_bytecode (info_view v a) = []" "\<not> is_precompile a"
    "env_refunded_gas e = 0" "env_tx_blob_hashes e = []" "env_gas_limit e < u64_bound"
  shows "rep_result rep = Success \<and> rep_gas_used rep = intrinsic_price dat False al \<and> rep_logs rep = [] \<and>
    balance_of w b + (if b = env_origin e then unat (env_gas_price e) * rep_gas_used rep + unat val else 0) =
      balance_of v b + (if b = a then unat val else 0) +
      (if b = env_coinbase e then unat (env_gas_price e - env_base_fee_per_gas e) * rep_gas_used rep else 0)"
  using transfer_settles [OF assms, of b] unfolding only_def by (elim conjE) (simp only: simp_thms)

theorem plain_transfer_witness:
  "\<exists>v rep w. sample_call 30000 5 = Ok v \<and> transact sample_crypto v = (Ok rep, w) \<and>
     rep_gas_used rep = 21020 \<and> balance_of w 0x2000 = 5"
proof -
  obtain v where v: "sample_call 30000 5 = Ok v" "info_view v 0x2000 = \<lparr>ai_balance = 0, ai_bytecode = [], ai_nonce = 0\<rparr>"
      "v = \<lparr>vm_call_frames = [call_frame_new 0x1000 0x2000 0x2000 [] 5 [1, 0] False 30000 0 0 False], vm_env = sample_env 30000,
        vm_substate = substate_new (sample_env 30000) [] 0x2000 {}, vm_db = sample_db,
        vm_cache = [0x2000 \<mapsto> load_account sample_db 0x2000], vm_tx_kind = TxCall 0x2000, vm_access_list = []\<rparr>"
    by (simp add: sample_call_def vm_new_def get_account_or_load_def load_account_def info_view_def sample_db_def sample_env_def Let_def)
  obtain rep w where r: "transact sample_crypto v = (Ok rep, w)"
    unfolding v(3) transact_def transact_frame_def
    by (simp add: eval_transaction eval_machine eval_sample execute_and_settle_def post_execution_changes_def remove_accounts_def)
  have "\<not> is_precompile 0x2000" by (simp add: is_precompile_def PRECOMPILES_def)
  with plain_transfer [OF v(1) [unfolded sample_call_def] r, of "0x2000"] v(2)
  have "rep_gas_used rep = 21020 \<and> balance_of w 0x2000 = 5"
    by (simp add: sample_env_def u64_bound_def balance_of_def intrinsic_price_def calldata_price_def access_list_price_def)
  with v(1) r show ?thesis by blast
qed

end
