(* ===== verification/Rlp_Record.thy ===== *)
theory Rlp_Record
  imports Rlp_Struct
begin

text \<open>
  Struct codecs. Every struct of the node is encoded by a chain of \<^verbatim>\<open>encode_field\<close> calls and decoded
  by the same chain of \<^verbatim>\<open>decode_field\<close> calls. The rules below derive the decoder contract of such a
  chain from those of its fields, once for all structs, and turn the bound on the length of an
  encoding into the bounds on its parts.
\<close>

section \<open>Chains of encoder calls\<close>

definition encoder_steps :: "encoder \<Rightarrow> (encoder \<Rightarrow> encoder) list \<Rightarrow> encoder" where
  "encoder_steps e fs = foldl (\<lambda>e f. f e) e fs"

lemma encoder_steps_simps [simp, encoder_simps]:
  "encoder_steps e [] = e"
  "encoder_steps e (f # fs) = encoder_steps (f e) fs"
  by (simp_all add: encoder_steps_def)

lemma length_encoder_finish: "length (temp_buf e) \<le> length (encoder_finish e)"
  by (simp add: encoder_finish_def)

section \<open>Chains of decoder calls\<close>

text \<open>
  A continuation of \<^verbatim>\<open>Decoder::new\<close> ends, and what it leaves unread is the rest behind the struct.
\<close>

definition keeps_rest :: "(decoder \<Rightarrow> ('a \<times> bytes, rlp_error) result) \<Rightarrow> bool" where
  "keeps_rest k \<longleftrightarrow> (\<forall>d. k d \<noteq> Diverge \<and> (\<forall>x r. k d = Ok (x, r) \<longrightarrow> r = d_remaining d))"

named_theorems struct_rules "decoder chains of a struct"

lemma keeps_rest_finish [struct_rules]:
  "keeps_rest (\<lambda>d. rbind (decoder_finish d) (\<lambda>r. Ok (x, r)))"
  by (auto simp: keeps_rest_def decoder_finish_def)

lemma keeps_rest_field [struct_rules]:
  assumes "rlp_decoder dec" "\<And>x. keeps_rest (k x)"
  shows "keeps_rest (\<lambda>d. rbind (decode_field t n dec d) (\<lambda>(x, d'). k x d'))"
  using assms(2) rlp_decoder.decode_field_no_Diverge [OF assms(1)] decode_field_remaining
  by (fastforce simp: keeps_rest_def rbind_eq_Ok rbind_eq_Diverge)

lemma decode_optional_field_remaining:
  "decode_optional_field dec d = Ok (x, d') \<Longrightarrow> d_remaining d' = d_remaining d"
  by (auto simp: decode_optional_field_def split: result.splits prod.splits)

lemma keeps_rest_optional_field [struct_rules]:
  assumes "rlp_decoder dec" "\<And>x. keeps_rest (k x)"
  shows "keeps_rest (\<lambda>d. rbind (decode_optional_field dec d) (\<lambda>(x, d'). k x d'))"
proof -
  have "decode_optional_field dec d \<noteq> Diverge" for d
    using rlp_decoder.dec_no_Diverge [OF assms(1)]
    by (auto simp: decode_optional_field_def split: result.split)
  then show ?thesis
    using assms(2) decode_optional_field_remaining
    by (fastforce simp: keeps_rest_def rbind_eq_Ok rbind_eq_Diverge)
qed

lemma keeps_rest_let [struct_rules]: "keeps_rest (\<lambda>d. k v d) \<Longrightarrow> keeps_rest (\<lambda>d. let x = v in k x d)"
  by simp

lemma struct_decoder:
  assumes "keeps_rest k"
  shows "rlp_decoder (\<lambda>rlp. rbind (decoder_new rlp) k)"
proof
  fix bs x rest
  assume "rbind (decoder_new bs) k = Ok (x, rest)"
  then obtain d where "decoder_new bs = Ok d" "k d = Ok (x, rest)" by (auto simp: rbind_eq_Ok)
  with assms decoder_new_progress [of bs d]
  show "\<exists>pre. pre \<noteq> [] \<and> bs = pre @ rest" by (auto simp: keeps_rest_def)
next
  fix bs
  show "rbind (decoder_new bs) k \<noteq> Diverge"
    using assms decoder_new_no_Diverge by (auto simp: keeps_rest_def rbind_eq_Diverge)
qed

context rlp_codec
begin

lemma decode_field_enc_last:
  "valid x \<Longrightarrow> decode_field t n dec \<lparr>d_payload = enc x, d_remaining = r\<rparr> =
     Ok (x, \<lparr>d_payload = [], d_remaining = r\<rparr>)"
  using decode_field_enc [of x t n "[]" r] by simp

lemma decode_optional_field_enc_last:
  "valid x \<Longrightarrow> decode_optional_field dec \<lparr>d_payload = enc x, d_remaining = r\<rparr> =
     Ok (Some x, \<lparr>d_payload = [], d_remaining = r\<rparr>)"
  using decode_optional_field_enc [of x "[]" r] by simp

lemmas field_simps_enc = decode_field_enc decode_field_enc_last

lemma vec_validI:
  "(\<And>x. x \<in> set xs \<Longrightarrow> valid x) \<Longrightarrow> length (encode_vec enc xs) < slice_bound \<Longrightarrow> vec_valid xs"
  by (simp add: vec_valid_def encode_vec_alt)

end

lemma decoder_finish_Nil [simp]: "decoder_finish \<lparr>d_payload = [], d_remaining = r\<rparr> = Ok r"
  by (simp add: decoder_finish_def)

section \<open>Lengths of the parts of an encoding\<close>

lemma length_encode_bytes: "length bs \<le> length (encode_bytes bs)"
  by (cases bs) (auto simp: encode_bytes_def)

lemma encode_bytes_fits: "length (encode_bytes bs) < slice_bound \<Longrightarrow> length bs < slice_bound"
  using length_encode_bytes le_less_trans by blast

lemma length_encode_vec_elem: "x \<in> set xs \<Longrightarrow> length (enc x) \<le> length (encode_vec enc xs)"
proof -
  assume "x \<in> set xs"
  then have "length (enc x) \<le> length (concat (map enc xs))"
    by (induction xs) auto
  then show ?thesis by (simp add: encode_vec_alt)
qed

lemma length_encode_tuple2:
  "length (ea (fst p)) + length (eb (snd p)) \<le> length (encode_tuple2 ea eb p)"
  by (cases p) (simp add: encode_tuple2_def)

section \<open>The access list of a transaction\<close>

type_synonym core_access_list = "(bytes \<times> bytes list) list"

definition encode_access_list :: "core_access_list \<Rightarrow> bytes" where
  "encode_access_list al = encode_vec (encode_tuple2 encode_address (encode_vec encode_h256)) al"

definition decode_access_list :: "core_access_list decoder_fun" where
  "decode_access_list rlp =
     decode_vec (decode_tuple2 decode_address (decode_vec decode_h256)) rlp"

definition wf_access_list :: "core_access_list \<Rightarrow> bool" where
  "wf_access_list al \<longleftrightarrow>
     (\<forall>(a, keys) \<in> set al. length a = 20 \<and> (\<forall>k \<in> set keys. length k = 32))"

definition fits_access_list :: "core_access_list \<Rightarrow> bool" where
  "fits_access_list al \<longleftrightarrow> wf_access_list al \<and> length (encode_access_list al) < slice_bound"

lemma access_list_entry_valid:
  assumes "length a = 20" "\<forall>k \<in> set keys. length k = 32"
    and "length (encode_tuple2 encode_address (encode_vec encode_h256) (a, keys)) < slice_bound"
  shows "rlp_address_vec_h256.pair_valid (a, keys)"
proof -
  have le: "length (encode_address a) + length (encode_vec encode_h256 keys) < slice_bound"
    using length_encode_tuple2 [of encode_address "(a, keys)" "encode_vec encode_h256"] assms(3)
    by simp
  then have "rlp_h256.vec_valid keys" using assms(2) by (intro rlp_h256.vec_validI) auto
  then show ?thesis using assms(1) le by (simp add: rlp_address_vec_h256.pair_valid_def)
qed

lemma access_list_valid:
  assumes "fits_access_list al"
  shows "rlp_address_vec_h256.pair.vec_valid al"
proof (rule rlp_address_vec_h256.pair.vec_validI)
  let ?enc = "encode_tuple2 encode_address (encode_vec encode_h256)"
  show "length (encode_vec ?enc al) < slice_bound"
    using assms by (simp add: fits_access_list_def encode_access_list_def)
  fix p assume p: "p \<in> set al"
  then have "length (?enc p) < slice_bound"
    using assms length_encode_vec_elem [OF p, of ?enc]
    by (simp add: fits_access_list_def encode_access_list_def)
  with p assms show "rlp_address_vec_h256.pair_valid p"
    by (cases p) (auto simp: fits_access_list_def wf_access_list_def intro: access_list_entry_valid)
qed

interpretation rlp_access_list: rlp_codec decode_access_list encode_access_list fits_access_list
  using rlp_address_vec_h256.pair.vec_codec access_list_valid
  by (auto simp: rlp_codec_def rlp_codec_axioms_def decode_access_list_def [abs_def]
      encode_access_list_def)

end
