(* ===== verification/Tx_Types.thy ===== *)
theory Tx_Types
  imports Rlp_Record
begin

text \<open>
  Transactions, \<^verbatim>\<open>crates/common/types/transaction.rs\<close>: the five transaction types, their RLP
  encoding and decoding, the canonical encoding of EIP-2718, the accessors shared by all types and
  the fee computations. Addresses and hashes are byte lists of length 20 and 32, machine integers
  are words, and \<^verbatim>\<open>u64\<close> arithmetic that the source leaves unchecked wraps as the release build does.
  The name of a field's type in a decoding error is written as the source spells the type; the
  standard library leaves the exact form of \<^verbatim>\<open>std::any::type_name\<close> open.
\<close>

section \<open>Types\<close>

datatype tx_recipient = Call bytes | Create

datatype privileged_tx_type = Deposit | Withdrawal

datatype tx_type = Legacy | EIP2930 | EIP1559 | EIP4844 | Privileged

record legacy_transaction =
  lg_nonce :: u64
  lg_gas_price :: u64
  lg_gas :: u64
  lg_to :: tx_recipient
  lg_value :: u256
  lg_data :: bytes
  lg_v :: u256
  lg_r :: u256
  lg_s :: u256

record eip2930_transaction =
  al_chain_id :: u64
  al_nonce :: u64
  al_gas_price :: u64
  al_gas_limit :: u64
  al_to :: tx_recipient
  al_value :: u256
  al_data :: bytes
  al_access_list :: core_access_list
  al_signature_y_parity :: bool
  al_signature_r :: u256
  al_signature_s :: u256

record eip1559_transaction =
  df_chain_id :: u64
  df_nonce :: u64
  df_max_priority_fee_per_gas :: u64
  df_max_fee_per_gas :: u64
  df_gas_limit :: u64
  df_to :: tx_recipient
  df_value :: u256
  df_data :: bytes
  df_access_list :: core_access_list
  df_signature_y_parity :: bool
  df_signature_r :: u256
  df_signature_s :: u256

record eip4844_transaction =
  bl_chain_id :: u64
  bl_nonce :: u64
  bl_max_priority_fee_per_gas :: u64
  bl_max_fee_per_gas :: u64
  bl_gas :: u64
  bl_to :: bytes
  bl_value :: u256
  bl_data :: bytes
  bl_access_list :: core_access_list
  bl_max_fee_per_blob_gas :: u256
  bl_blob_versioned_hashes :: "bytes list"
  bl_signature_y_parity :: bool
  bl_signature_r :: u256
  bl_signature_s :: u256

record privileged_l2_transaction =
  pv_chain_id :: u64
  pv_nonce :: u64
  pv_max_priority_fee_per_gas :: u64
  pv_max_fee_per_gas :: u64
  pv_gas_limit :: u64
  pv_to :: tx_recipient
  pv_value :: u256
  pv_data :: bytes
  pv_access_list :: core_access_list
  pv_tx_type :: privileged_tx_type
  pv_signature_y_parity :: bool
  pv_signature_r :: u256
  pv_signature_s :: u256

datatype transaction =
    LegacyTransaction legacy_transaction
  | EIP2930Transaction eip2930_transaction
  | EIP1559Transaction eip1559_transaction
  | EIP4844Transaction eip4844_transaction
  | PrivilegedL2Transaction privileged_l2_transaction

fun tx_type_to_u8 :: "tx_type \<Rightarrow> u8" where
  "tx_type_to_u8 Legacy = 0x00"
| "tx_type_to_u8 EIP2930 = 0x01"
| "tx_type_to_u8 EIP1559 = 0x02"
| "tx_type_to_u8 EIP4844 = 0x03"
| "tx_type_to_u8 Privileged = 0x7e"

definition tx_type_from_u8 :: "u8 \<Rightarrow> tx_type option" where
  "tx_type_from_u8 v =
     (if v = 0x00 then Some Legacy
      else if v = 0x01 then Some EIP2930
      else if v = 0x02 then Some EIP1559
      else if v = 0x03 then Some EIP4844
      else if v = 0x7e then Some Privileged
      else None)"

definition privileged_tx_type_from_u8 :: "u8 \<Rightarrow> privileged_tx_type option" where
  "privileged_tx_type_from_u8 v =
     (if v = 0x01 then Some Deposit else if v = 0x02 then Some Withdrawal else None)"

fun tx_type_of :: "transaction \<Rightarrow> tx_type" where
  "tx_type_of (LegacyTransaction _) = Legacy"
| "tx_type_of (EIP2930Transaction _) = EIP2930"
| "tx_type_of (EIP1559Transaction _) = EIP1559"
| "tx_type_of (EIP4844Transaction _) = EIP4844"
| "tx_type_of (PrivilegedL2Transaction _) = Privileged"

section \<open>RLP encoding\<close>

fun encode_tx_kind :: "tx_recipient \<Rightarrow> bytes" where
  "encode_tx_kind (Call address) = encode_address address"
| "encode_tx_kind Create = [RLP_NULL]"

fun encode_privileged_tx_type :: "privileged_tx_type \<Rightarrow> bytes" where
  "encode_privileged_tx_type Deposit = [0x01]"
| "encode_privileged_tx_type Withdrawal = [0x02]"

definition encode_legacy :: "legacy_transaction \<Rightarrow> bytes" where
  "encode_legacy tx =
     encoder_finish (encoder_steps (encoder_new [])
       [encode_field encode_u64 (lg_nonce tx),
        encode_field encode_u64 (lg_gas_price tx),
        encode_field encode_u64 (lg_gas tx),
        encode_field encode_tx_kind (lg_to tx),
        encode_field encode_u256 (lg_value tx),
        encode_field encode_bytes (lg_data tx),
        encode_field encode_u256 (lg_v tx),
        encode_field encode_u256 (lg_r tx),
        encode_field encode_u256 (lg_s tx)])"

definition encode_eip2930 :: "eip2930_transaction \<Rightarrow> bytes" where
  "encode_eip2930 tx =
     encoder_finish (encoder_steps (encoder_new [])
       [encode_field encode_u64 (al_chain_id tx),
        encode_field encode_u64 (al_nonce tx),
        encode_field encode_u64 (al_gas_price tx),
        encode_field encode_u64 (al_gas_limit tx),
        encode_field encode_tx_kind (al_to tx),
        encode_field encode_u256 (al_value tx),
        encode_field encode_bytes (al_data tx),
        encode_field encode_access_list (al_access_list tx),
        encode_field encode_bool (al_signature_y_parity tx),
        encode_field encode_u256 (al_signature_r tx),
        encode_field encode_u256 (al_signature_s tx)])"

definition encode_eip1559 :: "eip1559_transaction \<Rightarrow> bytes" where
  "encode_eip1559 tx =
     encoder_finish (encoder_steps (encoder_new [])
       [encode_field encode_u64 (df_chain_id tx),
        encode_field encode_u64 (df_nonce tx),
        encode_field encode_u64 (df_max_priority_fee_per_gas tx),
        encode_field encode_u64 (df_max_fee_per_gas tx),
        encode_field encode_u64 (df_gas_limit tx),
        encode_field encode_tx_kind (df_to tx),
        encode_field encode_u256 (df_value tx),
        encode_field encode_bytes (df_data tx),
        encode_field encode_access_list (df_access_list tx),
        encode_field encode_bool (df_signature_y_parity tx),
        encode_field encode_u256 (df_signature_r tx),
        encode_field encode_u256 (df_signature_s tx)])"

definition encode_eip4844 :: "eip4844_transaction \<Rightarrow> bytes" where
  "encode_eip4844 tx =
     encoder_finish (encoder_steps (encoder_new [])
       [encode_field encode_u64 (bl_chain_id tx),
        encode_field encode_u64 (bl_nonce tx),
        encode_field encode_u64 (bl_max_priority_fee_per_gas tx),
        encode_field encode_u64 (bl_max_fee_per_gas tx),
        encode_field encode_u64 (bl_gas tx),
        encode_field encode_address (bl_to tx),
        encode_field encode_u256 (bl_value tx),
        encode_field encode_bytes (bl_data tx),
        encode_field encode_access_list (bl_access_list tx),
        encode_field encode_u256 (bl_max_fee_per_blob_gas tx),
        encode_field (encode_vec encode_h256) (bl_blob_versioned_hashes tx),
        encode_field encode_bool (bl_signature_y_parity tx),
        encode_field encode_u256 (bl_signature_r tx),
        encode_field encode_u256 (bl_signature_s tx)])"

definition encode_privileged :: "privileged_l2_transaction \<Rightarrow> bytes" where
  "encode_privileged tx =
     encoder_finish (encoder_steps (encoder_new [])
       [encode_field encode_u64 (pv_chain_id tx),
        encode_field encode_u64 (pv_nonce tx),
        encode_field encode_u64 (pv_max_priority_fee_per_gas tx),
        encode_field encode_u64 (pv_max_fee_per_gas tx),
        encode_field encode_u64 (pv_gas_limit tx),
        encode_field encode_tx_kind (pv_to tx),
        encode_field encode_u256 (pv_value tx),
        encode_field encode_bytes (pv_data tx),
        encode_field encode_access_list (pv_access_list tx),
        encode_field encode_privileged_tx_type (pv_tx_type tx),
        encode_field encode_bool (pv_signature_y_parity tx),
        encode_field encode_u256 (pv_signature_r tx),
        encode_field encode_u256 (pv_signature_s tx)])"

fun encode_canonical :: "transaction \<Rightarrow> bytes" where
  "encode_canonical (LegacyTransaction t) = encode_legacy t"
| "encode_canonical (EIP2930Transaction t) = tx_type_to_u8 EIP2930 # encode_eip2930 t"
| "encode_canonical (EIP1559Transaction t) = tx_type_to_u8 EIP1559 # encode_eip1559 t"
| "encode_canonical (EIP4844Transaction t) = tx_type_to_u8 EIP4844 # encode_eip4844 t"
| "encode_canonical (PrivilegedL2Transaction t) = tx_type_to_u8 Privileged # encode_privileged t"

definition encode_transaction :: "transaction \<Rightarrow> bytes" where
  "encode_transaction tx =
     (case tx of LegacyTransaction t \<Rightarrow> encode_legacy t
      | _ \<Rightarrow> encode_bytes (encode_canonical tx))"

text \<open>The fields a signature covers: \<^verbatim>\<open>PayloadRLPEncode\<close>.\<close>

definition encode_payload_legacy :: "legacy_transaction \<Rightarrow> bytes" where
  "encode_payload_legacy tx =
     encoder_finish (encoder_steps (encoder_new [])
       [encode_field encode_u64 (lg_nonce tx),
        encode_field encode_u64 (lg_gas_price tx),
        encode_field encode_u64 (lg_gas tx),
        encode_field encode_tx_kind (lg_to tx),
        encode_field encode_u256 (lg_value tx),
        encode_field encode_bytes (lg_data tx)])"

definition encode_payload_eip2930 :: "eip2930_transaction \<Rightarrow> bytes" where
  "encode_payload_eip2930 tx =
     encoder_finish (encoder_steps (encoder_new [])
       [encode_field encode_u64 (al_chain_id tx),
        encode_field encode_u64 (al_nonce tx),
        encode_field encode_u64 (al_gas_price tx),
        encode_field encode_u64 (al_gas_limit tx),
        encode_field encode_tx_kind (al_to tx),
        encode_field encode_u256 (al_value tx),
        encode_field encode_bytes (al_data tx),
        encode_field encode_access_list (al_access_list tx)])"

definition encode_payload_eip1559 :: "eip1559_transaction \<Rightarrow> bytes" where
  "encode_payload_eip1559 tx =
     encoder_finish (encoder_steps (encoder_new [])
       [encode_field encode_u64 (df_chain_id tx),
        encode_field encode_u64 (df_nonce tx),
        encode_field encode_u64 (df_max_priority_fee_per_gas tx),
        encode_field encode_u64 (df_max_fee_per_gas tx),
        encode_field encode_u64 (df_gas_limit tx),
        encode_field encode_tx_kind (df_to tx),
        encode_field encode_u256 (df_value tx),
        encode_field encode_bytes (df_data tx),
        encode_field encode_access_list (df_access_list tx)])"

definition encode_payload_eip4844 :: "eip4844_transaction \<Rightarrow> bytes" where
  "encode_payload_eip4844 tx =
     encoder_finish (encoder_steps (encoder_new [])
       [encode_field encode_u64 (bl_chain_id tx),
        encode_field encode_u64 (bl_nonce tx),
        encode_field encode_u64 (bl_max_priority_fee_per_gas tx),
        encode_field encode_u64 (bl_max_fee_per_gas tx),
        encode_field encode_u64 (bl_gas tx),
        encode_field encode_address (bl_to tx),
        encode_field encode_u256 (bl_value tx),
        encode_field encode_bytes (bl_data tx),
        encode_field encode_access_list (bl_access_list tx),
        encode_field encode_u256 (bl_max_fee_per_blob_gas tx),
        encode_field (encode_vec encode_h256) (bl_blob_versioned_hashes tx)])"

definition encode_payload_privileged :: "privileged_l2_transaction \<Rightarrow> bytes" where
  "encode_payload_privileged tx =
     encoder_finish (encoder_steps (encoder_new [])
       [encode_field encode_u64 (pv_chain_id tx),
        encode_field encode_u64 (pv_nonce tx),
        encode_field encode_u64 (pv_max_priority_fee_per_gas tx),
        encode_field encode_u64 (pv_max_fee_per_gas tx),
        encode_field encode_u64 (pv_gas_limit tx),
        encode_field encode_tx_kind (pv_to tx),
        encode_field encode_u256 (pv_value tx),
        encode_field encode_bytes (pv_data tx),
        encode_field encode_access_list (pv_access_list tx),
        encode_field encode_privileged_tx_type (pv_tx_type tx)])"

fun encode_payload :: "transaction \<Rightarrow> bytes" where
  "encode_payload (LegacyTransaction tx) = encode_payload_legacy tx"
| "encode_payload (EIP1559Transaction tx) = encode_payload_eip1559 tx"
| "encode_payload (EIP2930Transaction tx) = encode_payload_eip2930 tx"
| "encode_payload (EIP4844Transaction tx) = encode_payload_eip4844 tx"
| "encode_payload (PrivilegedL2Transaction tx) = encode_payload_privileged tx"

section \<open>RLP decoding\<close>

definition decode_tx_kind :: "tx_recipient decoder_fun" where
  "decode_tx_kind rlp =
     (case rlp of
        [] \<Rightarrow> Err InvalidLength
      | first_byte # tail \<Rightarrow>
          if first_byte = RLP_NULL then Ok (Create, tail)
          else rbind (decode_address rlp) (\<lambda>(t, rest). Ok (Call t, rest)))"

definition decode_privileged_tx_type :: "privileged_tx_type decoder_fun" where
  "decode_privileged_tx_type rlp =
     rbind (decode_u8 rlp) (\<lambda>(v, rest).
     rbind (ok_or (privileged_tx_type_from_u8 v) (Custom ''Invalid'')) (\<lambda>t. Ok (t, rest)))"

definition decode_legacy :: "legacy_transaction decoder_fun" where
  "decode_legacy rlp =
     (rbind (decoder_new rlp) (\<lambda>d.
     rbind (decode_field ''u64'' ''nonce'' decode_u64 d) (\<lambda>(nonce, d).
     rbind (decode_field ''u64'' ''gas_price'' decode_u64 d) (\<lambda>(gas_price, d).
     rbind (decode_field ''u64'' ''gas'' decode_u64 d) (\<lambda>(gas, d).
     rbind (decode_field ''TxKind'' ''to'' decode_tx_kind d) (\<lambda>(to, d).
     rbind (decode_field ''U256'' ''value'' decode_u256 d) (\<lambda>(value, d).
     rbind (decode_field ''Bytes'' ''data'' decode_bytes d) (\<lambda>(data, d).
     rbind (decode_field ''U256'' ''v'' decode_u256 d) (\<lambda>(v, d).
     rbind (decode_field ''U256'' ''r'' decode_u256 d) (\<lambda>(r, d).
     rbind (decode_field ''U256'' ''s'' decode_u256 d) (\<lambda>(s, d).
     rbind (decoder_finish d) (\<lambda>rest.
     Ok (\<lparr>lg_nonce = nonce,
     lg_gas_price = gas_price,
     lg_gas = gas,
     lg_to = to,
     lg_value = value,
     lg_data = data,
     lg_v = v,
     lg_r = r,
     lg_s = s\<rparr>, rest)))))))))))))"

definition decode_eip2930 :: "eip2930_transaction decoder_fun" where
  "decode_eip2930 rlp =
     (rbind (decoder_new rlp) (\<lambda>d.
     rbind (decode_field ''u64'' ''chain_id'' decode_u64 d) (\<lambda>(chain_id, d).
     rbind (decode_field ''u64'' ''nonce'' decode_u64 d) (\<lambda>(nonce, d).
     rbind (decode_field ''u64'' ''gas_price'' decode_u64 d) (\<lambda>(gas_price, d).
     rbind (decode_field ''u64'' ''gas_limit'' decode_u64 d) (\<lambda>(gas_limit, d).
     rbind (decode_field ''TxKind'' ''to'' decode_tx_kind d) (\<lambda>(to, d).
     rbind (decode_field ''U256'' ''value'' decode_u256 d) (\<lambda>(value, d).
     rbind (decode_field ''Bytes'' ''data'' decode_bytes d) (\<lambda>(data, d).
     rbind (decode_field ''Vec<(Address, Vec<H256>)>'' ''access_list'' decode_access_list d) (\<lambda>(access_list, d).
     rbind (decode_field ''bool'' ''signature_y_parity'' decode_bool d) (\<lambda>(signature_y_parity, d).
     rbind (decode_field ''U256'' ''signature_r'' decode_u256 d) (\<lambda>(signature_r, d).
     rbind (decode_field ''U256'' ''signature_s'' decode_u256 d) (\<lambda>(signature_s, d).
     rbind (decoder_finish d) (\<lambda>rest.
     Ok (\<lparr>al_chain_id = chain_id,
     al_nonce = nonce,
     al_gas_price = gas_price,
     al_gas_limit = gas_limit,
     al_to = to,
     al_value = value,
     al_data = data,
     al_access_list = access_list,
     al_signature_y_parity = signature_y_parity,
     al_signature_r = signature_r,
     al_signature_s = signature_s\<rparr>, rest)))))))))))))))"

definition decode_eip1559 :: "eip1559_transaction decoder_fun" where
  "decode_eip1559 rlp =
     (rbind (decoder_new rlp) (\<lambda>d.
     rbind (decode_field ''u64'' ''chain_id'' decode_u64 d) (\<lambda>(chain_id, d).
     rbind (decode_field ''u64'' ''nonce'' decode_u64 d) (\<lambda>(nonce, d).
     rbind (decode_field ''u64'' ''max_priority_fee_per_gas'' decode_u64 d) (\<lambda>(max_priority_fee_per_gas, d).
     rbind (decode_field ''u64'' ''max_fee_per_gas'' decode_u64 d) (\<lambda>(max_fee_per_gas, d).
     rbind (decode_field ''u64'' ''gas_limit'' decode_u64 d) (\<lambda>(gas_limit, d).
     rbind (decode_field ''TxKind'' ''to'' decode_tx_kind d) (\<lambda>(to, d).
     rbind (decode_field ''U256'' ''value'' decode_u256 d) (\<lambda>(value, d).
     rbind (decode_field ''Bytes'' ''data'' decode_bytes d) (\<lambda>(data, d).
     rbind (decode_field ''Vec<(Address, Vec<H256>)>'' ''access_list'' decode_access_list d) (\<lambda>(access_list, d).
     rbind (decode_field ''bool'' ''signature_y_parity'' decode_bool d) (\<lambda>(signature_y_parity, d).
     rbind (decode_field ''U256'' ''signature_r'' decode_u256 d) (\<lambda>(signature_r, d).
     rbind (decode_field ''U256'' ''signature_s'' decode_u256 d) (\<lambda>(signature_s, d).
     rbind (decoder_finish d) (\<lambda>rest.
     Ok (\<lparr>df_chain_id = chain_id,
     df_nonce = nonce,
     df_max_priority_fee_per_gas = max_priority_fee_per_gas,
     df_max_fee_per_gas = max_fee_per_gas,
     df_gas_limit = gas_limit,
     df_to = to,
     df_value = value,
     df_data = data,
     df_access_list = access_list,
     df_signature_y_parity = signature_y_parity,
     df_signature_r = signature_r,
     df_signature_s = signature_s\<rparr>, rest))))))))))))))))"

definition decode_eip4844 :: "eip4844_transaction decoder_fun" where
  "decode_eip4844 rlp =
     (rbind (decoder_new rlp) (\<lambda>d.
     rbind (decode_field ''u64'' ''chain_id'' decode_u64 d) (\<lambda>(chain_id, d).
     rbind (decode_field ''u64'' ''nonce'' decode_u64 d) (\<lambda>(nonce, d).
     rbind (decode_field ''u64'' ''max_priority_fee_per_gas'' decode_u64 d) (\<lambda>(max_priority_fee_per_gas, d).
     rbind (decode_field ''u64'' ''max_fee_per_gas'' decode_u64 d) (\<lambda>(max_fee_per_gas, d).
     rbind (decode_field ''u64'' ''gas'' decode_u64 d) (\<lambda>(gas, d).
     rbind (decode_field ''Address'' ''to'' decode_address d) (\<lambda>(to, d).
     rbind (decode_field ''U256'' ''value'' decode_u256 d) (\<lambda>(value, d).
     rbind (decode_field ''Bytes'' ''data'' decode_bytes d) (\<lambda>(data, d).
     rbind (decode_field ''Vec<(Address, Vec<H256>)>'' ''access_list'' decode_access_list d) (\<lambda>(access_list, d).
     rbind (decode_field ''U256'' ''max_fee_per_blob_gas'' decode_u256 d) (\<lambda>(max_fee_per_blob_gas, d).
     rbind (decode_field ''Vec<H256>'' ''blob_versioned_hashes'' (decode_vec decode_h256) d) (\<lambda>(blob_versioned_hashes, d).
     rbind (decode_field ''bool'' ''signature_y_parity'' decode_bool d) (\<lambda>(signature_y_parity, d).
     rbind (decode_field ''U256'' ''signature_r'' decode_u256 d) (\<lambda>(signature_r, d).
     rbind (decode_field ''U256'' ''signature_s'' decode_u256 d) (\<lambda>(signature_s, d).
     rbind (decoder_finish d) (\<lambda>rest.
     Ok (\<lparr>bl_chain_id = chain_id,
     bl_nonce = nonce,
     bl_max_priority_fee_per_gas = max_priority_fee_per_gas,
     bl_max_fee_per_gas = max_fee_per_gas,
     bl_gas = gas,
     bl_to = to,
     bl_value = value,
     bl_data = data,
     bl_access_list = access_list,
     bl_max_fee_per_blob_gas = max_fee_per_blob_gas,
     bl_blob_versioned_hashes = blob_versioned_hashes,
     bl_signature_y_parity = signature_y_parity,
     bl_signature_r = signature_r,
     bl_signature_s = signature_s\<rparr>, rest))))))))))))))))))"

definition decode_privileged :: "privileged_l2_transaction decoder_fun" where
  "decode_privileged rlp =
     (rbind (decoder_new rlp) (\<lambda>d.
     rbind (decode_field ''u64'' ''chain_id'' decode_u64 d) (\<lambda>(chain_id, d).
     rbind (decode_field ''u64'' ''nonce'' decode_u64 d) (\<lambda>(nonce, d).
     rbind (decode_field ''u64'' ''max_priority_fee_per_gas'' decode_u64 d) (\<lambda>(max_priority_fee_per_gas, d).
     rbind (decode_field ''u64'' ''max_fee_per_gas'' decode_u64 d) (\<lambda>(max_fee_per_gas, d).
     rbind (decode_field ''u64'' ''gas_limit'' decode_u64 d) (\<lambda>(gas_limit, d).
     rbind (decode_field ''TxKind'' ''to'' decode_tx_kind d) (\<lambda>(to, d).
     rbind (decode_field ''U256'' ''value'' decode_u256 d) (\<lambda>(value, d).
     rbind (decode_field ''Bytes'' ''data'' decode_bytes d) (\<lambda>(data, d).
     rbind (decode_field ''Vec<(Address, Vec<H256>)>'' ''access_list'' decode_access_list d) (\<lambda>(access_list, d).
     rbind (decode_field ''PrivilegedTxType'' ''tx_type'' decode_privileged_tx_type d) (\<lambda>(tx_type, d).
     rbind (decode_field ''bool'' ''signature_y_parity'' decode_bool d) (\<lambda>(signature_y_parity, d).
     rbind (decode_field ''U256'' ''signature_r'' decode_u256 d) (\<lambda>(signature_r, d).
     rbind (decode_field ''U256'' ''signature_s'' decode_u256 d) (\<lambda>(signature_s, d).
     rbind (decoder_finish d) (\<lambda>rest.
     Ok (\<lparr>pv_chain_id = chain_id,
     pv_nonce = nonce,
     pv_max_priority_fee_per_gas = max_priority_fee_per_gas,
     pv_max_fee_per_gas = max_fee_per_gas,
     pv_gas_limit = gas_limit,
     pv_to = to,
     pv_value = value,
     pv_data = data,
     pv_access_list = access_list,
     pv_tx_type = tx_type,
     pv_signature_y_parity = signature_y_parity,
     pv_signature_r = signature_r,
     pv_signature_s = signature_s\<rparr>, rest)))))))))))))))))"

text \<open>
  \<^verbatim>\<open>format!("Invalid transaction type: {ty}")\<close>; the decimal digits of a byte.
\<close>

fun show_nat :: "nat \<Rightarrow> string" where
  "show_nat n =
     (if n < 10 then [char_of (48 + n)] else show_nat (n div 10) @ [char_of (48 + n mod 10)])"

declare show_nat.simps [simp del]

definition invalid_tx_type :: "u8 \<Rightarrow> rlp_error" where
  "invalid_tx_type ty = Custom (''Invalid transaction type: '' @ show_nat (unat ty))"

definition decode_transaction :: "transaction decoder_fun" where
  "decode_transaction rlp =
     (rbind (is_encoded_as_bytes rlp) (\<lambda>as_bytes.
     (if as_bytes then
       (rbind (get_rlp_bytes_item_payload rlp) (\<lambda>payload.
       (case payload of
         [] \<Rightarrow> Err InvalidLength
       | ty # tx_encoding \<Rightarrow>
           if ty = 0x0 then
             rbind (decode_legacy tx_encoding) (\<lambda>(tx, rem). Ok (LegacyTransaction tx, rem))
           else if ty = 0x1 then
             rbind (decode_eip2930 tx_encoding) (\<lambda>(tx, rem). Ok (EIP2930Transaction tx, rem))
           else if ty = 0x2 then
             rbind (decode_eip1559 tx_encoding) (\<lambda>(tx, rem). Ok (EIP1559Transaction tx, rem))
           else if ty = 0x3 then
             rbind (decode_eip4844 tx_encoding) (\<lambda>(tx, rem). Ok (EIP4844Transaction tx, rem))
           else if ty = 0x7e then
             rbind (decode_privileged tx_encoding)
               (\<lambda>(tx, rem). Ok (PrivilegedL2Transaction tx, rem))
           else Err (invalid_tx_type ty))))
     else rbind (decode_legacy rlp) (\<lambda>(tx, rem). Ok (LegacyTransaction tx, rem)))))"

definition decode_canonical :: "bytes \<Rightarrow> (transaction, rlp_error) result" where
  "decode_canonical bs =
     (case bs of
        ty # tx_bytes \<Rightarrow>
          if unat ty < 0x7f then
            (if ty = 0x0 then rbind (decode decode_legacy tx_bytes) (\<lambda>tx. Ok (LegacyTransaction tx))
             else if ty = 0x1 then
               rbind (decode decode_eip2930 tx_bytes) (\<lambda>tx. Ok (EIP2930Transaction tx))
             else if ty = 0x2 then
               rbind (decode decode_eip1559 tx_bytes) (\<lambda>tx. Ok (EIP1559Transaction tx))
             else if ty = 0x3 then
               rbind (decode decode_eip4844 tx_bytes) (\<lambda>tx. Ok (EIP4844Transaction tx))
             else if ty = 0x7e then
               rbind (decode decode_privileged tx_bytes) (\<lambda>tx. Ok (PrivilegedL2Transaction tx))
             else Err (invalid_tx_type ty))
          else rbind (decode decode_legacy bs) (\<lambda>tx. Ok (LegacyTransaction tx))
      | [] \<Rightarrow> rbind (decode decode_legacy bs) (\<lambda>tx. Ok (LegacyTransaction tx)))"

section \<open>Accessors\<close>

fun tx_gas_limit :: "transaction \<Rightarrow> u64" where
  "tx_gas_limit (LegacyTransaction tx) = lg_gas tx"
| "tx_gas_limit (EIP2930Transaction tx) = al_gas_limit tx"
| "tx_gas_limit (EIP1559Transaction tx) = df_gas_limit tx"
| "tx_gas_limit (EIP4844Transaction tx) = bl_gas tx"
| "tx_gas_limit (PrivilegedL2Transaction tx) = pv_gas_limit tx"

fun tx_gas_price :: "transaction \<Rightarrow> u64" where
  "tx_gas_price (LegacyTransaction tx) = lg_gas_price tx"
| "tx_gas_price (EIP2930Transaction tx) = al_gas_price tx"
| "tx_gas_price (EIP1559Transaction tx) = df_max_fee_per_gas tx"
| "tx_gas_price (EIP4844Transaction tx) = bl_max_fee_per_gas tx"
| "tx_gas_price (PrivilegedL2Transaction tx) = pv_max_fee_per_gas tx"

fun tx_to :: "transaction \<Rightarrow> tx_recipient" where
  "tx_to (LegacyTransaction tx) = lg_to tx"
| "tx_to (EIP2930Transaction tx) = al_to tx"
| "tx_to (EIP1559Transaction tx) = df_to tx"
| "tx_to (EIP4844Transaction tx) = Call (bl_to tx)"
| "tx_to (PrivilegedL2Transaction tx) = pv_to tx"

fun tx_value :: "transaction \<Rightarrow> u256" where
  "tx_value (LegacyTransaction tx) = lg_value tx"
| "tx_value (EIP2930Transaction tx) = al_value tx"
| "tx_value (EIP1559Transaction tx) = df_value tx"
| "tx_value (EIP4844Transaction tx) = bl_value tx"
| "tx_value (PrivilegedL2Transaction tx) = pv_value tx"

fun tx_max_priority_fee :: "transaction \<Rightarrow> u64 option" where
  "tx_max_priority_fee (LegacyTransaction _) = None"
| "tx_max_priority_fee (EIP2930Transaction _) = None"
| "tx_max_priority_fee (EIP1559Transaction tx) = Some (df_max_priority_fee_per_gas tx)"
| "tx_max_priority_fee (EIP4844Transaction tx) = Some (bl_max_priority_fee_per_gas tx)"
| "tx_max_priority_fee (PrivilegedL2Transaction tx) = Some (pv_max_priority_fee_per_gas tx)"

definition as_u64 :: "u256 \<Rightarrow> (u64, 'e) result" where
  "as_u64 v = (if unat v < 2 ^ 64 then Ok (ucast v) else Panic)"

definition derive_legacy_chain_id :: "u256 \<Rightarrow> (u64 option, 'e) result" where
  "derive_legacy_chain_id v0 =
     rbind (as_u64 v0) (\<lambda>v.
       Ok (if v = 27 \<or> v = 28 then None else Some ((v - 35) div 2)))"

fun tx_chain_id :: "transaction \<Rightarrow> (u64 option, 'e) result" where
  "tx_chain_id (LegacyTransaction tx) = derive_legacy_chain_id (lg_v tx)"
| "tx_chain_id (EIP2930Transaction tx) = Ok (Some (al_chain_id tx))"
| "tx_chain_id (EIP1559Transaction tx) = Ok (Some (df_chain_id tx))"
| "tx_chain_id (EIP4844Transaction tx) = Ok (Some (bl_chain_id tx))"
| "tx_chain_id (PrivilegedL2Transaction tx) = Ok (Some (pv_chain_id tx))"

fun tx_access_list :: "transaction \<Rightarrow> core_access_list" where
  "tx_access_list (LegacyTransaction _) = []"
| "tx_access_list (EIP2930Transaction tx) = al_access_list tx"
| "tx_access_list (EIP1559Transaction tx) = df_access_list tx"
| "tx_access_list (EIP4844Transaction tx) = bl_access_list tx"
| "tx_access_list (PrivilegedL2Transaction tx) = pv_access_list tx"

fun tx_nonce :: "transaction \<Rightarrow> u64" where
  "tx_nonce (LegacyTransaction tx) = lg_nonce tx"
| "tx_nonce (EIP2930Transaction tx) = al_nonce tx"
| "tx_nonce (EIP1559Transaction tx) = df_nonce tx"
| "tx_nonce (EIP4844Transaction tx) = bl_nonce tx"
| "tx_nonce (PrivilegedL2Transaction tx) = pv_nonce tx"

fun tx_data :: "transaction \<Rightarrow> bytes" where
  "tx_data (LegacyTransaction tx) = lg_data tx"
| "tx_data (EIP2930Transaction tx) = al_data tx"
| "tx_data (EIP1559Transaction tx) = df_data tx"
| "tx_data (EIP4844Transaction tx) = bl_data tx"
| "tx_data (PrivilegedL2Transaction tx) = pv_data tx"

fun tx_blob_versioned_hashes :: "transaction \<Rightarrow> bytes list" where
  "tx_blob_versioned_hashes (LegacyTransaction _) = []"
| "tx_blob_versioned_hashes (EIP2930Transaction _) = []"
| "tx_blob_versioned_hashes (EIP1559Transaction _) = []"
| "tx_blob_versioned_hashes (EIP4844Transaction tx) = bl_blob_versioned_hashes tx"
| "tx_blob_versioned_hashes (PrivilegedL2Transaction _) = []"

fun tx_max_fee_per_blob_gas :: "transaction \<Rightarrow> u256 option" where
  "tx_max_fee_per_blob_gas (LegacyTransaction _) = None"
| "tx_max_fee_per_blob_gas (EIP2930Transaction _) = None"
| "tx_max_fee_per_blob_gas (EIP1559Transaction _) = None"
| "tx_max_fee_per_blob_gas (EIP4844Transaction tx) = Some (bl_max_fee_per_blob_gas tx)"
| "tx_max_fee_per_blob_gas (PrivilegedL2Transaction _) = None"

fun is_contract_creation :: "transaction \<Rightarrow> bool" where
  "is_contract_creation (LegacyTransaction tx) = (lg_to tx = Create)"
| "is_contract_creation (EIP2930Transaction tx) = (al_to tx = Create)"
| "is_contract_creation (EIP1559Transaction tx) = (df_to tx = Create)"
| "is_contract_creation (EIP4844Transaction _) = False"
| "is_contract_creation (PrivilegedL2Transaction tx) = (pv_to tx = Create)"

fun tx_max_fee_per_gas :: "transaction \<Rightarrow> u64 option" where
  "tx_max_fee_per_gas (LegacyTransaction _) = None"
| "tx_max_fee_per_gas (EIP2930Transaction _) = None"
| "tx_max_fee_per_gas (EIP1559Transaction tx) = Some (df_max_fee_per_gas tx)"
| "tx_max_fee_per_gas (EIP4844Transaction tx) = Some (bl_max_fee_per_gas tx)"
| "tx_max_fee_per_gas (PrivilegedL2Transaction tx) = Some (pv_max_fee_per_gas tx)"

definition tx_compute_hash :: "(bytes \<Rightarrow> bytes) \<Rightarrow> transaction \<Rightarrow> bytes" where
  "tx_compute_hash keccak tx = keccak (encode_canonical tx)"

definition u256_bit_length :: "u256 \<Rightarrow> nat" where
  "u256_bit_length v = floorlog 2 (unat v)"

definition protected :: "transaction \<Rightarrow> bool" where
  "protected tx =
     (case tx of
        LegacyTransaction t \<Rightarrow>
          if u256_bit_length (lg_v t) \<le> 8 then
            lg_v t \<noteq> 27 \<and> lg_v t \<noteq> 28 \<and> lg_v t \<noteq> 1 \<and> lg_v t \<noteq> 0
          else True
      | _ \<Rightarrow> True)"

section \<open>Fees\<close>

definition dynamic_gas_price :: "transaction \<Rightarrow> u64 option \<Rightarrow> u64 option" where
  "dynamic_gas_price tx base_fee_per_gas =
     (case (tx_max_priority_fee tx, tx_max_fee_per_gas tx, base_fee_per_gas) of
        (Some max_priority_fee, Some max_fee, Some base_fee) \<Rightarrow>
          Some (min max_priority_fee (max_fee - base_fee) + base_fee)
      | _ \<Rightarrow> None)"

definition effective_gas_price :: "transaction \<Rightarrow> u64 option \<Rightarrow> u64 option" where
  "effective_gas_price tx base_fee_per_gas =
     (case tx_type_of tx of
        Legacy \<Rightarrow> Some (tx_gas_price tx)
      | EIP2930 \<Rightarrow> Some (tx_gas_price tx)
      | EIP1559 \<Rightarrow> dynamic_gas_price tx base_fee_per_gas
      | EIP4844 \<Rightarrow> dynamic_gas_price tx base_fee_per_gas
      | Privileged \<Rightarrow> Some (tx_gas_price tx))"

definition u256_saturating :: "nat \<Rightarrow> u256" where
  "u256_saturating n = (if n < 2 ^ 256 then of_nat n else - 1)"

definition saturating_mul_u256 :: "u256 \<Rightarrow> u256 \<Rightarrow> u256" where
  "saturating_mul_u256 a b = u256_saturating (unat a * unat b)"

definition saturating_add_u256 :: "u256 \<Rightarrow> u256 \<Rightarrow> u256" where
  "saturating_add_u256 a b = u256_saturating (unat a + unat b)"

definition cost_without_base_fee :: "transaction \<Rightarrow> u256 option" where
  "cost_without_base_fee tx =
     (case (case tx_type_of tx of
              Legacy \<Rightarrow> Some (tx_gas_price tx)
            | EIP2930 \<Rightarrow> Some (tx_gas_price tx)
            | EIP1559 \<Rightarrow> tx_max_fee_per_gas tx
            | EIP4844 \<Rightarrow> tx_max_fee_per_gas tx
            | Privileged \<Rightarrow> Some (tx_gas_price tx)) of
        None \<Rightarrow> None
      | Some price \<Rightarrow>
          Some (saturating_add_u256
                 (saturating_mul_u256 (ucast price) (ucast (tx_gas_limit tx))) (tx_value tx)))"

definition gas_tip_cap :: "transaction \<Rightarrow> u64" where
  "gas_tip_cap tx = (case tx_max_priority_fee tx of Some fee \<Rightarrow> fee | None \<Rightarrow> tx_gas_price tx)"

definition gas_fee_cap :: "transaction \<Rightarrow> u64" where
  "gas_fee_cap tx = (case tx_max_fee_per_gas tx of Some fee \<Rightarrow> fee | None \<Rightarrow> tx_gas_price tx)"

definition effective_gas_tip :: "transaction \<Rightarrow> u64 option \<Rightarrow> u64 option" where
  "effective_gas_tip tx base_fee =
     (case base_fee of
        None \<Rightarrow> Some (gas_tip_cap tx)
      | Some fee \<Rightarrow>
          if fee \<le> gas_fee_cap tx then Some (min (gas_fee_cap tx - fee) (gas_tip_cap tx))
          else None)"

end
