(* ===== verification/Tx_Codec.thy ===== *)
theory Tx_Codec
  imports Tx_Types
begin

text \<open>
  The transaction encodings satisfy the codec contract: each of the five structs, the RLP form used
  inside blocks and network messages, and the canonical form used for hashing and tries. A struct is
  well-formed (\<open>wf\<close>) if its addresses and hashes have their fixed lengths, and it fits if its encoding
  is shorter than the longest slice.
\<close>

section \<open>Recipients and privileged transaction types\<close>

fun wf_tx_kind :: "tx_recipient \<Rightarrow> bool" where
  "wf_tx_kind (Call a) \<longleftrightarrow> length a = 20"
| "wf_tx_kind Create \<longleftrightarrow> True"

lemma encode_address_first: "length a = 20 \<Longrightarrow> encode_address a = 0x94 # a"
  by (simp add: encode_address_def encode_bytes_def length_prefix_def RLP_NULL_def)

lemma decode_tx_kind_round_trip:
  "wf_tx_kind k \<Longrightarrow> decode_tx_kind (encode_tx_kind k @ rest) = Ok (k, rest)"
  using rlp_address.round_trip
  by (cases k) (auto simp: decode_tx_kind_def encode_address_first RLP_NULL_def)

lemma decode_tx_kind_progress:
  "decode_tx_kind bs = Ok (k, rest) \<Longrightarrow> \<exists>pre. pre \<noteq> [] \<and> bs = pre @ rest"
  by (cases bs) (auto simp: decode_tx_kind_def rbind_eq_Ok split: if_splits
      dest: rlp_address.dec_progress)

interpretation rlp_tx_kind: rlp_codec decode_tx_kind encode_tx_kind wf_tx_kind
  by unfold_locales
    (auto simp: decode_tx_kind_round_trip, auto simp: decode_tx_kind_progress, auto simp:
      decode_tx_kind_def rbind_eq_Diverge rlp_address.dec_no_Diverge split: list.splits if_splits)

interpretation rlp_privileged_tx_type:
  rlp_codec decode_privileged_tx_type encode_privileged_tx_type "\<lambda>_. True"
proof
  fix t rest
  show "decode_privileged_tx_type (encode_privileged_tx_type t @ rest) = Ok (t, rest)"
    by (cases t)
      (simp_all add: decode_privileged_tx_type_def decode_u8_def privileged_tx_type_from_u8_def)
next
  fix bs t rest
  assume "decode_privileged_tx_type bs = Ok (t, rest)"
  then obtain v where "decode_u8 bs = Ok (v, rest)"
    by (auto simp: decode_privileged_tx_type_def rbind_eq_Ok)
  then show "\<exists>pre. pre \<noteq> [] \<and> bs = pre @ rest" by (rule rlp_u8.dec_progress)
qed (auto simp: decode_privileged_tx_type_def rbind_eq_Diverge rlp_u8.dec_no_Diverge ok_or_no_Panic)

section \<open>The five structs\<close>

lemmas field_decoders [struct_rules] =
  rlp_u8.rlp_decoder_axioms rlp_u64.rlp_decoder_axioms rlp_u256.rlp_decoder_axioms
  rlp_u128.rlp_decoder_axioms rlp_bytes.rlp_decoder_axioms rlp_bool.rlp_decoder_axioms
  rlp_h256.rlp_decoder_axioms rlp_address.rlp_decoder_axioms rlp_bloom.rlp_decoder_axioms
  rlp_tx_kind.rlp_decoder_axioms rlp_privileged_tx_type.rlp_decoder_axioms
  rlp_access_list.rlp_decoder_axioms rlp_address_vec_h256.b.rlp_decoder_axioms

lemmas field_round_trips =
  rlp_u8.field_simps_enc rlp_u64.field_simps_enc rlp_u256.field_simps_enc
  rlp_u128.field_simps_enc rlp_bytes.field_simps_enc rlp_bool.field_simps_enc
  rlp_h256.field_simps_enc rlp_address.field_simps_enc rlp_bloom.field_simps_enc
  rlp_tx_kind.field_simps_enc rlp_privileged_tx_type.field_simps_enc
  rlp_access_list.field_simps_enc rlp_address_vec_h256.b.field_simps_enc

definition fits_legacy :: "legacy_transaction \<Rightarrow> bool" where
  "fits_legacy tx \<longleftrightarrow> wf_tx_kind (lg_to tx) \<and> length (encode_legacy tx) < slice_bound"

definition fits_eip2930 :: "eip2930_transaction \<Rightarrow> bool" where
  "fits_eip2930 tx \<longleftrightarrow> wf_tx_kind (al_to tx) \<and> wf_access_list (al_access_list tx) \<and>
     length (encode_eip2930 tx) < slice_bound"

definition fits_eip1559 :: "eip1559_transaction \<Rightarrow> bool" where
  "fits_eip1559 tx \<longleftrightarrow> wf_tx_kind (df_to tx) \<and> wf_access_list (df_access_list tx) \<and>
     length (encode_eip1559 tx) < slice_bound"

definition fits_eip4844 :: "eip4844_transaction \<Rightarrow> bool" where
  "fits_eip4844 tx \<longleftrightarrow> length (bl_to tx) = 20 \<and> wf_access_list (bl_access_list tx) \<and>
     (\<forall>h \<in> set (bl_blob_versioned_hashes tx). length h = 32) \<and>
     length (encode_eip4844 tx) < slice_bound"

definition fits_privileged :: "privileged_l2_transaction \<Rightarrow> bool" where
  "fits_privileged tx \<longleftrightarrow> wf_tx_kind (pv_to tx) \<and> wf_access_list (pv_access_list tx) \<and>
     length (encode_privileged tx) < slice_bound"

lemma struct_round_trip:
  assumes "length (encoder_finish e) < slice_bound" "e_buf e = []"
    and "k \<lparr>d_payload = temp_buf e, d_remaining = rest\<rparr> = Ok (x, rest)"
  shows "rbind (decoder_new (encoder_finish e @ rest)) k = Ok (x, rest)"
proof -
  have "length (temp_buf e) < slice_bound"
    using assms(1) length_encoder_finish le_less_trans by blast
  then show ?thesis using assms(2,3) by (simp add: decoder_new_finish)
qed

text \<open>The lengths of the variable-size fields, from the length of the struct that holds them.\<close>

lemma field_fits:
  assumes "length (encoder_finish e) < slice_bound" "temp_buf e = a @ enc x @ b"
  shows "length (enc x) < slice_bound"
  using assms length_encoder_finish [of e] by simp

lemma decode_legacy_round_trip:
  assumes "fits_legacy tx"
  shows "decode_legacy (encode_legacy tx @ rest) = Ok (tx, rest)"
proof -
  have "length (encode_bytes (lg_data tx)) < slice_bound"
    using assms by (simp add: fits_legacy_def encode_legacy_def encoder_finish_def)
  with assms show ?thesis
    unfolding decode_legacy_def encode_legacy_def fits_legacy_def
    by (intro struct_round_trip) (simp_all add: field_round_trips encode_bytes_fits)
qed

lemma decode_eip2930_round_trip:
  assumes "fits_eip2930 tx"
  shows "decode_eip2930 (encode_eip2930 tx @ rest) = Ok (tx, rest)"
proof -
  have "length (encode_bytes (al_data tx)) < slice_bound"
    "length (encode_access_list (al_access_list tx)) < slice_bound"
    using assms by (simp_all add: fits_eip2930_def encode_eip2930_def encoder_finish_def)
  with assms show ?thesis
    unfolding decode_eip2930_def encode_eip2930_def fits_eip2930_def
    by (intro struct_round_trip)
      (simp_all add: field_round_trips encode_bytes_fits fits_access_list_def)
qed

lemma decode_eip1559_round_trip:
  assumes "fits_eip1559 tx"
  shows "decode_eip1559 (encode_eip1559 tx @ rest) = Ok (tx, rest)"
proof -
  have "length (encode_bytes (df_data tx)) < slice_bound"
    "length (encode_access_list (df_access_list tx)) < slice_bound"
    using assms by (simp_all add: fits_eip1559_def encode_eip1559_def encoder_finish_def)
  with assms show ?thesis
    unfolding decode_eip1559_def encode_eip1559_def fits_eip1559_def
    by (intro struct_round_trip)
      (simp_all add: field_round_trips encode_bytes_fits fits_access_list_def)
qed

lemma decode_eip4844_round_trip:
  assumes "fits_eip4844 tx"
  shows "decode_eip4844 (encode_eip4844 tx @ rest) = Ok (tx, rest)"
proof -
  have "length (encode_bytes (bl_data tx)) < slice_bound"
    "length (encode_access_list (bl_access_list tx)) < slice_bound"
    "length (encode_vec encode_h256 (bl_blob_versioned_hashes tx)) < slice_bound"
    using assms by (simp_all add: fits_eip4844_def encode_eip4844_def encoder_finish_def)
  with assms show ?thesis
    unfolding decode_eip4844_def encode_eip4844_def fits_eip4844_def
    by (intro struct_round_trip)
      (simp_all add: field_round_trips encode_bytes_fits fits_access_list_def rlp_h256.vec_validI)
qed

lemma decode_privileged_round_trip:
  assumes "fits_privileged tx"
  shows "decode_privileged (encode_privileged tx @ rest) = Ok (tx, rest)"
proof -
  have "length (encode_bytes (pv_data tx)) < slice_bound"
    "length (encode_access_list (pv_access_list tx)) < slice_bound"
    using assms by (simp_all add: fits_privileged_def encode_privileged_def encoder_finish_def)
  with assms show ?thesis
    unfolding decode_privileged_def encode_privileged_def fits_privileged_def
    by (intro struct_round_trip)
      (simp_all add: field_round_trips encode_bytes_fits fits_access_list_def)
qed

lemma tx_decoders [struct_rules]:
  "rlp_decoder decode_legacy" "rlp_decoder decode_eip2930" "rlp_decoder decode_eip1559"
  "rlp_decoder decode_eip4844" "rlp_decoder decode_privileged"
  unfolding decode_legacy_def [abs_def] decode_eip2930_def [abs_def] decode_eip1559_def [abs_def]
    decode_eip4844_def [abs_def] decode_privileged_def [abs_def]
  by (intro struct_decoder struct_rules)+

interpretation rlp_legacy: rlp_codec decode_legacy encode_legacy fits_legacy
  using tx_decoders(1) by (simp add: rlp_codec_def rlp_codec_axioms_def decode_legacy_round_trip)

interpretation rlp_eip2930: rlp_codec decode_eip2930 encode_eip2930 fits_eip2930
  using tx_decoders(2) by (simp add: rlp_codec_def rlp_codec_axioms_def decode_eip2930_round_trip)

interpretation rlp_eip1559: rlp_codec decode_eip1559 encode_eip1559 fits_eip1559
  using tx_decoders(3) by (simp add: rlp_codec_def rlp_codec_axioms_def decode_eip1559_round_trip)

interpretation rlp_eip4844: rlp_codec decode_eip4844 encode_eip4844 fits_eip4844
  using tx_decoders(4) by (simp add: rlp_codec_def rlp_codec_axioms_def decode_eip4844_round_trip)

interpretation rlp_privileged: rlp_codec decode_privileged encode_privileged fits_privileged
  using tx_decoders(5) by (simp add: rlp_codec_def rlp_codec_axioms_def decode_privileged_round_trip)

section \<open>The envelope of typed transactions\<close>

fun fits_transaction :: "transaction \<Rightarrow> bool" where
  "fits_transaction (LegacyTransaction t) \<longleftrightarrow> fits_legacy t"
| "fits_transaction (EIP2930Transaction t) \<longleftrightarrow> fits_eip2930 t"
| "fits_transaction (EIP1559Transaction t) \<longleftrightarrow> fits_eip1559 t"
| "fits_transaction (EIP4844Transaction t) \<longleftrightarrow> fits_eip4844 t"
| "fits_transaction (PrivilegedL2Transaction t) \<longleftrightarrow> fits_privileged t"

definition long_envelope :: "transaction \<Rightarrow> bool" where
  "long_envelope tx \<longleftrightarrow> tx_type_of tx = Legacy \<or> 56 \<le> length (encode_canonical tx)"

definition valid_transaction :: "transaction \<Rightarrow> bool" where
  "valid_transaction tx \<longleftrightarrow> fits_transaction tx \<and> long_envelope tx \<and>
     length (encode_transaction tx) < slice_bound"

lemma encode_bytes_long:
  assumes "56 \<le> length bs" "length bs < slice_bound"
  shows "\<exists>b sig. encode_bytes bs = b # sig @ bs \<and> unat b = 0xb7 + length sig \<and>
    1 \<le> length sig \<and> length sig \<le> 8"
proof -
  let ?sig = "dropWhile (\<lambda>x. x = 0) (be_bytes 8 (length bs))"
  have "length bs < 256 ^ 8" using assms(2) by (simp add: slice_bound_def)
  then have "?sig \<noteq> []" using assms(1) by (intro sig_bytes_nonempty) auto
  then have one: "1 \<le> length ?sig" by (simp add: Suc_le_eq)
  have le: "length ?sig \<le> 8" by (rule sig_bytes_length)
  then have "unat (0xb7 + of_nat (length ?sig) :: u8) = 0xb7 + length ?sig"
    using unat_add_of_nat_u8 [of "0xb7" "length ?sig"] by simp
  moreover have "encode_bytes bs = (0xb7 + of_nat (length ?sig)) # ?sig @ bs"
    using assms(1) by (simp add: encode_bytes_def length_prefix_def Let_def)
  ultimately show ?thesis using one le by blast
qed

lemma bytes_item_payload:
  assumes "56 \<le> length bs" "length bs < slice_bound"
  shows "is_encoded_as_bytes (encode_bytes bs @ rest) = Ok True"
    "get_rlp_bytes_item_payload (encode_bytes bs @ rest) = Ok (bs @ rest)"
proof -
  obtain b sig where e: "encode_bytes bs = b # sig @ bs" "unat b = 0xb7 + length sig"
    "1 \<le> length sig" "length sig \<le> 8"
    using encode_bytes_long [OF assms] by blast
  have "b = of_nat (unat b)" by simp
  then have "b = 0xb7 + of_nat (length sig)" unfolding e(2) by simp
  then have o: "unat (b - 0xb8 + 1) = length sig"
    using e(4) by (simp add: unat_of_nat_u8)
  show "is_encoded_as_bytes (encode_bytes bs @ rest) = Ok True"
    using e by (simp add: is_encoded_as_bytes_def)
  have "usize_add (length sig) 1 = Suc (length sig)"
    using e(4) by (simp add: usize_add_def usize_bound_def)
  then show "get_rlp_bytes_item_payload (encode_bytes bs @ rest) = Ok (bs @ rest)"
    using o e(1) by (simp add: get_rlp_bytes_item_payload_def Let_def)
qed

lemma encoder_finish_first:
  assumes "length (encoder_finish e) < slice_bound" "e_buf e = []"
  shows "\<exists>b bs. encoder_finish e = b # bs \<and> 0xc0 \<le> unat b"
proof -
  let ?n = "length (temp_buf e)"
  let ?sig = "dropWhile (\<lambda>x. x = 0) (be_bytes 8 ?n)"
  have "length ?sig \<le> 8" by (rule sig_bytes_length)
  then have "unat (0xf7 + of_nat (length ?sig) :: u8) = 0xf7 + length ?sig"
    using unat_add_of_nat_u8 [of "0xf7" "length ?sig"] by simp
  moreover have "?n < 56 \<Longrightarrow> unat (0xc0 + of_nat ?n :: u8) = 0xc0 + ?n"
    using unat_add_of_nat_u8 [of "0xc0" ?n] by simp
  ultimately show ?thesis
    using assms(2) by (auto simp: encoder_finish_def encode_length_def length_prefix_def Let_def)
qed

lemma encoder_finish_nonempty: "encoder_finish e \<noteq> []"
  by (simp add: encoder_finish_def encode_length_def length_prefix_def Let_def)

lemma encode_legacy_first:
  assumes "fits_legacy t"
  shows "\<exists>b bs. encode_legacy t = b # bs \<and> 0xc0 \<le> unat b"
  using assms unfolding fits_legacy_def encode_legacy_def by (intro encoder_finish_first) simp_all

lemma decode_transaction_long:
  assumes "valid_transaction tx"
  shows "decode_transaction (encode_transaction tx @ rest) = Ok (tx, rest)"
proof (cases "tx_type_of tx = Legacy")
  case True
  then obtain t where t: "tx = LegacyTransaction t" by (cases tx) auto
  then have f: "fits_legacy t" using assms by (simp add: valid_transaction_def)
  then obtain b bs where "encode_legacy t = b # bs" "0xc0 \<le> unat b"
    using encode_legacy_first by blast
  then have "is_encoded_as_bytes (encode_legacy t @ rest) = Ok False"
    by (simp add: is_encoded_as_bytes_def)
  then show ?thesis
    using f by (simp add: t decode_transaction_def encode_transaction_def rlp_legacy.round_trip)
next
  case False
  then have e: "encode_transaction tx = encode_bytes (encode_canonical tx)"
    by (cases tx) (simp_all add: encode_transaction_def)
  have l: "56 \<le> length (encode_canonical tx)" and f: "fits_transaction tx"
    using assms False by (auto simp: valid_transaction_def long_envelope_def)
  have lt: "length (encode_canonical tx) < slice_bound"
    using assms e by (metis encode_bytes_fits valid_transaction_def)
  show ?thesis
    unfolding e decode_transaction_def bytes_item_payload [OF l lt]
    using f False
    by (cases tx) (simp_all add: rlp_eip2930.round_trip rlp_eip1559.round_trip
        rlp_eip4844.round_trip rlp_privileged.round_trip)
qed

text \<open>
  A typed transaction whose canonical form is shorter than 56 bytes is wrapped in a short byte
  string, whose prefix the decoder does not take for one: it goes on to read a legacy transaction
  and meets a string where it expects a list.
\<close>

lemma decode_transaction_short:
  assumes "tx_type_of tx \<noteq> Legacy" "length (encode_canonical tx) < 56"
  shows "decode_transaction (encode_transaction tx @ rest) = Err UnexpectedString"
proof -
  let ?c = "encode_canonical tx"
  have e: "encode_transaction tx = encode_bytes ?c"
    using assms(1) by (cases tx) (simp_all add: encode_transaction_def)
  have n1: "length ?c \<noteq> 1"
    using assms(1) by (cases tx)
      (simp_all add: encode_eip2930_def encode_eip1559_def encode_eip4844_def
        encode_privileged_def encoder_finish_nonempty)
  then have b: "encode_bytes ?c = (RLP_NULL + of_nat (length ?c)) # ?c"
    using assms(2) by (simp add: encode_bytes_def length_prefix_def)
  have "unat (RLP_NULL + of_nat (length ?c)) = 0x80 + length ?c"
    using assms(2) unat_add_of_nat_u8 [of RLP_NULL "length ?c"] by simp
  then have i: "is_encoded_as_bytes (encode_bytes ?c @ rest) = Ok False"
    using assms(2) by (simp add: b is_encoded_as_bytes_def)
  have "length ?c < slice_bound" using assms(2) by (simp add: slice_bound_def)
  then have "decoder_new (encode_bytes ?c @ rest) = Err UnexpectedString"
    by (simp add: decoder_new_def decode_rlp_item_encode_bytes)
  then show ?thesis
    unfolding e decode_transaction_def i by (simp add: decode_legacy_def)
qed

lemma get_rlp_bytes_item_payload_suffix:
  assumes "get_rlp_bytes_item_payload bs = Ok p" shows "\<exists>pre. bs = pre @ p"
proof -
  obtain n where "p = drop n bs"
    using assms by (auto simp: get_rlp_bytes_item_payload_def Let_def split: list.splits if_splits)
  then have "bs = take n bs @ p" by simp
  then show ?thesis by blast
qed

lemma decode_transaction_progress:
  assumes "decode_transaction bs = Ok (tx, rest)"
  shows "\<exists>pre. pre \<noteq> [] \<and> bs = pre @ rest"
proof (cases "is_encoded_as_bytes bs = Ok True")
  case True
  then obtain p where p: "get_rlp_bytes_item_payload bs = Ok p"
    using assms by (auto simp: decode_transaction_def rbind_eq_Ok)
  with True assms obtain ty q where q: "p = ty # q"
    by (cases p) (auto simp: decode_transaction_def)
  have "\<exists>r. q = r @ rest"
    using assms unfolding decode_transaction_def True p q
    by (auto simp: rbind_eq_Ok split: if_splits
        dest!: rlp_legacy.dec_progress rlp_eip2930.dec_progress rlp_eip1559.dec_progress
        rlp_eip4844.dec_progress rlp_privileged.dec_progress)
  with q get_rlp_bytes_item_payload_suffix [OF p] show ?thesis by auto
next
  case False
  then obtain t where "decode_legacy bs = Ok (t, rest)"
    using assms by (auto simp: decode_transaction_def rbind_eq_Ok split: if_splits)
  then show ?thesis by (rule rlp_legacy.dec_progress)
qed

lemma decode_transaction_no_Diverge: "decode_transaction bs \<noteq> Diverge"
  by (auto simp: decode_transaction_def rbind_eq_Diverge is_encoded_as_bytes_def
      get_rlp_bytes_item_payload_def Let_def rlp_legacy.dec_no_Diverge rlp_eip2930.dec_no_Diverge
      rlp_eip1559.dec_no_Diverge rlp_eip4844.dec_no_Diverge rlp_privileged.dec_no_Diverge
      split: list.splits if_splits)

interpretation rlp_transaction: rlp_codec decode_transaction encode_transaction valid_transaction
  by unfold_locales
    (auto simp: decode_transaction_long decode_transaction_no_Diverge
      dest: decode_transaction_progress)

lemma decode_canonical_round_trip:
  assumes "fits_transaction tx"
  shows "decode_canonical (encode_canonical tx) = Ok tx"
proof (cases tx)
  case (LegacyTransaction t)
  then have f: "fits_legacy t" using assms by simp
  then obtain b bs where b: "encode_legacy t = b # bs" "0xc0 \<le> unat b"
    using encode_legacy_first by blast
  have "decode decode_legacy (b # bs) = Ok t" using rlp_legacy.decode_enc [OF f] b(1) by simp
  then show ?thesis using b LegacyTransaction by (simp add: decode_canonical_def)
qed (use assms in \<open>simp_all add: decode_canonical_def rlp_eip2930.decode_enc rlp_eip1559.decode_enc
    rlp_eip4844.decode_enc rlp_privileged.decode_enc\<close>)

lemma encode_canonical_inject:
  "fits_transaction x \<Longrightarrow> fits_transaction y \<Longrightarrow> encode_canonical x = encode_canonical y \<Longrightarrow> x = y"
  by (metis decode_canonical_round_trip result.inject(1))

end
