(* ===== verification/Block_Types.thy ===== *)
theory Block_Types
  imports Tx_Codec Trie_Ops
begin

text \<open>
  Blocks, receipts and accounts: \<^verbatim>\<open>crates/common/types/block.rs\<close> (headers, bodies, withdrawals and
  the roots of their tries), \<^verbatim>\<open>receipt.rs\<close> (receipts and logs) and \<^verbatim>\<open>account.rs\<close> (account info and
  account state, storage roots), with the RLP encodings of all of them. The hash function is a
  parameter, as it is in the trie; \<open>fuel\<close> bounds the depth of the trie operations.
\<close>

section \<open>Headers\<close>

record block_header =
  bh_parent_hash :: bytes
  bh_ommers_hash :: bytes
  bh_coinbase :: bytes
  bh_state_root :: bytes
  bh_transactions_root :: bytes
  bh_receipts_root :: bytes
  bh_logs_bloom :: bytes
  bh_difficulty :: u256
  bh_number :: u64
  bh_gas_limit :: u64
  bh_gas_used :: u64
  bh_timestamp :: u64
  bh_extra_data :: bytes
  bh_prev_randao :: bytes
  bh_nonce :: u64
  bh_base_fee_per_gas :: "u64 option"
  bh_withdrawals_root :: "bytes option"
  bh_blob_gas_used :: "u64 option"
  bh_excess_blob_gas :: "u64 option"
  bh_parent_beacon_block_root :: "bytes option"

definition encode_block_header :: "block_header \<Rightarrow> bytes" where
  "encode_block_header x =
     encoder_finish (encoder_steps (encoder_new [])
       [encode_field encode_h256 (bh_parent_hash x),
        encode_field encode_h256 (bh_ommers_hash x),
        encode_field encode_address (bh_coinbase x),
        encode_field encode_h256 (bh_state_root x),
        encode_field encode_h256 (bh_transactions_root x),
        encode_field encode_h256 (bh_receipts_root x),
        encode_field encode_bloom (bh_logs_bloom x),
        encode_field encode_u256 (bh_difficulty x),
        encode_field encode_u64 (bh_number x),
        encode_field encode_u64 (bh_gas_limit x),
        encode_field encode_u64 (bh_gas_used x),
        encode_field encode_u64 (bh_timestamp x),
        encode_field encode_bytes (bh_extra_data x),
        encode_field encode_h256 (bh_prev_randao x),
        encode_field encode_array (to_be_bytes (bh_nonce x)),
        encode_optional_field encode_u64 (bh_base_fee_per_gas x),
        encode_optional_field encode_h256 (bh_withdrawals_root x),
        encode_optional_field encode_u64 (bh_blob_gas_used x),
        encode_optional_field encode_u64 (bh_excess_blob_gas x),
        encode_optional_field encode_h256 (bh_parent_beacon_block_root x)])"

definition decode_block_header :: "block_header decoder_fun" where
  "decode_block_header rlp =
     (rbind (decoder_new rlp) (\<lambda>d.
     rbind (decode_field ''H256'' ''parent_hash'' decode_h256 d) (\<lambda>(parent_hash, d).
     rbind (decode_field ''H256'' ''ommers_hash'' decode_h256 d) (\<lambda>(ommers_hash, d).
     rbind (decode_field ''Address'' ''coinbase'' decode_address d) (\<lambda>(coinbase, d).
     rbind (decode_field ''H256'' ''state_root'' decode_h256 d) (\<lambda>(state_root, d).
     rbind (decode_field ''H256'' ''transactions_root'' decode_h256 d) (\<lambda>(transactions_root, d).
     rbind (decode_field ''H256'' ''receipts_root'' decode_h256 d) (\<lambda>(receipts_root, d).
     rbind (decode_field ''Bloom'' ''logs_bloom'' decode_bloom d) (\<lambda>(logs_bloom, d).
     rbind (decode_field ''U256'' ''difficulty'' decode_u256 d) (\<lambda>(difficulty, d).
     rbind (decode_field ''u64'' ''number'' decode_u64 d) (\<lambda>(number, d).
     rbind (decode_field ''u64'' ''gas_limit'' decode_u64 d) (\<lambda>(gas_limit, d).
     rbind (decode_field ''u64'' ''gas_used'' decode_u64 d) (\<lambda>(gas_used, d).
     rbind (decode_field ''u64'' ''timestamp'' decode_u64 d) (\<lambda>(timestamp, d).
     rbind (decode_field ''Bytes'' ''extra_data'' decode_bytes d) (\<lambda>(extra_data, d).
     rbind (decode_field ''H256'' ''prev_randao'' decode_h256 d) (\<lambda>(prev_randao, d).
     rbind (decode_field ''[u8; 8]'' ''nonce'' (decode_array 8) d) (\<lambda>(nonce_bytes, d).
     let nonce = from_be_bytes nonce_bytes in
     rbind (decode_optional_field decode_u64 d) (\<lambda>(base_fee_per_gas, d).
     rbind (decode_optional_field decode_h256 d) (\<lambda>(withdrawals_root, d).
     rbind (decode_optional_field decode_u64 d) (\<lambda>(blob_gas_used, d).
     rbind (decode_optional_field decode_u64 d) (\<lambda>(excess_blob_gas, d).
     rbind (decode_optional_field decode_h256 d) (\<lambda>(parent_beacon_block_root, d).
     rbind (decoder_finish d) (\<lambda>rest.
     Ok (\<lparr>bh_parent_hash = parent_hash,
     bh_ommers_hash = ommers_hash,
     bh_coinbase = coinbase,
     bh_state_root = state_root,
     bh_transactions_root = transactions_root,
     bh_receipts_root = receipts_root,
     bh_logs_bloom = logs_bloom,
     bh_difficulty = difficulty,
     bh_number = number,
     bh_gas_limit = gas_limit,
     bh_gas_used = gas_used,
     bh_timestamp = timestamp,
     bh_extra_data = extra_data,
     bh_prev_randao = prev_randao,
     bh_nonce = nonce,
     bh_base_fee_per_gas = base_fee_per_gas,
     bh_withdrawals_root = withdrawals_root,
     bh_blob_gas_used = blob_gas_used,
     bh_excess_blob_gas = excess_blob_gas,
     bh_parent_beacon_block_root = parent_beacon_block_root\<rparr>, rest))))))))))))))))))))))))"

definition compute_block_hash :: "(bytes \<Rightarrow> bytes) \<Rightarrow> block_header \<Rightarrow> bytes" where
  "compute_block_hash keccak header = keccak (encode_block_header header)"

section \<open>Withdrawals, bodies and blocks\<close>

record withdrawal =
  wd_index :: u64
  wd_validator_index :: u64
  wd_address :: bytes
  wd_amount :: u64

definition encode_withdrawal :: "withdrawal \<Rightarrow> bytes" where
  "encode_withdrawal x =
     encoder_finish (encoder_steps (encoder_new [])
       [encode_field encode_u64 (wd_index x),
        encode_field encode_u64 (wd_validator_index x),
        encode_field encode_address (wd_address x),
        encode_field encode_u64 (wd_amount x)])"

definition decode_withdrawal :: "withdrawal decoder_fun" where
  "decode_withdrawal rlp =
     (rbind (decoder_new rlp) (\<lambda>d.
     rbind (decode_field ''u64'' ''index'' decode_u64 d) (\<lambda>(index, d).
     rbind (decode_field ''u64'' ''validator_index'' decode_u64 d) (\<lambda>(validator_index, d).
     rbind (decode_field ''Address'' ''address'' decode_address d) (\<lambda>(address, d).
     rbind (decode_field ''u64'' ''amount'' decode_u64 d) (\<lambda>(amount, d).
     rbind (decoder_finish d) (\<lambda>rest.
     Ok (\<lparr>wd_index = index,
     wd_validator_index = validator_index,
     wd_address = address,
     wd_amount = amount\<rparr>, rest))))))))"

record block_body =
  bb_transactions :: "transaction list"
  bb_ommers :: "block_header list"
  bb_withdrawals :: "withdrawal list option"

definition block_body_empty :: block_body where
  "block_body_empty = \<lparr>bb_transactions = [], bb_ommers = [], bb_withdrawals = Some []\<rparr>"

record block =
  b_header :: block_header
  b_body :: block_body

definition block_hash :: "(bytes \<Rightarrow> bytes) \<Rightarrow> block \<Rightarrow> bytes" where
  "block_hash keccak b = compute_block_hash keccak (b_header b)"

definition encode_block_body :: "block_body \<Rightarrow> bytes" where
  "encode_block_body x =
     encoder_finish (encoder_steps (encoder_new [])
       [encode_field (encode_vec encode_transaction) (bb_transactions x),
        encode_field (encode_vec encode_block_header) (bb_ommers x),
        encode_optional_field (encode_vec encode_withdrawal) (bb_withdrawals x)])"

definition decode_block_body :: "block_body decoder_fun" where
  "decode_block_body rlp =
     (rbind (decoder_new rlp) (\<lambda>d.
     rbind (decode_field ''Vec<Transaction>'' ''transactions'' (decode_vec decode_transaction) d) (\<lambda>(transactions, d).
     rbind (decode_field ''Vec<BlockHeader>'' ''ommers'' (decode_vec decode_block_header) d) (\<lambda>(ommers, d).
     rbind (decode_optional_field (decode_vec decode_withdrawal) d) (\<lambda>(withdrawals, d).
     rbind (decoder_finish d) (\<lambda>rest.
     Ok (\<lparr>bb_transactions = transactions, bb_ommers = ommers, bb_withdrawals = withdrawals\<rparr>, rest)))))))"

definition encode_block :: "block \<Rightarrow> bytes" where
  "encode_block x =
     encoder_finish (encoder_steps (encoder_new [])
       [encode_field encode_block_header (b_header x),
        encode_field (encode_vec encode_transaction) (bb_transactions (b_body x)),
        encode_field (encode_vec encode_block_header) (bb_ommers (b_body x)),
        encode_optional_field (encode_vec encode_withdrawal) (bb_withdrawals (b_body x))])"

definition decode_block :: "block decoder_fun" where
  "decode_block rlp =
     (rbind (decoder_new rlp) (\<lambda>d.
     rbind (decode_field ''BlockHeader'' ''header'' decode_block_header d) (\<lambda>(header, d).
     rbind (decode_field ''Vec<Transaction>'' ''transactions'' (decode_vec decode_transaction) d) (\<lambda>(transactions, d).
     rbind (decode_field ''Vec<BlockHeader>'' ''ommers'' (decode_vec decode_block_header) d) (\<lambda>(ommers, d).
     rbind (decode_optional_field (decode_vec decode_withdrawal) d) (\<lambda>(withdrawals, d).
     rbind (decoder_finish d) (\<lambda>remaining.
     Ok (\<lparr>b_header = header,
      b_body = \<lparr>bb_transactions = transactions, bb_ommers = ommers, bb_withdrawals = withdrawals\<rparr>\<rparr>,
     remaining))))))))"

section \<open>Logs and receipts\<close>

record log =
  log_address :: bytes
  log_topics :: "bytes list"
  log_data :: bytes

definition encode_log :: "log \<Rightarrow> bytes" where
  "encode_log x =
     encoder_finish (encoder_steps (encoder_new [])
       [encode_field encode_address (log_address x),
        encode_field (encode_vec encode_h256) (log_topics x),
        encode_field encode_bytes (log_data x)])"

definition decode_log :: "log decoder_fun" where
  "decode_log rlp =
     (rbind (decoder_new rlp) (\<lambda>d.
     rbind (decode_field ''Address'' ''address'' decode_address d) (\<lambda>(address, d).
     rbind (decode_field ''Vec<H256>'' ''topics'' (decode_vec decode_h256) d) (\<lambda>(topics, d).
     rbind (decode_field ''Bytes'' ''data'' decode_bytes d) (\<lambda>(data, d).
     rbind (decoder_finish d) (\<lambda>rest.
     Ok (\<lparr>log_address = address,
     log_topics = topics,
     log_data = data\<rparr>, rest)))))))"

record receipt =
  rc_tx_type :: tx_type
  rc_succeeded :: bool
  rc_cumulative_gas_used :: u64
  rc_bloom :: bytes
  rc_logs :: "log list"

text \<open>\<open>accrue\<close> is \<^verbatim>\<open>Bloom::accrue\<close> of the types library: the filter with the bits of an input set.\<close>

definition bloom_from_logs :: "(bytes \<Rightarrow> bytes \<Rightarrow> bytes) \<Rightarrow> log list \<Rightarrow> bytes" where
  "bloom_from_logs accrue logs =
     foldl (\<lambda>bloom l. foldl (\<lambda>b topic. accrue topic b) (accrue (log_address l) bloom) (log_topics l))
       (replicate 256 0) logs"

definition receipt_new ::
  "(bytes \<Rightarrow> bytes \<Rightarrow> bytes) \<Rightarrow> tx_type \<Rightarrow> bool \<Rightarrow> u64 \<Rightarrow> log list \<Rightarrow> receipt" where
  "receipt_new accrue ty succeeded cumulative_gas_used logs =
     \<lparr>rc_tx_type = ty, rc_succeeded = succeeded, rc_cumulative_gas_used = cumulative_gas_used,
      rc_bloom = bloom_from_logs accrue logs, rc_logs = logs\<rparr>"

definition encode_inner :: "receipt \<Rightarrow> bytes" where
  "encode_inner x =
     encoder_finish (encoder_steps
       (encoder_new (if rc_tx_type x = Legacy then [] else [tx_type_to_u8 (rc_tx_type x)]))
       [encode_field encode_bool (rc_succeeded x),
        encode_field encode_u64 (rc_cumulative_gas_used x),
        encode_field encode_bloom (rc_bloom x),
        encode_field (encode_vec encode_log) (rc_logs x)])"

definition encode_receipt :: "receipt \<Rightarrow> bytes" where
  "encode_receipt x =
     (if rc_tx_type x = Legacy then encode_inner x else encode_bytes (encode_inner x))"

definition decode_receipt_fields :: "tx_type \<Rightarrow> receipt decoder_fun" where
  "decode_receipt_fields ty rlp =
     (rbind (decoder_new rlp) (\<lambda>d.
     rbind (decode_field ''bool'' ''succeeded'' decode_bool d) (\<lambda>(succeeded, d).
     rbind (decode_field ''u64'' ''cumulative_gas_used'' decode_u64 d) (\<lambda>(cumulative_gas_used, d).
     rbind (decode_field ''Bloom'' ''bloom'' decode_bloom d) (\<lambda>(bloom, d).
     rbind (decode_field ''Vec<Log>'' ''logs'' (decode_vec decode_log) d) (\<lambda>(logs, d).
     rbind (decoder_finish d) (\<lambda>rest.
     Ok (\<lparr>rc_tx_type = ty, rc_succeeded = succeeded, rc_cumulative_gas_used = cumulative_gas_used,
     rc_bloom = bloom, rc_logs = logs\<rparr>, rest))))))))"

definition decode_inner :: "bytes \<Rightarrow> (receipt, rlp_error) result" where
  "decode_inner rlp =
     rbind (case rlp of
        b # tail \<Rightarrow>
          if unat b < 0x7f then
            (case tx_type_from_u8 b of
               Some ty \<Rightarrow> decode_receipt_fields ty tail
             | None \<Rightarrow> Err (invalid_tx_type b))
          else decode_receipt_fields Legacy rlp
      | [] \<Rightarrow> decode_receipt_fields Legacy rlp)
     (\<lambda>(receipt, rest). Ok receipt)"

definition decode_receipt :: "receipt decoder_fun" where
  "decode_receipt rlp =
     (rbind (is_encoded_as_bytes rlp) (\<lambda>as_bytes.
     (if as_bytes then
       (rbind (get_rlp_bytes_item_payload rlp) (\<lambda>payload.
       (case payload of
         [] \<Rightarrow> Err InvalidLength
       | b # tail \<Rightarrow>
           (case tx_type_from_u8 b of
              Some ty \<Rightarrow> decode_receipt_fields ty tail
            | None \<Rightarrow> Err (invalid_tx_type b)))))
     else decode_receipt_fields Legacy rlp)))"

section \<open>Roots\<close>

definition indexed :: "('a \<Rightarrow> bytes) \<Rightarrow> 'a list \<Rightarrow> (bytes \<times> bytes) list" where
  "indexed enc xs = map (\<lambda>(idx, x). (encode_usize (of_nat idx), enc x)) (enumerate 0 xs)"

definition compute_transactions_root ::
  "(bytes \<Rightarrow> bytes) \<Rightarrow> nat \<Rightarrow> transaction list \<Rightarrow> (bytes, trie_error) result" where
  "compute_transactions_root keccak fuel transactions =
     compute_hash_from_unsorted_iter keccak fuel (indexed encode_canonical transactions)"

definition compute_receipts_root ::
  "(bytes \<Rightarrow> bytes) \<Rightarrow> nat \<Rightarrow> receipt list \<Rightarrow> (bytes, trie_error) result" where
  "compute_receipts_root keccak fuel receipts =
     compute_hash_from_unsorted_iter keccak fuel (indexed encode_inner receipts)"

definition compute_withdrawals_root ::
  "(bytes \<Rightarrow> bytes) \<Rightarrow> nat \<Rightarrow> withdrawal list \<Rightarrow> (bytes, trie_error) result" where
  "compute_withdrawals_root keccak fuel withdrawals =
     compute_hash_from_unsorted_iter keccak fuel (indexed encode_withdrawal withdrawals)"

section \<open>Accounts\<close>

record core_account_info =
  ai_code_hash :: bytes
  ai_balance :: u256
  ai_nonce :: u64

definition encode_account_info :: "core_account_info \<Rightarrow> bytes" where
  "encode_account_info x =
     encoder_finish (encoder_steps (encoder_new [])
       [encode_field encode_h256 (ai_code_hash x),
        encode_field encode_u256 (ai_balance x),
        encode_field encode_u64 (ai_nonce x)])"

definition decode_account_info :: "core_account_info decoder_fun" where
  "decode_account_info rlp =
     (rbind (decoder_new rlp) (\<lambda>d.
     rbind (decode_field ''H256'' ''code_hash'' decode_h256 d) (\<lambda>(code_hash, d).
     rbind (decode_field ''U256'' ''balance'' decode_u256 d) (\<lambda>(balance, d).
     rbind (decode_field ''u64'' ''nonce'' decode_u64 d) (\<lambda>(nonce, d).
     rbind (decoder_finish d) (\<lambda>rest.
     Ok (\<lparr>ai_code_hash = code_hash,
     ai_balance = balance,
     ai_nonce = nonce\<rparr>, rest)))))))"

record account_state =
  as_nonce :: u64
  as_balance :: u256
  as_storage_root :: bytes
  as_code_hash :: bytes

definition encode_account_state :: "account_state \<Rightarrow> bytes" where
  "encode_account_state x =
     encoder_finish (encoder_steps (encoder_new [])
       [encode_field encode_u64 (as_nonce x),
        encode_field encode_u256 (as_balance x),
        encode_field encode_h256 (as_storage_root x),
        encode_field encode_h256 (as_code_hash x)])"

definition decode_account_state :: "account_state decoder_fun" where
  "decode_account_state rlp =
     (rbind (decoder_new rlp) (\<lambda>d.
     rbind (decode_field ''u64'' ''nonce'' decode_u64 d) (\<lambda>(nonce, d).
     rbind (decode_field ''U256'' ''balance'' decode_u256 d) (\<lambda>(balance, d).
     rbind (decode_field ''H256'' ''storage_root'' decode_h256 d) (\<lambda>(storage_root, d).
     rbind (decode_field ''H256'' ''code_hash'' decode_h256 d) (\<lambda>(code_hash, d).
     rbind (decoder_finish d) (\<lambda>rest.
     Ok (\<lparr>as_nonce = nonce,
     as_balance = balance,
     as_storage_root = storage_root,
     as_code_hash = code_hash\<rparr>, rest))))))))"

definition EMPTY_KECCACK_HASH :: bytes where
  "EMPTY_KECCACK_HASH =
     [0xc5, 0xd2, 0x46, 0x01, 0x86, 0xf7, 0x23, 0x3c, 0x92, 0x7e, 0x7d, 0xb2, 0xdc, 0xc7, 0x03, 0xc0,
      0xe5, 0x00, 0xb6, 0x53, 0xca, 0x82, 0x27, 0x3b, 0x7b, 0xfa, 0xd8, 0x04, 0x5d, 0x85, 0xa4, 0x70]"

definition account_info_default :: core_account_info where
  "account_info_default = \<lparr>ai_code_hash = EMPTY_KECCACK_HASH, ai_balance = 0, ai_nonce = 0\<rparr>"

definition account_state_default :: "(bytes \<Rightarrow> bytes) \<Rightarrow> account_state" where
  "account_state_default keccak =
     \<lparr>as_nonce = 0, as_balance = 0, as_storage_root = EMPTY_TRIE_HASH keccak,
      as_code_hash = EMPTY_KECCACK_HASH\<rparr>"

definition code_hash :: "(bytes \<Rightarrow> bytes) \<Rightarrow> bytes \<Rightarrow> bytes" where
  "code_hash keccak code = keccak code"

text \<open>
  A \<^verbatim>\<open>HashMap\<close> is iterated in an unspecified order: the list holds its entries in that order.
\<close>

definition compute_storage_root ::
  "(bytes \<Rightarrow> bytes) \<Rightarrow> nat \<Rightarrow> (bytes \<times> u256) list \<Rightarrow> (bytes, trie_error) result" where
  "compute_storage_root keccak fuel storage =
     compute_hash_from_unsorted_iter keccak fuel
       (map (\<lambda>(k, v). (keccak k, encode_u256 v)) (filter (\<lambda>(k, v). v \<noteq> 0) storage))"

record genesis_account =
  ga_code :: bytes
  ga_storage :: "(bytes \<times> u256) list"
  ga_balance :: u256
  ga_nonce :: u64

definition account_state_from_genesis ::
  "(bytes \<Rightarrow> bytes) \<Rightarrow> nat \<Rightarrow> genesis_account \<Rightarrow> (account_state, trie_error) result" where
  "account_state_from_genesis keccak fuel v =
     rbind (compute_storage_root keccak fuel (ga_storage v)) (\<lambda>storage_root.
     Ok \<lparr>as_nonce = ga_nonce v, as_balance = ga_balance v, as_storage_root = storage_root,
         as_code_hash = code_hash keccak (ga_code v)\<rparr>)"

end
