(* ===== verification/Block_Codec.thy ===== *)
theory Block_Codec
  imports Block_Types
begin

text \<open>
  The encodings of headers, bodies, blocks, receipts and accounts satisfy the codec contract. A
  header is read back if its optional fields are present up to some fork and absent after it, as
  the forks introduced them one after the other.
\<close>

section \<open>Headers\<close>

definition forks_in_order :: "block_header \<Rightarrow> bool" where
  "forks_in_order h \<longleftrightarrow>
     (bh_withdrawals_root h \<noteq> None \<longrightarrow> bh_base_fee_per_gas h \<noteq> None) \<and>
     (bh_blob_gas_used h \<noteq> None \<longrightarrow> bh_withdrawals_root h \<noteq> None) \<and>
     (bh_excess_blob_gas h \<noteq> None \<longrightarrow> bh_blob_gas_used h \<noteq> None) \<and>
     (bh_parent_beacon_block_root h \<noteq> None \<longrightarrow> bh_excess_blob_gas h \<noteq> None)"

definition wf_block_header :: "block_header \<Rightarrow> bool" where
  "wf_block_header h \<longleftrightarrow>
     length (bh_parent_hash h) = 32 \<and> length (bh_ommers_hash h) = 32 \<and> length (bh_coinbase h) = 20 \<and>
     length (bh_state_root h) = 32 \<and> length (bh_transactions_root h) = 32 \<and>
     length (bh_receipts_root h) = 32 \<and> length (bh_logs_bloom h) = 256 \<and>
     length (bh_prev_randao h) = 32 \<and> pred_option (\<lambda>r. length r = 32) (bh_withdrawals_root h) \<and>
     pred_option (\<lambda>r. length r = 32) (bh_parent_beacon_block_root h)"

definition fits_block_header :: "block_header \<Rightarrow> bool" where
  "fits_block_header h \<longleftrightarrow> wf_block_header h \<and> forks_in_order h \<and>
     length (encode_block_header h) < slice_bound"

interpretation rlp_array8: rlp_codec "decode_array 8" encode_array "\<lambda>bs. length bs = 8"
  by (rule array_codec) (simp add: slice_bound_def)

lemmas optional_round_trips =
  rlp_u64.decode_optional_field_enc rlp_u64.decode_optional_field_enc_last
  rlp_h256.decode_optional_field_enc rlp_h256.decode_optional_field_enc_last

lemma optional_absent [simp]:
  "decode_optional_field decode_u64 \<lparr>d_payload = [], d_remaining = r\<rparr> =
     Ok (None, \<lparr>d_payload = [], d_remaining = r\<rparr>)"
  "decode_optional_field decode_h256 \<lparr>d_payload = [], d_remaining = r\<rparr> =
     Ok (None, \<lparr>d_payload = [], d_remaining = r\<rparr>)"
  by (rule decode_optional_field_Nil, simp add: decode_u64_def decode_uint_def decode_h256_def
      decode_array_def decode_bytes_def decode_rlp_item_def)+

lemma forks_cases:
  assumes "forks_in_order h"
  obtains "bh_base_fee_per_gas h = None" "bh_withdrawals_root h = None" "bh_blob_gas_used h = None"
      "bh_excess_blob_gas h = None" "bh_parent_beacon_block_root h = None"
  | b where "bh_base_fee_per_gas h = Some b" "bh_withdrawals_root h = None"
      "bh_blob_gas_used h = None" "bh_excess_blob_gas h = None" "bh_parent_beacon_block_root h = None"
  | b w where "bh_base_fee_per_gas h = Some b" "bh_withdrawals_root h = Some w"
      "bh_blob_gas_used h = None" "bh_excess_blob_gas h = None" "bh_parent_beacon_block_root h = None"
  | b w g where "bh_base_fee_per_gas h = Some b" "bh_withdrawals_root h = Some w"
      "bh_blob_gas_used h = Some g" "bh_excess_blob_gas h = None" "bh_parent_beacon_block_root h = None"
  | b w g e where "bh_base_fee_per_gas h = Some b" "bh_withdrawals_root h = Some w"
      "bh_blob_gas_used h = Some g" "bh_excess_blob_gas h = Some e" "bh_parent_beacon_block_root h = None"
  | b w g e p where "bh_base_fee_per_gas h = Some b" "bh_withdrawals_root h = Some w"
      "bh_blob_gas_used h = Some g" "bh_excess_blob_gas h = Some e" "bh_parent_beacon_block_root h = Some p"
  using assms unfolding forks_in_order_def by (metis option.exhaust)

lemma decode_block_header_round_trip:
  assumes "fits_block_header h"
  shows "decode_block_header (encode_block_header h @ rest) = Ok (h, rest)"
proof -
  have x: "length (encode_bytes (bh_extra_data h)) < slice_bound"
    using assms by (simp add: fits_block_header_def encode_block_header_def encoder_finish_def)
  have w: "wf_block_header h" "forks_in_order h" using assms by (auto simp: fits_block_header_def)
  note facts = x [THEN encode_bytes_fits] w(1) [unfolded wf_block_header_def]
  have n: "from_be_bytes (to_be_bytes (bh_nonce h)) = bh_nonce h" by (rule to_be_bytes_inverse) simp
  note len = assms [unfolded fits_block_header_def encode_block_header_def, THEN conjunct2,
      THEN conjunct2]
  from w(2) show ?thesis
    unfolding decode_block_header_def encode_block_header_def
    by (cases rule: forks_cases; intro struct_round_trip; use len facts n in
        \<open>simp add: field_round_trips rlp_array8.field_simps_enc optional_round_trips\<close>)
qed

lemmas optional_rules [struct_rules] = rlp_array8.rlp_decoder_axioms

lemma decode_block_header_decoder [struct_rules]: "rlp_decoder decode_block_header"
  unfolding decode_block_header_def [abs_def] by (intro struct_decoder struct_rules)

interpretation rlp_block_header: rlp_codec decode_block_header encode_block_header fits_block_header
  using decode_block_header_decoder
  by (simp add: rlp_codec_def rlp_codec_axioms_def decode_block_header_round_trip)

section \<open>Withdrawals\<close>

definition fits_withdrawal :: "withdrawal \<Rightarrow> bool" where
  "fits_withdrawal w \<longleftrightarrow> length (wd_address w) = 20"

text \<open>Encodings of integers, addresses and hashes have bounded lengths.\<close>

lemma length_encode_uint:
  fixes n :: "'a::len word"
  assumes "8 dvd LENGTH('a)" "LENGTH('a) \<le> 440"
  shows "length (encode_uint n) \<le> LENGTH('a) div 8 + 1"
proof -
  have "length (sig_bytes (LENGTH('a) div 8) (unat n)) \<le> LENGTH('a) div 8" by (rule sig_bytes_length)
  moreover have "LENGTH('a) div 8 < 56" using assms(2) by simp
  ultimately show ?thesis
    unfolding encode_uint_bytes [OF assms] by (simp add: encode_bytes_def length_prefix_def)
qed

lemma length_encode_u64: "length (encode_u64 n) \<le> 9"
  using length_encode_uint [of n] by (simp add: encode_u64_def)

lemma length_encode_u256: "length (encode_u256 n) \<le> 33"
proof -
  have "length (sig_bytes 32 (unat n)) \<le> 32" by (rule sig_bytes_length)
  then show ?thesis unfolding encode_u256_bytes by (simp add: encode_bytes_def length_prefix_def)
qed

lemma length_encode_fixed:
  "length a = 20 \<Longrightarrow> length (encode_address a) = 21"
  "length h = 32 \<Longrightarrow> length (encode_h256 h) = 33"
  by (simp_all add: encode_address_def encode_h256_def encode_bytes_def length_prefix_def)

lemma length_encoder_finish_le:
  "length (temp_buf e) < 2 ^ 60 \<Longrightarrow> e_buf e = [] \<Longrightarrow> length (encoder_finish e) < slice_bound"
  using sig_bytes_length [of 8 "length (temp_buf e)"]
  by (simp add: encoder_finish_def encode_length_def length_prefix_def Let_def slice_bound_def)

lemma encode_withdrawal_fits:
  "fits_withdrawal w \<Longrightarrow> length (encode_withdrawal w) < slice_bound"
  unfolding encode_withdrawal_def fits_withdrawal_def
  using length_encode_u64 [of "wd_index w"] length_encode_u64 [of "wd_validator_index w"]
    length_encode_u64 [of "wd_amount w"]
  by (intro length_encoder_finish_le) (simp_all add: length_encode_fixed)

lemma decode_withdrawal_round_trip:
  assumes "fits_withdrawal w"
  shows "decode_withdrawal (encode_withdrawal w @ rest) = Ok (w, rest)"
  using encode_withdrawal_fits [OF assms] assms
  unfolding decode_withdrawal_def encode_withdrawal_def fits_withdrawal_def
  by (intro struct_round_trip) (simp_all add: field_round_trips)

lemma decode_withdrawal_decoder [struct_rules]: "rlp_decoder decode_withdrawal"
  unfolding decode_withdrawal_def [abs_def] by (intro struct_decoder struct_rules)

interpretation rlp_withdrawal: rlp_codec decode_withdrawal encode_withdrawal fits_withdrawal
  using decode_withdrawal_decoder
  by (simp add: rlp_codec_def rlp_codec_axioms_def decode_withdrawal_round_trip)

section \<open>Bodies and blocks\<close>

definition wf_block_body :: "block_body \<Rightarrow> bool" where
  "wf_block_body b \<longleftrightarrow>
     (\<forall>t \<in> set (bb_transactions b). valid_transaction t) \<and>
     (\<forall>h \<in> set (bb_ommers b). fits_block_header h) \<and>
     pred_option (\<lambda>ws. \<forall>w \<in> set ws. fits_withdrawal w) (bb_withdrawals b)"

definition fits_block_body :: "block_body \<Rightarrow> bool" where
  "fits_block_body b \<longleftrightarrow> wf_block_body b \<and> length (encode_block_body b) < slice_bound"

definition fits_block :: "block \<Rightarrow> bool" where
  "fits_block b \<longleftrightarrow> fits_block_header (b_header b) \<and> wf_block_body (b_body b) \<and>
     length (encode_block b) < slice_bound"

interpretation rlp_transactions: rlp_codec "decode_vec decode_transaction"
    "encode_vec encode_transaction" rlp_transaction.vec_valid
  by (rule rlp_transaction.vec_codec)

interpretation rlp_headers: rlp_codec "decode_vec decode_block_header"
    "encode_vec encode_block_header" rlp_block_header.vec_valid
  by (rule rlp_block_header.vec_codec)

interpretation rlp_withdrawals: rlp_codec "decode_vec decode_withdrawal"
    "encode_vec encode_withdrawal" rlp_withdrawal.vec_valid
  by (rule rlp_withdrawal.vec_codec)

lemmas vec_decoders [struct_rules] = rlp_transactions.rlp_decoder_axioms
  rlp_headers.rlp_decoder_axioms rlp_withdrawals.rlp_decoder_axioms

lemma optional_withdrawals_absent [simp]:
  "decode_optional_field (decode_vec decode_withdrawal) \<lparr>d_payload = [], d_remaining = r\<rparr> =
     Ok (None, \<lparr>d_payload = [], d_remaining = r\<rparr>)"
  by (rule decode_optional_field_Nil) (simp add: decode_vec_def)

lemma body_lists_valid:
  assumes "wf_block_body b" "length (encode_vec encode_transaction (bb_transactions b)) < slice_bound"
    and "length (encode_vec encode_block_header (bb_ommers b)) < slice_bound"
    and "pred_option (\<lambda>ws. length (encode_vec encode_withdrawal ws) < slice_bound) (bb_withdrawals b)"
  shows "rlp_transaction.vec_valid (bb_transactions b)" "rlp_block_header.vec_valid (bb_ommers b)"
    "pred_option rlp_withdrawal.vec_valid (bb_withdrawals b)"
  using assms unfolding wf_block_body_def
  by (auto intro!: rlp_transaction.vec_validI rlp_block_header.vec_validI rlp_withdrawal.vec_validI
      simp: option.pred_set)

lemma decode_block_body_round_trip:
  assumes "fits_block_body b"
  shows "decode_block_body (encode_block_body b @ rest) = Ok (b, rest)"
proof -
  have "rlp_transaction.vec_valid (bb_transactions b)" "rlp_block_header.vec_valid (bb_ommers b)"
    "pred_option rlp_withdrawal.vec_valid (bb_withdrawals b)"
    using assms by (intro body_lists_valid; cases "bb_withdrawals b"; simp add: fits_block_body_def
        encode_block_body_def encoder_finish_def)+
  with assms show ?thesis
    unfolding decode_block_body_def encode_block_body_def fits_block_body_def
    by (intro struct_round_trip; cases "bb_withdrawals b"; simp add: rlp_transactions.field_simps_enc
        rlp_headers.field_simps_enc rlp_withdrawals.decode_optional_field_enc_last)
qed

lemma decode_block_round_trip:
  assumes "fits_block b"
  shows "decode_block (encode_block b @ rest) = Ok (b, rest)"
proof -
  have "rlp_transaction.vec_valid (bb_transactions (b_body b))"
    "rlp_block_header.vec_valid (bb_ommers (b_body b))"
    "pred_option rlp_withdrawal.vec_valid (bb_withdrawals (b_body b))"
    using assms by (intro body_lists_valid; cases "bb_withdrawals (b_body b)"; simp add: fits_block_def
        encode_block_def encoder_finish_def)+
  with assms show ?thesis
    unfolding decode_block_def encode_block_def fits_block_def
    by (intro struct_round_trip; cases "bb_withdrawals (b_body b)";
        simp add: rlp_block_header.field_simps_enc rlp_transactions.field_simps_enc
        rlp_headers.field_simps_enc rlp_withdrawals.decode_optional_field_enc_last)
qed

lemma block_decoders [struct_rules]: "rlp_decoder decode_block_body" "rlp_decoder decode_block"
  unfolding decode_block_body_def [abs_def] decode_block_def [abs_def]
  by (intro struct_decoder struct_rules)+

interpretation rlp_block_body: rlp_codec decode_block_body encode_block_body fits_block_body
  using block_decoders(1)
  by (simp add: rlp_codec_def rlp_codec_axioms_def decode_block_body_round_trip)

interpretation rlp_block: rlp_codec decode_block encode_block fits_block
  using block_decoders(2) by (simp add: rlp_codec_def rlp_codec_axioms_def decode_block_round_trip)

end
