(* ===== verification/Receipt_Codec.thy ===== *)
theory Receipt_Codec
  imports Block_Codec
begin

text \<open>
  The encodings of logs, receipts and accounts satisfy the codec contract. Unlike a typed
  transaction, a typed receipt is always read back: its bloom filter alone makes the envelope long
  enough for the decoder to recognise it.
\<close>

section \<open>Logs\<close>

definition wf_log :: "log \<Rightarrow> bool" where
  "wf_log l \<longleftrightarrow> length (log_address l) = 20 \<and> (\<forall>t \<in> set (log_topics l). length t = 32)"

definition fits_log :: "log \<Rightarrow> bool" where
  "fits_log l \<longleftrightarrow> wf_log l \<and> length (encode_log l) < slice_bound"

lemma decode_log_round_trip:
  assumes "fits_log l"
  shows "decode_log (encode_log l @ rest) = Ok (l, rest)"
proof -
  have "length (encode_bytes (log_data l)) < slice_bound"
    "length (encode_vec encode_h256 (log_topics l)) < slice_bound"
    using assms by (simp_all add: fits_log_def encode_log_def encoder_finish_def)
  with assms show ?thesis
    unfolding decode_log_def encode_log_def fits_log_def wf_log_def
    by (intro struct_round_trip)
      (simp_all add: field_round_trips encode_bytes_fits rlp_h256.vec_validI)
qed

lemma decode_log_decoder [struct_rules]: "rlp_decoder decode_log"
  unfolding decode_log_def [abs_def] by (intro struct_decoder struct_rules)

interpretation rlp_log: rlp_codec decode_log encode_log fits_log
  using decode_log_decoder by (simp add: rlp_codec_def rlp_codec_axioms_def decode_log_round_trip)

interpretation rlp_logs: rlp_codec "decode_vec decode_log" "encode_vec encode_log" rlp_log.vec_valid
  by (rule rlp_log.vec_codec)

lemmas logs_decoder [struct_rules] = rlp_logs.rlp_decoder_axioms

section \<open>Receipts\<close>

definition wf_receipt :: "receipt \<Rightarrow> bool" where
  "wf_receipt r \<longleftrightarrow> length (rc_bloom r) = 256 \<and> (\<forall>l \<in> set (rc_logs r). wf_log l)"

definition fits_receipt :: "receipt \<Rightarrow> bool" where
  "fits_receipt r \<longleftrightarrow> wf_receipt r \<and> length (encode_receipt r) < slice_bound"

definition receipt_fields :: "receipt \<Rightarrow> bytes" where
  "receipt_fields r = encode_inner (r\<lparr>rc_tx_type := Legacy\<rparr>)"

lemma encode_inner_fields:
  "encode_inner r = (if rc_tx_type r = Legacy then [] else [tx_type_to_u8 (rc_tx_type r)]) @ receipt_fields r"
  by (simp add: receipt_fields_def encode_inner_def encoder_finish_def)

lemma tx_type_from_to_u8: "tx_type_from_u8 (tx_type_to_u8 ty) = Some ty"
  by (cases ty) (simp_all add: tx_type_from_u8_def)

lemma decode_receipt_fields_round_trip:
  assumes "wf_receipt r" "length (receipt_fields r) < slice_bound"
  shows "decode_receipt_fields (rc_tx_type r) (receipt_fields r @ rest) = Ok (r, rest)"
proof -
  have l: "length (encode_vec encode_log (rc_logs r)) < slice_bound"
    using assms(2) by (simp add: receipt_fields_def encode_inner_def encoder_finish_def)
  have "rlp_log.vec_valid (rc_logs r)"
  proof (rule rlp_log.vec_validI [OF _ l])
    fix x assume x: "x \<in> set (rc_logs r)"
    with assms(1) l length_encode_vec_elem [OF x, of encode_log] show "fits_log x"
      by (simp add: wf_receipt_def fits_log_def)
  qed
  with assms show ?thesis
    unfolding decode_receipt_fields_def receipt_fields_def encode_inner_def wf_receipt_def
    by (intro struct_round_trip) (simp_all add: field_round_trips rlp_logs.field_simps_enc)
qed

lemma decode_receipt_fields_decoder [struct_rules]: "rlp_decoder (decode_receipt_fields ty)"
  unfolding decode_receipt_fields_def [abs_def] by (intro struct_decoder struct_rules)

lemma length_receipt_fields: "length (rc_bloom r) = 256 \<Longrightarrow> 256 \<le> length (receipt_fields r)"
  using length_encode_bytes [of "rc_bloom r"]
  by (simp add: receipt_fields_def encode_inner_def encoder_finish_def encode_bloom_def)

lemma receipt_fields_first:
  assumes "length (receipt_fields r) < slice_bound"
  shows "\<exists>b bs. receipt_fields r = b # bs \<and> 0xc0 \<le> unat b"
  using assms unfolding receipt_fields_def encode_inner_def by (intro encoder_finish_first) simp_all

lemma fits_receipt_fields:
  assumes "fits_receipt r" shows "length (receipt_fields r) < slice_bound"
  using assms length_encode_bytes [of "encode_inner r"]
  by (auto simp: fits_receipt_def encode_receipt_def encode_inner_fields split: if_splits)

lemma decode_receipt_round_trip:
  assumes "fits_receipt r"
  shows "decode_receipt (encode_receipt r @ rest) = Ok (r, rest)"
proof -
  note lt = fits_receipt_fields [OF assms]
  have w: "wf_receipt r" using assms by (simp add: fits_receipt_def)
  note rt = decode_receipt_fields_round_trip [OF w lt, of rest]
  show ?thesis
  proof (cases "rc_tx_type r = Legacy")
    case True
    obtain b bs where "receipt_fields r = b # bs" "0xc0 \<le> unat b"
      using receipt_fields_first [OF lt] by blast
    then have "is_encoded_as_bytes (receipt_fields r @ rest) = Ok False"
      by (simp add: is_encoded_as_bytes_def)
    then show ?thesis
      using True rt by (simp add: decode_receipt_def encode_receipt_def encode_inner_fields)
  next
    case False
    have l: "56 \<le> length (encode_inner r)"
      using length_receipt_fields [of r] w by (simp add: wf_receipt_def encode_inner_fields)
    have "length (encode_bytes (encode_inner r)) < slice_bound"
      using assms False by (simp add: fits_receipt_def encode_receipt_def)
    note p = bytes_item_payload [OF l encode_bytes_fits [OF this], of rest]
    show ?thesis
      using False rt p
      by (simp add: decode_receipt_def encode_receipt_def encode_inner_fields tx_type_from_to_u8)
  qed
qed

lemma decode_inner_round_trip:
  assumes "fits_receipt r"
  shows "decode_inner (encode_inner r) = Ok r"
proof -
  note lt = fits_receipt_fields [OF assms]
  have w: "wf_receipt r" using assms by (simp add: fits_receipt_def)
  have rt: "decode_receipt_fields (rc_tx_type r) (receipt_fields r) = Ok (r, [])"
    using decode_receipt_fields_round_trip [OF w lt, of "[]"] by simp
  show ?thesis
  proof (cases "rc_tx_type r = Legacy")
    case True
    obtain b bs where "receipt_fields r = b # bs" "0xc0 \<le> unat b"
      using receipt_fields_first [OF lt] by blast
    then show ?thesis using True rt by (simp add: decode_inner_def encode_inner_fields)
  next
    case False
    have "unat (tx_type_to_u8 (rc_tx_type r)) < 0x7f" by (cases "rc_tx_type r") simp_all
    then show ?thesis
      using False rt by (simp add: decode_inner_def encode_inner_fields tx_type_from_to_u8)
  qed
qed

lemma encode_inner_inject:
  "fits_receipt x \<Longrightarrow> fits_receipt y \<Longrightarrow> encode_inner x = encode_inner y \<Longrightarrow> x = y"
  by (metis decode_inner_round_trip result.inject(1))

lemma decode_receipt_progress:
  assumes "decode_receipt bs = Ok (r, rest)" shows "\<exists>pre. pre \<noteq> [] \<and> bs = pre @ rest"
proof (cases "is_encoded_as_bytes bs = Ok True")
  case True
  then obtain p where p: "get_rlp_bytes_item_payload bs = Ok p"
    using assms by (auto simp: decode_receipt_def rbind_eq_Ok)
  with True assms obtain b q where q: "p = b # q" by (cases p) (auto simp: decode_receipt_def)
  obtain ty where "decode_receipt_fields ty q = Ok (r, rest)"
    using assms unfolding decode_receipt_def True p q by (auto split: option.splits)
  then have "\<exists>pre. q = pre @ rest"
    using rlp_decoder.dec_progress [OF decode_receipt_fields_decoder] by blast
  with q get_rlp_bytes_item_payload_suffix [OF p] show ?thesis by auto
next
  case False
  then have "decode_receipt_fields Legacy bs = Ok (r, rest)"
    using assms by (auto simp: decode_receipt_def rbind_eq_Ok split: if_splits)
  then show ?thesis by (rule rlp_decoder.dec_progress [OF decode_receipt_fields_decoder])
qed

lemma decode_receipt_no_Diverge: "decode_receipt bs \<noteq> Diverge"
  by (auto simp: decode_receipt_def rbind_eq_Diverge is_encoded_as_bytes_def
      get_rlp_bytes_item_payload_def Let_def
      rlp_decoder.dec_no_Diverge [OF decode_receipt_fields_decoder]
      split: list.splits if_splits option.splits)

interpretation rlp_receipt: rlp_codec decode_receipt encode_receipt fits_receipt
  by unfold_locales
    (auto simp: decode_receipt_round_trip decode_receipt_no_Diverge dest: decode_receipt_progress)

section \<open>Accounts\<close>

definition wf_account_info :: "core_account_info \<Rightarrow> bool" where
  "wf_account_info a \<longleftrightarrow> length (ai_code_hash a) = 32"

definition wf_account_state :: "account_state \<Rightarrow> bool" where
  "wf_account_state a \<longleftrightarrow> length (as_storage_root a) = 32 \<and> length (as_code_hash a) = 32"

lemma decode_account_info_round_trip:
  assumes "wf_account_info a"
  shows "decode_account_info (encode_account_info a @ rest) = Ok (a, rest)"
proof -
  have "length (encode_account_info a) < slice_bound"
    using assms length_encode_u256 [of "ai_balance a"] length_encode_u64 [of "ai_nonce a"]
    unfolding encode_account_info_def wf_account_info_def
    by (intro length_encoder_finish_le) (simp_all add: length_encode_fixed)
  with assms show ?thesis
    unfolding decode_account_info_def encode_account_info_def wf_account_info_def
    by (intro struct_round_trip) (simp_all add: field_round_trips)
qed

lemma decode_account_state_round_trip:
  assumes "wf_account_state a"
  shows "decode_account_state (encode_account_state a @ rest) = Ok (a, rest)"
proof -
  have "length (encode_account_state a) < slice_bound"
    using assms length_encode_u256 [of "as_balance a"] length_encode_u64 [of "as_nonce a"]
    unfolding encode_account_state_def wf_account_state_def
    by (intro length_encoder_finish_le) (simp_all add: length_encode_fixed)
  with assms show ?thesis
    unfolding decode_account_state_def encode_account_state_def wf_account_state_def
    by (intro struct_round_trip) (simp_all add: field_round_trips)
qed

lemma account_decoders [struct_rules]:
  "rlp_decoder decode_account_info" "rlp_decoder decode_account_state"
  unfolding decode_account_info_def [abs_def] decode_account_state_def [abs_def]
  by (intro struct_decoder struct_rules)+

interpretation rlp_account_info: rlp_codec decode_account_info encode_account_info wf_account_info
  using account_decoders(1)
  by (simp add: rlp_codec_def rlp_codec_axioms_def decode_account_info_round_trip)

interpretation rlp_account_state: rlp_codec decode_account_state encode_account_state wf_account_state
  using account_decoders(2)
  by (simp add: rlp_codec_def rlp_codec_axioms_def decode_account_state_round_trip)

end
