(* ===== verification/Chain_Config.thy ===== *)
theory Chain_Config
  imports Receipt_Codec
begin

text \<open>
  The chain configuration with its fork schedule and the genesis block
  (\<^verbatim>\<open>crates/common/types/genesis.rs\<close>), and the fork identifier of EIP-2124
  (\<^verbatim>\<open>crates/common/types/fork_id.rs\<close>). The checksum of the fork identifier is CRC-32 of a library, a
  parameter: a function of all the bytes fed to the hasher.
\<close>

section \<open>Chain configuration\<close>

record chain_config =
  cc_chain_id :: u64
  cc_homestead_block :: "u64 option"
  cc_dao_fork_block :: "u64 option"
  cc_dao_fork_support :: bool
  cc_eip150_block :: "u64 option"
  cc_eip155_block :: "u64 option"
  cc_eip158_block :: "u64 option"
  cc_byzantium_block :: "u64 option"
  cc_constantinople_block :: "u64 option"
  cc_petersburg_block :: "u64 option"
  cc_istanbul_block :: "u64 option"
  cc_muir_glacier_block :: "u64 option"
  cc_berlin_block :: "u64 option"
  cc_london_block :: "u64 option"
  cc_arrow_glacier_block :: "u64 option"
  cc_gray_glacier_block :: "u64 option"
  cc_merge_netsplit_block :: "u64 option"
  cc_shanghai_time :: "u64 option"
  cc_cancun_time :: "u64 option"
  cc_prague_time :: "u64 option"
  cc_verkle_time :: "u64 option"
  cc_terminal_total_difficulty :: "u128 option"
  cc_terminal_total_difficulty_passed :: bool

datatype fork = Paris | Shanghai | Cancun

definition activated :: "u64 option \<Rightarrow> u64 \<Rightarrow> bool" where
  "activated activation now = (case activation of Some t \<Rightarrow> t \<le> now | None \<Rightarrow> False)"

definition is_shanghai_activated :: "chain_config \<Rightarrow> u64 \<Rightarrow> bool" where
  "is_shanghai_activated c block_timestamp = activated (cc_shanghai_time c) block_timestamp"

definition is_cancun_activated :: "chain_config \<Rightarrow> u64 \<Rightarrow> bool" where
  "is_cancun_activated c block_timestamp = activated (cc_cancun_time c) block_timestamp"

definition is_istanbul_activated :: "chain_config \<Rightarrow> u64 \<Rightarrow> bool" where
  "is_istanbul_activated c block_number = activated (cc_istanbul_block c) block_number"

definition is_eip155_activated :: "chain_config \<Rightarrow> u64 \<Rightarrow> bool" where
  "is_eip155_activated c block_number = activated (cc_eip155_block c) block_number"

definition get_fork :: "chain_config \<Rightarrow> u64 \<Rightarrow> fork" where
  "get_fork c block_timestamp =
     (if is_cancun_activated c block_timestamp then Cancun
      else if is_shanghai_activated c block_timestamp then Shanghai
      else Paris)"

definition gather_forks :: "chain_config \<Rightarrow> u64 option list \<times> u64 option list" where
  "gather_forks c =
     ([cc_homestead_block c,
       if cc_dao_fork_support c then cc_dao_fork_block c else None,
       cc_eip150_block c,
       cc_eip155_block c,
       cc_eip158_block c,
       cc_byzantium_block c,
       cc_constantinople_block c,
       cc_petersburg_block c,
       cc_istanbul_block c,
       cc_muir_glacier_block c,
       cc_berlin_block c,
       cc_london_block c,
       cc_arrow_glacier_block c,
       cc_gray_glacier_block c,
       cc_merge_netsplit_block c],
      [cc_shanghai_time c, cc_cancun_time c, cc_prague_time c, cc_verkle_time c])"

section \<open>Fork identifiers\<close>

record fork_id =
  fork_hash :: bytes
  fork_next :: u64

text \<open>
  The loop over the activations: it gives the next fork, or zero, and the bytes fed to the hasher.
\<close>

fun update_checksum_loop :: "u64 option list \<Rightarrow> bytes \<Rightarrow> u64 \<Rightarrow> u64 \<Rightarrow> u64 \<times> bytes" where
  "update_checksum_loop [] hasher head last_included = (0, hasher)"
| "update_checksum_loop (None # forks) hasher head last_included =
     update_checksum_loop forks hasher head last_included"
| "update_checksum_loop (Some activation # forks) hasher head last_included =
     (if activation \<le> head then
        if activation \<noteq> last_included then
          update_checksum_loop forks (hasher @ to_be_bytes activation) head activation
        else update_checksum_loop forks hasher head last_included
      else (activation, hasher))"

definition update_checksum :: "u64 option list \<Rightarrow> bytes \<Rightarrow> u64 \<Rightarrow> u64 \<times> bytes" where
  "update_checksum forks hasher head = update_checksum_loop forks hasher head 0"

definition fork_id_new ::
  "(bytes \<Rightarrow> u32) \<Rightarrow> chain_config \<Rightarrow> bytes \<Rightarrow> u64 \<Rightarrow> u64 \<Rightarrow> fork_id" where
  "fork_id_new crc chain_config genesis_hash head_timestamp head_block_number =
     (let (block_number_based_forks, timestamp_based_forks) = gather_forks chain_config;
          (next_fork, hasher) = update_checksum block_number_based_forks genesis_hash head_block_number
      in if 0 < next_fork then \<lparr>fork_hash = to_be_bytes (crc hasher), fork_next = next_fork\<rparr>
         else
           let (next_fork, hasher) = update_checksum timestamp_based_forks hasher head_timestamp
           in \<lparr>fork_hash = to_be_bytes (crc hasher), fork_next = next_fork\<rparr>)"

definition encode_fork_id :: "fork_id \<Rightarrow> bytes" where
  "encode_fork_id x =
     encoder_finish (encoder_steps (encoder_new [])
       [encode_field encode_array (fork_hash x),
        encode_field encode_u64 (fork_next x)])"

definition decode_fork_id :: "fork_id decoder_fun" where
  "decode_fork_id rlp =
     (rbind (decoder_new rlp) (\<lambda>d.
     rbind (decode_field ''H32'' ''forkHash'' (decode_array 4) d) (\<lambda>(h, d).
     rbind (decode_field ''u64'' ''forkNext'' decode_u64 d) (\<lambda>(n, d).
     rbind (decoder_finish d) (\<lambda>remaining.
     Ok (\<lparr>fork_hash = h, fork_next = n\<rparr>, remaining))))))"

section \<open>Genesis\<close>

definition DEFAULT_OMMERS_HASH :: bytes where
  "DEFAULT_OMMERS_HASH =
     [0x1d, 0xcc, 0x4d, 0xe8, 0xde, 0xc7, 0x5d, 0x7a, 0xab, 0x85, 0xb5, 0x67, 0xb6, 0xcc, 0xd4, 0x1a,
      0xd3, 0x12, 0x45, 0x1b, 0x94, 0x8a, 0x74, 0x13, 0xf0, 0xa1, 0x42, 0xfd, 0x40, 0xd4, 0x93, 0x47]"

definition INITIAL_BASE_FEE :: u64 where
  "INITIAL_BASE_FEE = 1000000000"

record genesis =
  gn_config :: chain_config
  gn_alloc :: "(bytes \<times> genesis_account) list"
  gn_coinbase :: bytes
  gn_difficulty :: u256
  gn_extra_data :: bytes
  gn_gas_limit :: u64
  gn_nonce :: u64
  gn_mix_hash :: bytes
  gn_timestamp :: u64
  gn_base_fee_per_gas :: "u64 option"
  gn_blob_gas_used :: "u64 option"
  gn_excess_blob_gas :: "u64 option"

primrec genesis_entries ::
  "(bytes \<Rightarrow> bytes) \<Rightarrow> nat \<Rightarrow> (bytes \<times> genesis_account) list \<Rightarrow> ((bytes \<times> bytes) list, trie_error) result"
where
  "genesis_entries keccak fuel [] = Ok []"
| "genesis_entries keccak fuel (e # es) =
     (rbind (account_state_from_genesis keccak fuel (snd e)) (\<lambda>st.
     rbind (genesis_entries keccak fuel es) (\<lambda>rest.
     Ok ((keccak (fst e), encode_account_state st) # rest))))"

definition compute_state_root ::
  "(bytes \<Rightarrow> bytes) \<Rightarrow> nat \<Rightarrow> genesis \<Rightarrow> (bytes, trie_error) result" where
  "compute_state_root keccak fuel g =
     rbind (genesis_entries keccak fuel (gn_alloc g)) (compute_hash_from_unsorted_iter keccak fuel)"

definition get_genesis_header ::
  "(bytes \<Rightarrow> bytes) \<Rightarrow> nat \<Rightarrow> genesis \<Rightarrow> (block_header, trie_error) result" where
  "get_genesis_header keccak fuel g =
     (let cancun = is_cancun_activated (gn_config g) (gn_timestamp g) in
     rbind (compute_state_root keccak fuel g) (\<lambda>root.
     rbind (compute_transactions_root keccak fuel []) (\<lambda>txs_root.
     rbind (compute_receipts_root keccak fuel []) (\<lambda>rcs_root.
     rbind (compute_withdrawals_root keccak fuel []) (\<lambda>wds_root.
     Ok \<lparr>bh_parent_hash = replicate 32 0,
     bh_ommers_hash = DEFAULT_OMMERS_HASH,
     bh_coinbase = gn_coinbase g,
     bh_state_root = root,
     bh_transactions_root = txs_root,
     bh_receipts_root = rcs_root,
     bh_logs_bloom = replicate 256 0,
     bh_difficulty = gn_difficulty g,
     bh_number = 0,
     bh_gas_limit = gn_gas_limit g,
     bh_gas_used = 0,
     bh_timestamp = gn_timestamp g,
     bh_extra_data = gn_extra_data g,
     bh_prev_randao = gn_mix_hash g,
     bh_nonce = gn_nonce g,
     bh_base_fee_per_gas =
       (case gn_base_fee_per_gas g of Some f \<Rightarrow> Some f | None \<Rightarrow> Some INITIAL_BASE_FEE),
     bh_withdrawals_root =
       (if is_shanghai_activated (gn_config g) (gn_timestamp g) then Some wds_root else None),
     bh_blob_gas_used =
       (if cancun then Some (case gn_blob_gas_used g of Some v \<Rightarrow> v | None \<Rightarrow> 0) else None),
     bh_excess_blob_gas =
       (if cancun then Some (case gn_excess_blob_gas g of Some v \<Rightarrow> v | None \<Rightarrow> 0) else None),
     bh_parent_beacon_block_root = (if cancun then Some (replicate 32 0) else None)\<rparr>)))))"

definition get_genesis_body :: "genesis \<Rightarrow> block_body" where
  "get_genesis_body g = \<lparr>bb_transactions = [], bb_ommers = [], bb_withdrawals = Some []\<rparr>"

definition get_genesis_block ::
  "(bytes \<Rightarrow> bytes) \<Rightarrow> nat \<Rightarrow> genesis \<Rightarrow> (block, trie_error) result" where
  "get_genesis_block keccak fuel g =
     rbind (get_genesis_header keccak fuel g) (\<lambda>h. Ok \<lparr>b_header = h, b_body = get_genesis_body g\<rparr>)"

section \<open>Fork identifiers are read back and name a fork in the future\<close>

interpretation rlp_array4: rlp_codec "decode_array 4" encode_array "\<lambda>bs. length bs = 4"
  by (rule array_codec) (simp add: slice_bound_def)

lemmas array4_rule [struct_rules] = rlp_array4.rlp_decoder_axioms

definition wf_fork_id :: "fork_id \<Rightarrow> bool" where
  "wf_fork_id f \<longleftrightarrow> length (fork_hash f) = 4"

lemma decode_fork_id_round_trip:
  assumes "wf_fork_id f"
  shows "decode_fork_id (encode_fork_id f @ rest) = Ok (f, rest)"
proof -
  have "length (encode_fork_id f) < slice_bound"
    using assms length_encode_u64 [of "fork_next f"]
    unfolding encode_fork_id_def wf_fork_id_def
    by (intro length_encoder_finish_le) (simp_all add: encode_array_def encode_bytes_def length_prefix_def)
  with assms show ?thesis
    unfolding decode_fork_id_def encode_fork_id_def wf_fork_id_def
    by (intro struct_round_trip) (simp_all add: field_round_trips rlp_array4.field_simps_enc)
qed

lemma decode_fork_id_decoder [struct_rules]: "rlp_decoder decode_fork_id"
  unfolding decode_fork_id_def [abs_def] by (intro struct_decoder struct_rules)

interpretation rlp_fork_id: rlp_codec decode_fork_id encode_fork_id wf_fork_id
  using decode_fork_id_decoder
  by (simp add: rlp_codec_def rlp_codec_axioms_def decode_fork_id_round_trip)

lemma update_checksum_next:
  "update_checksum_loop forks hasher head l = (n, h) \<Longrightarrow> n \<noteq> 0 \<Longrightarrow> Some n \<in> set forks \<and> head < n"
  by (induction forks hasher head l rule: update_checksum_loop.induct) (auto split: if_splits)

lemma update_checksum_none:
  "update_checksum_loop forks hasher head l = (0, h) \<Longrightarrow> Some n \<in> set forks \<Longrightarrow> n \<le> head \<or> n = 0"
  by (induction forks hasher head l rule: update_checksum_loop.induct) (auto split: if_splits)

lemma fork_id_wf: "wf_fork_id (fork_id_new crc c g t n)"
  by (simp add: fork_id_new_def wf_fork_id_def Let_def split: prod.split)

end
