(* ===== verification/Block_Rules.thy ===== *)
theory Block_Rules
  imports Chain_Config
begin

text \<open>
  The rules a block header has to meet (\<^verbatim>\<open>crates/common/types/block.rs\<close>: gas limit, base fee, blob
  gas, the checks against the parent) and the checks of a block around its execution
  (\<^verbatim>\<open>crates/blockchain/blockchain.rs\<close>). The \<^verbatim>\<open>u64\<close> arithmetic is unchecked in the source and wraps
  as in a release build; a division by zero is a panic.
\<close>

section \<open>Constants\<close>

definition ELASTICITY_MULTIPLIER :: u64 where "ELASTICITY_MULTIPLIER = 2"
definition BASE_FEE_MAX_CHANGE_DENOMINATOR :: u64 where "BASE_FEE_MAX_CHANGE_DENOMINATOR = 8"
definition GAS_LIMIT_ADJUSTMENT_FACTOR :: u64 where "GAS_LIMIT_ADJUSTMENT_FACTOR = 1024"
definition GAS_LIMIT_MINIMUM :: u64 where "GAS_LIMIT_MINIMUM = 5000"
definition GAS_PER_BLOB :: u64 where "GAS_PER_BLOB = push_bit 17 1"
definition TARGET_BLOB_NUMBER_PER_BLOCK :: u64 where "TARGET_BLOB_NUMBER_PER_BLOCK = 3"
definition MAX_BLOB_NUMBER_PER_BLOCK :: u64 where
  "MAX_BLOB_NUMBER_PER_BLOCK = 2 * TARGET_BLOB_NUMBER_PER_BLOCK"
definition MAX_BLOB_GAS_PER_BLOCK :: u64 where
  "MAX_BLOB_GAS_PER_BLOCK = MAX_BLOB_NUMBER_PER_BLOCK * GAS_PER_BLOB"

lemmas rule_constants = ELASTICITY_MULTIPLIER_def BASE_FEE_MAX_CHANGE_DENOMINATOR_def
  GAS_LIMIT_ADJUSTMENT_FACTOR_def GAS_LIMIT_MINIMUM_def

section \<open>Gas limit and base fee\<close>

definition check_gas_limit :: "u64 \<Rightarrow> u64 \<Rightarrow> bool" where
  "check_gas_limit gas_limit parent_gas_limit =
     (let max_adjustment_delta = parent_gas_limit div GAS_LIMIT_ADJUSTMENT_FACTOR
      in gas_limit < parent_gas_limit + max_adjustment_delta \<and>
         gas_limit > parent_gas_limit - max_adjustment_delta \<and>
         gas_limit \<ge> GAS_LIMIT_MINIMUM)"

definition udiv :: "u64 \<Rightarrow> u64 \<Rightarrow> (u64, 'e) result" where
  "udiv a b = (if b = 0 then Panic else Ok (a div b))"

definition calculate_base_fee_per_gas :: "u64 \<Rightarrow> u64 \<Rightarrow> u64 \<Rightarrow> u64 \<Rightarrow> (u64 option, 'e) result" where
  "calculate_base_fee_per_gas block_gas_limit parent_gas_limit parent_gas_used parent_base_fee_per_gas =
     (if \<not> check_gas_limit block_gas_limit parent_gas_limit then Ok None
      else
        let parent_gas_target = parent_gas_limit div ELASTICITY_MULTIPLIER in
        if parent_gas_used = parent_gas_target then Ok (Some parent_base_fee_per_gas)
        else if parent_gas_used > parent_gas_target then
          (let gas_used_delta = parent_gas_used - parent_gas_target in
          let parent_fee_gas_delta = parent_base_fee_per_gas * gas_used_delta in
          rbind (udiv parent_fee_gas_delta parent_gas_target) (\<lambda>target_fee_gas_delta.
          let base_fee_per_gas_delta = max (target_fee_gas_delta div BASE_FEE_MAX_CHANGE_DENOMINATOR) 1 in
          Ok (Some (parent_base_fee_per_gas + base_fee_per_gas_delta))))
        else
          (let gas_used_delta = parent_gas_target - parent_gas_used in
          let parent_fee_gas_delta = parent_base_fee_per_gas * gas_used_delta in
          rbind (udiv parent_fee_gas_delta parent_gas_target) (\<lambda>target_fee_gas_delta.
          let base_fee_per_gas_delta = target_fee_gas_delta div BASE_FEE_MAX_CHANGE_DENOMINATOR in
          Ok (Some (parent_base_fee_per_gas - base_fee_per_gas_delta)))))"

section \<open>Header validation\<close>

datatype invalid_block_header_error =
    GasUsedGreaterThanGasLimit | BaseFeePerGasIncorrect | TimestampNotGreaterThanParent
  | BlockNumberNotOneGreater | ExtraDataTooLong | DifficultyNotZero | NonceNotZero
  | OmmersHashNotDefault | ParentHashIncorrect | ExcessBlobGasNotPresent | BlobGasUsedNotPresent
  | ExcessBlobGasIncorrect | ParentBeaconBlockRootNotPresent | ExcessBlobGasPresent
  | BlobGasUsedPresent

definition unwrap_or :: "'a option \<Rightarrow> 'a \<Rightarrow> 'a" where
  "unwrap_or x d = (case x of Some v \<Rightarrow> v | None \<Rightarrow> d)"

definition ensure :: "bool \<Rightarrow> 'e \<Rightarrow> (unit, 'e) result" where
  "ensure b e = (if b then Ok () else Err e)"

definition validate_block_header ::
  "(bytes \<Rightarrow> bytes) \<Rightarrow> block_header \<Rightarrow> block_header \<Rightarrow> (unit, invalid_block_header_error) result" where
  "validate_block_header keccak header parent_header =
     (rbind (ensure (bh_gas_used header \<le> bh_gas_limit header) GasUsedGreaterThanGasLimit) (\<lambda>_.
     rbind (calculate_base_fee_per_gas (bh_gas_limit header) (bh_gas_limit parent_header)
            (bh_gas_used parent_header) (unwrap_or (bh_base_fee_per_gas parent_header) INITIAL_BASE_FEE)) (\<lambda>expected.
     rbind (ok_or expected BaseFeePerGasIncorrect) (\<lambda>expected_base_fee_per_gas.
     rbind (ensure (expected_base_fee_per_gas = unwrap_or (bh_base_fee_per_gas header) INITIAL_BASE_FEE)
            BaseFeePerGasIncorrect) (\<lambda>_.
     rbind (ensure (bh_timestamp header > bh_timestamp parent_header) TimestampNotGreaterThanParent) (\<lambda>_.
     rbind (ensure (bh_number header = bh_number parent_header + 1) BlockNumberNotOneGreater) (\<lambda>_.
     rbind (ensure (length (bh_extra_data header) \<le> 32) ExtraDataTooLong) (\<lambda>_.
     rbind (ensure (bh_difficulty header = 0) DifficultyNotZero) (\<lambda>_.
     rbind (ensure (bh_nonce header = 0) NonceNotZero) (\<lambda>_.
     rbind (ensure (bh_ommers_hash header = DEFAULT_OMMERS_HASH) OmmersHashNotDefault) (\<lambda>_.
     rbind (ensure (bh_parent_hash header = compute_block_hash keccak parent_header) ParentHashIncorrect) (\<lambda>_.
     Ok ()))))))))))))"

definition calc_excess_blob_gas :: "block_header \<Rightarrow> u64" where
  "calc_excess_blob_gas parent_header =
     (let parent_excess_blob_gas = unwrap_or (bh_excess_blob_gas parent_header) 0;
          parent_blob_gas_used = unwrap_or (bh_blob_gas_used parent_header) 0;
          parent_blob_gas = parent_excess_blob_gas + parent_blob_gas_used
      in if parent_blob_gas < 393216 then 0 else parent_blob_gas - 393216)"

definition validate_cancun_header_fields ::
  "block_header \<Rightarrow> block_header \<Rightarrow> (unit, invalid_block_header_error) result" where
  "validate_cancun_header_fields header parent_header =
     (rbind (ok_or (bh_excess_blob_gas header) ExcessBlobGasNotPresent) (\<lambda>excess_blob_gas.
     rbind (ok_or (bh_blob_gas_used header) BlobGasUsedNotPresent) (\<lambda>_.
     rbind (ensure (excess_blob_gas = calc_excess_blob_gas parent_header) ExcessBlobGasIncorrect) (\<lambda>_.
     rbind (ok_or (bh_parent_beacon_block_root header) ParentBeaconBlockRootNotPresent) (\<lambda>_.
     Ok ())))))"

definition validate_no_cancun_header_fields ::
  "block_header \<Rightarrow> (unit, invalid_block_header_error) result" where
  "validate_no_cancun_header_fields header =
     (rbind (ensure (bh_excess_blob_gas header = None) ExcessBlobGasPresent) (\<lambda>_.
     ensure (bh_blob_gas_used header = None) BlobGasUsedPresent))"

section \<open>Blocks around execution\<close>

datatype invalid_block_error =
    StateRootMismatch | ReceiptsRootMismatch | InvalidHeader invalid_block_header_error
  | ExceededMaxBlobGasPerBlock | ExceededMaxBlobNumberPerBlock | GasUsedMismatch
  | BlobGasUsedMismatch | InvalidTransactionError string

definition get_total_blob_gas :: "eip4844_transaction \<Rightarrow> u64" where
  "get_total_blob_gas tx = GAS_PER_BLOB * of_nat (length (bl_blob_versioned_hashes tx))"

fun blob_usage :: "transaction list \<Rightarrow> u64 \<times> u64 \<Rightarrow> u64 \<times> u64" where
  "blob_usage [] acc = acc"
| "blob_usage (EIP4844Transaction tx # txs) acc =
     blob_usage txs (fst acc + get_total_blob_gas tx,
       snd acc + of_nat (length (bl_blob_versioned_hashes tx)))"
| "blob_usage (_ # txs) acc = blob_usage txs acc"

definition verify_blob_gas_usage :: "block \<Rightarrow> (unit, invalid_block_error) result" where
  "verify_blob_gas_usage block =
     (let (blob_gas_used, blobs_in_block) = blob_usage (bb_transactions (b_body block)) (0, 0) in
      (rbind (ensure (blob_gas_used \<le> MAX_BLOB_GAS_PER_BLOCK) ExceededMaxBlobGasPerBlock) (\<lambda>_.
      rbind (ensure (blobs_in_block \<le> MAX_BLOB_NUMBER_PER_BLOCK) ExceededMaxBlobNumberPerBlock) (\<lambda>_.
      rbind (ensure (unwrap_or (bh_blob_gas_used (b_header block)) blob_gas_used = blob_gas_used)
             BlobGasUsedMismatch) (\<lambda>_.
      Ok ())))))"

definition validate_block ::
  "(bytes \<Rightarrow> bytes) \<Rightarrow> chain_config \<Rightarrow> block \<Rightarrow> block_header \<Rightarrow> (unit, invalid_block_error) result" where
  "validate_block keccak config block parent_header =
     (let spec = get_fork config (bh_timestamp (b_header block)) in
      (rbind (rmap_err InvalidHeader (validate_block_header keccak (b_header block) parent_header)) (\<lambda>_.
      rbind ((if spec = Cancun
             then rmap_err InvalidHeader (validate_cancun_header_fields (b_header block) parent_header)
             else rmap_err InvalidHeader (validate_no_cancun_header_fields (b_header block)))) (\<lambda>_.
      (if spec = Cancun then verify_blob_gas_usage block else Ok ())))))"

definition validate_gas_used :: "receipt list \<Rightarrow> block_header \<Rightarrow> (unit, invalid_block_error) result" where
  "validate_gas_used receipts header =
     (if receipts = [] then Ok ()
      else ensure (rc_cumulative_gas_used (last receipts) = bh_gas_used header) GasUsedMismatch)"

definition validate_state_root :: "block_header \<Rightarrow> bytes \<Rightarrow> (unit, invalid_block_error) result" where
  "validate_state_root header new_state_root =
     ensure (new_state_root = bh_state_root header) StateRootMismatch"

definition validate_receipts_root ::
  "(bytes \<Rightarrow> bytes) \<Rightarrow> nat \<Rightarrow> block_header \<Rightarrow> receipt list \<Rightarrow> (unit, invalid_block_error) result" where
  "validate_receipts_root keccak fuel header receipts =
     (case compute_receipts_root keccak fuel receipts of
        Ok receipts_root \<Rightarrow> ensure (receipts_root = bh_receipts_root header) ReceiptsRootMismatch
      | Diverge \<Rightarrow> Diverge
      | _ \<Rightarrow> Panic)"

end
