(* ===== verification/Tx_Sign.thy ===== *)
theory Tx_Sign
  imports Tx_Codec Nibbles
begin

text \<open>
  Signing and sender recovery, \<^verbatim>\<open>crates/common/types/transaction.rs\<close> (\<^verbatim>\<open>Signable\<close>, \<^verbatim>\<open>sender\<close>,
  \<^verbatim>\<open>recover_address\<close>), the hashes of privileged transactions, the transaction wrapper of the mempool
  with its ordering, and the conversions to \<^verbatim>\<open>GenericTransaction\<close>. The curve library is a parameter:
  \<^item> \<open>sign_ecdsa_recoverable\<close> gives the recovery id and the 64-byte compact signature of a digest;
  \<^item> \<open>recover_ecdsa\<close> gives the 65-byte public key, or \<open>None\<close> where \<^verbatim>\<open>from_compact\<close> or
    \<^verbatim>\<open>recover_ecdsa\<close> returns an error, which the source unwraps.
\<close>

section \<open>Signing\<close>

record secp256k1 =
  sign_ecdsa_recoverable :: "bytes \<Rightarrow> bytes \<Rightarrow> int \<times> bytes"
  recover_ecdsa :: "bytes \<Rightarrow> bytes \<Rightarrow> int \<Rightarrow> bytes option"

definition sign_inplace_legacy ::
  "secp256k1 \<Rightarrow> (bytes \<Rightarrow> bytes) \<Rightarrow> bytes \<Rightarrow> legacy_transaction \<Rightarrow> legacy_transaction" where
  "sign_inplace_legacy S keccak private_key tx =
     (let (recovery_id, signature) =
            sign_ecdsa_recoverable S (keccak (encode_payload_legacy tx)) private_key
      in tx\<lparr>lg_r := from_be_bytes (take 32 signature),
            lg_s := from_be_bytes (drop 32 signature),
            lg_v := of_int recovery_id\<rparr>)"

definition sign_inplace_eip1559 ::
  "secp256k1 \<Rightarrow> (bytes \<Rightarrow> bytes) \<Rightarrow> bytes \<Rightarrow> eip1559_transaction \<Rightarrow> eip1559_transaction" where
  "sign_inplace_eip1559 S keccak private_key tx =
     (let payload = tx_type_to_u8 EIP1559 # encode_payload_eip1559 tx;
          (recovery_id, signature) = sign_ecdsa_recoverable S (keccak payload) private_key
      in tx\<lparr>df_signature_r := from_be_bytes (take 32 signature),
            df_signature_s := from_be_bytes (drop 32 signature),
            df_signature_y_parity := recovery_id \<noteq> 0\<rparr>)"

definition sign_inplace_eip2930 ::
  "secp256k1 \<Rightarrow> (bytes \<Rightarrow> bytes) \<Rightarrow> bytes \<Rightarrow> eip2930_transaction \<Rightarrow> eip2930_transaction" where
  "sign_inplace_eip2930 S keccak private_key tx =
     (let payload = tx_type_to_u8 EIP2930 # encode_payload_eip2930 tx;
          (recovery_id, signature) = sign_ecdsa_recoverable S (keccak payload) private_key
      in tx\<lparr>al_signature_r := from_be_bytes (take 32 signature),
            al_signature_s := from_be_bytes (drop 32 signature),
            al_signature_y_parity := recovery_id \<noteq> 0\<rparr>)"

definition sign_inplace_eip4844 ::
  "secp256k1 \<Rightarrow> (bytes \<Rightarrow> bytes) \<Rightarrow> bytes \<Rightarrow> eip4844_transaction \<Rightarrow> eip4844_transaction" where
  "sign_inplace_eip4844 S keccak private_key tx =
     (let payload = tx_type_to_u8 EIP4844 # encode_payload_eip4844 tx;
          (recovery_id, signature) = sign_ecdsa_recoverable S (keccak payload) private_key
      in tx\<lparr>bl_signature_r := from_be_bytes (take 32 signature),
            bl_signature_s := from_be_bytes (drop 32 signature),
            bl_signature_y_parity := recovery_id \<noteq> 0\<rparr>)"

definition sign_inplace_privileged ::
  "secp256k1 \<Rightarrow> (bytes \<Rightarrow> bytes) \<Rightarrow> bytes \<Rightarrow> privileged_l2_transaction \<Rightarrow> privileged_l2_transaction" where
  "sign_inplace_privileged S keccak private_key tx =
     (let payload = tx_type_to_u8 Privileged # encode_payload_privileged tx;
          (recovery_id, signature) = sign_ecdsa_recoverable S (keccak payload) private_key
      in tx\<lparr>pv_signature_r := from_be_bytes (take 32 signature),
            pv_signature_s := from_be_bytes (drop 32 signature),
            pv_signature_y_parity := recovery_id \<noteq> 0\<rparr>)"

fun sign_inplace :: "secp256k1 \<Rightarrow> (bytes \<Rightarrow> bytes) \<Rightarrow> bytes \<Rightarrow> transaction \<Rightarrow> transaction" where
  "sign_inplace S keccak key (LegacyTransaction tx) =
     LegacyTransaction (sign_inplace_legacy S keccak key tx)"
| "sign_inplace S keccak key (EIP2930Transaction tx) =
     EIP2930Transaction (sign_inplace_eip2930 S keccak key tx)"
| "sign_inplace S keccak key (EIP1559Transaction tx) =
     EIP1559Transaction (sign_inplace_eip1559 S keccak key tx)"
| "sign_inplace S keccak key (EIP4844Transaction tx) =
     EIP4844Transaction (sign_inplace_eip4844 S keccak key tx)"
| "sign_inplace S keccak key (PrivilegedL2Transaction tx) =
     PrivilegedL2Transaction (sign_inplace_privileged S keccak key tx)"

section \<open>The sender\<close>

definition recover_address ::
  "secp256k1 \<Rightarrow> (bytes \<Rightarrow> bytes) \<Rightarrow> u256 \<Rightarrow> u256 \<Rightarrow> bool \<Rightarrow> bytes \<Rightarrow> (bytes, 'e) result" where
  "recover_address S keccak signature_r signature_s signature_y_parity message =
     (case recover_ecdsa S (keccak message) (to_be_bytes signature_r @ to_be_bytes signature_s)
             (if signature_y_parity then 1 else 0) of
        None \<Rightarrow> Panic
      | Some public \<Rightarrow>
          rbind (slice_from public 1) (\<lambda>point.
          rbind (slice_from (keccak point) 12) (\<lambda>address.
            if length address = 20 then Ok address else Panic)))"

definition saturating_sub_u64 :: "u64 \<Rightarrow> u64 \<Rightarrow> u64" where
  "saturating_sub_u64 a b = (if b \<le> a then a - b else 0)"

text \<open>The message whose signature \<^verbatim>\<open>sender\<close> checks, written into its buffer.\<close>

definition sender_message_legacy :: "legacy_transaction \<Rightarrow> u64 option \<Rightarrow> bytes" where
  "sender_message_legacy tx chain_id =
     (case chain_id of
        None \<Rightarrow>
          encoder_finish (encoder_steps (encoder_new [])
            [encode_field encode_u64 (lg_nonce tx),
             encode_field encode_u64 (lg_gas_price tx),
             encode_field encode_u64 (lg_gas tx),
             encode_field encode_tx_kind (lg_to tx),
             encode_field encode_u256 (lg_value tx),
             encode_field encode_bytes (lg_data tx)])
      | Some cid \<Rightarrow>
          encoder_finish (encoder_steps (encoder_new [])
            [encode_field encode_u64 (lg_nonce tx),
             encode_field encode_u64 (lg_gas_price tx),
             encode_field encode_u64 (lg_gas tx),
             encode_field encode_tx_kind (lg_to tx),
             encode_field encode_u256 (lg_value tx),
             encode_field encode_bytes (lg_data tx),
             encode_field encode_u64 cid,
             encode_field encode_u8 0,
             encode_field encode_u8 0]))"

definition sender_legacy ::
  "secp256k1 \<Rightarrow> (bytes \<Rightarrow> bytes) \<Rightarrow> legacy_transaction \<Rightarrow> (bytes, 'e) result" where
  "sender_legacy S keccak tx =
     (rbind (derive_legacy_chain_id (lg_v tx)) (\<lambda>chain_id.
     rbind (as_u64 (lg_v tx)) (\<lambda>v.
     let signature_y_parity = (case chain_id of
           Some cid \<Rightarrow> saturating_sub_u64 v (35 + cid * 2) \<noteq> 0
         | None \<Rightarrow> saturating_sub_u64 v 27 \<noteq> 0) in
     recover_address S keccak (lg_r tx) (lg_s tx) signature_y_parity
     (sender_message_legacy tx chain_id))))"

fun sender :: "secp256k1 \<Rightarrow> (bytes \<Rightarrow> bytes) \<Rightarrow> transaction \<Rightarrow> (bytes, 'e) result" where
  "sender S keccak (LegacyTransaction tx) = sender_legacy S keccak tx"
| "sender S keccak (EIP2930Transaction tx) =
     recover_address S keccak (al_signature_r tx) (al_signature_s tx) (al_signature_y_parity tx)
       (encoder_finish (encoder_steps (encoder_new [tx_type_to_u8 EIP2930])
         [encode_field encode_u64 (al_chain_id tx),
          encode_field encode_u64 (al_nonce tx),
          encode_field encode_u64 (al_gas_price tx),
          encode_field encode_u64 (al_gas_limit tx),
          encode_field encode_tx_kind (al_to tx),
          encode_field encode_u256 (al_value tx),
          encode_field encode_bytes (al_data tx),
          encode_field encode_access_list (al_access_list tx)]))"
| "sender S keccak (EIP1559Transaction tx) =
     recover_address S keccak (df_signature_r tx) (df_signature_s tx) (df_signature_y_parity tx)
       (encoder_finish (encoder_steps (encoder_new [tx_type_to_u8 EIP1559])
         [encode_field encode_u64 (df_chain_id tx),
          encode_field encode_u64 (df_nonce tx),
          encode_field encode_u64 (df_max_priority_fee_per_gas tx),
          encode_field encode_u64 (df_max_fee_per_gas tx),
          encode_field encode_u64 (df_gas_limit tx),
          encode_field encode_tx_kind (df_to tx),
          encode_field encode_u256 (df_value tx),
          encode_field encode_bytes (df_data tx),
          encode_field encode_access_list (df_access_list tx)]))"
| "sender S keccak (EIP4844Transaction tx) =
     recover_address S keccak (bl_signature_r tx) (bl_signature_s tx) (bl_signature_y_parity tx)
       (encoder_finish (encoder_steps (encoder_new [tx_type_to_u8 EIP4844])
         [encode_field encode_u64 (bl_chain_id tx),
          encode_field encode_u64 (bl_nonce tx),
          encode_field encode_u64 (bl_max_priority_fee_per_gas tx),
          encode_field encode_u64 (bl_max_fee_per_gas tx),
          encode_field encode_u64 (bl_gas tx),
          encode_field encode_address (bl_to tx),
          encode_field encode_u256 (bl_value tx),
          encode_field encode_bytes (bl_data tx),
          encode_field encode_access_list (bl_access_list tx),
          encode_field encode_u256 (bl_max_fee_per_blob_gas tx),
          encode_field (encode_vec encode_h256) (bl_blob_versioned_hashes tx)]))"
| "sender S keccak (PrivilegedL2Transaction tx) =
     recover_address S keccak (pv_signature_r tx) (pv_signature_s tx) (pv_signature_y_parity tx)
       (encoder_finish (encoder_steps (encoder_new [tx_type_to_u8 Privileged])
         [encode_field encode_u64 (pv_chain_id tx),
          encode_field encode_u64 (pv_nonce tx),
          encode_field encode_u64 (pv_max_priority_fee_per_gas tx),
          encode_field encode_u64 (pv_max_fee_per_gas tx),
          encode_field encode_u64 (pv_gas_limit tx),
          encode_field encode_tx_kind (pv_to tx),
          encode_field encode_u256 (pv_value tx),
          encode_field encode_bytes (pv_data tx),
          encode_field encode_access_list (pv_access_list tx),
          encode_field encode_privileged_tx_type (pv_tx_type tx)]))"

section \<open>Hashes of privileged transactions\<close>

definition get_withdrawal_hash ::
  "(bytes \<Rightarrow> bytes) \<Rightarrow> privileged_l2_transaction \<Rightarrow> bytes option" where
  "get_withdrawal_hash keccak tx =
     (case (pv_tx_type tx, pv_to tx) of
        (Withdrawal, Call to_addr) \<Rightarrow>
          (let tx_hash = keccak (tx_type_to_u8 Privileged # encode_privileged tx)
           in Some (keccak (to_addr @ to_be_bytes (pv_value tx) @ tx_hash)))
      | _ \<Rightarrow> None)"

definition get_deposit_hash ::
  "(bytes \<Rightarrow> bytes) \<Rightarrow> privileged_l2_transaction \<Rightarrow> bytes option" where
  "get_deposit_hash keccak tx =
     (case (pv_tx_type tx, pv_to tx) of
        (Deposit, Call to_addr) \<Rightarrow>
          Some (keccak (to_addr @ to_be_bytes (pv_value tx)
            @ to_be_bytes (ucast (pv_nonce tx) :: u256)))
      | _ \<Rightarrow> None)"

section \<open>Transactions in the mempool\<close>

record mempool_transaction =
  mt_timestamp :: u128
  mt_sender :: bytes
  mt_inner :: transaction

definition mempool_transaction_new :: "u128 \<Rightarrow> transaction \<Rightarrow> bytes \<Rightarrow> mempool_transaction" where
  "mempool_transaction_new now tx sender_addr =
     \<lparr>mt_timestamp = now, mt_sender = sender_addr, mt_inner = tx\<rparr>"

definition encode_mempool_transaction :: "mempool_transaction \<Rightarrow> bytes" where
  "encode_mempool_transaction t =
     encoder_finish (encoder_steps (encoder_new [])
       [encode_field encode_u128 (mt_timestamp t),
        encode_field encode_transaction (mt_inner t)])"

definition decode_mempool_transaction :: "mempool_transaction decoder_fun" where
  "decode_mempool_transaction rlp =
     (rbind (decoder_new rlp) (\<lambda>d.
     rbind (decode_field ''u128'' ''timestamp'' decode_u128 d) (\<lambda>(timestamp, d).
     rbind (decode_field ''Address'' ''sender'' decode_address d) (\<lambda>(sender_addr, d).
     rbind (decode_field ''Transaction'' ''inner'' decode_transaction d) (\<lambda>(inner, d).
     rbind (decoder_finish d) (\<lambda>rest.
     Ok (\<lparr>mt_timestamp = timestamp, mt_sender = sender_addr, mt_inner = inner\<rparr>, rest)))))))"

definition cmp_word :: "'a::len word \<Rightarrow> 'a word \<Rightarrow> ordering" where
  "cmp_word a b = (if a < b then Less else if a = b then Equal else Greater)"

definition cmp_mempool :: "mempool_transaction \<Rightarrow> mempool_transaction \<Rightarrow> ordering" where
  "cmp_mempool a b =
     (case cmp_word (tx_nonce (mt_inner a)) (tx_nonce (mt_inner b)) of
        Equal \<Rightarrow> cmp_word (mt_timestamp b) (mt_timestamp a)
      | c \<Rightarrow> c)"

section \<open>Generic transactions\<close>

record access_list_entry =
  ale_address :: bytes
  ale_storage_keys :: "bytes list"

definition access_list_entry_from :: "bytes \<times> bytes list \<Rightarrow> access_list_entry" where
  "access_list_entry_from v = \<lparr>ale_address = fst v, ale_storage_keys = snd v\<rparr>"

record generic_transaction =
  gt_type :: tx_type
  gt_nonce :: "u64 option"
  gt_to :: tx_recipient
  gt_from :: bytes
  gt_gas :: "u64 option"
  gt_value :: u256
  gt_input :: bytes
  gt_gas_price :: u64
  gt_max_priority_fee_per_gas :: "u64 option"
  gt_max_fee_per_gas :: "u64 option"
  gt_max_fee_per_blob_gas :: "u256 option"
  gt_access_list :: "access_list_entry list"
  gt_blob_versioned_hashes :: "bytes list"
  gt_blobs :: "bytes list"
  gt_chain_id :: "u64 option"

definition generic_from_eip1559 :: "eip1559_transaction \<Rightarrow> generic_transaction" where
  "generic_from_eip1559 tx =
     \<lparr>gt_type = EIP1559,
      gt_nonce = Some (df_nonce tx),
      gt_to = df_to tx,
      gt_from = replicate 20 0,
      gt_gas = Some (df_gas_limit tx),
      gt_value = df_value tx,
      gt_input = df_data tx,
      gt_gas_price = df_max_fee_per_gas tx,
      gt_max_priority_fee_per_gas = Some (df_max_priority_fee_per_gas tx),
      gt_max_fee_per_gas = Some (df_max_fee_per_gas tx),
      gt_max_fee_per_blob_gas = None,
      gt_access_list = map access_list_entry_from (df_access_list tx),
      gt_blob_versioned_hashes = [],
      gt_blobs = [],
      gt_chain_id = Some (df_chain_id tx)\<rparr>"

definition generic_from_eip4844 :: "eip4844_transaction \<Rightarrow> generic_transaction" where
  "generic_from_eip4844 tx =
     \<lparr>gt_type = EIP4844,
      gt_nonce = Some (bl_nonce tx),
      gt_to = Call (bl_to tx),
      gt_from = replicate 20 0,
      gt_gas = Some (bl_gas tx),
      gt_value = bl_value tx,
      gt_input = bl_data tx,
      gt_gas_price = bl_max_fee_per_gas tx,
      gt_max_priority_fee_per_gas = Some (bl_max_priority_fee_per_gas tx),
      gt_max_fee_per_gas = Some (bl_max_fee_per_gas tx),
      gt_max_fee_per_blob_gas = Some (bl_max_fee_per_blob_gas tx),
      gt_access_list = map access_list_entry_from (bl_access_list tx),
      gt_blob_versioned_hashes = bl_blob_versioned_hashes tx,
      gt_blobs = [],
      gt_chain_id = Some (bl_chain_id tx)\<rparr>"

definition generic_from_privileged :: "privileged_l2_transaction \<Rightarrow> generic_transaction" where
  "generic_from_privileged tx =
     \<lparr>gt_type = Privileged,
      gt_nonce = Some (pv_nonce tx),
      gt_to = pv_to tx,
      gt_from = replicate 20 0,
      gt_gas = Some (pv_gas_limit tx),
      gt_value = pv_value tx,
      gt_input = pv_data tx,
      gt_gas_price = pv_max_fee_per_gas tx,
      gt_max_priority_fee_per_gas = Some (pv_max_priority_fee_per_gas tx),
      gt_max_fee_per_gas = Some (pv_max_fee_per_gas tx),
      gt_max_fee_per_blob_gas = None,
      gt_access_list = map access_list_entry_from (pv_access_list tx),
      gt_blob_versioned_hashes = [],
      gt_blobs = [],
      gt_chain_id = Some (pv_chain_id tx)\<rparr>"

section \<open>Recovering the signer\<close>

lemma to_be_bytes_from_be_bytes:
  assumes "length bs = 32"
  shows "to_be_bytes (from_be_bytes bs :: u256) = bs"
proof -
  have "of_be_bytes bs < 256 ^ 32" using of_be_bytes_lt [of bs] assms by simp
  then have "unat (of_nat (of_be_bytes bs) :: u256) = of_be_bytes bs"
    by (simp add: unsigned_of_nat take_bit_nat_eq_self)
  then show ?thesis
    using be_bytes_of_be_bytes [of bs] assms by (simp add: to_be_bytes_def from_be_bytes_def)
qed

definition sign_payload :: "transaction \<Rightarrow> bytes" where
  "sign_payload tx =
     (if tx_type_of tx = Legacy then encode_payload tx
      else tx_type_to_u8 (tx_type_of tx) # encode_payload tx)"

definition key_address :: "(bytes \<Rightarrow> bytes) \<Rightarrow> bytes \<Rightarrow> bytes" where
  "key_address keccak public = drop 12 (keccak (tl public))"

lemma recover_address_signed:
  assumes "length sig = 64" "length public = 65" "length (keccak (tl public)) = 32"
    and "recover_ecdsa S (keccak msg) sig recid = Some public" "recid = 0 \<or> recid = 1"
  shows "recover_address S keccak (from_be_bytes (take 32 sig)) (from_be_bytes (drop 32 sig))
      (recid \<noteq> 0) msg = Ok (key_address keccak public)"
proof -
  have "to_be_bytes (from_be_bytes (take 32 sig) :: u256) @
      to_be_bytes (from_be_bytes (drop 32 sig) :: u256) = sig"
    using assms(1) by (simp add: to_be_bytes_from_be_bytes)
  moreover have "(if recid \<noteq> 0 then 1 else 0) = recid" using assms(5) by auto
  ultimately show ?thesis
    using assms(2,3,4)
    by (simp add: recover_address_def key_address_def slice_from_def slice_def drop_Suc)
qed

lemma sender_sign_inplace:
  assumes "tx_type_of tx \<noteq> Legacy"
    and "sign_ecdsa_recoverable S (keccak (sign_payload tx)) key = (recid, sig)"
    and "length sig = 64" "recid = 0 \<or> recid = 1"
    and "recover_ecdsa S (keccak (sign_payload tx)) sig recid = Some public"
    and "length public = 65" "length (keccak (tl public)) = 32"
  shows "sender S keccak (sign_inplace S keccak key tx) = Ok (key_address keccak public)"
proof -
  note r = recover_address_signed [OF assms(3,6,7,5,4)]
  show ?thesis
  proof (cases tx)
    case (EIP2930Transaction t)
    with assms(2) r show ?thesis
      by (simp add: sign_payload_def sign_inplace_eip2930_def encode_payload_eip2930_def
          encoder_finish_def)
  next
    case (EIP1559Transaction t)
    with assms(2) r show ?thesis
      by (simp add: sign_payload_def sign_inplace_eip1559_def encode_payload_eip1559_def
          encoder_finish_def)
  next
    case (EIP4844Transaction t)
    with assms(2) r show ?thesis
      by (simp add: sign_payload_def sign_inplace_eip4844_def encode_payload_eip4844_def
          encoder_finish_def)
  next
    case (PrivilegedL2Transaction t)
    with assms(2) r show ?thesis
      by (simp add: sign_payload_def sign_inplace_privileged_def encode_payload_privileged_def
          encoder_finish_def)
  qed (use assms(1) in simp)
qed

end
