(* ===== verification/Tx_Properties.thy ===== *)
theory Tx_Properties
  imports Tx_Sign
begin

text \<open>
  Properties of transactions: the envelope of typed transactions is read back exactly when it is
  long enough, a typed transaction's sender is the key that signed it, and the fee computations meet
  their specification, with the wrapping difference where the fee cap is below the base fee.
\<close>

section \<open>Encodings\<close>

lemma encoder_finish_inject:
  assumes "encoder_finish e = encoder_finish e'" "e_buf e = []" "e_buf e' = []"
    and "length (encoder_finish e) < slice_bound"
  shows "temp_buf e = temp_buf e'"
proof -
  have le: "length (temp_buf e) < slice_bound" "length (temp_buf e') < slice_bound"
    using length_encoder_finish [of e] length_encoder_finish [of e'] assms(1,4) by simp_all
  show ?thesis
    using assms(1-3) decode_rlp_item_encode_length(1) [OF le(1), of "[]"]
      decode_rlp_item_encode_length(1) [OF le(2), of "[]"]
    by (simp add: encoder_finish_def)
qed

lemma decode_rlp_item_encoder_finish:
  assumes "length (encoder_finish e) < slice_bound" "e_buf e = []"
  shows "decode_rlp_item (encoder_finish e @ rest) = Ok (True, temp_buf e, rest)"
proof -
  have "length (temp_buf e) < slice_bound" using assms(1) length_encoder_finish [of e] by simp
  then show ?thesis
    using assms(2) decode_rlp_item_encode_length(1) [of "temp_buf e" rest]
    by (simp add: encoder_finish_def)
qed

lemma encode_transaction_not_address:
  assumes "length (encode_transaction tx) < slice_bound"
  shows "(\<exists>e. decode_address (encode_transaction tx) = Err e) \<or>
    decode_address (encode_transaction tx) = Ok (encode_canonical tx, [])"
proof (cases "tx_type_of tx = Legacy")
  case True
  then obtain t where t: "tx = LegacyTransaction t" by (cases tx) auto
  then have "length (encode_legacy t) < slice_bound" using assms by (simp add: encode_transaction_def)
  then have "\<exists>p. decode_rlp_item (encode_legacy t @ []) = Ok (True, p, [])"
    unfolding encode_legacy_def by - (rule exI, rule decode_rlp_item_encoder_finish, simp_all)
  then show ?thesis
    by (auto simp: t encode_transaction_def decode_address_def decode_array_def decode_bytes_def)
next
  case False
  then have e: "encode_transaction tx = encode_bytes (encode_canonical tx)"
    by (cases tx) (simp_all add: encode_transaction_def)
  then have "length (encode_canonical tx) < slice_bound" using assms by (simp add: encode_bytes_fits)
  then have "decode_bytes (encode_transaction tx) = Ok (encode_canonical tx, [])"
    using decode_bytes_encode_bytes [of "encode_canonical tx" "[]"] e by simp
  then show ?thesis by (simp add: decode_address_def decode_array_def)
qed

lemma decode_mempool_transaction_fails:
  assumes "length (encode_mempool_transaction t) < slice_bound"
  shows "\<exists>e. decode_mempool_transaction (encode_mempool_transaction t @ rest) = Err e"
proof -
  let ?e = "encoder_steps (encoder_new [])
    [encode_field encode_u128 (mt_timestamp t), encode_field encode_transaction (mt_inner t)]"
  have lt: "length (temp_buf ?e) < slice_bound"
    using assms length_encoder_finish [of ?e] by (simp add: encode_mempool_transaction_def)
  have "decoder_new (encode_mempool_transaction t @ rest) =
      Ok \<lparr>d_payload = temp_buf ?e, d_remaining = rest\<rparr>"
    unfolding encode_mempool_transaction_def using lt by (intro decoder_new_finish) simp_all
  moreover have "length (encode_transaction (mt_inner t)) < slice_bound" using lt by simp
  note a = encode_transaction_not_address [OF this]
  have "decode_transaction [] = Err MalformedData"
    by (simp add: decode_transaction_def is_encoded_as_bytes_def)
  ultimately show ?thesis
    using a by (auto simp: decode_mempool_transaction_def rlp_u128.round_trip decode_field_def)
qed

section \<open>Legacy signatures\<close>

lemma legacy_recovery_id:
  assumes "recid = 0 \<or> recid = 1"
  shows "derive_legacy_chain_id (of_int recid) = Ok (Some ((of_int recid - 35) div 2))"
    "as_u64 (of_int recid) = Ok (of_int recid :: u64)"
    "saturating_sub_u64 (of_int recid) (35 + (of_int recid - 35) div 2 * 2) = 0"
  using assms by (auto simp: derive_legacy_chain_id_def as_u64_def saturating_sub_u64_def)

lemma sender_message_update:
  "sender_message_legacy (t\<lparr>lg_r := r, lg_s := s, lg_v := v\<rparr>) c = sender_message_legacy t c"
  by (simp add: sender_message_legacy_def split: option.split)

lemma sender_message_not_payload:
  assumes "length (sender_message_legacy t (Some cid)) < slice_bound"
  shows "sender_message_legacy t (Some cid) \<noteq> encode_payload_legacy t"
proof
  assume eq: "sender_message_legacy t (Some cid) = encode_payload_legacy t"
  have "encode_u8 0 = [RLP_NULL]" by (simp add: encode_u8_def encode_uint_def)
  with encoder_finish_inject [OF eq [unfolded sender_message_legacy_def encode_payload_legacy_def
      option.simps]] assms
  show False by (simp add: sender_message_legacy_def)
qed

section \<open>Fees\<close>

lemma u64_price_fits: "unat (p :: u64) * unat (g :: u64) < 2 ^ 256"
proof -
  have "unat p * unat g < 2 ^ 64 * 2 ^ 64"
    using unsigned_less [of p] unsigned_less [of g] by (intro mult_strict_mono) auto
  then show ?thesis by simp
qed

lemma unat_u64_to_u256: "unat (ucast (p :: u64) :: u256) = unat p"
proof -
  have "unat p < 2 ^ 64" using unsigned_less [where 'a = nat and 'b = 64, of p] by simp
  then show ?thesis by (simp add: unsigned_ucast_eq take_bit_nat_eq_self)
qed

lemma unat_u256_saturating: "unat (u256_saturating n) = min n (2 ^ 256 - 1)"
proof (cases "n < 2 ^ 256")
  case True
  then have "unat (of_nat n :: u256) = n"
    by (simp add: unsigned_of_nat take_bit_nat_eq_self)
  with True show ?thesis by (simp add: u256_saturating_def)
next
  case False
  have "unat (- 1 :: u256) = 2 ^ 256 - 1" by (simp add: unsigned_minus_1_eq_mask mask_eq_exp_minus_1)
  with False show ?thesis by (simp add: u256_saturating_def)
qed

definition dynamic_fee :: "transaction \<Rightarrow> bool" where
  "dynamic_fee tx \<longleftrightarrow> tx_type_of tx = EIP1559 \<or> tx_type_of tx = EIP4844"

lemma unat_min_u64: "unat (min a b :: u64) = min (unat a) (unat b)"
  by (simp add: min_def word_le_nat_alt)

lemma dynamic_fee_price:
  assumes "dynamic_fee tx"
  shows "effective_gas_price tx (Some base) = Some (min (gas_tip_cap tx) (gas_fee_cap tx - base) + base)"
  using assms by (cases tx) (simp_all add: dynamic_fee_def effective_gas_price_def dynamic_gas_price_def
      gas_tip_cap_def gas_fee_cap_def)

lemma effective_price_dynamic:
  assumes "dynamic_fee tx" "base \<le> gas_fee_cap tx"
  shows "\<exists>p. effective_gas_price tx (Some base) = Some p \<and>
    unat p = unat base + min (unat (gas_tip_cap tx)) (unat (gas_fee_cap tx) - unat base)"
proof -
  let ?m = "min (gas_tip_cap tx) (gas_fee_cap tx - base)"
  have m: "unat ?m = min (unat (gas_tip_cap tx)) (unat (gas_fee_cap tx) - unat base)"
    using assms(2) by (simp add: unat_min_u64 unat_sub)
  have le: "unat base \<le> unat (gas_fee_cap tx)" using assms(2) by (simp add: word_le_nat_alt)
  have "unat ?m + unat base < 2 ^ 64"
    using m le unsigned_less [where 'a = nat and 'b = 64, of "gas_fee_cap tx"] by simp
  then have "unat (?m + base) = unat ?m + unat base" by (simp add: unat_word_ariths)
  then show ?thesis using dynamic_fee_price [OF assms(1), of base] m by (simp only: option.inject ex_simps simp_thms)
qed

lemma effective_price_wraps:
  assumes "dynamic_fee tx" "gas_fee_cap tx < base"
  shows "\<exists>p. effective_gas_price tx (Some base) = Some p \<and>
    unat p = (min (unat (gas_tip_cap tx)) (2 ^ 64 + unat (gas_fee_cap tx) - unat base) + unat base) mod 2 ^ 64"
proof -
  have "unat (gas_fee_cap tx - base) = 2 ^ 64 + unat (gas_fee_cap tx) - unat base"
    using assms(2) unat_sub_if' [of "gas_fee_cap tx" base] unsigned_less [where 'a = nat and 'b = 64, of base]
    by (simp add: word_less_nat_alt)
  then show ?thesis using dynamic_fee_price [OF assms(1), of base] by (simp add: unat_word_ariths unat_min_u64)
qed

lemma cost_value:
  "\<exists>c. cost_without_base_fee tx = Some c \<and>
     unat c = min (unat (gas_fee_cap tx) * unat (tx_gas_limit tx) + unat (tx_value tx)) (2 ^ 256 - 1)"
proof -
  define price where "price = gas_fee_cap tx"
  define cost where "cost = saturating_add_u256
    (saturating_mul_u256 (ucast price) (ucast (tx_gas_limit tx))) (tx_value tx)"
  have "cost_without_base_fee tx = Some cost"
    by (cases tx) (simp_all add: cost_without_base_fee_def cost_def price_def gas_fee_cap_def)
  moreover have "unat cost = min (unat price * unat (tx_gas_limit tx) + unat (tx_value tx)) (2 ^ 256 - 1)"
    using u64_price_fits [of price "tx_gas_limit tx"]
    unfolding cost_def saturating_add_u256_def saturating_mul_u256_def unat_u256_saturating unat_u64_to_u256
    by (simp add: min.absorb1)
  ultimately show ?thesis unfolding price_def by blast
qed

section \<open>Sample values\<close>

definition sample_1559 :: "bytes \<Rightarrow> transaction" where
  "sample_1559 dat = EIP1559Transaction
     \<lparr>df_chain_id = 1, df_nonce = 7, df_max_priority_fee_per_gas = 2, df_max_fee_per_gas = 100,
      df_gas_limit = 99, df_to = Call (replicate 20 1), df_value = 0, df_data = dat,
      df_access_list = [], df_signature_y_parity = False, df_signature_r = 0, df_signature_s = 0\<rparr>"

definition sample_legacy :: transaction where
  "sample_legacy = LegacyTransaction
     \<lparr>lg_nonce = 7, lg_gas_price = 100, lg_gas = 99, lg_to = Create, lg_value = 0, lg_data = [],
      lg_v = 0, lg_r = 0, lg_s = 0\<rparr>"

text \<open>A curve library that satisfies the law of recovery for every digest and key.\<close>

definition sample_secp :: secp256k1 where
  "sample_secp =
     \<lparr>sign_ecdsa_recoverable = (\<lambda>digest key. (1, key @ digest)),
      recover_ecdsa = (\<lambda>digest sig recid. Some (4 # replicate 32 0 @ take 32 sig))\<rparr>"

lemmas eval_encode = sig_bytes_small encode_u256_def encode_bytes_def leading_zeros_def floorlog_def
  encode_uint_def   encode_u64_def encode_u128_def encode_u8_def encode_address_def encode_access_list_def
  encode_vec_def encode_bool_def encoder_finish_def encode_length_def length_prefix_def Let_def
  to_be_bytes_def slice_bound_def

lemma sample_1559_fits:
  "length dat = 2 \<or> length dat = 50 \<Longrightarrow> fits_transaction (sample_1559 dat)"
  by (auto simp: sample_1559_def fits_eip1559_def wf_access_list_def encode_eip1559_def eval_encode)

lemma sample_1559_length:
  "length dat = 2 \<Longrightarrow> length (encode_canonical (sample_1559 dat)) = 36"
  "length dat = 50 \<Longrightarrow> length (encode_canonical (sample_1559 dat)) = 85"
  by (auto simp: sample_1559_def encode_eip1559_def eval_encode)

section \<open>Properties\<close>

text \<open>
  C22: a transaction is read back from its canonical form. From the form used in blocks it is read
  back, in front of any further input, exactly if it is a legacy transaction or its canonical form
  has at least 56 bytes; a shorter typed transaction is rejected.
\<close>

theorem transaction_round_trip:
  assumes "fits_transaction tx" "length (encode_transaction tx) < slice_bound"
  shows "decode_canonical (encode_canonical tx) = Ok tx \<and>
    decode_transaction (encode_transaction tx @ rest) =
      (if tx_type_of tx = Legacy \<or> 56 \<le> length (encode_canonical tx) then Ok (tx, rest)
       else Err UnexpectedString)"
proof
  show "decode_canonical (encode_canonical tx) = Ok tx"
    using assms(1) by (rule decode_canonical_round_trip)
  show "decode_transaction (encode_transaction tx @ rest) =
      (if tx_type_of tx = Legacy \<or> 56 \<le> length (encode_canonical tx) then Ok (tx, rest)
       else Err UnexpectedString)"
  proof (cases "long_envelope tx")
    case True
    then have "decode_transaction (encode_transaction tx @ rest) = Ok (tx, rest)"
      using assms by (intro rlp_transaction.round_trip) (simp add: valid_transaction_def)
    with True show ?thesis by (simp add: long_envelope_def)
  next
    case False
    then show ?thesis using decode_transaction_short by (simp add: long_envelope_def)
  qed
qed

theorem transaction_round_trip_witness:
  "(decode_canonical (encode_canonical (sample_1559 (replicate 50 7))) =
      Ok (sample_1559 (replicate 50 7)) \<and>
    decode_transaction (encode_transaction (sample_1559 (replicate 50 7)) @ [1]) =
      Ok (sample_1559 (replicate 50 7), [1])) \<and>
   decode_transaction (encode_transaction (sample_1559 [7, 8]) @ [1]) = Err UnexpectedString"
proof -
  have "length (encode_transaction (sample_1559 dat)) < slice_bound"
    if "length dat = 2 \<or> length dat = 50" for dat
    using that
    by (auto simp: encode_transaction_def sample_1559_def encode_eip1559_def eval_encode)
  then show ?thesis
    using transaction_round_trip [of "sample_1559 (replicate 50 7)" "[1]"]
      transaction_round_trip [of "sample_1559 [7, 8]" "[1]"]
    by (simp add: sample_1559_fits sample_1559_length) (simp add: sample_1559_def)
qed

text \<open>
  C10: the sender of a signed typed transaction is the address of the key that signed it, given a
  curve library that recovers the public key from a signature it made with recovery id 0 or 1.
\<close>

theorem typed_sender_is_signer:
  assumes "tx_type_of tx \<noteq> Legacy"
    and "sign_ecdsa_recoverable S (keccak (sign_payload tx)) key = (recid, sig)"
    and "length sig = 64" "recid = 0 \<or> recid = 1"
    and "recover_ecdsa S (keccak (sign_payload tx)) sig recid = Some public"
    and "length public = 65" "length (keccak (tl public)) = 32"
  shows "sender S keccak (sign_inplace S keccak key tx) = Ok (key_address keccak public)"
  using assms by (rule sender_sign_inplace)

theorem typed_sender_is_signer_witness:
  "sender sample_secp (\<lambda>bs. replicate 32 (of_nat (length bs)))
     (sign_inplace sample_secp (\<lambda>bs. replicate 32 (of_nat (length bs))) (replicate 32 9) (sample_1559 [7, 8])) =
   Ok (key_address (\<lambda>bs. replicate 32 (of_nat (length bs))) (4 # replicate 32 0 @ replicate 32 9))"
  by (rule typed_sender_is_signer [where recid = 1 and
        sig = "replicate 32 9 @ replicate 32 (of_nat (length (sign_payload (sample_1559 [7, 8]))))"])
    (simp_all add: sample_secp_def sample_1559_def)

text \<open>
  C37: a legacy transaction signed by the node is not attributed to its signer: the sender is
  recovered, with the parity bit dropped, from a message with a chain identifier derived from the
  recovery id, which is not the message that was signed.
\<close>

theorem legacy_sender_misses_signer:
  assumes "sign_ecdsa_recoverable S (keccak (sign_payload (LegacyTransaction t))) key = (recid, sig)"
    and "recid = 0 \<or> recid = 1"
    and "length (sender_message_legacy t (Some ((of_int recid - 35) div 2))) < slice_bound"
  shows "sender S keccak (sign_inplace S keccak key (LegacyTransaction t)) =
      recover_address S keccak (from_be_bytes (take 32 sig)) (from_be_bytes (drop 32 sig)) False
        (sender_message_legacy t (Some ((of_int recid - 35) div 2))) \<and>
    sender_message_legacy t (Some ((of_int recid - 35) div 2)) \<noteq> sign_payload (LegacyTransaction t)"
  using assms(1) sender_message_not_payload [OF assms(3)]
  by (simp add: sign_payload_def sign_inplace_legacy_def sender_legacy_def legacy_recovery_id [OF assms(2)]
      sender_message_update)

theorem legacy_sender_misses_signer_witness:
  "\<exists>t. sample_legacy = LegacyTransaction t \<and>
   sender sample_secp (\<lambda>bs. []) (sign_inplace sample_secp (\<lambda>bs. []) (replicate 64 9) (LegacyTransaction t)) =
     recover_address sample_secp (\<lambda>bs. []) (from_be_bytes (take 32 (replicate 64 9)))
       (from_be_bytes (drop 32 (replicate 64 9))) False
       (sender_message_legacy t (Some ((of_int 1 - 35) div 2))) \<and>
   sender_message_legacy t (Some ((of_int 1 - 35) div 2)) \<noteq> sign_payload (LegacyTransaction t)"
  using sig_bytes_length [of 8 9223372036854775791]
  by - (rule exI, rule conjI, rule sample_legacy_def, rule legacy_sender_misses_signer,
    simp_all add: sample_secp_def sender_message_legacy_def eval_encode)

text \<open>
  C38: a mempool transaction cannot be read back from its own encoding: the encoder leaves the
  sender out, the decoder insists on it, and every encoding ends in an error.
\<close>

theorem mempool_transaction_unreadable:
  assumes "length (encode_mempool_transaction t) < slice_bound"
  shows "\<exists>e. decode_mempool_transaction (encode_mempool_transaction t @ rest) = Err e"
  using assms by (rule decode_mempool_transaction_fails)

theorem mempool_transaction_unreadable_witness:
  "\<exists>e. decode_mempool_transaction (encode_mempool_transaction
     \<lparr>mt_timestamp = 5, mt_sender = replicate 20 1, mt_inner = sample_legacy\<rparr> @ []) = Err e"
  by (rule mempool_transaction_unreadable)
    (simp add: encode_mempool_transaction_def encode_transaction_def sample_legacy_def
      encode_legacy_def eval_encode)

text \<open>
  C31: the fees of a transaction of any of the five types, against a base fee. The effective tip
  without a base fee is the tip cap; with one it is the tip cap limited by what the fee cap leaves
  above the base fee, and there is none exactly if the fee cap is below the base fee. Where there
  is a tip, the effective price of a transaction that is not privileged is the base fee plus this
  tip, so at most the fee cap. Legacy, access-list and privileged transactions pay their gas price,
  whatever the base fee is. A dynamic-fee transaction has no price without a base fee, and with a
  fee cap below the base fee its price is what the wrapped 64-bit difference gives. The balance a
  transaction needs is its fee cap (its gas price, where it has no fee cap) times its gas limit plus
  its value, saturating at the largest 256-bit number.
\<close>

theorem transaction_fees:
  shows "effective_gas_tip tx None = Some (gas_tip_cap tx) \<and>
    (effective_gas_tip tx (Some base) = None \<longleftrightarrow> gas_fee_cap tx < base) \<and>
    (\<forall>t. effective_gas_tip tx (Some base) = Some t \<longrightarrow>
       unat t = min (unat (gas_tip_cap tx)) (unat (gas_fee_cap tx) - unat base) \<and>
       (tx_type_of tx \<noteq> Privileged \<longrightarrow>
          (\<exists>p. effective_gas_price tx (Some base) = Some p \<and> unat p = unat base + unat t \<and> p \<le> gas_fee_cap tx))) \<and>
    (tx_type_of tx = Legacy \<or> tx_type_of tx = EIP2930 \<or> tx_type_of tx = Privileged \<longrightarrow>
       (\<forall>b. effective_gas_price tx b = Some (tx_gas_price tx))) \<and>
    (tx_type_of tx = EIP1559 \<or> tx_type_of tx = EIP4844 \<longrightarrow>
       effective_gas_price tx None = None \<and>
       (gas_fee_cap tx < base \<longrightarrow>
          (\<exists>p. effective_gas_price tx (Some base) = Some p \<and>
             unat p = (min (unat (gas_tip_cap tx)) (2 ^ 64 + unat (gas_fee_cap tx) - unat base) + unat base) mod 2 ^ 64))) \<and>
    (\<exists>c. cost_without_base_fee tx = Some c \<and>
       unat c = min (unat (gas_fee_cap tx) * unat (tx_gas_limit tx) + unat (tx_value tx)) (2 ^ 256 - 1))"
proof -
  have tip: "unat t = min (unat (gas_tip_cap tx)) (unat (gas_fee_cap tx) - unat base)" "base \<le> gas_fee_cap tx"
    if "effective_gas_tip tx (Some base) = Some t" for t
    using that by (auto simp: effective_gas_tip_def unat_min_u64 unat_sub min.commute split: if_splits)
  have "\<exists>p. effective_gas_price tx (Some base) = Some p \<and> unat p = unat base + unat t \<and> p \<le> gas_fee_cap tx"
    if t: "effective_gas_tip tx (Some base) = Some t" and ty: "tx_type_of tx \<noteq> Privileged" for t
  proof (cases "dynamic_fee tx")
    case True
    then obtain p where p: "effective_gas_price tx (Some base) = Some p" "unat p = unat base + unat t"
      using effective_price_dynamic [OF True tip(2) [OF t]] tip(1) [OF t] by auto
    moreover have "unat base + unat t \<le> unat (gas_fee_cap tx)"
      using tip [OF t] by (simp add: word_le_nat_alt)
    ultimately show ?thesis by (simp add: word_le_nat_alt)
  next
    case False
    then have "effective_gas_price tx (Some base) = Some (gas_fee_cap tx)" "gas_tip_cap tx = gas_fee_cap tx"
      using ty by (cases tx; simp add: effective_gas_price_def gas_fee_cap_def gas_tip_cap_def dynamic_fee_def)+
    then show ?thesis using tip [OF t] by (auto simp: word_le_nat_alt)
  qed
  note price = this
  show ?thesis
    unfolding dynamic_fee_def [symmetric]
  proof (intro conjI allI impI)
    show "effective_gas_tip tx None = Some (gas_tip_cap tx)" by (simp add: effective_gas_tip_def)
    show "effective_gas_tip tx (Some base) = None \<longleftrightarrow> gas_fee_cap tx < base"
      by (auto simp: effective_gas_tip_def)
    show "effective_gas_price tx b = Some (tx_gas_price tx)"
      if "tx_type_of tx = Legacy \<or> tx_type_of tx = EIP2930 \<or> tx_type_of tx = Privileged" for b
      using that by (auto simp: effective_gas_price_def)
    show "effective_gas_price tx None = None" if "dynamic_fee tx"
      using that by (auto simp: dynamic_fee_def effective_gas_price_def dynamic_gas_price_def split: option.split)
  qed (use tip(1) price effective_price_wraps cost_value in simp_all)
qed

theorem transaction_fees_witness:
  "effective_gas_tip (sample_1559 []) (Some 99) = Some 1 \<and> effective_gas_price (sample_1559 []) (Some 99) = Some 100 \<and>
   effective_gas_tip (sample_1559 []) (Some 101) = None \<and> effective_gas_price (sample_1559 []) (Some 101) = Some 103 \<and>
   effective_gas_tip sample_legacy (Some 60) = Some 40 \<and> effective_gas_price sample_legacy (Some 60) = Some 100 \<and>
   map_option unat (cost_without_base_fee sample_legacy) = Some 9900"
proof -
  have t: "tx_type_of (sample_1559 []) = EIP1559" "gas_tip_cap (sample_1559 []) = 2" "gas_fee_cap (sample_1559 []) = 100"
    "tx_type_of sample_legacy = Legacy" "gas_tip_cap sample_legacy = 100" "gas_fee_cap sample_legacy = 100"
    "tx_gas_price sample_legacy = 100" "tx_gas_limit sample_legacy = 99" "tx_value sample_legacy = 0"
    by (simp_all add: sample_1559_def sample_legacy_def gas_tip_cap_def gas_fee_cap_def)
  have price: "x = Some p" if "\<exists>q. x = Some q \<and> unat q = n \<and> P q" "unat p = n" for x n P and p :: u64
    using that by (auto simp: word_unat_eq_iff)
  note f = transaction_fees [of "sample_1559 []" 99, unfolded t] and g = transaction_fees [of "sample_1559 []" 101, unfolded t]
    and l = transaction_fees [of sample_legacy 60, unfolded t]
  obtain x y where x: "effective_gas_tip (sample_1559 []) (Some 99) = Some x"
    and y: "effective_gas_tip sample_legacy (Some 60) = Some y"
    using f l by fastforce
  have "unat x = 1" "unat y = 40" using f l x y by simp_all
  then have xy: "x = 1" "y = 40" by (simp_all add: word_unat_eq_iff)
  have "effective_gas_price (sample_1559 []) (Some 99) = Some 100"
    using f x \<open>unat x = 1\<close> by (intro price [where n = 100 and P = "\<lambda>q. q \<le> 100"]) simp_all
  moreover have "effective_gas_price (sample_1559 []) (Some 101) = Some 103"
    using g by (intro price [where n = 103 and P = "\<lambda>q. True"]) simp_all
  moreover have "effective_gas_tip (sample_1559 []) (Some 101) = None" "effective_gas_price sample_legacy (Some 60) = Some 100"
    "map_option unat (cost_without_base_fee sample_legacy) = Some 9900"
    using g l by auto
  ultimately show ?thesis using x y xy by simp
qed

end
