(* ===== verification/Block_Properties.thy ===== *)
theory Block_Properties
  imports Block_Rules Trie_Properties Tx_Properties
begin

text \<open>
  Properties of blocks: what an accepted header guarantees, the base fee against EIP-1559, and that
  the roots in a header commit to the lists they are computed from.
\<close>

section \<open>Gas limits\<close>

lemma unat_u64_lt: "unat (x :: u64) < 2 ^ 64"
  using unsigned_less [where 'a = nat and 'b = 64, of x] by simp

lemma unat_div_u64: "unat ((x :: u64) div y) = unat x div unat y"
  by (simp add: unat_div_distrib)

lemma check_gas_limit_bounds:
  assumes "check_gas_limit g p"
  shows "5000 \<le> unat g" "unat p - unat p div 1024 < unat g" "unat g < unat p + unat p div 1024"
proof -
  let ?d = "p div 1024"
  have d: "unat ?d = unat p div 1024" by (simp add: unat_div_u64)
  have h: "g < p + ?d" "p - ?d < g" "5000 \<le> g"
    using assms by (simp_all add: check_gas_limit_def Let_def rule_constants)
  have "?d \<le> p" by (simp add: word_le_nat_alt d)
  then have s: "unat (p - ?d) = unat p - unat p div 1024" by (simp add: unat_sub d)
  then show lo: "unat p - unat p div 1024 < unat g" using h(2) by (simp add: word_less_nat_alt)
  have "unat (p + ?d) \<le> unat p + unat p div 1024"
    by (simp add: unat_word_ariths d)
  then show "unat g < unat p + unat p div 1024" using h(1) by (simp add: word_less_nat_alt)
  show "5000 \<le> unat g" using h(3) by (simp add: word_le_nat_alt)
qed

lemma check_gas_limit_target:
  assumes "check_gas_limit g p" shows "p div 2 \<noteq> 0" "2 \<le> unat p"
proof -
  have "5000 < unat p + unat p div 1024" using check_gas_limit_bounds [OF assms] by simp
  then show p: "2 \<le> unat p" by (cases "unat p < 2") auto
  then have "unat (p div 2) \<noteq> 0" by (simp add: unat_div_u64)
  then show "p div 2 \<noteq> 0" by force
qed

section \<open>Base fee\<close>

text \<open>The base fee rule of EIP-1559, on natural numbers.\<close>

definition eip1559_base_fee :: "nat \<Rightarrow> nat \<Rightarrow> nat \<Rightarrow> nat" where
  "eip1559_base_fee parent_gas_limit parent_gas_used parent_base_fee =
     (let target = parent_gas_limit div 2
      in if parent_gas_used = target then parent_base_fee
         else if parent_gas_used > target then
           parent_base_fee + max (parent_base_fee * (parent_gas_used - target) div target div 8) 1
         else parent_base_fee - parent_base_fee * (target - parent_gas_used) div target div 8)"

lemma calculate_base_fee_total:
  "\<exists>f. calculate_base_fee_per_gas g p u b = Ok f \<and> (f = None \<longleftrightarrow> \<not> check_gas_limit g p)"
  using check_gas_limit_target [of g p]
  by (auto simp: calculate_base_fee_per_gas_def udiv_def Let_def rule_constants)

lemma calculate_base_fee_no_Panic: "calculate_base_fee_per_gas g p u b \<noteq> Panic"
  using check_gas_limit_target [of g p]
  by (auto simp: calculate_base_fee_per_gas_def udiv_def Let_def rule_constants)

lemma unat_mult_u64:
  assumes "unat a * unat b < 2 ^ 64" shows "unat (a * b :: u64) = unat a * unat b"
  using assms by (simp add: unat_word_ariths)

lemma unat_add_u64:
  assumes "unat a + unat b < 2 ^ 64" shows "unat (a + b :: u64) = unat a + unat b"
  using assms by (simp add: unat_word_ariths)

lemma unat_max_u64: "unat (max a b :: u64) = max (unat a) (unat b)"
  by (simp add: max_def word_le_nat_alt)

lemma mult_div_le_fst:
  assumes "k \<le> t" shows "b * k div t \<le> (b :: nat)"
proof -
  have "b * k div t \<le> b * t div t" using assms by (intro div_le_mono mult_le_mono2)
  also have "\<dots> \<le> b" by (cases "t = 0") simp_all
  finally show ?thesis .
qed

text \<open>
  What the 64-bit computation yields: the product of the base fee and the distance from the gas
  target is taken modulo \<open>2 ^ 64\<close> before it is divided.
\<close>

definition gas_delta :: "nat \<Rightarrow> nat \<Rightarrow> nat" where
  "gas_delta target used = (if used > target then used - target else target - used)"

definition fee_change :: "nat \<Rightarrow> nat \<Rightarrow> nat" where
  "fee_change target m = m div target div 8"

lemma calculate_base_fee_value:
  fixes g p u b :: u64
  assumes c: "check_gas_limit g p"
  defines "t \<equiv> unat p div 2"
  defines "q \<equiv> fee_change t (unat b * gas_delta t (unat u) mod 2 ^ 64)"
  obtains f where "calculate_base_fee_per_gas g p u b = (Ok (Some f) :: (u64 option, 'e) result)"
    "unat f = (if unat u = t then unat b else if t < unat u then (unat b + max q 1) mod 2 ^ 64 else unat b - q)"
proof -
  define w where "w = p div 2"
  have w: "unat w = t" by (simp add: w_def t_def unat_div_u64)
  have w0: "w \<noteq> 0" using check_gas_limit_target [OF c] by (simp add: w_def)
  consider (eq) "u = w" | (gt) "w < u" | (lt) "u < w" by fastforce
  then show thesis
  proof cases
    case eq
    then show thesis using c w by (intro that [of b]) (simp_all add: calculate_base_fee_per_gas_def Let_def rule_constants w_def [symmetric])
  next
    case gt
    then have wu: "t < unat u" by (simp add: word_less_nat_alt w)
    have "unat (u - w) = gas_delta t (unat u)" using gt wu w by (simp add: gas_delta_def unat_sub order_less_imp_le)
    then have "unat (b * (u - w) div w div 8) = q" by (simp add: q_def fee_change_def unat_div_u64 unat_word_ariths w)
    then have "unat (b + max (b * (u - w) div w div 8) 1) = (unat b + max q 1) mod 2 ^ 64"
      by (simp add: unat_word_ariths unat_max_u64)
    then show thesis using c gt w0 wu
      by (intro that [of "b + max (b * (u - w) div w div 8) 1"])
        (simp_all add: calculate_base_fee_per_gas_def Let_def rule_constants w_def [symmetric] udiv_def)
  next
    case lt
    then have wu: "unat u < t" by (simp add: word_less_nat_alt w)
    have "unat (w - u) = gas_delta t (unat u)" using lt wu w by (simp add: gas_delta_def unat_sub order_less_imp_le)
    then have q: "unat (b * (w - u) div w div 8) = q" by (simp add: q_def fee_change_def unat_div_u64 unat_word_ariths w)
    have "unat b * gas_delta t (unat u) mod 2 ^ 64 \<le> unat b * gas_delta t (unat u)" by simp
    also have "\<dots> \<le> unat b * t" using wu by (simp add: gas_delta_def)
    finally have "q \<le> unat b * t div t div 8" unfolding q_def fee_change_def by (intro div_le_mono)
    also have "\<dots> \<le> unat b" by (cases "t = 0") simp_all
    finally have "b * (w - u) div w div 8 \<le> b" using q by (simp add: word_le_nat_alt)
    then have "unat (b - b * (w - u) div w div 8) = unat b - q" using q by (simp add: unat_sub)
    moreover have "\<not> w < u" "u \<noteq> w" using lt by auto
    ultimately show thesis using c w0 wu
      by (intro that [of "b - b * (w - u) div w div 8"])
        (simp_all add: calculate_base_fee_per_gas_def Let_def rule_constants w_def [symmetric] udiv_def)
  qed
qed

lemma eip1559_base_fee_change:
  "eip1559_base_fee p u b =
     (let t = p div 2; q = fee_change t (b * gas_delta t u)
      in if u = t then b else if t < u then b + max q 1 else b - q)"
  by (simp add: eip1559_base_fee_def gas_delta_def fee_change_def Let_def)

lemma fee_change_wraps:
  assumes "0 < t" "t \<le> 2 ^ 60" "2 ^ 64 \<le> m"
  shows "fee_change t (m mod 2 ^ 64) + 2 \<le> fee_change t m"
proof -
  have "1 * 2 ^ 64 \<le> m div 2 ^ 64 * 2 ^ 64" using assms(3) by (intro mult_le_mono1) (simp add: Suc_leI div_greater_zero_iff)
  then have "m mod 2 ^ 64 + 2 ^ 64 \<le> m" using div_mult_mod_eq [of m "2 ^ 64"] by linarith
  moreover have "16 * t \<le> 2 ^ 64" using assms(2) by simp
  ultimately have "m mod 2 ^ 64 + 2 * (8 * t) \<le> m" by linarith
  then have "(m mod 2 ^ 64 + 2 * (8 * t)) div (8 * t) \<le> m div (8 * t)" by (rule div_le_mono)
  moreover have "(m mod 2 ^ 64 + 2 * (8 * t)) div (8 * t) = 2 + m mod 2 ^ 64 div (8 * t)"
    using assms(1) by (intro div_mult_self1) simp
  moreover have "fee_change t x = x div (8 * t)" for x by (simp add: fee_change_def div_mult2_eq [symmetric] mult.commute)
  ultimately show ?thesis by simp
qed

lemma calculate_base_fee_iff:
  fixes g p u b :: u64
  assumes c: "check_gas_limit g p" and fee: "eip1559_base_fee (unat p) (unat u) (unat b) < 2 ^ 64"
  defines "m \<equiv> unat b * gas_delta (unat p div 2) (unat u)"
  shows "\<exists>f. calculate_base_fee_per_gas g p u b = (Ok (Some f) :: (u64 option, 'e) result) \<and>
    (m < 2 ^ 64 \<longrightarrow> unat f = eip1559_base_fee (unat p) (unat u) (unat b)) \<and>
    (unat p < 2 ^ 61 \<and> 2 ^ 64 \<le> m \<longrightarrow> unat f \<noteq> eip1559_base_fee (unat p) (unat u) (unat b))"
proof -
  let ?t = "unat p div 2"
  let ?q = "fee_change ?t m" and ?r = "fee_change ?t (m mod 2 ^ 64)"
  obtain f where f: "calculate_base_fee_per_gas g p u b = (Ok (Some f) :: (u64 option, 'e) result)"
    "unat f = (if unat u = ?t then unat b else if ?t < unat u then (unat b + max ?r 1) mod 2 ^ 64 else unat b - ?r)"
    unfolding m_def by (rule calculate_base_fee_value [OF c])
  have e: "eip1559_base_fee (unat p) (unat u) (unat b) =
      (if unat u = ?t then unat b else if ?t < unat u then unat b + max ?q 1 else unat b - ?q)"
    by (simp add: eip1559_base_fee_change m_def Let_def)
  show ?thesis
  proof (intro exI conjI impI; (elim conjE)?)
    show "calculate_base_fee_per_gas g p u b = (Ok (Some f) :: (u64 option, 'e) result)" by (rule f(1))
  next
    assume "m < 2 ^ 64"
    then show "unat f = eip1559_base_fee (unat p) (unat u) (unat b)" using f(2) e fee by auto
  next
    assume small: "unat p < 2 ^ 61" and m: "2 ^ 64 \<le> m"
    have t: "0 < ?t" "?t \<le> 2 ^ 60" using check_gas_limit_target(2) [OF c] small by auto
    note w = fee_change_wraps [OF t m]
    have "m \<noteq> 0" using m by auto
    then have ut: "unat u \<noteq> ?t" by (auto simp: m_def gas_delta_def)
    show "unat f \<noteq> eip1559_base_fee (unat p) (unat u) (unat b)"
    proof (cases "?t < unat u")
      case True
      have lt: "unat b + max ?r 1 < unat b + max ?q 1" using w by simp
      have eq: "eip1559_base_fee (unat p) (unat u) (unat b) = unat b + max ?q 1" using True e ut by (simp only: if_True if_False)
      have "unat b + max ?r 1 < 2 ^ 64" using lt eq fee by linarith
      then have "unat f = unat b + max ?r 1" using True f(2) ut by simp
      then show ?thesis using lt eq by linarith
    next
      case False
      have "m \<le> unat b * ?t" using False by (simp add: m_def gas_delta_def)
      then have "?q \<le> unat b * ?t div ?t div 8" unfolding fee_change_def by (intro div_le_mono)
      also have "\<dots> \<le> unat b" using t(1) by simp
      finally have "unat b - ?q < unat b - ?r" using w by (intro diff_less_mono2) linarith+
      moreover have "unat f = unat b - ?r" "eip1559_base_fee (unat p) (unat u) (unat b) = unat b - ?q"
        using False f(2) e ut by (simp_all only: if_False)
      ultimately show ?thesis by linarith
    qed
  qed
qed

lemma eip1559_bounds:
  assumes "2 \<le> p" "u \<le> 2 * (p div 2)"
  shows "b - b div 8 \<le> eip1559_base_fee p u b" "eip1559_base_fee p u b \<le> b + max (b div 8) 1"
proof -
  have k: "b * k div (p div 2) div 8 \<le> b div 8" if "k \<le> p div 2" for k
    using that by (intro div_le_mono mult_div_le_fst)
  show "b - b div 8 \<le> eip1559_base_fee p u b"
    using k [of "p div 2 - u"] by (auto simp: eip1559_base_fee_def Let_def intro!: diff_le_mono2)
  show "eip1559_base_fee p u b \<le> b + max (b div 8) 1"
    using k [of "u - p div 2", OF le_diff_conv [THEN iffD2]] assms(2)
    by (auto simp: eip1559_base_fee_def Let_def mult_2 intro: le_trans max.cobounded1)
qed

section \<open>Accepted headers\<close>

lemma ensure_eq_Ok [simp]: "ensure b e = Ok x \<longleftrightarrow> b"
  by (simp add: ensure_def)

lemma validate_block_header_Ok:
  "validate_block_header keccak h p = Ok () \<longleftrightarrow>
     bh_gas_used h \<le> bh_gas_limit h \<and>
     calculate_base_fee_per_gas (bh_gas_limit h) (bh_gas_limit p) (bh_gas_used p)
       (unwrap_or (bh_base_fee_per_gas p) INITIAL_BASE_FEE) =
       (Ok (Some (unwrap_or (bh_base_fee_per_gas h) INITIAL_BASE_FEE)) ::
         (u64 option, invalid_block_header_error) result) \<and>
     bh_timestamp p < bh_timestamp h \<and> bh_number h = bh_number p + 1 \<and>
     length (bh_extra_data h) \<le> 32 \<and> bh_difficulty h = 0 \<and> bh_nonce h = 0 \<and>
     bh_ommers_hash h = DEFAULT_OMMERS_HASH \<and> bh_parent_hash h = compute_block_hash keccak p"
  by (auto simp: validate_block_header_def rbind_eq_Ok ok_or_eq_Ok)

lemma validate_block_header_no_Panic: "validate_block_header keccak h p \<noteq> Panic"
  by (auto simp: validate_block_header_def rbind_eq_Panic ok_or_no_Panic ensure_def
      calculate_base_fee_no_Panic)

section \<open>Roots commit to lists\<close>

lemma of_nat_u64_inject: "i < 2 ^ 64 \<Longrightarrow> j < 2 ^ 64 \<Longrightarrow> (of_nat i :: u64) = of_nat j \<longleftrightarrow> i = j"
  by (auto dest!: arg_cong [where f = unat] simp: unsigned_of_nat take_bit_nat_eq_self)

lemma index_key_inject:
  "i < 2 ^ 64 \<Longrightarrow> j < 2 ^ 64 \<Longrightarrow> encode_usize (of_nat i) = encode_usize (of_nat j) \<longleftrightarrow> i = j"
  using rlp_usize.enc_prefix_free [where x = "of_nat i" and y = "of_nat j" and r = "[]" and s = "[]"] of_nat_u64_inject by auto

lemma indexed_keys: "map fst (indexed enc xs) = map (\<lambda>i. encode_usize (of_nat i)) [0..<length xs]"
  by (simp add: indexed_def case_prod_beta comp_def enumerate_eq_zip)
    (simp add: map_map [symmetric, unfolded comp_def, of "\<lambda>i. encode_usize (of_nat i)" fst] del: map_map)

lemma indexed_distinct: "length xs \<le> 2 ^ 64 \<Longrightarrow> distinct (map fst (indexed enc xs))"
  by (auto simp: indexed_keys distinct_map inj_on_def index_key_inject)

lemma indexed_lookup:
  assumes "length xs \<le> 2 ^ 64" "i < 2 ^ 64"
  shows "map_of (rev (indexed enc xs)) (encode_usize (of_nat i)) =
    (if i < length xs then Some (enc (xs ! i)) else None)"
proof -
  have d: "distinct (map fst (rev (indexed enc xs)))"
    using indexed_distinct [OF assms(1), of enc] by (simp add: rev_map [symmetric])
  show ?thesis
  proof (cases "i < length xs")
    case True
    then have "(i, xs ! i) \<in> set (enumerate 0 xs)" by (simp add: in_set_enumerate_eq)
    then have "(encode_usize (of_nat i), enc (xs ! i)) \<in> set (rev (indexed enc xs))"
      by (force simp: indexed_def)
    then show ?thesis using True d by (simp add: map_of_is_SomeI)
  next
    case False
    have "encode_usize (of_nat i) \<notin> set (map fst (indexed enc xs))"
      using assms False by (auto simp: indexed_keys index_key_inject)
    then show ?thesis using False by (simp add: map_of_eq_None_iff)
  qed
qed

lemma indexed_map_inject:
  assumes "length xs < 2 ^ 64" "length ys < 2 ^ 64"
  shows "map_of (rev (indexed enc xs)) = map_of (rev (indexed enc ys)) \<longleftrightarrow> map enc xs = map enc ys"
proof
  assume e: "map_of (rev (indexed enc xs)) = map_of (rev (indexed enc ys))"
  have l: "(if i < length xs then Some (enc (xs ! i)) else None) =
      (if i < length ys then Some (enc (ys ! i)) else None)" if "i < 2 ^ 64" for i
    using that assms indexed_lookup [of xs i enc] indexed_lookup [of ys i enc] e by simp
  have "length xs = length ys"
    using l [of "length xs"] l [of "length ys"] assms by (metis linorder_neqE_nat option.distinct(1) order_less_irrefl)
  moreover have "enc (xs ! i) = enc (ys ! i)" if "i < length xs" for i
    using l [of i] that assms calculation by (simp split: if_splits)
  ultimately show "map enc xs = map enc ys" by (simp add: list_eq_iff_nth_eq)
next
  assume "map enc xs = map enc ys"
  moreover have "indexed enc zs = zip (map (\<lambda>i. encode_usize (of_nat i)) [0..<length zs]) (map enc zs)" for zs
    by (rule nth_equalityI) (simp_all add: indexed_def nth_enumerate_eq)
  ultimately show "map_of (rev (indexed enc xs)) = map_of (rev (indexed enc ys))"
    by (metis length_map)
qed

definition list_inputs :: "(bytes \<Rightarrow> bytes) \<Rightarrow> ('a \<Rightarrow> bytes) \<Rightarrow> 'a list \<Rightarrow> bytes set" where
  "list_inputs k enc xs = run_inputs k (map (\<lambda>(p, v). OpInsert p v) (indexed enc xs))"

lemma length_encode_usize: "length (encode_usize n) \<le> 9"
  using length_encode_uint [of n] by (simp add: encode_usize_def)

lemma indexed_ok:
  assumes "\<forall>x \<in> set xs. enc x \<noteq> [] \<and> length (enc x) < 2 ^ 59" "20 \<le> fuel"
  shows "\<forall>(p, v) \<in> set (indexed enc xs). op_ok fuel (OpInsert p v)"
proof -
  have "length (encode_usize n) < 2 ^ 57 \<and> 2 * length (encode_usize n) + 1 < fuel" for n
    using length_encode_usize [of n] assms(2) by simp
  then show ?thesis
    using assms(1) by (fastforce simp: indexed_def in_set_enumerate_eq)
qed

lemma list_root_commits:
  assumes ok: "\<forall>x \<in> set xs \<union> set ys. enc x \<noteq> [] \<and> length (enc x) < 2 ^ 59" and f: "20 \<le> fuel"
    and len: "length xs < 2 ^ 64" "length ys < 2 ^ 64"
    and cr: "collision_resistant k (list_inputs k enc xs \<union> list_inputs k enc ys)"
    and inj: "inj_on enc (set xs \<union> set ys)"
  shows "(\<exists>h. compute_hash_from_unsorted_iter k fuel (indexed enc xs) = Ok h) \<and>
    (compute_hash_from_unsorted_iter k fuel (indexed enc xs) =
       compute_hash_from_unsorted_iter k fuel (indexed enc ys) \<longleftrightarrow> xs = ys)"
proof -
  have o: "\<forall>(p, v) \<in> set (indexed enc xs). op_ok fuel (OpInsert p v)"
    "\<forall>(p, v) \<in> set (indexed enc ys). op_ok fuel (OpInsert p v)"
    using ok f by (intro indexed_ok; simp)+
  obtain tr where tr: "insert_all k fuel (indexed enc xs) stateless = Ok tr"
    "represents k tr (abs_run None (map (\<lambda>(p, v). OpInsert p v) (indexed enc xs)))"
    "contents (abs_run None (map (\<lambda>(p, v). OpInsert p v) (indexed enc xs))) = map_of (rev (indexed enc xs))"
    using insert_all_represents [OF o(1) cr] by (auto simp: list_inputs_def)
  obtain tr' where tr': "insert_all k fuel (indexed enc ys) stateless = Ok tr'"
    "represents k tr' (abs_run None (map (\<lambda>(p, v). OpInsert p v) (indexed enc ys)))"
    "contents (abs_run None (map (\<lambda>(p, v). OpInsert p v) (indexed enc ys))) = map_of (rev (indexed enc ys))"
    using insert_all_represents [OF o(2) cr] by (auto simp: list_inputs_def)
  have "map enc xs = map enc ys \<longleftrightarrow> xs = ys" using inj by (rule inj_on_map_eq_map)
  then show ?thesis
    using hash_iff_contents [OF tr(2) tr'(2)] cr tr tr' indexed_map_inject [OF len, of enc]
    by (simp add: compute_hash_from_unsorted_iter_def list_inputs_def)
qed

section \<open>Sample blocks\<close>

definition sample_header :: block_header where
  "sample_header =
     \<lparr>bh_parent_hash = replicate 32 1, bh_ommers_hash = DEFAULT_OMMERS_HASH, bh_coinbase = replicate 20 2,
      bh_state_root = replicate 32 3, bh_transactions_root = replicate 32 4, bh_receipts_root = replicate 32 5,
      bh_logs_bloom = replicate 256 0, bh_difficulty = 0, bh_number = 8, bh_gas_limit = 30000000,
      bh_gas_used = 15000000, bh_timestamp = 100, bh_extra_data = [], bh_prev_randao = replicate 32 6,
      bh_nonce = 0, bh_base_fee_per_gas = Some 1000, bh_withdrawals_root = Some (replicate 32 7),
      bh_blob_gas_used = None, bh_excess_blob_gas = None, bh_parent_beacon_block_root = None\<rparr>"

definition sample_block :: block where
  "sample_block =
     \<lparr>b_header = sample_header,
      b_body = \<lparr>bb_transactions = [sample_legacy], bb_ommers = [],
        bb_withdrawals = Some [\<lparr>wd_index = 1, wd_validator_index = 2, wd_address = replicate 20 9,
          wd_amount = 3\<rparr>]\<rparr>\<rparr>"

definition short_block :: block where
  "short_block = sample_block\<lparr>b_body := (b_body sample_block)\<lparr>bb_transactions := [sample_1559 [7, 8]]\<rparr>\<rparr>"

definition sample_receipt :: receipt where
  "sample_receipt =
     \<lparr>rc_tx_type = EIP1559, rc_succeeded = True, rc_cumulative_gas_used = 21, rc_bloom = replicate 256 0,
      rc_logs = [\<lparr>log_address = replicate 20 1, log_topics = [replicate 32 2], log_data = [1, 2, 3]\<rparr>]\<rparr>"

lemma length_encode_bytes_le: "length (encode_bytes bs) \<le> length bs + 9"
  using sig_bytes_length [of 8 "length bs"]
  by (simp add: encode_bytes_def length_prefix_def Let_def)

lemma length_encode_length_le: "length (encode_length n) \<le> 9"
  using sig_bytes_length [of 8 n] by (simp add: encode_length_def length_prefix_def Let_def)

lemma length_encode_vec_le: "length (encode_vec enc xs) \<le> 9 + length (concat (map enc xs))"
  using length_encode_length_le by (simp add: encode_vec_alt)

lemma length_encoder_finish_bound: "e_buf e = [] \<Longrightarrow> length (encoder_finish e) \<le> 9 + length (temp_buf e)"
  using length_encode_length_le by (simp add: encoder_finish_def)

lemma length_optional_u64: "length (case o' of None \<Rightarrow> [] | Some x \<Rightarrow> encode_u64 x) \<le> 9"
  using length_encode_u64 by (simp split: option.split)

lemma length_optional_h256:
  "pred_option (\<lambda>r. length r = 32) o' \<Longrightarrow> length (case o' of None \<Rightarrow> [] | Some x \<Rightarrow> encode_h256 x) \<le> 33"
  by (auto simp: length_encode_fixed split: option.split)

lemma encode_block_header_bound:
  assumes "wf_block_header h"
  shows "length (encode_block_header h) \<le> 700 + length (bh_extra_data h)"
proof -
  have b: "length (encode_bloom (bh_logs_bloom h)) \<le> 265"
    using assms length_encode_bytes_le [of "bh_logs_bloom h"]
    by (simp add: encode_bloom_def wf_block_header_def)
  have n: "length (encode_array (to_be_bytes (bh_nonce h))) \<le> 17"
    using length_encode_bytes_le [of "to_be_bytes (bh_nonce h)"] by (simp add: encode_array_def)
  note lens = b n length_encode_bytes_le [of "bh_extra_data h"] length_encode_u256 [of "bh_difficulty h"] length_encode_u64 [of "bh_number h"]
    length_encode_u64 [of "bh_gas_limit h"] length_encode_u64 [of "bh_gas_used h"]
    length_encode_u64 [of "bh_timestamp h"] length_optional_u64 [of "bh_base_fee_per_gas h"]
    length_optional_u64 [of "bh_blob_gas_used h"] length_optional_u64 [of "bh_excess_blob_gas h"]
    length_optional_h256 [of "bh_withdrawals_root h"] length_optional_h256 [of "bh_parent_beacon_block_root h"]
  show ?thesis
    unfolding encode_block_header_def
    using lens assms
    by (intro order_trans [OF length_encoder_finish_bound]) (simp_all add: wf_block_header_def length_encode_fixed)
qed

lemma sample_header_fits: "fits_block_header sample_header"
proof -
  have "wf_block_header sample_header"
    by (simp add: wf_block_header_def sample_header_def DEFAULT_OMMERS_HASH_def)
  then show ?thesis
    using encode_block_header_bound [of sample_header]
    by (simp add: fits_block_header_def forks_in_order_def slice_bound_def)
      (simp add: sample_header_def)
qed

lemma sample_legacy_encoding:
  "encode_transaction sample_legacy = [0xc9, 7, 100, 99, 0x80, 0x80, 0x80, 0x80, 0x80, 0x80]"
  by (simp add: sample_legacy_def encode_transaction_def encode_legacy_def eval_encode RLP_NULL_def)

lemma sample_legacy_valid: "valid_transaction sample_legacy"
proof -
  have "encode_transaction sample_legacy = encode_canonical sample_legacy"
    by (simp add: sample_legacy_def encode_transaction_def)
  then have "length (encode_canonical sample_legacy) = 10"
    using arg_cong [OF sample_legacy_encoding, of length] by simp
  then show ?thesis
    by (simp add: valid_transaction_def long_envelope_def sample_legacy_encoding slice_bound_def)
      (simp add: sample_legacy_def fits_legacy_def slice_bound_def)
qed

lemma sample_header_length: "length (encode_block_header sample_header) \<le> 700"
  using encode_block_header_bound [of sample_header] sample_header_fits
  by (simp add: fits_block_header_def sample_header_def)

lemma sample_withdrawal_length:
  "length (encode_withdrawal \<lparr>wd_index = 1, wd_validator_index = 2, wd_address = replicate 20 9, wd_amount = 3\<rparr>) = 25"
  by (simp add: encode_withdrawal_def eval_encode)

lemma sample_block_fits: "fits_block sample_block"
proof -
  have "length (encode_block sample_block) \<le> 9 + (700 + 19 + 1 + 34)"
    unfolding encode_block_def
    using sample_header_length sample_withdrawal_length length_encode_vec_le [of encode_transaction "[sample_legacy]"]
      length_encode_vec_le [of encode_withdrawal "[\<lparr>wd_index = 1, wd_validator_index = 2,
        wd_address = replicate 20 9, wd_amount = 3\<rparr>]"]
    by (intro order_trans [OF length_encoder_finish_bound])
      (simp_all add: sample_block_def sample_legacy_encoding encode_vec_def [of encode_block_header])
  then show ?thesis
    using sample_header_fits sample_legacy_valid
    by (simp add: fits_block_def wf_block_body_def fits_withdrawal_def slice_bound_def)
      (simp add: sample_block_def)
qed

lemma short_block_length: "length (encode_block short_block) < slice_bound"
proof -
  have "encode_transaction (sample_1559 [7, 8]) = encode_bytes (encode_canonical (sample_1559 [7, 8]))"
    by (simp add: encode_transaction_def sample_1559_def)
  then have "length (encode_transaction (sample_1559 [7, 8])) \<le> 45"
    using length_encode_bytes_le [of "encode_canonical (sample_1559 [7, 8])"] by (simp add: sample_1559_length)
  then have "length (encode_block short_block) \<le> 9 + (700 + 54 + 1 + 34)"
    unfolding encode_block_def
    using sample_header_length sample_withdrawal_length length_encode_vec_le [of encode_transaction "[sample_1559 [7, 8]]"]
      length_encode_vec_le [of encode_withdrawal "[\<lparr>wd_index = 1, wd_validator_index = 2,
        wd_address = replicate 20 9, wd_amount = 3\<rparr>]"]
    by (intro order_trans [OF length_encoder_finish_bound])
      (simp_all add: short_block_def sample_block_def encode_vec_def [of encode_block_header])
  then show ?thesis by (simp add: slice_bound_def)
qed

lemma sample_receipt_fits: "fits_receipt sample_receipt"
proof -
  have "length (encode_log \<lparr>log_address = replicate 20 1, log_topics = [replicate 32 2], log_data = [1, 2, 3]\<rparr>) = 61"
    by (simp add: encode_log_def eval_encode encode_h256_def)
  then have "length (receipt_fields sample_receipt) \<le> 9 + (1 + 1 + 265 + 70)"
    unfolding receipt_fields_def encode_inner_def
    using length_encode_bytes_le [of "replicate 256 0"]
      length_encode_vec_le [of encode_log "rc_logs sample_receipt"]
    by (intro order_trans [OF length_encoder_finish_bound])
      (simp_all add: sample_receipt_def encode_bloom_def, simp add: eval_encode)
  moreover have "rc_tx_type sample_receipt = EIP1559" by (simp add: sample_receipt_def)
  ultimately have "length (encode_receipt sample_receipt) \<le> 9 + 1 + (9 + (1 + 1 + 265 + 70))"
    using length_encode_bytes_le [of "encode_inner sample_receipt"]
    by (simp add: encode_receipt_def encode_inner_fields)
  then show ?thesis
    by (simp add: fits_receipt_def wf_receipt_def wf_log_def slice_bound_def)
      (simp add: sample_receipt_def)
qed

lemma sample_legacy_canonical: "encode_canonical sample_legacy = encode_transaction sample_legacy"
  by (simp add: sample_legacy_def encode_transaction_def)

lemma tx_inputs_single:
  "list_inputs k encode_canonical [t] =
     {[RLP_NULL], encode_raw_node (node_of k (PLeaf (from_bytes [RLP_NULL]) (encode_canonical t)))}"
  by (simp add: list_inputs_def run_inputs_def indexed_def trace_nodes_def proot_insert_def subtries_def
      encode_usize_def encode_uint_def)

lemma tx_inputs_Nil: "list_inputs k encode_canonical [] = {[RLP_NULL]}"
  by (simp add: list_inputs_def run_inputs_def indexed_def trace_nodes_def)

lemma encode_canonical_nonempty: "encode_canonical t \<noteq> []"
  by (cases t) (simp_all add: encode_legacy_def encoder_finish_nonempty)

section \<open>Blocks that are read back\<close>

text \<open>
  A list in which some item is refused by its decoder, after items that are read back, is refused.
\<close>

context rlp_codec
begin

lemma decode_list_loop_fails:
  "\<lbrakk> \<forall>x \<in> set xs. enc x \<noteq> [] \<and> (valid x \<or> (\<forall>rest. \<exists>e. dec (enc x @ rest) = Err e)); \<exists>x \<in> set xs. \<not> valid x;
     length xs \<le> fuel \<rbrakk> \<Longrightarrow> \<exists>e. decode_list_loop fuel dec (concat (map enc xs)) = Err e"
proof (induction xs arbitrary: fuel)
  case (Cons x xs)
  then obtain k where k: "fuel = Suc k" "length xs \<le> k" by (cases fuel) auto
  let ?r = "concat (map enc xs)"
  show ?case
  proof (cases "valid x")
    case True
    then have "\<exists>e. decode_list_loop k dec ?r = Err e" using Cons.prems k(2) by (intro Cons.IH) auto
    then obtain e where "decode_list_loop k dec ?r = Err e" by blast
    then show ?thesis using Cons.prems(1) round_trip [OF True, of ?r] k by simp
  next
    case False
    then obtain e where "dec (enc x @ ?r) = Err e" using Cons.prems(1) by (meson list.set_intros(1))
    then show ?thesis using Cons.prems(1) k by simp
  qed
qed simp

lemma length_concat_nonempty: "\<forall>x \<in> set xs. enc x \<noteq> [] \<Longrightarrow> length xs \<le> length (concat (map enc xs))"
proof (induction xs)
  case (Cons x xs)
  then have "Suc 0 \<le> length (enc x)" by (simp add: Suc_le_eq)
  moreover have "length xs \<le> length (concat (map enc xs))" using Cons by simp
  ultimately show ?case by simp
qed simp

lemma decode_vec_fails:
  assumes ok: "\<forall>x \<in> set xs. enc x \<noteq> [] \<and> (valid x \<or> (\<forall>rest. \<exists>e. dec (enc x @ rest) = Err e))"
    and bad: "\<exists>x \<in> set xs. \<not> valid x" and lt: "length (concat (map enc xs)) < slice_bound"
  shows "\<exists>e. decode_vec dec (encode_vec enc xs @ rest) = Err e"
proof -
  let ?p = "concat (map enc xs)"
  have "?p \<noteq> []" using ok bad by auto
  then have hd: "hd (encode_length (length ?p) @ ?p @ rest) \<noteq> RLP_EMPTY_LIST" by (rule encode_length_hd)
  obtain e where "decode_list_loop (length ?p) dec ?p = Err e"
    using decode_list_loop_fails [OF ok bad length_concat_nonempty] ok by blast
  moreover have "encode_length (length ?p) \<noteq> []" by (simp add: encode_length_def length_prefix_def Let_def)
  ultimately show ?thesis
    using decode_rlp_item_encode_length(1) [OF lt, of rest] hd by (simp add: encode_vec_alt decode_vec_def)
qed

end

lemma encode_transaction_nonempty: "encode_transaction t \<noteq> []"
  by (cases t) (simp_all add: encode_transaction_def encode_legacy_def encoder_finish_nonempty encode_bytes_def
      length_prefix_def Let_def)

lemma length_in_concat: "x \<in> set xs \<Longrightarrow> length (f x) \<le> length (concat (map f xs))"
  by (induction xs) auto

lemma length_concat_encode_vec: "length (concat (map enc xs)) \<le> length (encode_vec enc xs)"
  by (simp add: encode_vec_alt)

lemma encode_block_parts:
  "length (encode_block_header (b_header b)) \<le> length (encode_block b)"
  "length (encode_vec encode_transaction (bb_transactions (b_body b))) \<le> length (encode_block b)"
  "length (encode_vec encode_block_header (bb_ommers (b_body b))) \<le> length (encode_block b)"
  by (simp_all add: encode_block_def encoder_finish_def)

lemma encode_block_items:
  "t \<in> set (bb_transactions (b_body b)) \<Longrightarrow> length (encode_transaction t) \<le> length (encode_block b)"
  "h \<in> set (bb_ommers (b_body b)) \<Longrightarrow> length (encode_block_header h) \<le> length (encode_block b)"
  using encode_block_parts(2,3) [of b] length_concat_encode_vec length_in_concat by (meson order_trans)+

lemma decode_block_short:
  assumes h: "fits_block_header (b_header b)" and size: "length (encode_block b) < slice_bound"
    and ok: "\<forall>t \<in> set (bb_transactions (b_body b)). fits_transaction t"
    and short: "\<exists>t \<in> set (bb_transactions (b_body b)). \<not> long_envelope t"
  shows "\<exists>e. decode_block (encode_block b @ rest) = Err e"
proof -
  let ?ts = "bb_transactions (b_body b)"
  have v: "valid_transaction t \<longleftrightarrow> long_envelope t" if "t \<in> set ?ts" for t
    using ok size encode_block_items(1) [OF that] that by (auto simp: valid_transaction_def)
  have f: "\<exists>e. decode_vec decode_transaction (encode_vec encode_transaction ?ts @ p) = Err e" for p
  proof (rule rlp_transaction.decode_vec_fails)
    show "\<forall>t \<in> set ?ts. encode_transaction t \<noteq> [] \<and>
        (valid_transaction t \<or> (\<forall>rest. \<exists>e. decode_transaction (encode_transaction t @ rest) = Err e))"
      using v encode_transaction_nonempty decode_transaction_short by (auto simp: long_envelope_def not_le)
    show "length (concat (map encode_transaction ?ts)) < slice_bound"
      using size encode_block_parts(2) [of b] length_concat_encode_vec [of encode_transaction ?ts] by linarith
  qed (use short v in blast)
  define e where "e = encoder_steps (encoder_new [])
      [encode_field encode_block_header (b_header b), encode_field (encode_vec encode_transaction) ?ts,
       encode_field (encode_vec encode_block_header) (bb_ommers (b_body b)),
       encode_optional_field (encode_vec encode_withdrawal) (bb_withdrawals (b_body b))]"
  have d: "decoder_new (encode_block b @ rest) = Ok \<lparr>d_payload = temp_buf e, d_remaining = rest\<rparr>"
    using size unfolding encode_block_def e_def [symmetric]
    by (intro decoder_new_finish) (simp_all add: encoder_finish_def e_def)
  obtain q where q: "temp_buf e = encode_block_header (b_header b) @ encode_vec encode_transaction ?ts @ q"
    by (simp add: e_def)
  obtain x where "decode_vec decode_transaction (encode_vec encode_transaction ?ts @ q) = Err x" using f by blast
  then show ?thesis
    using d q rlp_block_header.decode_field_enc [OF h] by (simp add: decode_block_def) (simp add: decode_field_def)
qed

section \<open>Properties of blocks\<close>

text \<open>
  C8: the transactions root of a header commits to the transactions: it is computed without error,
  and two lists of transactions have the same root exactly if they are the same list.
\<close>

theorem transactions_root_commits:
  assumes "\<forall>t \<in> set xs \<union> set ys. fits_transaction t \<and> length (encode_canonical t) < 2 ^ 59"
    and "length xs < 2 ^ 64" "length ys < 2 ^ 64" "20 \<le> fuel"
    and "collision_resistant k (list_inputs k encode_canonical xs \<union> list_inputs k encode_canonical ys)"
  shows "(\<exists>h. compute_transactions_root k fuel xs = Ok h) \<and>
    (compute_transactions_root k fuel xs = compute_transactions_root k fuel ys \<longleftrightarrow> xs = ys)"
proof -
  have "inj_on encode_canonical (set xs \<union> set ys)"
    using assms(1) by (auto intro!: inj_onI encode_canonical_inject)
  moreover have "\<forall>t \<in> set xs \<union> set ys. encode_canonical t \<noteq> [] \<and> length (encode_canonical t) < 2 ^ 59"
    using assms(1) encode_canonical_nonempty by blast
  ultimately show ?thesis
    unfolding compute_transactions_root_def using list_root_commits assms(2-5) by blast
qed

theorem transactions_root_commits_witness:
  "(\<exists>h. compute_transactions_root pad_hash 20 [sample_legacy] = Ok h) \<and>
    (compute_transactions_root pad_hash 20 [sample_legacy] = compute_transactions_root pad_hash 20 [] \<longleftrightarrow>
     [sample_legacy] = [])"
proof (rule transactions_root_commits)
  have "length (encode_raw_node (node_of pad_hash (PLeaf (from_bytes [RLP_NULL])
      [0xc9, 7, 100, 99, 0x80, 0x80, 0x80, 0x80, 0x80, 0x80]))) \<le> 31"
    by code_simp
  then show "collision_resistant pad_hash (list_inputs pad_hash encode_canonical [sample_legacy] \<union>
      list_inputs pad_hash encode_canonical [])"
    by (intro collision_resistant_pad)
      (simp add: tx_inputs_single tx_inputs_Nil sample_legacy_canonical sample_legacy_encoding)
qed (use sample_legacy_valid in \<open>simp_all add: valid_transaction_def sample_legacy_canonical
    sample_legacy_encoding\<close>)

text \<open>
  C23: which blocks and receipts are read back from their encodings, in front of any further input.
  Let the header and the ommers have hashes, addresses and blooms of their lengths and optional
  fields in the order of the forks (none present after an absent one), let every transaction fit its
  type and every withdrawal name a 20-byte address, and let the encoding be one an allocator can
  serve. Then the header is read back, and the block is read back if every transaction is a legacy
  transaction or has a canonical form of at least 56 bytes; with a shorter typed transaction the
  block is refused. A receipt with a 256-byte bloom and well-formed logs is read back, also from the
  form that is hashed.
\<close>

theorem block_and_receipt_round_trip:
  assumes "\<forall>h \<in> insert (b_header b) (set (bb_ommers (b_body b))). wf_block_header h \<and> forks_in_order h"
    and "\<forall>t \<in> set (bb_transactions (b_body b)). fits_transaction t"
    and "pred_option (\<lambda>ws. \<forall>w \<in> set ws. length (wd_address w) = 20) (bb_withdrawals (b_body b))"
    and "length (encode_block b) < slice_bound"
    and "wf_receipt r" "length (encode_receipt r) < slice_bound"
  shows "(if \<forall>t \<in> set (bb_transactions (b_body b)). tx_type_of t = Legacy \<or> 56 \<le> length (encode_canonical t)
     then decode_block (encode_block b @ rest) = Ok (b, rest)
     else \<exists>e. decode_block (encode_block b @ rest) = Err e) \<and>
    decode_block_header (encode_block_header (b_header b) @ rest) = Ok (b_header b, rest) \<and>
    decode_receipt (encode_receipt r @ rest) = Ok (r, rest) \<and> decode_inner (encode_inner r) = Ok r"
proof -
  have h: "fits_block_header (b_header b)" "\<forall>h \<in> set (bb_ommers (b_body b)). fits_block_header h"
    using assms(1,4) encode_block_parts(1) [of b] encode_block_items(2) [of _ b]
    by (auto simp: fits_block_header_def intro: le_less_trans)
  have r: "fits_receipt r" using assms(5,6) by (simp add: fits_receipt_def)
  have "decode_block (encode_block b @ rest) = Ok (b, rest)"
    if "\<forall>t \<in> set (bb_transactions (b_body b)). long_envelope t"
  proof (rule decode_block_round_trip)
    have "\<forall>t \<in> set (bb_transactions (b_body b)). valid_transaction t"
      using that assms(2,4) encode_block_items(1) [of _ b] by (auto simp: valid_transaction_def intro: le_less_trans)
    then show "fits_block b" using h assms(3,4) by (simp add: fits_block_def wf_block_body_def fits_withdrawal_def)
  qed
  moreover have "\<exists>e. decode_block (encode_block b @ rest) = Err e"
    if "\<not> (\<forall>t \<in> set (bb_transactions (b_body b)). long_envelope t)"
    using that by (intro decode_block_short [OF h(1) assms(4,2)]) simp
  ultimately show ?thesis
    using decode_block_header_round_trip [OF h(1)] decode_receipt_round_trip [OF r] decode_inner_round_trip [OF r]
    unfolding long_envelope_def by simp
qed

theorem block_and_receipt_round_trip_witness:
  "(decode_block (encode_block sample_block @ [5]) = Ok (sample_block, [5]) \<and>
    decode_block_header (encode_block_header (b_header sample_block) @ [5]) = Ok (b_header sample_block, [5]) \<and>
    decode_receipt (encode_receipt sample_receipt @ [5]) = Ok (sample_receipt, [5]) \<and>
    decode_inner (encode_inner sample_receipt) = Ok sample_receipt) \<and>
   (\<exists>e. decode_block (encode_block short_block @ [5]) = Err e)"
proof -
  have t: "tx_type_of sample_legacy = Legacy" "tx_type_of (sample_1559 [7, 8]) = EIP1559"
    by (simp_all add: sample_legacy_def sample_1559_def)
  have r: "wf_receipt sample_receipt" "length (encode_receipt sample_receipt) < slice_bound"
    using sample_receipt_fits by (simp_all add: fits_receipt_def)
  have h: "wf_block_header sample_header" "forks_in_order sample_header"
    using sample_header_fits by (simp_all add: fits_block_header_def)
  have "b_header short_block = sample_header" "bb_ommers (b_body short_block) = []"
    "bb_transactions (b_body short_block) = [sample_1559 [7, 8]]"
    "pred_option (\<lambda>ws. \<forall>w \<in> set ws. length (wd_address w) = 20) (bb_withdrawals (b_body short_block))"
    by (simp_all add: short_block_def sample_block_def)
  then have "\<exists>e. decode_block (encode_block short_block @ [5]) = Err e"
    using block_and_receipt_round_trip [of short_block sample_receipt "[5]"] h r t short_block_length
    by (simp add: sample_1559_fits sample_1559_length)
  moreover have "b_header sample_block = sample_header" "bb_ommers (b_body sample_block) = []"
    "bb_transactions (b_body sample_block) = [sample_legacy]"
    "pred_option (\<lambda>ws. \<forall>w \<in> set ws. length (wd_address w) = 20) (bb_withdrawals (b_body sample_block))"
    by (simp_all add: sample_block_def)
  moreover have "length (encode_block sample_block) < slice_bound" "fits_transaction sample_legacy"
    using sample_block_fits sample_legacy_valid by (simp_all add: fits_block_def valid_transaction_def)
  ultimately show ?thesis
    using block_and_receipt_round_trip [of sample_block sample_receipt "[5]"] h r t by simp
qed

text \<open>
  C9: header validation never panics, and an accepted header is a proper successor: it names its
  parent's hash, has the next number (a \<^verbatim>\<open>u64\<close> sum) and a later timestamp, moves the gas limit by
  less than a 1024th, keeps the gas used within it, has at most 32 bytes of extra data and the
  constant fields of a block after the merge. It carries the base fee EIP-1559 prescribes, if that
  fee and the product of the parent's base fee and the distance of its gas used from the target are
  below \<open>2 ^ 64\<close>; the fee then differs from the parent's by at most an eighth (or one wei up), if
  the parent used at most twice the target.
\<close>

theorem accepted_header_is_successor:
  assumes "validate_block_header k h p = Ok ()"
  shows "bh_parent_hash h = compute_block_hash k p \<and> bh_number h = bh_number p + 1 \<and>
    bh_timestamp p < bh_timestamp h \<and> bh_gas_used h \<le> bh_gas_limit h \<and>
    unat (bh_gas_limit p) - unat (bh_gas_limit p) div 1024 < unat (bh_gas_limit h) \<and>
    unat (bh_gas_limit h) < unat (bh_gas_limit p) + unat (bh_gas_limit p) div 1024 \<and>
    length (bh_extra_data h) \<le> 32 \<and> bh_difficulty h = 0 \<and> bh_nonce h = 0 \<and> bh_ommers_hash h = DEFAULT_OMMERS_HASH \<and>
    (let b = unat (unwrap_or (bh_base_fee_per_gas p) INITIAL_BASE_FEE);
         f = unat (unwrap_or (bh_base_fee_per_gas h) INITIAL_BASE_FEE);
         target = unat (bh_gas_limit p) div 2;
         eip = eip1559_base_fee (unat (bh_gas_limit p)) (unat (bh_gas_used p)) b
     in eip < 2 ^ 64 \<and> b * gas_delta target (unat (bh_gas_used p)) < 2 ^ 64 \<longrightarrow>
          f = eip \<and> (unat (bh_gas_used p) \<le> 2 * target \<longrightarrow> b - b div 8 \<le> f \<and> f \<le> b + max (b div 8) 1)) \<and>
    (\<forall>h' p'. validate_block_header k h' p' \<noteq> Panic)"
proof -
  let ?b = "unwrap_or (bh_base_fee_per_gas p) INITIAL_BASE_FEE"
  let ?f = "unwrap_or (bh_base_fee_per_gas h) INITIAL_BASE_FEE"
  let ?eip = "eip1559_base_fee (unat (bh_gas_limit p)) (unat (bh_gas_used p)) (unat ?b)"
  note ok = assms(1) [unfolded validate_block_header_Ok]
  have base: "calculate_base_fee_per_gas (bh_gas_limit h) (bh_gas_limit p) (bh_gas_used p) ?b =
      (Ok (Some ?f) :: (u64 option, invalid_block_header_error) result)" using ok by blast
  then have c: "check_gas_limit (bh_gas_limit h) (bh_gas_limit p)"
    by (auto simp: calculate_base_fee_per_gas_def split: if_splits)
  have "unat ?f = ?eip"
    if "?eip < 2 ^ 64" "unat ?b * gas_delta (unat (bh_gas_limit p) div 2) (unat (bh_gas_used p)) < 2 ^ 64"
  proof -
    show ?thesis using calculate_base_fee_iff [OF c that(1), where 'e = invalid_block_header_error] that(2) base by auto
  qed
  moreover note eip1559_bounds [OF check_gas_limit_target(2) [OF c], of "unat (bh_gas_used p)" "unat ?b"]
  ultimately show ?thesis
    using ok check_gas_limit_bounds [OF c] validate_block_header_no_Panic unfolding Let_def by auto
qed

definition sample_child :: block_header where
  "sample_child = sample_header\<lparr>bh_parent_hash := compute_block_hash pad_hash sample_header,
     bh_number := 9, bh_timestamp := 112\<rparr>"

lemma sample_child_valid: "validate_block_header pad_hash sample_child sample_header = Ok ()"
  unfolding validate_block_header_Ok
  by (simp add: sample_child_def sample_header_def unwrap_or_def calculate_base_fee_per_gas_def Let_def
      check_gas_limit_def rule_constants)

theorem accepted_header_is_successor_witness:
  "bh_parent_hash sample_child = compute_block_hash pad_hash sample_header \<and>
   bh_number sample_child = bh_number sample_header + 1 \<and>
   unat (unwrap_or (bh_base_fee_per_gas sample_child) INITIAL_BASE_FEE) = eip1559_base_fee 30000000 15000000 1000"
  using accepted_header_is_successor [OF sample_child_valid]
  by (simp add: Let_def) (simp add: sample_header_def sample_child_def unwrap_or_def eip1559_base_fee_def gas_delta_def)

text \<open>
  C39: the base fee computation multiplies before it divides, in 64 bits. For a parent gas limit
  below \<open>2 ^ 61\<close> and a fee that fits a \<^verbatim>\<open>u64\<close>, the computed base fee is the one EIP-1559
  prescribes exactly if the parent's base fee times the distance of its gas used from the target is
  below \<open>2 ^ 64\<close>.
\<close>

theorem base_fee_exact_iff_product_fits:
  assumes "check_gas_limit g p" "unat p < 2 ^ 61" "eip1559_base_fee (unat p) (unat u) (unat b) < 2 ^ 64"
  shows "\<exists>f. calculate_base_fee_per_gas g p u b = (Ok (Some f) :: (u64 option, 'e) result) \<and>
    (unat f = eip1559_base_fee (unat p) (unat u) (unat b) \<longleftrightarrow>
       unat b * gas_delta (unat p div 2) (unat u) < 2 ^ 64)"
proof -
  let ?m = "unat b * gas_delta (unat p div 2) (unat u)"
  obtain f where f: "calculate_base_fee_per_gas g p u b = (Ok (Some f) :: (u64 option, 'e) result)"
    "?m < 2 ^ 64 \<longrightarrow> unat f = eip1559_base_fee (unat p) (unat u) (unat b)"
    "unat p < 2 ^ 61 \<and> 2 ^ 64 \<le> ?m \<longrightarrow> unat f \<noteq> eip1559_base_fee (unat p) (unat u) (unat b)"
    using calculate_base_fee_iff [OF assms(1,3)] by blast
  have "unat f = eip1559_base_fee (unat p) (unat u) (unat b) \<longleftrightarrow> ?m < 2 ^ 64"
    using f(2,3) assms(2) by (cases "?m < 2 ^ 64") auto
  with f(1) show ?thesis by blast
qed

text \<open>
  After a full block of 30 million gas at a base fee of 2000 gwei the product wraps; at 1000 gwei it fits.
\<close>

theorem base_fee_exact_iff_product_fits_witness:
  "(\<exists>f. calculate_base_fee_per_gas 30000000 30000000 30000000 2000000000000 = Ok (Some f) \<and> unat f \<noteq> 2250000000000) \<and>
   (\<exists>f. calculate_base_fee_per_gas 30000000 30000000 30000000 1000000000000 = Ok (Some f) \<and> unat f = 1125000000000)"
proof -
  have c: "check_gas_limit 30000000 30000000" by (simp add: check_gas_limit_def Let_def rule_constants)
  have e: "eip1559_base_fee 30000000 30000000 2000000000000 = 2250000000000"
    "eip1559_base_fee 30000000 30000000 1000000000000 = 1125000000000" by (simp_all add: eip1559_base_fee_def)
  show ?thesis
    using base_fee_exact_iff_product_fits [OF c, of 30000000 2000000000000] base_fee_exact_iff_product_fits [OF c, of 30000000 1000000000000]
    by (simp add: e gas_delta_def)
qed

end
