(* ===== verification/Blobs.thy ===== *)
theory Blobs
  imports Block_Codec
begin

text \<open>
  Blobs and their bundles, \<^verbatim>\<open>crates/common/types/blobs_bundle.rs\<close>. The KZG library is a
  parameter: a record of the three calls of \<^verbatim>\<open>c_kzg\<close> the code makes, \<open>None\<close> standing for an
  error of the library; SHA-256 is a function argument. Data packed into a blob is read back, and
  a bundle made from blobs is accepted for the transaction that names its hashes.
\<close>

section \<open>Blobs\<close>

definition BYTES_PER_FIELD_ELEMENT :: nat where "BYTES_PER_FIELD_ELEMENT = 32"
definition FIELD_ELEMENTS_PER_BLOB :: nat where "FIELD_ELEMENTS_PER_BLOB = 4096"
definition BYTES_PER_BLOB :: nat where
  "BYTES_PER_BLOB = BYTES_PER_FIELD_ELEMENT * FIELD_ELEMENTS_PER_BLOB"
definition VERSIONED_HASH_VERSION_KZG :: u8 where "VERSIONED_HASH_VERSION_KZG = 1"

record blobs_bundle =
  bu_blobs :: "bytes list"
  bu_commitments :: "bytes list"
  bu_proofs :: "bytes list"

datatype blobs_bundle_error =
  BlobDataInvalidBytesLength
| BlobBundleEmptyError
| BlobsBundleWrongLen
| BlobVersionedHashesError
| BlobToCommitmentAndProofError

record kzg =
  blob_to_kzg_commitment :: "bytes \<Rightarrow> bytes option"
  compute_blob_kzg_proof :: "bytes \<Rightarrow> bytes \<Rightarrow> bytes option"
  verify_blob_proof :: "bytes \<Rightarrow> bytes \<Rightarrow> bytes \<Rightarrow> bool option"

function chunks :: "nat \<Rightarrow> 'a list \<Rightarrow> 'a list list" where
  "chunks n xs = (if n = 0 \<or> xs = [] then [] else take n xs # chunks n (drop n xs))"
  by pat_completeness auto
termination by (relation "measure (\<lambda>(n, xs). length xs)") auto

declare chunks.simps [simp del]

definition div_ceil :: "nat \<Rightarrow> nat \<Rightarrow> nat" where
  "div_ceil a b = (if a mod b = 0 then a div b else a div b + 1)"

text \<open>\<open>buf[..n].copy_from_slice(src)\<close>: both the slice and the copy check lengths.\<close>

definition copy_front :: "'a list \<Rightarrow> nat \<Rightarrow> 'a list \<Rightarrow> ('a list, 'e) result" where
  "copy_front buf n src =
     (if n \<le> length buf \<and> length src = n then Ok (src @ drop n buf) else Panic)"

definition blob_from_bytes :: "bytes \<Rightarrow> (bytes, blobs_bundle_error) result" where
  "blob_from_bytes bs =
     (if length bs > BYTES_PER_BLOB * 31 div 32 then Err BlobDataInvalidBytesLength
      else copy_front (replicate BYTES_PER_BLOB 0) (div_ceil (length bs * 32) 31)
             (concat (map (\<lambda>x. 0 # x) (chunks 31 bs))))"

definition kzg_commitment_to_versioned_hash :: "(bytes \<Rightarrow> bytes) \<Rightarrow> bytes \<Rightarrow> bytes" where
  "kzg_commitment_to_versioned_hash sha256 dat = (sha256 dat)[0 := VERSIONED_HASH_VERSION_KZG]"

section \<open>Bundles\<close>

definition blob_to_kzg_commitment_and_proof ::
  "kzg \<Rightarrow> bytes \<Rightarrow> (bytes \<times> bytes, blobs_bundle_error) result" where
  "blob_to_kzg_commitment_and_proof kz blob =
     (rbind (ok_or (blob_to_kzg_commitment kz blob) BlobToCommitmentAndProofError) (\<lambda>commitment.
     rbind (ok_or (compute_blob_kzg_proof kz blob commitment) BlobToCommitmentAndProofError) (\<lambda>proof_bytes.
     Ok (commitment, proof_bytes))))"

definition verify_blob_kzg_proof ::
  "kzg \<Rightarrow> bytes \<Rightarrow> bytes \<Rightarrow> bytes \<Rightarrow> (bool, blobs_bundle_error) result" where
  "verify_blob_kzg_proof kz blob commitment proof_bytes =
     ok_or (verify_blob_proof kz blob commitment proof_bytes) BlobToCommitmentAndProofError"

definition blobs_bundle_empty :: blobs_bundle where
  "blobs_bundle_empty = \<lparr>bu_blobs = [], bu_commitments = [], bu_proofs = []\<rparr>"

primrec commit_blobs ::
  "kzg \<Rightarrow> bytes list \<Rightarrow> bytes list \<Rightarrow> bytes list \<Rightarrow>
     (bytes list \<times> bytes list, blobs_bundle_error) result" where
  "commit_blobs kz [] commitments proofs = Ok (commitments, proofs)"
| "commit_blobs kz (blob # blobs) commitments proofs =
     (rbind (blob_to_kzg_commitment_and_proof kz blob) (\<lambda>(commitment, proof_bytes).
     commit_blobs kz blobs (commitments @ [commitment]) (proofs @ [proof_bytes])))"

definition create_from_blobs :: "kzg \<Rightarrow> bytes list \<Rightarrow> (blobs_bundle, blobs_bundle_error) result" where
  "create_from_blobs kz blobs =
     (rbind (commit_blobs kz blobs [] []) (\<lambda>(commitments, proofs).
     Ok \<lparr>bu_blobs = blobs, bu_commitments = commitments, bu_proofs = proofs\<rparr>))"

definition generate_versioned_hashes :: "(bytes \<Rightarrow> bytes) \<Rightarrow> blobs_bundle \<Rightarrow> bytes list" where
  "generate_versioned_hashes sha256 bu = map (kzg_commitment_to_versioned_hash sha256) (bu_commitments bu)"

fun check_versioned_hashes ::
  "(bytes \<Rightarrow> bytes) \<Rightarrow> (bytes \<times> bytes) list \<Rightarrow> (unit, blobs_bundle_error) result" where
  "check_versioned_hashes sha256 [] = Ok ()"
| "check_versioned_hashes sha256 ((commitment, h) # rest) =
     (if h \<noteq> kzg_commitment_to_versioned_hash sha256 commitment then Err BlobVersionedHashesError
      else check_versioned_hashes sha256 rest)"

fun check_proofs :: "kzg \<Rightarrow> ((bytes \<times> bytes) \<times> bytes) list \<Rightarrow> (unit, blobs_bundle_error) result" where
  "check_proofs kz [] = Ok ()"
| "check_proofs kz (((blob, commitment), proof_bytes) # rest) =
     (rbind (verify_blob_kzg_proof kz blob commitment proof_bytes) (\<lambda>valid.
     if \<not> valid then Err BlobToCommitmentAndProofError else check_proofs kz rest))"

definition validate_blobs_bundle ::
  "kzg \<Rightarrow> (bytes \<Rightarrow> bytes) \<Rightarrow> blobs_bundle \<Rightarrow> eip4844_transaction \<Rightarrow> (unit, blobs_bundle_error) result"
where
  "validate_blobs_bundle kz sha256 self tx =
     (let blob_count = length (bu_blobs self) in
      if blob_count = 0 then Err BlobBundleEmptyError
      else if blob_count \<noteq> length (bu_commitments self) \<or> blob_count \<noteq> length (bu_proofs self) \<or>
              blob_count \<noteq> length (bl_blob_versioned_hashes tx)
      then Err BlobsBundleWrongLen
      else (rbind (check_versioned_hashes sha256 (zip (bu_commitments self) (bl_blob_versioned_hashes tx))) (\<lambda>_.
           check_proofs kz (zip (zip (bu_blobs self) (bu_commitments self)) (bu_proofs self)))))"

definition encode_blobs_bundle :: "blobs_bundle \<Rightarrow> bytes" where
  "encode_blobs_bundle x =
     encoder_finish (encoder_steps (encoder_new [])
       [encode_field (encode_vec encode_array) (bu_blobs x),
        encode_field (encode_vec encode_array) (bu_commitments x),
        encode_field (encode_vec encode_array) (bu_proofs x)])"

definition decode_blobs_bundle :: "blobs_bundle decoder_fun" where
  "decode_blobs_bundle rlp =
     (rbind (decoder_new rlp) (\<lambda>d.
     rbind (decode_field ''Vec<Blob>'' ''blobs'' (decode_vec (decode_array BYTES_PER_BLOB)) d) (\<lambda>(blobs, d).
     rbind (decode_field ''Vec<Commitment>'' ''commitments'' (decode_vec (decode_array 48)) d) (\<lambda>(commitments, d).
     rbind (decode_field ''Vec<Proof>'' ''proofs'' (decode_vec (decode_array 48)) d) (\<lambda>(proofs, d).
     rbind (decoder_finish d) (\<lambda>rest.
     Ok (\<lparr>bu_blobs = blobs, bu_commitments = commitments, bu_proofs = proofs\<rparr>, rest)))))))"

definition add_assign_blobs_bundle :: "blobs_bundle \<Rightarrow> blobs_bundle \<Rightarrow> blobs_bundle" where
  "add_assign_blobs_bundle self rhs =
     \<lparr>bu_blobs = bu_blobs self @ bu_blobs rhs, bu_commitments = bu_commitments self @ bu_commitments rhs,
      bu_proofs = bu_proofs self @ bu_proofs rhs\<rparr>"

section \<open>Packing\<close>

lemma chunks_Nil [simp]: "chunks n [] = []"
  by (simp add: chunks.simps)

lemma chunks_step: "0 < n \<Longrightarrow> xs \<noteq> [] \<Longrightarrow> chunks n xs = take n xs # chunks n (drop n xs)"
  by (simp add: chunks.simps)

lemma chunks_append:
  "0 < n \<Longrightarrow> length xs = n \<Longrightarrow> chunks n (xs @ ys) = xs # chunks n ys"
  by (subst chunks_step) auto

lemma concat_chunks: "0 < n \<Longrightarrow> concat (chunks n xs) = xs"
  by (induction n xs rule: chunks.induct) (subst chunks.simps, auto)

definition field_elements :: "bytes \<Rightarrow> bytes list" where
  "field_elements bs = map (\<lambda>x. 0 # x) (chunks 31 bs)"

lemma div_ceil_31: "div_ceil a 31 = (a + 30) div 31"
proof -
  have "a = 31 * (a div 31) + a mod 31" by simp
  moreover have "(31 * q + r + 30) div 31 = (if r = 0 then q else q + 1)" if "r < 31" for q r :: nat
    using that div_nat_eqI [of q 31 "31 * q + r + 30"] div_nat_eqI [of "q + 1" 31 "31 * q + r + 30"] by auto
  ultimately show ?thesis unfolding div_ceil_def by (metis mod_less_divisor zero_less_numeral)
qed

lemma field_count_step:
  assumes "0 < n"
  shows "Suc (min 31 n) + ((n - 31) * 32 + 30) div 31 = (n * 32 + 30) div (31 :: nat)"
proof -
  have h: "(m * 32 + 30) div 31 = m + (m + 30) div 31" for m :: nat
    using div_mult_self1 [of 31 "m + 30" m] by (simp add: algebra_simps)
  show ?thesis
  proof (cases "n < 31")
    case True
    then have "(n + 30) div 31 = 1" using assms by (intro div_nat_eqI) simp_all
    with True show ?thesis by (simp add: h)
  next
    case False
    then obtain m where "n = m + 31" using le_Suc_ex [of 31 n] by (auto simp: add.commute)
    moreover have "(m + 61) div 31 = (m + 30) div 31 + (1 :: nat)"
      using div_add_self2 [of 31 "m + 30"] by simp
    ultimately show ?thesis by (simp add: h)
  qed
qed

lemma length_field_elements: "length (concat (field_elements bs)) = div_ceil (length bs * 32) 31"
proof (induction "31 :: nat" bs rule: chunks.induct)
  case (1 bs)
  show ?case
  proof (cases "bs = []")
    case False
    let ?n = "length bs"
    have IH: "length (concat (field_elements (drop 31 bs))) = ((?n - 31) * 32 + 30) div 31"
      using 1 False by (simp add: div_ceil_31)
    have "length (concat (field_elements bs)) = Suc (min 31 ?n) + length (concat (field_elements (drop 31 bs)))"
      using False by (simp add: field_elements_def chunks_step min.commute)
    also have "\<dots> = (?n * 32 + 30) div 31" using False IH field_count_step [of ?n] by simp
    finally show ?thesis by (simp add: div_ceil_31)
  qed (simp add: field_elements_def div_ceil_def)
qed

lemma BYTES_PER_BLOB_eq: "BYTES_PER_BLOB = 131072"
  by (simp add: BYTES_PER_BLOB_def BYTES_PER_FIELD_ELEMENT_def FIELD_ELEMENTS_PER_BLOB_def)

lemma max_blob_data: "BYTES_PER_BLOB * 31 div 32 = 126976"
  by (simp add: BYTES_PER_BLOB_eq)

lemma blob_fits: "length bs \<le> 126976 \<Longrightarrow> div_ceil (length bs * 32) 31 \<le> BYTES_PER_BLOB"
  by (simp add: div_ceil_31 BYTES_PER_BLOB_eq)

lemma blob_from_bytes_packs:
  assumes "length bs \<le> 126976"
  shows "blob_from_bytes bs = Ok (concat (field_elements bs) @
    replicate (BYTES_PER_BLOB - div_ceil (length bs * 32) 31) 0)"
  using assms blob_fits [OF assms] length_field_elements [of bs]
  by (simp add: blob_from_bytes_def copy_front_def max_blob_data field_elements_def)

definition blob_payload :: "bytes \<Rightarrow> bytes" where
  "blob_payload buf = concat (map tl (chunks 32 buf))"

lemma payload_field_elements:
  "take (length bs) (blob_payload (concat (field_elements bs) @ z)) = bs"
proof (induction "31 :: nat" bs rule: chunks.induct)
  case (1 bs)
  let ?b = "concat (field_elements bs) @ z"
  show ?case
  proof (cases "length bs < 31")
    case False
    then have "?b = (0 # take 31 bs) @ (concat (field_elements (drop 31 bs)) @ z)"
      by (subst field_elements_def, subst chunks_step) (auto simp: field_elements_def)
    then have "blob_payload ?b = take 31 bs @ blob_payload (concat (field_elements (drop 31 bs)) @ z)"
      using False by (simp add: blob_payload_def chunks_append del: append_Cons)
    then show ?thesis using 1 False by (cases "bs = []") (simp_all add: min_absorb2)
  next
    case True
    show ?thesis
    proof (cases "bs = []")
      case False
      then have "?b = 0 # bs @ z"
        using True by (subst field_elements_def, subst chunks_step) simp_all
      then have "blob_payload ?b = take 31 (bs @ z) @ blob_payload (drop 31 (bs @ z))"
        by (simp add: blob_payload_def chunks_step)
      then show ?thesis using True by simp
    qed simp
  qed
qed

lemma zero_chunks: "list_all (\<lambda>c. hd c = 0) (chunks 32 (replicate k (0 :: u8)))"
proof (induction k rule: less_induct)
  case (less k)
  show ?case
  proof (cases "k = 0")
    case False
    then have "replicate k (0 :: u8) \<noteq> []" by simp
    then show ?thesis using less [of "k - 32"] False by (simp add: chunks_step)
  qed simp
qed

lemma field_elements_zero:
  "list_all (\<lambda>c. hd c = 0) (chunks 32 (concat (field_elements bs) @ replicate k 0))"
proof (induction "31 :: nat" bs rule: chunks.induct)
  case (1 bs)
  let ?b = "concat (field_elements bs) @ replicate k 0"
  show ?case
  proof (cases "length bs < 31")
    case False
    then have "?b = (0 # take 31 bs) @ (concat (field_elements (drop 31 bs)) @ replicate k 0)"
      by (subst field_elements_def, subst chunks_step) (auto simp: field_elements_def)
    then show ?thesis
      using 1 False by (cases "bs = []") (simp_all add: chunks_append del: append_Cons)
  next
    case True
    show ?thesis
    proof (cases "bs = []")
      case False
      then have "?b = 0 # bs @ replicate k 0"
        using True by (subst field_elements_def, subst chunks_step) simp_all
      then show ?thesis using True zero_chunks [of "k - (31 - length bs)"] by (simp add: chunks_step)
    qed (simp add: field_elements_def zero_chunks)
  qed
qed

section \<open>Bundles of committed blobs\<close>

lemma commit_blobs_lists:
  assumes "commit_blobs kz blobs cs ps = Ok (cs', ps')"
  shows "\<exists>c p. cs' = cs @ c \<and> ps' = ps @ p \<and> length c = length blobs \<and> length p = length blobs \<and>
    list_all (\<lambda>((b, c), p). blob_to_kzg_commitment kz b = Some c \<and> compute_blob_kzg_proof kz b c = Some p)
      (zip (zip blobs c) p)"
  using assms
proof (induction blobs arbitrary: cs ps)
  case (Cons b blobs)
  then obtain c p where s: "blob_to_kzg_commitment kz b = Some c" "compute_blob_kzg_proof kz b c = Some p"
      "commit_blobs kz blobs (cs @ [c]) (ps @ [p]) = Ok (cs', ps')"
    by (auto simp: rbind_eq_Ok blob_to_kzg_commitment_and_proof_def ok_or_eq_Ok)
  from Cons.IH [OF s(3)] obtain c' p' where
    "cs' = (cs @ [c]) @ c'" "ps' = (ps @ [p]) @ p'" "length c' = length blobs" "length p' = length blobs"
    "list_all (\<lambda>((b, c), p). blob_to_kzg_commitment kz b = Some c \<and> compute_blob_kzg_proof kz b c = Some p)
      (zip (zip blobs c') p')" by auto
  with s(1,2) show ?case by (intro exI [of _ "c # c'"] exI [of _ "p # p'"]) simp
qed simp

lemma check_versioned_hashes_map:
  "check_versioned_hashes sha256 (zip cs (map (kzg_commitment_to_versioned_hash sha256) cs)) = Ok ()"
  by (induction cs) simp_all

lemma check_proofs_all:
  "list_all (\<lambda>((b, c), p). verify_blob_proof kz b c p = Some True) xs \<Longrightarrow> check_proofs kz xs = Ok ()"
  by (induction kz xs rule: check_proofs.induct) (simp_all add: verify_blob_kzg_proof_def)

lemma check_versioned_hashes_iff:
  "check_versioned_hashes sha256 xs = Ok () \<longleftrightarrow>
     list_all (\<lambda>(c, h). h = kzg_commitment_to_versioned_hash sha256 c) xs"
  by (induction sha256 xs rule: check_versioned_hashes.induct) auto

lemma check_proofs_iff:
  "check_proofs kz xs = Ok () \<longleftrightarrow> list_all (\<lambda>((b, c), p). verify_blob_proof kz b c p = Some True) xs"
  by (induction kz xs rule: check_proofs.induct)
    (auto simp: verify_blob_kzg_proof_def rbind_eq_Ok ok_or_eq_Ok split: if_splits)

lemma created_bundle_validates:
  assumes law: "\<And>b c p. blob_to_kzg_commitment kz b = Some c \<Longrightarrow> compute_blob_kzg_proof kz b c = Some p \<Longrightarrow>
      verify_blob_proof kz b c p = Some True"
    and "blobs \<noteq> []" "create_from_blobs kz blobs = Ok bu"
    and "bl_blob_versioned_hashes tx = generate_versioned_hashes sha256 bu"
  shows "validate_blobs_bundle kz sha256 bu tx = Ok ()"
proof -
  obtain cs ps where c: "commit_blobs kz blobs [] [] = Ok (cs, ps)"
    and bu: "bu = \<lparr>bu_blobs = blobs, bu_commitments = cs, bu_proofs = ps\<rparr>"
    using assms(3) by (auto simp: create_from_blobs_def rbind_eq_Ok)
  note l = commit_blobs_lists [OF c, simplified]
  then have "list_all (\<lambda>((b, c), p). verify_blob_proof kz b c p = Some True) (zip (zip blobs cs) ps)"
    by (auto simp: list_all_iff intro: law)
  with l assms(2,4) show ?thesis
    by (simp add: validate_blobs_bundle_def bu generate_versioned_hashes_def check_versioned_hashes_map
        check_proofs_all)
qed

section \<open>The encoding of bundles\<close>

interpretation rlp_blob: rlp_codec "decode_array BYTES_PER_BLOB" encode_array "\<lambda>bs. length bs = BYTES_PER_BLOB"
  by (rule array_codec) (simp add: slice_bound_def BYTES_PER_BLOB_def BYTES_PER_FIELD_ELEMENT_def
      FIELD_ELEMENTS_PER_BLOB_def)

interpretation rlp_blobs: rlp_codec "decode_vec (decode_array BYTES_PER_BLOB)" "encode_vec encode_array"
    rlp_blob.vec_valid
  by (rule rlp_blob.vec_codec)

interpretation rlp_bytes48: rlp_codec "decode_array 48" encode_array "\<lambda>bs. length bs = 48"
  by (rule array_codec) (simp add: slice_bound_def)

interpretation rlp_bytes48s: rlp_codec "decode_vec (decode_array 48)" "encode_vec encode_array"
    rlp_bytes48.vec_valid
  by (rule rlp_bytes48.vec_codec)

lemmas bundle_rules [struct_rules] = rlp_blobs.rlp_decoder_axioms rlp_bytes48s.rlp_decoder_axioms

definition fits_blobs_bundle :: "blobs_bundle \<Rightarrow> bool" where
  "fits_blobs_bundle b \<longleftrightarrow>
     list_all (\<lambda>x. length x = BYTES_PER_BLOB) (bu_blobs b) \<and>
     list_all (\<lambda>x. length x = 48) (bu_commitments b) \<and> list_all (\<lambda>x. length x = 48) (bu_proofs b) \<and>
     length (encode_blobs_bundle b) < slice_bound"

lemma decode_blobs_bundle_round_trip:
  assumes "fits_blobs_bundle b"
  shows "decode_blobs_bundle (encode_blobs_bundle b @ rest) = Ok (b, rest)"
proof -
  have "rlp_blob.vec_valid (bu_blobs b)" "rlp_bytes48.vec_valid (bu_commitments b)"
    "rlp_bytes48.vec_valid (bu_proofs b)"
    using assms
    by (auto intro!: rlp_blob.vec_validI rlp_bytes48.vec_validI
        simp: fits_blobs_bundle_def encode_blobs_bundle_def encoder_finish_def list_all_iff)
  then show ?thesis
    using assms unfolding decode_blobs_bundle_def encode_blobs_bundle_def fits_blobs_bundle_def
    by (intro struct_round_trip) (simp_all add: rlp_blobs.field_simps_enc rlp_bytes48s.field_simps_enc)
qed

lemma decode_blobs_bundle_decoder [struct_rules]: "rlp_decoder decode_blobs_bundle"
  unfolding decode_blobs_bundle_def [abs_def] by (intro struct_decoder struct_rules)

interpretation rlp_blobs_bundle: rlp_codec decode_blobs_bundle encode_blobs_bundle fits_blobs_bundle
  using decode_blobs_bundle_decoder
  by (simp add: rlp_codec_def rlp_codec_axioms_def decode_blobs_bundle_round_trip)

section \<open>Blob data and bundles\<close>

text \<open>
  C24: Data of at most 126976 bytes fills a blob without a panic: the blob has 131072 bytes, every
  32-byte field element starts with a zero byte, so it is below the field modulus, and the data is
  read back from the other bytes. Longer data is refused.\<close>

theorem blob_data_read_back:
  "if length bs \<le> 126976
   then \<exists>blob. blob_from_bytes bs = Ok blob \<and> length blob = 131072 \<and>
          list_all (\<lambda>element. hd element = 0) (chunks 32 blob) \<and>
          take (length bs) (blob_payload blob) = bs
   else blob_from_bytes bs = Err BlobDataInvalidBytesLength"
proof (cases "length bs \<le> 126976")
  case True
  have "length (concat (field_elements bs) @ replicate (BYTES_PER_BLOB - div_ceil (length bs * 32) 31) 0) = 131072"
    using blob_fits [OF True] by (simp add: length_field_elements BYTES_PER_BLOB_eq)
  with True show ?thesis
    by (simp add: blob_from_bytes_packs payload_field_elements field_elements_zero)
qed (simp add: blob_from_bytes_def max_blob_data)

end
