(* ===== verification/Store.thy ===== *)
theory Store
  imports Blobs Block_Rules Tx_Sign "HOL-Library.AList"
begin

text \<open>
  The store of the client: \<^verbatim>\<open>crates/storage/store/engines/in_memory.rs\<close> (the in-memory engine)
  below \<^verbatim>\<open>crates/storage/store/storage.rs\<close> (\<^verbatim>\<open>Store\<close>). One record holds the fields of
  \<^verbatim>\<open>StoreInner\<close>, of its \<^verbatim>\<open>ChainData\<close> and the two pools of \<^verbatim>\<open>Store\<close>. A method of
  \<^verbatim>\<open>Store\<close> that only delegates to the engine is the engine's definition. The in-memory engine has
  no failing operation apart from \<^verbatim>\<open>get_chain_config\<close>, which unwraps, so a reader is a function
  of the store and a writer a function from stores to stores.

  Hash maps whose iteration order the code uses (the mempool, the receipts of a block) are
  association lists with distinct keys, in an arbitrary order; the others are maps. The entry that
  \<^verbatim>\<open>open_storage_trie\<close> creates for an unknown address is empty and cannot be observed, so the
  storage nodes are a total function.
\<close>

section \<open>State\<close>

datatype store_error =
  DecodeError
| StoreCustom string
| StoreRLPDecode rlp_error
| StoreTrie trie_error
| MissingStore
| ReadError
| CursorError string
| MissingLatestBlockNumber
| MissingEarliestBlockNumber

record store =
  s_chain_config :: "chain_config option"
  s_earliest_block_number :: "u64 option"
  s_finalized_block_number :: "u64 option"
  s_safe_block_number :: "u64 option"
  s_latest_block_number :: "u64 option"
  s_latest_total_difficulty :: "u256 option"
  s_pending_block_number :: "u64 option"
  s_block_numbers :: "bytes \<rightharpoonup> u64"
  s_canonical_hashes :: "u64 \<rightharpoonup> bytes"
  s_bodies :: "bytes \<rightharpoonup> block_body"
  s_headers :: "bytes \<rightharpoonup> block_header"
  s_account_codes :: "bytes \<rightharpoonup> bytes"
  s_transaction_locations :: "bytes \<rightharpoonup> (u64 \<times> bytes \<times> u64) list"
  s_receipts :: "bytes \<rightharpoonup> (u64 \<times> receipt) list"
  s_state_trie_nodes :: "bytes \<rightharpoonup> bytes"
  s_storage_trie_nodes :: "bytes \<Rightarrow> bytes \<rightharpoonup> bytes"
  s_block_total_difficulties :: "bytes \<rightharpoonup> u256"
  s_payloads :: "u64 \<rightharpoonup> block \<times> u256 \<times> blobs_bundle \<times> bool"
  s_pending_blocks :: "bytes \<rightharpoonup> block"
  s_mempool :: "(bytes \<times> mempool_transaction) list"
  s_blobs_bundle_pool :: "bytes \<rightharpoonup> blobs_bundle"

definition store_new :: store where
  "store_new =
     \<lparr>s_chain_config = None, s_earliest_block_number = None, s_finalized_block_number = None,
      s_safe_block_number = None, s_latest_block_number = None, s_latest_total_difficulty = None,
      s_pending_block_number = None, s_block_numbers = Map.empty, s_canonical_hashes = Map.empty,
      s_bodies = Map.empty, s_headers = Map.empty, s_account_codes = Map.empty,
      s_transaction_locations = Map.empty, s_receipts = Map.empty, s_state_trie_nodes = Map.empty,
      s_storage_trie_nodes = (\<lambda>_. Map.empty), s_block_total_difficulties = Map.empty,
      s_payloads = Map.empty, s_pending_blocks = Map.empty, s_mempool = [],
      s_blobs_bundle_pool = Map.empty\<rparr>"

section \<open>Blocks\<close>

definition get_block_header :: "store \<Rightarrow> u64 \<Rightarrow> block_header option" where
  "get_block_header s n =
     (case s_canonical_hashes s n of Some h \<Rightarrow> s_headers s h | None \<Rightarrow> None)"

definition get_block_body :: "store \<Rightarrow> u64 \<Rightarrow> block_body option" where
  "get_block_body s n =
     (case s_canonical_hashes s n of Some h \<Rightarrow> s_bodies s h | None \<Rightarrow> None)"

definition add_pending_block :: "(bytes \<Rightarrow> bytes) \<Rightarrow> block \<Rightarrow> store \<Rightarrow> store" where
  "add_pending_block keccak b s =
     s\<lparr>s_pending_blocks := (s_pending_blocks s)(compute_block_hash keccak (b_header b) \<mapsto> b)\<rparr>"

definition get_pending_block :: "store \<Rightarrow> bytes \<Rightarrow> block option" where
  "get_pending_block s h = s_pending_blocks s h"

definition add_block_header :: "bytes \<Rightarrow> block_header \<Rightarrow> store \<Rightarrow> store" where
  "add_block_header h header s = s\<lparr>s_headers := (s_headers s)(h \<mapsto> header)\<rparr>"

definition add_block_body :: "bytes \<Rightarrow> block_body \<Rightarrow> store \<Rightarrow> store" where
  "add_block_body h body s = s\<lparr>s_bodies := (s_bodies s)(h \<mapsto> body)\<rparr>"

definition add_block_number :: "bytes \<Rightarrow> u64 \<Rightarrow> store \<Rightarrow> store" where
  "add_block_number h n s = s\<lparr>s_block_numbers := (s_block_numbers s)(h \<mapsto> n)\<rparr>"

definition get_block_number :: "store \<Rightarrow> bytes \<Rightarrow> u64 option" where
  "get_block_number s h = s_block_numbers s h"

definition add_block_total_difficulty :: "bytes \<Rightarrow> u256 \<Rightarrow> store \<Rightarrow> store" where
  "add_block_total_difficulty h d s =
     s\<lparr>s_block_total_difficulties := (s_block_total_difficulties s)(h \<mapsto> d)\<rparr>"

definition get_block_total_difficulty :: "store \<Rightarrow> bytes \<Rightarrow> u256 option" where
  "get_block_total_difficulty s h = s_block_total_difficulties s h"

definition get_block_header_by_hash :: "store \<Rightarrow> bytes \<Rightarrow> block_header option" where
  "get_block_header_by_hash s h = s_headers s h"

definition get_block_body_by_hash :: "store \<Rightarrow> bytes \<Rightarrow> block_body option" where
  "get_block_body_by_hash s h = s_bodies s h"

definition get_block_by_hash :: "store \<Rightarrow> bytes \<Rightarrow> block option" where
  "get_block_by_hash s h =
     (case get_block_header_by_hash s h of
        Some header \<Rightarrow>
          (case get_block_body_by_hash s h of
             Some body \<Rightarrow> Some \<lparr>b_header = header, b_body = body\<rparr>
           | None \<Rightarrow> None)
      | None \<Rightarrow> None)"

definition set_canonical_block :: "u64 \<Rightarrow> bytes \<Rightarrow> store \<Rightarrow> store" where
  "set_canonical_block n h s = s\<lparr>s_canonical_hashes := (s_canonical_hashes s)(n \<mapsto> h)\<rparr>"

definition get_canonical_block_hash :: "store \<Rightarrow> u64 \<Rightarrow> bytes option" where
  "get_canonical_block_hash s n = s_canonical_hashes s n"

definition unset_canonical_block :: "u64 \<Rightarrow> store \<Rightarrow> store" where
  "unset_canonical_block n s = s\<lparr>s_canonical_hashes := (s_canonical_hashes s)(n := None)\<rparr>"

section \<open>Transactions and receipts\<close>

definition add_transaction_location :: "bytes \<Rightarrow> u64 \<Rightarrow> bytes \<Rightarrow> u64 \<Rightarrow> store \<Rightarrow> store" where
  "add_transaction_location tx_hash n h i s =
     s\<lparr>s_transaction_locations := (s_transaction_locations s)
         (tx_hash \<mapsto> unwrap_or (s_transaction_locations s tx_hash) [] @ [(n, h, i)])\<rparr>"

primrec add_locations :: "(bytes \<times> u64 \<times> bytes \<times> u64) list \<Rightarrow> store \<Rightarrow> store" where
  "add_locations [] s = s"
| "add_locations (l # ls) s =
     (case l of (tx_hash, n, h, i) \<Rightarrow> add_locations ls (add_transaction_location tx_hash n h i s))"

definition add_transaction_locations ::
  "(bytes \<Rightarrow> bytes) \<Rightarrow> transaction list \<Rightarrow> u64 \<Rightarrow> bytes \<Rightarrow> store \<Rightarrow> store" where
  "add_transaction_locations keccak transactions n h =
     add_locations (map (\<lambda>(i, tx). (tx_compute_hash keccak tx, n, h, of_nat i)) (enumerate 0 transactions))"

definition get_transaction_location :: "store \<Rightarrow> bytes \<Rightarrow> (u64 \<times> bytes \<times> u64) option" where
  "get_transaction_location s tx_hash =
     (case s_transaction_locations s tx_hash of
        Some v \<Rightarrow> find (\<lambda>(n, h, i). s_canonical_hashes s n = Some h) v
      | None \<Rightarrow> None)"

definition get_transaction_by_location :: "store \<Rightarrow> bytes \<Rightarrow> u64 \<Rightarrow> transaction option" where
  "get_transaction_by_location s h index =
     (case get_block_body_by_hash s h of
        Some body \<Rightarrow>
          if unat index < length (bb_transactions body) then Some (bb_transactions body ! unat index)
          else None
      | None \<Rightarrow> None)"

definition get_transaction_by_hash :: "store \<Rightarrow> bytes \<Rightarrow> transaction option" where
  "get_transaction_by_hash s tx_hash =
     (case get_transaction_location s tx_hash of
        Some (n, h, i) \<Rightarrow> get_transaction_by_location s h i
      | None \<Rightarrow> None)"

definition add_receipt :: "bytes \<Rightarrow> u64 \<Rightarrow> receipt \<Rightarrow> store \<Rightarrow> store" where
  "add_receipt h index r s =
     s\<lparr>s_receipts := (s_receipts s)(h \<mapsto> AList.update index r (unwrap_or (s_receipts s h) []))\<rparr>"

definition add_receipts :: "bytes \<Rightarrow> receipt list \<Rightarrow> store \<Rightarrow> store" where
  "add_receipts h rs s =
     s\<lparr>s_receipts := (s_receipts s)(h \<mapsto>
         foldl (\<lambda>entry (i, r). AList.update (of_nat i) r entry) (unwrap_or (s_receipts s h) [])
           (enumerate 0 rs))\<rparr>"

definition get_receipt :: "store \<Rightarrow> u64 \<Rightarrow> u64 \<Rightarrow> receipt option" where
  "get_receipt s n index =
     (case s_canonical_hashes s n of
        Some h \<Rightarrow> (case s_receipts s h of Some entry \<Rightarrow> map_of entry index | None \<Rightarrow> None)
      | None \<Rightarrow> None)"

definition get_receipts_for_block :: "store \<Rightarrow> bytes \<Rightarrow> receipt list" where
  "get_receipts_for_block s h =
     (case s_receipts s h of None \<Rightarrow> [] | Some entry \<Rightarrow> map snd (sort_key fst entry))"

section \<open>Chain data, codes and payloads\<close>

definition add_account_code :: "bytes \<Rightarrow> bytes \<Rightarrow> store \<Rightarrow> store" where
  "add_account_code h code s = s\<lparr>s_account_codes := (s_account_codes s)(h \<mapsto> code)\<rparr>"

definition get_account_code :: "store \<Rightarrow> bytes \<Rightarrow> bytes option" where
  "get_account_code s h = s_account_codes s h"

definition set_chain_config :: "chain_config \<Rightarrow> store \<Rightarrow> store" where
  "set_chain_config c s = s\<lparr>s_chain_config := Some c\<rparr>"

definition get_chain_config :: "store \<Rightarrow> (chain_config, 'e) result" where
  "get_chain_config s = (case s_chain_config s of Some c \<Rightarrow> Ok c | None \<Rightarrow> Panic)"

definition update_earliest_block_number :: "u64 \<Rightarrow> store \<Rightarrow> store" where
  "update_earliest_block_number n s = s\<lparr>s_earliest_block_number := Some n\<rparr>"

definition get_earliest_block_number :: "store \<Rightarrow> (u64, store_error) result" where
  "get_earliest_block_number s = ok_or (s_earliest_block_number s) MissingEarliestBlockNumber"

definition update_finalized_block_number :: "u64 \<Rightarrow> store \<Rightarrow> store" where
  "update_finalized_block_number n s = s\<lparr>s_finalized_block_number := Some n\<rparr>"

definition update_safe_block_number :: "u64 \<Rightarrow> store \<Rightarrow> store" where
  "update_safe_block_number n s = s\<lparr>s_safe_block_number := Some n\<rparr>"

definition update_latest_block_number :: "u64 \<Rightarrow> store \<Rightarrow> store" where
  "update_latest_block_number n s = s\<lparr>s_latest_block_number := Some n\<rparr>"

definition get_latest_block_number :: "store \<Rightarrow> (u64, store_error) result" where
  "get_latest_block_number s = ok_or (s_latest_block_number s) MissingLatestBlockNumber"

definition update_latest_total_difficulty :: "u256 \<Rightarrow> store \<Rightarrow> store" where
  "update_latest_total_difficulty d s = s\<lparr>s_latest_total_difficulty := Some d\<rparr>"

definition update_pending_block_number :: "u64 \<Rightarrow> store \<Rightarrow> store" where
  "update_pending_block_number n s = s\<lparr>s_pending_block_number := Some n\<rparr>"

definition add_payload :: "u64 \<Rightarrow> block \<Rightarrow> store \<Rightarrow> store" where
  "add_payload i b s =
     s\<lparr>s_payloads := (s_payloads s)(i \<mapsto> (b, 0, blobs_bundle_empty, False))\<rparr>"

definition get_payload :: "store \<Rightarrow> u64 \<Rightarrow> (block \<times> u256 \<times> blobs_bundle \<times> bool) option" where
  "get_payload s i = s_payloads s i"

definition update_payload :: "u64 \<Rightarrow> block \<Rightarrow> u256 \<Rightarrow> blobs_bundle \<Rightarrow> bool \<Rightarrow> store \<Rightarrow> store" where
  "update_payload i b v bundle completed s =
     s\<lparr>s_payloads := (s_payloads s)(i \<mapsto> (b, v, bundle, completed))\<rparr>"

section \<open>Pools\<close>

definition add_transaction_to_pool :: "bytes \<Rightarrow> mempool_transaction \<Rightarrow> store \<Rightarrow> store" where
  "add_transaction_to_pool h tx s = s\<lparr>s_mempool := AList.update h tx (s_mempool s)\<rparr>"

definition add_blobs_bundle_to_pool :: "bytes \<Rightarrow> blobs_bundle \<Rightarrow> store \<Rightarrow> store" where
  "add_blobs_bundle_to_pool h bu s = s\<lparr>s_blobs_bundle_pool := (s_blobs_bundle_pool s)(h \<mapsto> bu)\<rparr>"

definition get_blobs_bundle_from_pool :: "store \<Rightarrow> bytes \<Rightarrow> blobs_bundle option" where
  "get_blobs_bundle_from_pool s h = s_blobs_bundle_pool s h"

definition remove_transaction_from_pool :: "(bytes \<Rightarrow> bytes) \<Rightarrow> bytes \<Rightarrow> store \<Rightarrow> store" where
  "remove_transaction_from_pool keccak h s =
     (case map_of (s_mempool s) h of
        Some tx \<Rightarrow>
          (let s = (if tx_type_of (mt_inner tx) = EIP4844
                    then s\<lparr>s_blobs_bundle_pool :=
                             (s_blobs_bundle_pool s)(tx_compute_hash keccak (mt_inner tx) := None)\<rparr>
                    else s)
           in s\<lparr>s_mempool := AList.delete h (s_mempool s)\<rparr>)
      | None \<Rightarrow> s)"

text \<open>The stable sort of the standard library with the order of \<^verbatim>\<open>MempoolTransaction\<close>.\<close>

fun insert_sorted :: "mempool_transaction \<Rightarrow> mempool_transaction list \<Rightarrow> mempool_transaction list" where
  "insert_sorted tx [] = [tx]"
| "insert_sorted tx (u # us) =
     (if cmp_mempool tx u = Greater then u # insert_sorted tx us else tx # u # us)"

definition sort_mempool :: "mempool_transaction list \<Rightarrow> mempool_transaction list" where
  "sort_mempool txs = foldr insert_sorted txs []"

fun group_by_sender ::
  "(transaction \<Rightarrow> bool) \<Rightarrow> (bytes \<times> mempool_transaction) list \<Rightarrow>
     (bytes \<times> mempool_transaction list) list \<Rightarrow> (bytes \<times> mempool_transaction list) list" where
  "group_by_sender flt [] acc = acc"
| "group_by_sender flt ((h, tx) # rest) acc =
     group_by_sender flt rest
       (if flt (mt_inner tx)
        then AList.update (mt_sender tx) (unwrap_or (map_of acc (mt_sender tx)) [] @ [tx]) acc
        else acc)"

definition filter_pool_transactions ::
  "store \<Rightarrow> (transaction \<Rightarrow> bool) \<Rightarrow> (bytes \<times> mempool_transaction list) list" where
  "filter_pool_transactions s flt =
     map (\<lambda>(a, txs). (a, sort_mempool txs)) (group_by_sender flt (s_mempool s) [])"

definition filter_unknown_transactions :: "store \<Rightarrow> bytes list \<Rightarrow> bytes list" where
  "filter_unknown_transactions s possible_hashes =
     filter (\<lambda>h. h \<notin> set (map fst (s_mempool s))) possible_hashes"

section \<open>Whole blocks\<close>

text \<open>Addition of \<^verbatim>\<open>U256\<close> panics when it overflows.\<close>

definition add_u256 :: "u256 \<Rightarrow> u256 \<Rightarrow> (u256, 'e) result" where
  "add_u256 a b = (if unat a + unat b < 2 ^ 256 then Ok (a + b) else Panic)"

definition store_add_block :: "(bytes \<Rightarrow> bytes) \<Rightarrow> block \<Rightarrow> (unit, 'e, store) sm" where
  "store_add_block keccak b =
     (let header = b_header b in
     let number = bh_number header in
     sbind (sgets s_latest_total_difficulty) (\<lambda>latest_total_difficulty.
     sbind (slift (add_u256 (unwrap_or latest_total_difficulty 0) (bh_difficulty header))) (\<lambda>block_total_difficulty.
     let h = compute_block_hash keccak header in
     sbind (smodify (add_transaction_locations keccak (bb_transactions (b_body b)) number h)) (\<lambda>_.
     sbind (smodify (add_block_body h (b_body b))) (\<lambda>_.
     sbind (smodify (add_block_header h header)) (\<lambda>_.
     sbind (smodify (add_block_number h number)) (\<lambda>_.
     sbind (smodify (add_block_total_difficulty h block_total_difficulty)) (\<lambda>_.
     smodify (update_latest_total_difficulty block_total_difficulty)))))))))"

end
