(* ===== verification/World_State.thy ===== *)
theory World_State
  imports Store
begin

text \<open>
  The world state in the store, \<^verbatim>\<open>crates/storage/store/storage.rs\<close>: opening the state and storage
  tries, reading accounts, codes and slots, proofs, the application of account updates, and the
  state of the genesis block. A trie that is opened reads the nodes the store holds; committing it
  writes them back, as both share the node map. Recursion over a trie is bounded by \<open>fuel\<close>.
\<close>

section \<open>Opening tries\<close>

definition hash_address :: "(bytes \<Rightarrow> bytes) \<Rightarrow> bytes \<Rightarrow> bytes" where
  "hash_address keccak address = keccak address"

definition hash_key :: "(bytes \<Rightarrow> bytes) \<Rightarrow> bytes \<Rightarrow> bytes" where
  "hash_key keccak key = keccak key"

definition open_state_trie :: "(bytes \<Rightarrow> bytes) \<Rightarrow> store \<Rightarrow> bytes \<Rightarrow> trie" where
  "open_state_trie keccak s state_root = trie_open keccak (InMemoryTrieDB (s_state_trie_nodes s)) state_root"

definition open_storage_trie :: "(bytes \<Rightarrow> bytes) \<Rightarrow> store \<Rightarrow> bytes \<Rightarrow> bytes \<Rightarrow> trie" where
  "open_storage_trie keccak s hashed_address storage_root =
     trie_open keccak (InMemoryTrieDB (s_storage_trie_nodes s hashed_address)) storage_root"

definition state_trie :: "(bytes \<Rightarrow> bytes) \<Rightarrow> store \<Rightarrow> bytes \<Rightarrow> trie option" where
  "state_trie keccak s blk_hash =
     (case get_block_header_by_hash s blk_hash of
        None \<Rightarrow> None
      | Some header \<Rightarrow> Some (open_state_trie keccak s (bh_state_root header)))"

text \<open>What the nodes of a committed trie are: the part of the store the trie shares.\<close>

fun db_nodes :: "trie_db \<Rightarrow> bytes \<rightharpoonup> bytes" where
  "db_nodes (InMemoryTrieDB m) = m"
| "db_nodes NullTrieDB = Map.empty"

definition trie_nodes :: "trie \<Rightarrow> bytes \<rightharpoonup> bytes" where
  "trie_nodes tr = db_nodes (st_db (t_state tr))"

section \<open>Reading\<close>

definition read_account ::
  "(bytes \<Rightarrow> bytes) \<Rightarrow> nat \<Rightarrow> trie \<Rightarrow> bytes \<Rightarrow> (account_state option, store_error) result" where
  "read_account keccak fuel tr address =
     (rbind (rmap_err StoreTrie (trie_get fuel tr (hash_address keccak address))) (\<lambda>encoded.
     case encoded of
       None \<Rightarrow> Ok None
     | Some encoded_state \<Rightarrow>
         (rbind (rmap_err StoreRLPDecode (decode decode_account_state encoded_state)) (\<lambda>st.
         Ok (Some st)))))"

definition get_account_state_by_hash ::
  "(bytes \<Rightarrow> bytes) \<Rightarrow> nat \<Rightarrow> store \<Rightarrow> bytes \<Rightarrow> bytes \<Rightarrow> (account_state option, store_error) result" where
  "get_account_state_by_hash keccak fuel s blk_hash address =
     (case state_trie keccak s blk_hash of
        None \<Rightarrow> Ok None
      | Some tr \<Rightarrow> read_account keccak fuel tr address)"

definition get_account_state ::
  "(bytes \<Rightarrow> bytes) \<Rightarrow> nat \<Rightarrow> store \<Rightarrow> u64 \<Rightarrow> bytes \<Rightarrow> (account_state option, store_error) result" where
  "get_account_state keccak fuel s block_number address =
     (case get_canonical_block_hash s block_number of
        None \<Rightarrow> Ok None
      | Some blk_hash \<Rightarrow> get_account_state_by_hash keccak fuel s blk_hash address)"

definition get_account_info_by_hash ::
  "(bytes \<Rightarrow> bytes) \<Rightarrow> nat \<Rightarrow> store \<Rightarrow> bytes \<Rightarrow> bytes \<Rightarrow> (core_account_info option, store_error) result" where
  "get_account_info_by_hash keccak fuel s blk_hash address =
     (case state_trie keccak s blk_hash of
        None \<Rightarrow> Ok None
      | Some tr \<Rightarrow>
          (rbind (read_account keccak fuel tr address) (\<lambda>st.
          Ok (case st of
            None \<Rightarrow> None
          | Some st \<Rightarrow>
              Some \<lparr>ai_code_hash = as_code_hash st, ai_balance = as_balance st, ai_nonce = as_nonce st\<rparr>))))"

definition get_account_info ::
  "(bytes \<Rightarrow> bytes) \<Rightarrow> nat \<Rightarrow> store \<Rightarrow> u64 \<Rightarrow> bytes \<Rightarrow> (core_account_info option, store_error) result" where
  "get_account_info keccak fuel s block_number address =
     (case get_canonical_block_hash s block_number of
        Some blk_hash \<Rightarrow> get_account_info_by_hash keccak fuel s blk_hash address
      | None \<Rightarrow> Ok None)"

definition get_code_by_account_address ::
  "(bytes \<Rightarrow> bytes) \<Rightarrow> nat \<Rightarrow> store \<Rightarrow> u64 \<Rightarrow> bytes \<Rightarrow> (bytes option, store_error) result" where
  "get_code_by_account_address keccak fuel s block_number address =
     (case get_canonical_block_hash s block_number of
        None \<Rightarrow> Ok None
      | Some blk_hash \<Rightarrow>
          (case state_trie keccak s blk_hash of
             None \<Rightarrow> Ok None
           | Some tr \<Rightarrow>
               (rbind (read_account keccak fuel tr address) (\<lambda>st.
               Ok (case st of None \<Rightarrow> None | Some st \<Rightarrow> get_account_code s (as_code_hash st))))))"

definition get_nonce_by_account_address ::
  "(bytes \<Rightarrow> bytes) \<Rightarrow> nat \<Rightarrow> store \<Rightarrow> u64 \<Rightarrow> bytes \<Rightarrow> (u64 option, store_error) result" where
  "get_nonce_by_account_address keccak fuel s block_number address =
     (case get_canonical_block_hash s block_number of
        None \<Rightarrow> Ok None
      | Some blk_hash \<Rightarrow>
          (case state_trie keccak s blk_hash of
             None \<Rightarrow> Ok None
           | Some tr \<Rightarrow>
               (rbind (read_account keccak fuel tr address) (\<lambda>st.
               Ok (map_option as_nonce st)))))"

definition storage_trie ::
  "(bytes \<Rightarrow> bytes) \<Rightarrow> nat \<Rightarrow> store \<Rightarrow> bytes \<Rightarrow> bytes \<Rightarrow> (trie option, store_error) result" where
  "storage_trie keccak fuel s blk_hash address =
     (case state_trie keccak s blk_hash of
        None \<Rightarrow> Ok None
      | Some tr \<Rightarrow>
          (rbind (read_account keccak fuel tr address) (\<lambda>st.
          Ok (case st of
            None \<Rightarrow> None
          | Some st \<Rightarrow>
              Some (open_storage_trie keccak s (hash_address keccak address) (as_storage_root st))))))"

definition get_storage_at_hash ::
  "(bytes \<Rightarrow> bytes) \<Rightarrow> nat \<Rightarrow> store \<Rightarrow> bytes \<Rightarrow> bytes \<Rightarrow> bytes \<Rightarrow> (u256 option, store_error) result" where
  "get_storage_at_hash keccak fuel s blk_hash address storage_key =
     (rbind (storage_trie keccak fuel s blk_hash address) (\<lambda>tr.
     case tr of
       None \<Rightarrow> Ok None
     | Some tr \<Rightarrow>
         (rbind (rmap_err StoreTrie (trie_get fuel tr (hash_key keccak storage_key))) (\<lambda>rlp.
         case rlp of
           None \<Rightarrow> Ok None
         | Some rlp \<Rightarrow>
             (rbind (rmap_err StoreRLPDecode (decode decode_u256 rlp)) (\<lambda>v.
             Ok (Some v)))))))"

definition get_storage_at ::
  "(bytes \<Rightarrow> bytes) \<Rightarrow> nat \<Rightarrow> store \<Rightarrow> u64 \<Rightarrow> bytes \<Rightarrow> bytes \<Rightarrow> (u256 option, store_error) result" where
  "get_storage_at keccak fuel s block_number address storage_key =
     (case get_canonical_block_hash s block_number of
        Some blk_hash \<Rightarrow> get_storage_at_hash keccak fuel s blk_hash address storage_key
      | None \<Rightarrow> Ok None)"

section \<open>Proofs\<close>

definition get_account_proof ::
  "(bytes \<Rightarrow> bytes) \<Rightarrow> nat \<Rightarrow> store \<Rightarrow> u64 \<Rightarrow> bytes \<Rightarrow> (bytes list option, store_error) result" where
  "get_account_proof keccak fuel s block_number address =
     (case get_canonical_block_hash s block_number of
        None \<Rightarrow> Ok None
      | Some blk_hash \<Rightarrow>
          (case state_trie keccak s blk_hash of
             None \<Rightarrow> Ok None
           | Some tr \<Rightarrow>
               (rbind (rmap_err StoreTrie (get_proof fuel tr (hash_address keccak address))) (\<lambda>p.
               Ok (Some p)))))"

definition get_storage_proof ::
  "(bytes \<Rightarrow> bytes) \<Rightarrow> nat \<Rightarrow> store \<Rightarrow> bytes \<Rightarrow> bytes \<Rightarrow> bytes \<Rightarrow> (bytes list, store_error) result" where
  "get_storage_proof keccak fuel s address storage_root storage_key =
     rmap_err StoreTrie
       (get_proof fuel (open_storage_trie keccak s (hash_address keccak address) storage_root)
          (hash_key keccak storage_key))"

definition range_proof ::
  "nat \<Rightarrow> trie \<Rightarrow> bytes \<Rightarrow> bytes option \<Rightarrow> (bytes list, store_error) result" where
  "range_proof fuel tr starting_hash last_hash =
     (rbind (rmap_err StoreTrie (get_proof fuel tr starting_hash)) (\<lambda>p.
     case last_hash of
       None \<Rightarrow> Ok p
     | Some last_hash \<Rightarrow>
         (rbind (rmap_err StoreTrie (get_proof fuel tr last_hash)) (\<lambda>q.
         Ok (p @ q)))))"

definition get_account_range_proof ::
  "(bytes \<Rightarrow> bytes) \<Rightarrow> nat \<Rightarrow> store \<Rightarrow> bytes \<Rightarrow> bytes \<Rightarrow> bytes option \<Rightarrow> (bytes list, store_error) result" where
  "get_account_range_proof keccak fuel s state_root starting_hash last_hash =
     range_proof fuel (open_state_trie keccak s state_root) starting_hash last_hash"

definition account_storage_root ::
  "(bytes \<Rightarrow> bytes) \<Rightarrow> nat \<Rightarrow> store \<Rightarrow> bytes \<Rightarrow> bytes \<Rightarrow> (bytes option, store_error) result" where
  "account_storage_root keccak fuel s state_root path =
     (rbind (rmap_err StoreTrie (trie_get fuel (open_state_trie keccak s state_root) path)) (\<lambda>account_rlp.
     case account_rlp of
       None \<Rightarrow> Ok None
     | Some account_rlp \<Rightarrow>
         (rbind (rmap_err StoreRLPDecode (decode decode_account_state account_rlp)) (\<lambda>st.
         Ok (Some (as_storage_root st))))))"

definition get_storage_range_proof ::
  "(bytes \<Rightarrow> bytes) \<Rightarrow> nat \<Rightarrow> store \<Rightarrow> bytes \<Rightarrow> bytes \<Rightarrow> bytes \<Rightarrow> bytes option
     \<Rightarrow> (bytes list option, store_error) result" where
  "get_storage_range_proof keccak fuel s state_root hashed_address starting_hash last_hash =
     (rbind (account_storage_root keccak fuel s state_root hashed_address) (\<lambda>storage_root.
     case storage_root of
       None \<Rightarrow> Ok None
     | Some storage_root \<Rightarrow>
         (rbind (range_proof fuel (open_storage_trie keccak s hashed_address storage_root) starting_hash last_hash) (\<lambda>p.
         Ok (Some p)))))"

fun collect_nodes ::
  "nat \<Rightarrow> trie \<Rightarrow> u64 \<Rightarrow> bytes list \<Rightarrow> u64 \<Rightarrow> bytes list \<Rightarrow> (bytes list, store_error) result" where
  "collect_nodes fuel tr byte_limit [] bytes_used nodes = Ok nodes"
| "collect_nodes fuel tr byte_limit (path # paths) bytes_used nodes =
     (if byte_limit \<le> bytes_used then Ok nodes
      else (rbind (rmap_err StoreTrie (trie_get_node fuel tr path)) (\<lambda>n.
           collect_nodes fuel tr byte_limit paths (bytes_used + of_nat (length n)) (nodes @ [n]))))"

definition get_trie_nodes ::
  "(bytes \<Rightarrow> bytes) \<Rightarrow> nat \<Rightarrow> store \<Rightarrow> bytes \<Rightarrow> bytes list \<Rightarrow> u64 \<Rightarrow> (bytes list, store_error) result" where
  "get_trie_nodes keccak fuel s state_root paths byte_limit =
     (case paths of
        [] \<Rightarrow> Ok []
      | [account_path] \<Rightarrow>
          (rbind (rmap_err StoreTrie (trie_get_node fuel (open_state_trie keccak s state_root) account_path)) (\<lambda>n.
          Ok [n]))
      | account_path # storage_paths \<Rightarrow>
          (rbind (account_storage_root keccak fuel s state_root account_path) (\<lambda>storage_root.
          case storage_root of
            None \<Rightarrow> Ok []
          | Some storage_root \<Rightarrow>
              if length account_path = 32
              then collect_nodes fuel (open_storage_trie keccak s account_path storage_root) byte_limit
                     storage_paths 0 []
              else Ok [])))"

section \<open>Account updates\<close>

record account_update =
  au_address :: bytes
  au_removed :: bool
  au_info :: "core_account_info option"
  au_code :: "bytes option"
  au_added_storage :: "(bytes \<times> u256) list"

definition account_update_new :: "bytes \<Rightarrow> account_update" where
  "account_update_new address =
     \<lparr>au_address = address, au_removed = False, au_info = None, au_code = None, au_added_storage = []\<rparr>"

definition account_update_removed :: "bytes \<Rightarrow> account_update" where
  "account_update_removed address = (account_update_new address)\<lparr>au_removed := True\<rparr>"

text \<open>A trie operation on a local trie: the result and the changed trie, or the error.\<close>

definition run_trie :: "('a, trie_error, trie) sm \<Rightarrow> trie \<Rightarrow> ('a \<times> trie, store_error) result" where
  "run_trie m tr =
     (case m tr of
        (Ok x, tr') \<Rightarrow> Ok (x, tr')
      | (Err e, _) \<Rightarrow> Err (StoreTrie e)
      | (Panic, _) \<Rightarrow> Panic
      | (Diverge, _) \<Rightarrow> Diverge)"

fun write_storage ::
  "(bytes \<Rightarrow> bytes) \<Rightarrow> nat \<Rightarrow> (bytes \<times> u256) list \<Rightarrow> trie \<Rightarrow> (trie, store_error) result" where
  "write_storage keccak fuel [] tr = Ok tr"
| "write_storage keccak fuel ((storage_key, storage_value) # rest) tr =
     (let hashed_key = hash_key keccak storage_key in
     rbind ((if storage_value = 0
            then (rbind (run_trie (trie_remove keccak fuel hashed_key) tr) (\<lambda>(_, t).
                 Ok t))
            else (rbind (run_trie (trie_insert keccak fuel hashed_key (encode_u256 storage_value)) tr) (\<lambda>(_, t).
                 Ok t)))) (\<lambda>tr'.
     write_storage keccak fuel rest tr'))"

definition put_storage_nodes :: "bytes \<Rightarrow> trie \<Rightarrow> store \<Rightarrow> store" where
  "put_storage_nodes hashed_address tr s =
     s\<lparr>s_storage_trie_nodes := (s_storage_trie_nodes s)(hashed_address := trie_nodes tr)\<rparr>"

definition put_state_nodes :: "trie \<Rightarrow> store \<Rightarrow> store" where
  "put_state_nodes tr s = s\<lparr>s_state_trie_nodes := trie_nodes tr\<rparr>"

definition apply_info :: "account_update \<Rightarrow> account_state \<Rightarrow> (account_state, store_error, store) sm" where
  "apply_info u st =
     (case au_info u of
        None \<Rightarrow> sreturn st
      | Some info \<Rightarrow>
          (sbind ((case au_code u of
                   Some code \<Rightarrow> smodify (add_account_code (ai_code_hash info) code)
                 | None \<Rightarrow> sreturn ())) (\<lambda>_.
          sreturn (st\<lparr>as_nonce := ai_nonce info, as_balance := ai_balance info,
          as_code_hash := ai_code_hash info\<rparr>))))"

definition apply_storage ::
  "(bytes \<Rightarrow> bytes) \<Rightarrow> nat \<Rightarrow> account_update \<Rightarrow> account_state \<Rightarrow> (account_state, store_error, store) sm" where
  "apply_storage keccak fuel u st =
     (if au_added_storage u = [] then sreturn st
      else (let hashed_address = hash_address keccak (au_address u) in
           sbind sget (\<lambda>s.
           sbind (slift (write_storage keccak fuel (au_added_storage u)
                  (open_storage_trie keccak s hashed_address (as_storage_root st)))) (\<lambda>tr.
           sbind (slift (rmap_err StoreTrie (trie_hash keccak fuel tr))) (\<lambda>(storage_root, tr).
           sbind (smodify (put_storage_nodes hashed_address tr)) (\<lambda>_.
           sreturn (st\<lparr>as_storage_root := storage_root\<rparr>)))))))"

definition apply_account_update ::
  "(bytes \<Rightarrow> bytes) \<Rightarrow> nat \<Rightarrow> account_update \<Rightarrow> trie \<Rightarrow> (trie, store_error, store) sm" where
  "apply_account_update keccak fuel u tr =
     (let hashed_address = hash_address keccak (au_address u) in
      if au_removed u
      then (sbind (slift (run_trie (trie_remove keccak fuel hashed_address) tr)) (\<lambda>(_, tr).
           sreturn tr))
      else (sbind (slift (read_account keccak fuel tr (au_address u))) (\<lambda>current.
           sbind (apply_info u (unwrap_or current (account_state_default keccak))) (\<lambda>st.
           sbind (apply_storage keccak fuel u st) (\<lambda>st.
           sbind (slift (run_trie (trie_insert keccak fuel hashed_address (encode_account_state st)) tr)) (\<lambda>(_, tr).
           sreturn tr))))))"

primrec apply_updates ::
  "(bytes \<Rightarrow> bytes) \<Rightarrow> nat \<Rightarrow> account_update list \<Rightarrow> trie \<Rightarrow> (trie, store_error, store) sm" where
  "apply_updates keccak fuel [] tr = sreturn tr"
| "apply_updates keccak fuel (u # us) tr =
     sbind (apply_account_update keccak fuel u tr) (apply_updates keccak fuel us)"

definition apply_account_updates ::
  "(bytes \<Rightarrow> bytes) \<Rightarrow> nat \<Rightarrow> bytes \<Rightarrow> account_update list \<Rightarrow> (bytes option, store_error, store) sm" where
  "apply_account_updates keccak fuel blk_hash account_updates =
     (sbind sget (\<lambda>s.
     case state_trie keccak s blk_hash of
       None \<Rightarrow> sreturn None
     | Some tr \<Rightarrow>
         (sbind (apply_updates keccak fuel account_updates tr) (\<lambda>tr.
         sbind (slift (rmap_err StoreTrie (trie_hash keccak fuel tr))) (\<lambda>(state_root, tr).
         sbind (smodify (put_state_nodes tr)) (\<lambda>_.
         sreturn (Some state_root)))))))"

section \<open>Genesis\<close>

fun write_genesis_storage ::
  "(bytes \<Rightarrow> bytes) \<Rightarrow> nat \<Rightarrow> (bytes \<times> u256) list \<Rightarrow> trie \<Rightarrow> (trie, store_error) result" where
  "write_genesis_storage keccak fuel [] tr = Ok tr"
| "write_genesis_storage keccak fuel ((storage_key, storage_value) # rest) tr =
     (rbind ((if storage_value \<noteq> 0
            then (rbind (run_trie (trie_insert keccak fuel (hash_key keccak storage_key) (encode_u256 storage_value)) tr) (\<lambda>(_, t).
                 Ok t))
            else Ok tr)) (\<lambda>tr'.
     write_genesis_storage keccak fuel rest tr'))"

definition setup_genesis_account ::
  "(bytes \<Rightarrow> bytes) \<Rightarrow> nat \<Rightarrow> bytes \<times> genesis_account \<Rightarrow> trie \<Rightarrow> (trie, store_error, store) sm" where
  "setup_genesis_account keccak fuel entry tr =
     (case entry of (address, account) \<Rightarrow>
        (let hashed_address = hash_address keccak address in
        let ch = code_hash keccak (ga_code account) in
        sbind (smodify (add_account_code ch (ga_code account))) (\<lambda>_.
        sbind sget (\<lambda>s.
        sbind (slift (write_genesis_storage keccak fuel (ga_storage account)
               (open_storage_trie keccak s hashed_address (EMPTY_TRIE_HASH keccak)))) (\<lambda>storage.
        sbind (slift (rmap_err StoreTrie (trie_hash keccak fuel storage))) (\<lambda>(storage_root, storage).
        sbind (smodify (put_storage_nodes hashed_address storage)) (\<lambda>_.
        let st = \<lparr>as_nonce = ga_nonce account, as_balance = ga_balance account,
            as_storage_root = storage_root, as_code_hash = ch\<rparr> in
        sbind (slift (run_trie (trie_insert keccak fuel hashed_address (encode_account_state st)) tr)) (\<lambda>(_, tr).
        sreturn tr))))))))"

primrec setup_genesis_accounts ::
  "(bytes \<Rightarrow> bytes) \<Rightarrow> nat \<Rightarrow> (bytes \<times> genesis_account) list \<Rightarrow> trie \<Rightarrow> (trie, store_error, store) sm" where
  "setup_genesis_accounts keccak fuel [] tr = sreturn tr"
| "setup_genesis_accounts keccak fuel (e # es) tr =
     sbind (setup_genesis_account keccak fuel e tr) (setup_genesis_accounts keccak fuel es)"

definition setup_genesis_state_trie ::
  "(bytes \<Rightarrow> bytes) \<Rightarrow> nat \<Rightarrow> (bytes \<times> genesis_account) list \<Rightarrow> (bytes, store_error, store) sm" where
  "setup_genesis_state_trie keccak fuel genesis_accounts =
     (sbind sget (\<lambda>s.
     sbind (setup_genesis_accounts keccak fuel genesis_accounts
            (open_state_trie keccak s (EMPTY_TRIE_HASH keccak))) (\<lambda>tr.
     sbind (slift (rmap_err StoreTrie (trie_hash keccak fuel tr))) (\<lambda>(state_root, tr).
     sbind (smodify (put_state_nodes tr)) (\<lambda>_.
     sreturn state_root)))))"

definition add_initial_state :: "(bytes \<Rightarrow> bytes) \<Rightarrow> nat \<Rightarrow> genesis \<Rightarrow> (unit, store_error, store) sm" where
  "add_initial_state keccak fuel g =
     (sbind (slift (rmap_err StoreTrie (get_genesis_block keccak fuel g))) (\<lambda>genesis_block.
     let number = bh_number (b_header genesis_block) in
     let genesis_hash = block_hash keccak genesis_block in
     sbind (sgets (\<lambda>s. get_block_header s number)) (\<lambda>stored.
     case stored of
       Some header \<Rightarrow>
         if compute_block_hash keccak header = genesis_hash then sreturn () else slift Panic
     | None \<Rightarrow>
         (sbind (setup_genesis_state_trie keccak fuel (gn_alloc g)) (\<lambda>_.
         sbind (store_add_block keccak genesis_block) (\<lambda>_.
         sbind (smodify (update_earliest_block_number number)) (\<lambda>_.
         sbind (smodify (update_latest_block_number number)) (\<lambda>_.
         sbind (smodify (set_canonical_block number genesis_hash)) (\<lambda>_.
         smodify (set_chain_config (gn_config g)))))))))))"

end
