(* ===== verification/World_Refine.thy ===== *)
theory World_Refine
  imports World_State Block_Properties
begin

text \<open>
  The world state in the store is a map of accounts. A trie whose keys are hashes has a root node
  of at least 32 bytes, so a committed trie can be opened again by its root hash; on that rests the
  reading back of accounts and slots after the application of account updates.
\<close>

section \<open>Tries with long keys have a hashed root\<close>

lemma length_pack_pairs: "length (pack_pairs p) = length p div 2"
  by (induction p rule: pack_pairs.induct) simp_all

lemma odd_half: "n mod 2 = Suc 0 \<Longrightarrow> n div 2 \<le> (n - Suc 0) div 2"
  by presburger

lemma encode_compact_ge: "(length p + 1) div 2 \<le> length (encode_compact p)"
  by (cases p rule: rev_cases) (auto simp: encode_compact_def Let_def length_pack_pairs odd_half)

lemma encode_bytes_ge: "length bs \<le> length (encode_bytes bs)" "1 \<le> length (encode_bytes bs)"
  by (auto simp: encode_bytes_def length_prefix_def Let_def)

lemma child_item_ge:
  "length (encode_raw_node (node_of k t)) \<le> length (child_item (hash_of k t)) \<or> (\<exists>h. hash_of k t = Hashed h)"
  by (auto simp: hash_of_def compute_hash_def from_encoded_raw_def)

lemma items_le_encoding: "valid_node n \<Longrightarrow> length (concat (node_items n)) \<le> length (encode_raw_node n)"
  by (simp add: encode_raw_node_items)

lemma encoding_covers_key:
  assumes k: "\<And>bs. length (k bs) = 32"
  shows "\<lbrakk> pwf t; small t; holds_key t q \<rbrakk> \<Longrightarrow>
    length q div 2 \<le> length (encode_raw_node (node_of k t)) \<or> 32 \<le> length (encode_raw_node (node_of k t))"
proof (induction t arbitrary: q)
  case (PLeaf p v)
  have "valid_node (node_of k (PLeaf p v))" using valid_node_of PLeaf.prems k by blast
  moreover have "length p div 2 \<le> length (encode_compact p)" using encode_compact_ge [of p] by linarith
  ultimately show ?case
    using items_le_encoding leaf_keys [OF PLeaf.prems(3)] encode_bytes_ge(1) [of "encode_compact p"]
    by fastforce
next
  case (PExt p t)
  have v: "valid_node (node_of k (PExt p t))" using valid_node_of PExt.prems k by blast
  obtain r where q: "q = p @ r" using holds_key_PExt PExt.prems(3) by blast
  show ?case
  proof (cases "hash_of k t")
    case (Hashed h)
    then have "32 \<le> length (encode_raw_node (node_of k (PExt p t)))"
      using v by (intro child_item_hashed [of _ h]) auto
    then show ?thesis by blast
  next
    case (Inline e)
    have "holds_key t r" using PExt.prems(1,3) q by (auto simp: holds_key_def intro: key_path_append_iff)
    moreover have "small t" "pwf t" using PExt.prems(1,2) small_PExt by auto
    ultimately have "length r div 2 \<le> length e"
      using PExt.IH [of r] Inline by (auto simp: hash_of_def compute_hash_def from_encoded_raw_def split: if_splits)
    moreover have "(length p + length r) div 2 \<le> (length p + 1) div 2 + length r div 2" by linarith
    moreover have "length e \<le> length (child_item (Inline e))" by simp
    moreover have "length (encode_bytes (encode_compact p)) + length (child_item (Inline e))
        \<le> length (encode_raw_node (node_of k (PExt p t)))"
      using items_le_encoding [OF v] Inline by (simp del: child_item.simps)
    ultimately have "(length p + length r) div 2 \<le> length (encode_raw_node (node_of k (PExt p t)))"
      using encode_compact_ge [of p] encode_bytes_ge(1) [of "encode_compact p"] by linarith
    then show ?thesis using q by simp
  qed
next
  case (PBranch ts v)
  have v: "valid_node (node_of k (PBranch ts v))" using valid_node_of PBranch.prems k by blast
  have l: "length ts = 16" using PBranch.prems(1) by (simp add: pwf_PBranch)
  show ?case
  proof (cases "\<exists>n r t. q = n # r \<and> unat n < 16 \<and> ts ! unat n = Some t \<and> holds_key t r")
    case False
    then have "length q \<le> 1" using PBranch.prems(3) l
      by (cases q) (auto simp: holds_key_def key_path_Cons split: if_splits option.splits)
    then show ?thesis by simp
  next
    case True
    then obtain n r t where q: "q = n # r" "unat n < 16" "ts ! unat n = Some t" "holds_key t r" by blast
    then have t: "Some t \<in> set ts" "pwf t" "small t"
      using l PBranch.prems small_child [OF PBranch.prems(2) l q(2,3)]
      by (metis nth_mem, metis nth_mem pwf_child_mem, blast)
    show ?thesis
    proof (cases "hash_of k t")
      case (Hashed h)
      then have "32 \<le> length (encode_raw_node (node_of k (PBranch ts v)))"
        using v t(1) by (intro child_item_hashed [of _ h]) (force intro!: rev_image_eqI)+
      then show ?thesis by blast
    next
      case (Inline e)
      then have "length r div 2 \<le> length (child_item (hash_of k t))"
        using PBranch.IH [OF t(1) _ t(2,3) q(4)]
        by (auto simp: hash_of_def compute_hash_def from_encoded_raw_def split: if_splits)
      moreover have "length (child_item (hash_of k t)) \<in> set (map (length \<circ> child_item \<circ> child_hash k) ts)"
        using t(1) by (force intro!: rev_image_eqI)
      then have "length (child_item (hash_of k t)) \<le> length (concat (map (child_item \<circ> child_hash k) ts))"
        using sum_list_elem by (simp add: length_concat comp_assoc)
      moreover have "Suc (length r) div 2 \<le> length r div 2 + 1" by linarith
      ultimately show ?thesis
        using q(1) encode_bytes_ge(2) [of v] items_le_encoding [OF v] by (simp add: comp_assoc)
    qed
  qed
qed

section \<open>Sessions on a stored trie\<close>

definition trie_size :: "ptrie option \<Rightarrow> nat" where
  "trie_size c = (case c of None \<Rightarrow> 0 | Some t \<Rightarrow> size t)"

text \<open>A trie that can be opened from the nodes of the store, all of its keys being hashes.\<close>

definition hash_keys :: "ptrie option \<Rightarrow> bool" where
  "hash_keys c \<longleftrightarrow> (\<forall>path. contents c path \<noteq> None \<longrightarrow> length path = 32)"

definition opened :: "(bytes \<Rightarrow> bytes) \<Rightarrow> (bytes \<rightharpoonup> bytes) \<Rightarrow> bytes \<Rightarrow> ptrie option \<Rightarrow> bool" where
  "opened k nodes root_hash c \<longleftrightarrow>
     represents k (trie_open k (InMemoryTrieDB nodes) root_hash) c \<and> hash_keys c \<and> root_hash = k (root_input k c)"

definition hash_inputs :: "(bytes \<Rightarrow> bytes) \<Rightarrow> ptrie set \<Rightarrow> bytes set" where
  "hash_inputs k U = insert [RLP_NULL] ((\<lambda>t. encode_raw_node (node_of k t)) ` U)"

lemma collision_resistant_mono: "collision_resistant k S \<Longrightarrow> T \<subseteq> S \<Longrightarrow> collision_resistant k T"
  by (auto simp: collision_resistant_def intro: inj_on_subset)

lemma hash_inputs_mono: "U \<subseteq> V \<Longrightarrow> hash_inputs k U \<subseteq> hash_inputs k V"
  by (auto simp: hash_inputs_def)

lemma hash_inputs_collisions: "collision_resistant k (hash_inputs k U) \<Longrightarrow> no_collisions k U"
  by (auto simp: collision_resistant_def no_collisions_def hash_inputs_def intro: inj_on_subset)

lemma root_is_hashed:
  assumes k: "\<And>bs. length (k bs) = 32" and r: "represents k tr (Some t)" and "hash_keys (Some t)"
  shows "hash_of k t = Hashed (k (encode_raw_node (node_of k t)))" "encode_raw_node (node_of k t) \<noteq> [RLP_NULL]"
proof -
  have w: "pwf t" "small t" "small_root (Some t)" using r small_root_small by (auto simp: represents_def proot_wf_def)
  then obtain q where q: "holds_key t q" using pwf_nonempty by blast
  then obtain path where "q = from_bytes path" using w(3) by (auto simp: small_root_def holds_key_def)
  moreover from this have "length path = 32" using q assms(3) by (auto simp: hash_keys_def contents_def holds_key_def)
  ultimately have "32 \<le> length (encode_raw_node (node_of k t))" using encoding_covers_key [OF k w(1,2) q] by auto
  then show "hash_of k t = Hashed (k (encode_raw_node (node_of k t)))" "encode_raw_node (node_of k t) \<noteq> [RLP_NULL]"
    by (auto simp: hash_of_def compute_hash_def from_encoded_raw_def)
qed

lemma opened_empty: "opened k nodes (EMPTY_TRIE_HASH k) None"
  using represents_new [of k "InMemoryTrieDB nodes"]
  by (simp add: opened_def trie_open_def trie_new_def hash_keys_def root_input_def EMPTY_TRIE_HASH_def)

fun op_key :: "trie_op \<Rightarrow> bytes" where
  "op_key (OpInsert p v) = p"
| "op_key (OpRemove p) = p"

lemma hash_keys_run:
  assumes "hash_keys c" "contents (abs_run c xs) = spec_map (contents c) xs" "\<forall>x \<in> set xs. length (op_key x) = 32"
  shows "hash_keys (abs_run c xs)"
proof -
  have "\<forall>path. spec_map m xs path \<noteq> None \<longrightarrow> length path = 32"
    if "\<forall>path. m path \<noteq> None \<longrightarrow> length path = 32" for m
    using that assms(3)
  proof (induction xs arbitrary: m)
    case (Cons x xs)
    then have "\<forall>path. spec_op x m path \<noteq> None \<longrightarrow> length path = 32" by (cases x) auto
    then show ?case using Cons.IH [of "spec_op x m"] Cons.prems(2) by simp
  qed simp
  then show ?thesis using assms(1,2) by (simp add: hash_keys_def)
qed

text \<open>Committing a trie leaves nodes from which it is opened again by its root hash.\<close>

lemma trie_hash_opens:
  assumes r: "represents k tr c" and "hash_keys c" and cr: "collision_resistant k (hash_inputs k (subs c))"
    and d: "st_db (t_state tr) = InMemoryTrieDB m" and fuel: "trie_size c < fuel"
  obtains tr' where "trie_hash k fuel tr = Ok (k (root_input k c), tr')"
    "opened k (trie_nodes tr') (k (root_input k c)) c"
proof (cases c)
  case None
  then have "t_root tr = None" using r by (simp add: represents_def)
  then have h: "trie_hash k fuel tr = Ok (EMPTY_TRIE_HASH k, tr)"
    by (simp add: trie_hash_def hash_no_commit_def)
  then show ?thesis
    using that [of tr] None opened_empty [of k m] d
    by (simp add: trie_nodes_def root_input_def EMPTY_TRIE_HASH_def)
next
  case (Some t)
  have k: "\<And>bs. length (k bs) = 32" using cr by (simp add: collision_resistant_def)
  note h = root_is_hashed [OF k r [unfolded Some] assms(2) [unfolded Some]]
  obtain tr' m' where t: "trie_hash k fuel tr = Ok (hash_no_commit k tr, tr')" "represents k tr' (Some t)"
      "t_state tr' = trie_state_new (InMemoryTrieDB m')" "t_root tr' = t_root tr"
    using trie_hash_represents [OF r [unfolded Some] _ d, of fuel] hash_inputs_collisions [OF cr] fuel Some
    by (auto simp: trie_size_def)
  have e: "hash_no_commit k tr' = k (root_input k c)" "hash_no_commit k tr = k (root_input k c)"
    using hash_root_input [OF t(2)] hash_root_input [OF r] Some by auto
  have "k (encode_raw_node (node_of k t)) \<noteq> EMPTY_TRIE_HASH k"
    using cr h(2) Some inj_onD [of k "hash_inputs k (subs c)" "encode_raw_node (node_of k t)" "[RLP_NULL]"]
    by (auto simp: EMPTY_TRIE_HASH_def collision_resistant_def hash_inputs_def)
  then have "represents k (trie_open k (InMemoryTrieDB m') (k (root_input k c))) c"
    using trie_open_represents [OF t(2,3) h(1)] e Some by simp
  then show ?thesis
    using that t(1,3) e(2) assms(2) by (auto simp: opened_def trie_nodes_def trie_state_new_def)
qed

lemma open_db: "st_db (t_state (trie_open k d h)) = d"
  by (simp add: trie_open_def trie_state_new_def)

lemma run_ops_session:
  assumes "represents k tr c" "hash_keys c" "st_db (t_state tr) = InMemoryTrieDB m"
    and "\<forall>x \<in> set xs. op_ok fuel x \<and> length (op_key x) = 32" "no_collisions k (trace_nodes c xs)"
  obtains rs tr' where "run_ops k fuel xs tr = (Ok rs, tr')" "represents k tr' (abs_run c xs)"
    "hash_keys (abs_run c xs)" "st_db (t_state tr') = InMemoryTrieDB m"
    "contents (abs_run c xs) = spec_map (contents c) xs"
  using run_ops_represents [OF assms(1) _ assms(5), of fuel] hash_keys_run [OF assms(2)] assms(3,4)
    movesD [OF run_ops_db [of k fuel xs], of tr] that
  by (cases "run_ops k fuel xs tr") auto

section \<open>Account updates on tries as values\<close>

definition storage_op :: "(bytes \<Rightarrow> bytes) \<Rightarrow> bytes \<times> u256 \<Rightarrow> trie_op" where
  "storage_op k kv = (if snd kv = 0 then OpRemove (k (fst kv)) else OpInsert (k (fst kv)) (encode_u256 (snd kv)))"

definition stored_account :: "ptrie option \<Rightarrow> bytes \<Rightarrow> account_state option" where
  "stored_account c a =
     (case contents c a of
        None \<Rightarrow> None
      | Some bs \<Rightarrow> (case decode decode_account_state bs of Ok st \<Rightarrow> Some st | _ \<Rightarrow> None))"

definition info_update :: "account_update \<Rightarrow> account_state \<Rightarrow> account_state" where
  "info_update u st =
     (case au_info u of
        None \<Rightarrow> st
      | Some info \<Rightarrow>
          st\<lparr>as_nonce := ai_nonce info, as_balance := ai_balance info, as_code_hash := ai_code_hash info\<rparr>)"

text \<open>The state trie and, for each hashed address, the storage trie.\<close>

type_synonym world_tries = "ptrie option \<times> (bytes \<Rightarrow> ptrie option)"

definition old_storage :: "(bytes \<Rightarrow> bytes) \<Rightarrow> account_update \<Rightarrow> world_tries \<Rightarrow> ptrie option" where
  "old_storage k u w =
     (if stored_account (fst w) (k (au_address u)) = None then None else snd w (k (au_address u)))"

definition new_storage :: "(bytes \<Rightarrow> bytes) \<Rightarrow> account_update \<Rightarrow> world_tries \<Rightarrow> ptrie option" where
  "new_storage k u w = abs_run (old_storage k u w) (map (storage_op k) (au_added_storage u))"

definition new_account :: "(bytes \<Rightarrow> bytes) \<Rightarrow> account_update \<Rightarrow> world_tries \<Rightarrow> account_state" where
  "new_account k u w =
     (let st = info_update u (unwrap_or (stored_account (fst w) (k (au_address u))) (account_state_default k))
      in if au_added_storage u = [] then st
         else st\<lparr>as_storage_root := k (root_input k (new_storage k u w))\<rparr>)"

definition state_op :: "(bytes \<Rightarrow> bytes) \<Rightarrow> account_update \<Rightarrow> world_tries \<Rightarrow> trie_op" where
  "state_op k u w =
     (if au_removed u then OpRemove (k (au_address u))
      else OpInsert (k (au_address u)) (encode_account_state (new_account k u w)))"

definition abs_update :: "(bytes \<Rightarrow> bytes) \<Rightarrow> account_update \<Rightarrow> world_tries \<Rightarrow> world_tries" where
  "abs_update k u w =
     (abs_op (state_op k u w) (fst w),
      if au_removed u then snd w else (snd w)(k (au_address u) := new_storage k u w))"

text \<open>The tries an update goes through: what the hash function is applied to.\<close>

definition update_nodes :: "(bytes \<Rightarrow> bytes) \<Rightarrow> account_update \<Rightarrow> world_tries \<Rightarrow> ptrie set" where
  "update_nodes k u w =
     subs (fst w) \<union> subs (fst (abs_update k u w)) \<union>
     (if au_removed u then {} else trace_nodes (old_storage k u w) (map (storage_op k) (au_added_storage u)))"

primrec abs_updates :: "(bytes \<Rightarrow> bytes) \<Rightarrow> account_update list \<Rightarrow> world_tries \<Rightarrow> world_tries" where
  "abs_updates k [] w = w"
| "abs_updates k (u # us) w = abs_updates k us (abs_update k u w)"

primrec updates_nodes :: "(bytes \<Rightarrow> bytes) \<Rightarrow> account_update list \<Rightarrow> world_tries \<Rightarrow> ptrie set" where
  "updates_nodes k [] w = subs (fst w)"
| "updates_nodes k (u # us) w = update_nodes k u w \<union> updates_nodes k us (abs_update k u w)"

primrec updates_fuel :: "(bytes \<Rightarrow> bytes) \<Rightarrow> account_update list \<Rightarrow> world_tries \<Rightarrow> nat" where
  "updates_fuel k [] w = Suc (trie_size (fst w))"
| "updates_fuel k (u # us) w = max (Suc (trie_size (new_storage k u w))) (updates_fuel k us (abs_update k u w))"

section \<open>The store holds the tries\<close>

definition account_held :: "(bytes \<Rightarrow> bytes) \<Rightarrow> (bytes \<Rightarrow> bytes \<rightharpoonup> bytes) \<Rightarrow> (bytes \<Rightarrow> ptrie option) \<Rightarrow> bytes \<Rightarrow> bytes \<Rightarrow> bool"
where
  "account_held k nodes cs a bs \<longleftrightarrow>
     (\<exists>st. wf_account_state st \<and> bs = encode_account_state st \<and> opened k (nodes a) (as_storage_root st) (cs a)) \<and>
     (\<forall>key rlp. contents (cs a) key = Some rlp \<longrightarrow> (\<exists>v. v \<noteq> 0 \<and> rlp = encode_u256 v))"

definition accounts_held :: "(bytes \<Rightarrow> bytes) \<Rightarrow> (bytes \<Rightarrow> bytes \<rightharpoonup> bytes) \<Rightarrow> world_tries \<Rightarrow> bool" where
  "accounts_held k nodes w \<longleftrightarrow> (\<forall>a bs. contents (fst w) a = Some bs \<longrightarrow> account_held k nodes (snd w) a bs)"

definition wf_update :: "account_update \<Rightarrow> bool" where
  "wf_update u \<longleftrightarrow> pred_option (\<lambda>i. length (ai_code_hash i) = 32) (au_info u)"

lemma decode_encode_account [simp]:
  "wf_account_state st \<Longrightarrow> decode decode_account_state (encode_account_state st) = Ok st"
  using decode_account_state_round_trip [of st "[]"] by (simp add: decode_def)

lemma decode_encode_slot [simp]: "decode decode_u256 (encode_u256 v) = Ok v"
  using rlp_u256.round_trip [of v "[]"] by (simp add: decode_def)

lemma length_encode_account:
  assumes "wf_account_state st"
  shows "length (encode_account_state st) < 2 ^ 59" "encode_account_state st \<noteq> []"
  using length_encoder_finish_bound [of "encoder_steps (encoder_new [])
      [encode_field encode_u64 (as_nonce st), encode_field encode_u256 (as_balance st),
       encode_field encode_h256 (as_storage_root st), encode_field encode_h256 (as_code_hash st)]"]
    assms length_encode_u256 [of "as_balance st"] length_encode_u64 [of "as_nonce st"]
  by (simp_all add: encode_account_state_def wf_account_state_def length_encode_fixed encoder_finish_nonempty)

lemma accounts_held_stored:
  assumes "accounts_held k nodes w"
  shows "stored_account (fst w) a = None \<longleftrightarrow> contents (fst w) a = None"
    "stored_account (fst w) a = Some st \<Longrightarrow> wf_account_state st \<and>
      contents (fst w) a = Some (encode_account_state st) \<and> opened k (nodes a) (as_storage_root st) (snd w a)"
proof -
  have "\<exists>st. wf_account_state st \<and> bs = encode_account_state st \<and> opened k (nodes a) (as_storage_root st) (snd w a)"
    if "contents (fst w) a = Some bs" for bs
    using assms that by (auto simp: accounts_held_def account_held_def)
  then show "stored_account (fst w) a = None \<longleftrightarrow> contents (fst w) a = None"
    "stored_account (fst w) a = Some st \<Longrightarrow> wf_account_state st \<and>
      contents (fst w) a = Some (encode_account_state st) \<and> opened k (nodes a) (as_storage_root st) (snd w a)"
    by (cases "contents (fst w) a"; fastforce simp: stored_account_def)+
qed

lemma read_account_held:
  assumes "represents k tr (fst w)" "collision_resistant k S" "accounts_held k nodes w" "65 < fuel"
  shows "read_account k fuel tr address = Ok (stored_account (fst w) (k address))"
proof -
  have "length (k address) = 32" using assms(2) by (simp add: collision_resistant_def)
  then have g: "trie_get fuel tr (k address) = Ok (contents (fst w) (k address))"
    using assms by (intro trie_get_contents) auto
  then show ?thesis
    using accounts_held_stored [OF assms(3), of "k address"]
    by (cases "stored_account (fst w) (k address)") (auto simp: read_account_def hash_address_def)
qed

lemma write_storage_run:
  "run_ops k fuel (map (storage_op k) kvs) tr = (Ok rs, tr') \<Longrightarrow> write_storage k fuel kvs tr = Ok tr'"
proof (induction kvs arbitrary: tr rs)
  case (Cons kv kvs)
  then obtain x s' xs where r: "run_op k fuel (storage_op k kv) tr = (Ok x, s')"
      "run_ops k fuel (map (storage_op k) kvs) s' = (Ok xs, tr')"
    by (auto simp: sbind_eq_Ok sm_steps)
  show ?case using r(1) Cons.IH [OF r(2)]
    by (cases kv) (auto simp: storage_op_def sbind_eq_Ok sm_steps run_trie_def hash_key_def split: if_splits)
qed (simp add: sm_steps)

section \<open>One update\<close>

lemma storage_ops_ok:
  assumes "\<And>bs. length (k bs) = 32" "65 < fuel"
  shows "\<forall>x \<in> set (map (storage_op k) kvs). op_ok fuel x \<and> length (op_key x) = 32"
proof -
  have "length (encode_u256 v) < 2 ^ 59" for v :: u256 using length_encode_u256 [of v] by simp
  moreover have "encode_u256 v \<noteq> []" for v :: u256 using rlp_u256.enc_nonempty [of v] by simp
  ultimately show ?thesis using assms by (auto simp: storage_op_def)
qed

lemma apply_storage_opens:
  assumes o: "opened k (s_storage_trie_nodes s a) (as_storage_root st) d" and a: "a = k (au_address u)"
    and cr: "collision_resistant k (hash_inputs k (trace_nodes d (map (storage_op k) (au_added_storage u))))"
    and fuel: "65 < fuel" "trie_size (abs_run d (map (storage_op k) (au_added_storage u))) < fuel"
  obtains nodes st' where "apply_storage k fuel u st s =
      (Ok st', s\<lparr>s_storage_trie_nodes := (s_storage_trie_nodes s)(a := nodes)\<rparr>)"
    "st' = (if au_added_storage u = [] then st else st\<lparr>as_storage_root :=
       k (root_input k (abs_run d (map (storage_op k) (au_added_storage u))))\<rparr>)"
    "opened k nodes (as_storage_root st') (abs_run d (map (storage_op k) (au_added_storage u)))"
    "contents (abs_run d (map (storage_op k) (au_added_storage u))) =
       spec_map (contents d) (map (storage_op k) (au_added_storage u))"
proof (cases "au_added_storage u = []")
  case True
  then show ?thesis using that [of st "s_storage_trie_nodes s a"] o by (simp add: apply_storage_def sm_steps)
next
  case False
  let ?ops = "map (storage_op k) (au_added_storage u)"
  let ?tr = "open_storage_trie k s a (as_storage_root st)"
  have k: "\<And>bs. length (k bs) = 32" using cr by (simp add: collision_resistant_def)
  have tr: "represents k ?tr d" "hash_keys d" "st_db (t_state ?tr) = InMemoryTrieDB (s_storage_trie_nodes s a)"
    using o by (auto simp: opened_def open_storage_trie_def open_db)
  obtain rs tr' where r: "run_ops k fuel ?ops ?tr = (Ok rs, tr')" "represents k tr' (abs_run d ?ops)"
      "hash_keys (abs_run d ?ops)" "st_db (t_state tr') = InMemoryTrieDB (s_storage_trie_nodes s a)"
      "contents (abs_run d ?ops) = spec_map (contents d) ?ops"
    by (rule run_ops_session [OF tr storage_ops_ok [OF k fuel(1)] hash_inputs_collisions [OF cr]])
  have "collision_resistant k (hash_inputs k (subs (abs_run d ?ops)))"
    by (rule collision_resistant_mono [OF cr hash_inputs_mono [OF subs_trace_nodes(2)]])
  then obtain tr'' where h: "trie_hash k fuel tr' = Ok (k (root_input k (abs_run d ?ops)), tr'')"
      "opened k (trie_nodes tr'') (k (root_input k (abs_run d ?ops))) (abs_run d ?ops)"
    by (rule trie_hash_opens [OF r(2,3) _ r(4) fuel(2)])
  have e: "apply_storage k fuel u st s = (Ok (st\<lparr>as_storage_root := k (root_input k (abs_run d ?ops))\<rparr>),
      s\<lparr>s_storage_trie_nodes := (s_storage_trie_nodes s)(a := trie_nodes tr'')\<rparr>)"
    using write_storage_run [OF r(1)] h(1) False a
    by (simp add: apply_storage_def sbind_def sm_steps hash_address_def put_storage_nodes_def Let_def)
  show ?thesis using that [OF e] h(2) r(5) False by simp
qed

definition new_codes :: "account_update \<Rightarrow> (bytes \<rightharpoonup> bytes) \<Rightarrow> bytes \<rightharpoonup> bytes" where
  "new_codes u codes =
     (case (au_info u, au_code u) of
        (Some info, Some code) \<Rightarrow> codes(ai_code_hash info \<mapsto> code)
      | _ \<Rightarrow> codes)"

lemma apply_info_step:
  "apply_info u st s = (Ok (info_update u st), s\<lparr>s_account_codes := new_codes u (s_account_codes s)\<rparr>)"
  by (simp add: apply_info_def info_update_def new_codes_def sm_steps sbind_def add_account_code_def
      split: option.split)

definition only_state_changed :: "store \<Rightarrow> store \<Rightarrow> bool" where
  "only_state_changed s s' \<longleftrightarrow>
     (\<exists>codes nodes snodes. s' = s\<lparr>s_account_codes := codes, s_storage_trie_nodes := nodes,
        s_state_trie_nodes := snodes\<rparr>)"

lemma new_account_wf:
  assumes "wf_update u" "accounts_held k nodes w" "\<And>bs. length (k bs) = 32"
  shows "wf_account_state (new_account k u w)"
proof -
  have "wf_account_state (unwrap_or (stored_account (fst w) (k (au_address u))) (account_state_default k))"
    using accounts_held_stored(2) [OF assms(2)] assms(3)
    by (cases "stored_account (fst w) (k (au_address u))")
      (simp_all add: unwrap_or_def account_state_default_def wf_account_state_def EMPTY_TRIE_HASH_def
        EMPTY_KECCACK_HASH_def)
  then show ?thesis
    using assms(1,3) by (auto simp: new_account_def info_update_def wf_update_def wf_account_state_def Let_def
        split: option.split)
qed

lemma old_storage_opened:
  assumes "accounts_held k nodes w"
  shows "opened k (nodes (k (au_address u)))
    (as_storage_root (unwrap_or (stored_account (fst w) (k (au_address u))) (account_state_default k)))
    (old_storage k u w)"
  using accounts_held_stored(2) [OF assms] opened_empty
  by (cases "stored_account (fst w) (k (au_address u))")
    (simp_all add: unwrap_or_def account_state_default_def old_storage_def)

lemma state_op_ok:
  assumes "wf_update u" "accounts_held k nodes w" "\<And>bs. length (k bs) = 32" "65 < fuel"
  shows "op_ok fuel (state_op k u w)" "length (op_key (state_op k u w)) = 32"
  using length_encode_account [OF new_account_wf [OF assms(1-3)]] assms(3,4) by (simp_all add: state_op_def)

lemma slots_after:
  assumes "\<forall>key rlp. contents d key = Some rlp \<longrightarrow> (\<exists>v. v \<noteq> 0 \<and> rlp = encode_u256 v)"
    and "spec_map (contents d) (map (storage_op k) kvs) key = Some rlp"
  shows "\<exists>v. v \<noteq> 0 \<and> rlp = encode_u256 v"
proof -
  have "\<exists>v. v \<noteq> 0 \<and> rlp = encode_u256 v"
    if "\<forall>key rlp. m key = Some rlp \<longrightarrow> (\<exists>v. v \<noteq> 0 \<and> rlp = encode_u256 v)"
      "spec_map m (map (storage_op k) kvs) key = Some rlp" for m
    using that
  proof (induction kvs arbitrary: m)
    case (Cons kv kvs)
    then have "\<forall>key rlp. spec_op (storage_op k kv) m key = Some rlp \<longrightarrow> (\<exists>v. v \<noteq> 0 \<and> rlp = encode_u256 v)"
      by (auto simp: storage_op_def)
    then show ?case using Cons.IH [of "spec_op (storage_op k kv) m"] Cons.prems(2) by simp
  qed simp
  then show ?thesis using assms by blast
qed

lemma old_storage_slots:
  assumes "accounts_held k nodes w" "contents (old_storage k u w) key = Some rlp"
  shows "\<exists>v. v \<noteq> 0 \<and> rlp = encode_u256 v"
  using assms accounts_held_stored(1) [OF assms(1), of "k (au_address u)"]
  by (auto simp: old_storage_def accounts_held_def account_held_def split: if_splits)

text \<open>The change of the state trie that an update ends with.\<close>

lemma state_op_step:
  assumes r: "represents k tr (fst w)" "hash_keys (fst w)" "st_db (t_state tr) = InMemoryTrieDB m"
    and held: "accounts_held k nodes w" and wf: "wf_update u" and k: "\<And>bs. length (k bs) = 32"
    and nc: "no_collisions k (subs (fst w) \<union> subs (fst (abs_update k u w)))" and fuel: "65 < fuel"
  obtains o' tr' where "run_op k fuel (state_op k u w) tr = (Ok o', tr')"
    "represents k tr' (fst (abs_update k u w))" "hash_keys (fst (abs_update k u w))"
    "st_db (t_state tr') = InMemoryTrieDB m"
    "contents (fst (abs_update k u w)) = spec_op (state_op k u w) (contents (fst w))"
proof -
  have "\<forall>x \<in> set [state_op k u w]. op_ok fuel x \<and> length (op_key x) = 32"
    using state_op_ok [OF wf held k fuel] by simp
  moreover have "no_collisions k (trace_nodes (fst w) [state_op k u w])"
    using nc by (simp add: abs_update_def trace_nodes_def)
  ultimately obtain rs tr' where "run_ops k fuel [state_op k u w] tr = (Ok rs, tr')"
      "represents k tr' (abs_run (fst w) [state_op k u w])" "hash_keys (abs_run (fst w) [state_op k u w])"
      "st_db (t_state tr') = InMemoryTrieDB m"
      "contents (abs_run (fst w) [state_op k u w]) = spec_map (contents (fst w)) [state_op k u w]"
    by (rule run_ops_session [OF r])
  then show ?thesis using that by (auto simp: sbind_eq_Ok sm_steps abs_update_def)
qed

lemma held_after_removal:
  assumes "accounts_held k nodes w" "au_removed u"
    and "contents (fst (abs_update k u w)) = spec_op (state_op k u w) (contents (fst w))"
  shows "accounts_held k nodes (abs_update k u w)"
  using assms by (auto simp: accounts_held_def abs_update_def state_op_def split: if_splits)

lemma held_after_write:
  assumes held: "accounts_held k nodes w" and u: "\<not> au_removed u" "wf_update u"
    and k: "\<And>bs. length (k bs) = 32"
    and c: "contents (fst (abs_update k u w)) = spec_op (state_op k u w) (contents (fst w))"
    and o: "opened k nodes' (as_storage_root (new_account k u w)) (new_storage k u w)"
    and d: "contents (new_storage k u w) =
       spec_map (contents (old_storage k u w)) (map (storage_op k) (au_added_storage u))"
  shows "accounts_held k (nodes(k (au_address u) := nodes')) (abs_update k u w)"
proof -
  have "account_held k (nodes(k (au_address u) := nodes')) (snd (abs_update k u w)) (k (au_address u))
      (encode_account_state (new_account k u w))"
    using o d new_account_wf [OF u(2) held k] slots_after [of "old_storage k u w" k "au_added_storage u"]
      old_storage_slots [OF held] u(1)
    by (auto simp: account_held_def abs_update_def)
  moreover have "account_held k (nodes(k (au_address u) := nodes')) (snd (abs_update k u w)) a bs"
    if "a \<noteq> k (au_address u)" "contents (fst w) a = Some bs" for a bs
    using held that by (simp add: accounts_held_def account_held_def abs_update_def)
  ultimately show ?thesis
    using c u(1) by (auto simp: accounts_held_def state_op_def split: if_splits)
qed

section \<open>The world as a map of accounts\<close>

text \<open>
  What the tries mean: for a hashed address an account or none, and for a hashed key its slot, zero
  where nothing is stored. The specification of an update changes this map.
\<close>

record account_view =
  av_nonce :: u64
  av_balance :: u256
  av_code_hash :: bytes
  av_storage :: "bytes \<Rightarrow> u256"

definition slot :: "ptrie option \<Rightarrow> bytes \<Rightarrow> u256" where
  "slot c key =
     (case contents c key of
        None \<Rightarrow> 0
      | Some rlp \<Rightarrow> (case decode decode_u256 rlp of Ok v \<Rightarrow> v | _ \<Rightarrow> 0))"

definition view_account :: "account_state \<Rightarrow> ptrie option \<Rightarrow> account_view" where
  "view_account st c =
     \<lparr>av_nonce = as_nonce st, av_balance = as_balance st, av_code_hash = as_code_hash st, av_storage = slot c\<rparr>"

definition world_view :: "world_tries \<Rightarrow> bytes \<rightharpoonup> account_view" where
  "world_view w a = map_option (\<lambda>st. view_account st (snd w a)) (stored_account (fst w) a)"

definition new_view :: account_view where
  "new_view = \<lparr>av_nonce = 0, av_balance = 0, av_code_hash = EMPTY_KECCACK_HASH, av_storage = (\<lambda>_. 0)\<rparr>"

definition spec_storage :: "(bytes \<Rightarrow> bytes) \<Rightarrow> (bytes \<times> u256) list \<Rightarrow> (bytes \<Rightarrow> u256) \<Rightarrow> bytes \<Rightarrow> u256" where
  "spec_storage k kvs m = foldl (\<lambda>m (key, v). m(k key := v)) m kvs"

definition spec_update ::
  "(bytes \<Rightarrow> bytes) \<Rightarrow> (bytes \<rightharpoonup> account_view) \<Rightarrow> account_update \<Rightarrow> bytes \<rightharpoonup> account_view" where
  "spec_update k W u =
     (if au_removed u then W(k (au_address u) := None)
      else
        let old = unwrap_or (W (k (au_address u))) new_view;
            new = (case au_info u of
                     None \<Rightarrow> old
                   | Some i \<Rightarrow> old\<lparr>av_nonce := ai_nonce i, av_balance := ai_balance i, av_code_hash := ai_code_hash i\<rparr>)
        in W(k (au_address u) \<mapsto> new\<lparr>av_storage := spec_storage k (au_added_storage u) (av_storage new)\<rparr>))"

lemma slot_spec:
  assumes "contents d = spec_map (contents c) (map (storage_op k) kvs)"
  shows "slot d = spec_storage k kvs (slot c)"
proof -
  let ?val = "\<lambda>m key. case m key of None \<Rightarrow> 0 | Some rlp \<Rightarrow> (case decode decode_u256 rlp of Ok v \<Rightarrow> v | _ \<Rightarrow> 0)"
  have "?val (spec_map m (map (storage_op k) kvs)) = spec_storage k kvs (?val m)" for m
  proof (induction kvs arbitrary: m)
    case (Cons kv kvs)
    have "?val (spec_op (storage_op k kv) m) = (case kv of (key, v) \<Rightarrow> (?val m)(k key := v))"
      by (cases kv) (auto simp: storage_op_def fun_eq_iff)
    then show ?case by (cases kv) (simp add: Cons.IH spec_storage_def)
  qed (simp add: spec_storage_def)
  then show ?thesis by (simp add: slot_def [abs_def] assms)
qed

lemma slot_None [simp]: "slot None = (\<lambda>_. 0)"
  by (simp add: slot_def fun_eq_iff)

lemma view_old:
  "unwrap_or (world_view w (k (au_address u))) new_view =
     view_account (unwrap_or (stored_account (fst w) (k (au_address u))) (account_state_default k)) (old_storage k u w)"
  by (cases "stored_account (fst w) (k (au_address u))")
    (simp_all add: world_view_def unwrap_or_def old_storage_def view_account_def new_view_def account_state_default_def)

lemma world_view_update:
  assumes held: "accounts_held k nodes w" and wf: "wf_update u" and k: "\<And>bs. length (k bs) = 32"
    and c: "contents (fst (abs_update k u w)) = spec_op (state_op k u w) (contents (fst w))"
    and d: "\<not> au_removed u \<Longrightarrow> contents (new_storage k u w) =
       spec_map (contents (old_storage k u w)) (map (storage_op k) (au_added_storage u))"
  shows "world_view (abs_update k u w) = spec_update k (world_view w) u"
proof (rule ext)
  fix a
  have s: "stored_account (fst (abs_update k u w)) a =
      (if a = k (au_address u) then (if au_removed u then None else Some (new_account k u w))
       else stored_account (fst w) a)"
    using c new_account_wf [OF wf held k] by (simp add: stored_account_def state_op_def)
  show "world_view (abs_update k u w) a = spec_update k (world_view w) u a"
  proof (cases "a = k (au_address u) \<and> \<not> au_removed u")
    case True
    then show ?thesis
      using s view_old [of w k u] slot_spec [OF d]
      by (auto simp: world_view_def spec_update_def view_account_def new_account_def info_update_def abs_update_def
          Let_def split: option.split)
  next
    case False
    then show ?thesis using s by (auto simp: world_view_def spec_update_def abs_update_def Let_def)
  qed
qed

lemma apply_account_update_step:
  assumes r: "represents k tr (fst w)" "hash_keys (fst w)" "st_db (t_state tr) = InMemoryTrieDB m"
    and held: "accounts_held k (s_storage_trie_nodes s) w" and wf: "wf_update u"
    and cr: "collision_resistant k (hash_inputs k (update_nodes k u w))"
    and fuel: "65 < fuel" "trie_size (new_storage k u w) < fuel"
  obtains tr' codes nodes where
    "apply_account_update k fuel u tr s = (Ok tr', s\<lparr>s_account_codes := codes, s_storage_trie_nodes := nodes\<rparr>)"
    "represents k tr' (fst (abs_update k u w))" "hash_keys (fst (abs_update k u w))"
    "st_db (t_state tr') = InMemoryTrieDB m" "accounts_held k nodes (abs_update k u w)"
    "world_view (abs_update k u w) = spec_update k (world_view w) u"
proof -
  let ?a = "k (au_address u)"
  have k: "\<And>bs. length (k bs) = 32" using cr by (simp add: collision_resistant_def)
  have nc: "no_collisions k (subs (fst w) \<union> subs (fst (abs_update k u w)))"
    using hash_inputs_collisions [OF cr] by (rule no_collisions_mono) (auto simp: update_nodes_def)
  obtain o' tr' where t: "run_op k fuel (state_op k u w) tr = (Ok o', tr')"
    "represents k tr' (fst (abs_update k u w))" "hash_keys (fst (abs_update k u w))"
    "st_db (t_state tr') = InMemoryTrieDB m"
    "contents (fst (abs_update k u w)) = spec_op (state_op k u w) (contents (fst w))"
    by (rule state_op_step [OF r held wf k nc fuel(1)])
  show ?thesis
  proof (cases "au_removed u")
    case True
    then have "apply_account_update k fuel u tr s =
        (Ok tr', s\<lparr>s_account_codes := s_account_codes s, s_storage_trie_nodes := s_storage_trie_nodes s\<rparr>)"
      using t(1) by (simp add: apply_account_update_def state_op_def hash_address_def run_trie_def sbind_def sm_steps)
    from that [OF this t(2-4)] show ?thesis
      using held_after_removal [OF held True t(5)] world_view_update [OF held wf k t(5)] True by simp
  next
    case False
    let ?st = "unwrap_or (stored_account (fst w) ?a) (account_state_default k)"
    let ?s = "s\<lparr>s_account_codes := new_codes u (s_account_codes s)\<rparr>"
    have o: "opened k (s_storage_trie_nodes ?s ?a) (as_storage_root (info_update u ?st)) (old_storage k u w)"
      using old_storage_opened [OF held, of u] by (simp add: info_update_def split: option.split)
    have cr': "collision_resistant k (hash_inputs k (trace_nodes (old_storage k u w)
        (map (storage_op k) (au_added_storage u))))"
      by (rule collision_resistant_mono [OF cr hash_inputs_mono]) (auto simp: update_nodes_def False)
    obtain nodes st' where a: "apply_storage k fuel u (info_update u ?st) ?s =
        (Ok st', ?s\<lparr>s_storage_trie_nodes := (s_storage_trie_nodes ?s)(?a := nodes)\<rparr>)"
        "st' = new_account k u w" "opened k nodes (as_storage_root st') (new_storage k u w)"
        "contents (new_storage k u w) =
          spec_map (contents (old_storage k u w)) (map (storage_op k) (au_added_storage u))"
      using apply_storage_opens [OF o refl cr' fuel(1) fuel(2) [unfolded new_storage_def]]
      unfolding new_storage_def [symmetric] new_account_def [unfolded Let_def, symmetric] by metis
    have "apply_account_update k fuel u tr s =
        (Ok tr', s\<lparr>s_account_codes := new_codes u (s_account_codes s),
           s_storage_trie_nodes := (s_storage_trie_nodes s)(?a := nodes)\<rparr>)"
      using t(1) a(1,2) False read_account_held [OF r(1) cr held fuel(1), of "au_address u"]
      by (simp add: apply_account_update_def state_op_def hash_address_def run_trie_def sbind_def sm_steps
          apply_info_step Let_def split: prod.splits result.splits)
    from that [OF this t(2-4)] show ?thesis
      using held_after_write [OF held False wf k t(5) _ a(4)] a(2,3) world_view_update [OF held wf k t(5) a(4)] by simp
  qed
qed

section \<open>All updates of a block\<close>

lemma apply_updates_steps:
  assumes "represents k tr (fst w)" "hash_keys (fst w)" "st_db (t_state tr) = InMemoryTrieDB m"
    and "accounts_held k (s_storage_trie_nodes s) w" "list_all wf_update us"
    and "collision_resistant k (hash_inputs k (updates_nodes k us w))"
    and "65 < fuel" "updates_fuel k us w \<le> fuel"
  shows "\<exists>tr' codes nodes.
    apply_updates k fuel us tr s = (Ok tr', s\<lparr>s_account_codes := codes, s_storage_trie_nodes := nodes\<rparr>) \<and>
    represents k tr' (fst (abs_updates k us w)) \<and> hash_keys (fst (abs_updates k us w)) \<and>
    st_db (t_state tr') = InMemoryTrieDB m \<and> accounts_held k nodes (abs_updates k us w) \<and>
    world_view (abs_updates k us w) = foldl (spec_update k) (world_view w) us \<and>
    trie_size (fst (abs_updates k us w)) < fuel \<and> subs (fst (abs_updates k us w)) \<subseteq> updates_nodes k us w"
  using assms
proof (induction us arbitrary: tr w s)
  case Nil
  then have "apply_updates k fuel [] tr s =
      (Ok tr, s\<lparr>s_account_codes := s_account_codes s, s_storage_trie_nodes := s_storage_trie_nodes s\<rparr>)"
    by (simp add: sm_steps)
  with Nil show ?case
    by (intro exI [of _ tr] exI [of _ "s_account_codes s"] exI [of _ "s_storage_trie_nodes s"]) simp
next
  case (Cons u us)
  have c1: "collision_resistant k (hash_inputs k (update_nodes k u w))"
    "collision_resistant k (hash_inputs k (updates_nodes k us (abs_update k u w)))"
    by (rule collision_resistant_mono [OF Cons.prems(6) hash_inputs_mono], simp)+
  have "trie_size (new_storage k u w) < fuel" "wf_update u" using Cons.prems(5,8) by simp_all
  then obtain tr1 codes1 nodes1 where t: "apply_account_update k fuel u tr s =
      (Ok tr1, s\<lparr>s_account_codes := codes1, s_storage_trie_nodes := nodes1\<rparr>)"
      "represents k tr1 (fst (abs_update k u w))" "hash_keys (fst (abs_update k u w))"
      "st_db (t_state tr1) = InMemoryTrieDB m" "accounts_held k nodes1 (abs_update k u w)"
      "world_view (abs_update k u w) = spec_update k (world_view w) u"
    using apply_account_update_step [OF Cons.prems(1-4) _ c1(1) Cons.prems(7)] by metis
  let ?s = "s\<lparr>s_account_codes := codes1, s_storage_trie_nodes := nodes1\<rparr>"
  have "\<exists>tr' codes nodes.
      apply_updates k fuel us tr1 ?s = (Ok tr', ?s\<lparr>s_account_codes := codes, s_storage_trie_nodes := nodes\<rparr>) \<and>
      represents k tr' (fst (abs_updates k us (abs_update k u w))) \<and>
      hash_keys (fst (abs_updates k us (abs_update k u w))) \<and>
      st_db (t_state tr') = InMemoryTrieDB m \<and> accounts_held k nodes (abs_updates k us (abs_update k u w)) \<and>
      world_view (abs_updates k us (abs_update k u w)) = foldl (spec_update k) (world_view (abs_update k u w)) us \<and>
      trie_size (fst (abs_updates k us (abs_update k u w))) < fuel \<and>
      subs (fst (abs_updates k us (abs_update k u w))) \<subseteq> updates_nodes k us (abs_update k u w)"
    using Cons.prems(5,7,8) t c1(2) by (intro Cons.IH) simp_all
  then show ?case using t(1,6) by (auto simp: sbind_def)
qed

definition store_holds :: "(bytes \<Rightarrow> bytes) \<Rightarrow> store \<Rightarrow> bytes \<Rightarrow> world_tries \<Rightarrow> bool" where
  "store_holds k s state_root w \<longleftrightarrow>
     opened k (s_state_trie_nodes s) state_root (fst w) \<and> accounts_held k (s_storage_trie_nodes s) w"

lemma apply_account_updates_holds:
  assumes h: "s_headers s h = Some header" and w: "store_holds k s (bh_state_root header) w"
    and us: "list_all wf_update us" and cr: "collision_resistant k (hash_inputs k (updates_nodes k us w))"
    and fuel: "65 < fuel" "updates_fuel k us w \<le> fuel"
  obtains s' root_hash where "apply_account_updates k fuel h us s = (Ok (Some root_hash), s')"
    "store_holds k s' root_hash (abs_updates k us w)" "only_state_changed s s'"
    "world_view (abs_updates k us w) = foldl (spec_update k) (world_view w) us"
    "root_hash = k (root_input k (fst (abs_updates k us w)))"
proof -
  let ?w = "abs_updates k us w" and ?tr = "open_state_trie k s (bh_state_root header)"
  have r: "represents k ?tr (fst w)" "hash_keys (fst w)"
    "st_db (t_state ?tr) = InMemoryTrieDB (s_state_trie_nodes s)" "accounts_held k (s_storage_trie_nodes s) w"
    using w by (auto simp: store_holds_def opened_def open_state_trie_def open_db)
  obtain tr' codes nodes where t:
    "apply_updates k fuel us ?tr s = (Ok tr', s\<lparr>s_account_codes := codes, s_storage_trie_nodes := nodes\<rparr>)"
    "represents k tr' (fst ?w)" "hash_keys (fst ?w)" "st_db (t_state tr') = InMemoryTrieDB (s_state_trie_nodes s)"
    "accounts_held k nodes ?w" "world_view ?w = foldl (spec_update k) (world_view w) us"
    "trie_size (fst ?w) < fuel" "subs (fst ?w) \<subseteq> updates_nodes k us w"
    using apply_updates_steps [OF r us cr fuel] by blast
  obtain tr'' where c: "trie_hash k fuel tr' = Ok (k (root_input k (fst ?w)), tr'')"
      "opened k (trie_nodes tr'') (k (root_input k (fst ?w))) (fst ?w)"
    by (rule trie_hash_opens [OF t(2,3) collision_resistant_mono [OF cr hash_inputs_mono [OF t(8)]] t(4,7)])
  let ?s = "s\<lparr>s_account_codes := codes, s_storage_trie_nodes := nodes, s_state_trie_nodes := trie_nodes tr''\<rparr>"
  have "apply_account_updates k fuel h us s = (Ok (Some (k (root_input k (fst ?w)))), ?s)"
    using t(1) c(1) h by (simp add: apply_account_updates_def state_trie_def get_block_header_by_hash_def
        sbind_def sm_steps put_state_nodes_def)
  moreover have "store_holds k ?s (k (root_input k (fst ?w))) ?w" using c(2) t(5) by (simp add: store_holds_def)
  moreover have "only_state_changed s ?s" by (auto simp: only_state_changed_def)
  ultimately show ?thesis using that t(6) by blast
qed

definition info_of :: "account_view \<Rightarrow> core_account_info" where
  "info_of v = \<lparr>ai_code_hash = av_code_hash v, ai_balance = av_balance v, ai_nonce = av_nonce v\<rparr>"

definition slot_of :: "account_view \<Rightarrow> bytes \<Rightarrow> u256 option" where
  "slot_of v key = (if av_storage v key = 0 then None else Some (av_storage v key))"

lemma store_holds_reads:
  assumes w: "store_holds k s (bh_state_root header) w" and h: "s_headers s h = Some header"
    and k: "\<And>bs. length (k bs) = 32" and fuel: "65 < fuel"
  shows "get_account_info_by_hash k fuel s h address = Ok (map_option info_of (world_view w (k address)))"
    "get_storage_at_hash k fuel s h address key =
       Ok (Option.bind (world_view w (k address)) (\<lambda>v. slot_of v (k key)))"
proof -
  have cr: "collision_resistant k {}" using k by (simp add: collision_resistant_def)
  have held: "accounts_held k (s_storage_trie_nodes s) w"
    and r: "represents k (open_state_trie k s (bh_state_root header)) (fst w)"
    using w by (auto simp: store_holds_def opened_def open_state_trie_def)
  note a = read_account_held [OF r cr held fuel, of address]
  have st: "state_trie k s h = Some (open_state_trie k s (bh_state_root header))"
    using h by (simp add: state_trie_def get_block_header_by_hash_def)
  show "get_account_info_by_hash k fuel s h address = Ok (map_option info_of (world_view w (k address)))"
    using a st by (cases "stored_account (fst w) (k address)")
      (simp_all add: get_account_info_by_hash_def world_view_def view_account_def info_of_def)
  show "get_storage_at_hash k fuel s h address key =
       Ok (Option.bind (world_view w (k address)) (\<lambda>v. slot_of v (k key)))"
  proof (cases "stored_account (fst w) (k address)")
    case None
    then show ?thesis using a st by (simp add: get_storage_at_hash_def storage_trie_def world_view_def)
  next
    case (Some acc)
    have o: "opened k (s_storage_trie_nodes s (k address)) (as_storage_root acc) (snd w (k address))"
      using accounts_held_stored(2) [OF held Some] by blast
    then have g: "trie_get fuel (open_storage_trie k s (k address) (as_storage_root acc)) (k key) =
        Ok (contents (snd w (k address)) (k key))"
      using k fuel by (intro trie_get_contents [OF _ cr]) (auto simp: opened_def open_storage_trie_def)
    have "\<exists>v. v \<noteq> 0 \<and> rlp = encode_u256 v" if "contents (snd w (k address)) (k key) = Some rlp" for rlp
      using held that accounts_held_stored(2) [OF held Some]
      by (auto simp: accounts_held_def account_held_def)
    then show ?thesis
      using a st Some g by (cases "contents (snd w (k address)) (k key)")
        (force simp: get_storage_at_hash_def storage_trie_def world_view_def view_account_def slot_of_def slot_def
          hash_address_def hash_key_def)+
  qed
qed

end
