(* ===== verification/Genesis_State.thy ===== *)
theory Genesis_State
  imports World_Refine
begin

text \<open>
  The genesis state. Writing the genesis accounts to the store is the application of one update per
  account to the empty state, and the root it commits is the one \<^verbatim>\<open>Genesis::compute_state_root\<close>
  computed for the genesis header, which the source only checks in debug builds.
\<close>

section \<open>Genesis accounts as updates\<close>

definition genesis_slots :: "genesis_account \<Rightarrow> (bytes \<times> u256) list" where
  "genesis_slots ga = filter (\<lambda>(key, v). v \<noteq> 0) (ga_storage ga)"

definition genesis_update :: "(bytes \<Rightarrow> bytes) \<Rightarrow> bytes \<times> genesis_account \<Rightarrow> account_update" where
  "genesis_update k e =
     \<lparr>au_address = fst e, au_removed = False,
      au_info = Some \<lparr>ai_code_hash = code_hash k (ga_code (snd e)), ai_balance = ga_balance (snd e),
                      ai_nonce = ga_nonce (snd e)\<rparr>,
      au_code = Some (ga_code (snd e)), au_added_storage = genesis_slots (snd e)\<rparr>"

lemma genesis_update_simps [simp]:
  "au_address (genesis_update k e) = fst e" "\<not> au_removed (genesis_update k e)"
  "au_added_storage (genesis_update k e) = genesis_slots (snd e)"
  by (simp_all add: genesis_update_def)

lemma write_genesis_storage_eq:
  "write_genesis_storage k fuel kvs tr = write_storage k fuel (filter (\<lambda>(key, v). v \<noteq> 0) kvs) tr"
proof (induction kvs arbitrary: tr)
  case (Cons kv kvs)
  have "write_genesis_storage k fuel kvs = write_storage k fuel (filter (\<lambda>(key, v). v \<noteq> 0) kvs)"
    by (rule ext) (rule Cons.IH)
  then show ?case by (cases kv) (simp add: Let_def hash_key_def)
qed simp

lemma nonzero_slots: "genesis_slots ga = [] \<Longrightarrow> write_genesis_storage k fuel (ga_storage ga) tr = Ok tr"
  by (simp add: write_genesis_storage_eq genesis_slots_def)

lemma setup_genesis_account_eq:
  assumes "read_account k fuel tr (fst e) = Ok None"
  shows "setup_genesis_account k fuel e tr s = apply_account_update k fuel (genesis_update k e) tr s"
proof -
  obtain address ga where e: "e = (address, ga)" by (cases e)
  let ?u = "genesis_update k e"
  let ?s = "add_account_code (code_hash k (ga_code ga)) (ga_code ga) s"
  let ?tr = "open_storage_trie k ?s (k address) (EMPTY_TRIE_HASH k)"
  have i: "apply_info ?u (account_state_default k) s =
      (Ok \<lparr>as_nonce = ga_nonce ga, as_balance = ga_balance ga, as_storage_root = EMPTY_TRIE_HASH k,
           as_code_hash = code_hash k (ga_code ga)\<rparr>, ?s)"
    by (simp add: apply_info_def genesis_update_def e sm_steps sbind_def account_state_default_def)
  show ?thesis
  proof (cases "genesis_slots ga = []")
    case True
    have "trie_hash k fuel ?tr = Ok (EMPTY_TRIE_HASH k, ?tr)"
      by (simp add: trie_hash_def hash_no_commit_def open_storage_trie_def trie_open_def)
    moreover have "put_storage_nodes (k address) ?tr ?s = ?s"
      by (simp add: put_storage_nodes_def trie_nodes_def open_storage_trie_def open_db)
    ultimately show ?thesis
      using True assms nonzero_slots [OF True] i
      by (simp add: setup_genesis_account_def apply_account_update_def apply_storage_def e sm_steps sbind_def
          hash_address_def unwrap_or_def Let_def split: prod.split result.split)
  next
    case False
    then show ?thesis
      using assms i write_genesis_storage_eq [of k fuel "ga_storage ga"]
      by (simp add: setup_genesis_account_def apply_account_update_def apply_storage_def e sm_steps sbind_def
          hash_address_def unwrap_or_def Let_def genesis_slots_def [symmetric] split: prod.split result.split)
  qed
qed

lemma genesis_update_wf: "(\<And>bs. length (k bs) = 32) \<Longrightarrow> wf_update (genesis_update k e)"
  by (simp add: wf_update_def genesis_update_def code_hash_def)

lemma compute_hash_value:
  assumes "\<forall>(p, v) \<in> set kvs. op_ok fuel (OpInsert p v)"
    and "collision_resistant k (hash_inputs k (trace_nodes None (map (\<lambda>(p, v). OpInsert p v) kvs)))"
  shows "compute_hash_from_unsorted_iter k fuel kvs =
    Ok (k (root_input k (abs_run None (map (\<lambda>(p, v). OpInsert p v) kvs))))"
proof -
  obtain tr where "insert_all k fuel kvs stateless = Ok tr"
    "represents k tr (abs_run None (map (\<lambda>(p, v). OpInsert p v) kvs))"
    using insert_all_represents [OF assms(1,2)] by (auto simp: run_inputs_def hash_inputs_def)
  then show ?thesis by (simp add: compute_hash_from_unsorted_iter_def hash_root_input)
qed

text \<open>The account \<^verbatim>\<open>AccountState::from\<close> makes of a genesis account.\<close>

definition genesis_state :: "(bytes \<Rightarrow> bytes) \<Rightarrow> genesis_account \<Rightarrow> account_state" where
  "genesis_state k ga =
     \<lparr>as_nonce = ga_nonce ga, as_balance = ga_balance ga,
      as_storage_root = k (root_input k (abs_run None (map (storage_op k) (genesis_slots ga)))),
      as_code_hash = code_hash k (ga_code ga)\<rparr>"

lemma slots_as_inserts:
  "map (storage_op k) (genesis_slots ga) =
     map (\<lambda>(p, v). OpInsert p v) (map (\<lambda>(key, v). (k key, encode_u256 v)) (genesis_slots ga))"
  by (auto simp: storage_op_def genesis_slots_def)

lemma account_state_from_genesis_value:
  assumes cr: "collision_resistant k (hash_inputs k (trace_nodes None (map (storage_op k) (genesis_slots ga))))"
    and fuel: "65 < fuel"
  shows "account_state_from_genesis k fuel ga = Ok (genesis_state k ga)"
proof -
  let ?kvs = "map (\<lambda>(key, v). (k key, encode_u256 v)) (genesis_slots ga)"
  have k: "\<And>bs. length (k bs) = 32" using cr by (simp add: collision_resistant_def)
  have "\<forall>x \<in> set (map (storage_op k) (genesis_slots ga)). op_ok fuel x"
    using storage_ops_ok k fuel by blast
  then have "\<forall>(p, v) \<in> set ?kvs. op_ok fuel (OpInsert p v)" unfolding slots_as_inserts by fastforce
  from compute_hash_value [OF this, of k] have "compute_hash_from_unsorted_iter k fuel ?kvs =
      Ok (k (root_input k (abs_run None (map (storage_op k) (genesis_slots ga)))))"
    using cr unfolding slots_as_inserts by blast
  then show ?thesis
    by (simp add: account_state_from_genesis_def compute_storage_root_def genesis_slots_def [symmetric]
        genesis_state_def)
qed

lemma genesis_new_account:
  assumes "world_view w (k (fst e)) = None"
  shows "new_account k (genesis_update k e) w = genesis_state k (snd e)"
    "old_storage k (genesis_update k e) w = None"
  using assms
  by (auto simp: new_account_def genesis_state_def info_update_def genesis_update_def world_view_def unwrap_or_def
      account_state_default_def new_storage_def old_storage_def root_input_def EMPTY_TRIE_HASH_def Let_def)

lemma spec_update_other: "a \<noteq> k (au_address u) \<Longrightarrow> spec_update k W u a = W a"
  by (simp add: spec_update_def Let_def)

abbreviation inserts :: "(bytes \<times> bytes) list \<Rightarrow> trie_op list" where
  "inserts kvs \<equiv> map (\<lambda>(p, v). OpInsert p v) kvs"

text \<open>
  The computed entries are what the updates insert: \<open>kvs\<close> are the entries of the accounts \<open>es\<close>, and
  inserting them takes the state trie where the updates take it, through the same nodes.
\<close>

definition entries_match :: "(bytes \<Rightarrow> bytes) \<Rightarrow> nat \<Rightarrow> (bytes \<times> genesis_account) list \<Rightarrow> world_tries \<Rightarrow> bool" where
  "entries_match k fuel es w \<longleftrightarrow>
     (\<exists>kvs. genesis_entries k fuel es = Ok kvs \<and> list_all (\<lambda>(p, v). op_ok fuel (OpInsert p v)) kvs \<and>
        fst (abs_updates k (map (genesis_update k) es) w) = abs_run (fst w) (inserts kvs) \<and>
        trace_nodes (fst w) (inserts kvs) \<subseteq> updates_nodes k (map (genesis_update k) es) w)"

lemma entries_match_Cons:
  assumes "entries_match k fuel es (abs_update k (genesis_update k e) w)" "world_view w (k (fst e)) = None"
    and "op_ok fuel (state_op k (genesis_update k e) w)" "65 < fuel"
    and cr: "collision_resistant k (hash_inputs k (update_nodes k (genesis_update k e) w))"
  shows "entries_match k fuel (e # es) w"
proof -
  let ?u = "genesis_update k e"
  note n = genesis_new_account [of w k e, OF assms(2)]
  obtain kvs where kvs: "genesis_entries k fuel es = Ok kvs" "list_all (\<lambda>(p, v). op_ok fuel (OpInsert p v)) kvs"
    "fst (abs_updates k (map (genesis_update k) es) (abs_update k ?u w)) =
       abs_run (fst (abs_update k ?u w)) (inserts kvs)"
    "trace_nodes (fst (abs_update k ?u w)) (inserts kvs) \<subseteq>
       updates_nodes k (map (genesis_update k) es) (abs_update k ?u w)"
    using assms(1) by (auto simp: entries_match_def)
  have x: "state_op k ?u w = OpInsert (k (fst e)) (encode_account_state (genesis_state k (snd e)))"
    by (simp add: state_op_def n(1))
  have "collision_resistant k (hash_inputs k (trace_nodes None (map (storage_op k) (genesis_slots (snd e)))))"
    by (rule collision_resistant_mono [OF cr hash_inputs_mono]) (auto simp: update_nodes_def n(2))
  then have "account_state_from_genesis k fuel (snd e) = Ok (genesis_state k (snd e))"
    using assms(4) by (rule account_state_from_genesis_value)
  then have "genesis_entries k fuel (e # es) = Ok ((k (fst e), encode_account_state (genesis_state k (snd e))) # kvs)"
    using kvs(1) by simp
  moreover have "fst (abs_update k ?u w) = abs_op (state_op k ?u w) (fst w)" by (simp add: abs_update_def)
  moreover have "subs (fst w) \<subseteq> update_nodes k ?u w" by (auto simp: update_nodes_def)
  ultimately show ?thesis
    using kvs(2-4) x assms(3) unfolding entries_match_def
    by (intro exI [of _ "(k (fst e), encode_account_state (genesis_state k (snd e))) # kvs"]) auto
qed

lemma setup_genesis_accounts_eq:
  assumes "represents k tr (fst w)" "hash_keys (fst w)" "st_db (t_state tr) = InMemoryTrieDB m"
    and "accounts_held k (s_storage_trie_nodes s) w"
    and "collision_resistant k (hash_inputs k (updates_nodes k (map (genesis_update k) es) w))"
    and "65 < fuel" "updates_fuel k (map (genesis_update k) es) w \<le> fuel"
    and "distinct (map (\<lambda>e. k (fst e)) es)" "\<forall>e \<in> set es. world_view w (k (fst e)) = None"
  shows "setup_genesis_accounts k fuel es tr s = apply_updates k fuel (map (genesis_update k) es) tr s \<and>
    entries_match k fuel es w"
  using assms
proof (induction es arbitrary: tr w s)
  case (Cons e es)
  let ?u = "genesis_update k e"
  have k: "\<And>bs. length (k bs) = 32" using Cons.prems(5) by (simp add: collision_resistant_def)
  have c1: "collision_resistant k (hash_inputs k (update_nodes k ?u w))"
    "collision_resistant k (hash_inputs k (updates_nodes k (map (genesis_update k) es) (abs_update k ?u w)))"
    by (rule collision_resistant_mono [OF Cons.prems(5) hash_inputs_mono], simp)+
  have new: "world_view w (k (fst e)) = None" using Cons.prems(9) by simp
  then have "read_account k fuel tr (fst e) = Ok None"
    using read_account_held [OF Cons.prems(1) c1(1) Cons.prems(4,6)] by (simp add: world_view_def)
  note eq = setup_genesis_account_eq [OF this, of s]
  have f: "trie_size (new_storage k ?u w) < fuel" "distinct (map (\<lambda>e. k (fst e)) es)"
    "updates_fuel k (map (genesis_update k) es) (abs_update k ?u w) \<le> fuel" using Cons.prems(7,8) by simp_all
  obtain tr1 codes1 nodes1 where t: "apply_account_update k fuel ?u tr s =
      (Ok tr1, s\<lparr>s_account_codes := codes1, s_storage_trie_nodes := nodes1\<rparr>)"
      "represents k tr1 (fst (abs_update k ?u w))" "hash_keys (fst (abs_update k ?u w))"
      "st_db (t_state tr1) = InMemoryTrieDB m" "accounts_held k nodes1 (abs_update k ?u w)"
      "world_view (abs_update k ?u w) = spec_update k (world_view w) ?u"
    using apply_account_update_step [OF Cons.prems(1-4) genesis_update_wf [OF k] c1(1) Cons.prems(6) f(1)] by metis
  have "k (fst e') \<noteq> k (fst e)" if "e' \<in> set es" for e'
    using Cons.prems(8) that by (metis (no_types, lifting) distinct.simps(2) image_eqI list.set_map list.simps(9))
  then have "\<forall>e' \<in> set es. world_view (abs_update k ?u w) (k (fst e')) = None"
    using Cons.prems(9) t(6) by (simp add: spec_update_other)
  then have "setup_genesis_accounts k fuel es tr1 (s\<lparr>s_account_codes := codes1, s_storage_trie_nodes := nodes1\<rparr>) =
      apply_updates k fuel (map (genesis_update k) es) tr1 (s\<lparr>s_account_codes := codes1, s_storage_trie_nodes := nodes1\<rparr>) \<and>
      entries_match k fuel es (abs_update k ?u w)"
    using t c1(2) Cons.prems(6) f(2,3) by (intro Cons.IH) simp_all
  then show ?case
    using eq t(1) entries_match_Cons [OF _ new state_op_ok(1) [OF genesis_update_wf [OF k] Cons.prems(4) k Cons.prems(6)]
      Cons.prems(6) c1(1)] by (simp add: sbind_def)
qed (simp add: entries_match_def trace_nodes_def)

section \<open>The committed root is the computed one\<close>

definition no_world :: world_tries where
  "no_world = (None, \<lambda>_. None)"

definition genesis_world :: "(bytes \<Rightarrow> bytes) \<Rightarrow> (bytes \<times> genesis_account) list \<Rightarrow> world_tries" where
  "genesis_world k alloc = abs_updates k (map (genesis_update k) alloc) no_world"

lemma setup_genesis_holds:
  assumes cr: "collision_resistant k (hash_inputs k (updates_nodes k (map (genesis_update k) alloc) no_world))"
    and fuel: "65 < fuel" "updates_fuel k (map (genesis_update k) alloc) no_world \<le> fuel"
    and dist: "distinct (map (\<lambda>e. k (fst e)) alloc)"
  obtains s' where "setup_genesis_state_trie k fuel alloc s = (Ok (k (root_input k (fst (genesis_world k alloc)))), s')"
    "store_holds k s' (k (root_input k (fst (genesis_world k alloc)))) (genesis_world k alloc)"
    "only_state_changed s s'"
    "world_view (genesis_world k alloc) = foldl (spec_update k) Map.empty (map (genesis_update k) alloc)"
    "rbind (genesis_entries k fuel alloc) (compute_hash_from_unsorted_iter k fuel) =
       Ok (k (root_input k (fst (genesis_world k alloc))))"
proof -
  let ?us = "map (genesis_update k) alloc" and ?tr = "open_state_trie k s (EMPTY_TRIE_HASH k)"
  let ?w = "genesis_world k alloc"
  have k: "\<And>bs. length (k bs) = 32" using cr by (simp add: collision_resistant_def)
  have o: "opened k (s_state_trie_nodes s) (EMPTY_TRIE_HASH k) (fst no_world)"
    by (simp add: no_world_def opened_empty)
  have r: "represents k ?tr (fst no_world)" "hash_keys (fst no_world)"
    "st_db (t_state ?tr) = InMemoryTrieDB (s_state_trie_nodes s)"
    "accounts_held k (s_storage_trie_nodes s) no_world"
    using o by (auto simp: opened_def open_state_trie_def open_db accounts_held_def no_world_def)
  have v: "world_view no_world = Map.empty" by (simp add: world_view_def no_world_def stored_account_def fun_eq_iff)
  have us: "list_all wf_update ?us" using genesis_update_wf [OF k] by (simp add: list_all_iff)
  obtain tr' codes nodes where t:
    "apply_updates k fuel ?us ?tr s = (Ok tr', s\<lparr>s_account_codes := codes, s_storage_trie_nodes := nodes\<rparr>)"
    "represents k tr' (fst ?w)" "hash_keys (fst ?w)" "st_db (t_state tr') = InMemoryTrieDB (s_state_trie_nodes s)"
    "accounts_held k nodes ?w" "world_view ?w = foldl (spec_update k) (world_view no_world) ?us"
    "trie_size (fst ?w) < fuel" "subs (fst ?w) \<subseteq> updates_nodes k ?us no_world"
    using apply_updates_steps [OF r us cr fuel] unfolding genesis_world_def by blast
  have e: "setup_genesis_accounts k fuel alloc ?tr s = apply_updates k fuel ?us ?tr s"
    and em: "entries_match k fuel alloc no_world"
    using setup_genesis_accounts_eq [OF r cr fuel dist] v by simp_all
  obtain tr'' where c: "trie_hash k fuel tr' = Ok (k (root_input k (fst ?w)), tr'')"
      "opened k (trie_nodes tr'') (k (root_input k (fst ?w))) (fst ?w)"
    by (rule trie_hash_opens [OF t(2,3) collision_resistant_mono [OF cr hash_inputs_mono [OF t(8)]] t(4,7)])
  let ?s = "s\<lparr>s_account_codes := codes, s_storage_trie_nodes := nodes, s_state_trie_nodes := trie_nodes tr''\<rparr>"
  have "setup_genesis_state_trie k fuel alloc s = (Ok (k (root_input k (fst ?w))), ?s)"
    using t(1) c(1) e by (simp add: setup_genesis_state_trie_def sbind_def sm_steps put_state_nodes_def)
  moreover have "store_holds k ?s (k (root_input k (fst ?w))) ?w" using c(2) t(5) by (simp add: store_holds_def)
  moreover have "only_state_changed s ?s" by (auto simp: only_state_changed_def)
  moreover have "rbind (genesis_entries k fuel alloc) (compute_hash_from_unsorted_iter k fuel) =
      Ok (k (root_input k (fst ?w)))"
  proof -
    obtain kvs where kvs: "genesis_entries k fuel alloc = Ok kvs" "list_all (\<lambda>(p, v). op_ok fuel (OpInsert p v)) kvs"
      "fst ?w = abs_run None (inserts kvs)" "trace_nodes None (inserts kvs) \<subseteq> updates_nodes k ?us no_world"
      using em by (auto simp: entries_match_def genesis_world_def no_world_def)
    have "compute_hash_from_unsorted_iter k fuel kvs = Ok (k (root_input k (abs_run None (inserts kvs))))"
      using kvs(2) collision_resistant_mono [OF cr hash_inputs_mono [OF kvs(4)]]
      by (intro compute_hash_value) (auto simp: list_all_iff)
    then show ?thesis using kvs(1,3) by simp
  qed
  ultimately show ?thesis using that t(6) v by simp
qed

section \<open>The genesis block in the store\<close>

lemma empty_roots:
  "compute_hash_from_unsorted_iter k fuel [] = Ok (EMPTY_TRIE_HASH k)"
  by (simp add: compute_hash_from_unsorted_iter_def hash_no_commit_def stateless_def trie_new_def)

lemma get_genesis_block_value:
  assumes "compute_state_root k fuel g = Ok root_hash"
  shows "\<exists>header. get_genesis_block k fuel g = Ok \<lparr>b_header = header, b_body = get_genesis_body g\<rparr> \<and>
    bh_number header = 0 \<and> bh_state_root header = root_hash \<and> bh_difficulty header = gn_difficulty g"
  using assms
  by (simp add: get_genesis_block_def get_genesis_header_def compute_transactions_root_def
      compute_receipts_root_def compute_withdrawals_root_def indexed_def empty_roots Let_def)

lemma only_state_changed_fields:
  assumes "only_state_changed s s'"
  shows "s_canonical_hashes s' = s_canonical_hashes s" "s_headers s' = s_headers s" "s_bodies s' = s_bodies s"
    "s_latest_total_difficulty s' = s_latest_total_difficulty s" "s_latest_block_number s' = s_latest_block_number s"
    "s_earliest_block_number s' = s_earliest_block_number s" "s_pending_blocks s' = s_pending_blocks s"
    "s_receipts s' = s_receipts s" "s_transaction_locations s' = s_transaction_locations s"
    "s_finalized_block_number s' = s_finalized_block_number s" "s_safe_block_number s' = s_safe_block_number s"
    "s_chain_config s' = s_chain_config s" "s_block_numbers s' = s_block_numbers s"
    "s_mempool s' = s_mempool s" "s_payloads s' = s_payloads s"
  using assms by (auto simp: only_state_changed_def)

lemma add_locations_fields [simp]:
  "s_headers (add_locations ls s) = s_headers s" "s_bodies (add_locations ls s) = s_bodies s"
  "s_canonical_hashes (add_locations ls s) = s_canonical_hashes s"
  "s_state_trie_nodes (add_locations ls s) = s_state_trie_nodes s"
  "s_storage_trie_nodes (add_locations ls s) = s_storage_trie_nodes s"
  "s_receipts (add_locations ls s) = s_receipts s" "s_pending_blocks (add_locations ls s) = s_pending_blocks s"
  "s_account_codes (add_locations ls s) = s_account_codes s"
  "s_latest_block_number (add_locations ls s) = s_latest_block_number s"
  "s_earliest_block_number (add_locations ls s) = s_earliest_block_number s"
  "s_finalized_block_number (add_locations ls s) = s_finalized_block_number s"
  "s_safe_block_number (add_locations ls s) = s_safe_block_number s"
  "s_block_total_difficulties (add_locations ls s) = s_block_total_difficulties s"
  "s_chain_config (add_locations ls s) = s_chain_config s" "s_payloads (add_locations ls s) = s_payloads s"
  "s_mempool (add_locations ls s) = s_mempool s" "s_block_numbers (add_locations ls s) = s_block_numbers s"
  by (induction ls arbitrary: s) (auto simp: add_transaction_location_def)

lemmas block_writers = add_transaction_locations_def add_block_body_def add_block_header_def add_block_number_def
  add_block_total_difficulty_def update_latest_total_difficulty_def

text \<open>What \<^verbatim>\<open>Store::add_block\<close> leaves, as a function of the total difficulty.\<close>

definition with_block :: "(bytes \<Rightarrow> bytes) \<Rightarrow> block \<Rightarrow> u256 \<Rightarrow> store \<Rightarrow> store" where
  "with_block k b d s =
     (let h = compute_block_hash k (b_header b) in
      update_latest_total_difficulty d (add_block_total_difficulty h d
        (add_block_number h (bh_number (b_header b)) (add_block_header h (b_header b)
          (add_block_body h (b_body b)
            (add_transaction_locations k (bb_transactions (b_body b)) (bh_number (b_header b)) h s))))))"

lemma store_add_block_eq:
  "store_add_block k b s =
     (case add_u256 (unwrap_or (s_latest_total_difficulty s) 0) (bh_difficulty (b_header b)) of
        Ok d \<Rightarrow> (Ok (), with_block k b d s)
      | Err e \<Rightarrow> (Err e, s) | Panic \<Rightarrow> (Panic, s) | Diverge \<Rightarrow> (Diverge, s))"
  by (simp add: store_add_block_def with_block_def sbind_def sm_steps Let_def split: result.split)

lemma with_block_fields [simp]:
  "s_headers (with_block k b d s) = (s_headers s)(compute_block_hash k (b_header b) \<mapsto> b_header b)"
  "s_bodies (with_block k b d s) = (s_bodies s)(compute_block_hash k (b_header b) \<mapsto> b_body b)"
  "s_canonical_hashes (with_block k b d s) = s_canonical_hashes s"
  "s_state_trie_nodes (with_block k b d s) = s_state_trie_nodes s"
  "s_storage_trie_nodes (with_block k b d s) = s_storage_trie_nodes s"
  "s_receipts (with_block k b d s) = s_receipts s" "s_account_codes (with_block k b d s) = s_account_codes s"
  "s_pending_blocks (with_block k b d s) = s_pending_blocks s"
  "s_latest_block_number (with_block k b d s) = s_latest_block_number s"
  "s_earliest_block_number (with_block k b d s) = s_earliest_block_number s"
  "s_finalized_block_number (with_block k b d s) = s_finalized_block_number s"
  "s_safe_block_number (with_block k b d s) = s_safe_block_number s"
  "s_latest_total_difficulty (with_block k b d s) = Some d"
  "s_chain_config (with_block k b d s) = s_chain_config s"
  by (simp_all add: with_block_def block_writers Let_def)

lemma add_u256_zero [simp]: "add_u256 0 d = Ok d"
  using unsigned_less [where 'a = nat and 'b = 256, of d] by (simp add: add_u256_def)

lemma store_holds_cong:
  "s_state_trie_nodes s' = s_state_trie_nodes s \<Longrightarrow> s_storage_trie_nodes s' = s_storage_trie_nodes s \<Longrightarrow>
     store_holds k s' r w \<longleftrightarrow> store_holds k s r w"
  by (simp add: store_holds_def)

lemma add_initial_state_holds:
  assumes cr: "collision_resistant k (hash_inputs k (updates_nodes k (map (genesis_update k) (gn_alloc g)) no_world))"
    and fuel: "65 < fuel" "updates_fuel k (map (genesis_update k) (gn_alloc g)) no_world \<le> fuel"
    and dist: "distinct (map (\<lambda>e. k (fst e)) (gn_alloc g))"
    and new: "s_canonical_hashes s 0 = None" "s_latest_total_difficulty s = None"
  obtains s' header where "add_initial_state k fuel g s = (Ok (), s')"
    "get_genesis_block k fuel g = Ok \<lparr>b_header = header, b_body = get_genesis_body g\<rparr>"
    "bh_number header = 0"
    "s_headers s' = (s_headers s)(compute_block_hash k header \<mapsto> header)"
    "s_bodies s' = (s_bodies s)(compute_block_hash k header \<mapsto> get_genesis_body g)"
    "s_canonical_hashes s' = (s_canonical_hashes s)(0 \<mapsto> compute_block_hash k header)"
    "s_earliest_block_number s' = Some 0" "s_latest_block_number s' = Some 0"
    "s_chain_config s' = Some (gn_config g)"
    "store_holds k s' (bh_state_root header) (genesis_world k (gn_alloc g))"
    "world_view (genesis_world k (gn_alloc g)) = foldl (spec_update k) Map.empty (map (genesis_update k) (gn_alloc g))"
    "fst (setup_genesis_state_trie k fuel (gn_alloc g) s) = Ok (bh_state_root header)"
proof -
  let ?w = "genesis_world k (gn_alloc g)" and ?r = "k (root_input k (fst (genesis_world k (gn_alloc g))))"
  obtain s1 where s1: "setup_genesis_state_trie k fuel (gn_alloc g) s = (Ok ?r, s1)"
    "store_holds k s1 ?r ?w" "only_state_changed s s1"
    "world_view ?w = foldl (spec_update k) Map.empty (map (genesis_update k) (gn_alloc g))"
    "rbind (genesis_entries k fuel (gn_alloc g)) (compute_hash_from_unsorted_iter k fuel) = Ok ?r"
    by (rule setup_genesis_holds [OF cr fuel dist])
  then have "compute_state_root k fuel g = Ok ?r" by (simp add: compute_state_root_def)
  from get_genesis_block_value [OF this] obtain header where
    hd: "get_genesis_block k fuel g = Ok \<lparr>b_header = header, b_body = get_genesis_body g\<rparr>"
    "bh_number header = 0" "bh_state_root header = ?r" by blast
  let ?b = "\<lparr>b_header = header, b_body = get_genesis_body g\<rparr>" and ?h = "compute_block_hash k header"
  let ?s = "set_chain_config (gn_config g) (set_canonical_block 0 ?h (update_latest_block_number 0
    (update_earliest_block_number 0 (with_block k ?b (bh_difficulty header) s1))))"
  have "add_initial_state k fuel g s = (Ok (), ?s)"
    using hd s1(1) new only_state_changed_fields(4) [OF s1(3)]
    by (simp add: add_initial_state_def sbind_def sm_steps get_block_header_def block_hash_def store_add_block_eq
        unwrap_or_def Let_def)
  moreover have "store_holds k ?s ?r ?w"
    using s1(2) by (simp add: store_holds_def set_chain_config_def set_canonical_block_def
        update_latest_block_number_def update_earliest_block_number_def)
  ultimately show ?thesis
    using that hd s1(1,4) only_state_changed_fields(1-3) [OF s1(3)]
    by (simp add: set_chain_config_def set_canonical_block_def update_latest_block_number_def
        update_earliest_block_number_def)
qed

end
