(* ===== verification/World_Properties.thy ===== *)
theory World_Properties
  imports Genesis_State
begin

text \<open>
  Properties of the world state: what account updates write is what the store reads under the new
  root, and the genesis state that is committed has the root the genesis header names.
\<close>

section \<open>A state with one account\<close>

text \<open>
  A state trie of one leaf, to which the properties are applied: its encoding does not collide with
  that of the empty trie under the example hash function, as the two start with different bytes.
\<close>

lemma pad_hash_hd: "bs \<noteq> [] \<Longrightarrow> hd (pad_hash bs) = hd bs"
  by (cases bs) (simp_all add: pad_hash_def)

lemma hd_encode_length: "hd (encode_length n) \<noteq> RLP_NULL"
proof (cases "n < 56")
  case True
  have "0xc0 + (of_nat n :: u8) \<noteq> 0x80"
  proof
    assume "0xc0 + (of_nat n :: u8) = 0x80"
    then have "(of_nat n :: u8) = 0x80 - 0xc0" by (simp only: eq_diff_eq add.commute)
    then have "unat (of_nat n :: u8) = 192" by simp
    with True show False by (simp add: unat_of_nat_u8)
  qed
  then show ?thesis using True by (simp add: encode_length_def length_prefix_def RLP_NULL_def)
next
  case False
  let ?l = "length (dropWhile (\<lambda>x. x = 0) (be_bytes 8 n))"
  have l: "?l \<le> 8" using length_dropWhile_le [of "\<lambda>x. x = 0" "be_bytes 8 n"] by simp
  have "0xf7 + (of_nat ?l :: u8) \<noteq> 0x80"
  proof
    assume "0xf7 + (of_nat ?l :: u8) = 0x80"
    then have "(of_nat ?l :: u8) = 0x80 - 0xf7" by (simp only: eq_diff_eq add.commute)
    then have "unat (of_nat ?l :: u8) = 137" by simp
    with l show False by (simp add: unat_of_nat_u8)
  qed
  then show ?thesis using False by (simp add: encode_length_def length_prefix_def RLP_NULL_def Let_def)
qed

lemma single_node_collisions:
  assumes "valid_node (node_of pad_hash t)"
  shows "collision_resistant pad_hash (hash_inputs pad_hash {t})"
proof -
  let ?e = "encode_raw_node (node_of pad_hash t)"
  have e: "?e = encode_length (length (concat (node_items (node_of pad_hash t)))) @
      concat (node_items (node_of pad_hash t))" by (rule encode_raw_node_items [OF assms])
  have ne: "encode_length n \<noteq> []" for n by (simp add: encode_length_def length_prefix_def Let_def)
  have "hd (pad_hash ?e) \<noteq> hd (pad_hash [RLP_NULL])"
    using hd_encode_length ne by (simp add: e pad_hash_hd)
  then have "pad_hash [RLP_NULL] \<noteq> pad_hash ?e" by metis
  then have "inj_on pad_hash (hash_inputs pad_hash {t})"
    by (rule inj_on_pair [rotated]) (auto simp: hash_inputs_def)
  then show ?thesis by (simp add: collision_resistant_def)
qed

lemma single_update_collisions:
  assumes "wf_update u" "\<not> au_removed u" "au_added_storage u = []"
  shows "collision_resistant pad_hash (hash_inputs pad_hash (updates_nodes pad_hash [u] no_world))"
proof -
  let ?st = "new_account pad_hash u no_world"
  let ?t = "PLeaf (from_bytes (pad_hash (au_address u))) (encode_account_state ?st)"
  have h: "accounts_held pad_hash (\<lambda>_. Map.empty) no_world" by (simp add: accounts_held_def no_world_def)
  have "wf_account_state ?st" by (rule new_account_wf [OF assms(1) h]) simp
  note l = length_encode_account [OF this]
  have "pwf ?t" using l(2) by simp
  moreover have "small ?t"
    unfolding small_def using l(1) by (auto split: if_splits)
  ultimately have "valid_node (node_of pad_hash ?t)" by (intro valid_node_of) simp_all
  moreover have "updates_nodes pad_hash [u] no_world = {?t}"
    using assms by (simp add: update_nodes_def abs_update_def state_op_def no_world_def trace_nodes_def subtries_def
        old_storage_def stored_account_def proot_insert_def)
  ultimately show ?thesis using single_node_collisions by simp
qed

definition sample_address :: bytes where
  "sample_address = replicate 20 1"

definition sample_update :: account_update where
  "sample_update = (account_update_new sample_address)
     \<lparr>au_info := Some \<lparr>ai_code_hash = EMPTY_KECCACK_HASH, ai_balance = 100, ai_nonce = 1\<rparr>\<rparr>"

lemma sample_update_wf: "wf_update sample_update"
  by (simp add: wf_update_def sample_update_def EMPTY_KECCACK_HASH_def)

lemma sample_collisions:
  "collision_resistant pad_hash (hash_inputs pad_hash (updates_nodes pad_hash [sample_update] no_world))"
  by (rule single_update_collisions [OF sample_update_wf]) (simp_all add: sample_update_def account_update_new_def)

section \<open>Account updates\<close>

text \<open>
  C6: applying account updates on top of a block refines the update of a map of accounts. If the
  store holds the tries \<open>w\<close> of the state of block \<open>h\<close> and no two of the nodes involved collide under
  the hash function, \<^verbatim>\<open>apply_account_updates\<close> with enough fuel succeeds; it changes nothing but trie
  nodes and codes; and for a block whose header names the returned root, the nonce, balance and
  code hash of every account and every storage slot read from the store are those the updates
  specify, removed accounts and slots set to zero being absent.
\<close>

theorem account_updates_read_back:
  assumes "s_headers s h = Some header" "store_holds k s (bh_state_root header) w"
    and "list_all wf_update us" "collision_resistant k (hash_inputs k (updates_nodes k us w))"
  shows "\<exists>n. \<forall>f. \<exists>root_hash s'.
    apply_account_updates k (n + f) h us s = (Ok (Some root_hash), s') \<and> only_state_changed s s' \<and>
    (\<forall>h' header' address key.
       (let s'' = add_block_header h' (header'\<lparr>bh_state_root := root_hash\<rparr>) s';
            account = foldl (spec_update k) (world_view w) us (k address)
        in get_account_info_by_hash k (n + f) s'' h' address = Ok (map_option info_of account) \<and>
           get_storage_at_hash k (n + f) s'' h' address key = Ok (Option.bind account (\<lambda>v. slot_of v (k key)))))"
proof (rule exI [of _ "66 + updates_fuel k us w"], rule allI)
  fix f
  let ?n = "66 + updates_fuel k us w"
  have k: "\<And>bs. length (k bs) = 32" using assms(4) by (simp add: collision_resistant_def)
  have fuel: "65 < ?n + f" "updates_fuel k us w \<le> ?n + f" by simp_all
  obtain s' root_hash where u: "apply_account_updates k (?n + f) h us s = (Ok (Some root_hash), s')"
    "store_holds k s' root_hash (abs_updates k us w)" "only_state_changed s s'"
    "world_view (abs_updates k us w) = foldl (spec_update k) (world_view w) us"
    by (rule apply_account_updates_holds [OF assms fuel])
  have "get_account_info_by_hash k (?n + f) (add_block_header h' (header'\<lparr>bh_state_root := root_hash\<rparr>) s') h' address =
      Ok (map_option info_of (foldl (spec_update k) (world_view w) us (k address)))"
    "get_storage_at_hash k (?n + f) (add_block_header h' (header'\<lparr>bh_state_root := root_hash\<rparr>) s') h' address key =
      Ok (Option.bind (foldl (spec_update k) (world_view w) us (k address)) (\<lambda>v. slot_of v (k key)))"
    for h' header' address key
    using store_holds_reads [of k "add_block_header h' (header'\<lparr>bh_state_root := root_hash\<rparr>) s'"
        "header'\<lparr>bh_state_root := root_hash\<rparr>" "abs_updates k us w" h', OF _ _ k fuel(1)] u(2,4)
    by (simp_all add: add_block_header_def store_holds_def)
  with u(1,3) show "\<exists>root_hash s'.
      apply_account_updates k (?n + f) h us s = (Ok (Some root_hash), s') \<and> only_state_changed s s' \<and>
      (\<forall>h' header' address key.
         (let s'' = add_block_header h' (header'\<lparr>bh_state_root := root_hash\<rparr>) s';
              account = foldl (spec_update k) (world_view w) us (k address)
          in get_account_info_by_hash k (?n + f) s'' h' address = Ok (map_option info_of account) \<and>
             get_storage_at_hash k (?n + f) s'' h' address key = Ok (Option.bind account (\<lambda>v. slot_of v (k key)))))"
    by (auto simp: Let_def)
qed

text \<open>An account with nonce 1 and balance 100 is written to the empty state and read back.\<close>

theorem account_updates_read_back_witness:
  "\<exists>n root_hash s'.
    apply_account_updates pad_hash n [1] [sample_update]
      (add_block_header [1] (sample_header\<lparr>bh_state_root := EMPTY_TRIE_HASH pad_hash\<rparr>) store_new) =
        (Ok (Some root_hash), s') \<and>
    get_account_info_by_hash pad_hash n (add_block_header [2] (sample_header\<lparr>bh_state_root := root_hash\<rparr>) s') [2]
      sample_address = Ok (Some \<lparr>ai_code_hash = EMPTY_KECCACK_HASH, ai_balance = 100, ai_nonce = 1\<rparr>)"
proof -
  let ?h = "sample_header\<lparr>bh_state_root := EMPTY_TRIE_HASH pad_hash\<rparr>"
  have hold: "store_holds pad_hash (add_block_header [1] ?h store_new) (bh_state_root ?h) no_world"
    by (simp add: store_holds_def no_world_def accounts_held_def opened_empty)
  have "s_headers (add_block_header [1] ?h store_new) [1] = Some ?h" by (simp add: add_block_header_def)
  from account_updates_read_back [OF this hold _ sample_collisions] obtain n where
    n: "\<And>f. \<exists>root_hash s'. apply_account_updates pad_hash (n + f) [1] [sample_update] (add_block_header [1] ?h store_new) =
        (Ok (Some root_hash), s') \<and> only_state_changed (add_block_header [1] ?h store_new) s' \<and>
      (\<forall>h' header' address key.
         (let s'' = add_block_header h' (header'\<lparr>bh_state_root := root_hash\<rparr>) s';
              account = foldl (spec_update pad_hash) (world_view no_world) [sample_update] (pad_hash address)
          in get_account_info_by_hash pad_hash (n + f) s'' h' address = Ok (map_option info_of account) \<and>
             get_storage_at_hash pad_hash (n + f) s'' h' address key =
               Ok (Option.bind account (\<lambda>v. slot_of v (pad_hash key)))))"
    using sample_update_wf by auto
  have "spec_update pad_hash (world_view no_world) sample_update (pad_hash sample_address) =
      Some \<lparr>av_nonce = 1, av_balance = 100, av_code_hash = EMPTY_KECCACK_HASH, av_storage = (\<lambda>_. 0)\<rparr>"
    by (simp add: spec_update_def sample_update_def account_update_new_def spec_storage_def world_view_def
        no_world_def stored_account_def unwrap_or_def new_view_def)
  with n [of 0] show ?thesis by (fastforce simp: Let_def info_of_def)
qed

section \<open>Genesis\<close>

text \<open>
  C7: the genesis state that is committed to the store has the root that the genesis header
  names, the equation the source asserts in debug builds only. Storing the initial state on a
  store without a canonical block 0 succeeds with enough fuel; the genesis block is then the
  canonical block 0, earliest and latest, and the accounts and slots read at it are those of the
  genesis file, with zero slots absent.
\<close>

theorem genesis_state_committed:
  assumes "collision_resistant k (hash_inputs k (updates_nodes k (map (genesis_update k) (gn_alloc g)) no_world))"
    and "distinct (map (\<lambda>e. k (fst e)) (gn_alloc g))"
    and "s_canonical_hashes s 0 = None" "s_latest_total_difficulty s = None"
  shows "\<exists>n. \<forall>f. \<exists>s' b.
    add_initial_state k (n + f) g s = (Ok (), s') \<and> get_genesis_block k (n + f) g = Ok b \<and>
    fst (setup_genesis_state_trie k (n + f) (gn_alloc g) s) = Ok (bh_state_root (b_header b)) \<and>
    get_block_by_hash s' (block_hash k b) = Some b \<and> get_canonical_block_hash s' 0 = Some (block_hash k b) \<and>
    get_earliest_block_number s' = Ok 0 \<and> get_latest_block_number s' = Ok 0 \<and>
    (\<forall>address key.
       (let account = foldl (spec_update k) Map.empty (map (genesis_update k) (gn_alloc g)) (k address)
        in get_account_info k (n + f) s' 0 address = Ok (map_option info_of account) \<and>
           get_storage_at k (n + f) s' 0 address key = Ok (Option.bind account (\<lambda>v. slot_of v (k key)))))"
proof (rule exI [of _ "66 + updates_fuel k (map (genesis_update k) (gn_alloc g)) no_world"], rule allI)
  fix f
  let ?n = "66 + updates_fuel k (map (genesis_update k) (gn_alloc g)) no_world"
  have k: "\<And>bs. length (k bs) = 32" using assms(1) by (simp add: collision_resistant_def)
  have fuel: "65 < ?n + f" "updates_fuel k (map (genesis_update k) (gn_alloc g)) no_world \<le> ?n + f" by simp_all
  obtain s' header where s': "add_initial_state k (?n + f) g s = (Ok (), s')"
    "get_genesis_block k (?n + f) g = Ok \<lparr>b_header = header, b_body = get_genesis_body g\<rparr>" "bh_number header = 0"
    "s_headers s' = (s_headers s)(compute_block_hash k header \<mapsto> header)"
    "s_bodies s' = (s_bodies s)(compute_block_hash k header \<mapsto> get_genesis_body g)"
    "s_canonical_hashes s' = (s_canonical_hashes s)(0 \<mapsto> compute_block_hash k header)"
    "s_earliest_block_number s' = Some 0" "s_latest_block_number s' = Some 0"
    "s_chain_config s' = Some (gn_config g)"
    "store_holds k s' (bh_state_root header) (genesis_world k (gn_alloc g))"
    "world_view (genesis_world k (gn_alloc g)) = foldl (spec_update k) Map.empty (map (genesis_update k) (gn_alloc g))"
    "fst (setup_genesis_state_trie k (?n + f) (gn_alloc g) s) = Ok (bh_state_root header)"
    by (rule add_initial_state_holds [OF assms(1) fuel assms(2-4)])
  have "s_headers s' (compute_block_hash k header) = Some header" using s'(4) by simp
  note r = store_holds_reads [OF s'(10) this k fuel(1)]
  let ?b = "\<lparr>b_header = header, b_body = get_genesis_body g\<rparr>"
  show "\<exists>s' b. add_initial_state k (?n + f) g s = (Ok (), s') \<and> get_genesis_block k (?n + f) g = Ok b \<and>
    fst (setup_genesis_state_trie k (?n + f) (gn_alloc g) s) = Ok (bh_state_root (b_header b)) \<and>
    get_block_by_hash s' (block_hash k b) = Some b \<and> get_canonical_block_hash s' 0 = Some (block_hash k b) \<and>
    get_earliest_block_number s' = Ok 0 \<and> get_latest_block_number s' = Ok 0 \<and>
    (\<forall>address key.
       (let account = foldl (spec_update k) Map.empty (map (genesis_update k) (gn_alloc g)) (k address)
        in get_account_info k (?n + f) s' 0 address = Ok (map_option info_of account) \<and>
           get_storage_at k (?n + f) s' 0 address key = Ok (Option.bind account (\<lambda>v. slot_of v (k key)))))"
    using s' r by (intro exI [of _ s'] exI [of _ ?b]) (simp add: get_block_by_hash_def get_block_header_by_hash_def
        get_block_body_by_hash_def block_hash_def get_canonical_block_hash_def get_earliest_block_number_def
        get_latest_block_number_def get_account_info_def get_storage_at_def)
qed

definition sample_config :: chain_config where
  "sample_config =
     \<lparr>cc_chain_id = 1, cc_homestead_block = Some 0, cc_dao_fork_block = None, cc_dao_fork_support = False,
      cc_eip150_block = Some 0, cc_eip155_block = Some 0, cc_eip158_block = Some 0, cc_byzantium_block = Some 0,
      cc_constantinople_block = Some 0, cc_petersburg_block = Some 0, cc_istanbul_block = Some 0,
      cc_muir_glacier_block = None, cc_berlin_block = Some 0, cc_london_block = Some 0,
      cc_arrow_glacier_block = None, cc_gray_glacier_block = None, cc_merge_netsplit_block = Some 0,
      cc_shanghai_time = Some 0, cc_cancun_time = Some 0, cc_prague_time = None, cc_verkle_time = None,
      cc_terminal_total_difficulty = Some 0, cc_terminal_total_difficulty_passed = True\<rparr>"

definition sample_genesis :: genesis where
  "sample_genesis =
     \<lparr>gn_config = sample_config,
      gn_alloc = [(sample_address, \<lparr>ga_code = [], ga_storage = [], ga_balance = 100, ga_nonce = 1\<rparr>)],
      gn_coinbase = replicate 20 0, gn_difficulty = 1, gn_extra_data = [], gn_gas_limit = 30000000,
      gn_nonce = 0, gn_mix_hash = replicate 32 0, gn_timestamp = 0, gn_base_fee_per_gas = None,
      gn_blob_gas_used = None, gn_excess_blob_gas = None\<rparr>"

lemma sample_genesis_collisions:
  "collision_resistant pad_hash (hash_inputs pad_hash
     (updates_nodes pad_hash (map (genesis_update pad_hash) (gn_alloc sample_genesis)) no_world))"
  using single_update_collisions [of "genesis_update pad_hash (hd (gn_alloc sample_genesis))"]
    genesis_update_wf [of pad_hash]
  by (simp add: sample_genesis_def genesis_slots_def)

theorem genesis_state_committed_witness:
  "\<exists>n s' b. add_initial_state pad_hash n sample_genesis store_new = (Ok (), s') \<and>
     get_genesis_block pad_hash n sample_genesis = Ok b \<and>
     fst (setup_genesis_state_trie pad_hash n (gn_alloc sample_genesis) store_new) = Ok (bh_state_root (b_header b)) \<and>
     get_account_info pad_hash n s' 0 sample_address =
       Ok (Some \<lparr>ai_code_hash = pad_hash [], ai_balance = 100, ai_nonce = 1\<rparr>)"
proof -
  have "s_canonical_hashes store_new 0 = None" "s_latest_total_difficulty store_new = None"
    by (simp_all add: store_new_def)
  from genesis_state_committed [OF sample_genesis_collisions _ this] obtain n where
    n: "\<And>f. \<exists>s' b. add_initial_state pad_hash (n + f) sample_genesis store_new = (Ok (), s') \<and>
      get_genesis_block pad_hash (n + f) sample_genesis = Ok b \<and>
      fst (setup_genesis_state_trie pad_hash (n + f) (gn_alloc sample_genesis) store_new) =
        Ok (bh_state_root (b_header b)) \<and>
      get_account_info pad_hash (n + f) s' 0 sample_address = Ok (map_option info_of
        (foldl (spec_update pad_hash) Map.empty (map (genesis_update pad_hash) (gn_alloc sample_genesis))
          (pad_hash sample_address)))"
    by (fastforce simp: sample_genesis_def Let_def)
  have "foldl (spec_update pad_hash) Map.empty (map (genesis_update pad_hash) (gn_alloc sample_genesis))
      (pad_hash sample_address) =
      Some \<lparr>av_nonce = 1, av_balance = 100, av_code_hash = pad_hash [], av_storage = (\<lambda>_. 0)\<rparr>"
    by (simp add: sample_genesis_def spec_update_def genesis_update_def genesis_slots_def spec_storage_def
        code_hash_def unwrap_or_def new_view_def)
  with n [of 0] show ?thesis by (fastforce simp: info_of_def)
qed

end
