(* ===== verification/Fork_Choice.thy ===== *)
theory Fork_Choice
  imports Genesis_State
begin

text \<open>
  Fork choice, \<^verbatim>\<open>crates/blockchain/fork_choice.rs\<close>, and what \<^verbatim>\<open>blockchain.rs\<close> looks up in the store:
  the checks on head, safe and finalized block, the search for the link with the canonical chain,
  and the rewriting of the canonical chain. \<^verbatim>\<open>trigger_sync\<close> only writes to the log.
\<close>

section \<open>Definitions\<close>

datatype fork_choice_element = Head | Safe | Finalized

datatype invalid_fork_choice =
  ForkChoiceStoreError store_error
| Syncing
| InvalidHeadHash
| NewHeadAlreadyCanonical
| ElementNotFound fork_choice_element
| PreMergeBlock
| Unordered
| Disconnected fork_choice_element fork_choice_element
| InvalidHead

definition is_canonical :: "store \<Rightarrow> u64 \<Rightarrow> bytes \<Rightarrow> bool" where
  "is_canonical s n h = (case get_canonical_block_hash s n of Some h' \<Rightarrow> h' = h | None \<Rightarrow> False)"

definition is_zero_hash :: "bytes \<Rightarrow> bool" where
  "is_zero_hash h \<longleftrightarrow> h = replicate 32 0"

fun check_order :: "block option \<Rightarrow> block option \<Rightarrow> (unit, invalid_fork_choice) result" where
  "check_order None (Some _) = Err (ElementNotFound Finalized)"
| "check_order (Some b1) (Some b2) =
     (if bh_number (b_header b2) < bh_number (b_header b1) then Err Unordered else Ok ())"
| "check_order _ None = Err Syncing"

function find_link_loop ::
  "store \<Rightarrow> u64 \<Rightarrow> u64 \<Rightarrow> block_header \<Rightarrow> (u64 \<times> bytes) list \<Rightarrow> (u64 \<times> bytes) list option" where
  "find_link_loop s genesis_number block_number header branch =
     (if genesis_number < block_number
      then
        let block_number = block_number - 1;
            parent_hash = bh_parent_hash header
        in case get_block_header_by_hash s parent_hash of
             None \<Rightarrow> None
           | Some parent_header \<Rightarrow>
               if is_canonical s block_number parent_hash then Some branch
               else find_link_loop s genesis_number block_number parent_header
                      (branch @ [(block_number, parent_hash)])
      else None)"
  by pat_completeness auto
termination
  by (relation "measure (\<lambda>(s, g, n, h, b). unat n)")
    (auto simp: unat_gt_0 intro!: measure_unat)

declare find_link_loop.simps [simp del]

definition find_link_with_canonical_chain ::
  "(bytes \<Rightarrow> bytes) \<Rightarrow> store \<Rightarrow> block_header \<Rightarrow> ((u64 \<times> bytes) list option, store_error) result" where
  "find_link_with_canonical_chain keccak s b =
     (if is_canonical s (bh_number b) (compute_block_hash keccak b) then Ok (Some [])
      else (rbind (get_earliest_block_number s) (\<lambda>genesis_number.
           Ok (find_link_loop s genesis_number (bh_number b) b []))))"

definition total_difficulty_check ::
  "bytes \<Rightarrow> block_header \<Rightarrow> store \<Rightarrow> (unit, invalid_fork_choice) result" where
  "total_difficulty_check head_hash head_block s =
     (if bh_difficulty head_block = 0 \<and> bh_number head_block \<noteq> 0 then Ok ()
      else (rbind (ok_or (get_block_total_difficulty s head_hash)
                  (ForkChoiceStoreError (StoreCustom ''Block difficulty not found for head block''))) (\<lambda>total_difficulty.
           rbind (get_chain_config s) (\<lambda>config.
           rbind (ok_or (cc_terminal_total_difficulty config)
                  (ForkChoiceStoreError (StoreCustom ''Terminal total difficulty not found in chain config''))) (\<lambda>ttd.
           if total_difficulty < ucast ttd then Err PreMergeBlock
           else if bh_number head_block = 0 then Ok ()
           else (rbind (ok_or (get_block_total_difficulty s (bh_parent_hash head_block))
                       (ForkChoiceStoreError (StoreCustom ''Block difficulty not found for parent block''))) (\<lambda>parent_total_difficulty.
                if ucast ttd \<le> parent_total_difficulty
                then Err (ForkChoiceStoreError
                            (StoreCustom ''Parent block is already post terminal total difficulty''))
                else Ok ())))))))"

text \<open>A finalized or safe block must lie on the chain that is about to become canonical.\<close>

definition connected_to_head ::
  "store \<Rightarrow> (u64 \<times> bytes) list \<Rightarrow> u64 \<Rightarrow> block_header \<Rightarrow> bytes \<Rightarrow> u64 \<Rightarrow> bytes \<Rightarrow> bool" where
  "connected_to_head s new_canonical_blocks link_block_number head head_hash number h \<longleftrightarrow>
     (is_canonical s number h \<and> number \<le> link_block_number) \<or>
     (number = bh_number head \<and> h = head_hash) \<or> (number, h) \<in> set new_canonical_blocks"

primrec set_canonical_blocks :: "(u64 \<times> bytes) list \<Rightarrow> store \<Rightarrow> store" where
  "set_canonical_blocks [] s = s"
| "set_canonical_blocks (b # bs) s = set_canonical_blocks bs (set_canonical_block (fst b) (snd b) s)"

primrec unset_canonical_blocks :: "u64 list \<Rightarrow> store \<Rightarrow> store" where
  "unset_canonical_blocks [] s = s"
| "unset_canonical_blocks (n # ns) s = unset_canonical_blocks ns (unset_canonical_block n s)"

definition u64_range :: "u64 \<Rightarrow> u64 \<Rightarrow> u64 list" where
  "u64_range a b = map of_nat [unat a..<unat b]"

definition fork_choice_checks ::
  "(bytes \<Rightarrow> bytes) \<Rightarrow> store \<Rightarrow> bytes \<Rightarrow> bytes \<Rightarrow> bytes
     \<Rightarrow> (block_header \<times> (u64 \<times> bytes) list \<times> u64 \<times> block option \<times> block option, invalid_fork_choice) result"
where
  "fork_choice_checks keccak s head_hash safe_hash finalized_hash =
     (if is_zero_hash head_hash then Err InvalidHeadHash
      else (let finalized_res = (if \<not> is_zero_hash finalized_hash then get_block_by_hash s finalized_hash else None) in
           let safe_res = (if \<not> is_zero_hash safe_hash then get_block_by_hash s safe_hash else None) in
           let head_res = get_block_by_hash s head_hash in
           rbind ((if \<not> is_zero_hash safe_hash then check_order safe_res head_res else Ok ())) (\<lambda>_.
           rbind ((if \<not> is_zero_hash finalized_hash \<and> \<not> is_zero_hash safe_hash
                  then check_order finalized_res safe_res else Ok ())) (\<lambda>_.
           rbind (ok_or head_res Syncing) (\<lambda>head_block.
           let head = b_header head_block in
           rbind (total_difficulty_check head_hash head s) (\<lambda>_.
           rbind (rmap_err ForkChoiceStoreError (get_latest_block_number s)) (\<lambda>latest.
           if is_canonical s (bh_number head) head_hash \<and> bh_number head < latest
           then Err NewHeadAlreadyCanonical
           else (rbind (rmap_err ForkChoiceStoreError (find_link_with_canonical_chain keccak s head)) (\<lambda>link.
                rbind (ok_or link (Disconnected Head Safe)) (\<lambda>new_canonical_blocks.
                let link_block_number = (if new_canonical_blocks = [] then bh_number head else fst (last new_canonical_blocks)) in
                rbind ((case finalized_res of
                         Some b \<Rightarrow>
                           if connected_to_head s new_canonical_blocks link_block_number head head_hash
                                (bh_number (b_header b)) finalized_hash
                           then Ok () else Err (Disconnected Head Finalized)
                       | None \<Rightarrow> Ok ())) (\<lambda>_.
                rbind ((case safe_res of
                         Some b \<Rightarrow>
                           if connected_to_head s new_canonical_blocks link_block_number head head_hash
                                (bh_number (b_header b)) safe_hash
                           then Ok () else Err (Disconnected Head Safe)
                       | None \<Rightarrow> Ok ())) (\<lambda>_.
                Ok (head, new_canonical_blocks, latest, safe_res, finalized_res)))))))))))))"

definition fork_choice_writes ::
  "bytes \<Rightarrow> block_header \<Rightarrow> (u64 \<times> bytes) list \<Rightarrow> u64 \<Rightarrow> block option \<Rightarrow> block option \<Rightarrow> store \<Rightarrow> store" where
  "fork_choice_writes head_hash head new_canonical_blocks latest safe_res finalized_res s =
     (let s = set_canonical_blocks new_canonical_blocks s;
          s = unset_canonical_blocks (u64_range (bh_number head + 1) (latest + 1)) s;
          s = set_canonical_block (bh_number head) head_hash s;
          s = (case finalized_res of
                 Some b \<Rightarrow> update_finalized_block_number (bh_number (b_header b)) s
               | None \<Rightarrow> s);
          s = (case safe_res of
                 Some b \<Rightarrow> update_safe_block_number (bh_number (b_header b)) s
               | None \<Rightarrow> s)
      in update_latest_block_number (bh_number head) s)"

definition apply_fork_choice ::
  "(bytes \<Rightarrow> bytes) \<Rightarrow> bytes \<Rightarrow> bytes \<Rightarrow> bytes \<Rightarrow> (block_header, invalid_fork_choice, store) sm" where
  "apply_fork_choice keccak head_hash safe_hash finalized_hash =
     (sbind sget (\<lambda>s.
     sbind (slift (fork_choice_checks keccak s head_hash safe_hash finalized_hash)) (\<lambda>(head, new_canonical_blocks, latest, safe_res, finalized_res).
     sbind (smodify (fork_choice_writes head_hash head new_canonical_blocks latest safe_res finalized_res)) (\<lambda>_.
     sreturn head))))"

section \<open>The index of canonical blocks\<close>

text \<open>
  What fork choice relies on of a store engine: an index from numbers to hashes with an entry set
  or removed at one number at a time. The loops of fork choice on any such index.
\<close>

locale canonical_index =
  fixes get :: "'s \<Rightarrow> u64 \<Rightarrow> bytes option"
    and set_block :: "u64 \<Rightarrow> bytes \<Rightarrow> 's \<Rightarrow> 's"
    and unset_block :: "u64 \<Rightarrow> 's \<Rightarrow> 's"
  assumes get_set: "get (set_block n h s) = (get s)(n \<mapsto> h)"
    and get_unset: "get (unset_block n s) = (get s)(n := None)"
begin

lemma get_set_all:
  "distinct (map fst bs) \<Longrightarrow> get (foldl (\<lambda>s b. set_block (fst b) (snd b) s) s bs) = get s ++ map_of bs"
proof (induction bs arbitrary: s)
  case (Cons b bs)
  then have "fst b \<notin> dom (map_of bs)" by (simp add: dom_map_of_conv_image_fst)
  with Cons show ?case by (auto simp: get_set fun_eq_iff map_add_def domIff split: option.split)
qed simp

lemma get_unset_all: "get (foldl (\<lambda>s n. unset_block n s) s ns) n = (if n \<in> set ns then None else get s n)"
  by (induction ns arbitrary: s) (simp_all add: get_unset)

end

interpretation in_memory: canonical_index get_canonical_block_hash set_canonical_block unset_canonical_block
  by unfold_locales (simp_all add: get_canonical_block_hash_def [abs_def] set_canonical_block_def
      unset_canonical_block_def)

lemma set_canonical_blocks_foldl:
  "set_canonical_blocks bs s = foldl (\<lambda>s b. set_canonical_block (fst b) (snd b) s) s bs"
  by (induction bs arbitrary: s) simp_all

lemma unset_canonical_blocks_foldl: "unset_canonical_blocks ns s = foldl (\<lambda>s n. unset_canonical_block n s) s ns"
  by (induction ns arbitrary: s) simp_all

lemma canonical_loops_only:
  "\<exists>c. set_canonical_blocks bs s = s\<lparr>s_canonical_hashes := c\<rparr>"
  "\<exists>c. unset_canonical_blocks ns s = s\<lparr>s_canonical_hashes := c\<rparr>"
proof -
  show "\<exists>c. set_canonical_blocks bs s = s\<lparr>s_canonical_hashes := c\<rparr>"
  proof (induction bs arbitrary: s)
    case Nil
    have "s = s\<lparr>s_canonical_hashes := s_canonical_hashes s\<rparr>" by simp
    then show ?case unfolding set_canonical_blocks.simps by blast
  next
    case (Cons b bs)
    from Cons.IH [of "set_canonical_block (fst b) (snd b) s"] show ?case by (auto simp: set_canonical_block_def)
  qed
  show "\<exists>c. unset_canonical_blocks ns s = s\<lparr>s_canonical_hashes := c\<rparr>"
  proof (induction ns arbitrary: s)
    case Nil
    have "s = s\<lparr>s_canonical_hashes := s_canonical_hashes s\<rparr>" by simp
    then show ?case unfolding unset_canonical_blocks.simps by blast
  next
    case (Cons n ns)
    from Cons.IH [of "unset_canonical_block n s"] show ?case by (auto simp: unset_canonical_block_def)
  qed
qed

lemma set_u64_range: "set (u64_range a b) = {n. a \<le> n \<and> n < b}"
proof -
  have "n \<in> (\<lambda>i. of_nat i) ` {unat a..<unat b}" if "a \<le> n" "n < b" for n :: u64
    using that by (intro image_eqI [of _ _ "unat n"]) (simp_all add: word_le_nat_alt word_less_nat_alt)
  moreover have "a \<le> of_nat i \<and> (of_nat i :: u64) < b" if "unat a \<le> i" "i < unat b" for i
  proof -
    have "i < 2 ^ 64" using that(2) unsigned_less [where 'a = nat and 'b = 64, of b] by simp
    then have "unat (of_nat i :: u64) = i" by (simp add: unsigned_of_nat take_bit_nat_eq_self)
    then show ?thesis using that by (simp add: word_le_nat_alt word_less_nat_alt)
  qed
  ultimately show ?thesis by (auto simp: u64_range_def)
qed

text \<open>The canonical chain that fork choice writes, and what else it changes.\<close>

lemma fork_choice_writes_fields:
  assumes "distinct (map fst bs)"
  shows "s_canonical_hashes (fork_choice_writes hh head bs latest sr fr s) = (\<lambda>n.
      if n = bh_number head then Some hh
      else if bh_number head + 1 \<le> n \<and> n < latest + 1 then None
      else (s_canonical_hashes s ++ map_of bs) n)"
    "s_latest_block_number (fork_choice_writes hh head bs latest sr fr s) = Some (bh_number head)"
    "s_headers (fork_choice_writes hh head bs latest sr fr s) = s_headers s"
    "s_bodies (fork_choice_writes hh head bs latest sr fr s) = s_bodies s"
    "s_earliest_block_number (fork_choice_writes hh head bs latest sr fr s) = s_earliest_block_number s"
    "s_transaction_locations (fork_choice_writes hh head bs latest sr fr s) = s_transaction_locations s"
    "s_chain_config (fork_choice_writes hh head bs latest sr fr s) = s_chain_config s"
proof -
  let ?u = "u64_range (bh_number head + 1) (latest + 1)"
  obtain c where c: "set_canonical_blocks bs s = s\<lparr>s_canonical_hashes := c\<rparr>" using canonical_loops_only(1) by blast
  obtain d where d: "unset_canonical_blocks ?u (s\<lparr>s_canonical_hashes := c\<rparr>) = s\<lparr>s_canonical_hashes := d\<rparr>"
    using canonical_loops_only(2) [of ?u "s\<lparr>s_canonical_hashes := c\<rparr>"] by auto
  have "get_canonical_block_hash (set_canonical_blocks bs s) = s_canonical_hashes s ++ map_of bs"
    unfolding set_canonical_blocks_foldl using in_memory.get_set_all [OF assms, of s]
    by (simp add: get_canonical_block_hash_def [abs_def])
  then have ce: "c = s_canonical_hashes s ++ map_of bs" using c by (simp add: get_canonical_block_hash_def [abs_def])
  have "get_canonical_block_hash (unset_canonical_blocks ?u (s\<lparr>s_canonical_hashes := c\<rparr>)) n =
      (if n \<in> set ?u then None else c n)" for n
    unfolding unset_canonical_blocks_foldl in_memory.get_unset_all by (simp add: get_canonical_block_hash_def)
  then have de: "d n = (if bh_number head + 1 \<le> n \<and> n < latest + 1 then None else (s_canonical_hashes s ++ map_of bs) n)"
    for n using d ce by (simp add: get_canonical_block_hash_def [abs_def] set_u64_range)
  show "s_canonical_hashes (fork_choice_writes hh head bs latest sr fr s) = (\<lambda>n.
      if n = bh_number head then Some hh
      else if bh_number head + 1 \<le> n \<and> n < latest + 1 then None
      else (s_canonical_hashes s ++ map_of bs) n)"
    by (cases sr; cases fr) (simp_all add: fork_choice_writes_def c d de set_canonical_block_def
        update_latest_block_number_def update_safe_block_number_def update_finalized_block_number_def fun_eq_iff)
  show "s_latest_block_number (fork_choice_writes hh head bs latest sr fr s) = Some (bh_number head)"
    "s_headers (fork_choice_writes hh head bs latest sr fr s) = s_headers s"
    "s_bodies (fork_choice_writes hh head bs latest sr fr s) = s_bodies s"
    "s_earliest_block_number (fork_choice_writes hh head bs latest sr fr s) = s_earliest_block_number s"
    "s_transaction_locations (fork_choice_writes hh head bs latest sr fr s) = s_transaction_locations s"
    "s_chain_config (fork_choice_writes hh head bs latest sr fr s) = s_chain_config s"
    by (cases sr; cases fr; simp add: fork_choice_writes_def c d set_canonical_block_def
        update_latest_block_number_def update_safe_block_number_def update_finalized_block_number_def)+
qed

end
