(* ===== verification/Canonical_Chain.thy ===== *)
theory Canonical_Chain
  imports Fork_Choice
begin

text \<open>
  The canonical chain. \<open>chain_inv k s e l\<close> is the invariant of the blocks in the store: every header
  is stored under its hash, with its parent unless it is the earliest block \<open>e\<close>, and the canonical
  index is the chain of ancestors of the latest block \<open>l\<close>. Fork choice finds the branch from a
  stored head to the canonical chain and keeps the invariant.
\<close>

section \<open>The invariant\<close>

text \<open>\<open>linked_upto s e c n\<close>: below \<open>n\<close>, the index \<open>c\<close> is a chain of stored blocks down to \<open>e\<close>.\<close>

definition linked_upto :: "store \<Rightarrow> u64 \<Rightarrow> (u64 \<rightharpoonup> bytes) \<Rightarrow> u64 \<Rightarrow> bool" where
  "linked_upto s e c n \<longleftrightarrow>
     (\<forall>i. e \<le> i \<and> i \<le> n \<longrightarrow> c i \<noteq> None) \<and>
     (\<forall>i h. i \<le> n \<and> c i = Some h \<longrightarrow>
        e \<le> i \<and> (\<exists>header. s_headers s h = Some header \<and> bh_number header = i \<and>
                     (i \<noteq> e \<longrightarrow> c (i - 1) = Some (bh_parent_hash header))))"

definition blocks_inv :: "(bytes \<Rightarrow> bytes) \<Rightarrow> store \<Rightarrow> u64 \<Rightarrow> bool" where
  "blocks_inv k s e \<longleftrightarrow>
     (\<forall>h header. s_headers s h = Some header \<longrightarrow>
        compute_block_hash k header = h \<and> e \<le> bh_number header \<and> bh_number header < - 1 \<and>
        (if bh_number header = e then s_canonical_hashes s e = Some h
         else \<exists>parent. s_headers s (bh_parent_hash header) = Some parent \<and>
                bh_number header = bh_number parent + 1))"

definition chain_inv :: "(bytes \<Rightarrow> bytes) \<Rightarrow> store \<Rightarrow> u64 \<Rightarrow> u64 \<Rightarrow> bool" where
  "chain_inv k s e l \<longleftrightarrow>
     s_earliest_block_number s = Some e \<and> s_latest_block_number s = Some l \<and> e \<le> l \<and>
     blocks_inv k s e \<and> linked_upto s e (s_canonical_hashes s) l \<and>
     (\<forall>n. l < n \<longrightarrow> s_canonical_hashes s n = None)"

lemma linked_upto_mono: "linked_upto s e c n \<Longrightarrow> m \<le> n \<Longrightarrow> linked_upto s e c m"
  unfolding linked_upto_def by (meson order_trans)

lemma word_pred:
  assumes "(e :: u64) < i"
  shows "i - 1 < i" "i - 1 + 1 = i" "i - 1 < - 1"
proof -
  show "i - 1 < i" "i - 1 + 1 = i" using assms by unat_arith+
  then show "i - 1 < - 1" using word_n1_ge [of i] by (metis order_less_le_trans)
qed

lemma word_succ_le: "a + 1 \<le> n \<longleftrightarrow> a < n" if "(a :: u64) < - 1"
proof -
  have "1 + a \<noteq> 0" using that by (metis add.commute eq_neg_iff_add_eq_0 less_irrefl)
  then have "unat (a + 1) = Suc (unat a)" by (simp add: unatSuc add.commute)
  then show ?thesis by (simp add: word_le_nat_alt word_less_nat_alt Suc_le_eq)
qed

lemma linked_upto_cong:
  assumes "linked_upto s e c n" "\<And>i. i \<le> n \<Longrightarrow> d i = c i"
  shows "linked_upto s e d n"
proof -
  have "i - 1 \<le> n" if "i \<le> n" "e \<le> i" "i \<noteq> e" for i using that by unat_arith
  then show ?thesis using assms unfolding linked_upto_def by auto
qed

lemma linked_upto_extend:
  assumes "linked_upto s e c n" "c n = Some (bh_parent_hash header)" "s_headers s h = Some header"
    and "bh_number header = n + 1" "n < - 1"
  shows "linked_upto s e (c(n + 1 \<mapsto> h)) (n + 1)"
proof -
  have le: "i \<le> n" if "i \<le> n + 1" "i \<noteq> n + 1" for i using that assms(5) by unat_arith
  have e: "e \<le> n" using assms(1,2) by (auto simp: linked_upto_def)
  have pred: "i - 1 \<le> n" "i - 1 \<noteq> n + 1" if "i \<le> n" "e \<le> i" "i \<noteq> e" for i using that assms(5) by unat_arith+
  have "n + 1 \<noteq> e" "e \<le> n + 1" using e assms(5) by unat_arith+
  then show ?thesis using assms(1-4) le pred unfolding linked_upto_def
    by (auto split: if_splits)
qed

lemma linked_upto_headers: "linked_upto s e c n \<Longrightarrow> s_headers s' = s_headers s \<Longrightarrow> linked_upto s' e c n"
  by (simp add: linked_upto_def)

section \<open>The branch to the canonical chain\<close>

text \<open>
  \<open>branch s e header bs\<close>: \<open>bs\<close> lists the ancestors of \<open>header\<close> from its parent downwards, up to and
  without the first one that is canonical.
\<close>

fun branch :: "store \<Rightarrow> u64 \<Rightarrow> block_header \<Rightarrow> (u64 \<times> bytes) list \<Rightarrow> bool" where
  "branch s e header [] \<longleftrightarrow> s_canonical_hashes s (bh_number header - 1) = Some (bh_parent_hash header)"
| "branch s e header ((n, h) # bs) \<longleftrightarrow>
     n = bh_number header - 1 \<and> h = bh_parent_hash header \<and> e < n \<and>
     (\<exists>parent. s_headers s h = Some parent \<and> bh_number parent = n \<and> branch s e parent bs)"

lemma branch_numbers: "branch s e header bs \<Longrightarrow> e < bh_number header \<Longrightarrow> (n, h) \<in> set bs \<Longrightarrow> e < n \<and> n < bh_number header"
proof (induction s e header bs rule: branch.induct)
  case (2 s e header m g bs)
  from 2(2) obtain parent where p: "m = bh_number header - 1" "e < m" "bh_number parent = m" "branch s e parent bs"
    by auto
  show ?case
  proof (cases "(n, h) \<in> set bs")
    case True
    have "e < n \<and> n < m" using 2(1) [of parent] p True by simp
    with word_pred(1) [OF 2(3)] p(1) show ?thesis by auto
  next
    case False
    with 2(4) p word_pred(1) [OF 2(3)] show ?thesis by simp
  qed
qed simp

lemma branch_distinct: "branch s e header bs \<Longrightarrow> e < bh_number header \<Longrightarrow> distinct (map fst bs)"
proof (induction s e header bs rule: branch.induct)
  case (2 s e header m g bs)
  from 2(2) obtain parent where p: "e < m" "bh_number parent = m" "branch s e parent bs" by auto
  then have "distinct (map fst bs)" using 2(1) [of parent] by simp
  moreover have "m \<notin> fst ` set bs" 
  proof
    assume "m \<in> fst ` set bs"
    then obtain g' where "(m, g') \<in> set bs" by auto
    from branch_numbers [OF p(3) _ this] p(1,2) show False by simp
  qed
  ultimately show ?case by simp
qed simp

lemma find_link_branch:
  assumes inv: "chain_inv k s e l" and "s_headers s h = Some header" "e < bh_number header"
  obtains bs where "find_link_loop s e (bh_number header) header acc = Some (acc @ bs)" "branch s e header bs"
  using assms(2,3)
proof (induction "unat (bh_number header)" arbitrary: header h acc thesis rule: less_induct)
  case less
  have bi: "blocks_inv k s e" using inv by (simp add: chain_inv_def)
  let ?n = "bh_number header - 1"
  obtain parent where p: "s_headers s (bh_parent_hash header) = Some parent" "bh_number header = bh_number parent + 1"
    using bi less.prems(2,3) unfolding blocks_inv_def by (metis less_irrefl)
  have n: "bh_number parent = ?n" using p(2) by simp
  show ?case
  proof (cases "is_canonical s ?n (bh_parent_hash header)")
    case True
    then have "branch s e header []"
      by (simp add: is_canonical_def get_canonical_block_hash_def split: option.splits)
    moreover have "find_link_loop s e (bh_number header) header acc = Some (acc @ [])"
      using True p(1) less.prems(3)
      by (subst find_link_loop.simps) (simp add: Let_def get_block_header_by_hash_def)
    ultimately show ?thesis using less.prems(1) by blast
  next
    case False
    have "e \<le> bh_number parent" using bi p(1) unfolding blocks_inv_def by blast
    moreover have "bh_number parent \<noteq> e"
    proof
      assume "bh_number parent = e"
      then have "s_canonical_hashes s e = Some (bh_parent_hash header)" using bi p(1) unfolding blocks_inv_def by metis
      with False n \<open>bh_number parent = e\<close> show False by (simp add: is_canonical_def get_canonical_block_hash_def)
    qed
    ultimately have e: "e < bh_number parent" by simp
    have "unat (bh_number parent) < unat (bh_number header)"
      using word_pred(1) [OF less.prems(3)] n by (simp add: word_less_nat_alt)
    from less.hyps [OF this _ p(1) e] obtain bs where
      bs: "find_link_loop s e (bh_number parent) parent (acc @ [(?n, bh_parent_hash header)]) =
        Some ((acc @ [(?n, bh_parent_hash header)]) @ bs)" "branch s e parent bs" by blast
    have "find_link_loop s e (bh_number header) header acc = Some (acc @ (?n, bh_parent_hash header) # bs)"
      using False p(1) less.prems(3) bs(1) n
      by (subst find_link_loop.simps) (simp add: Let_def get_block_header_by_hash_def)
    moreover have "branch s e header ((?n, bh_parent_hash header) # bs)" using p(1) n e bs(2) by auto
    ultimately show ?thesis using less.prems(1) by blast
  qed
qed

lemma branch_linked:
  assumes inv: "chain_inv k s e l"
  shows "branch s e header bs \<Longrightarrow> s_headers s h = Some header \<Longrightarrow> e < bh_number header \<Longrightarrow>
    linked_upto s e ((s_canonical_hashes s ++ map_of bs)(bh_number header \<mapsto> h)) (bh_number header)"
proof (induction bs arbitrary: header h)
  case Nil
  have l: "linked_upto s e (s_canonical_hashes s) l" and above: "\<And>n. l < n \<Longrightarrow> s_canonical_hashes s n = None"
    using inv by (simp_all add: chain_inv_def)
  let ?n = "bh_number header - 1"
  have c: "s_canonical_hashes s ?n = Some (bh_parent_hash header)" using Nil.prems(1) by simp
  then have "?n \<le> l" using above [of ?n] by (metis not_le option.distinct(1))
  with l have "linked_upto s e (s_canonical_hashes s) ?n" by (rule linked_upto_mono)
  moreover have "?n < - 1" by (rule word_pred(3) [OF Nil.prems(3)])
  ultimately have "linked_upto s e ((s_canonical_hashes s)(?n + 1 \<mapsto> h)) (?n + 1)"
    using linked_upto_extend c Nil.prems(2) word_pred(2) [OF Nil.prems(3)] by metis
  then show ?case unfolding word_pred(2) [OF Nil.prems(3)] map_of.simps map_add_empty .
next
  case (Cons b bs)
  obtain parent where p: "b = (bh_number header - 1, bh_parent_hash header)" "e < bh_number header - 1"
    "s_headers s (bh_parent_hash header) = Some parent" "bh_number parent = bh_number header - 1" "branch s e parent bs"
    using Cons.prems(1) by (cases b) auto
  let ?c = "(s_canonical_hashes s ++ map_of bs)(bh_number header - 1 \<mapsto> bh_parent_hash header)"
  have c: "s_canonical_hashes s ++ map_of (b # bs) = ?c" by (simp add: p(1))
  have "linked_upto s e ?c (bh_number header - 1)"
    using Cons.IH [OF p(5,3)] p(2) unfolding p(4) by blast
  moreover have "?c (bh_number header - 1) = Some (bh_parent_hash header)" by simp
  moreover have "bh_number header - 1 < - 1" by (rule word_pred(3) [OF Cons.prems(3)])
  ultimately have "linked_upto s e (?c(bh_number header - 1 + 1 \<mapsto> h)) (bh_number header - 1 + 1)"
    using linked_upto_extend Cons.prems(2) word_pred(2) [OF Cons.prems(3)] by metis
  then show ?case unfolding word_pred(2) [OF Cons.prems(3)] c .
qed

section \<open>Fork choice\<close>

lemma is_canonical_iff: "is_canonical s n h \<longleftrightarrow> s_canonical_hashes s n = Some h"
  by (simp add: is_canonical_def get_canonical_block_hash_def split: option.split)

lemma block_header_stored: "get_block_by_hash s h = Some b \<Longrightarrow> s_headers s h = Some (b_header b)"
  by (auto simp: get_block_by_hash_def get_block_header_by_hash_def split: option.splits)

text \<open>What the checks establish.\<close>

definition accepted :: "store \<Rightarrow> u64 \<Rightarrow> u64 \<Rightarrow> bytes \<Rightarrow> block_header \<Rightarrow> (u64 \<times> bytes) list \<Rightarrow> bool" where
  "accepted s e l head_hash head bs \<longleftrightarrow> s_headers s head_hash = Some head \<and>
     (bs = [] \<and> bh_number head = l \<and> s_canonical_hashes s l = Some head_hash \<or>
      e < bh_number head \<and> branch s e head bs)"

lemma find_link_cases:
  assumes inv: "chain_inv k s e l" and h: "s_headers s h = Some header"
  obtains (canonical) "s_canonical_hashes s (bh_number header) = Some h"
      "find_link_with_canonical_chain k s header = Ok (Some [])"
  | (side) bs where "s_canonical_hashes s (bh_number header) \<noteq> Some h" "e < bh_number header"
      "branch s e header bs" "find_link_with_canonical_chain k s header = Ok (Some bs)"
proof (cases "s_canonical_hashes s (bh_number header) = Some h")
  case True
  have "compute_block_hash k header = h" using inv h unfolding chain_inv_def blocks_inv_def by blast
  with True show ?thesis by (intro canonical) (simp_all add: find_link_with_canonical_chain_def is_canonical_iff)
next
  case False
  have e: "compute_block_hash k header = h" "e \<le> bh_number header" "bh_number header \<noteq> e"
    using inv h False unfolding chain_inv_def blocks_inv_def by metis+
  then have lt: "e < bh_number header" by simp
  obtain bs where "find_link_loop s e (bh_number header) header [] = Some ([] @ bs)" "branch s e header bs"
    by (rule find_link_branch [OF inv h lt])
  moreover have "s_earliest_block_number s = Some e" using inv by (simp add: chain_inv_def)
  ultimately show ?thesis using False lt e(1)
    by (intro side) (simp_all add: find_link_with_canonical_chain_def is_canonical_iff get_earliest_block_number_def)
qed

lemma check_option_Ok:
  "(case x of Some b \<Rightarrow> if P b then Ok () else Err er | None \<Rightarrow> Ok ()) = Ok () \<longleftrightarrow> (\<forall>b. x = Some b \<longrightarrow> P b)"
  by (cases x) simp_all

lemma checks_accepted:
  assumes inv: "chain_inv k s e l"
    and ok: "fork_choice_checks k s hh sh fh = Ok (head, bs, latest, sr, fr)"
  defines "link \<equiv> (if bs = [] then bh_number head else fst (last bs))"
  shows "accepted s e l hh head bs" "latest = l"
    "sr = (if is_zero_hash sh then None else get_block_by_hash s sh)"
    "fr = (if is_zero_hash fh then None else get_block_by_hash s fh)"
    "sr = Some b \<Longrightarrow> connected_to_head s bs link head hh (bh_number (b_header b)) sh"
    "fr = Some b \<Longrightarrow> connected_to_head s bs link head hh (bh_number (b_header b)) fh"
proof -
  from ok obtain hb where hb: "get_block_by_hash s hh = Some hb" "head = b_header hb"
    and lat: "get_latest_block_number s = Ok latest"
    and nc: "\<not> (is_canonical s (bh_number head) hh \<and> bh_number head < latest)"
    and link: "find_link_with_canonical_chain k s head = Ok (Some bs)"
    and sr: "sr = (if is_zero_hash sh then None else get_block_by_hash s sh)"
      "fr = (if is_zero_hash fh then None else get_block_by_hash s fh)"
    and cn: "sr = Some b \<Longrightarrow> connected_to_head s bs link head hh (bh_number (b_header b)) sh"
      "fr = Some b \<Longrightarrow> connected_to_head s bs link head hh (bh_number (b_header b)) fh"
    unfolding fork_choice_checks_def Let_def link_def
    by (auto simp: rbind_eq_Ok ok_or_eq_Ok rmap_err_eq_Ok check_option_Ok split: if_split_asm)
  show "sr = (if is_zero_hash sh then None else get_block_by_hash s sh)"
    "fr = (if is_zero_hash fh then None else get_block_by_hash s fh)"
    "sr = Some b \<Longrightarrow> connected_to_head s bs link head hh (bh_number (b_header b)) sh"
    "fr = Some b \<Longrightarrow> connected_to_head s bs link head hh (bh_number (b_header b)) fh" by (fact sr cn)+
  show l: "latest = l" using lat inv by (simp add: get_latest_block_number_def chain_inv_def)
  have h: "s_headers s hh = Some head" using block_header_stored [OF hb(1)] hb(2) by simp
  from inv h show "accepted s e l hh head bs"
  proof (cases rule: find_link_cases)
    case canonical
    have "bh_number head \<le> l" using inv canonical(1) unfolding chain_inv_def by (metis not_le option.distinct(1))
    moreover have "l \<le> bh_number head" using nc canonical(1) l by (simp add: is_canonical_iff)
    ultimately show ?thesis using h link canonical by (auto simp: accepted_def)
  next
    case (side bs')
    with h link show ?thesis by (simp add: accepted_def)
  qed
qed

text \<open>The index after an accepted update, and the invariant.\<close>

lemma accepted_numbers:
  assumes inv: "chain_inv k s e l" and acc: "accepted s e l hh head bs"
  shows "distinct (map fst bs)" "e \<le> bh_number head" "bh_number head < - 1" "l < - 1"
    and "(n, h) \<in> set bs \<Longrightarrow> e < n \<and> n < bh_number head"
proof -
  have c: "s_headers s hh = Some head" "bs = [] \<or> e < bh_number head \<and> branch s e head bs"
    using acc by (auto simp: accepted_def)
  from c(2) show "distinct (map fst bs)" by (elim disjE conjE) (simp, rule branch_distinct)
  have bi: "blocks_inv k s e" using inv by (simp add: chain_inv_def)
  then show "e \<le> bh_number head" "bh_number head < - 1"
    using c(1) unfolding blocks_inv_def by blast+
  have link: "linked_upto s e (s_canonical_hashes s) l" "e \<le> l" using inv by (simp_all add: chain_inv_def)
  then obtain g where "s_canonical_hashes s l = Some g" unfolding linked_upto_def by auto
  with link obtain header where "s_headers s g = Some header" "bh_number header = l"
    unfolding linked_upto_def by (metis order_refl)
  with bi show "l < - 1" unfolding blocks_inv_def by blast
  show "(n, h) \<in> set bs \<Longrightarrow> e < n \<and> n < bh_number head"
    using c(2) by (elim disjE conjE) (simp, rule branch_numbers)
qed

lemma accepted_index:
  assumes inv: "chain_inv k s e l" and acc: "accepted s e l hh head bs"
  shows "s_canonical_hashes (fork_choice_writes hh head bs l sr fr s) n =
    (if n \<le> bh_number head then ((s_canonical_hashes s ++ map_of bs)(bh_number head \<mapsto> hh)) n else None)"
proof -
  note nums = accepted_numbers [OF inv acc]
  have above: "s_canonical_hashes s n = None" if "l < n" for n using inv that by (simp add: chain_inv_def)
  have "map_of bs n = None" if "bh_number head < n"
    using that by (auto simp: map_of_eq_None_iff dest!: nums(5))
  moreover note word_succ_le [OF nums(3), of n]
  moreover have "n < l + 1 \<longleftrightarrow> n \<le> l" using word_succ_le [OF nums(4), of n] by (metis not_le)
  ultimately show ?thesis using above [of n]
    by (auto simp: fork_choice_writes_fields(1) [OF nums(1)] map_add_def)
qed

lemma accepted_keeps_inv:
  assumes inv: "chain_inv k s e l" and acc: "accepted s e l hh head bs"
  shows "chain_inv k (fork_choice_writes hh head bs l sr fr s) e (bh_number head)"
proof -
  let ?s = "fork_choice_writes hh head bs l sr fr s"
  let ?c = "(s_canonical_hashes s ++ map_of bs)(bh_number head \<mapsto> hh)"
  note nums = accepted_numbers [OF inv acc]
  note f = fork_choice_writes_fields [OF nums(1)]
  have "linked_upto s e ?c (bh_number head)"
    using acc unfolding accepted_def
  proof (elim conjE disjE)
    assume "bs = []" "bh_number head = l" "s_canonical_hashes s l = Some hh"
    then have "?c = s_canonical_hashes s" by (simp add: fun_upd_idem)
    with inv show ?thesis unfolding \<open>bh_number head = l\<close> by (simp add: chain_inv_def)
  qed (rule branch_linked [OF inv])
  then have link: "linked_upto ?s e (s_canonical_hashes ?s) (bh_number head)"
    by (intro linked_upto_headers [OF linked_upto_cong f(3)]) (simp_all only: accepted_index [OF inv acc] if_True)
  have "s_canonical_hashes ?s e = s_canonical_hashes s e"
  proof (cases "bh_number head = e")
    case True
    with acc have "s_canonical_hashes s e = Some hh" by (auto simp: accepted_def)
    then show ?thesis by (simp add: accepted_index [OF inv acc] True)
  next
    case False
    have "map_of bs e = None" by (auto simp: map_of_eq_None_iff dest!: nums(5))
    with False show ?thesis using nums(2) by (simp add: accepted_index [OF inv acc] map_add_def)
  qed
  then have "blocks_inv k ?s e" using inv by (simp add: chain_inv_def blocks_inv_def f(3))
  then show ?thesis using inv nums(2) link by (auto simp: chain_inv_def f(2,5) accepted_index [OF inv acc])
qed

text \<open>
  A safe or finalized block that passes is on the new chain, or it was canonical and the new chain
  leaves the old one at its parent.
\<close>

lemma branch_lowest: "branch s e header bs \<Longrightarrow> e < bh_number header \<Longrightarrow> p \<in> set bs \<Longrightarrow> fst (last bs) \<le> fst p"
proof (induction s e header bs rule: branch.induct)
  case (2 s e header m g bs)
  from 2(2) obtain parent where p: "e < m" "bh_number parent = m" "branch s e parent bs" by auto
  show ?case
  proof (cases "bs = []")
    case False
    have "p \<in> set bs \<Longrightarrow> fst (last bs) \<le> fst p" using 2(1) [of parent] p by simp
    moreover have "fst (last bs) \<le> m"
      using branch_numbers [OF p(3), of "fst (last bs)" "snd (last bs)"] p(1,2) False by auto
    ultimately show ?thesis using 2(4) False by auto
  qed (use 2(4) in simp)
qed simp

definition labelled :: "store \<Rightarrow> store \<Rightarrow> u64 \<Rightarrow> bytes \<Rightarrow> u64 option \<Rightarrow> u64 option \<Rightarrow> bool" where
  "labelled s s' e h label label' \<longleftrightarrow>
     (case if is_zero_hash h then None else get_block_by_hash s h of
        None \<Rightarrow> label' = label
      | Some b \<Rightarrow>
          (let n = bh_number (b_header b) in
           label' = Some n \<and>
           (s_canonical_hashes s' n = Some h \<or>
            s_canonical_hashes s n = Some h \<and> e < n \<and> s_canonical_hashes s' (n - 1) = s_canonical_hashes s (n - 1))))"

lemma connected_on_chain:
  assumes inv: "chain_inv k s e l" and acc: "accepted s e l hh head bs"
    and con: "connected_to_head s bs (if bs = [] then bh_number head else fst (last bs)) head hh n h"
    and s'_def: "s' = fork_choice_writes hh head bs l sr fr s"
  shows "s_canonical_hashes s' n = Some h \<or>
    s_canonical_hashes s n = Some h \<and> e < n \<and> s_canonical_hashes s' (n - 1) = s_canonical_hashes s (n - 1)"
proof -
  note nums = accepted_numbers [OF inv acc]
  note index = accepted_index [OF inv acc, of sr fr, unfolded s'_def [symmetric]]
  consider (head) "n = bh_number head" "h = hh" | (new) "(n, h) \<in> set bs"
    | (old) "s_canonical_hashes s n = Some h" "n \<le> (if bs = [] then bh_number head else fst (last bs))"
    using con by (auto simp: connected_to_head_def is_canonical_iff)
  then show ?thesis
  proof cases
    case head
    then show ?thesis by (simp add: index)
  next
    case new
    then have "map_of bs n = Some h" using nums(1) by simp
    with nums(5) [OF new] have "s_canonical_hashes s' n = Some h" by (auto simp: index)
    then show ?thesis ..
  next
    case old
    have low: "bs \<noteq> [] \<Longrightarrow> fst (last bs) \<le> m" if "(m, g) \<in> set bs" for m g
      using acc branch_lowest [of s e head bs "(m, g)"] that by (auto simp: accepted_def)
    have last: "bs \<noteq> [] \<Longrightarrow> e < fst (last bs) \<and> fst (last bs) < bh_number head"
      using nums(5) [of "fst (last bs)" "snd (last bs)"] by simp
    show ?thesis
    proof (cases "map_of bs n")
      case None
      show ?thesis
      proof (cases "n = bh_number head")
        case True
        then have "bs = []" using old(2) last by (auto split: if_splits)
        then have "s_canonical_hashes s n = Some hh \<or> e < n" using acc True by (auto simp: accepted_def)
        then show ?thesis
        proof
          assume "e < n"
          with word_pred(1) [OF this] show ?thesis using True old(1) \<open>bs = []\<close> by (auto simp: index)
        qed (use old(1) True in \<open>simp add: index\<close>)
      next
        case False
        have "n \<le> bh_number head" using old(2) last by (auto split: if_splits)
        with False None old(1) have "s_canonical_hashes s' n = Some h" by (simp add: index map_add_def)
        then show ?thesis ..
      qed
    next
      case (Some g)
      then have g: "(n, g) \<in> set bs" by (rule map_of_SomeD)
      then have "bs \<noteq> []" by auto
      then have n: "n = fst (last bs)" using old(2) low [OF g] by simp
      have e: "e < n" "n < bh_number head" using nums(5) [OF g] by simp_all
      have p: "n - 1 < n" by (rule word_pred(1) [OF e(1)])
      have "(n - 1, g') \<notin> set bs" for g'
        using low [OF _ \<open>bs \<noteq> []\<close>, of "n - 1" g'] p n by auto
      then have "map_of bs (n - 1) = None" by (auto simp: map_of_eq_None_iff)
      moreover have "n - 1 \<le> bh_number head" "n - 1 \<noteq> bh_number head" using p e(2) by auto
      ultimately show ?thesis using old(1) e(1) by (simp add: index map_add_def)
    qed
  qed
qed

lemma writes_labels:
  "s_safe_block_number (fork_choice_writes hh head bs l sr fr s) =
     (case sr of Some b \<Rightarrow> Some (bh_number (b_header b)) | None \<Rightarrow> s_safe_block_number s)"
  "s_finalized_block_number (fork_choice_writes hh head bs l sr fr s) =
     (case fr of Some b \<Rightarrow> Some (bh_number (b_header b)) | None \<Rightarrow> s_finalized_block_number s)"
proof -
  let ?u = "u64_range (bh_number head + 1) (l + 1)"
  obtain c where c: "set_canonical_blocks bs s = s\<lparr>s_canonical_hashes := c\<rparr>" using canonical_loops_only(1) by blast
  obtain d where d: "unset_canonical_blocks ?u (s\<lparr>s_canonical_hashes := c\<rparr>) = s\<lparr>s_canonical_hashes := d\<rparr>"
    using canonical_loops_only(2) [of ?u "s\<lparr>s_canonical_hashes := c\<rparr>"] by auto
  show "s_safe_block_number (fork_choice_writes hh head bs l sr fr s) =
     (case sr of Some b \<Rightarrow> Some (bh_number (b_header b)) | None \<Rightarrow> s_safe_block_number s)"
  "s_finalized_block_number (fork_choice_writes hh head bs l sr fr s) =
     (case fr of Some b \<Rightarrow> Some (bh_number (b_header b)) | None \<Rightarrow> s_finalized_block_number s)"
    by (cases sr; cases fr; simp add: fork_choice_writes_def c d set_canonical_block_def
        update_latest_block_number_def update_safe_block_number_def update_finalized_block_number_def)+
qed

lemma apply_fork_choice_eq:
  "apply_fork_choice k hh sh fh s =
     (case fork_choice_checks k s hh sh fh of
        Ok (head, bs, latest, sr, fr) \<Rightarrow> (Ok head, fork_choice_writes hh head bs latest sr fr s)
      | Err er \<Rightarrow> (Err er, s) | Panic \<Rightarrow> (Panic, s) | Diverge \<Rightarrow> (Diverge, s))"
  by (simp add: apply_fork_choice_def sbind_def sm_steps split: result.split prod.split)

lemma fork_choice_succeeds:
  assumes inv: "chain_inv k s e l" and b: "get_block_by_hash s hh = Some b" "\<not> is_zero_hash hh"
    and z: "is_zero_hash sh" "is_zero_hash fh" and d: "bh_difficulty (b_header b) = 0" "bh_number (b_header b) \<noteq> 0"
    and new: "\<not> (get_canonical_block_hash s (bh_number (b_header b)) = Some hh \<and> bh_number (b_header b) < l)"
  obtains bs where "fork_choice_checks k s hh sh fh = Ok (b_header b, bs, l, None, None)"
proof -
  have h: "s_headers s hh = Some (b_header b)" by (rule block_header_stored [OF b(1)])
  have lat: "get_latest_block_number s = Ok l" using inv by (simp add: chain_inv_def get_latest_block_number_def)
  obtain bs where "find_link_with_canonical_chain k s (b_header b) = Ok (Some bs)"
    by (rule find_link_cases [OF inv h])
  then have "fork_choice_checks k s hh sh fh = Ok (b_header b, bs, l, None, None)"
    using b z d new lat
    by (simp add: fork_choice_checks_def total_difficulty_check_def is_canonical_iff get_canonical_block_hash_def Let_def)
  then show thesis by (rule that)
qed

end
