(* ===== verification/Block_Import.thy ===== *)
theory Block_Import
  imports Canonical_Chain
begin

text \<open>
  Import of a block, \<^verbatim>\<open>add_block\<close> of \<^verbatim>\<open>crates/blockchain/blockchain.rs\<close>: the parent is looked up, the
  block validated and executed, its state transition applied to the state of the parent and
  compared with the header, and the block and its receipts stored. The execution of a block
  (\<^verbatim>\<open>crates/vm/vm.rs\<close>, in front of an external interpreter) is the parameter \<open>execute_block\<close>: it
  reads the store and returns receipts and account updates or an error, whose type is a parameter too.
\<close>

section \<open>Definitions\<close>

datatype 'evm chain_error =
  InvalidBlock invalid_block_error
| ParentNotFound
| ParentStateNotFound
| ChainStoreError store_error
| ChainEvmError 'evm

type_synonym 'evm executor = "block \<Rightarrow> store \<Rightarrow> (receipt list \<times> account_update list, 'evm) result"

text \<open>The question mark on a call of the store.\<close>

definition store_call :: "('a, store_error, store) sm \<Rightarrow> ('a, 'evm chain_error, store) sm" where
  "store_call m s = (case m s of (r, s') \<Rightarrow> (rmap_err ChainStoreError r, s'))"

definition find_parent_header :: "block_header \<Rightarrow> store \<Rightarrow> (block_header, 'evm chain_error) result" where
  "find_parent_header header s =
     (case get_block_header_by_hash s (bh_parent_hash header) of
        Some parent_header \<Rightarrow> Ok parent_header
      | None \<Rightarrow> Err ParentNotFound)"

definition latest_canonical_block_hash :: "(bytes \<Rightarrow> bytes) \<Rightarrow> store \<Rightarrow> (bytes, 'evm chain_error) result" where
  "latest_canonical_block_hash keccak s =
     (rbind (rmap_err ChainStoreError (get_latest_block_number s)) (\<lambda>latest_block_number.
     case get_block_header s latest_block_number of
       Some latest_valid_header \<Rightarrow> Ok (compute_block_hash keccak latest_valid_header)
     | None \<Rightarrow> Err (ChainStoreError (StoreCustom ''Could not find latest valid hash''))))"

definition store_block :: "(bytes \<Rightarrow> bytes) \<Rightarrow> block \<Rightarrow> (unit, 'evm chain_error, store) sm" where
  "store_block keccak b = store_call (store_add_block keccak b)"

definition store_receipts :: "receipt list \<Rightarrow> bytes \<Rightarrow> (unit, 'evm chain_error, store) sm" where
  "store_receipts receipts h = smodify (add_receipts h receipts)"

definition add_block ::
  "(bytes \<Rightarrow> bytes) \<Rightarrow> nat \<Rightarrow> 'evm executor \<Rightarrow> block \<Rightarrow> (unit, 'evm chain_error, store) sm" where
  "add_block keccak fuel execute_block b =
     (let header = b_header b in
     let h = compute_block_hash keccak header in
     sbind sget (\<lambda>s.
     case (find_parent_header header s :: (block_header, 'evm chain_error) result) of
       Ok parent_header \<Rightarrow>
         (sbind (slift (get_chain_config s)) (\<lambda>config.
         sbind (slift (rmap_err InvalidBlock (validate_block keccak config b parent_header))) (\<lambda>_.
         sbind (slift (rmap_err ChainEvmError (execute_block b s))) (\<lambda>(receipts, account_updates).
         sbind (slift (rmap_err InvalidBlock (validate_gas_used receipts header))) (\<lambda>_.
         sbind (store_call (apply_account_updates keccak fuel (bh_parent_hash header) account_updates)) (\<lambda>root.
         sbind (slift (ok_or root ParentStateNotFound)) (\<lambda>new_state_root.
         sbind (slift (rmap_err InvalidBlock (validate_state_root header new_state_root))) (\<lambda>_.
         sbind (slift (rmap_err InvalidBlock (validate_receipts_root keccak fuel header receipts))) (\<lambda>_.
         sbind (store_block keccak b) (\<lambda>_.
         store_receipts receipts h))))))))))
     | _ \<Rightarrow>
         (sbind (smodify (add_pending_block keccak b)) (\<lambda>_.
         serr ParentNotFound))))"

section \<open>What an import changes\<close>

text \<open>Account updates and the genesis accounts write trie nodes and codes only, also where they fail.\<close>

interpretation state_only: state_order only_state_changed
proof
  show "only_state_changed s s" for s :: store
  proof -
    have "s = s\<lparr>s_account_codes := s_account_codes s, s_storage_trie_nodes := s_storage_trie_nodes s,
        s_state_trie_nodes := s_state_trie_nodes s\<rparr>" by simp
    then show ?thesis unfolding only_state_changed_def by blast
  qed
  show "only_state_changed s u" if "only_state_changed s t" "only_state_changed t u" for s t u :: store
    using that unfolding only_state_changed_def by fastforce
qed

lemma put_nodes_state_only:
  "only_state_changed s (put_storage_nodes h tr s)" "only_state_changed s (put_state_nodes tr s)"
  "only_state_changed s (add_account_code h' code s)"
proof -
  have "put_storage_nodes h tr s = s\<lparr>s_account_codes := s_account_codes s,
      s_storage_trie_nodes := (s_storage_trie_nodes s)(h := trie_nodes tr), s_state_trie_nodes := s_state_trie_nodes s\<rparr>"
    "put_state_nodes tr s = s\<lparr>s_account_codes := s_account_codes s,
      s_storage_trie_nodes := s_storage_trie_nodes s, s_state_trie_nodes := trie_nodes tr\<rparr>"
    "add_account_code h' code s = s\<lparr>s_account_codes := (s_account_codes s)(h' \<mapsto> code),
      s_storage_trie_nodes := s_storage_trie_nodes s, s_state_trie_nodes := s_state_trie_nodes s\<rparr>"
    by (simp_all add: put_storage_nodes_def put_state_nodes_def add_account_code_def)
  then show "only_state_changed s (put_storage_nodes h tr s)" "only_state_changed s (put_state_nodes tr s)"
    "only_state_changed s (add_account_code h' code s)" unfolding only_state_changed_def by blast+
qed

lemmas put_nodes_moves [moves_rules] = put_nodes_state_only [THEN state_only.moves_modify]

lemma apply_updates_moves [moves_rules]: "moves only_state_changed (apply_updates k fuel us tr)"
proof (induction us arbitrary: tr)
  case Nil
  show ?case by (simp add: state_only.moves_return)
next
  case (Cons u us)
  have "moves only_state_changed (apply_account_update k fuel u tr)" for tr
    unfolding apply_account_update_def apply_info_def apply_storage_def by (intro moves_rules)
  with Cons.IH show ?case by (simp add: state_only.moves_bind)
qed

lemma apply_account_updates_moves [moves_rules]: "moves only_state_changed (apply_account_updates k fuel h us)"
  unfolding apply_account_updates_def by (intro moves_rules)

lemma setup_genesis_accounts_moves [moves_rules]: "moves only_state_changed (setup_genesis_accounts k fuel es tr)"
proof (induction es arbitrary: tr)
  case Nil
  show ?case by (simp add: state_only.moves_return)
next
  case (Cons e es)
  have "moves only_state_changed (setup_genesis_account k fuel e tr)" for tr
    unfolding setup_genesis_account_def by (intro moves_rules)
  with Cons.IH show ?case by (simp add: state_only.moves_bind)
qed

lemma setup_genesis_moves [moves_rules]: "moves only_state_changed (setup_genesis_state_trie k fuel es)"
  unfolding setup_genesis_state_trie_def by (intro moves_rules)

text \<open>The outcomes of an import.\<close>

definition importable ::
  "(bytes \<Rightarrow> bytes) \<Rightarrow> nat \<Rightarrow> 'evm executor \<Rightarrow> block \<Rightarrow> store \<Rightarrow> receipt list \<Rightarrow> account_update list \<Rightarrow> u256 \<Rightarrow> store \<Rightarrow> bool"
where
  "importable k fuel ex b s receipts us d s' \<longleftrightarrow>
     (\<exists>parent config.
        s_headers s (bh_parent_hash (b_header b)) = Some parent \<and> s_chain_config s = Some config \<and>
        validate_block k config b parent = Ok () \<and> ex b s = Ok (receipts, us) \<and>
        validate_gas_used receipts (b_header b) = Ok () \<and>
        apply_account_updates k fuel (bh_parent_hash (b_header b)) us s = (Ok (Some (bh_state_root (b_header b))), s') \<and>
        compute_receipts_root k fuel receipts = Ok (bh_receipts_root (b_header b)) \<and>
        add_u256 (unwrap_or (s_latest_total_difficulty s') 0) (bh_difficulty (b_header b)) =
          (Ok d :: (u256, store_error) result))"

lemma add_block_stores:
  assumes "importable k fuel ex b s receipts us d s'"
  shows "add_block k fuel ex b s =
    (Ok (), add_receipts (compute_block_hash k (b_header b)) receipts (with_block k b d s'))"
  using assms
  by (auto simp: importable_def add_block_def Let_def sbind_def sm_steps find_parent_header_def
      get_block_header_by_hash_def get_chain_config_def store_call_def store_block_def store_receipts_def
      store_add_block_eq validate_state_root_def ensure_def validate_receipts_root_def)

lemma is_Ok_iff: "is_Ok r \<longleftrightarrow> (\<exists>x. r = Ok x)"
  by (cases r) simp_all

lemma add_block_outcome:
  obtains (unknown) "s_headers s (bh_parent_hash (b_header b)) = None"
    "add_block k fuel ex b s = (Err ParentNotFound, add_pending_block k b s)"
  | (refused) r s' where "\<not> is_Ok r" "only_state_changed s s'" "add_block k fuel ex b s = (r, s')"
  | (stored) receipts us d s' where "importable k fuel ex b s receipts us d s'" "only_state_changed s s'"
proof (cases "s_headers s (bh_parent_hash (b_header b))")
  case None
  then show ?thesis
    by (intro unknown) (simp_all add: add_block_def Let_def sbind_def sm_steps find_parent_header_def
        get_block_header_by_hash_def)
next
  case (Some parent)
  show ?thesis
  proof (cases "\<exists>receipts us d s'. importable k fuel ex b s receipts us d s'")
    case True
    then obtain receipts us d s' where i: "importable k fuel ex b s receipts us d s'" by blast
    have "only_state_changed s (snd (apply_account_updates k fuel (bh_parent_hash (b_header b)) us s))"
      by (rule movesD [OF apply_account_updates_moves])
    with i have "only_state_changed s s'" by (auto simp: importable_def)
    with i show ?thesis by (rule stored)
  next
    case False
    obtain r s' where r: "add_block k fuel ex b s = (r, s')" by (cases "add_block k fuel ex b s")
    have moved: "only_state_changed s s1" if "apply_account_updates k fuel (bh_parent_hash (b_header b)) us s = (r1, s1)" for us r1 s1
      using movesD [OF apply_account_updates_moves, of s k fuel "bh_parent_hash (b_header b)" us] that by simp
    have "\<not> is_Ok r \<and> only_state_changed s s'"
      using r False Some moved
      by (auto simp: importable_def add_block_def Let_def sbind_def sm_steps find_parent_header_def state_only.same
          get_block_header_by_hash_def get_chain_config_def store_call_def store_block_def store_receipts_def
          store_add_block_eq validate_state_root_def ensure_def validate_receipts_root_def result_simps is_Ok_iff
          split: result.splits option.splits prod.splits if_splits)
    then show ?thesis using r by (intro refused) simp_all
  qed
qed

section \<open>Imports and the canonical chain\<close>

lemma chain_inv_cong:
  assumes "s_headers s' = s_headers s" "s_canonical_hashes s' = s_canonical_hashes s"
    "s_earliest_block_number s' = s_earliest_block_number s" "s_latest_block_number s' = s_latest_block_number s"
  shows "chain_inv k s' e l \<longleftrightarrow> chain_inv k s e l"
  using assms by (simp add: chain_inv_def blocks_inv_def linked_upto_def)

lemma chain_inv_state: "only_state_changed s s' \<Longrightarrow> chain_inv k s' e l \<longleftrightarrow> chain_inv k s e l"
  by (rule chain_inv_cong) (simp_all add: only_state_changed_fields)

lemma linked_upto_more_headers: "linked_upto s e c n \<Longrightarrow> s_headers s \<subseteq>\<^sub>m s_headers s' \<Longrightarrow> linked_upto s' e c n"
  unfolding linked_upto_def map_le_def by (metis domI)

lemma validated_number: "validate_block k config b parent = Ok () \<Longrightarrow> bh_number (b_header b) = bh_number parent + 1"
  by (auto simp: validate_block_def validate_block_header_def ensure_def result_simps Let_def split: if_splits)

lemma block_keeps_inv:
  assumes inv: "chain_inv k s e l" and n: "bh_number (b_header b) < - 1"
    and parent: "s_headers s (bh_parent_hash (b_header b)) = Some parent" "bh_number (b_header b) = bh_number parent + 1"
    and new: "\<And>header. s_headers s (compute_block_hash k (b_header b)) = Some header \<Longrightarrow> header = b_header b"
  shows "chain_inv k (with_block k b d s) e l"
proof -
  let ?s = "with_block k b d s"
  have bi: "blocks_inv k s e" and link: "linked_upto s e (s_canonical_hashes s) l" using inv by (simp_all add: chain_inv_def)
  have p: "e \<le> bh_number parent" "bh_number parent < - 1" using bi parent(1) unfolding blocks_inv_def by blast+
  have "bh_number parent + 1 \<le> bh_number (b_header b)" using parent(2) by simp
  then have gt: "e < bh_number (b_header b)" using p unfolding word_succ_le [OF p(2)] by simp
  have le: "s_headers s \<subseteq>\<^sub>m s_headers ?s" using new by (auto simp: map_le_def)
  have "blocks_inv k ?s e"
    unfolding blocks_inv_def
  proof (intro allI impI)
    fix h header
    assume h: "s_headers ?s h = Some header"
    have parents: "\<exists>p. s_headers ?s q = Some p \<and> m = bh_number p + 1" if "\<exists>p. s_headers s q = Some p \<and> m = bh_number p + 1" for q m
      using that le unfolding map_le_def by (metis domI)
    show "compute_block_hash k header = h \<and> e \<le> bh_number header \<and> bh_number header < - 1 \<and>
        (if bh_number header = e then s_canonical_hashes ?s e = Some h
         else \<exists>parent. s_headers ?s (bh_parent_hash header) = Some parent \<and> bh_number header = bh_number parent + 1)"
    proof (cases "h = compute_block_hash k (b_header b)")
      case True
      with h have hb: "header = b_header b" by simp
      then have "\<exists>p. s_headers ?s (bh_parent_hash header) = Some p \<and> bh_number header = bh_number p + 1"
        using parents parent by blast
      moreover have "bh_number header \<noteq> e" "e \<le> bh_number header" using gt hb by auto
      ultimately show ?thesis using True n hb by simp
    next
      case False
      with h have "s_headers s h = Some header" by simp
      with bi have "compute_block_hash k header = h" "e \<le> bh_number header" "bh_number header < - 1"
        "if bh_number header = e then s_canonical_hashes s e = Some h
         else \<exists>parent. s_headers s (bh_parent_hash header) = Some parent \<and> bh_number header = bh_number parent + 1"
        unfolding blocks_inv_def by blast+
      then show ?thesis using parents [of "bh_parent_hash header" "bh_number header"]
        by (simp del: with_block_fields(1) split: if_splits)
    qed
  qed
  moreover have "linked_upto ?s e (s_canonical_hashes ?s) l" using linked_upto_more_headers [OF link le] by simp
  ultimately show ?thesis using inv by (simp add: chain_inv_def)
qed

lemma import_keeps_inv:
  assumes inv: "chain_inv k s e l" and n: "bh_number (b_header b) < - 1"
    and new: "\<And>header. s_headers s (compute_block_hash k (b_header b)) = Some header \<Longrightarrow> header = b_header b"
  shows "chain_inv k (snd (add_block k fuel ex b s)) e l"
proof (cases rule: add_block_outcome [of s b k fuel ex, case_names unknown refused stored])
  case unknown
  have "chain_inv k (add_pending_block k b s) e l \<longleftrightarrow> chain_inv k s e l"
    by (rule chain_inv_cong) (simp_all add: add_pending_block_def)
  with inv unknown(2) show ?thesis by simp
next
  case (refused r s')
  with inv show ?thesis by (simp add: chain_inv_state)
next
  case (stored receipts us d s')
  have f: "s_headers s' = s_headers s" "chain_inv k s' e l" using stored(2) inv by (simp_all add: only_state_changed_fields chain_inv_state)
  obtain parent config where "s_headers s (bh_parent_hash (b_header b)) = Some parent" "validate_block k config b parent = Ok ()"
    using stored(1) by (auto simp: importable_def)
  then have "chain_inv k (with_block k b d s') e l"
    using block_keeps_inv [OF f(2) n] f(1) new validated_number by metis
  moreover have "chain_inv k (add_receipts h receipts t) e l \<longleftrightarrow> chain_inv k t e l" for h t
    by (rule chain_inv_cong) (simp_all add: add_receipts_def)
  ultimately show ?thesis using add_block_stores [OF stored(1)] by simp
qed

end
