(* ===== verification/Spec2Isabelle.thy ===== *)
theory Spec2Isabelle
  imports Rlp_Struct Trie_Properties Evm_Properties Block_Properties World_Properties Block_Import
begin

text \<open>
  Verification of the Ethereum execution client under \<^verbatim>\<open>src/\<close>.

  \<^bold>\<open>The program.\<close> The client keeps the chain in a store and executes transactions on the world
  state. Values are serialised with RLP (\<^verbatim>\<open>crates/common/rlp\<close>). Accounts and their storage are
  Merkle Patricia tries (\<^verbatim>\<open>crates/storage/trie\<close>) whose nodes are RLP encodings named by their
  hashes; the roots of the transaction, receipt and withdrawal lists in a block header are tries
  too. Transactions, blocks, receipts, the genesis file and blobs are the types of
  \<^verbatim>\<open>crates/common/types\<close>. The virtual machine (\<^verbatim>\<open>crates/vm/levm/src\<close>) runs one transaction against a
  database. The store (\<^verbatim>\<open>crates/storage/store\<close>) holds blocks, indices and trie nodes and applies
  account updates to the state. Block import (\<^verbatim>\<open>crates/blockchain/blockchain.rs\<close>) validates a block,
  executes it and stores it with its state; fork choice (\<^verbatim>\<open>crates/blockchain/fork_choice.rs\<close>) decides
  which of the stored blocks are canonical.

  \<^bold>\<open>Modelling.\<close> A call that can fail returns \<open>result\<close>, with the constructors \<open>Ok\<close>, \<open>Err\<close>, \<open>Panic\<close>
  and \<open>Diverge\<close>; a call with state is a function from the state to the result and the new state
  (\<open>sm\<close>, theory \<^verbatim>\<open>Prelude\<close>), so that an error keeps the writes made before it. Bytes are 8-bit
  words and a \<open>U256\<close> is a 256-bit word. A \<open>u64\<close> is a 64-bit word where the source computes without
  a check, which wraps as in a release build; in the virtual machine, where every sum is checked,
  it is a natural number and the check is written out. Structs are records whose fields carry a
  short prefix, enumerations are datatypes, hash maps are maps. Code of other packages is a
  parameter of the definitions that call it: the hash functions, the secp256k1 and KZG libraries,
  CRC-32, and the database below the virtual machine.

  \<^bold>\<open>RLP.\<close>
  \<^item> \<^verbatim>\<open>Rlp_Encode\<close> and \<^verbatim>\<open>Rlp_Decode\<close> model \<^verbatim>\<open>encode.rs\<close> and \<^verbatim>\<open>decode.rs\<close>, one definition per instance
    of the two traits; \<^verbatim>\<open>Rlp_Struct\<close> models the \<^verbatim>\<open>Encoder\<close> and \<^verbatim>\<open>Decoder\<close> of \<^verbatim>\<open>structs.rs\<close>.
  \<^item> \<^verbatim>\<open>Rlp_Codec\<close> states the contract of a decoder and of a codec as locales, \<^verbatim>\<open>Rlp_Instances\<close>
    interprets them on every instance, and \<^verbatim>\<open>Rlp_Record\<close> derives the contract of a struct from those
    of its fields. The properties are round trips in front of any further input, and the exact
    inputs on which the item decoder panics.

  \<^bold>\<open>Trie.\<close>
  \<^item> \<^verbatim>\<open>Nibbles\<close> (\<^verbatim>\<open>nibbles.rs\<close>), \<^verbatim>\<open>Trie_Node\<close> (node types, hashing, both encodings) and \<^verbatim>\<open>Trie_Ops\<close>
    (\<^verbatim>\<open>state.rs\<close>, the operations of the three nodes, \<^verbatim>\<open>trie.rs\<close>) are the model; \<^verbatim>\<open>Trie_Codec\<close> shows
    that both node encodings are read back.
  \<^item> \<^verbatim>\<open>Patricia\<close> and \<^verbatim>\<open>Patricia_Map\<close> are the specification: tries with subtries in place of hashes,
    shown to be finite maps whose shape their contents determine.
  \<^item> \<^verbatim>\<open>Trie_Refine\<close>, \<^verbatim>\<open>Trie_Insert\<close>, \<^verbatim>\<open>Trie_Remove\<close>, \<^verbatim>\<open>Trie_Correct\<close> and \<^verbatim>\<open>Trie_Commit\<close> show that the
    stored trie refines it, if no two of the nodes involved collide under the hash function.
    \<^verbatim>\<open>Trie_Properties\<close> states the result on the operations of \<^verbatim>\<open>trie.rs\<close>: a trie is a finite map, its
    root hash is a function of its contents and determines them, and a committed trie can be
    opened again, unless its root is so small that it is kept inline and never written.

  \<^bold>\<open>Transactions, blocks and genesis.\<close>
  \<^item> \<^verbatim>\<open>Tx_Types\<close>, \<^verbatim>\<open>Tx_Codec\<close> and \<^verbatim>\<open>Tx_Sign\<close> model \<^verbatim>\<open>transaction.rs\<close>: types, encodings, fees, signing and
    the wrapper of the pool. \<^verbatim>\<open>Tx_Properties\<close> has their round trips, that the sender of a signed typed
    transaction is its signer, the fees of the five types, and two places where the code falls short
    of this.
  \<^item> \<^verbatim>\<open>Block_Types\<close>, \<^verbatim>\<open>Block_Codec\<close> and \<^verbatim>\<open>Receipt_Codec\<close> model \<^verbatim>\<open>block.rs\<close>, \<^verbatim>\<open>receipt.rs\<close> and
    \<^verbatim>\<open>account.rs\<close>; \<^verbatim>\<open>Chain_Config\<close> models \<^verbatim>\<open>genesis.rs\<close> and \<^verbatim>\<open>fork_id.rs\<close>; \<^verbatim>\<open>Block_Rules\<close> models the
    validation of headers and bodies. \<^verbatim>\<open>Block_Properties\<close> shows what an accepted header guarantees,
    that the base fee is the prescribed one exactly while its product fits 64 bits, which blocks are
    read back, and that the transactions root commits to the transactions.
  \<^item> \<^verbatim>\<open>Blobs\<close> models \<^verbatim>\<open>blobs_bundle.rs\<close>: data packed into a blob is read back, and a bundle made from
    blobs validates.

  \<^bold>\<open>Virtual machine.\<close>
  \<^item> The model follows the files of \<^verbatim>\<open>levm/src\<close>: \<^verbatim>\<open>Evm_Types\<close> (data and errors), \<^verbatim>\<open>Evm_Memory\<close>,
    \<^verbatim>\<open>Evm_Opcodes\<close>, \<^verbatim>\<open>Evm_Gas\<close>, \<^verbatim>\<open>Evm_State\<close> (accounts, precompiled contracts), \<^verbatim>\<open>Evm_Arith\<close>,
    \<^verbatim>\<open>Evm_Ops\<close> and \<^verbatim>\<open>Evm_System\<close> (one definition per instruction handler), \<^verbatim>\<open>Evm_Execute\<close>
    (\<^verbatim>\<open>VM::execute\<close>) and \<^verbatim>\<open>Evm_Transact\<close> (\<^verbatim>\<open>VM::new\<close>, validation, settlement).
  \<^item> \<^verbatim>\<open>State_Logic\<close> is a program logic for computations with state. \<^verbatim>\<open>Evm_Resource\<close>, \<^verbatim>\<open>Evm_Handlers\<close>
    and \<^verbatim>\<open>Evm_Safety\<close> show that every handler keeps the frame invariant and spends gas, hence that
    execution neither panics nor diverges. \<^verbatim>\<open>Evm_Static\<close> and \<^verbatim>\<open>Evm_Keeps\<close> show what a frame leaves
    alone, \<^verbatim>\<open>Evm_Words\<close> and \<^verbatim>\<open>Evm_Values\<close> what single instructions compute, and \<^verbatim>\<open>Evm_Settle\<close>,
    \<^verbatim>\<open>Evm_Frames\<close> and \<^verbatim>\<open>Evm_Transfer\<close> the effect of whole frames and transactions.
    \<^verbatim>\<open>Evm_Reference\<close> holds references that do not use the definitions of the model: where the
    instructions of a code start, the value and price of every arithmetic instruction, the cost of
    a transaction. \<^verbatim>\<open>Evm_Properties\<close> states the properties.

  \<^bold>\<open>Store, world state, block import and fork choice.\<close>
  \<^item> \<^verbatim>\<open>Store\<close> models the in-memory engine and the pools of \<^verbatim>\<open>storage.rs\<close> as one record; \<^verbatim>\<open>World_State\<close>
    models the operations of \<^verbatim>\<open>storage.rs\<close> on the state and storage tries, \<^verbatim>\<open>apply_account_updates\<close>
    and \<^verbatim>\<open>add_initial_state\<close> among them.
  \<^item> \<^verbatim>\<open>World_Refine\<close> shows that a store with the nodes of a state is a map from accounts to their
    fields and slots, which account updates change as specified; \<^verbatim>\<open>Genesis_State\<close> shows that the
    genesis state is such a sequence of updates. \<^verbatim>\<open>World_Properties\<close> states both on the store.
  \<^item> \<^verbatim>\<open>Fork_Choice\<close> models \<^verbatim>\<open>apply_fork_choice\<close>; the contract of the canonical index is a locale
    interpreted on the store, from which the chain that is written follows. \<^verbatim>\<open>Canonical_Chain\<close> shows
    that a fork choice that is accepted keeps the canonical index a chain of linked headers.
  \<^item> \<^verbatim>\<open>Block_Import\<close> models \<^verbatim>\<open>add_block\<close> with the execution of a block as a parameter: its outcomes, what
    each leaves of the store, and that an import keeps the chain invariant.

  \<^bold>\<open>Bounds and fuel.\<close> The trie operations follow hashes through a database, so their recursion takes
  fuel, one unit for each node visited. Fuel above the number of nibbles of the path is enough, as
  every step but the last consumes one; for 32-byte keys 66 is enough, and \<open>updates_fuel\<close> adds what
  committing the nodes of an update needs. The interpreter takes one unit for each instruction and
  nested frame; \<open>execute\<close> provides one unit more than the gas that is left, which is enough since
  every instruction that continues spends gas. The theorems say that enough fuel gives a result;
  for the interpreter, also that more fuel gives the same one. Encodings are bounded by the longest slice of the target,
  \<open>slice_bound\<close>, a limit of the language.

  \<^bold>\<open>Not modelled.\<close> The libmdbx and redb engines and the translation to the revm interpreter call
  external packages throughout, and with them the execution of whole blocks, payload building and the
  admission rules of the pool. The trie iterator and the verification of
  range proofs are left out. The peer-to-peer network, the JSON-RPC server, the layer-2 services
  and the command line programs are input and output. Log messages, metrics and locks have no
  counterpart: the model is sequential.
\<close>

end
